(* ===== verification/Prelude.thy ===== *)
theory Prelude
  imports Main "HOL-Library.Word"
begin

text \<open>
  Shared vocabulary of the development: the machine integers of the flight software, the status
  codes the applications exchange with cFE, the outcome of a run that may leave a buffer or wait
  for its environment, and the lemmas on lists, buffers and words that the components share.
\<close>

unbundle bit_operations_syntax

named_theorems buf_simps \<open>reading and writing byte buffers\<close>
named_theorems bytes_simps \<open>byte order conversions\<close>

section \<open>Machine integers\<close>

type_synonym u8 = "8 word"
type_synonym u16 = "16 word"
type_synonym u32 = "32 word"
type_synonym u64 = "64 word"

lemma unat_u8_less: "unat (x :: u8) < 256"
  by (rule order.strict_trans2 [OF unsigned_less]) simp

lemma unat_u8_le: "unat (x :: u8) \<le> 255"
  using unat_u8_less [of x] by simp

lemma unat_u16_less: "unat (x :: u16) < 65536"
  by (rule order.strict_trans2 [OF unsigned_less]) simp

lemma unat_u32_less: "unat (x :: u32) < 4294967296"
  by (rule order.strict_trans2 [OF unsigned_less]) simp

lemma unat_plus_no_wrap:
  fixes x y :: "'a::len word"
  assumes "unat x + unat y < 2 ^ LENGTH('a)"
  shows "unat (x + y) = unat x + unat y"
  using assms by (simp add: unat_word_ariths)

section \<open>Status codes\<close>

text \<open>
  The status values the code compares: those of cFE are documented to be pairwise different, the
  two \<open>CANIO\<close> codes are defined in \<open>canIOMC_hal.h\<close> and \<open>canIOMC_segmentation.h\<close>. Any other
  value a service can return is a \<open>Status_Code\<close>.
\<close>

datatype CFE_Status =
    CFE_SUCCESS
  | CFE_STATUS_BAD_COMMAND_CODE
  | CFE_STATUS_EXTERNAL_RESOURCE_FAIL
  | CFE_SEVERITY_ERROR
  | CFE_SB_TIME_OUT
  | CFE_TBL_INFO_UPDATED
  | CFE_TBL_INFO_UPDATE_PENDING
  | CFE_TBL_INFO_VALIDATION_PENDING
  | CFE_TBL_INFO_DUMP_PENDING
  | CFE_TBL_ERR_NEVER_LOADED
  | CFE_TBL_INFO_RECOVERED_TBL
  | CFE_ES_CDS_ALREADY_EXISTS
  | CANIO_HAL_NO_MSG
  | CANIO_REASSEMBLY_PENDING
  | Status_Code int

section \<open>Runs\<close>

text \<open>
  A piece of C either returns, or touches memory outside a buffer (undefined behaviour, no result
  can be promised), or is still in a loop that waits for the next answer of its environment.
\<close>

datatype 'a run = Returns 'a | OutOfBounds | Blocked

fun run_bind :: "'a run \<Rightarrow> ('a \<Rightarrow> 'b run) \<Rightarrow> 'b run" where
  "run_bind (Returns a) f = f a"
| "run_bind OutOfBounds f = OutOfBounds"
| "run_bind Blocked f = Blocked"

lemma run_bind_Returns_iff:
  "run_bind r f = Returns b \<longleftrightarrow> (\<exists>a. r = Returns a \<and> f a = Returns b)"
  by (cases r) auto

lemma run_bind_assoc: "run_bind (run_bind r f) g = run_bind r (\<lambda>a. run_bind (f a) g)"
  by (cases r) auto

section \<open>Byte buffers\<close>

text \<open>\<open>memcpy\<close> out of and into a buffer of fixed size; \<open>None\<close> is an access past its end.\<close>

definition mem_read :: "u8 list \<Rightarrow> nat \<Rightarrow> nat \<Rightarrow> u8 list option" where
  "mem_read buf off n = (if off + n \<le> length buf then Some (take n (drop off buf)) else None)"

definition mem_write :: "u8 list \<Rightarrow> nat \<Rightarrow> u8 list \<Rightarrow> u8 list option" where
  "mem_write buf off src =
     (if off + length src \<le> length buf
      then Some (take off buf @ src @ drop (off + length src) buf) else None)"

definition zeros :: "nat \<Rightarrow> u8 list" where
  "zeros n = replicate n 0"

text \<open>A freshly zeroed buffer of size \<open>n\<close> whose first bytes are \<open>bs\<close>.\<close>

definition zero_filled :: "nat \<Rightarrow> u8 list \<Rightarrow> u8 list" where
  "zero_filled n bs = bs @ zeros (n - length bs)"

lemma length_zeros [simp]: "length (zeros n) = n"
  by (simp add: zeros_def)

lemma zeros_0 [simp]: "zeros 0 = []"
  by (simp add: zeros_def)

lemma length_zero_filled [simp]: "length (zero_filled n bs) = max n (length bs)"
  by (simp add: zero_filled_def max_def)

lemma take_zero_filled [simp]: "take (length bs) (zero_filled n bs) = bs"
  by (simp add: zero_filled_def)

lemma mem_read_Some [buf_simps]:
  "off + n \<le> length buf \<Longrightarrow> mem_read buf off n = Some (take n (drop off buf))"
  by (simp add: mem_read_def)

lemma mem_read_None [buf_simps]:
  "length buf < off + n \<Longrightarrow> mem_read buf off n = None"
  by (simp add: mem_read_def)

lemma mem_read_SomeD: "mem_read buf off n = Some bs \<Longrightarrow> bs = take n (drop off buf) \<and> length bs = n"
  by (auto simp: mem_read_def split: if_splits)

lemma mem_write_Some [buf_simps]:
  "off + length src \<le> length buf \<Longrightarrow>
   mem_write buf off src = Some (take off buf @ src @ drop (off + length src) buf)"
  by (simp add: mem_write_def)

lemma mem_write_length: "mem_write buf off src = Some buf' \<Longrightarrow> length buf' = length buf"
  by (auto simp: mem_write_def split: if_splits)

lemma mem_write_take:
  assumes "mem_write buf off src = Some buf'"
  shows "take (off + length src) buf' = take off buf @ src"
proof -
  from assms have le: "off + length src \<le> length buf"
    and b: "buf' = take off buf @ src @ drop (off + length src) buf"
    by (auto simp: mem_write_def split: if_splits)
  from le have "min (length buf) off = off" by simp
  then show ?thesis unfolding b by simp
qed

section \<open>Lists cut into pieces\<close>

text \<open>A list cut into pieces of \<open>n\<close> elements; the last piece may be shorter.\<close>

function chunks :: "nat \<Rightarrow> 'a list \<Rightarrow> 'a list list" where
  "chunks n xs = (if n = 0 \<or> xs = [] then [] else take n xs # chunks n (drop n xs))"
  by pat_completeness auto
termination
  by (relation "measure (\<lambda>(n, xs). length xs)") auto

declare chunks.simps [simp del]

lemma chunks_Nil [simp]: "chunks n [] = []"
  by (simp add: chunks.simps)

lemma chunks_Cons:
  "0 < n \<Longrightarrow> xs \<noteq> [] \<Longrightarrow> chunks n xs = take n xs # chunks n (drop n xs)"
  by (subst chunks.simps) simp

lemma chunks_short: "xs \<noteq> [] \<Longrightarrow> length xs \<le> n \<Longrightarrow> chunks n xs = [xs]"
  by (subst chunks_Cons) (auto intro: Nat.gr0I)

lemma concat_chunks: "0 < n \<Longrightarrow> concat (chunks n xs) = xs"
proof (induction n xs rule: chunks.induct)
  case (1 n xs)
  then show ?case by (cases "xs = []") (auto simp: chunks_Cons)
qed

lemma ceil_div_step:
  fixes k n :: nat
  assumes "0 < n" "n < k"
  shows "(k + n - 1) div n = Suc ((k - n + n - 1) div n)"
proof -
  from assms have "k + n - 1 = (k - n + n - 1) + n" by simp
  then show ?thesis using assms(1) by (simp only: div_add_self2)
qed

lemma ceil_div_one:
  fixes k n :: nat
  assumes "0 < k" "k \<le> n"
  shows "(k + n - 1) div n = 1"
proof -
  from assms have "k + n - 1 = (k - 1) + n" "k - 1 < n" by simp_all
  then show ?thesis using assms by (simp only: div_add_self2 div_less)
qed

lemma length_chunks: "0 < n \<Longrightarrow> length (chunks n xs) = (length xs + n - 1) div n"
proof (induction n xs rule: chunks.induct)
  case (1 n xs)
  consider "xs = []" | "xs \<noteq> []" "length xs \<le> n" | "xs \<noteq> []" "n < length xs" by force
  then show ?case
  proof cases
    case 1
    with "1.prems" show ?thesis by simp
  next
    case 2
    with "1.prems" ceil_div_one [of "length xs" n] show ?thesis by (simp add: chunks_Cons)
  next
    case 3
    with "1" have "length (chunks n (drop n xs)) = (length xs - n + n - 1) div n" by simp
    with 3 "1.prems" ceil_div_step [of n "length xs"] show ?thesis
      by (simp add: chunks_Cons del: diff_add_inverse2)
  qed
qed

lemma length_chunks_le: "c \<in> set (chunks n xs) \<Longrightarrow> length c \<le> n"
proof (induction n xs rule: chunks.induct)
  case (1 n xs)
  then show ?case by (cases "n = 0 \<or> xs = []") (auto simp: chunks.simps [of n xs])
qed

lemma chunks_append_full:
  "0 < n \<Longrightarrow> length xs = n \<Longrightarrow> chunks n (xs @ ys) = xs # chunks n ys"
  by (cases "xs = []") (auto simp: chunks_Cons)

section \<open>Byte order\<close>

definition be16 :: "u16 \<Rightarrow> u8 list" where
  "be16 v = [ucast (drop_bit 8 v), ucast v]"

definition be32 :: "u32 \<Rightarrow> u8 list" where
  "be32 v = [ucast (drop_bit 24 v), ucast (drop_bit 16 v), ucast (drop_bit 8 v), ucast v]"

definition be64 :: "u64 \<Rightarrow> u8 list" where
  "be64 v = be32 (ucast (drop_bit 32 v)) @ be32 (ucast v)"

definition le16 :: "u16 \<Rightarrow> u8 list" where
  "le16 v = [ucast v, ucast (drop_bit 8 v)]"

definition le32 :: "u32 \<Rightarrow> u8 list" where
  "le32 v = [ucast v, ucast (drop_bit 8 v), ucast (drop_bit 16 v), ucast (drop_bit 24 v)]"

text \<open>What a \<open>memcpy\<close> into a \<open>uint16\<close> reads on the little-endian target.\<close>

definition read_le16 :: "u8 list \<Rightarrow> nat \<Rightarrow> u16" where
  "read_le16 buf off = ucast (buf ! off) OR push_bit 8 (ucast (buf ! (off + 1)))"

definition read_le32 :: "u8 list \<Rightarrow> nat \<Rightarrow> u32" where
  "read_le32 buf off = ucast (read_le16 buf off) OR push_bit 16 (ucast (read_le16 buf (off + 2)))"

lemma and_mask_eqI:
  fixes x y :: "'a::len word"
  assumes "\<And>n. n < k \<Longrightarrow> bit x n \<longleftrightarrow> bit y n"
  shows "x AND mask k = y AND mask k"
  by (rule bit_word_eqI) (use assms in \<open>auto simp: bit_simps\<close>)

lemma length_be [simp]:
  "length (be16 v) = 2" "length (be32 w) = 4" "length (be64 x) = 8" "length (le16 v) = 2"
  by (simp_all add: be16_def be32_def be64_def le16_def)

lemma read_le16_le16: "read_le16 (le16 v) 0 = v"
  unfolding read_le16_def le16_def
  by (rule bit_word_eqI) (auto simp: bit_simps nth_Cons')

lemma read_le32_at:
  "length pre = off \<Longrightarrow> read_le32 (pre @ le32 v @ post) off = v"
proof -
  assume off: "length pre = off"
  have "(ucast (ucast v :: u8) OR push_bit 8 (ucast (ucast (drop_bit 8 v) :: u8)) :: u16) = ucast v"
    "(ucast (ucast (drop_bit 16 v) :: u8) OR push_bit 8 (ucast (ucast (drop_bit 24 v) :: u8)) :: u16) =
      ucast (drop_bit 16 v)"
    by (rule bit_word_eqI; auto simp: bit_simps dest: bit_imp_le_length)+
  moreover have "ucast (ucast v :: u16) OR push_bit 16 (ucast (ucast (drop_bit 16 v) :: u16)) = v"
    by (rule bit_word_eqI) (auto simp: bit_simps not_less dest: bit_imp_le_length)
  ultimately show ?thesis using off
    by (simp add: read_le32_def read_le16_def le32_def nth_append)
qed

end
