(* ===== verification/Can_Id.thy ===== *)
theory Can_Id
  imports Prelude
begin

text \<open>
  The 29-bit extended CAN identifier of \<open>canIOMC_hal.h\<close>: the packing macro, the six unpacking
  macros, the frame type, and the lemmas that packing loses nothing of fields in range.
\<close>

section \<open>Frames\<close>

record CANIO_Frame =
  fr_CanId :: u32
  fr_Data :: "u8 list"
  fr_Len :: u8

definition CANIO_HAL_MAX_DLC :: nat where
  "CANIO_HAL_MAX_DLC = 8"

section \<open>Packing and unpacking\<close>

definition CANIO_PACK_ID :: "u8 \<Rightarrow> u8 \<Rightarrow> u8 \<Rightarrow> u16 \<Rightarrow> u8 \<Rightarrow> u8 \<Rightarrow> u32" where
  "CANIO_PACK_ID priority sender receiver msgid seqtype seqcount =
     push_bit 27 (ucast priority AND 0x03) OR
     push_bit 23 (ucast sender AND 0x0F) OR
     push_bit 19 (ucast receiver AND 0x0F) OR
     push_bit 9 (ucast msgid AND 0x3FF) OR
     push_bit 7 (ucast seqtype AND 0x03) OR
     (ucast seqcount AND 0x7F)"

definition CANIO_UNPACK_PRIORITY :: "u32 \<Rightarrow> u32" where
  "CANIO_UNPACK_PRIORITY i = drop_bit 27 i AND 0x03"

definition CANIO_UNPACK_SENDERID :: "u32 \<Rightarrow> u32" where
  "CANIO_UNPACK_SENDERID i = drop_bit 23 i AND 0x0F"

definition CANIO_UNPACK_RECEIVERID :: "u32 \<Rightarrow> u32" where
  "CANIO_UNPACK_RECEIVERID i = drop_bit 19 i AND 0x0F"

definition CANIO_UNPACK_MESSAGEID :: "u32 \<Rightarrow> u32" where
  "CANIO_UNPACK_MESSAGEID i = drop_bit 9 i AND 0x3FF"

definition CANIO_UNPACK_SEQTYPE :: "u32 \<Rightarrow> u32" where
  "CANIO_UNPACK_SEQTYPE i = drop_bit 7 i AND 0x03"

definition CANIO_UNPACK_SEQCOUNT :: "u32 \<Rightarrow> u32" where
  "CANIO_UNPACK_SEQCOUNT i = i AND 0x7F"

lemmas unpack_defs = CANIO_UNPACK_PRIORITY_def CANIO_UNPACK_SENDERID_def
  CANIO_UNPACK_RECEIVERID_def CANIO_UNPACK_MESSAGEID_def CANIO_UNPACK_SEQTYPE_def
  CANIO_UNPACK_SEQCOUNT_def

lemma mask_numerals:
  "(0x03 :: 'a::len word) = mask 2" "(0x0F :: 'a::len word) = mask 4"
  "(0x3FF :: 'a::len word) = mask 10" "(0x7F :: 'a::len word) = mask 7"
  by (simp_all add: mask_eq_exp_minus_1)

lemma unpack_pack:
  shows unpack_pack_priority:
    "CANIO_UNPACK_PRIORITY (CANIO_PACK_ID p s r m t c) = ucast p AND 0x03"
  and unpack_pack_sender:
    "CANIO_UNPACK_SENDERID (CANIO_PACK_ID p s r m t c) = ucast s AND 0x0F"
  and unpack_pack_receiver:
    "CANIO_UNPACK_RECEIVERID (CANIO_PACK_ID p s r m t c) = ucast r AND 0x0F"
  and unpack_pack_msgid:
    "CANIO_UNPACK_MESSAGEID (CANIO_PACK_ID p s r m t c) = ucast m AND 0x3FF"
  and unpack_pack_seqtype:
    "CANIO_UNPACK_SEQTYPE (CANIO_PACK_ID p s r m t c) = ucast t AND 0x03"
  and unpack_pack_seqcount:
    "CANIO_UNPACK_SEQCOUNT (CANIO_PACK_ID p s r m t c) = ucast c AND 0x7F"
  unfolding unpack_defs CANIO_PACK_ID_def mask_numerals
  by (rule and_mask_eqI; simp add: bit_simps)+

end
