(* ===== verification/Flight_Msgs.thy ===== *)
theory Flight_Msgs
  imports Can_Id
begin

text \<open>
  The packets the METUCube applications exchange over the cFE software bus, one record per struct
  of the \<open>*_msg.h\<close> headers, and the message type \<open>SB_Msg\<close>, whose constructors are the message ids
  of the \<open>*_msgids.h\<close> headers together with the struct their packets carry. The cFE header of a
  packet (id, length, time stamp) is represented by the constructor; a \<open>float\<close> is its 32-bit
  pattern, because the code only ever moves it.
\<close>

type_synonym float_bits = u32

section \<open>CAN gateway packets (canIOMC_app_msg.h)\<close>

definition CANIOMC_SB_MAX_PAYLOAD :: nat where
  "CANIOMC_SB_MAX_PAYLOAD = 176"

record CANIOMC_CAN_Header =
  hd_Priority :: u8
  hd_SenderID :: u8
  hd_ReceiverID :: u8
  hd_MessageID :: u16
  hd_SeqType :: u8
  hd_SeqCount :: u8

record CANIOMC_CanPacketSB =
  cp_Header :: CANIOMC_CAN_Header
  cp_PayloadLen :: u8
  cp_Payload :: "u8 list"

record CANIOMC_HkTlm_Power =
  chk_CmdCounter :: u8
  chk_ErrCounter :: u8

record CANIOMC_EpsTlmPayload =
  eps_ChannelCurrents :: "u8 list"
  eps_BuckVoltages :: "u16 list"
  eps_BoolFlags :: "u8 list"

definition CANIOMC_MPPT_NUM_READINGS :: nat where
  "CANIOMC_MPPT_NUM_READINGS = 18"

definition CANIOMC_PAYLOAD_NUM_READINGS :: nat where
  "CANIOMC_PAYLOAD_NUM_READINGS = 20"

record CANIOMC_AdcsTlmPayload =
  adcs_QuaternionEst :: "float_bits list"
  adcs_AngularVelEst :: "float_bits list"
  adcs_BiasEst :: "float_bits list"
  adcs_PosEst :: "float_bits list"
  adcs_VelEst :: "float_bits list"
  adcs_PqEst :: "float_bits list"
  adcs_PbEst :: "float_bits list"
  adcs_SunUnitVector1 :: "float_bits list"
  adcs_SunUnitVector2 :: "float_bits list"
  adcs_MagUnitVector1 :: "float_bits list"
  adcs_MagUnitVector2 :: "float_bits list"
  adcs_SunSensorTemp :: "u16 list"

definition CANIOMC_COMM_IFACE_WIRE_SIZE :: nat where
  "CANIOMC_COMM_IFACE_WIRE_SIZE = 58"

definition CANIOMC_COMM_TLM_WIRE_SIZE :: nat where
  "CANIOMC_COMM_TLM_WIRE_SIZE = 172"

record CANIOMC_CommIfaceTlm =
  if_IfaceState :: u8
  if_RfFilterSelection :: u8
  if_TxFrequency :: u32
  if_RxFrequency :: u32
  if_TxFrames :: u32
  if_TxFramesFailed :: u32
  if_TxFramesDropped :: u32
  if_RxFrames :: u32
  if_RxFramesInvalid :: u32
  if_RxFramesDropped :: u32
  if_LastRxTimestamp :: u64
  if_LastRssi :: float_bits
  if_LastValidRxTimestamp :: u64
  if_LastValidRssi :: float_bits

record CANIOMC_CommTlmPayload =
  ct_UptimeMs :: u64
  ct_BootCount :: u32
  ct_VinVoltage :: float_bits
  ct_VinCurrent :: float_bits
  ct_FpgaCurrent :: float_bits
  ct_Dig3v3Current :: float_bits
  ct_Rf5vCurrent :: float_bits
  ct_Emc1702Power :: float_bits
  ct_EfusesPower :: float_bits
  ct_VbatVoltage :: float_bits
  ct_PcbTemperature :: float_bits
  ct_UhfPaTemperature :: float_bits
  ct_SbandPaTemperature :: float_bits
  ct_Uhf :: CANIOMC_CommIfaceTlm
  ct_Sband :: CANIOMC_CommIfaceTlm

text \<open>What a \<open>memset\<close> leaves.\<close>

definition zero_iface :: CANIOMC_CommIfaceTlm where
  "zero_iface = \<lparr>if_IfaceState = 0, if_RfFilterSelection = 0, if_TxFrequency = 0,
     if_RxFrequency = 0, if_TxFrames = 0, if_TxFramesFailed = 0, if_TxFramesDropped = 0,
     if_RxFrames = 0, if_RxFramesInvalid = 0, if_RxFramesDropped = 0, if_LastRxTimestamp = 0,
     if_LastRssi = 0, if_LastValidRxTimestamp = 0, if_LastValidRssi = 0\<rparr>"

definition zero_comm :: CANIOMC_CommTlmPayload where
  "zero_comm = \<lparr>ct_UptimeMs = 0, ct_BootCount = 0, ct_VinVoltage = 0, ct_VinCurrent = 0,
     ct_FpgaCurrent = 0, ct_Dig3v3Current = 0, ct_Rf5vCurrent = 0, ct_Emc1702Power = 0,
     ct_EfusesPower = 0, ct_VbatVoltage = 0, ct_PcbTemperature = 0, ct_UhfPaTemperature = 0,
     ct_SbandPaTemperature = 0, ct_Uhf = zero_iface, ct_Sband = zero_iface\<rparr>"

record CANIOMC_RouteTriggerPkt =
  rt_SenderID :: u8
  rt_PayloadLen :: u8
  rt_Payload :: "u8 list"

definition CANIOMC_SPI_MAX_CHUNK :: u16 where
  "CANIOMC_SPI_MAX_CHUNK = 4096"

record CANIOMC_SpiTxPkt =
  sx_ChunkIdx :: u16
  sx_DataLen :: u16
  sx_Data :: "u8 list"

record CANIOMC_SpiTxDonePkt =
  sd_ChunkIdx :: u16
  sd_Status :: u8

section \<open>Packets of the subsystem applications\<close>

record POWERMC_HkTlm_Power =
  phk_CmdCounter :: u8
  phk_ErrCounter :: u8
  phk_EpsStale :: u8
  phk_ChannelCurrents :: "u8 list"
  phk_BuckVoltages :: "u16 list"
  phk_BoolFlags :: "u8 list"

record MPPTMC_HkTlm_Mppt =
  mhk_CmdCounter :: u8
  mhk_ErrCounter :: u8
  mhk_MpptStale :: u8
  mhk_Readings :: "u16 list"

record ADCSMC_HkTlm_Adcs =
  ahk_CmdCounter :: u8
  ahk_ErrCounter :: u8
  ahk_AdcsStale :: u8
  ahk_Tlm :: CANIOMC_AdcsTlmPayload

record COMMMC_HkTlm_Comm =
  ohk_CmdCounter :: u8
  ohk_ErrCounter :: u8
  ohk_CommStale :: u8
  ohk_currentConnectionRate :: u32
  ohk_Telemetry :: CANIOMC_CommTlmPayload

record COMMMC_APP_ProcessCmd =
  pc_Filler :: u32
  pc_OutMsgToSend :: u32

record PAYLOADMC_HkTlm_Payload =
  yhk_CmdCounter :: u8
  yhk_ErrCounter :: u8
  yhk_PayloadStale :: u8
  yhk_NumberOfTakenPhotos :: u32
  yhk_ActiveCameraN :: u32
  yhk_currentTime :: "u32 \<times> u32"
  yhk_CpuTemperature :: int
  yhk_Readings :: "u8 list"

definition PAYLOADMC_PHOTO_CHUNK_MAX_PAYLOAD :: nat where
  "PAYLOADMC_PHOTO_CHUNK_MAX_PAYLOAD = 8192"

record PAYLOADMC_PhotoChunkPkt =
  ph_ChunkLen :: u16
  ph_ChunkData :: "u8 list"

record DS_FileInfo =
  fi_FileAge :: u32
  fi_FileSize :: u32
  fi_FileRate :: u32
  fi_SequenceCount :: u32
  fi_EnableState :: u16
  fi_OpenState :: u16
  fi_FileName :: string

record DS_CloseFile_Payload =
  dc_FileTableIndex :: u16
  dc_Padding :: u16

section \<open>Messages on the software bus\<close>

datatype SB_Msg =
    CANIOMC_HK_TLM_MID CANIOMC_HkTlm_Power
  | CANIOMC_SEND_HK_MID
  | CANIOMC_CMD_MID CANIOMC_CanPacketSB
  | CANIOMC_EPS_TLM_MID CANIOMC_EpsTlmPayload
  | CANIOMC_SEND_HEARTBEAT_MID
  | CANIOMC_MPPT_TLM_MID "u16 list"
  | CANIOMC_MPPT_HEARTBEAT_MID
  | CANIOMC_PAYLOAD_TLM_MID "u8 list"
  | CANIOMC_PAYLOAD_HEARTBEAT_MID
  | CANIOMC_ADCS_TLM_MID CANIOMC_AdcsTlmPayload
  | CANIOMC_COMM_TLM_MID CANIOMC_CommTlmPayload
  | CANIOMC_PAYLOAD_TAKEPHOTO_MID CANIOMC_RouteTriggerPkt
  | CANIOMC_PAYLOAD_CAPTURE_FRAME_MID CANIOMC_RouteTriggerPkt
  | CANIOMC_COMM_IMG_REQUEST_MID CANIOMC_RouteTriggerPkt
  | CANIOMC_IMG_XFER_BEGIN_ACK_MID CANIOMC_RouteTriggerPkt
  | CANIOMC_IMG_CHUNK_ACK_MID CANIOMC_RouteTriggerPkt
  | CANIOMC_IMG_XFER_RESULT_MID CANIOMC_RouteTriggerPkt
  | CANIOMC_SPI_TX_MID CANIOMC_SpiTxPkt
  | CANIOMC_SPI_TX_DONE_MID CANIOMC_SpiTxDonePkt
  | POWERMC_HK_TLM_MID POWERMC_HkTlm_Power
  | POWERMC_SEND_HK_MID
  | POWERMC_CMD_MID
  | MPPTMC_HK_TLM_MID MPPTMC_HkTlm_Mppt
  | MPPTMC_SEND_HK_MID
  | MPPTMC_CMD_MID
  | ADCSMC_HK_TLM_MID ADCSMC_HkTlm_Adcs
  | ADCSMC_SEND_HK_MID
  | ADCSMC_CMD_MID
  | COMMMC_HK_TLM_MID COMMMC_HkTlm_Comm
  | COMMMC_SEND_HK_MID
  | COMMMC_CMD_MID COMMMC_APP_ProcessCmd
  | PAYLOADMC_HK_TLM_MID PAYLOADMC_HkTlm_Payload
  | PAYLOADMC_SEND_HK_MID
  | PAYLOADMC_CMD_MID
  | PAYLOADMC_IMAGING_MODE_MID bool
  | PAYLOADMC_SEND_GVCP_HEARTBEAT_MID
  | PAYLOADMC_PHOTO_CHUNK_MID PAYLOADMC_PhotoChunkPkt
  | DS_CMD_MID u8 DS_CloseFile_Payload
  | DS_COMP_TLM_MID DS_FileInfo
  | Other_MID u16

text \<open>The numeric ids of the headers; an application switches on them.\<close>

primrec mid_value :: "SB_Msg \<Rightarrow> u16" where
  "mid_value (CANIOMC_HK_TLM_MID x) = 0xDC0"
| "mid_value CANIOMC_SEND_HK_MID = 0xDC1"
| "mid_value (CANIOMC_CMD_MID x) = 0xDC2"
| "mid_value (CANIOMC_EPS_TLM_MID x) = 0xDC3"
| "mid_value CANIOMC_SEND_HEARTBEAT_MID = 0xDC4"
| "mid_value (CANIOMC_MPPT_TLM_MID x) = 0xDC5"
| "mid_value CANIOMC_MPPT_HEARTBEAT_MID = 0xDC6"
| "mid_value (CANIOMC_PAYLOAD_TLM_MID x) = 0xDC7"
| "mid_value CANIOMC_PAYLOAD_HEARTBEAT_MID = 0xDC8"
| "mid_value (CANIOMC_ADCS_TLM_MID x) = 0xDC9"
| "mid_value (CANIOMC_COMM_TLM_MID x) = 0xDCA"
| "mid_value (CANIOMC_PAYLOAD_TAKEPHOTO_MID x) = 0xDCB"
| "mid_value (CANIOMC_PAYLOAD_CAPTURE_FRAME_MID x) = 0xDCC"
| "mid_value (CANIOMC_COMM_IMG_REQUEST_MID x) = 0xDCD"
| "mid_value (CANIOMC_IMG_XFER_BEGIN_ACK_MID x) = 0xDCE"
| "mid_value (CANIOMC_IMG_CHUNK_ACK_MID x) = 0xDCF"
| "mid_value (CANIOMC_IMG_XFER_RESULT_MID x) = 0xDD0"
| "mid_value (CANIOMC_SPI_TX_MID x) = 0xDD1"
| "mid_value (CANIOMC_SPI_TX_DONE_MID x) = 0xDD2"
| "mid_value (POWERMC_HK_TLM_MID x) = 0xAC0"
| "mid_value POWERMC_SEND_HK_MID = 0xAC1"
| "mid_value POWERMC_CMD_MID = 0xAC2"
| "mid_value (MPPTMC_HK_TLM_MID x) = 0xFC0"
| "mid_value MPPTMC_SEND_HK_MID = 0xFC1"
| "mid_value MPPTMC_CMD_MID = 0xFC2"
| "mid_value (ADCSMC_HK_TLM_MID x) = 0xCC0"
| "mid_value ADCSMC_SEND_HK_MID = 0xCC1"
| "mid_value ADCSMC_CMD_MID = 0xCC2"
| "mid_value (COMMMC_HK_TLM_MID x) = 0xBC0"
| "mid_value COMMMC_SEND_HK_MID = 0xBC1"
| "mid_value (COMMMC_CMD_MID x) = 0xBC2"
| "mid_value (PAYLOADMC_HK_TLM_MID x) = 0xEC0"
| "mid_value PAYLOADMC_SEND_HK_MID = 0xEC1"
| "mid_value PAYLOADMC_CMD_MID = 0xEC2"
| "mid_value (PAYLOADMC_IMAGING_MODE_MID x) = 0xEC3"
| "mid_value PAYLOADMC_SEND_GVCP_HEARTBEAT_MID = 0xEC4"
| "mid_value (PAYLOADMC_PHOTO_CHUNK_MID x) = 0xEC5"
| "mid_value (DS_CMD_MID x y) = 0x18BB"
| "mid_value (DS_COMP_TLM_MID x) = 0x8BA"
| "mid_value (Other_MID x) = x"

end
