(* ===== verification/Flight_Env.thy ===== *)
theory Flight_Env
  imports Flight_Msgs
begin

text \<open>
  The boundary of the applications: every call that leaves \<open>src/\<close> (cFE, OSAL, the kernel, the
  camera link) is an entry of a trace, in the order the code makes the calls, together with the
  reply the environment gave. The environment itself is a record of reply functions of the trace
  so far, so it may behave in any way; the definitions that use it take it as an argument.
\<close>

section \<open>Calls\<close>

datatype App_Id = CANIOMC | COMMMC | POWERMC | MPPTMC | ADCSMC | PAYLOADMC

datatype EVS_EventType = EVS_DEBUG | EVS_INFORMATION | EVS_ERROR | EVS_CRITICAL

text \<open>The services an application calls while it starts.\<close>

datatype Service =
    EVS_Register
  | SB_CreatePipe nat
  | SB_Subscribe u16
  | TBL_Register
  | TBL_Load
  | TBL_Manage
  | TBL_GetAddress
  | TBL_ReleaseAddress
  | CAN_HAL_Init
  | SPI_HAL_Init
  | GVCP_Socket nat
  | OS_TaskCreate

datatype Call =
    SB_Transmit SB_Msg CFE_Status
  | EVS_SendEvent App_Id nat EVS_EventType
  | ES_WriteToSysLog
  | Svc Service CFE_Status
  | HAL_Send CANIO_Frame CFE_Status
  | SPI_HAL_Write "u8 list" CFE_Status
  | OS_TaskDelay nat
  | OS_TranslatePath string
  | Fopen string
  | Fclose
  | Udp_Sendto nat "u8 list" bool
  | Udp_Recvfrom nat
  | Ground_Send "u8 list" CFE_Status
  | Time_GetTime
  | Read_Cpu_Temp

type_synonym Trace = "Call list"

section \<open>The environment\<close>

text \<open>
  \<open>env_file tr p\<close> is what \<open>fopen p\<close> finds: the bytes of the file and, for a medium that fails,
  the position from which reads report an error.
\<close>

text \<open>
  What the kernel answers while a packet is sent to the ground: the three steps that set the line
  up (socket, address and connection, or opening and configuring the serial line), then one answer
  per \<open>send\<close> or \<open>write\<close>.
\<close>

datatype Send_Answer = Sent nat | Interrupted | Failed

record Ground_Link =
  gl_opened :: bool
  gl_configured :: bool
  gl_connected :: bool
  gl_answers :: "Send_Answer list"

text \<open>
  What the camera stream and the heap answer during the capture of a frame: whether the socket is
  created and bound, one answer per \<open>recvfrom\<close> (\<open>None\<close> when nothing arrived within the timeout),
  whether \<open>malloc\<close> of a size succeeds with that many datagrams still to come, and what the memory
  it hands out holds.
\<close>

record Gvsp_Stream =
  st_socket :: bool
  st_bind :: bool
  st_recv :: "u8 list option list"
  st_malloc :: "nat \<Rightarrow> u32 \<Rightarrow> bool"
  st_junk :: "nat \<Rightarrow> u8 list"

text \<open>\<open>env_cpu_temp\<close> is what \<open>fscanf\<close> leaves in its variable, 0 without the file.\<close>

record Env =
  env_sb :: "Trace \<Rightarrow> SB_Msg \<Rightarrow> CFE_Status"
  env_svc :: "Trace \<Rightarrow> Service \<Rightarrow> CFE_Status"
  env_can :: "Trace \<Rightarrow> CANIO_Frame \<Rightarrow> CFE_Status"
  env_spi :: "Trace \<Rightarrow> u8 list \<Rightarrow> CFE_Status"
  env_path :: "Trace \<Rightarrow> string \<Rightarrow> string option"
  env_file :: "Trace \<Rightarrow> string \<Rightarrow> (u8 list \<times> nat option) option"
  env_sendto :: "Trace \<Rightarrow> nat \<Rightarrow> u8 list \<Rightarrow> bool"
  env_recvfrom :: "Trace \<Rightarrow> nat \<Rightarrow> u8 list option"
  env_ground :: "Trace \<Rightarrow> u8 list \<Rightarrow> Ground_Link"
  env_stream :: "Trace \<Rightarrow> Gvsp_Stream"
  env_time :: "Trace \<Rightarrow> u32 \<times> u32"
  env_cpu_temp :: "Trace \<Rightarrow> int"

definition sb_transmit :: "Env \<Rightarrow> SB_Msg \<Rightarrow> Trace \<Rightarrow> CFE_Status \<times> Trace" where
  "sb_transmit env m tr = (env_sb env tr m, tr @ [SB_Transmit m (env_sb env tr m)])"

definition svc_call :: "Env \<Rightarrow> Service \<Rightarrow> Trace \<Rightarrow> CFE_Status \<times> Trace" where
  "svc_call env v tr = (env_svc env tr v, tr @ [Svc v (env_svc env tr v)])"

definition hal_send :: "Env \<Rightarrow> CANIO_Frame \<Rightarrow> Trace \<Rightarrow> CFE_Status \<times> Trace" where
  "hal_send env f tr = (env_can env tr f, tr @ [HAL_Send f (env_can env tr f)])"

definition spi_hal_write :: "Env \<Rightarrow> u8 list \<Rightarrow> Trace \<Rightarrow> CFE_Status \<times> Trace" where
  "spi_hal_write env bs tr = (env_spi env tr bs, tr @ [SPI_HAL_Write bs (env_spi env tr bs)])"

definition send_event :: "App_Id \<Rightarrow> nat \<Rightarrow> EVS_EventType \<Rightarrow> Trace \<Rightarrow> Trace" where
  "send_event app eid ty tr = tr @ [EVS_SendEvent app eid ty]"

definition sys_log :: "Trace \<Rightarrow> Trace" where
  "sys_log tr = tr @ [ES_WriteToSysLog]"

text \<open>An environment in which every service succeeds.\<close>

definition good_env :: Env where
  "good_env = \<lparr>env_sb = \<lambda>_ _. CFE_SUCCESS,
     env_svc = \<lambda>_ v. (case v of TBL_GetAddress \<Rightarrow> CFE_TBL_INFO_UPDATED | _ \<Rightarrow> CFE_SUCCESS),
     env_can = \<lambda>_ _. CFE_SUCCESS, env_spi = \<lambda>_ _. CFE_SUCCESS, env_path = \<lambda>_ p. Some p,
     env_file = \<lambda>_ _. None, env_sendto = \<lambda>_ _ _. True, env_recvfrom = \<lambda>_ _. None,
     env_ground = \<lambda>_ d. \<lparr>gl_opened = True, gl_configured = True, gl_connected = True,
       gl_answers = [Sent (length d)]\<rparr>, env_stream = \<lambda>_. \<lparr>st_socket = True, st_bind = True, st_recv = replicate 20 None,
       st_malloc = \<lambda>_ _. True, st_junk = \<lambda>_. []\<rparr>,
     env_time = \<lambda>_. (0, 0), env_cpu_temp = \<lambda>_. 0\<rparr>"

lemmas env_call_defs = sb_transmit_def svc_call_def hal_send_def spi_hal_write_def
  send_event_def sys_log_def

section \<open>What a trace says\<close>

primrec sb_of :: "Call \<Rightarrow> SB_Msg list" where
  "sb_of (SB_Transmit m s) = [m]"
| "sb_of (EVS_SendEvent a b c) = []"
| "sb_of ES_WriteToSysLog = []"
| "sb_of (Svc a b) = []"
| "sb_of (HAL_Send a b) = []"
| "sb_of (SPI_HAL_Write a b) = []"
| "sb_of (OS_TaskDelay a) = []"
| "sb_of (OS_TranslatePath a) = []"
| "sb_of (Fopen a) = []"
| "sb_of Fclose = []"
| "sb_of (Udp_Sendto a b c) = []"
| "sb_of (Udp_Recvfrom a) = []"
| "sb_of (Ground_Send a b) = []"
| "sb_of Time_GetTime = []"
| "sb_of Read_Cpu_Temp = []"

text \<open>The messages handed to the software bus, in order, and those it accepted.\<close>

definition sb_sent :: "Trace \<Rightarrow> SB_Msg list" where
  "sb_sent tr = concat (map sb_of tr)"

definition sb_delivered :: "Trace \<Rightarrow> SB_Msg list" where
  "sb_delivered tr =
     concat (map (\<lambda>c. case c of SB_Transmit m CFE_SUCCESS \<Rightarrow> [m] | _ \<Rightarrow> []) tr)"

text \<open>The frames handed to the CAN driver, and the bytes clocked out over SPI.\<close>

definition can_sent :: "Trace \<Rightarrow> CANIO_Frame list" where
  "can_sent tr = concat (map (\<lambda>c. case c of HAL_Send f s \<Rightarrow> [f] | _ \<Rightarrow> []) tr)"

definition spi_sent :: "Trace \<Rightarrow> u8 list list" where
  "spi_sent tr = concat (map (\<lambda>c. case c of SPI_HAL_Write b s \<Rightarrow> [b] | _ \<Rightarrow> []) tr)"

definition events_of :: "Trace \<Rightarrow> (App_Id \<times> nat) list" where
  "events_of tr = concat (map (\<lambda>c. case c of EVS_SendEvent a e t \<Rightarrow> [(a, e)] | _ \<Rightarrow> []) tr)"

lemma trace_views_Nil [simp]:
  "sb_sent [] = []" "sb_delivered [] = []" "can_sent [] = []" "spi_sent [] = []"
  "events_of [] = []"
  by (simp_all add: sb_sent_def sb_delivered_def can_sent_def spi_sent_def events_of_def)

lemma trace_views_append [simp]:
  "sb_sent (a @ b) = sb_sent a @ sb_sent b"
  "sb_delivered (a @ b) = sb_delivered a @ sb_delivered b"
  "can_sent (a @ b) = can_sent a @ can_sent b"
  "spi_sent (a @ b) = spi_sent a @ spi_sent b"
  "events_of (a @ b) = events_of a @ events_of b"
  by (simp_all add: sb_sent_def sb_delivered_def can_sent_def spi_sent_def events_of_def)

lemma sb_sent_Cons [simp]: "sb_sent (c # tr) = sb_of c @ sb_sent tr"
  by (simp add: sb_sent_def)

lemma sb_delivered_Cons [simp]:
  "sb_delivered (c # tr) =
     (case c of SB_Transmit m CFE_SUCCESS \<Rightarrow> [m] | _ \<Rightarrow> []) @ sb_delivered tr"
  by (simp add: sb_delivered_def)

lemma can_sent_Cons [simp]:
  "can_sent (c # tr) = (case c of HAL_Send f s \<Rightarrow> [f] | _ \<Rightarrow> []) @ can_sent tr"
  by (simp add: can_sent_def)

lemma spi_sent_Cons [simp]:
  "spi_sent (c # tr) = (case c of SPI_HAL_Write b s \<Rightarrow> [b] | _ \<Rightarrow> []) @ spi_sent tr"
  by (simp add: spi_sent_def)

lemma events_of_Cons [simp]:
  "events_of (c # tr) = (case c of EVS_SendEvent a e t \<Rightarrow> [(a, e)] | _ \<Rightarrow> []) @ events_of tr"
  by (simp add: events_of_def)

end
