(* ===== verification/Segmentation.thy ===== *)
theory Segmentation
  imports Flight_Env
begin

text \<open>
  The CAN segmentation and reassembly engine of \<open>canIOMC_segmentation.c\<close>: the sender loop, the
  table of four reassembly slots and the frame handler, an abstract engine on finite maps that
  the slot table implements, and the theorems that connect the two ends of the bus.
\<close>

section \<open>Sender\<close>

definition CANIO_SEQ_SINGLE :: u8 where
  "CANIO_SEQ_SINGLE = 0x03"

definition CANIO_SEQ_FIRST :: u8 where
  "CANIO_SEQ_FIRST = 0x01"

definition CANIO_SEQ_CONT :: u8 where
  "CANIO_SEQ_CONT = 0x00"

definition CANIO_SEQ_LAST :: u8 where
  "CANIO_SEQ_LAST = 0x02"

lemmas seq_defs = CANIO_SEQ_SINGLE_def CANIO_SEQ_FIRST_def CANIO_SEQ_CONT_def CANIO_SEQ_LAST_def

definition seg_chunkLen :: "u8 \<Rightarrow> u8 \<Rightarrow> u8" where
  "seg_chunkLen Len offset =
     (if of_nat CANIO_HAL_MAX_DLC < Len - offset then of_nat CANIO_HAL_MAX_DLC else Len - offset)"

definition seg_seqType :: "u8 \<Rightarrow> u8 \<Rightarrow> u8 \<Rightarrow> u8 \<Rightarrow> u8" where
  "seg_seqType Len offset chunkLen seqCount =
     (if \<not> CANIO_HAL_MAX_DLC < unat Len then CANIO_SEQ_SINGLE
      else if seqCount = 0 then CANIO_SEQ_FIRST
      else if unat Len \<le> unat offset + unat chunkLen then CANIO_SEQ_LAST
      else CANIO_SEQ_CONT)"

definition seg_frame :: "CANIOMC_CAN_Header \<Rightarrow> u8 \<Rightarrow> u8 \<Rightarrow> u8 list \<Rightarrow> CANIO_Frame" where
  "seg_frame Hdr seqType seqCount bytes =
     \<lparr>fr_CanId = CANIO_PACK_ID (hd_Priority Hdr) (hd_SenderID Hdr) (hd_ReceiverID Hdr)
                   (hd_MessageID Hdr) seqType seqCount,
      fr_Data = zero_filled CANIO_HAL_MAX_DLC bytes,
      fr_Len = of_nat CANIO_HAL_MAX_DLC\<rparr>"

text \<open>The bytes one turn of the loop copies into the frame; \<open>None\<close> is a read past the data.\<close>

definition seg_copy :: "u8 list option \<Rightarrow> u8 \<Rightarrow> u8 \<Rightarrow> u8 list option" where
  "seg_copy Data offset chunkLen =
     (case Data of None \<Rightarrow> Some []
      | Some d \<Rightarrow> if 0 < chunkLen then mem_read d (unat offset) (unat chunkLen) else Some [])"

lemma unat_seg_chunkLen:
  "offset \<le> Len \<Longrightarrow> unat (seg_chunkLen Len offset) = min 8 (unat Len - unat offset)"
  by (auto simp: seg_chunkLen_def CANIO_HAL_MAX_DLC_def word_less_nat_alt min_def unat_sub)

lemma unat_seg_advance:
  assumes "offset \<le> Len"
  shows "unat (offset + seg_chunkLen Len offset) = min (unat offset + 8) (unat Len)"
proof -
  from assms have ol: "unat offset \<le> unat Len" by (simp add: word_le_nat_alt)
  have "unat (offset + seg_chunkLen Len offset) = unat offset + unat (seg_chunkLen Len offset)"
    by (rule unat_plus_no_wrap)
      (use ol unat_u8_less [of Len] in \<open>simp add: unat_seg_chunkLen assms\<close>)
  then show ?thesis using ol by (auto simp: unat_seg_chunkLen assms min_def)
qed

lemma seg_loop_termination:
  fixes Len offset :: u8
  assumes "offset + seg_chunkLen Len offset < Len"
  shows "(if offset + seg_chunkLen Len offset \<le> Len
          then unat Len - unat (offset + seg_chunkLen Len offset) else 300)
       < (if offset \<le> Len then unat Len - unat offset else 300)"
proof -
  have le: "offset + seg_chunkLen Len offset \<le> Len" using assms by simp
  show ?thesis
  proof (cases "offset \<le> Len")
    case True
    with assms le show ?thesis by (auto simp: unat_seg_advance word_less_nat_alt min_def)
  next
    case False
    with le unat_u8_less [of Len] show ?thesis by simp
  qed
qed

text \<open>
  The \<open>do\<close> loop. \<open>offset\<close> and \<open>seqCount\<close> are \<open>uint8\<close> and wrap; the comparison of the guard does too.
\<close>

function (sequential) seg_send_loop ::
  "Env \<Rightarrow> CANIOMC_CAN_Header \<Rightarrow> u8 list option \<Rightarrow> u8 \<Rightarrow> u8 \<Rightarrow> u8 \<Rightarrow> Trace \<Rightarrow>
   (CFE_Status \<times> Trace) run" where
  "seg_send_loop env Hdr Data Len offset seqCount tr =
     (let chunkLen = seg_chunkLen Len offset;
          seqType = seg_seqType Len offset chunkLen seqCount
      in case seg_copy Data offset chunkLen of
           None \<Rightarrow> OutOfBounds
         | Some bytes \<Rightarrow>
             (case hal_send env (seg_frame Hdr seqType seqCount bytes) tr of (status, tr') \<Rightarrow>
                if status \<noteq> CFE_SUCCESS then Returns (status, tr')
                else if Len = 0 then Returns (CFE_SUCCESS, tr')
                else if offset + chunkLen < Len
                then seg_send_loop env Hdr Data Len (offset + chunkLen) (seqCount + 1) tr'
                else Returns (CFE_SUCCESS, tr')))"
  by pat_completeness auto
termination seg_send_loop
  by (relation "measure (\<lambda>(env, Hdr, Data, Len, offset, seqCount, tr).
        if offset \<le> Len then unat Len - unat offset else 300)")
     (simp, simp only: in_measure prod.case seg_loop_termination)

declare seg_send_loop.simps [simp del]

definition CANIO_SendSegmented ::
  "Env \<Rightarrow> CANIOMC_CAN_Header option \<Rightarrow> u8 list option \<Rightarrow> u8 \<Rightarrow> Trace \<Rightarrow>
   (CFE_Status \<times> Trace) run" where
  "CANIO_SendSegmented env Hdr Data Len tr =
     (case Hdr of None \<Rightarrow> Returns (CFE_STATUS_BAD_COMMAND_CODE, tr)
      | Some h \<Rightarrow> seg_send_loop env h Data Len 0 0 tr)"

section \<open>What the sender puts on the bus\<close>

text \<open>
  A reference for the loop: one \<open>SINGLE\<close> frame for up to eight bytes, otherwise \<open>FIRST\<close>, any
  number of \<open>CONT\<close> and one \<open>LAST\<close>, each padded with zeros to eight bytes.
\<close>

function seg_tail :: "CANIOMC_CAN_Header \<Rightarrow> u8 \<Rightarrow> u8 list \<Rightarrow> CANIO_Frame list" where
  "seg_tail h c bs =
     (if length bs \<le> 8 then [seg_frame h CANIO_SEQ_LAST c bs]
      else seg_frame h CANIO_SEQ_CONT c (take 8 bs) # seg_tail h (c + 1) (drop 8 bs))"
  by pat_completeness auto
termination seg_tail
  by (relation "measure (\<lambda>(h, c, bs). length bs)") auto

declare seg_tail.simps [simp del]

definition seg_frames :: "CANIOMC_CAN_Header \<Rightarrow> u8 list \<Rightarrow> CANIO_Frame list" where
  "seg_frames h bs =
     (if length bs \<le> 8 then [seg_frame h CANIO_SEQ_SINGLE 0 bs]
      else seg_frame h CANIO_SEQ_FIRST 0 (take 8 bs) # seg_tail h 1 (drop 8 bs))"

fun send_all :: "Env \<Rightarrow> CANIO_Frame list \<Rightarrow> Trace \<Rightarrow> CFE_Status \<times> Trace" where
  "send_all env [] tr = (CFE_SUCCESS, tr)"
| "send_all env (f # fs) tr =
     (case hal_send env f tr of (status, tr') \<Rightarrow>
        if status \<noteq> CFE_SUCCESS then (status, tr') else send_all env fs tr')"

lemma hal_send_eq: "hal_send env f tr = (env_can env tr f, tr @ [HAL_Send f (env_can env tr f)])"
  by (simp add: hal_send_def)

lemma seg_copy_Some:
  assumes "offset \<le> Len" "unat Len \<le> length d"
  shows "seg_copy (Some d) offset (seg_chunkLen Len offset) =
         Some (take 8 (drop (unat offset) (take (unat Len) d)))"
proof (cases "seg_chunkLen Len offset = 0")
  case True
  with unat_seg_chunkLen [OF assms(1)] have "unat Len \<le> unat offset" by (simp add: min_def split: if_splits)
  with True show ?thesis by (simp add: seg_copy_def)
next
  case False
  have "unat offset \<le> unat Len" using assms(1) by (simp add: word_le_nat_alt)
  with assms False show ?thesis
    by (auto simp: seg_copy_def unat_seg_chunkLen word_gt_0 mem_read_def min_def take_drop add.commute)
qed

lemma seg_send_loop_tail:
  assumes "8 < unat Len" "unat Len \<le> length d"
  shows "offset < Len \<Longrightarrow> unat offset = 8 * unat c \<Longrightarrow> c \<noteq> 0 \<Longrightarrow>
    seg_send_loop env h (Some d) Len offset c tr =
      Returns (send_all env (seg_tail h c (drop (unat offset) (take (unat Len) d))) tr)"
proof (induction "unat Len - unat offset" arbitrary: offset c tr rule: less_induct)
  case less
  let ?rest = "drop (unat offset) (take (unat Len) d)"
  have ol: "offset \<le> Len" "unat offset < unat Len"
    using less.prems(1) by (simp_all add: word_less_nat_alt word_le_nat_alt)
  have len: "length ?rest = unat Len - unat offset" using assms(2) by simp
  have copy: "seg_copy (Some d) offset (seg_chunkLen Len offset) = Some (take 8 ?rest)"
    by (rule seg_copy_Some [OF ol(1) assms(2)])
  have L0: "Len \<noteq> 0" using assms(1) by auto
  show ?case
  proof (cases "unat Len \<le> unat offset + 8")
    case True
    then have "seg_seqType Len offset (seg_chunkLen Len offset) c = CANIO_SEQ_LAST"
      using less.prems ol assms(1)
      by (simp add: seg_seqType_def CANIO_HAL_MAX_DLC_def unat_seg_chunkLen)
    moreover have "\<not> offset + seg_chunkLen Len offset < Len"
      using True ol by (simp add: word_less_nat_alt unat_seg_advance)
    moreover have "seg_tail h c ?rest = [seg_frame h CANIO_SEQ_LAST c (take 8 ?rest)]"
      using True len by (simp add: seg_tail.simps)
    ultimately show ?thesis using copy L0
      by (subst seg_send_loop.simps) (simp add: hal_send_eq Let_def del: drop_take)
  next
    case False
    then have "seg_seqType Len offset (seg_chunkLen Len offset) c = CANIO_SEQ_CONT"
      using less.prems ol assms(1)
      by (simp add: seg_seqType_def CANIO_HAL_MAX_DLC_def unat_seg_chunkLen)
    moreover have adv: "unat (offset + seg_chunkLen Len offset) = unat offset + 8"
      using False ol by (simp add: unat_seg_advance)
    moreover have lt: "offset + seg_chunkLen Len offset < Len"
      using False adv by (simp add: word_less_nat_alt)
    moreover have "seg_tail h c ?rest =
        seg_frame h CANIO_SEQ_CONT c (take 8 ?rest) # seg_tail h (c + 1) (drop 8 ?rest)"
    proof -
      have "\<not> length ?rest \<le> 8" using False len by linarith
      then show ?thesis by (simp only: seg_tail.simps [of h c ?rest] if_False)
    qed
    moreover have "unat (c + 1) = unat c + 1"
      using less.prems(2) ol(2) unat_u8_less [of Len] unat_plus_no_wrap [of c 1] by simp
    moreover from this have "c + 1 \<noteq> 0" by auto
    moreover have "drop (unat offset + 8) (take (unat Len) d) = drop 8 ?rest"
      by (simp add: add.commute del: drop_take)
    moreover note less.hyps [of "offset + seg_chunkLen Len offset" "c + 1"]
    ultimately show ?thesis using copy L0 less.prems ol
      by (subst seg_send_loop.simps) (simp add: hal_send_eq Let_def del: drop_take drop_drop)
  qed
qed

lemma seg_send_loop_frames:
  assumes "unat Len \<le> length d"
  shows "seg_send_loop env h (Some d) Len 0 0 tr =
    Returns (send_all env (seg_frames h (take (unat Len) d)) tr)"
proof -
  let ?bs = "take (unat Len) d"
  have copy: "seg_copy (Some d) 0 (seg_chunkLen Len 0) = Some (take 8 ?bs)"
    using seg_copy_Some [of 0 Len d] assms by simp
  have adv: "unat (seg_chunkLen Len 0) = min 8 (unat Len)"
    using unat_seg_chunkLen [of 0 Len] by simp
  have len: "length ?bs = unat Len" using assms by simp
  show ?thesis
  proof (cases "unat Len \<le> 8")
    case True
    then have "\<not> seg_chunkLen Len 0 < Len" using adv by (simp add: word_less_nat_alt)
    moreover have "seg_seqType Len 0 (seg_chunkLen Len 0) 0 = CANIO_SEQ_SINGLE"
      using True by (simp add: seg_seqType_def CANIO_HAL_MAX_DLC_def)
    moreover have "seg_frames h ?bs = [seg_frame h CANIO_SEQ_SINGLE 0 (take 8 ?bs)]"
      using True len by (simp add: seg_frames_def del: take_take)
    ultimately show ?thesis using copy
      by (subst seg_send_loop.simps) (simp add: hal_send_eq Let_def del: take_take)
  next
    case False
    then have "seg_chunkLen Len 0 < Len" "seg_chunkLen Len 0 = 8"
      using adv by (simp_all add: word_less_nat_alt word_unat_eq_iff)
    moreover have "seg_seqType Len 0 (seg_chunkLen Len 0) 0 = CANIO_SEQ_FIRST"
      using False by (simp add: seg_seqType_def CANIO_HAL_MAX_DLC_def)
    moreover have "seg_frames h ?bs =
        seg_frame h CANIO_SEQ_FIRST 0 (take 8 ?bs) # seg_tail h 1 (drop 8 ?bs)"
    proof -
      have "\<not> length ?bs \<le> 8" using False len by linarith
      then show ?thesis by (simp only: seg_frames_def if_False)
    qed
    moreover note seg_send_loop_tail [of Len d 8 1 env h]
    moreover have "Len \<noteq> 0" using False by auto
    ultimately show ?thesis using copy assms False
      by (subst seg_send_loop.simps) (simp add: hal_send_eq Let_def del: take_take drop_take)
  qed
qed

lemma seg_send_loop_empty:
  "seg_send_loop env h Data 0 0 0 tr = Returns (send_all env (seg_frames h []) tr)"
proof -
  have z: "seg_chunkLen 0 0 = 0" by (simp add: seg_chunkLen_def)
  have "seg_copy Data 0 0 = Some []" by (simp add: seg_copy_def split: option.split)
  with z show ?thesis
    by (subst seg_send_loop.simps) (simp add: seg_seqType_def seg_frames_def hal_send_eq Let_def)
qed

lemma send_all_good:
  assumes "\<And>tr f. f \<in> set fs \<Longrightarrow> env_can env tr f = CFE_SUCCESS"
  shows "send_all env fs tr = (CFE_SUCCESS, tr @ map (\<lambda>f. HAL_Send f CFE_SUCCESS) fs)"
  using assms by (induction fs arbitrary: tr) (simp_all add: hal_send_eq)

lemma can_sent_map_HAL_Send [simp]: "can_sent (map (\<lambda>f. HAL_Send f s) fs) = fs"
  by (induction fs) simp_all

text \<open>A failing driver stops the loop: a prefix of the frames is on the bus.\<close>

lemma send_all_prefix:
  "\<exists>n \<le> length fs. can_sent (snd (send_all env fs tr)) = can_sent tr @ take n fs \<and>
     (fst (send_all env fs tr) = CFE_SUCCESS \<longrightarrow> n = length fs)"
proof (induction fs arbitrary: tr)
  case Nil
  then show ?case by simp
next
  case (Cons f fs)
  show ?case
  proof (cases "env_can env tr f = CFE_SUCCESS")
    case True
    obtain n where n: "n \<le> length fs"
      "can_sent (snd (send_all env fs (tr @ [HAL_Send f CFE_SUCCESS]))) =
         can_sent (tr @ [HAL_Send f CFE_SUCCESS]) @ take n fs"
      "fst (send_all env fs (tr @ [HAL_Send f CFE_SUCCESS])) = CFE_SUCCESS \<longrightarrow> n = length fs"
      using Cons.IH by blast
    then show ?thesis using True
      by (intro exI [of _ "Suc n"]) (simp add: hal_send_eq)
  next
    case False
    then show ?thesis by (intro exI [of _ 1]) (simp add: hal_send_eq)
  qed
qed

text \<open>The payload bytes of the frames, in order, are the message padded with zeros.\<close>

lemma div_8_one: "bs \<noteq> [] \<Longrightarrow> length bs \<le> 8 \<Longrightarrow> (length bs + 7) div 8 = 1"
  using ceil_div_one [of "length bs" 8] by simp

lemma length_seg_tail: "length (seg_tail h c bs) = (if bs = [] then 1 else (length bs + 7) div 8)"
proof (induction h c bs rule: seg_tail.induct)
  case (1 h c bs)
  then show ?case
    by (subst seg_tail.simps) (auto simp: Suc_diff_le div_8_one)
qed

lemma length_seg_frames:
  "length (seg_frames h bs) = (if bs = [] then 1 else (length bs + 7) div 8)"
  by (auto simp: seg_frames_def length_seg_tail div_8_one)

section \<open>Receiver\<close>

definition CANIO_REASSEMBLY_BUF_SIZE :: nat where
  "CANIO_REASSEMBLY_BUF_SIZE = 176"

definition CANIO_MAX_REASSEMBLY_SLOTS :: nat where
  "CANIO_MAX_REASSEMBLY_SLOTS = 4"

record CANIO_ReassemblySlot =
  sl_Active :: bool
  sl_SenderID :: u8
  sl_ReceiverID :: u8
  sl_MessageID :: u16
  sl_Buf :: "u8 list"
  sl_Len :: u8
  sl_NextSeqCount :: u8

definition zero_slot :: CANIO_ReassemblySlot where
  "zero_slot = \<lparr>sl_Active = False, sl_SenderID = 0, sl_ReceiverID = 0, sl_MessageID = 0,
     sl_Buf = zeros CANIO_REASSEMBLY_BUF_SIZE, sl_Len = 0, sl_NextSeqCount = 0\<rparr>"

type_synonym Slots = "CANIO_ReassemblySlot list"

definition FindSlot :: "Slots \<Rightarrow> u8 \<Rightarrow> u8 \<Rightarrow> u16 \<Rightarrow> nat option" where
  "FindSlot Slots SenderID ReceiverID MessageID =
     List.find (\<lambda>i. sl_Active (Slots ! i) \<and> sl_SenderID (Slots ! i) = SenderID \<and>
                    sl_ReceiverID (Slots ! i) = ReceiverID \<and> sl_MessageID (Slots ! i) = MessageID)
       [0..<CANIO_MAX_REASSEMBLY_SLOTS]"

definition AllocSlot :: "Slots \<Rightarrow> u8 \<Rightarrow> u8 \<Rightarrow> u16 \<Rightarrow> (nat \<times> Slots) option" where
  "AllocSlot Slots SenderID ReceiverID MessageID =
     (case List.find (\<lambda>i. \<not> sl_Active (Slots ! i)) [0..<CANIO_MAX_REASSEMBLY_SLOTS] of
        None \<Rightarrow> None
      | Some i \<Rightarrow> Some (i, Slots[i := zero_slot\<lparr>sl_Active := True, sl_SenderID := SenderID,
                    sl_ReceiverID := ReceiverID, sl_MessageID := MessageID\<rparr>]))"

definition FreeSlot :: "Slots \<Rightarrow> nat \<Rightarrow> Slots" where
  "FreeSlot Slots i = Slots[i := (Slots ! i)\<lparr>sl_Active := False\<rparr>]"

text \<open>The result flag and the slot; the sum of the guard is an \<open>int\<close> in C and cannot wrap.\<close>

definition AppendToSlot ::
  "CANIO_ReassemblySlot \<Rightarrow> u8 list \<Rightarrow> u8 \<Rightarrow> (bool \<times> CANIO_ReassemblySlot) run" where
  "AppendToSlot Slot Data DataLen =
     (if CANIO_REASSEMBLY_BUF_SIZE < unat (sl_Len Slot) + unat DataLen then Returns (False, Slot)
      else case mem_read Data 0 (unat DataLen) of
             None \<Rightarrow> OutOfBounds
           | Some bytes \<Rightarrow>
               (case mem_write (sl_Buf Slot) (unat (sl_Len Slot)) bytes of
                  None \<Rightarrow> OutOfBounds
                | Some buf \<Rightarrow>
                    Returns (True, Slot\<lparr>sl_Buf := buf, sl_Len := sl_Len Slot + DataLen\<rparr>)))"

text \<open>What a completed message leaves in the output parameters.\<close>

record CANIO_Message =
  ms_Buf :: "u8 list"
  ms_Len :: u8
  ms_SenderID :: u8
  ms_ReceiverID :: u8
  ms_MessageID :: u16

definition frame_seqType :: "CANIO_Frame \<Rightarrow> u8" where
  "frame_seqType Frame = ucast (CANIO_UNPACK_SEQTYPE (fr_CanId Frame))"

definition frame_seqCount :: "CANIO_Frame \<Rightarrow> u8" where
  "frame_seqCount Frame = ucast (CANIO_UNPACK_SEQCOUNT (fr_CanId Frame))"

definition frame_senderID :: "CANIO_Frame \<Rightarrow> u8" where
  "frame_senderID Frame = ucast (CANIO_UNPACK_SENDERID (fr_CanId Frame))"

definition frame_receiverID :: "CANIO_Frame \<Rightarrow> u8" where
  "frame_receiverID Frame = ucast (CANIO_UNPACK_RECEIVERID (fr_CanId Frame))"

definition frame_messageID :: "CANIO_Frame \<Rightarrow> u16" where
  "frame_messageID Frame = ucast (CANIO_UNPACK_MESSAGEID (fr_CanId Frame))"

type_synonym Feed_Result = "(CFE_Status \<times> CANIO_Message option \<times> Slots \<times> Trace) run"

definition feed_single :: "Slots \<Rightarrow> CANIO_Frame \<Rightarrow> Trace \<Rightarrow> Feed_Result" where
  "feed_single Slots Frame tr =
     (case mem_read (fr_Data Frame) 0 (unat (fr_Len Frame)) of
        None \<Rightarrow> OutOfBounds
      | Some bytes \<Rightarrow>
          Returns (CFE_SUCCESS,
            Some \<lparr>ms_Buf = bytes, ms_Len = fr_Len Frame, ms_SenderID = frame_senderID Frame,
                  ms_ReceiverID = frame_receiverID Frame, ms_MessageID = frame_messageID Frame\<rparr>,
            Slots, tr))"

definition feed_first :: "Slots \<Rightarrow> CANIO_Frame \<Rightarrow> Trace \<Rightarrow> Feed_Result" where
  "feed_first Slots Frame tr =
     (let s = frame_senderID Frame; r = frame_receiverID Frame; m = frame_messageID Frame;
          Slots1 = (case FindSlot Slots s r m of Some i \<Rightarrow> FreeSlot Slots i | None \<Rightarrow> Slots)
      in case AllocSlot Slots1 s r m of
           None \<Rightarrow> Returns (CFE_STATUS_EXTERNAL_RESOURCE_FAIL, None, Slots1, sys_log tr)
         | Some (i, Slots2) \<Rightarrow>
             run_bind (AppendToSlot (Slots2 ! i) (fr_Data Frame) (fr_Len Frame)) (\<lambda>(ok, Slot).
               Returns (CANIO_REASSEMBLY_PENDING, None,
                 Slots2[i := Slot\<lparr>sl_NextSeqCount := frame_seqCount Frame + 1\<rparr>], tr)))"

definition feed_cont :: "Slots \<Rightarrow> CANIO_Frame \<Rightarrow> Trace \<Rightarrow> Feed_Result" where
  "feed_cont Slots Frame tr =
     (case FindSlot Slots (frame_senderID Frame) (frame_receiverID Frame) (frame_messageID Frame) of
        None \<Rightarrow> Returns (CANIO_REASSEMBLY_PENDING, None, Slots, tr)
      | Some i \<Rightarrow>
          run_bind (AppendToSlot (Slots ! i) (fr_Data Frame) (fr_Len Frame)) (\<lambda>(ok, Slot).
            Returns (CANIO_REASSEMBLY_PENDING, None,
              Slots[i := Slot\<lparr>sl_NextSeqCount := frame_seqCount Frame + 1\<rparr>], tr)))"

definition feed_last :: "Slots \<Rightarrow> CANIO_Frame \<Rightarrow> Trace \<Rightarrow> Feed_Result" where
  "feed_last Slots Frame tr =
     (case FindSlot Slots (frame_senderID Frame) (frame_receiverID Frame) (frame_messageID Frame) of
        None \<Rightarrow> Returns (CANIO_REASSEMBLY_PENDING, None, Slots, tr)
      | Some i \<Rightarrow>
          run_bind (AppendToSlot (Slots ! i) (fr_Data Frame) (fr_Len Frame)) (\<lambda>(ok, Slot).
            if \<not> ok
            then Returns (CFE_STATUS_EXTERNAL_RESOURCE_FAIL, None,
                   FreeSlot (Slots[i := Slot]) i, sys_log tr)
            else case mem_read (sl_Buf Slot) 0 (unat (sl_Len Slot)) of
                   None \<Rightarrow> OutOfBounds
                 | Some bytes \<Rightarrow>
                     Returns (CFE_SUCCESS,
                       Some \<lparr>ms_Buf = bytes, ms_Len = sl_Len Slot,
                             ms_SenderID = frame_senderID Frame,
                             ms_ReceiverID = frame_receiverID Frame,
                             ms_MessageID = frame_messageID Frame\<rparr>,
                       FreeSlot (Slots[i := Slot]) i, tr)))"

definition CANIO_FeedFrame :: "Slots \<Rightarrow> CANIO_Frame \<Rightarrow> Trace \<Rightarrow> Feed_Result" where
  "CANIO_FeedFrame Slots Frame tr =
     (if frame_seqType Frame = CANIO_SEQ_SINGLE then feed_single Slots Frame tr
      else if frame_seqType Frame = CANIO_SEQ_FIRST then feed_first Slots Frame tr
      else if frame_seqType Frame = CANIO_SEQ_CONT then feed_cont Slots Frame tr
      else if frame_seqType Frame = CANIO_SEQ_LAST then feed_last Slots Frame tr
      else Returns (CANIO_REASSEMBLY_PENDING, None, Slots, tr))"


section \<open>The engine on finite maps\<close>

text \<open>
  What the slot table is for: a map from the stream (sender, receiver, message id) of an open
  message to the bytes collected so far, with room for four streams of 176 bytes.
\<close>

type_synonym Stream = "u8 \<times> u8 \<times> u16"

definition frame_stream :: "CANIO_Frame \<Rightarrow> Stream" where
  "frame_stream f = (frame_senderID f, frame_receiverID f, frame_messageID f)"

definition frame_bytes :: "CANIO_Frame \<Rightarrow> u8 list" where
  "frame_bytes f = take (unat (fr_Len f)) (fr_Data f)"

definition message_of :: "Stream \<Rightarrow> u8 list \<Rightarrow> CANIO_Message" where
  "message_of k bs = \<lparr>ms_Buf = bs, ms_Len = of_nat (length bs), ms_SenderID = fst k,
     ms_ReceiverID = fst (snd k), ms_MessageID = snd (snd k)\<rparr>"

definition feed_spec ::
  "(Stream \<rightharpoonup> u8 list) \<Rightarrow> CANIO_Frame \<Rightarrow>
   CFE_Status \<times> CANIO_Message option \<times> (Stream \<rightharpoonup> u8 list)" where
  "feed_spec m f =
     (let k = frame_stream f; d = frame_bytes f; t = frame_seqType f in
      if t = CANIO_SEQ_SINGLE then (CFE_SUCCESS, Some (message_of k d), m)
      else if t = CANIO_SEQ_FIRST then
        (if k \<in> dom m \<or> card (dom m) < CANIO_MAX_REASSEMBLY_SLOTS
         then (CANIO_REASSEMBLY_PENDING, None, m(k \<mapsto> d))
         else (CFE_STATUS_EXTERNAL_RESOURCE_FAIL, None, m))
      else if t = CANIO_SEQ_CONT then
        (case m k of None \<Rightarrow> (CANIO_REASSEMBLY_PENDING, None, m)
         | Some b \<Rightarrow> (CANIO_REASSEMBLY_PENDING, None,
             m(k \<mapsto> if length b + length d \<le> CANIO_REASSEMBLY_BUF_SIZE then b @ d else b)))
      else
        (case m k of None \<Rightarrow> (CANIO_REASSEMBLY_PENDING, None, m)
         | Some b \<Rightarrow>
             if length b + length d \<le> CANIO_REASSEMBLY_BUF_SIZE
             then (CFE_SUCCESS, Some (message_of k (b @ d)), m(k := None))
             else (CFE_STATUS_EXTERNAL_RESOURCE_FAIL, None, m(k := None))))"

text \<open>A frame as the CAN driver delivers it.\<close>

definition frame_ok :: "CANIO_Frame \<Rightarrow> bool" where
  "frame_ok f \<longleftrightarrow> length (fr_Data f) = CANIO_HAL_MAX_DLC \<and> unat (fr_Len f) \<le> CANIO_HAL_MAX_DLC"

section \<open>The slot table\<close>

definition slot_stream :: "CANIO_ReassemblySlot \<Rightarrow> Stream" where
  "slot_stream s = (sl_SenderID s, sl_ReceiverID s, sl_MessageID s)"

definition slot_ok :: "CANIO_ReassemblySlot \<Rightarrow> bool" where
  "slot_ok s \<longleftrightarrow> length (sl_Buf s) = CANIO_REASSEMBLY_BUF_SIZE \<and>
     unat (sl_Len s) \<le> CANIO_REASSEMBLY_BUF_SIZE"

definition slot_bytes :: "CANIO_ReassemblySlot \<Rightarrow> u8 list" where
  "slot_bytes s = take (unat (sl_Len s)) (sl_Buf s)"

definition slots_ok :: "Slots \<Rightarrow> bool" where
  "slots_ok S \<longleftrightarrow> length S = CANIO_MAX_REASSEMBLY_SLOTS \<and> (\<forall>s \<in> set S. slot_ok s) \<and>
     (\<forall>i < length S. \<forall>j < length S. sl_Active (S ! i) \<and> sl_Active (S ! j) \<and>
        slot_stream (S ! i) = slot_stream (S ! j) \<longrightarrow> i = j)"

definition find_stream :: "Slots \<Rightarrow> Stream \<Rightarrow> nat option" where
  "find_stream S k = FindSlot S (fst k) (fst (snd k)) (snd (snd k))"

definition slots_abs :: "Slots \<Rightarrow> Stream \<rightharpoonup> u8 list" where
  "slots_abs S k = map_option (\<lambda>i. slot_bytes (S ! i)) (find_stream S k)"

lemma find_upt_Some:
  "List.find P [0..<n] = Some i \<Longrightarrow> i < n \<and> P i"
  by (auto simp: find_Some_iff)

lemma find_upt_None: "List.find P [0..<n] = None \<longleftrightarrow> (\<forall>i < n. \<not> P i)"
  by (auto simp: find_None_iff)

lemma find_upt_unique:
  assumes "\<And>i j. i < n \<Longrightarrow> j < n \<Longrightarrow> P i \<Longrightarrow> P j \<Longrightarrow> i = j" "i < n" "P i"
  shows "List.find P [0..<n] = Some i"
proof (cases "List.find P [0..<n]")
  case None
  with assms show ?thesis by (auto simp: find_upt_None)
next
  case (Some j)
  with find_upt_Some [OF Some] assms show ?thesis by metis
qed

lemma slots_ok_length: "slots_ok S \<Longrightarrow> length S = 4"
  by (simp add: slots_ok_def CANIO_MAX_REASSEMBLY_SLOTS_def)

lemma slots_ok_slot: "slots_ok S \<Longrightarrow> i < 4 \<Longrightarrow> slot_ok (S ! i)"
  by (simp add: slots_ok_def CANIO_MAX_REASSEMBLY_SLOTS_def)

lemma find_stream_eq:
  "find_stream S k = List.find (\<lambda>i. sl_Active (S ! i) \<and> slot_stream (S ! i) = k) [0..<4]"
  by (cases k) (simp add: find_stream_def FindSlot_def slot_stream_def CANIO_MAX_REASSEMBLY_SLOTS_def)

lemma find_stream_Some:
  assumes "slots_ok S"
  shows "find_stream S k = Some i \<longleftrightarrow> i < 4 \<and> sl_Active (S ! i) \<and> slot_stream (S ! i) = k"
proof
  assume "find_stream S k = Some i"
  then show "i < 4 \<and> sl_Active (S ! i) \<and> slot_stream (S ! i) = k"
    unfolding find_stream_eq by (rule find_upt_Some)
next
  assume "i < 4 \<and> sl_Active (S ! i) \<and> slot_stream (S ! i) = k"
  then show "find_stream S k = Some i"
    unfolding find_stream_eq using assms slots_ok_length [OF assms]
    by (intro find_upt_unique) (auto simp: slots_ok_def)
qed

lemma find_stream_None:
  "find_stream S k = None \<longleftrightarrow> (\<forall>i < 4. sl_Active (S ! i) \<longrightarrow> slot_stream (S ! i) \<noteq> k)"
  unfolding find_stream_eq by (auto simp: find_upt_None)

lemma slots_abs_Some:
  "slots_ok S \<Longrightarrow> slots_abs S k = Some b \<longleftrightarrow>
     (\<exists>i < 4. sl_Active (S ! i) \<and> slot_stream (S ! i) = k \<and> b = slot_bytes (S ! i))"
  by (auto simp: slots_abs_def find_stream_Some)

text \<open>Every operation on the table is an update of one slot.\<close>

lemma slots_update:
  assumes S: "slots_ok S" and i: "i < 4" and s: "slot_ok s"
    and fresh: "sl_Active s \<Longrightarrow> find_stream S (slot_stream s) \<in> {None, Some i}"
  shows "slots_ok (S[i := s])"
    and "slots_abs (S[i := s]) =
      (let m = (if sl_Active (S ! i) then (slots_abs S)(slot_stream (S ! i) := None)
                else slots_abs S)
       in if sl_Active s then m(slot_stream s \<mapsto> slot_bytes s) else m)"
proof -
  have len: "length S = 4" by (rule slots_ok_length [OF S])
  have other: "slot_stream (S ! j) \<noteq> slot_stream s"
    if "sl_Active s" "j < 4" "sl_Active (S ! j)" "j \<noteq> i" for j
  proof
    assume "slot_stream (S ! j) = slot_stream s"
    with that have "find_stream S (slot_stream s) = Some j" by (simp add: find_stream_Some [OF S])
    with fresh that show False by simp
  qed
  have uniq: "j = j'" if "j < 4" "j' < 4" "sl_Active (S ! j)" "sl_Active (S ! j')"
    "slot_stream (S ! j) = slot_stream (S ! j')" for j j'
    using S that len unfolding slots_ok_def by simp
  show ok: "slots_ok (S[i := s])"
    unfolding slots_ok_def
  proof (intro conjI allI impI ballI)
    show "length (S[i := s]) = CANIO_MAX_REASSEMBLY_SLOTS"
      using len by (simp add: CANIO_MAX_REASSEMBLY_SLOTS_def)
    show "slot_ok t" if "t \<in> set (S[i := s])" for t
      using that S s unfolding slots_ok_def by (auto dest!: set_update_subset_insert [THEN subsetD])
    show "j = j'" if "j < length (S[i := s])" "j' < length (S[i := s])"
      "sl_Active (S[i := s] ! j) \<and> sl_Active (S[i := s] ! j') \<and>
       slot_stream (S[i := s] ! j) = slot_stream (S[i := s] ! j')" for j j'
      using that len i uniq [of j j'] other [of j] other [of j']
      by (cases "j = i"; cases "j' = i") auto
  qed
  show "slots_abs (S[i := s]) =
      (let m = (if sl_Active (S ! i) then (slots_abs S)(slot_stream (S ! i) := None)
                else slots_abs S)
       in if sl_Active s then m(slot_stream s \<mapsto> slot_bytes s) else m)" (is "_ = ?rhs")
  proof
    fix k
    show "slots_abs (S[i := s]) k = ?rhs k"
    proof (cases "sl_Active s \<and> slot_stream s = k")
      case True
      then have "find_stream (S[i := s]) k = Some i"
        unfolding find_stream_Some [OF ok] using i len by simp
      with True i len show ?thesis by (simp add: slots_abs_def Let_def)
    next
      case False
      have eq: "find_stream (S[i := s]) k = Some j \<longleftrightarrow> j \<noteq> i \<and> find_stream S k = Some j" for j
        unfolding find_stream_Some [OF ok] find_stream_Some [OF S]
        using False i len by (cases "j = i") auto
      have r: "?rhs k = (if find_stream S k = Some i then None else slots_abs S k)"
        using False find_stream_Some [OF S, of k i] i by (auto simp: Let_def slots_abs_def)
      show ?thesis
      proof (cases "find_stream (S[i := s]) k")
        case None
        then have "find_stream S k = None \<or> find_stream S k = Some i"
          using eq by (cases "find_stream S k") auto
        with None r show ?thesis by (auto simp: slots_abs_def)
      next
        case (Some j)
        with eq have "j \<noteq> i" "find_stream S k = Some j" by auto
        with Some r show ?thesis by (simp add: slots_abs_def)
      qed
    qed
  qed
qed

lemma dom_slots_abs:
  "slots_ok S \<Longrightarrow> dom (slots_abs S) = (\<lambda>i. slot_stream (S ! i)) ` {i. i < 4 \<and> sl_Active (S ! i)}"
  unfolding dom_def by (rule set_eqI) (simp add: slots_abs_Some image_iff, metis)

lemma card_dom_slots_abs:
  assumes "slots_ok S"
  shows "card (dom (slots_abs S)) = card {i. i < 4 \<and> sl_Active (S ! i)}"
proof -
  have "inj_on (\<lambda>i. slot_stream (S ! i)) {i. i < 4 \<and> sl_Active (S ! i)}"
    using assms slots_ok_length [OF assms] by (auto simp: slots_ok_def inj_on_def)
  then show ?thesis by (simp add: dom_slots_abs [OF assms] card_image)
qed

lemma slots_abs_bounds:
  assumes "slots_ok S"
  shows "finite (dom (slots_abs S))" and "card (dom (slots_abs S)) \<le> 4"
    and "slots_abs S k = Some b \<Longrightarrow> length b \<le> 176"
proof -
  show "finite (dom (slots_abs S))" by (simp add: dom_slots_abs [OF assms])
  have "card {i. i < 4 \<and> sl_Active (S ! i)} \<le> card {..<4::nat}" by (rule card_mono) auto
  then show "card (dom (slots_abs S)) \<le> 4" by (simp add: card_dom_slots_abs [OF assms])
  show "length b \<le> 176" if "slots_abs S k = Some b"
    using that slots_ok_slot [OF assms]
    by (auto simp: slots_abs_Some [OF assms] slot_ok_def slot_bytes_def CANIO_REASSEMBLY_BUF_SIZE_def)
qed

definition find_free :: "Slots \<Rightarrow> nat option" where
  "find_free S = List.find (\<lambda>i. \<not> sl_Active (S ! i)) [0..<4]"

lemma find_free_Some: "find_free S = Some i \<Longrightarrow> i < 4 \<and> \<not> sl_Active (S ! i)"
  unfolding find_free_def by (rule find_upt_Some)

lemma find_free_None:
  assumes "slots_ok S"
  shows "find_free S = None \<longleftrightarrow> card (dom (slots_abs S)) = 4"
proof -
  have sub: "{i. i < 4 \<and> sl_Active (S ! i)} \<subseteq> {..<4}" by auto
  have "find_free S = None \<longleftrightarrow> {i. i < 4 \<and> sl_Active (S ! i)} = {..<4}"
    by (auto simp: find_free_def find_upt_None)
  also have "\<dots> \<longleftrightarrow> card {i. i < 4 \<and> sl_Active (S ! i)} = card {..<4 :: nat}"
    using card_subset_eq [OF _ sub] by fastforce
  finally show ?thesis by (simp add: card_dom_slots_abs [OF assms])
qed

lemma slot_free: "slots_ok S \<Longrightarrow> i < 4 \<Longrightarrow> slot_ok ((S ! i)\<lparr>sl_Active := False\<rparr>)"
  by (drule (1) slots_ok_slot) (simp add: slot_ok_def)

lemma FreeSlot_update:
  assumes "slots_ok S" "find_stream S k = Some i"
  shows "slots_ok (FreeSlot S i)" and "slots_abs (FreeSlot S i) = (slots_abs S)(k := None)"
  using assms slots_update [OF assms(1), of i "(S ! i)\<lparr>sl_Active := False\<rparr>"]
  by (auto simp: FreeSlot_def find_stream_Some slot_free)

lemma length_slot_bytes: "slot_ok s \<Longrightarrow> length (slot_bytes s) = unat (sl_Len s)"
  by (simp add: slot_ok_def slot_bytes_def)

lemma length_frame_bytes: "frame_ok f \<Longrightarrow> length (frame_bytes f) = unat (fr_Len f)"
  by (simp add: frame_ok_def frame_bytes_def)

lemma AppendToSlot_spec:
  assumes s: "slot_ok s" and f: "frame_ok f"
  defines "fits \<equiv> length (slot_bytes s) + length (frame_bytes f) \<le> 176"
  obtains s' where "AppendToSlot s (fr_Data f) (fr_Len f) = Returns (fits, s')" "slot_ok s'"
    "slot_bytes s' = (if fits then slot_bytes s @ frame_bytes f else slot_bytes s)"
    "sl_Active s' = sl_Active s" "slot_stream s' = slot_stream s"
proof (cases fits)
  case False
  show ?thesis
    by (rule that [of s])
      (use False s f in \<open>simp_all add: AppendToSlot_def fits_def length_slot_bytes
         length_frame_bytes CANIO_REASSEMBLY_BUF_SIZE_def\<close>)
next
  case True
  let ?n = "unat (sl_Len s)" and ?d = "unat (fr_Len f)"
  let ?buf = "take ?n (sl_Buf s) @ frame_bytes f @ drop (?n + ?d) (sl_Buf s)"
  let ?s = "s\<lparr>sl_Buf := ?buf, sl_Len := sl_Len s + fr_Len f\<rparr>"
  have le: "?n + ?d \<le> 176"
    using True s f by (simp add: fits_def length_slot_bytes length_frame_bytes)
  have n: "unat (sl_Len s + fr_Len f) = ?n + ?d"
    by (rule unat_plus_no_wrap) (use le in simp)
  have lb: "length (sl_Buf s) = 176" using s by (simp add: slot_ok_def CANIO_REASSEMBLY_BUF_SIZE_def)
  have rd: "mem_read (fr_Data f) 0 ?d = Some (frame_bytes f)"
    using f by (simp add: mem_read_Some frame_ok_def frame_bytes_def)
  have lf: "length (frame_bytes f) = ?d" using f by (rule length_frame_bytes)
  have wr: "mem_write (sl_Buf s) ?n (frame_bytes f) = Some ?buf"
    using le lb lf by (simp add: mem_write_Some)
  show ?thesis
  proof (rule that [of ?s])
    show "AppendToSlot s (fr_Data f) (fr_Len f) = Returns (fits, ?s)"
      using True le rd wr by (simp add: AppendToSlot_def CANIO_REASSEMBLY_BUF_SIZE_def)
    show "slot_ok ?s"
      using le lb lf n by (simp add: slot_ok_def CANIO_REASSEMBLY_BUF_SIZE_def)
    have "length (slot_bytes s @ frame_bytes f) = ?n + ?d"
      using lf length_slot_bytes [OF s] by simp
    then show "slot_bytes ?s = (if fits then slot_bytes s @ frame_bytes f else slot_bytes s)"
      using True n by (simp add: slot_bytes_def)
  qed (simp_all add: slot_stream_def)
qed

lemma slot_NextSeqCount [simp]:
  "slot_ok (s\<lparr>sl_NextSeqCount := c\<rparr>) = slot_ok s"
  "slot_bytes (s\<lparr>sl_NextSeqCount := c\<rparr>) = slot_bytes s"
  "slot_stream (s\<lparr>sl_NextSeqCount := c\<rparr>) = slot_stream s"
  by (simp_all add: slot_ok_def slot_bytes_def slot_stream_def)

section \<open>The slot table implements the engine on maps\<close>

text \<open>A result of the frame handler agrees with the abstract engine and keeps the invariant.\<close>

definition feed_agrees ::
  "Feed_Result \<Rightarrow> (Stream \<rightharpoonup> u8 list) \<Rightarrow> CANIO_Frame \<Rightarrow> Trace \<Rightarrow> bool" where
  "feed_agrees r m f tr \<longleftrightarrow>
     (\<exists>st out S'. r = Returns (st, out, S',
          if st = CFE_STATUS_EXTERNAL_RESOURCE_FAIL then sys_log tr else tr) \<and>
        slots_ok S' \<and> feed_spec m f = (st, out, slots_abs S'))"

lemma FindSlot_frame:
  "FindSlot S (frame_senderID f) (frame_receiverID f) (frame_messageID f) =
     find_stream S (frame_stream f)"
  by (simp add: find_stream_def frame_stream_def)

lemma slots_abs_find:
  "find_stream S k = None \<Longrightarrow> slots_abs S k = None"
  "find_stream S k = Some i \<Longrightarrow> slots_abs S k = Some (slot_bytes (S ! i))"
  by (simp_all add: slots_abs_def)

lemma message_of_frame:
  "length bs = unat n \<Longrightarrow>
   \<lparr>ms_Buf = bs, ms_Len = n, ms_SenderID = frame_senderID f, ms_ReceiverID = frame_receiverID f,
     ms_MessageID = frame_messageID f\<rparr> = message_of (frame_stream f) bs"
  by (simp add: message_of_def frame_stream_def)

lemma seq_distinct [simp]:
  "CANIO_SEQ_SINGLE \<noteq> CANIO_SEQ_FIRST" "CANIO_SEQ_SINGLE \<noteq> CANIO_SEQ_CONT"
  "CANIO_SEQ_SINGLE \<noteq> CANIO_SEQ_LAST" "CANIO_SEQ_FIRST \<noteq> CANIO_SEQ_CONT"
  "CANIO_SEQ_FIRST \<noteq> CANIO_SEQ_LAST" "CANIO_SEQ_CONT \<noteq> CANIO_SEQ_LAST"
  "CANIO_SEQ_FIRST \<noteq> CANIO_SEQ_SINGLE" "CANIO_SEQ_CONT \<noteq> CANIO_SEQ_SINGLE"
  "CANIO_SEQ_LAST \<noteq> CANIO_SEQ_SINGLE" "CANIO_SEQ_CONT \<noteq> CANIO_SEQ_FIRST"
  "CANIO_SEQ_LAST \<noteq> CANIO_SEQ_FIRST" "CANIO_SEQ_LAST \<noteq> CANIO_SEQ_CONT"
  by (simp_all add: seq_defs)

lemma feed_single_agrees:
  assumes "slots_ok S" "frame_ok f" "frame_seqType f = CANIO_SEQ_SINGLE"
  shows "feed_agrees (feed_single S f tr) (slots_abs S) f tr"
proof -
  have "mem_read (fr_Data f) 0 (unat (fr_Len f)) = Some (frame_bytes f)"
    using assms(2) by (simp add: mem_read_Some frame_ok_def frame_bytes_def)
  with assms show ?thesis
    by (simp add: feed_agrees_def feed_single_def feed_spec_def message_of_frame length_frame_bytes)
qed

lemma slot_update_same:
  assumes S: "slots_ok S" and i: "find_stream S k = Some i" and s: "slot_ok s" "slot_stream s = k"
  shows "slots_ok (S[i := s])" and
    "slots_abs (S[i := s]) =
       (if sl_Active s then (slots_abs S)(k \<mapsto> slot_bytes s) else (slots_abs S)(k := None))"
proof -
  have i': "i < 4" "sl_Active (S ! i)" "slot_stream (S ! i) = k"
    using i by (simp_all add: find_stream_Some [OF S])
  have fresh: "sl_Active s \<Longrightarrow> find_stream S (slot_stream s) \<in> {None, Some i}"
    using i s(2) by simp
  note u = slots_update [OF S i'(1) s(1) fresh]
  show "slots_ok (S[i := s])" by (rule u)
  show "slots_abs (S[i := s]) =
       (if sl_Active s then (slots_abs S)(k \<mapsto> slot_bytes s) else (slots_abs S)(k := None))"
    using u(2) i' s(2) by (simp add: Let_def)
qed

lemma feed_cont_agrees:
  assumes S: "slots_ok S" and f: "frame_ok f" and t: "frame_seqType f = CANIO_SEQ_CONT"
  shows "feed_agrees (feed_cont S f tr) (slots_abs S) f tr"
proof (cases "find_stream S (frame_stream f)")
  case None
  with S t slots_abs_find(1) [OF None] show ?thesis
    by (simp add: feed_agrees_def feed_cont_def FindSlot_frame feed_spec_def Let_def)
next
  case (Some i)
  then have i: "i < 4" "sl_Active (S ! i)" "slot_stream (S ! i) = frame_stream f"
    by (simp_all add: find_stream_Some [OF S])
  obtain s' where s': "AppendToSlot (S ! i) (fr_Data f) (fr_Len f) =
      Returns (length (slot_bytes (S ! i)) + length (frame_bytes f) \<le> 176, s')" "slot_ok s'"
    "slot_bytes s' = (if length (slot_bytes (S ! i)) + length (frame_bytes f) \<le> 176
       then slot_bytes (S ! i) @ frame_bytes f else slot_bytes (S ! i))"
    "sl_Active s' = sl_Active (S ! i)" "slot_stream s' = slot_stream (S ! i)"
    by (rule AppendToSlot_spec [OF slots_ok_slot [OF S i(1)] f])
  note u = slot_update_same [OF S Some, of "s'\<lparr>sl_NextSeqCount := frame_seqCount f + 1\<rparr>"]
  show ?thesis
    using Some s' u i t slots_abs_find(2) [OF Some]
    by (simp add: feed_agrees_def feed_cont_def FindSlot_frame feed_spec_def Let_def
        CANIO_REASSEMBLY_BUF_SIZE_def)
qed

lemma feed_last_agrees:
  assumes S: "slots_ok S" and f: "frame_ok f" and t: "frame_seqType f = CANIO_SEQ_LAST"
  shows "feed_agrees (feed_last S f tr) (slots_abs S) f tr"
proof (cases "find_stream S (frame_stream f)")
  case None
  with S t slots_abs_find(1) [OF None] show ?thesis
    by (simp add: feed_agrees_def feed_last_def FindSlot_frame feed_spec_def Let_def)
next
  case (Some i)
  then have i: "i < 4" "sl_Active (S ! i)" "slot_stream (S ! i) = frame_stream f"
    by (simp_all add: find_stream_Some [OF S])
  obtain s' where s': "AppendToSlot (S ! i) (fr_Data f) (fr_Len f) =
      Returns (length (slot_bytes (S ! i)) + length (frame_bytes f) \<le> 176, s')" "slot_ok s'"
    "slot_bytes s' = (if length (slot_bytes (S ! i)) + length (frame_bytes f) \<le> 176
       then slot_bytes (S ! i) @ frame_bytes f else slot_bytes (S ! i))"
    "sl_Active s' = sl_Active (S ! i)" "slot_stream s' = slot_stream (S ! i)"
    by (rule AppendToSlot_spec [OF slots_ok_slot [OF S i(1)] f])
  have free: "FreeSlot (S[i := s']) i = S[i := s'\<lparr>sl_Active := False\<rparr>]"
    using i(1) slots_ok_length [OF S] by (simp add: FreeSlot_def)
  have ok: "slot_ok (s'\<lparr>sl_Active := False\<rparr>)"
    "slot_stream (s'\<lparr>sl_Active := False\<rparr>) = frame_stream f"
    using s' i by (simp_all add: slot_ok_def slot_stream_def)
  have rd: "mem_read (sl_Buf s') 0 (unat (sl_Len s')) = Some (slot_bytes s')"
    using s'(2) by (simp add: mem_read_Some slot_ok_def slot_bytes_def)
  have msg: "message_of (frame_stream f) (slot_bytes s') =
      \<lparr>ms_Buf = slot_bytes s', ms_Len = sl_Len s', ms_SenderID = frame_senderID f,
        ms_ReceiverID = frame_receiverID f, ms_MessageID = frame_messageID f\<rparr>"
    by (rule message_of_frame [symmetric]) (rule length_slot_bytes [OF s'(2)])
  note u = slot_update_same [OF S Some ok]
  show ?thesis
  proof (cases "length (slot_bytes (S ! i)) + length (frame_bytes f) \<le> 176")
    case True
    with s'(3) have b: "slot_bytes (S ! i) @ frame_bytes f = slot_bytes s'" by simp
    show ?thesis
      using Some s'(1) u t slots_abs_find(2) [OF Some] rd True
      by (simp add: feed_agrees_def feed_last_def FindSlot_frame feed_spec_def Let_def free
          CANIO_REASSEMBLY_BUF_SIZE_def b msg)
  next
    case False
    then show ?thesis
      using Some s'(1) u t slots_abs_find(2) [OF Some]
      by (simp add: feed_agrees_def feed_last_def FindSlot_frame feed_spec_def Let_def free
          CANIO_REASSEMBLY_BUF_SIZE_def)
  qed
qed

lemma find_update_free:
  assumes S: "slots_ok S" and i: "find_free S = Some i" and n: "find_stream S k = None"
    and s: "slot_ok s" "slot_stream s = k" "sl_Active s"
  shows "slots_ok (S[i := s])" and "slots_abs (S[i := s]) = (slots_abs S)(k \<mapsto> slot_bytes s)"
proof -
  have i': "i < 4" "\<not> sl_Active (S ! i)" using find_free_Some [OF i] by auto
  note u = slots_update [OF S i'(1) s(1)]
  show "slots_ok (S[i := s])" by (rule u) (use n s in simp)
  show "slots_abs (S[i := s]) = (slots_abs S)(k \<mapsto> slot_bytes s)"
    using u(2) n s i' by (simp add: Let_def)
qed

text \<open>The slot a \<open>FIRST\<close> frame opens, after the one of the same stream has been freed.\<close>

lemma open_slot:
  assumes S: "slots_ok S" and f: "frame_ok f" and i: "find_free S = Some i"
    and n: "find_stream S (frame_stream f) = None"
  defines "new \<equiv> zero_slot\<lparr>sl_Active := True, sl_SenderID := frame_senderID f,
      sl_ReceiverID := frame_receiverID f, sl_MessageID := frame_messageID f\<rparr>"
  obtains s' where "AppendToSlot new (fr_Data f) (fr_Len f) = Returns (True, s')"
    "\<And>c. slots_ok (S[i := s'\<lparr>sl_NextSeqCount := c\<rparr>])"
    "\<And>c. slots_abs (S[i := s'\<lparr>sl_NextSeqCount := c\<rparr>]) =
       (slots_abs S)(frame_stream f \<mapsto> frame_bytes f)"
proof -
  have new: "slot_ok new" "slot_bytes new = []" "sl_Active new" "slot_stream new = frame_stream f"
    by (simp_all add: new_def zero_slot_def slot_ok_def slot_bytes_def slot_stream_def
        frame_stream_def)
  have fits: "length (slot_bytes new) + length (frame_bytes f) \<le> 176"
    using f new(2) by (simp add: frame_ok_def frame_bytes_def CANIO_HAL_MAX_DLC_def)
  obtain s' where s': "AppendToSlot new (fr_Data f) (fr_Len f) =
      Returns (length (slot_bytes new) + length (frame_bytes f) \<le> 176, s')" "slot_ok s'"
    "slot_bytes s' = (if length (slot_bytes new) + length (frame_bytes f) \<le> 176
       then slot_bytes new @ frame_bytes f else slot_bytes new)"
    "sl_Active s' = sl_Active new" "slot_stream s' = slot_stream new"
    by (rule AppendToSlot_spec [OF new(1) f])
  note u = find_update_free [OF S i n, of "s'\<lparr>sl_NextSeqCount := c\<rparr>" for c]
  show ?thesis
    by (rule that [of s']) (use s' new u fits in simp_all)
qed

lemma AllocSlot_find_free:
  "AllocSlot S s r m =
     (case find_free S of None \<Rightarrow> None
      | Some i \<Rightarrow> Some (i, S[i := zero_slot\<lparr>sl_Active := True, sl_SenderID := s,
                    sl_ReceiverID := r, sl_MessageID := m\<rparr>]))"
  by (simp add: AllocSlot_def find_free_def CANIO_MAX_REASSEMBLY_SLOTS_def)

lemma feed_first_agrees:
  assumes S: "slots_ok S" and f: "frame_ok f" and t: "frame_seqType f = CANIO_SEQ_FIRST"
  shows "feed_agrees (feed_first S f tr) (slots_abs S) f tr"
proof -
  let ?k = "frame_stream f"
  let ?S = "case find_stream S ?k of Some i \<Rightarrow> FreeSlot S i | None \<Rightarrow> S"
  have S1: "slots_ok ?S" "slots_abs ?S = (slots_abs S)(?k := None)"
    using S FreeSlot_update [OF S] by (auto split: option.split simp: slots_abs_find)
  have n: "find_stream ?S ?k = None"
    using S1(2) slots_abs_find(2) [of ?S ?k] by (cases "find_stream ?S ?k") auto
  show ?thesis
  proof (cases "find_free ?S")
    case None
    then have c: "card (dom (slots_abs S) - {?k}) = 4"
      using find_free_None [OF S1(1)] S1(2) by simp
    then have "?k \<notin> dom (slots_abs S)"
      using slots_abs_bounds(1,2) [OF S] by (metis Diff_empty Diff_insert0 card_Diff1_less not_le)
    with c None t S S1 show ?thesis
      by (simp add: feed_agrees_def feed_first_def FindSlot_frame AllocSlot_find_free feed_spec_def
          Let_def CANIO_MAX_REASSEMBLY_SLOTS_def dom_def)
  next
    case (Some i)
    have i: "i < 4" using find_free_Some [OF Some] by simp
    have c: "?k \<in> dom (slots_abs S) \<or> card (dom (slots_abs S)) < 4"
    proof (rule disjCI)
      assume "\<not> card (dom (slots_abs S)) < 4"
      then have "card (dom (slots_abs S)) = 4" using slots_abs_bounds(2) [OF S] by simp
      moreover have "card (dom (slots_abs S) - {?k}) \<noteq> 4"
        using find_free_None [OF S1(1)] S1(2) Some by simp
      ultimately show "?k \<in> dom (slots_abs S)" by (metis Diff_empty Diff_insert0)
    qed
    obtain s' where s': "AppendToSlot (zero_slot\<lparr>sl_Active := True,
        sl_SenderID := frame_senderID f, sl_ReceiverID := frame_receiverID f,
        sl_MessageID := frame_messageID f\<rparr>) (fr_Data f) (fr_Len f) = Returns (True, s')"
      "\<And>c. slots_ok (?S[i := s'\<lparr>sl_NextSeqCount := c\<rparr>])"
      "\<And>c. slots_abs (?S[i := s'\<lparr>sl_NextSeqCount := c\<rparr>]) =
         (slots_abs ?S)(?k \<mapsto> frame_bytes f)"
      using open_slot [OF S1(1) f Some n] by blast
    show ?thesis
      using t Some s' c S1(2) i slots_ok_length [OF S1(1)]
      by (simp add: feed_agrees_def feed_first_def FindSlot_frame AllocSlot_find_free feed_spec_def
          Let_def CANIO_MAX_REASSEMBLY_SLOTS_def)
  qed
qed

lemma and_3_cases:
  fixes x :: u32
  shows "(ucast (x AND 0x03) :: u8) \<in> {0, 1, 2, 3}"
proof -
  have "unat (x AND 0x03) < 4"
    using word_and_le1 [of x 3] by (simp add: word_le_nat_alt)
  then have "x AND 0x03 \<in> {0, 1, 2, 3}" by (auto simp: word_unat_eq_iff)
  then show ?thesis by auto
qed

lemma frame_seqType_cases:
  "frame_seqType f \<in> {CANIO_SEQ_SINGLE, CANIO_SEQ_FIRST, CANIO_SEQ_CONT, CANIO_SEQ_LAST}"
  using and_3_cases [of "drop_bit 7 (fr_CanId f)"]
  by (auto simp: frame_seqType_def CANIO_UNPACK_SEQTYPE_def seq_defs)

lemma CANIO_FeedFrame_agrees:
  assumes "slots_ok S" "frame_ok f"
  shows "feed_agrees (CANIO_FeedFrame S f tr) (slots_abs S) f tr"
  using frame_seqType_cases [of f] feed_single_agrees [OF assms] feed_first_agrees [OF assms]
    feed_cont_agrees [OF assms] feed_last_agrees [OF assms]
  by (auto simp: CANIO_FeedFrame_def)

section \<open>Streams of frames\<close>

text \<open>Feeding the frames of a bus one after the other; the messages completed on the way.\<close>

fun feed_all ::
  "('s \<Rightarrow> CANIO_Frame \<Rightarrow> Trace \<Rightarrow> (CFE_Status \<times> CANIO_Message option \<times> 's \<times> Trace) run) \<Rightarrow>
   's \<Rightarrow> CANIO_Frame list \<Rightarrow> Trace \<Rightarrow> (CANIO_Message list \<times> 's \<times> Trace) run" where
  "feed_all feed s [] tr = Returns ([], s, tr)"
| "feed_all feed s (f # fs) tr =
     run_bind (feed s f tr) (\<lambda>(st, out, s', tr').
       run_bind (feed_all feed s' fs tr') (\<lambda>(outs, s'', tr'').
         Returns (case out of None \<Rightarrow> (outs, s'', tr'') | Some m \<Rightarrow> (m # outs, s'', tr''))))"

fun feed_spec_all ::
  "(Stream \<rightharpoonup> u8 list) \<Rightarrow> CANIO_Frame list \<Rightarrow> CANIO_Message list \<times> (Stream \<rightharpoonup> u8 list)" where
  "feed_spec_all m [] = ([], m)"
| "feed_spec_all m (f # fs) =
     (case feed_spec m f of (st, out, m') \<Rightarrow>
        (case feed_spec_all m' fs of (outs, m'') \<Rightarrow>
           (case out of None \<Rightarrow> (outs, m'') | Some x \<Rightarrow> (x # outs, m''))))"

definition header_ok :: "CANIOMC_CAN_Header \<Rightarrow> bool" where
  "header_ok h \<longleftrightarrow> unat (hd_SenderID h) < 16 \<and> unat (hd_ReceiverID h) < 16 \<and>
     unat (hd_MessageID h) < 1024"

definition header_stream :: "CANIOMC_CAN_Header \<Rightarrow> Stream" where
  "header_stream h = (hd_SenderID h, hd_ReceiverID h, hd_MessageID h)"

definition message_stream :: "CANIO_Message \<Rightarrow> Stream" where
  "message_stream m = (ms_SenderID m, ms_ReceiverID m, ms_MessageID m)"

text \<open>The message as it arrives: the sender's bytes and the padding of the last frame.\<close>

definition bus_padded :: "u8 list \<Rightarrow> u8 list" where
  "bus_padded bs = zero_filled (8 * max 1 ((length bs + 7) div 8)) bs"

lemma message_stream_of [simp]: "message_stream (message_of k bs) = k"
  by (simp add: message_stream_def message_of_def)

lemma ucast_ucast_and_mask:
  fixes x :: "'a::len word"
  assumes "unat x < 2 ^ n" "n \<le> LENGTH('b)"
  shows "(ucast ((ucast x :: 'b::len word) AND mask n) :: 'a word) = x"
proof (rule bit_word_eqI)
  fix i assume i: "i < LENGTH('a)"
  have "\<not> bit x i" if "n \<le> i"
  proof -
    have "take_bit n x = x"
      using assms(1) by (simp add: word_unat_eq_iff unsigned_take_bit_eq take_bit_nat_eq_self)
    with that show ?thesis by (metis bit_take_bit_iff not_le)
  qed
  with i assms(2) show "bit (ucast ((ucast x :: 'b word) AND mask n) :: 'a word) i = bit x i"
    by (cases "i < n") (auto simp: bit_simps)
qed

lemma seg_frame_fields:
  assumes "header_ok h"
  shows "frame_stream (seg_frame h t c bs) = header_stream h"
  using assms
  by (simp add: frame_stream_def frame_senderID_def frame_receiverID_def frame_messageID_def
      seg_frame_def unpack_pack header_stream_def header_ok_def mask_numerals ucast_ucast_and_mask)

lemma seg_frame_seqType:
  "unat t < 4 \<Longrightarrow> frame_seqType (seg_frame h t c bs) = t"
  by (simp add: frame_seqType_def seg_frame_def unpack_pack mask_numerals ucast_ucast_and_mask)

lemma seg_frame_ok: "length bs \<le> 8 \<Longrightarrow> frame_ok (seg_frame h t c bs)"
  by (simp add: frame_ok_def seg_frame_def CANIO_HAL_MAX_DLC_def max_def)

lemma seg_frame_bytes: "length bs \<le> 8 \<Longrightarrow> frame_bytes (seg_frame h t c bs) = zero_filled 8 bs"
  by (simp add: frame_bytes_def seg_frame_def CANIO_HAL_MAX_DLC_def)

lemma seg_tail_ok: "f \<in> set (seg_tail h c bs) \<Longrightarrow> frame_ok f"
proof (induction h c bs rule: seg_tail.induct)
  case (1 h c bs)
  then show ?case
    by (subst (asm) (2) seg_tail.simps) (auto simp: seg_frame_ok split: if_splits)
qed

lemma seg_frames_ok: "f \<in> set (seg_frames h bs) \<Longrightarrow> frame_ok f"
  by (auto simp: seg_frames_def seg_frame_ok dest: seg_tail_ok split: if_splits)

lemma seg_tail_stream:
  "header_ok h \<Longrightarrow> f \<in> set (seg_tail h c bs) \<Longrightarrow> frame_stream f = header_stream h"
proof (induction h c bs rule: seg_tail.induct)
  case (1 h c bs)
  then show ?case
    by (subst (asm) (2) seg_tail.simps) (auto simp: seg_frame_fields split: if_splits)
qed

lemma seg_frames_stream:
  "header_ok h \<Longrightarrow> f \<in> set (seg_frames h bs) \<Longrightarrow> frame_stream f = header_stream h"
  by (auto simp: seg_frames_def seg_frame_fields dest: seg_tail_stream split: if_splits)

lemma div_8_step: "8 < (n::nat) \<Longrightarrow> (n + 7) div 8 = Suc ((n - 8 + 7) div 8)"
  using ceil_div_step [of 8 n] by simp

lemma div_8_pos: "bs \<noteq> [] \<Longrightarrow> 0 < (length bs + 7) div 8"
  by (cases bs) simp_all

lemma length_bus_padded: "length (bus_padded bs) = 8 * max 1 ((length bs + 7) div 8)"
proof -
  have "length bs \<le> 8 * ((length bs + 7) div 8)"
    using div_mult_mod_eq [of "length bs + 7" 8] mod_less_divisor [of 8 "length bs + 7"] by linarith
  also have "\<dots> \<le> 8 * max 1 ((length bs + 7) div 8)" by simp
  finally show ?thesis by (simp add: bus_padded_def max.absorb1)
qed

lemma bus_padded_short: "length bs \<le> 8 \<Longrightarrow> bus_padded bs = zero_filled 8 bs"
  by (cases "bs = []") (simp_all add: bus_padded_def div_8_one)

lemma bus_padded_step:
  assumes "8 < length bs"
  shows "bus_padded bs = take 8 bs @ bus_padded (drop 8 bs)"
proof -
  let ?k = "(length bs - 8 + 7) div 8"
  have "drop 8 bs \<noteq> []" using assms by simp
  then have "0 < ?k" using div_8_pos [of "drop 8 bs"] by simp
  then show ?thesis
    using assms
    by (simp add: bus_padded_def zero_filled_def div_8_step max_def add.commute flip: append_assoc)
qed

lemma zero_filled_8: "length bs = 8 \<Longrightarrow> zero_filled 8 bs = bs"
  by (simp add: zero_filled_def)

lemma seq_small [simp]:
  "unat CANIO_SEQ_SINGLE < 4" "unat CANIO_SEQ_FIRST < 4" "unat CANIO_SEQ_CONT < 4"
  "unat CANIO_SEQ_LAST < 4"
  by (simp_all add: seq_defs)

lemma feed_spec_tail:
  "header_ok h \<Longrightarrow> m (header_stream h) = Some b \<Longrightarrow> length b + length (bus_padded bs) \<le> 176 \<Longrightarrow>
    feed_spec_all m (seg_tail h c bs) =
      ([message_of (header_stream h) (b @ bus_padded bs)], m(header_stream h := None))"
proof (induction h c bs arbitrary: m b rule: seg_tail.induct)
  case (1 h c bs)
  show ?case
  proof (cases "length bs \<le> 8")
    case True
    with 1 show ?thesis
      by (subst seg_tail.simps)
        (simp add: feed_spec_def seg_frame_fields seg_frame_seqType seg_frame_bytes
          bus_padded_short CANIO_REASSEMBLY_BUF_SIZE_def Let_def)
  next
    case False
    then have st: "bus_padded bs = take 8 bs @ bus_padded (drop 8 bs)"
      by (intro bus_padded_step) simp
    have "feed_spec_all m (seg_tail h c bs) =
        feed_spec_all (m(header_stream h \<mapsto> b @ take 8 bs)) (seg_tail h (c + 1) (drop 8 bs))"
      using False 1 st
      by (subst seg_tail.simps)
        (simp add: feed_spec_def seg_frame_fields seg_frame_seqType seg_frame_bytes zero_filled_8
          CANIO_REASSEMBLY_BUF_SIZE_def Let_def split: prod.split)
    also have "\<dots> = ([message_of (header_stream h) ((b @ take 8 bs) @ bus_padded (drop 8 bs))],
        (m(header_stream h \<mapsto> b @ take 8 bs))(header_stream h := None))"
      using 1 False st by (intro "1.IH") simp_all
    finally show ?thesis by (simp only: append_assoc fun_upd_upd flip: st)
  qed
qed

text \<open>One message, segmented and fed to the abstract engine.\<close>

lemma feed_spec_frames:
  assumes h: "header_ok h" and len: "length bs \<le> 176"
    and room: "header_stream h \<in> dom m \<or> card (dom m) < 4"
  shows "feed_spec_all m (seg_frames h bs) =
    ([message_of (header_stream h) (bus_padded bs)],
     if length bs \<le> 8 then m else m(header_stream h := None))"
proof (cases "length bs \<le> 8")
  case True
  with h show ?thesis
    by (simp add: seg_frames_def feed_spec_def seg_frame_fields seg_frame_seqType seg_frame_bytes
        bus_padded_short Let_def)
next
  case False
  then have st: "bus_padded bs = take 8 bs @ bus_padded (drop 8 bs)"
    by (intro bus_padded_step) simp
  have "length (bus_padded bs) \<le> 176"
    using len div_le_mono [of "length bs + 7" 183 8] by (simp add: length_bus_padded)
  with False st have "feed_spec_all (m(header_stream h \<mapsto> take 8 bs)) (seg_tail h 1 (drop 8 bs)) =
      ([message_of (header_stream h) (take 8 bs @ bus_padded (drop 8 bs))],
       (m(header_stream h \<mapsto> take 8 bs))(header_stream h := None))"
    by (intro feed_spec_tail h) simp_all
  with False h room st show ?thesis
    by (auto simp: seg_frames_def feed_spec_def seg_frame_fields seg_frame_seqType seg_frame_bytes
        zero_filled_8 CANIO_MAX_REASSEMBLY_SLOTS_def Let_def)
qed

text \<open>A frame leaves the other streams alone.\<close>

lemma feed_spec_dom:
  "feed_spec m f = (st, out, m') \<Longrightarrow> dom m' \<subseteq> insert (frame_stream f) (dom m)"
  by (auto simp: feed_spec_def Let_def split: if_splits option.splits)

lemma feed_spec_other:
  assumes "feed_spec m f = (st, out, m')" "frame_stream f \<noteq> k"
  shows "m' |` {k} = m |` {k}" and "out = Some x \<Longrightarrow> message_stream x \<noteq> k"
  using assms by (auto simp: feed_spec_def Let_def restrict_map_def split: if_splits option.splits)

lemma feed_spec_same:
  assumes "feed_spec m f = (st, out, m')" "frame_stream f = k"
    and "k \<in> dom m \<or> card (dom m) < 4"
  shows "feed_spec (m |` {k}) f = (st, out, m' |` {k})" and "out = Some x \<Longrightarrow> message_stream x = k"
proof -
  have "card (dom m \<inter> {k}) \<le> card {k}" by (rule card_mono) auto
  then have c: "card (dom m \<inter> {k}) < 4" by simp
  have u: "(m(k := v)) |` {k} = (m |` {k})(k := v)" for v by (auto simp: restrict_map_def)
  show "feed_spec (m |` {k}) f = (st, out, m' |` {k})"
    using assms c
    by (auto simp: feed_spec_def Let_def CANIO_MAX_REASSEMBLY_SLOTS_def u split: if_splits option.splits)
  show "out = Some x \<Longrightarrow> message_stream x = k"
    using assms by (auto simp: feed_spec_def Let_def split: if_splits option.splits)
qed

lemma feed_spec_all_streams:
  assumes "finite (dom m)" "card (dom m \<union> frame_stream ` set fs) \<le> 4"
  shows "filter (\<lambda>x. message_stream x = k) (fst (feed_spec_all m fs)) =
    fst (feed_spec_all (m |` {k}) (filter (\<lambda>f. frame_stream f = k) fs))"
  using assms
proof (induction fs arbitrary: m)
  case Nil
  then show ?case by simp
next
  case (Cons f fs)
  obtain st out m' where e: "feed_spec m f = (st, out, m')" by (cases "feed_spec m f")
  have d: "dom m' \<union> frame_stream ` set fs \<subseteq> dom m \<union> frame_stream ` set (f # fs)"
    using feed_spec_dom [OF e] by auto
  have fin: "finite (dom m')"
    using feed_spec_dom [OF e] Cons.prems(1) by (meson finite.insertI finite_subset)
  have "card (dom m' \<union> frame_stream ` set fs) \<le> card (dom m \<union> frame_stream ` set (f # fs))"
    using Cons.prems(1) by (intro card_mono d) simp
  then have IH: "filter (\<lambda>x. message_stream x = k) (fst (feed_spec_all m' fs)) =
      fst (feed_spec_all (m' |` {k}) (filter (\<lambda>f. frame_stream f = k) fs))"
    using Cons.prems fin by (intro Cons.IH) auto
  have room: "frame_stream f \<in> dom m \<or> card (dom m) < 4"
  proof (rule disjCI)
    assume c: "\<not> card (dom m) < 4"
    have sub: "dom m \<subseteq> dom m \<union> frame_stream ` set (f # fs)" by (rule Un_upper1)
    have "card (dom m \<union> frame_stream ` set (f # fs)) \<le> card (dom m)" using c Cons.prems by simp
    with sub Cons.prems(1) have "dom m = dom m \<union> frame_stream ` set (f # fs)"
      by (intro card_seteq) auto
    then show "frame_stream f \<in> dom m" by auto
  qed
  show ?case
  proof (cases "frame_stream f = k")
    case True
    note same = feed_spec_same [OF e True]
    from room True have "feed_spec (m |` {k}) f = (st, out, m' |` {k})" by (intro same) auto
    with True room IH e same(2) show ?thesis
      by (auto split: prod.split option.split)
  next
    case False
    note other = feed_spec_other [OF e False]
    from IH other e False show ?thesis by (auto split: prod.split option.split)
  qed
qed

section \<open>The interface of a reassembly engine\<close>

text \<open>
  What a client of the receiver relies on: a state with an invariant, a view of it as a map of
  open streams, and a frame handler that never leaves a buffer and follows the abstract engine.
\<close>

locale reassembly =
  fixes inv :: "'s \<Rightarrow> bool"
    and view :: "'s \<Rightarrow> Stream \<rightharpoonup> u8 list"
    and feed :: "'s \<Rightarrow> CANIO_Frame \<Rightarrow> Trace \<Rightarrow>
      (CFE_Status \<times> CANIO_Message option \<times> 's \<times> Trace) run"
  assumes feed_law: "inv s \<Longrightarrow> frame_ok f \<Longrightarrow>
      \<exists>s' tr'. feed s f tr =
          Returns (fst (feed_spec (view s) f), fst (snd (feed_spec (view s) f)), s', tr') \<and>
        inv s' \<and> view s' = snd (snd (feed_spec (view s) f))"
    and view_finite: "inv s \<Longrightarrow> finite (dom (view s))"
begin

lemma feed_all_law:
  "inv s \<Longrightarrow> \<forall>f \<in> set fs. frame_ok f \<Longrightarrow>
     \<exists>s' tr'. feed_all feed s fs tr = Returns (fst (feed_spec_all (view s) fs), s', tr') \<and>
       inv s' \<and> view s' = snd (feed_spec_all (view s) fs)"
proof (induction fs arbitrary: s tr)
  case Nil
  then show ?case by simp
next
  case (Cons f fs)
  obtain s1 tr1 where 1: "feed s f tr =
      Returns (fst (feed_spec (view s) f), fst (snd (feed_spec (view s) f)), s1, tr1)"
    "inv s1" "view s1 = snd (snd (feed_spec (view s) f))"
    using feed_law [of s f tr] Cons.prems by auto
  obtain s2 tr2 where "feed_all feed s1 fs tr1 =
      Returns (fst (feed_spec_all (view s1) fs), s2, tr2)"
    "inv s2" "view s2 = snd (feed_spec_all (view s1) fs)"
    using Cons.IH [OF 1(2), of tr1] Cons.prems(2) by auto
  with 1 show ?case by (auto split: prod.split option.split)
qed

lemma message_received:
  assumes "inv s" "header_ok h" "length bs \<le> 176"
    and "header_stream h \<in> dom (view s) \<or> card (dom (view s)) < 4"
  shows "\<exists>s' tr'. feed_all feed s (seg_frames h bs) tr =
      Returns ([message_of (header_stream h) (bus_padded bs)], s', tr') \<and> inv s' \<and>
      view s' = (if length bs \<le> 8 then view s else (view s)(header_stream h := None))"
proof -
  have "\<forall>f \<in> set (seg_frames h bs). frame_ok f" using seg_frames_ok by blast
  from feed_all_law [OF assms(1) this, of tr] show ?thesis
    by (simp only: feed_spec_frames [OF assms(2-4)] fst_conv snd_conv)
qed

lemma streams_isolated:
  assumes "inv s" "\<forall>f \<in> set fs. frame_ok f"
    and "card (dom (view s) \<union> frame_stream ` set fs) \<le> 4"
    and "header_ok h" "length bs \<le> 176"
    and "filter (\<lambda>f. frame_stream f = header_stream h) fs = seg_frames h bs"
  shows "\<exists>msgs s' tr'. feed_all feed s fs tr = Returns (msgs, s', tr') \<and>
      filter (\<lambda>x. message_stream x = header_stream h) msgs =
        [message_of (header_stream h) (bus_padded bs)]"
proof -
  have "dom (view s |` {header_stream h}) \<subseteq> {header_stream h}" by auto
  then have "card (dom (view s |` {header_stream h})) \<le> card {header_stream h}"
    by (intro card_mono) auto
  then have "card (dom (view s |` {header_stream h})) < 4" by simp
  then have "fst (feed_spec_all (view s |` {header_stream h}) (seg_frames h bs)) =
      [message_of (header_stream h) (bus_padded bs)]"
    using assms(4,5) by (simp add: feed_spec_frames)
  with feed_spec_all_streams [OF view_finite [OF assms(1)] assms(3), of "header_stream h"]
    feed_all_law [OF assms(1,2), of tr] assms(6)
  show ?thesis by auto
qed

end

interpretation slot_table: reassembly slots_ok slots_abs CANIO_FeedFrame
proof unfold_locales
  fix s f tr
  assume "slots_ok s" "frame_ok f"
  then show "\<exists>s' tr'. CANIO_FeedFrame s f tr =
      Returns (fst (feed_spec (slots_abs s) f), fst (snd (feed_spec (slots_abs s) f)), s', tr') \<and>
        slots_ok s' \<and> slots_abs s' = snd (snd (feed_spec (slots_abs s) f))"
    using CANIO_FeedFrame_agrees [of s f tr] by (auto simp: feed_agrees_def)
next
  fix s :: Slots
  assume "slots_ok s"
  then show "finite (dom (slots_abs s))" by (rule slots_abs_bounds)
qed

lemma feed_spec_counts_ignored:
  "list_all (\<lambda>f. frame_seqType f = CANIO_SEQ_CONT \<and> frame_stream f = k) cs \<Longrightarrow>
   frame_seqType l = CANIO_SEQ_LAST \<Longrightarrow> frame_stream l = k \<Longrightarrow> m k = Some b \<Longrightarrow>
   length b + length (concat (map frame_bytes (cs @ [l]))) \<le> 176 \<Longrightarrow>
   feed_spec_all m (cs @ [l]) =
     ([message_of k (b @ concat (map frame_bytes (cs @ [l])))], m(k := None))"
proof (induction cs arbitrary: m b)
  case Nil
  then show ?case by (simp add: feed_spec_def Let_def CANIO_REASSEMBLY_BUF_SIZE_def fun_eq_iff)
next
  case (Cons f cs)
  have e: "feed_spec m f = (CANIO_REASSEMBLY_PENDING, None, m(k \<mapsto> b @ frame_bytes f))"
    using Cons.prems by (auto simp: feed_spec_def Let_def CANIO_REASSEMBLY_BUF_SIZE_def)
  have "feed_spec_all (m(k \<mapsto> b @ frame_bytes f)) (cs @ [l]) =
      ([message_of k ((b @ frame_bytes f) @ concat (map frame_bytes (cs @ [l])))],
       (m(k \<mapsto> b @ frame_bytes f))(k := None))"
    using Cons.prems by (intro Cons.IH) simp_all
  with e show ?case by (simp only: append_Cons feed_spec_all.simps prod.case option.case
        append_assoc list.map concat.simps fun_upd_upd)
qed

text \<open>A source that does not hold \<open>Len\<close> bytes is read past its end before the loop is over.\<close>

lemma seg_send_loop_overread:
  assumes good: "\<forall>tr f. env_can env tr f = CFE_SUCCESS" and short: "length d < unat Len"
  shows "offset < Len \<Longrightarrow> seg_send_loop env h (Some d) Len offset c tr = OutOfBounds"
proof (induction "unat Len - unat offset" arbitrary: offset c tr rule: less_induct)
  case less
  have ol: "offset \<le> Len" "unat offset < unat Len"
    using less.prems by (simp_all add: word_less_nat_alt word_le_nat_alt)
  let ?k = "seg_chunkLen Len offset"
  have k: "unat ?k = min 8 (unat Len - unat offset)" by (rule unat_seg_chunkLen [OF ol(1)])
  have k0: "0 < ?k" using k ol by (simp add: word_less_nat_alt)
  show ?case
  proof (cases "unat offset + unat ?k \<le> length d")
    case False
    then have "seg_copy (Some d) offset ?k = None" using k0 by (simp add: seg_copy_def mem_read_None)
    then show ?thesis by (subst seg_send_loop.simps) (simp add: Let_def)
  next
    case True
    then have cp: "seg_copy (Some d) offset ?k =
        Some (take (unat ?k) (drop (unat offset) d))"
      using k0 by (simp add: seg_copy_def mem_read_Some)
    have adv: "unat (offset + ?k) = unat offset + unat ?k"
      using True short unat_u8_less [of Len] by (intro unat_plus_no_wrap) simp
    have lt: "offset + ?k < Len" using True short adv by (simp add: word_less_nat_alt)
    have "unat Len - unat (offset + ?k) < unat Len - unat offset"
      using adv k0 ol by (simp add: word_less_nat_alt)
    note less.hyps [OF this lt]
    moreover have "Len \<noteq> 0" using ol by auto
    ultimately show ?thesis using cp lt good
      by (subst seg_send_loop.simps) (simp add: Let_def hal_send_eq)
  qed
qed

section \<open>Properties\<close>

definition sample_header :: CANIOMC_CAN_Header where
  "sample_header = \<lparr>hd_Priority = 3, hd_SenderID = 0, hd_ReceiverID = 2, hd_MessageID = 0x38,
     hd_SeqType = 0, hd_SeqCount = 0\<rparr>"

text \<open>C19. The sender loop with its wrapping \<open>uint8\<close> counters puts exactly the reference frames of the
  first \<open>Len\<close> bytes on the bus, in order, stops at the first frame the driver refuses with the
  driver's status, and never leaves the source buffer.\<close>

theorem CANIO_SendSegmented_frames:
  assumes "unat Len \<le> length d"
  shows "CANIO_SendSegmented env (Some h) (Some d) Len tr =
    Returns (send_all env (seg_frames h (take (unat Len) d)) tr)"
  by (simp add: CANIO_SendSegmented_def seg_send_loop_frames [OF assms])

theorem CANIO_SendSegmented_frames_witness:
  "CANIO_SendSegmented good_env (Some sample_header) (Some (zeros 14)) 14 [] =
   Returns (send_all good_env (seg_frames sample_header (take 14 (zeros 14))) [])"
  using CANIO_SendSegmented_frames [of 14 "zeros 14" good_env sample_header "[]"] by simp

text \<open>C1. End to end over the bus: a message of at most 176 bytes that the sender segments is
  delivered by the receiver's slot table as one message on the sender's stream, padded with zeros
  to a multiple of eight bytes, whenever the stream is open or a slot is free; nothing else is
  delivered and the table keeps its invariant.\<close>

theorem segmentation_round_trip:
  assumes "\<forall>tr f. env_can env tr f = CFE_SUCCESS" and "header_ok h"
    and "unat Len \<le> length d" and "unat Len \<le> CANIO_REASSEMBLY_BUF_SIZE"
    and "slots_ok S"
    and "header_stream h \<in> dom (slots_abs S) \<or> card (dom (slots_abs S)) < CANIO_MAX_REASSEMBLY_SLOTS"
  shows "\<exists>trs S' tr'. CANIO_SendSegmented env (Some h) (Some d) Len [] = Returns (CFE_SUCCESS, trs) \<and>
      feed_all CANIO_FeedFrame S (can_sent trs) tr =
        Returns ([message_of (header_stream h) (bus_padded (take (unat Len) d))], S', tr') \<and>
      take (unat Len) (bus_padded (take (unat Len) d)) = take (unat Len) d \<and> slots_ok S'"
proof -
  let ?bs = "take (unat Len) d"
  have "CANIO_SendSegmented env (Some h) (Some d) Len [] =
      Returns (CFE_SUCCESS, map (\<lambda>f. HAL_Send f CFE_SUCCESS) (seg_frames h ?bs))"
    using assms(1,3) by (simp add: CANIO_SendSegmented_def seg_send_loop_frames send_all_good)
  moreover have "\<exists>S' tr'. feed_all CANIO_FeedFrame S (seg_frames h ?bs) tr =
      Returns ([message_of (header_stream h) (bus_padded ?bs)], S', tr') \<and> slots_ok S'"
    using slot_table.message_received [OF assms(5,2), of ?bs tr] assms(3,4,6)
    by (auto simp: CANIO_REASSEMBLY_BUF_SIZE_def CANIO_MAX_REASSEMBLY_SLOTS_def)
  moreover have "take (unat Len) (bus_padded ?bs) = ?bs"
  proof -
    have "take (length ?bs) (bus_padded ?bs) = ?bs"
      unfolding bus_padded_def by (rule take_zero_filled)
    moreover have "length ?bs = unat Len" using assms(3) by simp
    ultimately show ?thesis by (simp only:)
  qed
  ultimately show ?thesis by simp
qed

definition empty_slots :: Slots where
  "empty_slots = replicate CANIO_MAX_REASSEMBLY_SLOTS zero_slot"

lemma slots_ok_empty: "slots_ok empty_slots"
  by (simp add: slots_ok_def empty_slots_def zero_slot_def slot_ok_def)

lemma slots_abs_empty: "slots_abs empty_slots = Map.empty"
proof
  fix k
  have "find_stream empty_slots k = None"
    unfolding find_stream_None
    by (simp add: empty_slots_def zero_slot_def CANIO_MAX_REASSEMBLY_SLOTS_def)
  then show "slots_abs empty_slots k = None" by (simp add: slots_abs_def)
qed

lemma good_env_can [simp]: "env_can good_env tr f = CFE_SUCCESS"
  by (simp add: good_env_def)

lemma header_ok_sample: "header_ok sample_header"
  by (simp add: header_ok_def sample_header_def)

theorem segmentation_round_trip_witness:
  "\<exists>trs S' tr'. CANIO_SendSegmented good_env (Some sample_header) (Some (zeros 20)) 14 [] =
        Returns (CFE_SUCCESS, trs) \<and>
      feed_all CANIO_FeedFrame empty_slots (can_sent trs) [] =
        Returns ([message_of (header_stream sample_header) (bus_padded (take 14 (zeros 20)))], S', tr') \<and>
      take 14 (bus_padded (take 14 (zeros 20))) = take 14 (zeros 20) \<and> slots_ok S'"
  using segmentation_round_trip [of good_env sample_header 14 "zeros 20" empty_slots "[]"]
  by (simp add: header_ok_sample CANIO_REASSEMBLY_BUF_SIZE_def slots_ok_empty slots_abs_empty
      CANIO_MAX_REASSEMBLY_SLOTS_def)

text \<open>C18. Streams do not disturb each other: however the frames of several messages are interleaved
  on the bus, as long as the open streams and those of the frames fit the four slots, the frames of
  a stream yield exactly that stream's message and no other on it.\<close>

theorem streams_do_not_interfere:
  assumes "slots_ok S" "\<forall>f \<in> set fs. frame_ok f"
    and "card (dom (slots_abs S) \<union> frame_stream ` set fs) \<le> CANIO_MAX_REASSEMBLY_SLOTS"
    and "header_ok h" "length bs \<le> CANIO_REASSEMBLY_BUF_SIZE"
    and "filter (\<lambda>f. frame_stream f = header_stream h) fs = seg_frames h bs"
  shows "\<exists>msgs S' tr'. feed_all CANIO_FeedFrame S fs tr = Returns (msgs, S', tr') \<and>
      filter (\<lambda>x. message_stream x = header_stream h) msgs =
        [message_of (header_stream h) (bus_padded bs)]"
  using slot_table.streams_isolated [OF assms(1,2), of h bs] assms(3-6)
  by (simp add: CANIO_MAX_REASSEMBLY_SLOTS_def CANIO_REASSEMBLY_BUF_SIZE_def)

definition sample_header2 :: CANIOMC_CAN_Header where
  "sample_header2 = sample_header\<lparr>hd_SenderID := 1\<rparr>"

definition interleaved_frames :: "CANIO_Frame list" where
  "interleaved_frames =
     concat (map (\<lambda>(a, b). [b, a])
       (zip (seg_frames sample_header (zeros 20)) (seg_frames sample_header2 (replicate 20 7))))"

lemma interleaved_streams:
  "\<forall>f \<in> set interleaved_frames. frame_ok f"
  "frame_stream ` set interleaved_frames \<subseteq> {header_stream sample_header, header_stream sample_header2}"
  "filter (\<lambda>f. frame_stream f = header_stream sample_header) interleaved_frames =
     seg_frames sample_header (zeros 20)"
  by code_simp+

theorem streams_do_not_interfere_witness:
  "\<exists>msgs S' tr'. feed_all CANIO_FeedFrame empty_slots interleaved_frames [] = Returns (msgs, S', tr') \<and>
      filter (\<lambda>x. message_stream x = header_stream sample_header) msgs =
        [message_of (header_stream sample_header) (bus_padded (zeros 20))]"
proof (rule streams_do_not_interfere [OF slots_ok_empty interleaved_streams(1) _ header_ok_sample _
      interleaved_streams(3)])
  have "card (frame_stream ` set interleaved_frames) \<le>
      card {header_stream sample_header, header_stream sample_header2}"
    by (rule card_mono [OF _ interleaved_streams(2)]) simp
  also have "\<dots> \<le> 4" by (simp add: card_insert_if)
  finally show "card (dom (slots_abs empty_slots) \<union> frame_stream ` set interleaved_frames) \<le>
      CANIO_MAX_REASSEMBLY_SLOTS"
    by (simp add: slots_abs_empty CANIO_MAX_REASSEMBLY_SLOTS_def)
qed (simp add: CANIO_REASSEMBLY_BUF_SIZE_def)

text \<open>C3. Refinement: on a well-formed table and a frame as the driver delivers it, the handler
  with its slot array, \<open>memcpy\<close>s and \<open>uint8\<close> lengths stays inside every buffer, keeps the table
  well formed (at most one open slot per stream, lengths within the buffers), and gives the status,
  the message and the open streams of the engine on finite maps, on every branch; it logs exactly
  when it reports a resource failure.\<close>

theorem CANIO_FeedFrame_refines:
  assumes "slots_ok S" "frame_ok f"
  shows "\<exists>st out S'. CANIO_FeedFrame S f tr = Returns (st, out, S',
          if st = CFE_STATUS_EXTERNAL_RESOURCE_FAIL then sys_log tr else tr) \<and>
      slots_ok S' \<and> feed_spec (slots_abs S) f = (st, out, slots_abs S')"
  using CANIO_FeedFrame_agrees [OF assms, of tr] by (simp only: feed_agrees_def)

theorem CANIO_FeedFrame_refines_witness:
  "\<exists>st out S'. CANIO_FeedFrame empty_slots (seg_frame sample_header CANIO_SEQ_FIRST 0 (zeros 8)) [] =
        Returns (st, out, S', if st = CFE_STATUS_EXTERNAL_RESOURCE_FAIL then sys_log [] else []) \<and>
      slots_ok S' \<and> feed_spec (slots_abs empty_slots)
        (seg_frame sample_header CANIO_SEQ_FIRST 0 (zeros 8)) = (st, out, slots_abs S')"
  by (rule CANIO_FeedFrame_refines [OF slots_ok_empty seg_frame_ok]) simp

text \<open>The sequence counts are never checked: after a \<open>FIRST\<close> frame, any list of \<open>CONT\<close> frames of
  the stream followed by its \<open>LAST\<close> frame completes with the concatenation of their payloads,
  whatever counts the frames carry. So a lost, repeated or reordered \<open>CONT\<close> frame is delivered as a
  complete message with the wrong content.\<close>

theorem sequence_counts_ignored:
  assumes "slots_ok S" "header_stream h \<in> dom (slots_abs S) \<or>
      card (dom (slots_abs S)) < CANIO_MAX_REASSEMBLY_SLOTS"
    and "\<forall>f \<in> set (f0 # cs @ [l]). frame_ok f \<and> frame_stream f = header_stream h"
    and "frame_seqType f0 = CANIO_SEQ_FIRST" "\<forall>f \<in> set cs. frame_seqType f = CANIO_SEQ_CONT"
    and "frame_seqType l = CANIO_SEQ_LAST"
    and "length (concat (map frame_bytes (f0 # cs @ [l]))) \<le> CANIO_REASSEMBLY_BUF_SIZE"
  shows "\<exists>S' tr'. feed_all CANIO_FeedFrame S (f0 # cs @ [l]) tr =
      Returns ([message_of (header_stream h) (concat (map frame_bytes (f0 # cs @ [l])))], S', tr')"
proof -
  let ?k = "header_stream h" and ?m = "slots_abs S"
  have "feed_spec ?m f0 = (CANIO_REASSEMBLY_PENDING, None, ?m(?k \<mapsto> frame_bytes f0))"
    using assms(2,3,4) by (auto simp: feed_spec_def Let_def)
  moreover have "feed_spec_all (?m(?k \<mapsto> frame_bytes f0)) (cs @ [l]) =
      ([message_of ?k (frame_bytes f0 @ concat (map frame_bytes (cs @ [l])))],
       (?m(?k \<mapsto> frame_bytes f0))(?k := None))"
    by (rule feed_spec_counts_ignored)
      (use assms in \<open>simp_all add: list_all_iff CANIO_REASSEMBLY_BUF_SIZE_def\<close>)
  ultimately have "fst (feed_spec_all ?m (f0 # cs @ [l])) =
      [message_of ?k (concat (map frame_bytes (f0 # cs @ [l])))]"
    by (simp only: feed_spec_all.simps prod.case option.case fst_conv list.map concat.simps)
  with slot_table.feed_all_law [OF assms(1), of "f0 # cs @ [l]" tr] assms(3) show ?thesis by metis
qed

theorem sequence_counts_ignored_witness:
  "\<exists>S' tr'. feed_all CANIO_FeedFrame empty_slots
        (seg_frame sample_header CANIO_SEQ_FIRST 0 (zeros 8) # [] @
         [seg_frame sample_header CANIO_SEQ_LAST 9 (zeros 8)]) [] =
      Returns ([message_of (header_stream sample_header) (concat (map frame_bytes
        (seg_frame sample_header CANIO_SEQ_FIRST 0 (zeros 8) # [] @
         [seg_frame sample_header CANIO_SEQ_LAST 9 (zeros 8)])))], S', tr')"
  by (rule sequence_counts_ignored [OF slots_ok_empty])
    (simp_all add: slots_abs_empty CANIO_MAX_REASSEMBLY_SLOTS_def CANIO_REASSEMBLY_BUF_SIZE_def
      seg_frame_ok seg_frame_fields header_ok_sample seg_frame_seqType seg_frame_bytes)

text \<open>The sender trusts the length it is given: with fewer than \<open>Len\<close> bytes behind the pointer
  and a driver that accepts every frame, the loop reads past the end of the source.\<close>

theorem CANIO_SendSegmented_overread:
  assumes "\<forall>tr f. env_can env tr f = CFE_SUCCESS" "length d < unat Len"
  shows "CANIO_SendSegmented env (Some h) (Some d) Len tr = OutOfBounds"
proof -
  have "0 < Len" using assms(2) by (simp add: word_less_nat_alt)
  then show ?thesis
    by (simp add: CANIO_SendSegmented_def seg_send_loop_overread [OF assms])
qed

theorem CANIO_SendSegmented_overread_witness:
  "CANIO_SendSegmented good_env (Some sample_header) (Some (zeros 176)) 177 [] = OutOfBounds"
  by (rule CANIO_SendSegmented_overread) simp_all

end
