(* ===== verification/Can_Hal.thy ===== *)
theory Can_Hal
  imports Segmentation
begin

text \<open>
  The two platform layers below the gateway: the SocketCAN driver of \<open>canIOMC_hal_socketcan.c\<close> and
  the spidev driver of \<open>canIOMC_spi_hal_spidev.c\<close>. The system calls are parameters: a record of the
  answers the kernel gives. A file descriptor is an \<open>int\<close>, \<open>-1\<close> when the device is closed.
\<close>

section \<open>SocketCAN\<close>

record can_frame =
  sf_can_id :: u32
  sf_can_dlc :: u8
  sf_data :: "u8 list"

record Can_Kernel =
  ck_socket :: int
  ck_ioctl_ifindex :: int
  ck_bind :: int
  ck_getfl :: int
  ck_setfl :: int

datatype Can_Read = Read_Frame can_frame | Read_Again | Read_Error

definition CAN_EFF_MASK :: u32 where
  "CAN_EFF_MASK = 0x1FFFFFFF"

definition CAN_EFF_FLAG :: u32 where
  "CAN_EFF_FLAG = 0x80000000"

text \<open>The status and the descriptor that is left in \<open>g_CanFd\<close>.\<close>

definition CANIO_HAL_Init :: "Can_Kernel \<Rightarrow> CFE_Status \<times> int" where
  "CANIO_HAL_Init k =
     (if ck_socket k < 0 then (CFE_STATUS_EXTERNAL_RESOURCE_FAIL, ck_socket k)
      else if ck_ioctl_ifindex k < 0 then (CFE_STATUS_EXTERNAL_RESOURCE_FAIL, -1)
      else if ck_bind k < 0 then (CFE_STATUS_EXTERNAL_RESOURCE_FAIL, -1)
      else if ck_getfl k < 0 \<or> ck_setfl k < 0 then (CFE_STATUS_EXTERNAL_RESOURCE_FAIL, -1)
      else (CFE_SUCCESS, ck_socket k))"

text \<open>The status and the frame handed to \<open>write\<close>, whose answer is \<open>nb\<close>.\<close>

definition CANIO_HAL_Send ::
  "int \<Rightarrow> (can_frame \<Rightarrow> int) \<Rightarrow> CANIO_Frame option \<Rightarrow> (CFE_Status \<times> can_frame option) run" where
  "CANIO_HAL_Send fd k_write Frame =
     (case Frame of
        None \<Rightarrow> Returns (CFE_STATUS_BAD_COMMAND_CODE, None)
      | Some f \<Rightarrow>
          if fd < 0 then Returns (CFE_STATUS_BAD_COMMAND_CODE, None)
          else
            let dlc = (if unat (fr_Len f) \<le> CANIO_HAL_MAX_DLC then fr_Len f
                       else of_nat CANIO_HAL_MAX_DLC)
            in case mem_read (fr_Data f) 0 (unat dlc) of
                 None \<Rightarrow> OutOfBounds
               | Some bytes \<Rightarrow>
                   let sf = \<lparr>sf_can_id = (fr_CanId f AND CAN_EFF_MASK) OR CAN_EFF_FLAG,
                             sf_can_dlc = dlc, sf_data = zero_filled CANIO_HAL_MAX_DLC bytes\<rparr>
                   in if k_write sf < 0
                      then Returns (CFE_STATUS_EXTERNAL_RESOURCE_FAIL, Some sf)
                      else Returns (CFE_SUCCESS, Some sf))"

text \<open>\<open>Frame\<close> is the caller's frame; the bytes past the received length keep their old values.\<close>

definition CANIO_HAL_Receive ::
  "int \<Rightarrow> Can_Read \<Rightarrow> CANIO_Frame option \<Rightarrow> (CFE_Status \<times> CANIO_Frame option) run" where
  "CANIO_HAL_Receive fd rd Frame =
     (case Frame of
        None \<Rightarrow> Returns (CFE_STATUS_BAD_COMMAND_CODE, None)
      | Some old \<Rightarrow>
          if fd < 0 then Returns (CFE_STATUS_BAD_COMMAND_CODE, Some old)
          else case rd of
                 Read_Again \<Rightarrow> Returns (CANIO_HAL_NO_MSG, Some old)
               | Read_Error \<Rightarrow> Returns (CFE_STATUS_EXTERNAL_RESOURCE_FAIL, Some old)
               | Read_Frame sf \<Rightarrow>
                   (case mem_read (sf_data sf) 0 (unat (sf_can_dlc sf)) of
                      None \<Rightarrow> OutOfBounds
                    | Some bytes \<Rightarrow>
                        (case mem_write (fr_Data old) 0 bytes of
                           None \<Rightarrow> OutOfBounds
                         | Some d \<Rightarrow> Returns (CFE_SUCCESS, Some
                             \<lparr>fr_CanId = sf_can_id sf AND CAN_EFF_MASK, fr_Data = d,
                              fr_Len = sf_can_dlc sf\<rparr>))))"

definition CANIO_HAL_Deinit :: "int \<Rightarrow> int" where
  "CANIO_HAL_Deinit fd = (if 0 \<le> fd then -1 else fd)"

lemma CAN_EFF_MASK_mask: "CAN_EFF_MASK = mask 29"
  by (simp add: CAN_EFF_MASK_def mask_eq_exp_minus_1)

lemma eff_id:
  "((i AND CAN_EFF_MASK) OR CAN_EFF_FLAG) AND CAN_EFF_MASK = i AND CAN_EFF_MASK"
proof -
  have "CAN_EFF_FLAG AND CAN_EFF_MASK = 0" by (simp add: CAN_EFF_FLAG_def CAN_EFF_MASK_def)
  then show ?thesis by (simp add: bit.conj_disj_distrib2 and.assoc)
qed

text \<open>An id packed from header fields has no bit above the 29th.\<close>

lemma packed_id_masked: "CANIO_PACK_ID p s r m t c AND CAN_EFF_MASK = CANIO_PACK_ID p s r m t c"
  unfolding CANIO_PACK_ID_def mask_numerals CAN_EFF_MASK_mask
  by (rule bit_word_eqI) (auto simp: bit_simps)

section \<open>spidev\<close>

record Spi_Kernel =
  sk_open :: int
  sk_wr_mode :: int
  sk_wr_bits :: int
  sk_wr_speed :: int

definition CANIOMC_SPI_MAX_XFER :: u32 where
  "CANIOMC_SPI_MAX_XFER = 4096"

definition CANIOMC_SPI_HAL_Init :: "Spi_Kernel \<Rightarrow> CFE_Status \<times> int" where
  "CANIOMC_SPI_HAL_Init k =
     (if sk_open k < 0 then (CFE_STATUS_EXTERNAL_RESOURCE_FAIL, sk_open k)
      else if sk_wr_mode k < 0 \<or> sk_wr_bits k < 0 \<or> sk_wr_speed k < 0
      then (CFE_STATUS_EXTERNAL_RESOURCE_FAIL, -1)
      else (CFE_SUCCESS, sk_open k))"

definition spi_burst :: "u32 \<Rightarrow> u32 \<Rightarrow> u32" where
  "spi_burst Len offset =
     (if CANIOMC_SPI_MAX_XFER < Len - offset then CANIOMC_SPI_MAX_XFER else Len - offset)"

lemma unat_spi_burst:
  "offset \<le> Len \<Longrightarrow> unat (spi_burst Len offset) = min 4096 (unat Len - unat offset)"
  by (auto simp: spi_burst_def CANIOMC_SPI_MAX_XFER_def word_less_nat_alt min_def unat_sub)

lemma unat_spi_advance:
  assumes "offset \<le> Len"
  shows "unat (offset + spi_burst Len offset) = min (unat offset + 4096) (unat Len)"
proof -
  from assms have ol: "unat offset \<le> unat Len" by (simp add: word_le_nat_alt)
  have "unat (offset + spi_burst Len offset) = unat offset + unat (spi_burst Len offset)"
    by (rule unat_plus_no_wrap)
      (use ol unat_u32_less [of Len] in \<open>simp add: unat_spi_burst assms\<close>)
  then show ?thesis using ol by (auto simp: unat_spi_burst assms min_def)
qed

text \<open>
  The \<open>while\<close> loop; \<open>io done b\<close> tells whether \<open>ioctl\<close> takes the burst \<open>b\<close> after the bursts \<open>done\<close>.
  The result has the bursts the bus has taken.
\<close>

function (sequential) spi_write_loop ::
  "(u8 list list \<Rightarrow> u8 list \<Rightarrow> bool) \<Rightarrow> u8 list \<Rightarrow> u32 \<Rightarrow> u32 \<Rightarrow> u8 list list \<Rightarrow>
   (CFE_Status \<times> u8 list list) run" where
  "spi_write_loop io Data Len offset bursts =
     (if offset < Len
      then let burst = spi_burst Len offset
           in case mem_read Data (unat offset) (unat burst) of
                None \<Rightarrow> OutOfBounds
              | Some b \<Rightarrow>
                  if \<not> io bursts b then Returns (CFE_STATUS_EXTERNAL_RESOURCE_FAIL, bursts)
                  else spi_write_loop io Data Len (offset + burst) (bursts @ [b])
      else Returns (CFE_SUCCESS, bursts))"
  by pat_completeness auto
termination spi_write_loop
  by (relation "measure (\<lambda>(io, Data, Len, offset, bursts). unat Len - unat offset)")
    (auto simp: unat_spi_advance word_less_nat_alt word_le_nat_alt)

declare spi_write_loop.simps [simp del]

definition CANIOMC_SPI_HAL_Write ::
  "int \<Rightarrow> (u8 list list \<Rightarrow> u8 list \<Rightarrow> bool) \<Rightarrow> u8 list option \<Rightarrow> u32 \<Rightarrow>
   (CFE_Status \<times> u8 list list) run" where
  "CANIOMC_SPI_HAL_Write fd io Data Len =
     (case Data of None \<Rightarrow> Returns (CFE_STATUS_BAD_COMMAND_CODE, [])
      | Some d \<Rightarrow> if fd < 0 then Returns (CFE_STATUS_BAD_COMMAND_CODE, [])
                  else spi_write_loop io d Len 0 [])"

definition CANIOMC_SPI_HAL_Deinit :: "int \<Rightarrow> int" where
  "CANIOMC_SPI_HAL_Deinit fd = (if 0 \<le> fd then -1 else fd)"

text \<open>Sending a list of bursts and stopping at the first one that is refused.\<close>

fun spi_send_all ::
  "(u8 list list \<Rightarrow> u8 list \<Rightarrow> bool) \<Rightarrow> u8 list list \<Rightarrow> u8 list list \<Rightarrow> CFE_Status \<times> u8 list list" where
  "spi_send_all io [] bursts = (CFE_SUCCESS, bursts)"
| "spi_send_all io (b # bs) bursts =
     (if \<not> io bursts b then (CFE_STATUS_EXTERNAL_RESOURCE_FAIL, bursts)
      else spi_send_all io bs (bursts @ [b]))"

lemma spi_write_loop_chunks:
  assumes "unat Len \<le> length d"
  shows "offset \<le> Len \<Longrightarrow> spi_write_loop io d Len offset bursts =
    Returns (spi_send_all io (chunks 4096 (drop (unat offset) (take (unat Len) d))) bursts)"
proof (induction "unat Len - unat offset" arbitrary: offset bursts rule: less_induct)
  case less
  let ?rest = "drop (unat offset) (take (unat Len) d)"
  have len: "length ?rest = unat Len - unat offset" using assms by simp
  show ?case
  proof (cases "offset < Len")
    case False
    then have "length ?rest = 0" using less.prems len by (simp add: word_less_nat_alt)
    then have "?rest = []" by (simp only: length_0_conv)
    with False show ?thesis by (subst spi_write_loop.simps) (simp del: drop_take)
  next
    case True
    let ?b = "spi_burst Len offset"
    have ol: "unat offset < unat Len" using True by (simp add: word_less_nat_alt)
    have ne: "?rest \<noteq> []"
      using len ol by (metis length_0_conv not_less_zero zero_less_diff)
    have ub: "unat ?b = min 4096 (length ?rest)" using less.prems len by (simp add: unat_spi_burst)
    have adv: "unat (offset + ?b) = unat offset + unat ?b"
      using less.prems ub len ol by (auto simp: unat_spi_advance min_def)
    have le: "offset + ?b \<le> Len" using adv ub len ol by (simp add: word_le_nat_alt min_le_iff_disj)
    have rd: "mem_read d (unat offset) (unat ?b) = Some (take 4096 ?rest)"
    proof -
      have "take 4096 ?rest = take (unat ?b) ?rest"
        unfolding ub by (cases "length ?rest \<le> 4096") (simp_all add: min_def del: drop_take)
      also have "\<dots> = take (unat ?b) (drop (unat offset) d)"
        using ub len by (simp add: drop_take min_def)
      finally show ?thesis using ub len ol assms by (simp add: mem_read_Some)
    qed
    have dr: "drop (unat (offset + ?b)) (take (unat Len) d) = drop 4096 ?rest"
    proof -
      have "drop 4096 ?rest = drop (unat ?b) ?rest"
        unfolding ub by (cases "length ?rest \<le> 4096") (simp_all add: min_def del: drop_take drop_drop)
      then show ?thesis unfolding adv by (simp add: add.commute del: drop_take)
    qed
    have dec: "unat Len - unat (offset + ?b) < unat Len - unat offset"
      using adv ub len ol by (auto simp: min_def)
    note IH = less.hyps [OF dec le, of "bursts @ [take 4096 ?rest]", unfolded dr]
    show ?thesis
      using True rd IH chunks_Cons [of 4096 ?rest] ne
      by (subst spi_write_loop.simps) (simp add: Let_def del: drop_take drop_drop)
  qed
qed

lemma spi_send_all_good: "spi_send_all (\<lambda>_ _. True) bs bursts = (CFE_SUCCESS, bursts @ bs)"
  by (induction bs arbitrary: bursts) simp_all

lemma spi_send_all_prefix:
  "\<exists>n \<le> length bs. snd (spi_send_all io bs bursts) = bursts @ take n bs \<and>
     (fst (spi_send_all io bs bursts) = CFE_SUCCESS \<longrightarrow> n = length bs)"
proof (induction bs arbitrary: bursts)
  case Nil
  then show ?case by simp
next
  case (Cons b bs)
  show ?case
  proof (cases "io bursts b")
    case True
    obtain n where "n \<le> length bs" "snd (spi_send_all io bs (bursts @ [b])) = (bursts @ [b]) @ take n bs"
      "fst (spi_send_all io bs (bursts @ [b])) = CFE_SUCCESS \<longrightarrow> n = length bs"
      using Cons.IH by blast
    with True show ?thesis by (intro exI [of _ "Suc n"]) simp
  next
    case False
    then show ?thesis by (intro exI [of _ 0]) simp
  qed
qed

section \<open>Properties\<close>

text \<open>
  What SocketCAN does with a data frame between two sockets: length and payload arrive, the bytes behind the
  payload need not; an id with the extended flag arrives in full with the flag, one without it only in its
  low 11 bits. The kernel and the bus are a parameter, and this is what is relied on.
\<close>

definition CAN_SFF_MASK :: u32 where
  "CAN_SFF_MASK = 0x7FF"

definition CAN_RTR_ERR_FLAGS :: u32 where
  "CAN_RTR_ERR_FLAGS = 0x60000000"

definition carries_frames :: "(can_frame \<Rightarrow> can_frame) \<Rightarrow> bool" where
  "carries_frames wire \<longleftrightarrow> (\<forall>sf. sf_can_id sf AND CAN_RTR_ERR_FLAGS = 0 \<longrightarrow> unat (sf_can_dlc sf) \<le> CANIO_HAL_MAX_DLC \<longrightarrow>
     length (sf_data sf) = CANIO_HAL_MAX_DLC \<longrightarrow>
     sf_can_dlc (wire sf) = sf_can_dlc sf \<and> length (sf_data (wire sf)) = CANIO_HAL_MAX_DLC \<and>
     take (unat (sf_can_dlc sf)) (sf_data (wire sf)) = take (unat (sf_can_dlc sf)) (sf_data sf) \<and>
     sf_can_id (wire sf) = (if sf_can_id sf AND CAN_EFF_FLAG \<noteq> 0 then sf_can_id sf else sf_can_id sf AND CAN_SFF_MASK))"

lemma extended_id:
  assumes "i AND CAN_EFF_MASK = i"
  shows "(i OR CAN_EFF_FLAG) AND CAN_RTR_ERR_FLAGS = 0" "(i OR CAN_EFF_FLAG) AND CAN_EFF_FLAG \<noteq> 0"
    "(i OR CAN_EFF_FLAG) AND CAN_EFF_MASK = i"
proof -
  have "i AND CAN_RTR_ERR_FLAGS = i AND (CAN_EFF_MASK AND CAN_RTR_ERR_FLAGS)"
    using assms by (metis and.assoc)
  then show "(i OR CAN_EFF_FLAG) AND CAN_RTR_ERR_FLAGS = 0"
    by (simp add: bit.conj_disj_distrib2 CAN_EFF_MASK_def CAN_EFF_FLAG_def CAN_RTR_ERR_FLAGS_def)
  have "i AND CAN_EFF_FLAG = i AND (CAN_EFF_MASK AND CAN_EFF_FLAG)"
    using assms by (metis and.assoc)
  then show "(i OR CAN_EFF_FLAG) AND CAN_EFF_FLAG \<noteq> 0"
    by (simp add: bit.conj_disj_distrib2 CAN_EFF_MASK_def CAN_EFF_FLAG_def)
  show "(i OR CAN_EFF_FLAG) AND CAN_EFF_MASK = i"
    using eff_id [of i] assms by simp
qed

text \<open>C34. A frame the gateway builds survives the driver. \<open>CANIO_HAL_Send\<close> writes exactly the 29-bit
  identifier with the extended flag of SocketCAN, the length, and the payload padded with zeros; and what
  arrives at another node, read by \<open>CANIO_HAL_Receive\<close>, has the same identifier, length and payload,
  whatever the receiver's frame held before. Without the flag the bus would carry 11 bits of the identifier.\<close>

theorem can_hal_round_trip:
  assumes "0 \<le> fd" "0 \<le> fd'" "frame_ok f" "fr_CanId f AND CAN_EFF_MASK = fr_CanId f"
    and "\<forall>sf. 0 \<le> k_write sf" "length (fr_Data old) = CANIO_HAL_MAX_DLC" "carries_frames wire"
  shows "let sf = \<lparr>sf_can_id = fr_CanId f OR CAN_EFF_FLAG, sf_can_dlc = fr_Len f,
        sf_data = zero_filled CANIO_HAL_MAX_DLC (frame_bytes f)\<rparr> in
    CANIO_HAL_Send fd k_write (Some f) = Returns (CFE_SUCCESS, Some sf) \<and>
    (\<exists>g. CANIO_HAL_Receive fd' (Read_Frame (wire sf)) (Some old) = Returns (CFE_SUCCESS, Some g) \<and>
      fr_CanId g = fr_CanId f \<and> fr_Len g = fr_Len f \<and> frame_bytes g = frame_bytes f \<and> frame_ok g)"
proof -
  define sf where "sf = \<lparr>sf_can_id = fr_CanId f OR CAN_EFF_FLAG, sf_can_dlc = fr_Len f,
      sf_data = zero_filled CANIO_HAL_MAX_DLC (frame_bytes f)\<rparr>"
  let ?d = "frame_bytes f @ drop (unat (fr_Len f)) (fr_Data old)"
  let ?g = "\<lparr>fr_CanId = fr_CanId f, fr_Data = ?d, fr_Len = fr_Len f\<rparr>"
  note id = extended_id [OF assms(4)]
  have lb: "length (frame_bytes f) = unat (fr_Len f)" by (rule length_frame_bytes [OF assms(3)])
  have le: "unat (fr_Len f) \<le> 8" "length (fr_Data f) = 8"
    using assms(3) by (simp_all add: frame_ok_def CANIO_HAL_MAX_DLC_def)
  have rd: "mem_read (fr_Data f) 0 (unat (fr_Len f)) = Some (frame_bytes f)"
    using le by (simp add: mem_read_Some frame_bytes_def)
  have send: "CANIO_HAL_Send fd k_write (Some f) = Returns (CFE_SUCCESS, Some sf)"
    using assms(1,4,5) le rd by (simp add: CANIO_HAL_Send_def CANIO_HAL_MAX_DLC_def Let_def not_less sf_def)
  have padded: "take (unat (fr_Len f)) (sf_data sf) = frame_bytes f" "length (sf_data sf) = CANIO_HAL_MAX_DLC"
    using lb le take_zero_filled [of "frame_bytes f" 8] by (simp_all add: sf_def CANIO_HAL_MAX_DLC_def)
  have "sf_can_dlc (wire sf) = fr_Len f \<and> length (sf_data (wire sf)) = 8 \<and>
      take (unat (fr_Len f)) (sf_data (wire sf)) = frame_bytes f \<and> sf_can_id (wire sf) = fr_CanId f OR CAN_EFF_FLAG"
    using assms(7) [unfolded carries_frames_def, rule_format, of sf] padded le id
    by (simp add: sf_def CANIO_HAL_MAX_DLC_def)
  moreover from this have "mem_read (sf_data (wire sf)) 0 (unat (sf_can_dlc (wire sf))) = Some (frame_bytes f)"
    using le by (simp add: mem_read_Some)
  moreover have "mem_write (fr_Data old) 0 (frame_bytes f) = Some ?d"
    using lb le assms(6) by (simp add: mem_write_Some CANIO_HAL_MAX_DLC_def)
  ultimately have "CANIO_HAL_Receive fd' (Read_Frame (wire sf)) (Some old) = Returns (CFE_SUCCESS, Some ?g)"
    using assms(2) id by (simp add: CANIO_HAL_Receive_def)
  moreover have "length ?d = 8" using lb le assms(6) by (simp add: CANIO_HAL_MAX_DLC_def)
  ultimately have "fr_CanId ?g = fr_CanId f \<and> fr_Len ?g = fr_Len f \<and> frame_bytes ?g = frame_bytes f \<and> frame_ok ?g"
    "CANIO_HAL_Receive fd' (Read_Frame (wire sf)) (Some old) = Returns (CFE_SUCCESS, Some ?g)"
    using lb le by (simp_all add: frame_bytes_def [of ?g] frame_ok_def CANIO_HAL_MAX_DLC_def)
  with send show ?thesis unfolding Let_def sf_def [symmetric] by blast
qed

text \<open>A bus that truncates ids without the flag, and leaves nothing behind the payload.\<close>

definition plain_wire :: "can_frame \<Rightarrow> can_frame" where
  "plain_wire sf = \<lparr>sf_can_id = (if sf_can_id sf AND CAN_EFF_FLAG \<noteq> 0 then sf_can_id sf else sf_can_id sf AND CAN_SFF_MASK),
     sf_can_dlc = sf_can_dlc sf, sf_data = zero_filled CANIO_HAL_MAX_DLC (take (unat (sf_can_dlc sf)) (sf_data sf))\<rparr>"

lemma plain_wire_carries: "carries_frames plain_wire"
  by (auto simp: carries_frames_def plain_wire_def zero_filled_def min_def)

theorem can_hal_round_trip_witness:
  "let f = seg_frame sample_header 3 0 [1, 2]; sf = \<lparr>sf_can_id = fr_CanId f OR CAN_EFF_FLAG,
        sf_can_dlc = fr_Len f, sf_data = zero_filled CANIO_HAL_MAX_DLC (frame_bytes f)\<rparr> in
    CANIO_HAL_Send 3 (\<lambda>_. 16) (Some f) = Returns (CFE_SUCCESS, Some sf) \<and>
    (\<exists>g. CANIO_HAL_Receive 4 (Read_Frame (plain_wire sf)) (Some \<lparr>fr_CanId = 0, fr_Data = zeros 8, fr_Len = 0\<rparr>) =
        Returns (CFE_SUCCESS, Some g) \<and>
      fr_CanId g = fr_CanId f \<and> fr_Len g = fr_Len f \<and> frame_bytes g = frame_bytes f \<and> frame_ok g)"
  using can_hal_round_trip [OF _ _ seg_frame_ok _ _ _ plain_wire_carries, of 3 4 "[1, 2]" sample_header 3 0 "\<lambda>_. 16"
      "\<lparr>fr_CanId = 0, fr_Data = zeros 8, fr_Len = 0\<rparr>"]
  by (simp add: packed_id_masked seg_frame_def [of sample_header] CANIO_HAL_MAX_DLC_def)

text \<open>The SPI driver clocks out the first \<open>Len\<close> bytes in bursts of at most 4096, in order and
  without a gap, and stops at the first burst the kernel refuses; when the kernel takes every burst
  the bytes on the wire are exactly the bytes given.\<close>

theorem CANIOMC_SPI_HAL_Write_bursts:
  assumes "0 \<le> fd" "unat Len \<le> length d"
  shows "\<exists>st n. CANIOMC_SPI_HAL_Write fd io (Some d) Len =
      Returns (st, take n (chunks (unat CANIOMC_SPI_MAX_XFER) (take (unat Len) d))) \<and>
      (st = CFE_SUCCESS \<longrightarrow>
        concat (take n (chunks (unat CANIOMC_SPI_MAX_XFER) (take (unat Len) d))) = take (unat Len) d)"
proof -
  let ?cs = "chunks 4096 (take (unat Len) d)"
  have e: "CANIOMC_SPI_HAL_Write fd io (Some d) Len = Returns (spi_send_all io ?cs [])"
    using assms spi_write_loop_chunks [OF assms(2), of 0] by (simp add: CANIOMC_SPI_HAL_Write_def)
  obtain n where n: "snd (spi_send_all io ?cs []) = take n ?cs"
    "fst (spi_send_all io ?cs []) = CFE_SUCCESS \<longrightarrow> n = length ?cs"
    using spi_send_all_prefix [of ?cs io "[]"] by auto
  show ?thesis
    by (rule exI [of _ "fst (spi_send_all io ?cs [])"], rule exI [of _ n])
      (use e n in \<open>auto simp: CANIOMC_SPI_MAX_XFER_def concat_chunks simp flip: n(1)\<close>)
qed

theorem CANIOMC_SPI_HAL_Write_bursts_witness:
  "\<exists>st n. CANIOMC_SPI_HAL_Write 3 (\<lambda>_ _. True) (Some [1, 2, 3]) 3 =
      Returns (st, take n (chunks (unat CANIOMC_SPI_MAX_XFER) (take 3 [1, 2, 3]))) \<and>
      (st = CFE_SUCCESS \<longrightarrow>
        concat (take n (chunks (unat CANIOMC_SPI_MAX_XFER) (take 3 [1, 2, 3 :: u8]))) =
          take 3 [1, 2, 3 :: u8])"
  using CANIOMC_SPI_HAL_Write_bursts [of 3 3 "[1, 2, 3]" "\<lambda>_ _. True"] by simp

end
