(* ===== verification/App_Common.thy ===== *)
theory App_Common
  imports Segmentation
begin

text \<open>
  What the six METUCube applications have in common, each in its own copy in the sources: the start
  sequence of service calls with an early return at the first failure, the configuration table, the
  main loop over the software bus pipe, and the header constants of \<open>canIOMC_app_header_defs.h\<close>.
\<close>

section \<open>Node and message identifiers\<close>

definition CANIOMC_OBC_ID :: u8 where "CANIOMC_OBC_ID = 0x00"

definition CANIOMC_ADCS_ID :: u8 where "CANIOMC_ADCS_ID = 0x01"

definition CANIOMC_COMM_ID :: u8 where "CANIOMC_COMM_ID = 0x02"

definition CANIOMC_EPS_ID :: u8 where "CANIOMC_EPS_ID = 0x03"

definition CANIOMC_MPPT_ID :: u8 where "CANIOMC_MPPT_ID = 0x04"

definition CANIOMC_PAYLOAD_ID :: u8 where "CANIOMC_PAYLOAD_ID = 0x05"

definition CANIOMC_ALL2REC_ID :: u8 where "CANIOMC_ALL2REC_ID = 0x0F"

definition CANIOMC_HKPRIORITY :: u8 where "CANIOMC_HKPRIORITY = 0x03"

definition CANIOMC_OBCPOWER_HK_MSGID :: u16 where "CANIOMC_OBCPOWER_HK_MSGID = 0x66"

definition CANIOMC_HEARTBEAT_MSGID :: u16 where "CANIOMC_HEARTBEAT_MSGID = 0x00"

definition CANIOMC_MPPT_HK_MSGID :: u16 where "CANIOMC_MPPT_HK_MSGID = 0x86"

definition CANIOMC_MPPT_HEARTBEAT_MSGID :: u16 where "CANIOMC_MPPT_HEARTBEAT_MSGID = 0x85"

definition CANIOMC_PAYLOAD_HK_MSGID :: u16 where "CANIOMC_PAYLOAD_HK_MSGID = 0xA6"

definition CANIOMC_PAYLOAD_HEARTBEAT_MSGID :: u16 where "CANIOMC_PAYLOAD_HEARTBEAT_MSGID = 0xA5"

definition CANIOMC_ADCS_HK_MSGID :: u16 where "CANIOMC_ADCS_HK_MSGID = 0x26"

definition CANIOMC_COMM_HK_MSGID :: u16 where "CANIOMC_COMM_HK_MSGID = 0xC6"

definition CANIOMC_PAYLOAD_TAKEPHOTO_MSGID :: u16 where "CANIOMC_PAYLOAD_TAKEPHOTO_MSGID = 0xA7"

definition CANIOMC_PAYLOAD_INIT_COMPLETE_MSGID :: u16 where
  "CANIOMC_PAYLOAD_INIT_COMPLETE_MSGID = 0xA8"

definition CANIOMC_PAYLOAD_CAPTURE_FRAME_MSGID :: u16 where
  "CANIOMC_PAYLOAD_CAPTURE_FRAME_MSGID = 0xA9"

definition CANIOMC_COMM_IMG_REQUEST_MSGID :: u16 where "CANIOMC_COMM_IMG_REQUEST_MSGID = 0x077"

definition CANIOMC_IMG_XFER_BEGIN_MSGID :: u16 where "CANIOMC_IMG_XFER_BEGIN_MSGID = 0x038"

definition CANIOMC_IMG_XFER_BEGIN_ACK_MSGID :: u16 where
  "CANIOMC_IMG_XFER_BEGIN_ACK_MSGID = 0x078"

definition CANIOMC_IMG_CHUNK_READY_MSGID :: u16 where "CANIOMC_IMG_CHUNK_READY_MSGID = 0x039"

definition CANIOMC_IMG_CHUNK_ACK_MSGID :: u16 where "CANIOMC_IMG_CHUNK_ACK_MSGID = 0x079"

definition CANIOMC_IMG_XFER_END_MSGID :: u16 where "CANIOMC_IMG_XFER_END_MSGID = 0x03A"

definition CANIOMC_IMG_XFER_RESULT_MSGID :: u16 where "CANIOMC_IMG_XFER_RESULT_MSGID = 0x07A"

definition CANIOMC_IMG_XFER_ABORT_MSGID :: u16 where "CANIOMC_IMG_XFER_ABORT_MSGID = 0x03B"

lemmas node_defs = CANIOMC_OBC_ID_def CANIOMC_ADCS_ID_def CANIOMC_COMM_ID_def CANIOMC_EPS_ID_def
  CANIOMC_MPPT_ID_def CANIOMC_PAYLOAD_ID_def CANIOMC_ALL2REC_ID_def CANIOMC_HKPRIORITY_def

lemmas msgid_defs = CANIOMC_OBCPOWER_HK_MSGID_def CANIOMC_HEARTBEAT_MSGID_def
  CANIOMC_MPPT_HK_MSGID_def CANIOMC_MPPT_HEARTBEAT_MSGID_def CANIOMC_PAYLOAD_HK_MSGID_def
  CANIOMC_PAYLOAD_HEARTBEAT_MSGID_def CANIOMC_ADCS_HK_MSGID_def CANIOMC_COMM_HK_MSGID_def
  CANIOMC_PAYLOAD_TAKEPHOTO_MSGID_def CANIOMC_PAYLOAD_INIT_COMPLETE_MSGID_def
  CANIOMC_PAYLOAD_CAPTURE_FRAME_MSGID_def CANIOMC_COMM_IMG_REQUEST_MSGID_def
  CANIOMC_IMG_XFER_BEGIN_MSGID_def CANIOMC_IMG_XFER_BEGIN_ACK_MSGID_def
  CANIOMC_IMG_CHUNK_READY_MSGID_def CANIOMC_IMG_CHUNK_ACK_MSGID_def CANIOMC_IMG_XFER_END_MSGID_def
  CANIOMC_IMG_XFER_RESULT_MSGID_def CANIOMC_IMG_XFER_ABORT_MSGID_def

text \<open>A CAN request without payload from the OBC to a node, as the applications build it.\<close>

definition can_request :: "u8 \<Rightarrow> u16 \<Rightarrow> SB_Msg" where
  "can_request receiver msgid = CANIOMC_CMD_MID
     \<lparr>cp_Header = \<lparr>hd_Priority = CANIOMC_HKPRIORITY, hd_SenderID = CANIOMC_OBC_ID,
        hd_ReceiverID = receiver, hd_MessageID = msgid, hd_SeqType = 0, hd_SeqCount = 0\<rparr>,
      cp_PayloadLen = 0, cp_Payload = zeros CANIOMC_SB_MAX_PAYLOAD\<rparr>"

section \<open>Event identifiers\<close>

text \<open>The numbers are the same in the six \<open>*_app_events.h\<close> headers.\<close>

definition MSG_RECEIVED_EID :: nat where "MSG_RECEIVED_EID = 101"

definition HK_SEND_SUCCESS_EID :: nat where "HK_SEND_SUCCESS_EID = 102"

definition RCV_MSG_ERR_EID :: nat where "RCV_MSG_ERR_EID = 200"

definition CREATE_PIPE_ERR_EID :: nat where "CREATE_PIPE_ERR_EID = 201"

definition SUBSCRIBE_ERR_EID :: nat where "SUBSCRIBE_ERR_EID = 202"

definition TBL_REGISTER_ERR_EID :: nat where "TBL_REGISTER_ERR_EID = 203"

definition TBL_LOAD_ERR_EID :: nat where "TBL_LOAD_ERR_EID = 204"

definition TBL_MANAGE_ERR_EID :: nat where "TBL_MANAGE_ERR_EID = 205"

definition TBL_GET_ADDR_ERR_EID :: nat where "TBL_GET_ADDR_ERR_EID = 206"

definition TBL_RELEASE_ADDR_ERR_EID :: nat where "TBL_RELEASE_ADDR_ERR_EID = 207"

definition HK_PREP_ERR_EID :: nat where "HK_PREP_ERR_EID = 208"

definition HK_SEND_ERR_EID :: nat where "HK_SEND_ERR_EID = 209"

definition UNKNOWN_MSG_ERR_EID :: nat where "UNKNOWN_MSG_ERR_EID = 210"

definition INIT_HK_ERR_EID :: nat where "INIT_HK_ERR_EID = 211"

section \<open>Start sequence\<close>

text \<open>A service call whose failure is reported and ends the function with its status.\<close>

definition svc_or :: "Env \<Rightarrow> Service \<Rightarrow> (Trace \<Rightarrow> Trace) \<Rightarrow> (Trace \<Rightarrow> CFE_Status \<times> Trace) \<Rightarrow>
    Trace \<Rightarrow> CFE_Status \<times> Trace" where
  "svc_or env v report k tr =
     (case svc_call env v tr of (status, tr') \<Rightarrow>
        if status \<noteq> CFE_SUCCESS then (status, report tr') else k tr')"

fun subscribe_all :: "Env \<Rightarrow> App_Id \<Rightarrow> u16 list \<Rightarrow> (Trace \<Rightarrow> CFE_Status \<times> Trace) \<Rightarrow> Trace \<Rightarrow>
    CFE_Status \<times> Trace" where
  "subscribe_all env app [] k tr = k tr"
| "subscribe_all env app (mid # mids) k tr =
     svc_or env (SB_Subscribe mid) (send_event app SUBSCRIBE_ERR_EID EVS_ERROR)
       (subscribe_all env app mids k) tr"

definition app_table_init :: "Env \<Rightarrow> App_Id \<Rightarrow> Trace \<Rightarrow> CFE_Status \<times> Trace" where
  "app_table_init env app =
     svc_or env TBL_Register (send_event app TBL_REGISTER_ERR_EID EVS_ERROR)
    (svc_or env TBL_Load (send_event app TBL_LOAD_ERR_EID EVS_ERROR)
    (svc_or env TBL_Manage (send_event app TBL_MANAGE_ERR_EID EVS_ERROR)
    (\<lambda>tr. case svc_call env TBL_GetAddress tr of (status, tr') \<Rightarrow>
        if status \<noteq> CFE_TBL_INFO_UPDATED
        then (status, send_event app TBL_GET_ADDR_ERR_EID EVS_ERROR tr')
        else (CFE_SUCCESS, tr'))))"

definition app_table_reload :: "Env \<Rightarrow> App_Id \<Rightarrow> Trace \<Rightarrow> CFE_Status \<times> Trace" where
  "app_table_reload env app =
     svc_or env TBL_ReleaseAddress (send_event app TBL_RELEASE_ADDR_ERR_EID EVS_ERROR)
       (app_table_init env app)"

lemma svc_or_bad:
  "env_svc env tr v \<noteq> CFE_SUCCESS \<Longrightarrow>
   svc_or env v report k tr = (env_svc env tr v, report (tr @ [Svc v (env_svc env tr v)]))"
  by (simp add: svc_or_def svc_call_def)

lemma svc_or_good:
  "env_svc env tr v = CFE_SUCCESS \<Longrightarrow> svc_or env v report k tr = k (tr @ [Svc v CFE_SUCCESS])"
  by (simp add: svc_or_def svc_call_def)

section \<open>Main loop\<close>

datatype Run_Status = APP_RUN | APP_ERROR

text \<open>What a turn of the loop gets: the outcome of \<open>CFE_SB_ReceiveBuffer\<close>, or the order of cFE to
  stop, which \<open>CFE_ES_RunLoop\<close> reports.\<close>

datatype Loop_Input = Received SB_Msg | Timed_Out | Receive_Error CFE_Status | Shutdown

fun app_run_loop ::
  "('s \<Rightarrow> Run_Status) \<Rightarrow> (Loop_Input \<Rightarrow> 's \<Rightarrow> Trace \<Rightarrow> ('s \<times> Trace) run) \<Rightarrow>
   Loop_Input list \<Rightarrow> 's \<Rightarrow> Trace \<Rightarrow> ('s \<times> Trace) run" where
  "app_run_loop status step [] s tr = (if status s = APP_RUN then Blocked else Returns (s, tr))"
| "app_run_loop status step (i # is) s tr =
     (if status s \<noteq> APP_RUN \<or> i = Shutdown then Returns (s, tr)
      else run_bind (step i s tr) (\<lambda>(s', tr'). app_run_loop status step is s' tr'))"

text \<open>\<open>memcpy\<close> of little-endian words from a byte buffer into a typed array.\<close>

definition read_le16s :: "u8 list \<Rightarrow> nat \<Rightarrow> nat \<Rightarrow> u16 list" where
  "read_le16s buf off n = map (\<lambda>i. read_le16 buf (off + 2 * i)) [0..<n]"

definition read_le32s :: "u8 list \<Rightarrow> nat \<Rightarrow> nat \<Rightarrow> u32 list" where
  "read_le32s buf off n = map (\<lambda>i. read_le32 buf (off + 4 * i)) [0..<n]"

lemma read_le16_append:
  "length pre = off \<Longrightarrow> read_le16 (pre @ xs) (off + k) = read_le16 xs k"
  by (simp only: read_le16_def add.assoc nth_append_length_plus flip: nth_append_length_plus [of pre xs])

lemma read_le16_Cons: "read_le16 (le16 v @ xs) 0 = v"
  using read_le16_le16 [of v] by (simp add: read_le16_def le16_def)

lemma length_concat_le16 [simp]: "length (concat (map le16 vs)) = 2 * length vs"
  by (induction vs) simp_all

lemma read_le16s_le16s:
  "length pre = off \<Longrightarrow> read_le16s (pre @ concat (map le16 vs) @ rest) off (length vs) = vs"
proof (induction vs arbitrary: pre off)
  case Nil
  then show ?case by (simp add: read_le16s_def)
next
  case (Cons v vs)
  have "read_le16s ((pre @ le16 v) @ concat (map le16 vs) @ rest) (off + 2) (length vs) = vs"
    using Cons.prems by (intro Cons.IH) simp
  moreover have "read_le16 (pre @ le16 v @ concat (map le16 vs) @ rest) off = v"
    using read_le16_append [OF Cons.prems, of _ 0] by (simp add: read_le16_Cons)
  moreover have "[0..<length (v # vs)] = 0 # map Suc [0..<length vs]"
    by (simp add: map_Suc_upt upt_conv_Cons del: upt_Suc)
  ultimately show ?case by (simp add: read_le16s_def comp_def del: upt_Suc)
qed

end
