(* ===== verification/Can_Io.thy ===== *)
theory Can_Io
  imports App_Common
begin

text \<open>
  The CAN gateway application: routing of unprompted messages (\<open>canIOMC_app_router.c\<close>), parsing of
  the telemetry of the boards, the commands of \<open>canIOMC_app_cmds.c\<close>, the dispatcher and the main
  loop. The HAL calls are those of \<open>canIOMC_hal.h\<close> and \<open>canIOMC_spi_hal.h\<close>.
\<close>

section \<open>Router\<close>

type_synonym Route_Entry = "u16 \<times> (CANIOMC_RouteTriggerPkt \<Rightarrow> SB_Msg)"

definition CANIOMC_MsgRouteTable :: "Route_Entry list" where
  "CANIOMC_MsgRouteTable =
    [(CANIOMC_PAYLOAD_TAKEPHOTO_MSGID, CANIOMC_PAYLOAD_TAKEPHOTO_MID),
     (CANIOMC_PAYLOAD_CAPTURE_FRAME_MSGID, CANIOMC_PAYLOAD_CAPTURE_FRAME_MID),
     (CANIOMC_COMM_IMG_REQUEST_MSGID, CANIOMC_COMM_IMG_REQUEST_MID),
     (CANIOMC_IMG_XFER_BEGIN_ACK_MSGID, CANIOMC_IMG_XFER_BEGIN_ACK_MID),
     (CANIOMC_IMG_CHUNK_ACK_MSGID, CANIOMC_IMG_CHUNK_ACK_MID),
     (CANIOMC_IMG_XFER_RESULT_MSGID, CANIOMC_IMG_XFER_RESULT_MID)]"

definition trigger_packet :: "u8 \<Rightarrow> u8 list option \<Rightarrow> u8 \<Rightarrow> CANIOMC_RouteTriggerPkt option" where
  "trigger_packet SenderID Payload PayloadLen =
     (let n = (if CANIOMC_SB_MAX_PAYLOAD < unat PayloadLen then of_nat CANIOMC_SB_MAX_PAYLOAD
               else PayloadLen);
          pkt = \<lparr>rt_SenderID = SenderID, rt_PayloadLen = n,
                 rt_Payload = zeros CANIOMC_SB_MAX_PAYLOAD\<rparr>
      in case Payload of
           None \<Rightarrow> Some pkt
         | Some p \<Rightarrow> if 0 < n
             then case mem_read p 0 (unat n) of
                    None \<Rightarrow> None
                  | Some bytes \<Rightarrow>
                      Some (pkt\<lparr>rt_Payload := zero_filled CANIOMC_SB_MAX_PAYLOAD bytes\<rparr>)
             else Some pkt)"

fun route_scan :: "Env \<Rightarrow> Route_Entry list \<Rightarrow> u16 \<Rightarrow> u8 \<Rightarrow> u8 list option \<Rightarrow> u8 \<Rightarrow> Trace \<Rightarrow>
    (bool \<times> Trace) run" where
  "route_scan env [] CanMessageID SenderID Payload PayloadLen tr = Returns (False, tr)"
| "route_scan env ((i, mid) # es) CanMessageID SenderID Payload PayloadLen tr =
     (if i = CanMessageID
      then case trigger_packet SenderID Payload PayloadLen of
             None \<Rightarrow> OutOfBounds
           | Some pkt \<Rightarrow> Returns (True, snd (sb_transmit env (mid pkt) tr))
      else route_scan env es CanMessageID SenderID Payload PayloadLen tr)"

definition CANIOMC_RouteIncomingCanMsg ::
  "Env \<Rightarrow> u16 \<Rightarrow> u8 \<Rightarrow> u8 list option \<Rightarrow> u8 \<Rightarrow> Trace \<Rightarrow> (bool \<times> Trace) run" where
  "CANIOMC_RouteIncomingCanMsg env = route_scan env CANIOMC_MsgRouteTable"

section \<open>Parsing\<close>

definition CANIOMC_ReadBE32 :: "u8 list \<Rightarrow> nat \<Rightarrow> u32" where
  "CANIOMC_ReadBE32 buf off =
     push_bit 24 (ucast (buf ! off)) OR push_bit 16 (ucast (buf ! (off + 1))) OR
     push_bit 8 (ucast (buf ! (off + 2))) OR ucast (buf ! (off + 3))"

definition CANIOMC_ReadBE64 :: "u8 list \<Rightarrow> nat \<Rightarrow> u64" where
  "CANIOMC_ReadBE64 buf off =
     push_bit 32 (ucast (CANIOMC_ReadBE32 buf off)) OR ucast (CANIOMC_ReadBE32 buf (off + 4))"

definition CANIOMC_ReadBEFloat :: "u8 list \<Rightarrow> nat \<Rightarrow> float_bits" where
  "CANIOMC_ReadBEFloat buf off = CANIOMC_ReadBE32 buf off"

definition CANIOMC_ParseCommIfaceTlm :: "u8 list \<Rightarrow> nat \<Rightarrow> CANIOMC_CommIfaceTlm" where
  "CANIOMC_ParseCommIfaceTlm buf off =
     \<lparr>if_IfaceState = buf ! off,
      if_RfFilterSelection = buf ! (off + 1),
      if_TxFrequency = CANIOMC_ReadBE32 buf (off + 2),
      if_RxFrequency = CANIOMC_ReadBE32 buf (off + 6),
      if_TxFrames = CANIOMC_ReadBE32 buf (off + 10),
      if_TxFramesFailed = CANIOMC_ReadBE32 buf (off + 14),
      if_TxFramesDropped = CANIOMC_ReadBE32 buf (off + 18),
      if_RxFrames = CANIOMC_ReadBE32 buf (off + 22),
      if_RxFramesInvalid = CANIOMC_ReadBE32 buf (off + 26),
      if_RxFramesDropped = CANIOMC_ReadBE32 buf (off + 30),
      if_LastRxTimestamp = CANIOMC_ReadBE64 buf (off + 34),
      if_LastRssi = CANIOMC_ReadBEFloat buf (off + 42),
      if_LastValidRxTimestamp = CANIOMC_ReadBE64 buf (off + 46),
      if_LastValidRssi = CANIOMC_ReadBEFloat buf (off + 54)\<rparr>"

definition parse_comm :: "u8 list \<Rightarrow> CANIOMC_CommTlmPayload" where
  "parse_comm buf =
     \<lparr>ct_UptimeMs = CANIOMC_ReadBE64 buf 0,
      ct_BootCount = CANIOMC_ReadBE32 buf 8,
      ct_VinVoltage = CANIOMC_ReadBEFloat buf 12,
      ct_VinCurrent = CANIOMC_ReadBEFloat buf 16,
      ct_FpgaCurrent = CANIOMC_ReadBEFloat buf 20,
      ct_Dig3v3Current = CANIOMC_ReadBEFloat buf 24,
      ct_Rf5vCurrent = CANIOMC_ReadBEFloat buf 28,
      ct_Emc1702Power = CANIOMC_ReadBEFloat buf 32,
      ct_EfusesPower = CANIOMC_ReadBEFloat buf 36,
      ct_VbatVoltage = CANIOMC_ReadBEFloat buf 40,
      ct_PcbTemperature = CANIOMC_ReadBEFloat buf 44,
      ct_UhfPaTemperature = CANIOMC_ReadBEFloat buf 48,
      ct_SbandPaTemperature = CANIOMC_ReadBEFloat buf 52,
      ct_Uhf = CANIOMC_ParseCommIfaceTlm buf 56,
      ct_Sband = CANIOMC_ParseCommIfaceTlm buf (56 + CANIOMC_COMM_IFACE_WIRE_SIZE)\<rparr>"

text \<open>The three \<open>memcpy\<close>s of the EPS branch, and the single one of the ADCS branch.\<close>

definition parse_eps :: "u8 list \<Rightarrow> CANIOMC_EpsTlmPayload" where
  "parse_eps buf =
     \<lparr>eps_ChannelCurrents = take 10 buf, eps_BuckVoltages = read_le16s buf 10 5,
      eps_BoolFlags = take 2 (drop 20 buf)\<rparr>"

definition parse_adcs :: "u8 list \<Rightarrow> CANIOMC_AdcsTlmPayload" where
  "parse_adcs buf =
     \<lparr>adcs_QuaternionEst = read_le32s buf 0 4, adcs_AngularVelEst = read_le32s buf 16 3,
      adcs_BiasEst = read_le32s buf 28 3, adcs_PosEst = read_le32s buf 40 3,
      adcs_VelEst = read_le32s buf 52 3, adcs_PqEst = read_le32s buf 64 3,
      adcs_PbEst = read_le32s buf 76 3, adcs_SunUnitVector1 = read_le32s buf 88 3,
      adcs_SunUnitVector2 = read_le32s buf 100 3, adcs_MagUnitVector1 = read_le32s buf 112 3,
      adcs_MagUnitVector2 = read_le32s buf 124 3, adcs_SunSensorTemp = read_le16s buf 136 2\<rparr>"

section \<open>State\<close>

record CANIOMC_AppData =
  ci_HkPacket :: CANIOMC_HkTlm_Power
  ci_EpsTlmPkt :: CANIOMC_EpsTlmPayload
  ci_MpptTlmPkt :: "u16 list"
  ci_PayloadTlmPkt :: "u8 list"
  ci_AdcsTlmPkt :: CANIOMC_AdcsTlmPayload
  ci_CommTlmPkt :: CANIOMC_CommTlmPayload
  ci_SpiTxDonePkt :: CANIOMC_SpiTxDonePkt
  ci_CmdCounter :: u8
  ci_ErrCounter :: u8
  ci_IsImaging :: bool
  ci_RunStatus :: Run_Status
  ci_RxSlots :: Slots

abbreviation can_event :: "nat \<Rightarrow> EVS_EventType \<Rightarrow> Trace \<Rightarrow> Trace" where
  "can_event \<equiv> send_event CANIOMC"

abbreviation count_error :: "CANIOMC_AppData \<Rightarrow> CANIOMC_AppData" where
  "count_error s \<equiv> s\<lparr>ci_ErrCounter := ci_ErrCounter s + 1\<rparr>"

section \<open>Commands\<close>

definition CANIOMC_appResetHkData :: "CANIOMC_AppData \<Rightarrow> CFE_Status \<times> CANIOMC_AppData" where
  "CANIOMC_appResetHkData s =
     (CFE_SUCCESS, s\<lparr>ci_CmdCounter := 0, ci_ErrCounter := 0, ci_IsImaging := False\<rparr>)"

definition CANIOMC_appPrepareHkPacket :: "CANIOMC_AppData \<Rightarrow> CFE_Status \<times> CANIOMC_AppData" where
  "CANIOMC_appPrepareHkPacket s =
     (CFE_SUCCESS, s\<lparr>ci_HkPacket :=
        \<lparr>chk_CmdCounter = ci_CmdCounter s, chk_ErrCounter = ci_ErrCounter s\<rparr>\<rparr>)"

definition CANIOMC_APP_SEND_HK_TO_SB ::
  "Env \<Rightarrow> CANIOMC_AppData \<Rightarrow> Trace \<Rightarrow> CFE_Status \<times> CANIOMC_AppData \<times> Trace" where
  "CANIOMC_APP_SEND_HK_TO_SB env s tr =
     (case CANIOMC_appPrepareHkPacket s of (status, s1) \<Rightarrow>
        if status \<noteq> CFE_SUCCESS
        then (status, count_error s1, can_event HK_PREP_ERR_EID EVS_ERROR tr)
        else (case sb_transmit env (CANIOMC_HK_TLM_MID (ci_HkPacket s1)) tr of (status, tr1) \<Rightarrow>
           if status \<noteq> CFE_SUCCESS
           then (status, count_error s1, can_event HK_SEND_ERR_EID EVS_ERROR tr1)
           else (status, s1, can_event HK_SEND_SUCCESS_EID EVS_INFORMATION tr1)))"

definition CANIOMC_ProcessSBCanPacket ::
  "Env \<Rightarrow> CANIOMC_CanPacketSB option \<Rightarrow> CANIOMC_AppData \<Rightarrow> Trace \<Rightarrow>
   (CFE_Status \<times> CANIOMC_AppData \<times> Trace) run" where
  "CANIOMC_ProcessSBCanPacket env Pkt s tr =
     (case Pkt of
        None \<Rightarrow> Returns (CFE_STATUS_BAD_COMMAND_CODE, s, tr)
      | Some p \<Rightarrow>
          run_bind (CANIO_SendSegmented env (Some (cp_Header p)) (Some (cp_Payload p))
              (cp_PayloadLen p) tr)
            (\<lambda>(status, tr1).
              if status \<noteq> CFE_SUCCESS
              then Returns (status, count_error s, can_event HK_SEND_ERR_EID EVS_ERROR tr1)
              else Returns (CFE_SUCCESS, s\<lparr>ci_CmdCounter := ci_CmdCounter s + 1\<rparr>,
                     can_event MSG_RECEIVED_EID EVS_DEBUG tr1)))"

definition heartbeat_header :: CANIOMC_CAN_Header where
  "heartbeat_header = \<lparr>hd_Priority = CANIOMC_HKPRIORITY, hd_SenderID = CANIOMC_OBC_ID,
     hd_ReceiverID = CANIOMC_ALL2REC_ID, hd_MessageID = CANIOMC_HEARTBEAT_MSGID,
     hd_SeqType = 0, hd_SeqCount = 0\<rparr>"

definition CANIOMC_APP_SEND_HEARTBEAT ::
  "Env \<Rightarrow> CANIOMC_AppData \<Rightarrow> Trace \<Rightarrow> (CFE_Status \<times> CANIOMC_AppData \<times> Trace) run" where
  "CANIOMC_APP_SEND_HEARTBEAT env s tr =
     run_bind (CANIO_SendSegmented env (Some heartbeat_header) None 0 tr) (\<lambda>(status, tr1).
       if status \<noteq> CFE_SUCCESS
       then Returns (status, count_error s, can_event HK_SEND_ERR_EID EVS_ERROR tr1)
       else Returns (CFE_SUCCESS, s\<lparr>ci_CmdCounter := ci_CmdCounter s + 1\<rparr>,
              can_event HK_SEND_SUCCESS_EID EVS_DEBUG tr1))"

definition CANIOMC_ProcessSpiTx ::
  "Env \<Rightarrow> CANIOMC_SpiTxPkt option \<Rightarrow> CANIOMC_AppData \<Rightarrow> Trace \<Rightarrow>
   (CFE_Status \<times> CANIOMC_AppData \<times> Trace) run" where
  "CANIOMC_ProcessSpiTx env Pkt s tr =
     (case Pkt of
        None \<Rightarrow> Returns (CFE_STATUS_BAD_COMMAND_CODE, s, tr)
      | Some p \<Rightarrow>
          let dataLen = (if sx_DataLen p \<le> CANIOMC_SPI_MAX_CHUNK then sx_DataLen p
                         else CANIOMC_SPI_MAX_CHUNK)
          in case mem_read (sx_Data p) 0 (unat dataLen) of
               None \<Rightarrow> OutOfBounds
             | Some bytes \<Rightarrow>
                 (case spi_hal_write env bytes tr of (status, tr1) \<Rightarrow>
                    let (s1, tr2) = (if status \<noteq> CFE_SUCCESS
                           then (count_error s, can_event HK_SEND_ERR_EID EVS_ERROR tr1)
                           else (s, tr1));
                        s2 = s1\<lparr>ci_SpiTxDonePkt := \<lparr>sd_ChunkIdx = sx_ChunkIdx p,
                               sd_Status = (if status = CFE_SUCCESS then 0 else 1)\<rparr>\<rparr>
                    in Returns (status, s2,
                         snd (sb_transmit env (CANIOMC_SPI_TX_DONE_MID (ci_SpiTxDonePkt s2)) tr2))))"

section \<open>Reception\<close>

text \<open>A telemetry packet put on the software bus, then the debug event.\<close>

definition publish :: "Env \<Rightarrow> SB_Msg \<Rightarrow> Trace \<Rightarrow> Trace" where
  "publish env m tr = can_event MSG_RECEIVED_EID EVS_DEBUG (snd (sb_transmit env m tr))"

definition publish_eps :: "Env \<Rightarrow> CANIO_Message \<Rightarrow> CANIOMC_AppData \<Rightarrow> Trace \<Rightarrow>
    CANIOMC_AppData \<times> Trace" where
  "publish_eps env m s tr =
     (if 22 \<le> ms_Len m
      then let s1 = s\<lparr>ci_EpsTlmPkt := parse_eps (ms_Buf m)\<rparr>
           in (s1, publish env (CANIOMC_EPS_TLM_MID (ci_EpsTlmPkt s1)) tr)
      else (s, tr))"

definition publish_mppt :: "Env \<Rightarrow> CANIO_Message \<Rightarrow> CANIOMC_AppData \<Rightarrow> Trace \<Rightarrow>
    CANIOMC_AppData \<times> Trace" where
  "publish_mppt env m s tr =
     (if 2 * CANIOMC_MPPT_NUM_READINGS \<le> unat (ms_Len m)
      then let s1 = s\<lparr>ci_MpptTlmPkt := read_le16s (ms_Buf m) 0 CANIOMC_MPPT_NUM_READINGS\<rparr>
           in (s1, publish env (CANIOMC_MPPT_TLM_MID (ci_MpptTlmPkt s1)) tr)
      else (s, tr))"

definition publish_payload :: "Env \<Rightarrow> CANIO_Message \<Rightarrow> CANIOMC_AppData \<Rightarrow> Trace \<Rightarrow>
    CANIOMC_AppData \<times> Trace" where
  "publish_payload env m s tr =
     (if CANIOMC_PAYLOAD_NUM_READINGS \<le> unat (ms_Len m)
      then let s1 = s\<lparr>ci_PayloadTlmPkt := take CANIOMC_PAYLOAD_NUM_READINGS (ms_Buf m)\<rparr>
           in (s1, publish env (CANIOMC_PAYLOAD_TLM_MID (ci_PayloadTlmPkt s1)) tr)
      else (s, tr))"

definition publish_adcs :: "Env \<Rightarrow> CANIO_Message \<Rightarrow> CANIOMC_AppData \<Rightarrow> Trace \<Rightarrow>
    CANIOMC_AppData \<times> Trace" where
  "publish_adcs env m s tr =
     (if 140 \<le> ms_Len m
      then let s1 = s\<lparr>ci_AdcsTlmPkt := parse_adcs (ms_Buf m)\<rparr>
           in (s1, publish env (CANIOMC_ADCS_TLM_MID (ci_AdcsTlmPkt s1)) tr)
      else (s, tr))"

definition publish_comm :: "Env \<Rightarrow> CANIO_Message \<Rightarrow> CANIOMC_AppData \<Rightarrow> Trace \<Rightarrow>
    CANIOMC_AppData \<times> Trace" where
  "publish_comm env m s tr =
     (if CANIOMC_COMM_TLM_WIRE_SIZE \<le> unat (ms_Len m)
      then let s1 = s\<lparr>ci_CommTlmPkt := parse_comm (ms_Buf m)\<rparr>
           in (s1, publish env (CANIOMC_COMM_TLM_MID (ci_CommTlmPkt s1)) tr)
      else (s, tr))"

text \<open>The body of the receive loop once a message is complete.\<close>

definition poll_message :: "Env \<Rightarrow> CANIO_Message \<Rightarrow> CANIOMC_AppData \<Rightarrow> Trace \<Rightarrow>
    (CANIOMC_AppData \<times> Trace) run" where
  "poll_message env m s tr =
     (let snd_id = ms_SenderID m; mid = ms_MessageID m in
      if ms_ReceiverID m \<noteq> CANIOMC_OBC_ID \<and> ms_ReceiverID m \<noteq> CANIOMC_ALL2REC_ID
      then Returns (s, can_event MSG_RECEIVED_EID EVS_DEBUG tr)
      else if snd_id = CANIOMC_EPS_ID \<and> mid = CANIOMC_OBCPOWER_HK_MSGID
      then Returns (publish_eps env m s tr)
      else if snd_id = CANIOMC_MPPT_ID \<and> mid = CANIOMC_MPPT_HK_MSGID
      then Returns (publish_mppt env m s tr)
      else if snd_id = CANIOMC_MPPT_ID \<and> mid = CANIOMC_MPPT_HEARTBEAT_MSGID
      then Returns (s, publish env CANIOMC_MPPT_HEARTBEAT_MID tr)
      else if snd_id = CANIOMC_PAYLOAD_ID \<and> mid = CANIOMC_PAYLOAD_HK_MSGID
      then Returns (publish_payload env m s tr)
      else if snd_id = CANIOMC_PAYLOAD_ID \<and> mid = CANIOMC_PAYLOAD_HEARTBEAT_MSGID
      then Returns (s, publish env CANIOMC_PAYLOAD_HEARTBEAT_MID tr)
      else if snd_id = CANIOMC_ADCS_ID \<and> mid = CANIOMC_ADCS_HK_MSGID
      then Returns (publish_adcs env m s tr)
      else if snd_id = CANIOMC_COMM_ID \<and> mid = CANIOMC_COMM_HK_MSGID
      then Returns (publish_comm env m s tr)
      else run_bind (CANIOMC_RouteIncomingCanMsg env mid snd_id (Some (ms_Buf m)) (ms_Len m) tr)
        (\<lambda>(routed, tr1).
          if routed then Returns (s, can_event MSG_RECEIVED_EID EVS_DEBUG tr1)
          else Returns (s, can_event UNKNOWN_MSG_ERR_EID EVS_DEBUG tr1)))"

text \<open>One frame. The handler never reports success without a message.\<close>

definition poll_frame :: "Env \<Rightarrow> CANIO_Frame \<Rightarrow> CANIOMC_AppData \<Rightarrow> Trace \<Rightarrow>
    (CANIOMC_AppData \<times> Trace) run" where
  "poll_frame env f s tr =
     run_bind (CANIO_FeedFrame (ci_RxSlots s) f tr) (\<lambda>(segStatus, out, slots, tr1).
       let s1 = s\<lparr>ci_RxSlots := slots\<rparr> in
       if segStatus = CANIO_REASSEMBLY_PENDING then Returns (s1, tr1)
       else if segStatus \<noteq> CFE_SUCCESS
       then Returns (count_error s1, can_event RCV_MSG_ERR_EID EVS_ERROR tr1)
       else case out of None \<Rightarrow> Returns (s1, tr1) | Some m \<Rightarrow> poll_message env m s1 tr1)"

text \<open>What \<open>CANIO_HAL_Receive\<close> answers, call after call: the status and the frame it filled in.\<close>

type_synonym Can_Rx = "(CFE_Status \<times> CANIO_Frame) list"

fun CANIOMC_PollAndPublishCanRx :: "Env \<Rightarrow> Can_Rx \<Rightarrow> CANIOMC_AppData \<Rightarrow> Trace \<Rightarrow>
    (Can_Rx \<times> CANIOMC_AppData \<times> Trace) run" where
  "CANIOMC_PollAndPublishCanRx env [] s tr = Blocked"
| "CANIOMC_PollAndPublishCanRx env ((halStatus, f) # rx) s tr =
     (if halStatus = CANIO_HAL_NO_MSG then Returns (rx, s, tr)
      else if halStatus \<noteq> CFE_SUCCESS
      then Returns (rx, count_error s, can_event RCV_MSG_ERR_EID EVS_ERROR tr)
      else run_bind (poll_frame env f s tr) (\<lambda>(s1, tr1).
             CANIOMC_PollAndPublishCanRx env rx s1 tr1))"

section \<open>Dispatch, start and main loop\<close>

fun CANIOMC_appTaskPipe :: "Env \<Rightarrow> SB_Msg \<Rightarrow> Can_Rx \<Rightarrow> CANIOMC_AppData \<Rightarrow> Trace \<Rightarrow>
    (Can_Rx \<times> CANIOMC_AppData \<times> Trace) run" where
  "CANIOMC_appTaskPipe env (CANIOMC_CMD_MID p) rx s tr =
     run_bind (CANIOMC_ProcessSBCanPacket env (Some p) s tr) (\<lambda>(status, s1, tr1).
       CANIOMC_PollAndPublishCanRx env rx s1 tr1)"
| "CANIOMC_appTaskPipe env CANIOMC_SEND_HK_MID rx s tr =
     Returns (rx, snd (CANIOMC_APP_SEND_HK_TO_SB env s
       (can_event MSG_RECEIVED_EID EVS_INFORMATION tr)))"
| "CANIOMC_appTaskPipe env CANIOMC_SEND_HEARTBEAT_MID rx s tr =
     run_bind (CANIOMC_APP_SEND_HEARTBEAT env s tr) (\<lambda>(status, s1, tr1). Returns (rx, s1, tr1))"
| "CANIOMC_appTaskPipe env (PAYLOADMC_IMAGING_MODE_MID b) rx s tr =
     Returns (rx, s\<lparr>ci_IsImaging := b\<rparr>, tr)"
| "CANIOMC_appTaskPipe env (CANIOMC_SPI_TX_MID p) rx s tr =
     run_bind (CANIOMC_ProcessSpiTx env (Some p) s tr) (\<lambda>(status, s1, tr1). Returns (rx, s1, tr1))"
| "CANIOMC_appTaskPipe env m rx s tr =
     Returns (rx, s, can_event UNKNOWN_MSG_ERR_EID EVS_ERROR tr)"

definition CANIOMC_appTableInit :: "Env \<Rightarrow> Trace \<Rightarrow> CFE_Status \<times> Trace" where
  "CANIOMC_appTableInit env = app_table_init env CANIOMC"

definition CANIOMC_appTableReload :: "Env \<Rightarrow> Trace \<Rightarrow> CFE_Status \<times> Trace" where
  "CANIOMC_appTableReload env = app_table_reload env CANIOMC"

definition can_subscriptions :: "u16 list" where
  "can_subscriptions = [mid_value CANIOMC_SEND_HK_MID, 0xDC2, mid_value CANIOMC_SEND_HEARTBEAT_MID,
     0xEC3, 0xDD1]"

text \<open>Packets as \<open>CFE_MSG_Init\<close> leaves them: all payload bytes zero.\<close>

definition zero_adcs :: CANIOMC_AdcsTlmPayload where
  "zero_adcs = parse_adcs (zeros 140)"

definition zero_eps :: CANIOMC_EpsTlmPayload where
  "zero_eps = \<lparr>eps_ChannelCurrents = zeros 10, eps_BuckVoltages = replicate 5 0,
     eps_BoolFlags = zeros 2\<rparr>"

definition can_msg_init :: "CANIOMC_AppData \<Rightarrow> CANIOMC_AppData" where
  "can_msg_init s = s\<lparr>ci_RunStatus := APP_RUN,
     ci_HkPacket := \<lparr>chk_CmdCounter = 0, chk_ErrCounter = 0\<rparr>, ci_EpsTlmPkt := zero_eps,
     ci_MpptTlmPkt := replicate CANIOMC_MPPT_NUM_READINGS 0,
     ci_PayloadTlmPkt := zeros CANIOMC_PAYLOAD_NUM_READINGS, ci_AdcsTlmPkt := zero_adcs,
     ci_CommTlmPkt := zero_comm, ci_SpiTxDonePkt := \<lparr>sd_ChunkIdx = 0, sd_Status = 0\<rparr>\<rparr>"

text \<open>The SPI link is optional: its failure is reported and the start goes on.\<close>

definition can_spi_init :: "Env \<Rightarrow> Trace \<Rightarrow> Trace" where
  "can_spi_init env tr =
     (case svc_call env SPI_HAL_Init tr of (status, tr1) \<Rightarrow>
        if status \<noteq> CFE_SUCCESS then can_event INIT_HK_ERR_EID EVS_ERROR tr1 else tr1)"

definition CANIOMC_appInit :: "Env \<Rightarrow> CANIOMC_AppData \<Rightarrow> Trace \<Rightarrow>
    CFE_Status \<times> CANIOMC_AppData \<times> Trace" where
  "CANIOMC_appInit env s tr =
     (let s1 = can_msg_init s;
          (regStatus, tr1) = svc_call env EVS_Register tr
      in if regStatus \<noteq> CFE_SUCCESS then (regStatus, s1, sys_log tr1)
         else case CANIOMC_appPrepareHkPacket s1 of (hkStatus, s2) \<Rightarrow>
           if hkStatus \<noteq> CFE_SUCCESS
           then (hkStatus, s2, can_event INIT_HK_ERR_EID EVS_ERROR tr1)
           else case
             svc_or env (SB_CreatePipe 12) (can_event CREATE_PIPE_ERR_EID EVS_ERROR)
              (subscribe_all env CANIOMC can_subscriptions
              (svc_or env CAN_HAL_Init (can_event INIT_HK_ERR_EID EVS_ERROR)
              (\<lambda>tr2. case CANIOMC_appTableInit env (can_spi_init env tr2) of (status, tr3) \<Rightarrow>
                 if status \<noteq> CFE_SUCCESS then (status, tr3)
                 else (CFE_SUCCESS, can_event 1 EVS_INFORMATION tr3)))) tr1
           of (status, tr4) \<Rightarrow> (status, s2, tr4))"

fun can_loop_step :: "Env \<Rightarrow> Loop_Input \<Rightarrow> Can_Rx \<times> CANIOMC_AppData \<Rightarrow> Trace \<Rightarrow>
    ((Can_Rx \<times> CANIOMC_AppData) \<times> Trace) run" where
  "can_loop_step env (Received m) (rx, s) tr =
     run_bind (CANIOMC_appTaskPipe env m rx s tr) (\<lambda>(rx1, s1, tr1). Returns ((rx1, s1), tr1))"
| "can_loop_step env Timed_Out (rx, s) tr =
     run_bind (CANIOMC_PollAndPublishCanRx env rx s tr) (\<lambda>(rx1, s1, tr1). Returns ((rx1, s1), tr1))"
| "can_loop_step env (Receive_Error e) (rx, s) tr =
     Returns ((rx, s\<lparr>ci_RunStatus := APP_ERROR\<rparr>),
       sys_log (can_event RCV_MSG_ERR_EID EVS_ERROR tr))"
| "can_loop_step env Shutdown (rx, s) tr = Returns ((rx, s), tr)"

definition CANIOMC_appMain :: "Env \<Rightarrow> Loop_Input list \<Rightarrow> Can_Rx \<Rightarrow> CANIOMC_AppData \<Rightarrow>
    ((Can_Rx \<times> CANIOMC_AppData) \<times> Trace) run" where
  "CANIOMC_appMain env is rx s =
     (case CANIOMC_appInit env s [] of (status, s1, tr) \<Rightarrow>
        let s2 = (if status \<noteq> CFE_SUCCESS then s1\<lparr>ci_RunStatus := APP_ERROR\<rparr> else s1)
        in app_run_loop (\<lambda>(rx, s). ci_RunStatus s) (can_loop_step env) is (rx, s2) tr)"

section \<open>The receive loop stays inside its buffers and ends\<close>

definition message_ok :: "CANIO_Message \<Rightarrow> bool" where
  "message_ok m \<longleftrightarrow> length (ms_Buf m) = unat (ms_Len m)"

lemma trigger_packet_Some:
  assumes "length p = unat n"
  shows "trigger_packet sid (Some p) n =
    Some \<lparr>rt_SenderID = sid,
          rt_PayloadLen = (if 176 < unat n then 176 else n),
          rt_Payload = zero_filled 176 (take 176 p)\<rparr>"
proof (cases "176 < unat n")
  case True
  then show ?thesis
    using assms by (simp add: trigger_packet_def CANIOMC_SB_MAX_PAYLOAD_def mem_read_Some Let_def)
next
  case False
  then have "take 176 p = p" using assms by simp
  with False assms show ?thesis
    by (cases "n = 0")
      (simp_all add: trigger_packet_def CANIOMC_SB_MAX_PAYLOAD_def mem_read_Some Let_def
        word_gt_0 zero_filled_def)
qed

lemma route_scan_eq:
  assumes "length p = unat n"
  shows "route_scan env es i sid (Some p) n tr =
    (case map_of es i of
       None \<Rightarrow> Returns (False, tr)
     | Some mid \<Rightarrow> Returns (True, snd (sb_transmit env (mid (the (trigger_packet sid (Some p) n))) tr)))"
  by (induction es) (auto simp: trigger_packet_Some [OF assms])

lemma poll_message_returns:
  assumes "message_ok m"
  shows "\<exists>s' tr'. poll_message env m s tr = Returns (s', tr') \<and>
    ci_RxSlots s' = ci_RxSlots s \<and> ci_RunStatus s' = ci_RunStatus s"
  using assms
  by (auto simp: poll_message_def Let_def CANIOMC_RouteIncomingCanMsg_def message_ok_def
      route_scan_eq publish_eps_def publish_mppt_def publish_payload_def publish_adcs_def
      publish_comm_def split: option.splits)

lemma feed_spec_message:
  assumes "feed_spec m f = (st, Some x, m')" "frame_ok f"
    and "\<And>k b. m k = Some b \<Longrightarrow> length b \<le> 176"
  shows "message_ok x"
proof -
  have "length (frame_bytes f) \<le> 8"
    using assms(2) by (simp add: frame_ok_def frame_bytes_def CANIO_HAL_MAX_DLC_def)
  then obtain k bs where "x = message_of k bs" "length bs \<le> 176"
    using assms(1) by (fastforce simp: feed_spec_def Let_def CANIO_REASSEMBLY_BUF_SIZE_def
        split: if_splits option.splits)
  then show ?thesis by (simp add: message_ok_def message_of_def take_bit_nat_eq_self unat_of_nat)
qed

text \<open>What one frame does to the gateway, read off the abstract engine.\<close>

lemma poll_frame_spec:
  assumes "slots_ok (ci_RxSlots s)" "frame_ok f"
  obtains st out S' where "feed_spec (slots_abs (ci_RxSlots s)) f = (st, out, slots_abs S')"
    "slots_ok S'"
    "poll_frame env f s tr =
       (let s1 = s\<lparr>ci_RxSlots := S'\<rparr>;
            tr1 = (if st = CFE_STATUS_EXTERNAL_RESOURCE_FAIL then sys_log tr else tr) in
        if st = CANIO_REASSEMBLY_PENDING then Returns (s1, tr1)
        else if st \<noteq> CFE_SUCCESS
        then Returns (count_error s1, can_event RCV_MSG_ERR_EID EVS_ERROR tr1)
        else case out of None \<Rightarrow> Returns (s1, tr1) | Some m \<Rightarrow> poll_message env m s1 tr1)"
    "\<And>x. out = Some x \<Longrightarrow> message_ok x"
proof -
  obtain st out S' where 1: "CANIO_FeedFrame (ci_RxSlots s) f tr = Returns (st, out, S',
        if st = CFE_STATUS_EXTERNAL_RESOURCE_FAIL then sys_log tr else tr)"
    "slots_ok S'" "feed_spec (slots_abs (ci_RxSlots s)) f = (st, out, slots_abs S')"
    using CANIO_FeedFrame_agrees [OF assms, of tr] by (auto simp: feed_agrees_def)
  show ?thesis
  proof (rule that [OF 1(3,2)])
    show "message_ok x" if "out = Some x" for x
      using 1(3) that slots_abs_bounds(3) [OF assms(1)] assms(2)
      by (intro feed_spec_message [of "slots_abs (ci_RxSlots s)" f st x "slots_abs S'"]) auto
  qed (simp add: poll_frame_def 1(1) Let_def)
qed

lemma poll_frame_returns:
  assumes "slots_ok (ci_RxSlots s)" "frame_ok f"
  shows "\<exists>s' tr'. poll_frame env f s tr = Returns (s', tr') \<and> slots_ok (ci_RxSlots s') \<and>
    ci_RunStatus s' = ci_RunStatus s"
proof -
  obtain st out S' where 1: "slots_ok S'"
    "poll_frame env f s tr =
       (let s1 = s\<lparr>ci_RxSlots := S'\<rparr>;
            tr1 = (if st = CFE_STATUS_EXTERNAL_RESOURCE_FAIL then sys_log tr else tr) in
        if st = CANIO_REASSEMBLY_PENDING then Returns (s1, tr1)
        else if st \<noteq> CFE_SUCCESS
        then Returns (count_error s1, can_event RCV_MSG_ERR_EID EVS_ERROR tr1)
        else case out of None \<Rightarrow> Returns (s1, tr1) | Some m \<Rightarrow> poll_message env m s1 tr1)"
    "\<And>x. out = Some x \<Longrightarrow> message_ok x"
    by (rule poll_frame_spec [OF assms, of env tr]) blast
  show ?thesis
  proof (cases out)
    case None
    with 1(1,2) show ?thesis by (simp add: Let_def)
  next
    case (Some x)
    let ?s = "s\<lparr>ci_RxSlots := S'\<rparr>"
    have "\<exists>s' tr'. poll_message env x ?s tr = Returns (s', tr') \<and>
        ci_RxSlots s' = ci_RxSlots ?s \<and> ci_RunStatus s' = ci_RunStatus ?s"
      by (rule poll_message_returns) (rule 1(3) [OF Some])
    with 1(1,2) Some show ?thesis by (auto simp: Let_def)
  qed
qed

lemma poll_returns:
  assumes "\<forall>(st, f) \<in> set rx. frame_ok f" "\<exists>(st, f) \<in> set rx. st \<noteq> CFE_SUCCESS"
  shows "slots_ok (ci_RxSlots s) \<Longrightarrow>
    \<exists>rx' s' tr'. CANIOMC_PollAndPublishCanRx env rx s tr = Returns (rx', s', tr') \<and>
      slots_ok (ci_RxSlots s') \<and> (\<exists>used. rx = used @ rx' \<and> used \<noteq> [])"
  using assms
proof (induction rx arbitrary: s tr)
  case Nil
  then show ?case by simp
next
  case (Cons r rx)
  obtain st f where r: "r = (st, f)" by (cases r)
  show ?case
  proof (cases "st = CFE_SUCCESS")
    case False
    with r Cons.prems(1) show ?thesis by (intro exI [of _ rx]) auto
  next
    case True
    obtain s1 tr1 where 1: "poll_frame env f s tr = Returns (s1, tr1)" "slots_ok (ci_RxSlots s1)"
      using poll_frame_returns [OF Cons.prems(1), of f env tr] Cons.prems(2) r by auto
    obtain rx' s' tr' used where
      "CANIOMC_PollAndPublishCanRx env rx s1 tr1 = Returns (rx', s', tr')"
      "slots_ok (ci_RxSlots s')" "rx = used @ rx'"
      using Cons.IH [OF 1(2)] Cons.prems(2,3) r True by auto metis
    with 1 r True show ?thesis by (intro exI [of _ rx'] exI [of _ s'] exI [of _ tr']) auto
  qed
qed

section \<open>A message on the bus reaches the dispatcher\<close>

lemma poll_pending:
  assumes "slots_ok (ci_RxSlots s)" "frame_ok f"
    and "feed_spec (slots_abs (ci_RxSlots s)) f = (CANIO_REASSEMBLY_PENDING, out, m')"
  shows "\<exists>S'. slots_ok S' \<and> slots_abs S' = m' \<and>
    CANIOMC_PollAndPublishCanRx env ((CFE_SUCCESS, f) # rx) s tr =
      CANIOMC_PollAndPublishCanRx env rx (s\<lparr>ci_RxSlots := S'\<rparr>) tr"
  by (rule poll_frame_spec [OF assms(1,2), of env tr]) (use assms(3) in \<open>auto simp: Let_def\<close>)

lemma poll_complete:
  assumes "slots_ok (ci_RxSlots s)" "frame_ok f"
    and "feed_spec (slots_abs (ci_RxSlots s)) f = (CFE_SUCCESS, Some x, m')"
  shows "\<exists>S'. slots_ok S' \<and> slots_abs S' = m' \<and>
    CANIOMC_PollAndPublishCanRx env ((CFE_SUCCESS, f) # rx) s tr =
      run_bind (poll_message env x (s\<lparr>ci_RxSlots := S'\<rparr>) tr)
        (\<lambda>(s1, tr1). CANIOMC_PollAndPublishCanRx env rx s1 tr1)"
  by (rule poll_frame_spec [OF assms(1,2), of env tr]) (use assms(3) in \<open>auto simp: Let_def\<close>)

lemma poll_tail:
  "header_ok h \<Longrightarrow> slots_ok (ci_RxSlots s) \<Longrightarrow>
   slots_abs (ci_RxSlots s) (header_stream h) = Some b \<Longrightarrow>
   length b + length (bus_padded bs) \<le> 176 \<Longrightarrow>
   \<exists>S'. slots_ok S' \<and> slots_abs S' = (slots_abs (ci_RxSlots s))(header_stream h := None) \<and>
     CANIOMC_PollAndPublishCanRx env (map (Pair CFE_SUCCESS) (seg_tail h c bs) @ rx) s tr =
       run_bind (poll_message env (message_of (header_stream h) (b @ bus_padded bs))
           (s\<lparr>ci_RxSlots := S'\<rparr>) tr)
         (\<lambda>(s1, tr1). CANIOMC_PollAndPublishCanRx env rx s1 tr1)"
proof (induction h c bs arbitrary: s b rule: seg_tail.induct)
  case (1 h c bs)
  let ?m = "slots_abs (ci_RxSlots s)" and ?k = "header_stream h"
  show ?case
  proof (cases "length bs \<le> 8")
    case True
    let ?f = "seg_frame h CANIO_SEQ_LAST c bs"
    have "feed_spec ?m ?f = (CFE_SUCCESS, Some (message_of ?k (b @ bus_padded bs)), ?m(?k := None))"
      using True 1 by (simp add: feed_spec_def seg_frame_fields seg_frame_seqType seg_frame_bytes
          bus_padded_short CANIO_REASSEMBLY_BUF_SIZE_def Let_def)
    from poll_complete [OF "1.prems"(2) seg_frame_ok [OF True] this, of env rx tr] show ?thesis
      using True by (simp only: seg_tail.simps [of h c bs] if_True list.map append_Cons append_Nil)
  next
    case False
    let ?f = "seg_frame h CANIO_SEQ_CONT c (take 8 bs)"
    have st: "bus_padded bs = take 8 bs @ bus_padded (drop 8 bs)"
      using False by (intro bus_padded_step) simp
    have "feed_spec ?m ?f = (CANIO_REASSEMBLY_PENDING, None, ?m(?k \<mapsto> b @ take 8 bs))"
      using False 1 st by (simp add: feed_spec_def seg_frame_fields seg_frame_seqType
          seg_frame_bytes zero_filled_8 CANIO_REASSEMBLY_BUF_SIZE_def Let_def)
    from poll_pending [OF "1.prems"(2) seg_frame_ok this, of env
        "map (Pair CFE_SUCCESS) (seg_tail h (c + 1) (drop 8 bs)) @ rx" tr]
    obtain S1 where S1: "slots_ok S1" "slots_abs S1 = ?m(?k \<mapsto> b @ take 8 bs)"
      "CANIOMC_PollAndPublishCanRx env ((CFE_SUCCESS, ?f) #
          map (Pair CFE_SUCCESS) (seg_tail h (c + 1) (drop 8 bs)) @ rx) s tr =
        CANIOMC_PollAndPublishCanRx env
          (map (Pair CFE_SUCCESS) (seg_tail h (c + 1) (drop 8 bs)) @ rx) (s\<lparr>ci_RxSlots := S1\<rparr>) tr"
      by auto
    have "\<exists>S'. slots_ok S' \<and>
        slots_abs S' = (slots_abs (ci_RxSlots (s\<lparr>ci_RxSlots := S1\<rparr>)))(?k := None) \<and>
        CANIOMC_PollAndPublishCanRx env
          (map (Pair CFE_SUCCESS) (seg_tail h (c + 1) (drop 8 bs)) @ rx) (s\<lparr>ci_RxSlots := S1\<rparr>) tr =
        run_bind (poll_message env (message_of ?k ((b @ take 8 bs) @ bus_padded (drop 8 bs)))
            (s\<lparr>ci_RxSlots := S1\<rparr>\<lparr>ci_RxSlots := S'\<rparr>) tr)
          (\<lambda>(s1, tr1). CANIOMC_PollAndPublishCanRx env rx s1 tr1)"
      by (rule "1.IH") (use False S1 "1.prems" st in simp_all)
    moreover have "(b @ take 8 bs) @ bus_padded (drop 8 bs) = b @ bus_padded bs"
      by (simp only: append_assoc flip: st)
    moreover have "s\<lparr>ci_RxSlots := S1\<rparr>\<lparr>ci_RxSlots := S'\<rparr> = s\<lparr>ci_RxSlots := S'\<rparr>" for S' by simp
    moreover have "(slots_abs (ci_RxSlots (s\<lparr>ci_RxSlots := S1\<rparr>)))(?k := None) = ?m(?k := None)"
      using S1(2) by (simp add: fun_eq_iff)
    ultimately show ?thesis
      by (simp only: seg_tail.simps [of h c bs] False if_False list.map append_Cons S1(3))
  qed
qed

lemma poll_delivers:
  assumes h: "header_ok h" and len: "length bs \<le> 176" and S: "slots_ok (ci_RxSlots s)"
    and room: "header_stream h \<in> dom (slots_abs (ci_RxSlots s)) \<or>
      card (dom (slots_abs (ci_RxSlots s))) < 4"
  shows "\<exists>S'. slots_ok S' \<and>
    CANIOMC_PollAndPublishCanRx env (map (Pair CFE_SUCCESS) (seg_frames h bs) @ rx) s tr =
      run_bind (poll_message env (message_of (header_stream h) (bus_padded bs))
          (s\<lparr>ci_RxSlots := S'\<rparr>) tr)
        (\<lambda>(s1, tr1). CANIOMC_PollAndPublishCanRx env rx s1 tr1)"
proof (cases "length bs \<le> 8")
  case True
  let ?f = "seg_frame h CANIO_SEQ_SINGLE 0 bs"
  have "feed_spec (slots_abs (ci_RxSlots s)) ?f =
      (CFE_SUCCESS, Some (message_of (header_stream h) (bus_padded bs)), slots_abs (ci_RxSlots s))"
    using True h by (simp add: feed_spec_def seg_frame_fields seg_frame_seqType seg_frame_bytes
        bus_padded_short Let_def)
  from poll_complete [OF S seg_frame_ok [OF True] this, of env rx tr] show ?thesis
    using True by (auto simp: seg_frames_def simp del: CANIOMC_PollAndPublishCanRx.simps)
next
  case False
  let ?f = "seg_frame h CANIO_SEQ_FIRST 0 (take 8 bs)" and ?m = "slots_abs (ci_RxSlots s)"
  let ?rx = "map (Pair CFE_SUCCESS) (seg_tail h 1 (drop 8 bs)) @ rx"
  have st: "bus_padded bs = take 8 bs @ bus_padded (drop 8 bs)"
    using False by (intro bus_padded_step) simp
  have "length (bus_padded bs) \<le> 176"
    using len div_le_mono [of "length bs + 7" 183 8] by (simp add: length_bus_padded)
  then have fits: "length (take 8 bs) + length (bus_padded (drop 8 bs)) \<le> 176"
    using st by simp
  have "feed_spec ?m ?f = (CANIO_REASSEMBLY_PENDING, None, ?m(header_stream h \<mapsto> take 8 bs))"
    using False h room by (auto simp: feed_spec_def seg_frame_fields seg_frame_seqType
        seg_frame_bytes zero_filled_8 CANIO_MAX_REASSEMBLY_SLOTS_def Let_def)
  from poll_pending [OF S seg_frame_ok this, of env ?rx tr]
  obtain S1 where S1: "slots_ok S1" "slots_abs S1 = ?m(header_stream h \<mapsto> take 8 bs)"
    "CANIOMC_PollAndPublishCanRx env ((CFE_SUCCESS, ?f) # ?rx) s tr =
      CANIOMC_PollAndPublishCanRx env ?rx (s\<lparr>ci_RxSlots := S1\<rparr>) tr"
    by auto
  from poll_tail [OF h, of "s\<lparr>ci_RxSlots := S1\<rparr>" "take 8 bs" "drop 8 bs" env 1 rx tr]
  obtain S' where "slots_ok S'" "CANIOMC_PollAndPublishCanRx env ?rx (s\<lparr>ci_RxSlots := S1\<rparr>) tr =
      run_bind (poll_message env (message_of (header_stream h) (take 8 bs @ bus_padded (drop 8 bs)))
          (s\<lparr>ci_RxSlots := S'\<rparr>) tr)
        (\<lambda>(s1, tr1). CANIOMC_PollAndPublishCanRx env rx s1 tr1)"
    using S1(1,2) fits by auto
  with S1(3) False st show ?thesis
    by (auto simp: seg_frames_def simp del: CANIOMC_PollAndPublishCanRx.simps)
qed

section \<open>The wire format of the COMM board\<close>

text \<open>The layout the comment of \<open>canIOMC_app_msg.h\<close> gives: big-endian, no padding.\<close>

definition iface_wire :: "CANIOMC_CommIfaceTlm \<Rightarrow> u8 list" where
  "iface_wire i = [if_IfaceState i, if_RfFilterSelection i] @
     concat (map be32 [if_TxFrequency i, if_RxFrequency i, if_TxFrames i, if_TxFramesFailed i,
       if_TxFramesDropped i, if_RxFrames i, if_RxFramesInvalid i, if_RxFramesDropped i]) @
     be64 (if_LastRxTimestamp i) @ be32 (if_LastRssi i) @
     be64 (if_LastValidRxTimestamp i) @ be32 (if_LastValidRssi i)"

definition comm_wire :: "CANIOMC_CommTlmPayload \<Rightarrow> u8 list" where
  "comm_wire c = be64 (ct_UptimeMs c) @
     concat (map be32 [ct_BootCount c, ct_VinVoltage c, ct_VinCurrent c, ct_FpgaCurrent c,
       ct_Dig3v3Current c, ct_Rf5vCurrent c, ct_Emc1702Power c, ct_EfusesPower c, ct_VbatVoltage c,
       ct_PcbTemperature c, ct_UhfPaTemperature c, ct_SbandPaTemperature c]) @
     iface_wire (ct_Uhf c) @ iface_wire (ct_Sband c)"

lemma length_wire: "length (iface_wire i) = 58" "length (comm_wire c) = 172"
  by (simp_all add: iface_wire_def comm_wire_def)

lemma ReadBE32_be32:
  assumes "length pre = off"
  shows "CANIOMC_ReadBE32 (pre @ be32 v @ rest) off = v"
proof -
  have "CANIOMC_ReadBE32 (pre @ be32 v @ rest) off =
      push_bit 24 (ucast (ucast (drop_bit 24 v) :: u8)) OR
      push_bit 16 (ucast (ucast (drop_bit 16 v) :: u8)) OR
      push_bit 8 (ucast (ucast (drop_bit 8 v) :: u8)) OR ucast (ucast v :: u8)"
    using assms by (auto simp: CANIOMC_ReadBE32_def be32_def nth_append)
  also have "\<dots> = v"
  proof -
    have a: "n - 8 < 8" if "bit v n" "\<not> bit v (16 + (n - 16))" for n
      using that by (cases "n < 16") auto
    show ?thesis by (rule bit_word_eqI) (auto simp: bit_simps intro: a)
  qed
  finally show ?thesis .
qed

lemma ReadBE64_be64:
  assumes "length pre = off"
  shows "CANIOMC_ReadBE64 (pre @ be64 v @ rest) off = v"
proof -
  have "CANIOMC_ReadBE32 (pre @ be64 v @ rest) off = ucast (drop_bit 32 v)"
    using ReadBE32_be32 [OF assms, of "ucast (drop_bit 32 v)" "be32 (ucast v) @ rest"]
    by (simp add: be64_def)
  moreover have "CANIOMC_ReadBE32 (pre @ be64 v @ rest) (off + 4) = ucast v"
    using ReadBE32_be32 [of "pre @ be32 (ucast (drop_bit 32 v))" "off + 4" "ucast v" rest] assms
    by (simp add: be64_def)
  moreover have "push_bit 32 (ucast (ucast (drop_bit 32 v) :: u32)) OR ucast (ucast v :: u32) = v"
    by (rule bit_word_eqI) (auto simp: bit_simps)
  ultimately show ?thesis by (simp add: CANIOMC_ReadBE64_def)
qed

text \<open>Reading at an offset is decoding the bytes from there.\<close>

lemma ReadBE_shift:
  "off + 4 \<le> length buf \<Longrightarrow>
     CANIOMC_ReadBE32 buf off = CANIOMC_ReadBE32 (take 4 (drop off buf)) 0"
  "off + 8 \<le> length buf \<Longrightarrow>
     CANIOMC_ReadBE64 buf off = CANIOMC_ReadBE64 (take 8 (drop off buf)) 0"
  by (simp_all add: CANIOMC_ReadBE64_def CANIOMC_ReadBE32_def add.commute)

lemma ReadBE_single [simp]:
  "CANIOMC_ReadBE32 (be32 v) 0 = v" "CANIOMC_ReadBE64 (be64 w) 0 = w"
  using ReadBE32_be32 [of "[]" 0 v "[]"] ReadBE64_be64 [of "[]" 0 w "[]"] by simp_all

lemma ReadBE_append:
  "length pre = off \<Longrightarrow> CANIOMC_ReadBE32 (pre @ xs) (off + k) = CANIOMC_ReadBE32 xs k"
  "length pre = off \<Longrightarrow> CANIOMC_ReadBE64 (pre @ xs) (off + k) = CANIOMC_ReadBE64 xs k"
  by (simp_all only: CANIOMC_ReadBE64_def CANIOMC_ReadBE32_def add.assoc nth_append_length_plus
      flip: nth_append_length_plus [of pre xs])

lemma parse_iface_append:
  assumes "length pre = off"
  shows "CANIOMC_ParseCommIfaceTlm (pre @ xs) off = CANIOMC_ParseCommIfaceTlm xs 0"
proof -
  have "(pre @ xs) ! off = xs ! 0" "(pre @ xs) ! (off + 1) = xs ! 1"
    using nth_append_length_plus [of pre xs 0] nth_append_length_plus [of pre xs 1] assms
    by simp_all
  then show ?thesis
    by (simp only: CANIOMC_ParseCommIfaceTlm_def CANIOMC_ReadBEFloat_def ReadBE_append [OF assms]
        add_0)
qed

lemma parse_iface_wire: "CANIOMC_ParseCommIfaceTlm (iface_wire i @ rest) 0 = i"
  by (simp add: CANIOMC_ParseCommIfaceTlm_def CANIOMC_ReadBEFloat_def iface_wire_def ReadBE_shift)

lemma parse_comm_wire: "parse_comm (comm_wire c @ rest) = c"
proof -
  let ?head = "be64 (ct_UptimeMs c) @
     concat (map be32 [ct_BootCount c, ct_VinVoltage c, ct_VinCurrent c, ct_FpgaCurrent c,
       ct_Dig3v3Current c, ct_Rf5vCurrent c, ct_Emc1702Power c, ct_EfusesPower c, ct_VbatVoltage c,
       ct_PcbTemperature c, ct_UhfPaTemperature c, ct_SbandPaTemperature c])"
  have b: "comm_wire c @ rest = ?head @ iface_wire (ct_Uhf c) @ iface_wire (ct_Sband c) @ rest"
    by (simp add: comm_wire_def)
  have uhf: "CANIOMC_ParseCommIfaceTlm (comm_wire c @ rest) 56 = ct_Uhf c"
    unfolding b by (subst parse_iface_append) (simp_all add: parse_iface_wire)
  have sband: "CANIOMC_ParseCommIfaceTlm (comm_wire c @ rest) 114 = ct_Sband c"
  proof -
    have "comm_wire c @ rest = (?head @ iface_wire (ct_Uhf c)) @ iface_wire (ct_Sband c) @ rest"
      by (simp add: comm_wire_def)
    then show ?thesis
      by (simp only:) (subst parse_iface_append, simp_all add: parse_iface_wire length_wire)
  qed
  have "parse_comm (comm_wire c @ rest) =
      c\<lparr>ct_Uhf := CANIOMC_ParseCommIfaceTlm (comm_wire c @ rest) 56,
        ct_Sband := CANIOMC_ParseCommIfaceTlm (comm_wire c @ rest) 114\<rparr>"
    by (simp add: parse_comm_def CANIOMC_ReadBEFloat_def CANIOMC_COMM_IFACE_WIRE_SIZE_def
        comm_wire_def ReadBE_shift)
  with uhf sband show ?thesis by simp
qed

section \<open>Properties\<close>

text \<open>The application data at power-on: all bytes zero, then initialised packets.\<close>

definition can_start :: CANIOMC_AppData where
  "can_start = can_msg_init \<lparr>ci_HkPacket = \<lparr>chk_CmdCounter = 0, chk_ErrCounter = 0\<rparr>,
     ci_EpsTlmPkt = zero_eps, ci_MpptTlmPkt = [], ci_PayloadTlmPkt = [], ci_AdcsTlmPkt = zero_adcs,
     ci_CommTlmPkt = zero_comm, ci_SpiTxDonePkt = \<lparr>sd_ChunkIdx = 0, sd_Status = 0\<rparr>,
     ci_CmdCounter = 0, ci_ErrCounter = 0, ci_IsImaging = False, ci_RunStatus = APP_RUN,
     ci_RxSlots = empty_slots\<rparr>"

lemma can_start_slots [simp]: "ci_RxSlots can_start = empty_slots"
  by (simp add: can_start_def can_msg_init_def)

definition empty_frame :: CANIO_Frame where
  "empty_frame = \<lparr>fr_CanId = 0, fr_Data = zeros 8, fr_Len = 0\<rparr>"

text \<open>The packet of the EPS as the comment of \<open>canIOMC_app_msg.h\<close> lays it out (little-endian).\<close>

definition eps_wire :: "CANIOMC_EpsTlmPayload \<Rightarrow> u8 list" where
  "eps_wire e = eps_ChannelCurrents e @ concat (map le16 (eps_BuckVoltages e)) @ eps_BoolFlags e"

definition eps_ok :: "CANIOMC_EpsTlmPayload \<Rightarrow> bool" where
  "eps_ok e \<longleftrightarrow> length (eps_ChannelCurrents e) = 10 \<and> length (eps_BuckVoltages e) = 5 \<and>
     length (eps_BoolFlags e) = 2"

lemma parse_eps_wire:
  assumes "eps_ok e"
  shows "parse_eps (eps_wire e @ rest) = e"
proof -
  have "read_le16s (eps_ChannelCurrents e @ concat (map le16 (eps_BuckVoltages e)) @
      eps_BoolFlags e @ rest) 10 (length (eps_BuckVoltages e)) = eps_BuckVoltages e"
    using assms by (intro read_le16s_le16s) (simp add: eps_ok_def)
  with assms show ?thesis by (simp add: parse_eps_def eps_wire_def eps_ok_def)
qed

definition node_header :: "u8 \<Rightarrow> u16 \<Rightarrow> CANIOMC_CAN_Header" where
  "node_header sender msgid = \<lparr>hd_Priority = CANIOMC_HKPRIORITY, hd_SenderID = sender,
     hd_ReceiverID = CANIOMC_OBC_ID, hd_MessageID = msgid, hd_SeqType = 0, hd_SeqCount = 0\<rparr>"

lemma bus_padded_eq: "bus_padded bs = bs @ zeros (8 * max 1 ((length bs + 7) div 8) - length bs)"
  by (simp add: bus_padded_def zero_filled_def)

lemma message_of_fields [simp]:
  "ms_Buf (message_of k bs) = bs" "ms_Len (message_of k bs) = of_nat (length bs)"
  "ms_SenderID (message_of k bs) = fst k" "ms_ReceiverID (message_of k bs) = fst (snd k)"
  "ms_MessageID (message_of k bs) = snd (snd k)"
  by (simp_all add: message_of_def)

text \<open>The reply of the EPS from the bus to the software bus; nothing is sent on the way.\<close>

lemma eps_frames_published:
  assumes "slots_ok (ci_RxSlots s)" "eps_ok e"
    and "card (dom (slots_abs (ci_RxSlots s))) < CANIO_MAX_REASSEMBLY_SLOTS"
  shows "\<exists>s' tr'. CANIOMC_PollAndPublishCanRx env (map (Pair CFE_SUCCESS)
        (seg_frames (node_header CANIOMC_EPS_ID CANIOMC_OBCPOWER_HK_MSGID) (eps_wire e)) @
        [(CANIO_HAL_NO_MSG, f)]) s tr = Returns ([], s', tr') \<and>
      sb_sent tr' = sb_sent tr @ [CANIOMC_EPS_TLM_MID e] \<and> can_sent tr' = can_sent tr \<and>
      ci_EpsTlmPkt s' = e \<and> slots_ok (ci_RxSlots s')"
proof -
  let ?h = "node_header CANIOMC_EPS_ID CANIOMC_OBCPOWER_HK_MSGID"
  have h: "header_ok ?h" by (simp add: header_ok_def node_header_def node_defs msgid_defs)
  have l: "length (eps_wire e) = 22" using assms(2) by (simp add: eps_wire_def eps_ok_def)
  then have len: "length (eps_wire e) \<le> 176" by simp
  have room: "header_stream ?h \<in> dom (slots_abs (ci_RxSlots s)) \<or>
      card (dom (slots_abs (ci_RxSlots s))) < 4"
    using assms(3) by (simp add: CANIO_MAX_REASSEMBLY_SLOTS_def)
  have pad: "bus_padded (eps_wire e) = eps_wire e @ zeros 2"
    by (simp add: bus_padded_eq l)
  from poll_delivers [OF h len assms(1) room, of env "[(CANIO_HAL_NO_MSG, f)]" tr] show ?thesis
    by (auto simp: pad poll_message_def header_stream_def node_header_def node_defs msgid_defs
        publish_eps_def publish_def env_call_defs l parse_eps_wire [OF assms(2)] Let_def)
qed

text \<open>A housekeeping reply of the COMM board arrives whole: the big-endian wire form of any
  telemetry record, segmented over the bus, is reassembled, parsed field by field at its offsets
  and published exactly once, as the same record, and cached.\<close>

theorem comm_telemetry_published:
  assumes "slots_ok (ci_RxSlots s)"
    and "card (dom (slots_abs (ci_RxSlots s))) < CANIO_MAX_REASSEMBLY_SLOTS"
  shows "\<exists>s' tr'. CANIOMC_PollAndPublishCanRx env (map (Pair CFE_SUCCESS)
        (seg_frames (node_header CANIOMC_COMM_ID CANIOMC_COMM_HK_MSGID) (comm_wire c)) @
        [(CANIO_HAL_NO_MSG, f)]) s tr = Returns ([], s', tr') \<and>
      sb_sent tr' = sb_sent tr @ [CANIOMC_COMM_TLM_MID c] \<and> ci_CommTlmPkt s' = c \<and>
      slots_ok (ci_RxSlots s')"
proof -
  let ?h = "node_header CANIOMC_COMM_ID CANIOMC_COMM_HK_MSGID"
  have h: "header_ok ?h" by (simp add: header_ok_def node_header_def node_defs msgid_defs)
  have len: "length (comm_wire c) \<le> 176" by (simp add: length_wire)
  have room: "header_stream ?h \<in> dom (slots_abs (ci_RxSlots s)) \<or>
      card (dom (slots_abs (ci_RxSlots s))) < 4"
    using assms(2) by (simp add: CANIO_MAX_REASSEMBLY_SLOTS_def)
  have pad: "bus_padded (comm_wire c) = comm_wire c @ zeros 4"
    by (simp add: bus_padded_eq length_wire)
  from poll_delivers [OF h len assms(1) room, of env "[(CANIO_HAL_NO_MSG, f)]" tr] show ?thesis
    by (auto simp: pad poll_message_def header_stream_def node_header_def node_defs msgid_defs
        publish_comm_def publish_def env_call_defs length_wire CANIOMC_COMM_TLM_WIRE_SIZE_def
        parse_comm_wire Let_def)
qed

theorem comm_telemetry_published_witness:
  "\<exists>s' tr'. CANIOMC_PollAndPublishCanRx good_env (map (Pair CFE_SUCCESS)
        (seg_frames (node_header CANIOMC_COMM_ID CANIOMC_COMM_HK_MSGID) (comm_wire zero_comm)) @
        [(CANIO_HAL_NO_MSG, empty_frame)]) can_start [] = Returns ([], s', tr') \<and>
      sb_sent tr' = sb_sent [] @ [CANIOMC_COMM_TLM_MID zero_comm] \<and>
      ci_CommTlmPkt s' = zero_comm \<and> slots_ok (ci_RxSlots s')"
  by (rule comm_telemetry_published)
    (simp_all add: slots_ok_empty slots_abs_empty CANIO_MAX_REASSEMBLY_SLOTS_def)

text \<open>The same for the EPS, whose reply is little-endian and copied with three \<open>memcpy\<close>s.\<close>

theorem eps_telemetry_published:
  assumes "slots_ok (ci_RxSlots s)" "eps_ok e"
    and "card (dom (slots_abs (ci_RxSlots s))) < CANIO_MAX_REASSEMBLY_SLOTS"
  shows "\<exists>s' tr'. CANIOMC_PollAndPublishCanRx env (map (Pair CFE_SUCCESS)
        (seg_frames (node_header CANIOMC_EPS_ID CANIOMC_OBCPOWER_HK_MSGID) (eps_wire e)) @
        [(CANIO_HAL_NO_MSG, f)]) s tr = Returns ([], s', tr') \<and>
      sb_sent tr' = sb_sent tr @ [CANIOMC_EPS_TLM_MID e] \<and> ci_EpsTlmPkt s' = e \<and>
      slots_ok (ci_RxSlots s')"
  using eps_frames_published [OF assms, of env f tr] by auto

theorem eps_telemetry_published_witness:
  "\<exists>s' tr'. CANIOMC_PollAndPublishCanRx good_env (map (Pair CFE_SUCCESS)
        (seg_frames (node_header CANIOMC_EPS_ID CANIOMC_OBCPOWER_HK_MSGID) (eps_wire zero_eps)) @
        [(CANIO_HAL_NO_MSG, empty_frame)]) can_start [] = Returns ([], s', tr') \<and>
      sb_sent tr' = sb_sent [] @ [CANIOMC_EPS_TLM_MID zero_eps] \<and> ci_EpsTlmPkt s' = zero_eps \<and>
      slots_ok (ci_RxSlots s')"
  by (rule eps_telemetry_published)
    (simp_all add: slots_ok_empty slots_abs_empty CANIO_MAX_REASSEMBLY_SLOTS_def eps_ok_def
      zero_eps_def)

text \<open>C23. Safety and termination of the receive loop: started on a well-formed slot table, with
  frames as the driver delivers them and a driver that at some point has no frame or fails, the
  loop returns (no \<open>memcpy\<close> leaves a buffer in any branch), has consumed at least one answer, and
  leaves a well-formed table.\<close>

theorem CANIOMC_PollAndPublishCanRx_safe:
  assumes "slots_ok (ci_RxSlots s)" "\<forall>(st, f) \<in> set rx. frame_ok f"
    and "\<exists>(st, f) \<in> set rx. st \<noteq> CFE_SUCCESS"
  shows "\<exists>rx' s' tr'. CANIOMC_PollAndPublishCanRx env rx s tr = Returns (rx', s', tr') \<and>
      slots_ok (ci_RxSlots s') \<and> (\<exists>used. rx = used @ rx' \<and> used \<noteq> [])"
  by (rule poll_returns [OF assms(2,3,1)])

theorem CANIOMC_PollAndPublishCanRx_safe_witness:
  "\<exists>rx' s' tr'. CANIOMC_PollAndPublishCanRx good_env
        [(CFE_SUCCESS, empty_frame), (CANIO_HAL_NO_MSG, empty_frame)] can_start [] =
        Returns (rx', s', tr') \<and> slots_ok (ci_RxSlots s') \<and>
      (\<exists>used. [(CFE_SUCCESS, empty_frame), (CANIO_HAL_NO_MSG, empty_frame)] = used @ rx' \<and>
        used \<noteq> [])"
  by (rule CANIOMC_PollAndPublishCanRx_safe)
    (simp_all add: slots_ok_empty frame_ok_def empty_frame_def CANIO_HAL_MAX_DLC_def)

text \<open>The gateway drops what is not addressed to it: a complete message for another node leaves
  the whole application state and the software bus untouched.\<close>

theorem foreign_messages_ignored:
  assumes "ms_ReceiverID m \<noteq> CANIOMC_OBC_ID" "ms_ReceiverID m \<noteq> CANIOMC_ALL2REC_ID"
  shows "\<exists>tr'. poll_message env m s tr = Returns (s, tr') \<and> sb_sent tr' = sb_sent tr \<and>
      can_sent tr' = can_sent tr"
  using assms by (simp add: poll_message_def env_call_defs Let_def)

theorem foreign_messages_ignored_witness:
  "\<exists>tr'. poll_message good_env (message_of (CANIOMC_EPS_ID, CANIOMC_ADCS_ID, 0x26) []) can_start [] =
        Returns (can_start, tr') \<and> sb_sent tr' = sb_sent [] \<and> can_sent tr' = can_sent []"
  by (rule foreign_messages_ignored) (simp_all add: node_defs)

text \<open>The router forwards a message of the table once, on the software bus id of the table's
  entry, with its sender and its payload cut to 176 bytes and zero-filled, and does nothing for an
  id that is not in the table; the two cases are told apart by the result.\<close>

theorem CANIOMC_RouteIncomingCanMsg_routes:
  assumes "length p = unat n"
  shows "CANIOMC_RouteIncomingCanMsg env i sid (Some p) n tr =
    (case map_of CANIOMC_MsgRouteTable i of
       None \<Rightarrow> Returns (False, tr)
     | Some mid \<Rightarrow> Returns (True, snd (sb_transmit env
         (mid \<lparr>rt_SenderID = sid, rt_PayloadLen = (if 176 < unat n then 176 else n),
               rt_Payload = zero_filled CANIOMC_SB_MAX_PAYLOAD (take CANIOMC_SB_MAX_PAYLOAD p)\<rparr>) tr)))"
  using assms
  by (simp add: CANIOMC_RouteIncomingCanMsg_def route_scan_eq trigger_packet_Some
      CANIOMC_SB_MAX_PAYLOAD_def split: option.split)

theorem CANIOMC_RouteIncomingCanMsg_routes_witness:
  "CANIOMC_RouteIncomingCanMsg good_env CANIOMC_IMG_CHUNK_ACK_MSGID CANIOMC_COMM_ID
      (Some [0, 7, 0, 0x10, 0]) 5 [] =
    (case map_of CANIOMC_MsgRouteTable CANIOMC_IMG_CHUNK_ACK_MSGID of
       None \<Rightarrow> Returns (False, [])
     | Some mid \<Rightarrow> Returns (True, snd (sb_transmit good_env
         (mid \<lparr>rt_SenderID = CANIOMC_COMM_ID, rt_PayloadLen = (if 176 < unat (5::u8) then 176 else 5),
               rt_Payload = zero_filled CANIOMC_SB_MAX_PAYLOAD
                 (take CANIOMC_SB_MAX_PAYLOAD [0, 7, 0, 0x10, 0])\<rparr>) [])))"
  by (rule CANIOMC_RouteIncomingCanMsg_routes) simp

text \<open>An SPI request is served and answered exactly once: the first \<open>DataLen\<close> bytes (at most
  4096) are clocked out, and the completion notice echoes the chunk index with status 0 exactly
  when the driver succeeded; the error counter counts the failures, wrapping at 256.\<close>

theorem CANIOMC_ProcessSpiTx_answers:
  assumes "length (sx_Data p) = unat CANIOMC_SPI_MAX_CHUNK"
  shows "\<exists>st s' tr'. CANIOMC_ProcessSpiTx env (Some p) s tr = Returns (st, s', tr') \<and>
      spi_sent tr' = spi_sent tr @ [take (min (unat (sx_DataLen p)) 4096) (sx_Data p)] \<and>
      sb_sent tr' = sb_sent tr @ [CANIOMC_SPI_TX_DONE_MID
        \<lparr>sd_ChunkIdx = sx_ChunkIdx p, sd_Status = (if st = CFE_SUCCESS then 0 else 1)\<rparr>] \<and>
      ci_ErrCounter s' = ci_ErrCounter s + (if st = CFE_SUCCESS then 0 else 1)"
proof -
  have m: "unat (if sx_DataLen p \<le> CANIOMC_SPI_MAX_CHUNK then sx_DataLen p
        else CANIOMC_SPI_MAX_CHUNK) = min (unat (sx_DataLen p)) 4096"
    by (simp add: CANIOMC_SPI_MAX_CHUNK_def word_le_nat_alt min_def)
  have "mem_read (sx_Data p) 0 (min (unat (sx_DataLen p)) 4096) =
      Some (take (min (unat (sx_DataLen p)) 4096) (sx_Data p))"
    using assms by (simp add: mem_read_def CANIOMC_SPI_MAX_CHUNK_def)
  with m show ?thesis
    by (auto simp: CANIOMC_ProcessSpiTx_def Let_def env_call_defs simp del: unat_of_nat)
qed

definition sample_spi_packet :: CANIOMC_SpiTxPkt where
  "sample_spi_packet = \<lparr>sx_ChunkIdx = 2, sx_DataLen = 5, sx_Data = zeros 4096\<rparr>"

theorem CANIOMC_ProcessSpiTx_answers_witness:
  "\<exists>st s' tr'. CANIOMC_ProcessSpiTx good_env (Some sample_spi_packet) can_start [] =
        Returns (st, s', tr') \<and>
      spi_sent tr' = spi_sent [] @
        [take (min (unat (sx_DataLen sample_spi_packet)) 4096) (sx_Data sample_spi_packet)] \<and>
      sb_sent tr' = sb_sent [] @ [CANIOMC_SPI_TX_DONE_MID
        \<lparr>sd_ChunkIdx = sx_ChunkIdx sample_spi_packet,
         sd_Status = (if st = CFE_SUCCESS then 0 else 1)\<rparr>] \<and>
      ci_ErrCounter s' = ci_ErrCounter can_start + (if st = CFE_SUCCESS then 0 else 1)"
  by (rule CANIOMC_ProcessSpiTx_answers) (simp add: sample_spi_packet_def CANIOMC_SPI_MAX_CHUNK_def)

end
