(* ===== verification/Subsystem.thy ===== *)
theory Subsystem
  imports App_Common
begin

text \<open>
  The contract the subsystem applications (power, MPPT, ADCS, communication, payload) share: every
  housekeeping request publishes the cached readings with a stale flag, asks the board for fresh
  ones over CAN and counts a miss in a saturating \<open>uint8\<close>; every sign of life of the board resets the
  count. The contract is a locale over the dispatcher; what follows from it for arbitrary sequences
  of messages is proved here once.
\<close>

definition STALE_THRESHOLD :: u8 where
  "STALE_THRESHOLD = 5"

definition count_miss :: "u8 \<Rightarrow> u8" where
  "count_miss n = (if n < 0xFF then n + 1 else n)"

lemma unat_count_miss: "unat (count_miss n) = min 255 (unat n + 1)"
proof (cases "n < 0xFF")
  case True
  then have "unat n < 255" by (simp add: word_less_nat_alt)
  moreover from this have "unat (n + 1) = unat n + 1"
    using unat_plus_no_wrap [of n 1] by simp
  ultimately show ?thesis using True by (simp add: count_miss_def)
next
  case False
  with unat_u8_le [of n] have "unat n = 255" by (simp add: word_less_nat_alt)
  with False show ?thesis by (simp add: count_miss_def)
qed

text \<open>Housekeeping requests since the last sign of life, starting from a count of \<open>n\<close>.\<close>

fun hk_since :: "(SB_Msg \<Rightarrow> bool) \<Rightarrow> (SB_Msg \<Rightarrow> bool) \<Rightarrow> nat \<Rightarrow> SB_Msg list \<Rightarrow> nat" where
  "hk_since is_hk alive n [] = n"
| "hk_since is_hk alive n (m # ms) =
     hk_since is_hk alive (if is_hk m then Suc n else if alive m then 0 else n) ms"

text \<open>The data of the last reply, \<open>d\<close> if there was none.\<close>

fun last_reply :: "(SB_Msg \<Rightarrow> 'd option) \<Rightarrow> 'd \<Rightarrow> SB_Msg list \<Rightarrow> 'd" where
  "last_reply reply d [] = d"
| "last_reply reply d (m # ms) =
     last_reply reply (case reply m of None \<Rightarrow> d | Some d' \<Rightarrow> d') ms"

fun handle_all :: "(SB_Msg \<Rightarrow> 's \<Rightarrow> Trace \<Rightarrow> 's \<times> Trace) \<Rightarrow> SB_Msg list \<Rightarrow> 's \<Rightarrow> Trace \<Rightarrow>
    's \<times> Trace" where
  "handle_all step [] s tr = (s, tr)"
| "handle_all step (m # ms) s tr = (case step m s tr of (s', tr') \<Rightarrow> handle_all step ms s' tr')"

text \<open>
  The same for a handler that may not return. A handler that does not return is counted as one that
  does nothing; what is claimed of it is claimed of histories in which every handler returned.
\<close>

fun run_all :: "(SB_Msg \<Rightarrow> 's \<Rightarrow> Trace \<Rightarrow> ('s \<times> Trace) run) \<Rightarrow> SB_Msg list \<Rightarrow> 's \<Rightarrow> Trace \<Rightarrow>
    ('s \<times> Trace) run" where
  "run_all step [] s tr = Returns (s, tr)"
| "run_all step (m # ms) s tr =
     run_bind (step m s tr) (\<lambda>(s', tr'). run_all step ms s' tr')"

definition returned :: "('s \<Rightarrow> Trace \<Rightarrow> ('s \<times> Trace) run) \<Rightarrow> 's \<Rightarrow> Trace \<Rightarrow> 's \<times> Trace" where
  "returned f s tr = (case f s tr of Returns r \<Rightarrow> r | _ \<Rightarrow> (s, tr))"

lemma run_all_returned:
  "run_all step ms s tr = Returns r \<Longrightarrow> handle_all (\<lambda>m. returned (step m)) ms s tr = r"
proof (induction ms arbitrary: s tr)
  case Nil
  then show ?case by simp
next
  case (Cons m ms)
  then obtain s' tr' where "step m s tr = Returns (s', tr')" "run_all step ms s' tr' = Returns r"
    by (auto simp: run_bind_Returns_iff)
  with Cons.IH show ?case by (simp add: returned_def)
qed

lemma min_255_Suc: "min 255 (Suc (min 255 n)) = min 255 (Suc n)"
  by (simp add: min_def)

lemma hk_since_min:
  "min 255 n = min 255 n' \<Longrightarrow>
   min 255 (hk_since is_hk alive n ms) = min 255 (hk_since is_hk alive n' ms)"
proof (induction ms arbitrary: n n')
  case Nil
  then show ?case by simp
next
  case (Cons m ms)
  have "min 255 (Suc n) = min 255 (Suc n')"
    using Cons.prems min_255_Suc [of n] min_255_Suc [of n'] by simp
  with Cons.prems show ?case by (auto intro!: Cons.IH)
qed

locale hk_subsystem =
  fixes step :: "Env \<Rightarrow> SB_Msg \<Rightarrow> 's \<Rightarrow> Trace \<Rightarrow> 's \<times> Trace"
    and miss :: "'s \<Rightarrow> u8"
    and cache :: "'s \<Rightarrow> 'd"
    and is_hk :: "SB_Msg \<Rightarrow> bool"
    and alive :: "SB_Msg \<Rightarrow> bool"
    and reply :: "SB_Msg \<Rightarrow> 'd option"
    and request :: SB_Msg
    and packet :: "Env \<Rightarrow> Trace \<Rightarrow> 's \<Rightarrow> u8 \<Rightarrow> 'd \<Rightarrow> SB_Msg"
  assumes step_hk: "is_hk m \<Longrightarrow> miss (fst (step env m s tr)) = count_miss (miss s) \<and>
      cache (fst (step env m s tr)) = cache s \<and>
      sb_sent (snd (step env m s tr)) = sb_sent tr @
        [request, packet env tr s (if STALE_THRESHOLD \<le> miss s then 1 else 0) (cache s)]"
    and step_alive: "\<not> is_hk m \<Longrightarrow> alive m \<Longrightarrow> miss (fst (step env m s tr)) = 0"
    and step_other: "\<not> is_hk m \<Longrightarrow> \<not> alive m \<Longrightarrow> miss (fst (step env m s tr)) = miss s"
    and step_cache: "\<not> is_hk m \<Longrightarrow> cache (fst (step env m s tr)) =
      (case reply m of None \<Rightarrow> cache s | Some d \<Rightarrow> d)"
    and reply_alive: "reply m = Some d \<Longrightarrow> alive m \<and> \<not> is_hk m"
begin

lemma miss_count:
  "unat (miss (fst (handle_all (step env) ms s tr))) =
   min 255 (hk_since is_hk alive (unat (miss s)) ms)"
proof (induction ms arbitrary: s tr)
  case Nil
  then show ?case using unat_u8_le [of "miss s"] by simp
next
  case (Cons m ms)
  obtain s' tr' where e: "step env m s tr = (s', tr')" by (cases "step env m s tr")
  let ?n = "if is_hk m then Suc (unat (miss s)) else if alive m then 0 else unat (miss s)"
  have "unat (miss s') = min 255 ?n"
    using e step_hk [of m env s tr] step_alive [of m env s tr] step_other [of m env s tr]
      unat_u8_le [of "miss s"]
    by (auto simp: unat_count_miss)
  then have "min 255 (hk_since is_hk alive (unat (miss s')) ms) =
      min 255 (hk_since is_hk alive ?n ms)"
    by (intro hk_since_min) (simp add: min_def)
  with Cons.IH [of s' tr'] e show ?case by simp
qed

lemma cache_is_last:
  "cache (fst (handle_all (step env) ms s tr)) = last_reply reply (cache s) ms"
proof (induction ms arbitrary: s tr)
  case Nil
  then show ?case by simp
next
  case (Cons m ms)
  obtain s' tr' where e: "step env m s tr = (s', tr')" by (cases "step env m s tr")
  have "cache s' = (case reply m of None \<Rightarrow> cache s | Some d \<Rightarrow> d)"
    using e step_hk [of m env s tr] step_cache [of m env s tr] reply_alive [of m]
    by (cases "is_hk m") (auto split: option.split)
  with Cons.IH [of s' tr'] e show ?case by (simp split: option.split)
qed

lemma stale_packet:
  assumes "is_hk m" "handle_all (step env) ms s tr = (s', tr')"
  shows "sb_sent (snd (step env m s' tr')) = sb_sent tr' @ [request,
      packet env tr' s' (if 5 \<le> hk_since is_hk alive (unat (miss s)) ms then 1 else 0)
        (last_reply reply (cache s) ms)]"
proof -
  have "unat (miss s') = min 255 (hk_since is_hk alive (unat (miss s)) ms)"
    using miss_count [of env ms s tr] assms(2) by simp
  then have "STALE_THRESHOLD \<le> miss s' \<longleftrightarrow> 5 \<le> hk_since is_hk alive (unat (miss s)) ms"
    by (simp add: STALE_THRESHOLD_def word_le_nat_alt)
  moreover have "cache s' = last_reply reply (cache s) ms"
    using cache_is_last [of env ms s tr] assms(2) by simp
  ultimately show ?thesis using step_hk [OF assms(1), of env s' tr'] by simp
qed

text \<open>A sign of life between two requests keeps the cache fresh, whether or not it brings data.\<close>

lemma fresh_rounds:
  assumes "is_hk h" "\<not> is_hk b" "alive b" "reply b = None" "miss s < STALE_THRESHOLD"
    and silent: "\<And>s tr. sb_sent (snd (step env b s tr)) = sb_sent tr"
  shows "\<exists>sts. length sts = n \<and> sb_sent (snd (handle_all (step env) (concat (replicate n [h, b])) s tr)) =
    sb_sent tr @ concat (map (\<lambda>(t, s'). [request, packet env t s' 0 (cache s)]) sts)"
  using assms(5)
proof (induction n arbitrary: s tr)
  case (Suc n)
  obtain s1 tr1 where 1: "step env h s tr = (s1, tr1)" by (cases "step env h s tr")
  obtain s2 tr2 where 2: "step env b s1 tr1 = (s2, tr2)" by (cases "step env b s1 tr1")
  have sent: "sb_sent tr1 = sb_sent tr @ [request, packet env tr s 0 (cache s)]" "cache s1 = cache s"
    using step_hk [OF assms(1), of env s tr] 1 Suc.prems by (simp_all add: not_le [symmetric])
  have "miss s2 = 0" "cache s2 = cache s" "sb_sent tr2 = sb_sent tr1"
    using step_alive [OF assms(2,3), of env s1 tr1] step_cache [OF assms(2), of env s1 tr1] silent [of s1 tr1] 2 assms(4) sent(2)
    by simp_all
  with Suc.IH [of s2 tr2] obtain sts where "length sts = n"
    "sb_sent (snd (handle_all (step env) (concat (replicate n [h, b])) s2 tr2)) =
      sb_sent tr1 @ concat (map (\<lambda>(t, s'). [request, packet env t s' 0 (cache s)]) sts)"
    by (auto simp: STALE_THRESHOLD_def)
  then show ?case using 1 2 sent(1) by (intro exI [of _ "(tr, s) # sts"]) simp
qed simp

end

end
