(* ===== verification/Power_App.thy ===== *)
theory Power_App
  imports Subsystem
begin

text \<open>
  The EPS application (\<open>powerMC_app.c\<close>, \<open>powerMC_app_cmds.c\<close>, \<open>powerMC_app_dispatch.c\<close>).
\<close>

section \<open>State\<close>

record POWERMC_AppData =
  pw_HkPacket :: POWERMC_HkTlm_Power
  pw_CmdCounter :: u8
  pw_ErrCounter :: u8
  pw_EpsMissCount :: u8
  pw_Eps :: CANIOMC_EpsTlmPayload
  pw_IsImaging :: bool
  pw_RunStatus :: Run_Status

abbreviation pw_event :: "nat \<Rightarrow> EVS_EventType \<Rightarrow> Trace \<Rightarrow> Trace" where
  "pw_event \<equiv> send_event POWERMC"

abbreviation pw_count_error :: "POWERMC_AppData \<Rightarrow> POWERMC_AppData" where
  "pw_count_error s \<equiv> s\<lparr>pw_ErrCounter := pw_ErrCounter s + 1\<rparr>"

text \<open>The cached currents, voltages and flags are kept together, in the struct they come in.\<close>

definition eps_zero :: CANIOMC_EpsTlmPayload where
  "eps_zero = \<lparr>eps_ChannelCurrents = zeros 10, eps_BuckVoltages = replicate 5 0,
     eps_BoolFlags = zeros 2\<rparr>"

definition power_hk_zero :: POWERMC_HkTlm_Power where
  "power_hk_zero = \<lparr>phk_CmdCounter = 0, phk_ErrCounter = 0, phk_EpsStale = 0,
     phk_ChannelCurrents = zeros 10, phk_BuckVoltages = replicate 5 0, phk_BoolFlags = zeros 2\<rparr>"

section \<open>Commands\<close>

definition POWERMC_APP_SEND_HK_CAN_REQUEST_TO_SB ::
  "Env \<Rightarrow> POWERMC_AppData \<Rightarrow> Trace \<Rightarrow> CFE_Status \<times> POWERMC_AppData \<times> Trace" where
  "POWERMC_APP_SEND_HK_CAN_REQUEST_TO_SB env s tr =
     (case sb_transmit env (can_request CANIOMC_EPS_ID CANIOMC_OBCPOWER_HK_MSGID) tr of
        (status, tr1) \<Rightarrow>
          if status \<noteq> CFE_SUCCESS
          then (status, pw_count_error s, pw_event HK_SEND_ERR_EID EVS_ERROR tr1)
          else (status, s\<lparr>pw_CmdCounter := pw_CmdCounter s + 1\<rparr>,
                pw_event HK_SEND_SUCCESS_EID EVS_DEBUG tr1))"

definition POWERMC_appResetHkData :: "POWERMC_AppData \<Rightarrow> CFE_Status \<times> POWERMC_AppData" where
  "POWERMC_appResetHkData s =
     (CFE_SUCCESS, s\<lparr>pw_CmdCounter := 0, pw_ErrCounter := 0, pw_EpsMissCount := 0,
        pw_Eps := eps_zero, pw_IsImaging := False\<rparr>)"

definition pw_hk_packet :: "POWERMC_AppData \<Rightarrow> u8 \<Rightarrow> CANIOMC_EpsTlmPayload \<Rightarrow>
    POWERMC_HkTlm_Power" where
  "pw_hk_packet s stale e =
     \<lparr>phk_CmdCounter = pw_CmdCounter s, phk_ErrCounter = pw_ErrCounter s, phk_EpsStale = stale,
      phk_ChannelCurrents = eps_ChannelCurrents e, phk_BuckVoltages = eps_BuckVoltages e,
      phk_BoolFlags = eps_BoolFlags e\<rparr>"

definition POWERMC_appPrepareHkPacket ::
  "Env \<Rightarrow> POWERMC_AppData \<Rightarrow> Trace \<Rightarrow> CFE_Status \<times> POWERMC_AppData \<times> Trace" where
  "POWERMC_appPrepareHkPacket env s tr =
     (let s1 = s\<lparr>pw_HkPacket := pw_hk_packet s
                  (if STALE_THRESHOLD \<le> pw_EpsMissCount s then 1 else 0) (pw_Eps s)\<rparr>;
          (ignored, s2, tr1) = POWERMC_APP_SEND_HK_CAN_REQUEST_TO_SB env s1 tr;
          s3 = (if pw_EpsMissCount s2 < 0xFF
                then s2\<lparr>pw_EpsMissCount := pw_EpsMissCount s2 + 1\<rparr> else s2)
      in (CFE_SUCCESS, s3, tr1))"

definition POWERMC_APP_SEND_HK_TO_SB ::
  "Env \<Rightarrow> POWERMC_AppData \<Rightarrow> Trace \<Rightarrow> CFE_Status \<times> POWERMC_AppData \<times> Trace" where
  "POWERMC_APP_SEND_HK_TO_SB env s tr =
     (case POWERMC_appPrepareHkPacket env s tr of (status, s1, tr1) \<Rightarrow>
        if status \<noteq> CFE_SUCCESS
        then (status, pw_count_error s1, pw_event HK_PREP_ERR_EID EVS_ERROR tr1)
        else (case sb_transmit env (POWERMC_HK_TLM_MID (pw_HkPacket s1)) tr1 of (status, tr2) \<Rightarrow>
           if status \<noteq> CFE_SUCCESS
           then (status, pw_count_error s1, pw_event HK_SEND_ERR_EID EVS_ERROR tr2)
           else (status, s1, pw_event HK_SEND_SUCCESS_EID EVS_INFORMATION tr2)))"

definition POWERMC_ProcessEpsTlm ::
  "CANIOMC_EpsTlmPayload option \<Rightarrow> POWERMC_AppData \<Rightarrow> Trace \<Rightarrow>
   CFE_Status \<times> POWERMC_AppData \<times> Trace" where
  "POWERMC_ProcessEpsTlm Pkt s tr =
     (case Pkt of None \<Rightarrow> (CFE_SUCCESS, s, tr)
      | Some e \<Rightarrow> (CFE_SUCCESS, s\<lparr>pw_Eps := e, pw_EpsMissCount := 0\<rparr>,
                   pw_event HK_SEND_SUCCESS_EID EVS_DEBUG tr))"

section \<open>Dispatch, start and main loop\<close>

fun POWERMC_appTaskPipe :: "Env \<Rightarrow> SB_Msg \<Rightarrow> POWERMC_AppData \<Rightarrow> Trace \<Rightarrow>
    POWERMC_AppData \<times> Trace" where
  "POWERMC_appTaskPipe env POWERMC_CMD_MID s tr =
     (s\<lparr>pw_CmdCounter := pw_CmdCounter s + 1\<rparr>, pw_event MSG_RECEIVED_EID EVS_INFORMATION tr)"
| "POWERMC_appTaskPipe env POWERMC_SEND_HK_MID s tr =
     snd (POWERMC_APP_SEND_HK_TO_SB env s (pw_event MSG_RECEIVED_EID EVS_INFORMATION tr))"
| "POWERMC_appTaskPipe env (CANIOMC_EPS_TLM_MID e) s tr = snd (POWERMC_ProcessEpsTlm (Some e) s tr)"
| "POWERMC_appTaskPipe env (PAYLOADMC_IMAGING_MODE_MID b) s tr = (s\<lparr>pw_IsImaging := b\<rparr>, tr)"
| "POWERMC_appTaskPipe env m s tr = (s, pw_event UNKNOWN_MSG_ERR_EID EVS_ERROR tr)"

definition POWERMC_appTableInit :: "Env \<Rightarrow> Trace \<Rightarrow> CFE_Status \<times> Trace" where
  "POWERMC_appTableInit env = app_table_init env POWERMC"

definition POWERMC_appTableReload :: "Env \<Rightarrow> Trace \<Rightarrow> CFE_Status \<times> Trace" where
  "POWERMC_appTableReload env = app_table_reload env POWERMC"

definition POWERMC_appInit :: "Env \<Rightarrow> POWERMC_AppData \<Rightarrow> Trace \<Rightarrow>
    CFE_Status \<times> POWERMC_AppData \<times> Trace" where
  "POWERMC_appInit env s tr =
     (let s1 = s\<lparr>pw_RunStatus := APP_RUN,
                 pw_HkPacket := power_hk_zero\<rparr>;
          (regStatus, tr1) = svc_call env EVS_Register tr
      in if regStatus \<noteq> CFE_SUCCESS then (regStatus, s1, sys_log tr1)
         else case POWERMC_appPrepareHkPacket env s1 tr1 of (hkStatus, s2, tr2) \<Rightarrow>
           if hkStatus \<noteq> CFE_SUCCESS
           then (hkStatus, s2, pw_event INIT_HK_ERR_EID EVS_ERROR tr2)
           else case
             svc_or env (SB_CreatePipe 12) (pw_event CREATE_PIPE_ERR_EID EVS_ERROR)
              (subscribe_all env POWERMC [0xAC1, 0xAC2, 0xDC3, 0xEC3]
              (\<lambda>tr3. case POWERMC_appTableInit env tr3 of (status, tr4) \<Rightarrow>
                 if status \<noteq> CFE_SUCCESS then (status, tr4)
                 else (CFE_SUCCESS, pw_event 1 EVS_INFORMATION tr4))) tr2
           of (status, tr5) \<Rightarrow> (status, s2, tr5))"

fun pw_loop_step :: "Env \<Rightarrow> Loop_Input \<Rightarrow> POWERMC_AppData \<Rightarrow> Trace \<Rightarrow>
    (POWERMC_AppData \<times> Trace) run" where
  "pw_loop_step env (Received m) s tr = Returns (POWERMC_appTaskPipe env m s tr)"
| "pw_loop_step env Timed_Out s tr = Returns (s, tr)"
| "pw_loop_step env (Receive_Error e) s tr =
     Returns (s\<lparr>pw_RunStatus := APP_ERROR\<rparr>, sys_log (pw_event RCV_MSG_ERR_EID EVS_ERROR tr))"
| "pw_loop_step env Shutdown s tr = Returns (s, tr)"

definition POWERMC_appMain :: "Env \<Rightarrow> Loop_Input list \<Rightarrow> POWERMC_AppData \<Rightarrow>
    (POWERMC_AppData \<times> Trace) run" where
  "POWERMC_appMain env is s =
     (case POWERMC_appInit env s [] of (status, s1, tr) \<Rightarrow>
        let s2 = (if status \<noteq> CFE_SUCCESS then s1\<lparr>pw_RunStatus := APP_ERROR\<rparr> else s1)
        in app_run_loop pw_RunStatus (pw_loop_step env) is s2 tr)"

section \<open>The contract holds\<close>

definition pw_is_hk :: "SB_Msg \<Rightarrow> bool" where
  "pw_is_hk m = (m = POWERMC_SEND_HK_MID)"

definition pw_reply :: "SB_Msg \<Rightarrow> CANIOMC_EpsTlmPayload option" where
  "pw_reply m = (case m of CANIOMC_EPS_TLM_MID e \<Rightarrow> Some e | _ \<Rightarrow> None)"

definition pw_alive :: "SB_Msg \<Rightarrow> bool" where
  "pw_alive m = (pw_reply m \<noteq> None)"

lemma pw_hk_step:
  "pw_EpsMissCount (fst (POWERMC_appTaskPipe env POWERMC_SEND_HK_MID s tr)) =
     count_miss (pw_EpsMissCount s)"
  "pw_Eps (fst (POWERMC_appTaskPipe env POWERMC_SEND_HK_MID s tr)) = pw_Eps s"
  "sb_sent (snd (POWERMC_appTaskPipe env POWERMC_SEND_HK_MID s tr)) = sb_sent tr @
     [can_request CANIOMC_EPS_ID CANIOMC_OBCPOWER_HK_MSGID, POWERMC_HK_TLM_MID
        (pw_hk_packet s (if STALE_THRESHOLD \<le> pw_EpsMissCount s then 1 else 0) (pw_Eps s))]"
  by (simp_all add: POWERMC_APP_SEND_HK_TO_SB_def POWERMC_appPrepareHkPacket_def Let_def
      POWERMC_APP_SEND_HK_CAN_REQUEST_TO_SB_def env_call_defs count_miss_def)

interpretation power: hk_subsystem POWERMC_appTaskPipe pw_EpsMissCount pw_Eps pw_is_hk pw_alive
  pw_reply "can_request CANIOMC_EPS_ID CANIOMC_OBCPOWER_HK_MSGID"
  "\<lambda>env tr s stale e. POWERMC_HK_TLM_MID (pw_hk_packet s stale e)"
proof unfold_locales
  fix m env s tr
  assume "pw_is_hk m"
  then show "pw_EpsMissCount (fst (POWERMC_appTaskPipe env m s tr)) = count_miss (pw_EpsMissCount s) \<and>
      pw_Eps (fst (POWERMC_appTaskPipe env m s tr)) = pw_Eps s \<and>
      sb_sent (snd (POWERMC_appTaskPipe env m s tr)) = sb_sent tr @
        [can_request CANIOMC_EPS_ID CANIOMC_OBCPOWER_HK_MSGID, POWERMC_HK_TLM_MID
          (pw_hk_packet s (if STALE_THRESHOLD \<le> pw_EpsMissCount s then 1 else 0) (pw_Eps s))]"
    unfolding pw_is_hk_def by (simp only: pw_hk_step)
next
  fix m env s tr
  assume "\<not> pw_is_hk m" "pw_alive m"
  then show "pw_EpsMissCount (fst (POWERMC_appTaskPipe env m s tr)) = 0"
    by (cases m) (simp_all add: pw_is_hk_def pw_alive_def pw_reply_def POWERMC_ProcessEpsTlm_def)
next
  fix m env s tr
  assume "\<not> pw_is_hk m" "\<not> pw_alive m"
  then show "pw_EpsMissCount (fst (POWERMC_appTaskPipe env m s tr)) = pw_EpsMissCount s"
    by (cases m) (simp_all add: pw_is_hk_def pw_alive_def pw_reply_def)
next
  fix m env s tr
  assume "\<not> pw_is_hk m"
  then show "pw_Eps (fst (POWERMC_appTaskPipe env m s tr)) =
      (case pw_reply m of None \<Rightarrow> pw_Eps s | Some d \<Rightarrow> d)"
    by (cases m) (simp_all add: pw_is_hk_def pw_reply_def POWERMC_ProcessEpsTlm_def)
next
  fix m d
  assume "pw_reply m = Some d"
  then show "pw_alive m \<and> \<not> pw_is_hk m"
    by (auto simp: pw_is_hk_def pw_alive_def pw_reply_def split: SB_Msg.splits)
qed

section \<open>Properties\<close>

text \<open>However long the application has run and whatever messages it has handled, the next
  housekeeping request publishes the readings of the last EPS reply, flagged stale exactly when at
  least five requests have gone by since the board was last heard (the counter saturates and never
  wraps back to fresh), and asks the board over CAN before it publishes.\<close>

lemma power_housekeeping:
  assumes "handle_all (POWERMC_appTaskPipe env) ms s tr = (s', tr')"
  shows "sb_sent (snd (POWERMC_appTaskPipe env POWERMC_SEND_HK_MID s' tr')) = sb_sent tr' @
    [can_request CANIOMC_EPS_ID CANIOMC_OBCPOWER_HK_MSGID,
     POWERMC_HK_TLM_MID (pw_hk_packet s'
       (if 5 \<le> hk_since pw_is_hk pw_alive (unat (pw_EpsMissCount s)) ms then 1 else 0)
       (last_reply pw_reply (pw_Eps s) ms))]"
  by (rule power.stale_packet [OF _ assms]) (simp add: pw_is_hk_def)

definition pw_start :: POWERMC_AppData where
  "pw_start = \<lparr>pw_HkPacket = power_hk_zero, pw_CmdCounter = 0, pw_ErrCounter = 0, pw_EpsMissCount = 0, pw_Eps = eps_zero,
     pw_IsImaging = False, pw_RunStatus = APP_RUN\<rparr>"

end
