(* ===== verification/Mppt_App.thy ===== *)
theory Mppt_App
  imports Subsystem
begin

text \<open>
  The MPPT application (\<open>mpptMC_app.c\<close>, \<open>mpptMC_app_cmds.c\<close>, \<open>mpptMC_app_dispatch.c\<close>).
\<close>

section \<open>State\<close>

record MPPTMC_AppData =
  mp_HkPacket :: MPPTMC_HkTlm_Mppt
  mp_CmdCounter :: u8
  mp_ErrCounter :: u8
  mp_MpptMissCount :: u8
  mp_Readings :: "u16 list"
  mp_IsImaging :: bool
  mp_RunStatus :: Run_Status

abbreviation mp_event :: "nat \<Rightarrow> EVS_EventType \<Rightarrow> Trace \<Rightarrow> Trace" where
  "mp_event \<equiv> send_event MPPTMC"

abbreviation mp_count_error :: "MPPTMC_AppData \<Rightarrow> MPPTMC_AppData" where
  "mp_count_error s \<equiv> s\<lparr>mp_ErrCounter := mp_ErrCounter s + 1\<rparr>"

definition mppt_zero :: "u16 list" where
  "mppt_zero = replicate CANIOMC_MPPT_NUM_READINGS 0"

definition mppt_hk_zero :: MPPTMC_HkTlm_Mppt where
  "mppt_hk_zero = \<lparr>mhk_CmdCounter = 0, mhk_ErrCounter = 0, mhk_MpptStale = 0,
     mhk_Readings = mppt_zero\<rparr>"

section \<open>Commands\<close>

definition MPPTMC_APP_SEND_HK_CAN_REQUEST_TO_SB ::
  "Env \<Rightarrow> MPPTMC_AppData \<Rightarrow> Trace \<Rightarrow> CFE_Status \<times> MPPTMC_AppData \<times> Trace" where
  "MPPTMC_APP_SEND_HK_CAN_REQUEST_TO_SB env s tr =
     (case sb_transmit env (can_request CANIOMC_MPPT_ID CANIOMC_MPPT_HK_MSGID) tr of
        (status, tr1) \<Rightarrow>
          if status \<noteq> CFE_SUCCESS
          then (status, mp_count_error s, mp_event HK_SEND_ERR_EID EVS_ERROR tr1)
          else (status, s\<lparr>mp_CmdCounter := mp_CmdCounter s + 1\<rparr>,
                mp_event HK_SEND_SUCCESS_EID EVS_DEBUG tr1))"

definition MPPTMC_appResetHkData :: "MPPTMC_AppData \<Rightarrow> CFE_Status \<times> MPPTMC_AppData" where
  "MPPTMC_appResetHkData s =
     (CFE_SUCCESS, s\<lparr>mp_CmdCounter := 0, mp_ErrCounter := 0, mp_MpptMissCount := 0,
        mp_Readings := mppt_zero, mp_IsImaging := False\<rparr>)"

definition mp_hk_packet :: "MPPTMC_AppData \<Rightarrow> u8 \<Rightarrow> u16 list \<Rightarrow> MPPTMC_HkTlm_Mppt" where
  "mp_hk_packet s stale e =
     \<lparr>mhk_CmdCounter = mp_CmdCounter s, mhk_ErrCounter = mp_ErrCounter s, mhk_MpptStale = stale,
      mhk_Readings = e\<rparr>"

definition MPPTMC_appPrepareHkPacket ::
  "Env \<Rightarrow> MPPTMC_AppData \<Rightarrow> Trace \<Rightarrow> CFE_Status \<times> MPPTMC_AppData \<times> Trace" where
  "MPPTMC_appPrepareHkPacket env s tr =
     (let s1 = s\<lparr>mp_HkPacket := mp_hk_packet s
                  (if STALE_THRESHOLD \<le> mp_MpptMissCount s then 1 else 0) (mp_Readings s)\<rparr>;
          (ignored, s2, tr1) = MPPTMC_APP_SEND_HK_CAN_REQUEST_TO_SB env s1 tr;
          s3 = (if mp_MpptMissCount s2 < 0xFF
                then s2\<lparr>mp_MpptMissCount := mp_MpptMissCount s2 + 1\<rparr> else s2)
      in (CFE_SUCCESS, s3, tr1))"

definition MPPTMC_APP_SEND_HK_TO_SB ::
  "Env \<Rightarrow> MPPTMC_AppData \<Rightarrow> Trace \<Rightarrow> CFE_Status \<times> MPPTMC_AppData \<times> Trace" where
  "MPPTMC_APP_SEND_HK_TO_SB env s tr =
     (case MPPTMC_appPrepareHkPacket env s tr of (status, s1, tr1) \<Rightarrow>
        if status \<noteq> CFE_SUCCESS
        then (status, mp_count_error s1, mp_event HK_PREP_ERR_EID EVS_ERROR tr1)
        else (case sb_transmit env (MPPTMC_HK_TLM_MID (mp_HkPacket s1)) tr1 of (status, tr2) \<Rightarrow>
           if status \<noteq> CFE_SUCCESS
           then (status, mp_count_error s1, mp_event HK_SEND_ERR_EID EVS_ERROR tr2)
           else (status, s1, mp_event HK_SEND_SUCCESS_EID EVS_INFORMATION tr2)))"

definition MPPTMC_ProcessMpptTlm ::
  "u16 list option \<Rightarrow> MPPTMC_AppData \<Rightarrow> Trace \<Rightarrow>
   CFE_Status \<times> MPPTMC_AppData \<times> Trace" where
  "MPPTMC_ProcessMpptTlm Pkt s tr =
     (case Pkt of None \<Rightarrow> (CFE_SUCCESS, s, tr)
      | Some e \<Rightarrow> (CFE_SUCCESS, s\<lparr>mp_Readings := e, mp_MpptMissCount := 0\<rparr>,
                   mp_event HK_SEND_SUCCESS_EID EVS_DEBUG tr))"

text \<open>The argument tells whether the buffer pointer is not \<open>NULL\<close>.\<close>

definition MPPTMC_ProcessMpptHeartbeat ::
  "bool \<Rightarrow> MPPTMC_AppData \<Rightarrow> Trace \<Rightarrow> CFE_Status \<times> MPPTMC_AppData \<times> Trace" where
  "MPPTMC_ProcessMpptHeartbeat present s tr =
     (if \<not> present then (CFE_SUCCESS, s, tr)
      else (CFE_SUCCESS, s\<lparr>mp_MpptMissCount := 0\<rparr>, mp_event MSG_RECEIVED_EID EVS_DEBUG tr))"

section \<open>Dispatch, start and main loop\<close>

fun MPPTMC_appTaskPipe :: "Env \<Rightarrow> SB_Msg \<Rightarrow> MPPTMC_AppData \<Rightarrow> Trace \<Rightarrow>
    MPPTMC_AppData \<times> Trace" where
  "MPPTMC_appTaskPipe env MPPTMC_CMD_MID s tr =
     (s\<lparr>mp_CmdCounter := mp_CmdCounter s + 1\<rparr>, mp_event MSG_RECEIVED_EID EVS_INFORMATION tr)"
| "MPPTMC_appTaskPipe env MPPTMC_SEND_HK_MID s tr =
     snd (MPPTMC_APP_SEND_HK_TO_SB env s (mp_event MSG_RECEIVED_EID EVS_INFORMATION tr))"
| "MPPTMC_appTaskPipe env (CANIOMC_MPPT_TLM_MID e) s tr = snd (MPPTMC_ProcessMpptTlm (Some e) s tr)"
| "MPPTMC_appTaskPipe env CANIOMC_MPPT_HEARTBEAT_MID s tr =
     snd (MPPTMC_ProcessMpptHeartbeat True s tr)"
| "MPPTMC_appTaskPipe env (PAYLOADMC_IMAGING_MODE_MID b) s tr = (s\<lparr>mp_IsImaging := b\<rparr>, tr)"
| "MPPTMC_appTaskPipe env m s tr = (s, mp_event UNKNOWN_MSG_ERR_EID EVS_ERROR tr)"

definition MPPTMC_appTableInit :: "Env \<Rightarrow> Trace \<Rightarrow> CFE_Status \<times> Trace" where
  "MPPTMC_appTableInit env = app_table_init env MPPTMC"

definition MPPTMC_appTableReload :: "Env \<Rightarrow> Trace \<Rightarrow> CFE_Status \<times> Trace" where
  "MPPTMC_appTableReload env = app_table_reload env MPPTMC"

definition MPPTMC_appInit :: "Env \<Rightarrow> MPPTMC_AppData \<Rightarrow> Trace \<Rightarrow>
    CFE_Status \<times> MPPTMC_AppData \<times> Trace" where
  "MPPTMC_appInit env s tr =
     (let s1 = s\<lparr>mp_RunStatus := APP_RUN,
                 mp_HkPacket := mppt_hk_zero\<rparr>;
          (regStatus, tr1) = svc_call env EVS_Register tr
      in if regStatus \<noteq> CFE_SUCCESS then (regStatus, s1, sys_log tr1)
         else case MPPTMC_appPrepareHkPacket env s1 tr1 of (hkStatus, s2, tr2) \<Rightarrow>
           if hkStatus \<noteq> CFE_SUCCESS
           then (hkStatus, s2, mp_event INIT_HK_ERR_EID EVS_ERROR tr2)
           else case
             svc_or env (SB_CreatePipe 12) (mp_event CREATE_PIPE_ERR_EID EVS_ERROR)
              (subscribe_all env MPPTMC [0xFC1, 0xFC2, 0xDC5, 0xDC6, 0xEC3]
              (\<lambda>tr3. case MPPTMC_appTableInit env tr3 of (status, tr4) \<Rightarrow>
                 if status \<noteq> CFE_SUCCESS then (status, tr4)
                 else (CFE_SUCCESS, mp_event 1 EVS_INFORMATION tr4))) tr2
           of (status, tr5) \<Rightarrow> (status, s2, tr5))"

fun mp_loop_step :: "Env \<Rightarrow> Loop_Input \<Rightarrow> MPPTMC_AppData \<Rightarrow> Trace \<Rightarrow>
    (MPPTMC_AppData \<times> Trace) run" where
  "mp_loop_step env (Received m) s tr = Returns (MPPTMC_appTaskPipe env m s tr)"
| "mp_loop_step env Timed_Out s tr = Returns (s, tr)"
| "mp_loop_step env (Receive_Error e) s tr =
     Returns (s\<lparr>mp_RunStatus := APP_ERROR\<rparr>, sys_log (mp_event RCV_MSG_ERR_EID EVS_ERROR tr))"
| "mp_loop_step env Shutdown s tr = Returns (s, tr)"

definition MPPTMC_appMain :: "Env \<Rightarrow> Loop_Input list \<Rightarrow> MPPTMC_AppData \<Rightarrow>
    (MPPTMC_AppData \<times> Trace) run" where
  "MPPTMC_appMain env is s =
     (case MPPTMC_appInit env s [] of (status, s1, tr) \<Rightarrow>
        let s2 = (if status \<noteq> CFE_SUCCESS then s1\<lparr>mp_RunStatus := APP_ERROR\<rparr> else s1)
        in app_run_loop mp_RunStatus (mp_loop_step env) is s2 tr)"

section \<open>The contract holds\<close>

definition mp_is_hk :: "SB_Msg \<Rightarrow> bool" where
  "mp_is_hk m = (m = MPPTMC_SEND_HK_MID)"

definition mp_reply :: "SB_Msg \<Rightarrow> u16 list option" where
  "mp_reply m = (case m of CANIOMC_MPPT_TLM_MID e \<Rightarrow> Some e | _ \<Rightarrow> None)"

definition mp_alive :: "SB_Msg \<Rightarrow> bool" where
  "mp_alive m = (mp_reply m \<noteq> None \<or> m = CANIOMC_MPPT_HEARTBEAT_MID)"

lemma mp_hk_step:
  "mp_MpptMissCount (fst (MPPTMC_appTaskPipe env MPPTMC_SEND_HK_MID s tr)) =
     count_miss (mp_MpptMissCount s)"
  "mp_Readings (fst (MPPTMC_appTaskPipe env MPPTMC_SEND_HK_MID s tr)) = mp_Readings s"
  "sb_sent (snd (MPPTMC_appTaskPipe env MPPTMC_SEND_HK_MID s tr)) = sb_sent tr @
     [can_request CANIOMC_MPPT_ID CANIOMC_MPPT_HK_MSGID, MPPTMC_HK_TLM_MID
        (mp_hk_packet s (if STALE_THRESHOLD \<le> mp_MpptMissCount s then 1 else 0) (mp_Readings s))]"
  by (simp_all add: MPPTMC_APP_SEND_HK_TO_SB_def MPPTMC_appPrepareHkPacket_def Let_def
      MPPTMC_APP_SEND_HK_CAN_REQUEST_TO_SB_def env_call_defs count_miss_def)

interpretation mppt: hk_subsystem MPPTMC_appTaskPipe mp_MpptMissCount mp_Readings mp_is_hk mp_alive
  mp_reply "can_request CANIOMC_MPPT_ID CANIOMC_MPPT_HK_MSGID"
  "\<lambda>env tr s stale e. MPPTMC_HK_TLM_MID (mp_hk_packet s stale e)"
proof unfold_locales
  fix m env s tr
  assume "mp_is_hk m"
  then show "mp_MpptMissCount (fst (MPPTMC_appTaskPipe env m s tr)) = count_miss (mp_MpptMissCount s) \<and>
      mp_Readings (fst (MPPTMC_appTaskPipe env m s tr)) = mp_Readings s \<and>
      sb_sent (snd (MPPTMC_appTaskPipe env m s tr)) = sb_sent tr @
        [can_request CANIOMC_MPPT_ID CANIOMC_MPPT_HK_MSGID, MPPTMC_HK_TLM_MID
          (mp_hk_packet s (if STALE_THRESHOLD \<le> mp_MpptMissCount s then 1 else 0) (mp_Readings s))]"
    unfolding mp_is_hk_def by (simp only: mp_hk_step)
next
  fix m env s tr
  assume "\<not> mp_is_hk m" "mp_alive m"
  then show "mp_MpptMissCount (fst (MPPTMC_appTaskPipe env m s tr)) = 0"
    by (cases m) (simp_all add: mp_is_hk_def mp_alive_def mp_reply_def MPPTMC_ProcessMpptTlm_def
        MPPTMC_ProcessMpptHeartbeat_def)
next
  fix m env s tr
  assume "\<not> mp_is_hk m" "\<not> mp_alive m"
  then show "mp_MpptMissCount (fst (MPPTMC_appTaskPipe env m s tr)) = mp_MpptMissCount s"
    by (cases m) (simp_all add: mp_is_hk_def mp_alive_def mp_reply_def)
next
  fix m env s tr
  assume "\<not> mp_is_hk m"
  then show "mp_Readings (fst (MPPTMC_appTaskPipe env m s tr)) =
      (case mp_reply m of None \<Rightarrow> mp_Readings s | Some d \<Rightarrow> d)"
    by (cases m) (simp_all add: mp_is_hk_def mp_reply_def MPPTMC_ProcessMpptTlm_def
        MPPTMC_ProcessMpptHeartbeat_def)
next
  fix m d
  assume "mp_reply m = Some d"
  then show "mp_alive m \<and> \<not> mp_is_hk m"
    by (auto simp: mp_is_hk_def mp_alive_def mp_reply_def split: SB_Msg.splits)
qed

section \<open>Properties\<close>

text \<open>However long the application has run and whatever messages it has handled, the next
  housekeeping request publishes the readings of the last MPPT reply, flagged stale exactly when at
  least five requests have gone by since the last reply or heartbeat of the board (the counter
  saturates and never wraps back to fresh), and asks the board over CAN before it publishes.\<close>

lemma mppt_housekeeping:
  assumes "handle_all (MPPTMC_appTaskPipe env) ms s tr = (s', tr')"
  shows "sb_sent (snd (MPPTMC_appTaskPipe env MPPTMC_SEND_HK_MID s' tr')) = sb_sent tr' @
    [can_request CANIOMC_MPPT_ID CANIOMC_MPPT_HK_MSGID,
     MPPTMC_HK_TLM_MID (mp_hk_packet s'
       (if 5 \<le> hk_since mp_is_hk mp_alive (unat (mp_MpptMissCount s)) ms then 1 else 0)
       (last_reply mp_reply (mp_Readings s) ms))]"
  by (rule mppt.stale_packet [OF _ assms]) (simp add: mp_is_hk_def)

definition mp_start :: MPPTMC_AppData where
  "mp_start = \<lparr>mp_HkPacket = mppt_hk_zero, mp_CmdCounter = 0, mp_ErrCounter = 0, mp_MpptMissCount = 0, mp_Readings = mppt_zero,
     mp_IsImaging = False, mp_RunStatus = APP_RUN\<rparr>"

end
