(* ===== verification/Adcs_App.thy ===== *)
theory Adcs_App
  imports Subsystem
begin

text \<open>
  The ADCS application (\<open>adcsMC_app.c\<close>, \<open>adcsMC_app_cmds.c\<close>, \<open>adcsMC_app_dispatch.c\<close>).
\<close>

section \<open>State\<close>

record ADCSMC_AppData =
  ad_HkPacket :: ADCSMC_HkTlm_Adcs
  ad_CmdCounter :: u8
  ad_ErrCounter :: u8
  ad_AdcsMissCount :: u8
  ad_Tlm :: CANIOMC_AdcsTlmPayload
  ad_IsImaging :: bool
  ad_RunStatus :: Run_Status

abbreviation ad_event :: "nat \<Rightarrow> EVS_EventType \<Rightarrow> Trace \<Rightarrow> Trace" where
  "ad_event \<equiv> send_event ADCSMC"

abbreviation ad_count_error :: "ADCSMC_AppData \<Rightarrow> ADCSMC_AppData" where
  "ad_count_error s \<equiv> s\<lparr>ad_ErrCounter := ad_ErrCounter s + 1\<rparr>"

text \<open>The twelve cached arrays are kept together, in the struct they come in.\<close>

definition adcs_zero :: CANIOMC_AdcsTlmPayload where
  "adcs_zero =
     \<lparr>adcs_QuaternionEst = replicate 4 0, adcs_AngularVelEst = replicate 3 0,
      adcs_BiasEst = replicate 3 0, adcs_PosEst = replicate 3 0, adcs_VelEst = replicate 3 0,
      adcs_PqEst = replicate 3 0, adcs_PbEst = replicate 3 0,
      adcs_SunUnitVector1 = replicate 3 0, adcs_SunUnitVector2 = replicate 3 0,
      adcs_MagUnitVector1 = replicate 3 0, adcs_MagUnitVector2 = replicate 3 0,
      adcs_SunSensorTemp = replicate 2 0\<rparr>"

definition adcs_hk_zero :: ADCSMC_HkTlm_Adcs where
  "adcs_hk_zero = \<lparr>ahk_CmdCounter = 0, ahk_ErrCounter = 0, ahk_AdcsStale = 0, ahk_Tlm = adcs_zero\<rparr>"

section \<open>Commands\<close>

definition ADCSMC_APP_SEND_HK_CAN_REQUEST_TO_SB ::
  "Env \<Rightarrow> ADCSMC_AppData \<Rightarrow> Trace \<Rightarrow> CFE_Status \<times> ADCSMC_AppData \<times> Trace" where
  "ADCSMC_APP_SEND_HK_CAN_REQUEST_TO_SB env s tr =
     (case sb_transmit env (can_request CANIOMC_ADCS_ID CANIOMC_ADCS_HK_MSGID) tr of
        (status, tr1) \<Rightarrow>
          if status \<noteq> CFE_SUCCESS
          then (status, ad_count_error s, ad_event HK_SEND_ERR_EID EVS_ERROR tr1)
          else (status, s\<lparr>ad_CmdCounter := ad_CmdCounter s + 1\<rparr>,
                ad_event HK_SEND_SUCCESS_EID EVS_DEBUG tr1))"

definition ADCSMC_appResetHkData :: "ADCSMC_AppData \<Rightarrow> CFE_Status \<times> ADCSMC_AppData" where
  "ADCSMC_appResetHkData s =
     (CFE_SUCCESS, s\<lparr>ad_CmdCounter := 0, ad_ErrCounter := 0, ad_AdcsMissCount := 0,
        ad_Tlm := adcs_zero, ad_IsImaging := False\<rparr>)"

definition ad_hk_packet :: "ADCSMC_AppData \<Rightarrow> u8 \<Rightarrow> CANIOMC_AdcsTlmPayload \<Rightarrow>
    ADCSMC_HkTlm_Adcs" where
  "ad_hk_packet s stale e =
     \<lparr>ahk_CmdCounter = ad_CmdCounter s, ahk_ErrCounter = ad_ErrCounter s, ahk_AdcsStale = stale, ahk_Tlm = e\<rparr>"

definition ADCSMC_appPrepareHkPacket ::
  "Env \<Rightarrow> ADCSMC_AppData \<Rightarrow> Trace \<Rightarrow> CFE_Status \<times> ADCSMC_AppData \<times> Trace" where
  "ADCSMC_appPrepareHkPacket env s tr =
     (let s1 = s\<lparr>ad_HkPacket := ad_hk_packet s
                  (if STALE_THRESHOLD \<le> ad_AdcsMissCount s then 1 else 0) (ad_Tlm s)\<rparr>;
          (ignored, s2, tr1) = ADCSMC_APP_SEND_HK_CAN_REQUEST_TO_SB env s1 tr;
          s3 = (if ad_AdcsMissCount s2 < 0xFF
                then s2\<lparr>ad_AdcsMissCount := ad_AdcsMissCount s2 + 1\<rparr> else s2)
      in (CFE_SUCCESS, s3, tr1))"

definition ADCSMC_APP_SEND_HK_TO_SB ::
  "Env \<Rightarrow> ADCSMC_AppData \<Rightarrow> Trace \<Rightarrow> CFE_Status \<times> ADCSMC_AppData \<times> Trace" where
  "ADCSMC_APP_SEND_HK_TO_SB env s tr =
     (case ADCSMC_appPrepareHkPacket env s tr of (status, s1, tr1) \<Rightarrow>
        if status \<noteq> CFE_SUCCESS
        then (status, ad_count_error s1, ad_event HK_PREP_ERR_EID EVS_ERROR tr1)
        else (case sb_transmit env (ADCSMC_HK_TLM_MID (ad_HkPacket s1)) tr1 of (status, tr2) \<Rightarrow>
           if status \<noteq> CFE_SUCCESS
           then (status, ad_count_error s1, ad_event HK_SEND_ERR_EID EVS_ERROR tr2)
           else (status, s1, ad_event HK_SEND_SUCCESS_EID EVS_INFORMATION tr2)))"

definition ADCSMC_ProcessAdcsTlm ::
  "CANIOMC_AdcsTlmPayload option \<Rightarrow> ADCSMC_AppData \<Rightarrow> Trace \<Rightarrow>
   CFE_Status \<times> ADCSMC_AppData \<times> Trace" where
  "ADCSMC_ProcessAdcsTlm Pkt s tr =
     (case Pkt of None \<Rightarrow> (CFE_SUCCESS, s, tr)
      | Some e \<Rightarrow> (CFE_SUCCESS, s\<lparr>ad_Tlm := e, ad_AdcsMissCount := 0\<rparr>,
                   ad_event HK_SEND_SUCCESS_EID EVS_DEBUG tr))"

section \<open>Dispatch, start and main loop\<close>

fun ADCSMC_appTaskPipe :: "Env \<Rightarrow> SB_Msg \<Rightarrow> ADCSMC_AppData \<Rightarrow> Trace \<Rightarrow>
    ADCSMC_AppData \<times> Trace" where
  "ADCSMC_appTaskPipe env ADCSMC_CMD_MID s tr =
     (s\<lparr>ad_CmdCounter := ad_CmdCounter s + 1\<rparr>, ad_event MSG_RECEIVED_EID EVS_INFORMATION tr)"
| "ADCSMC_appTaskPipe env ADCSMC_SEND_HK_MID s tr =
     snd (ADCSMC_APP_SEND_HK_TO_SB env s (ad_event MSG_RECEIVED_EID EVS_INFORMATION tr))"
| "ADCSMC_appTaskPipe env (CANIOMC_ADCS_TLM_MID e) s tr = snd (ADCSMC_ProcessAdcsTlm (Some e) s tr)"
| "ADCSMC_appTaskPipe env (PAYLOADMC_IMAGING_MODE_MID b) s tr = (s\<lparr>ad_IsImaging := b\<rparr>, tr)"
| "ADCSMC_appTaskPipe env m s tr = (s, ad_event UNKNOWN_MSG_ERR_EID EVS_ERROR tr)"

definition ADCSMC_appTableInit :: "Env \<Rightarrow> Trace \<Rightarrow> CFE_Status \<times> Trace" where
  "ADCSMC_appTableInit env = app_table_init env ADCSMC"

definition ADCSMC_appTableReload :: "Env \<Rightarrow> Trace \<Rightarrow> CFE_Status \<times> Trace" where
  "ADCSMC_appTableReload env = app_table_reload env ADCSMC"

text \<open>A completed start ends with a reset of the housekeeping data.\<close>

definition ADCSMC_appInit :: "Env \<Rightarrow> ADCSMC_AppData \<Rightarrow> Trace \<Rightarrow>
    CFE_Status \<times> ADCSMC_AppData \<times> Trace" where
  "ADCSMC_appInit env s tr =
     (let s1 = s\<lparr>ad_RunStatus := APP_RUN,
                 ad_HkPacket := adcs_hk_zero\<rparr>;
          (regStatus, tr1) = svc_call env EVS_Register tr
      in if regStatus \<noteq> CFE_SUCCESS then (regStatus, s1, sys_log tr1)
         else case ADCSMC_appPrepareHkPacket env s1 tr1 of (hkStatus, s2, tr2) \<Rightarrow>
           if hkStatus \<noteq> CFE_SUCCESS
           then (hkStatus, s2, ad_event INIT_HK_ERR_EID EVS_ERROR tr2)
           else case
             svc_or env (SB_CreatePipe 12) (ad_event CREATE_PIPE_ERR_EID EVS_ERROR)
              (subscribe_all env ADCSMC [0xCC1, 0xCC2, 0xDC9, 0xEC3]
              (\<lambda>tr3. case ADCSMC_appTableInit env tr3 of (status, tr4) \<Rightarrow>
                 if status \<noteq> CFE_SUCCESS then (status, tr4)
                 else (CFE_SUCCESS, ad_event 1 EVS_INFORMATION tr4))) tr2
           of (status, tr5) \<Rightarrow>
             (status, if status = CFE_SUCCESS then snd (ADCSMC_appResetHkData s2) else s2, tr5))"

fun ad_loop_step :: "Env \<Rightarrow> Loop_Input \<Rightarrow> ADCSMC_AppData \<Rightarrow> Trace \<Rightarrow>
    (ADCSMC_AppData \<times> Trace) run" where
  "ad_loop_step env (Received m) s tr = Returns (ADCSMC_appTaskPipe env m s tr)"
| "ad_loop_step env Timed_Out s tr = Returns (s, tr)"
| "ad_loop_step env (Receive_Error e) s tr =
     Returns (s\<lparr>ad_RunStatus := APP_ERROR\<rparr>, sys_log (ad_event RCV_MSG_ERR_EID EVS_ERROR tr))"
| "ad_loop_step env Shutdown s tr = Returns (s, tr)"

definition ADCSMC_appMain :: "Env \<Rightarrow> Loop_Input list \<Rightarrow> ADCSMC_AppData \<Rightarrow>
    (ADCSMC_AppData \<times> Trace) run" where
  "ADCSMC_appMain env is s =
     (case ADCSMC_appInit env s [] of (status, s1, tr) \<Rightarrow>
        let s2 = (if status \<noteq> CFE_SUCCESS then s1\<lparr>ad_RunStatus := APP_ERROR\<rparr> else s1)
        in app_run_loop ad_RunStatus (ad_loop_step env) is s2 tr)"

section \<open>The contract holds\<close>

definition ad_is_hk :: "SB_Msg \<Rightarrow> bool" where
  "ad_is_hk m = (m = ADCSMC_SEND_HK_MID)"

definition ad_reply :: "SB_Msg \<Rightarrow> CANIOMC_AdcsTlmPayload option" where
  "ad_reply m = (case m of CANIOMC_ADCS_TLM_MID e \<Rightarrow> Some e | _ \<Rightarrow> None)"

definition ad_alive :: "SB_Msg \<Rightarrow> bool" where
  "ad_alive m = (ad_reply m \<noteq> None)"

lemma ad_hk_step:
  "ad_AdcsMissCount (fst (ADCSMC_appTaskPipe env ADCSMC_SEND_HK_MID s tr)) =
     count_miss (ad_AdcsMissCount s)"
  "ad_Tlm (fst (ADCSMC_appTaskPipe env ADCSMC_SEND_HK_MID s tr)) = ad_Tlm s"
  "sb_sent (snd (ADCSMC_appTaskPipe env ADCSMC_SEND_HK_MID s tr)) = sb_sent tr @
     [can_request CANIOMC_ADCS_ID CANIOMC_ADCS_HK_MSGID, ADCSMC_HK_TLM_MID
        (ad_hk_packet s (if STALE_THRESHOLD \<le> ad_AdcsMissCount s then 1 else 0) (ad_Tlm s))]"
  by (simp_all add: ADCSMC_APP_SEND_HK_TO_SB_def ADCSMC_appPrepareHkPacket_def Let_def
      ADCSMC_APP_SEND_HK_CAN_REQUEST_TO_SB_def env_call_defs count_miss_def)

interpretation adcs: hk_subsystem ADCSMC_appTaskPipe ad_AdcsMissCount ad_Tlm ad_is_hk ad_alive
  ad_reply "can_request CANIOMC_ADCS_ID CANIOMC_ADCS_HK_MSGID"
  "\<lambda>env tr s stale e. ADCSMC_HK_TLM_MID (ad_hk_packet s stale e)"
proof unfold_locales
  fix m env s tr
  assume "ad_is_hk m"
  then show "ad_AdcsMissCount (fst (ADCSMC_appTaskPipe env m s tr)) = count_miss (ad_AdcsMissCount s) \<and>
      ad_Tlm (fst (ADCSMC_appTaskPipe env m s tr)) = ad_Tlm s \<and>
      sb_sent (snd (ADCSMC_appTaskPipe env m s tr)) = sb_sent tr @
        [can_request CANIOMC_ADCS_ID CANIOMC_ADCS_HK_MSGID, ADCSMC_HK_TLM_MID
          (ad_hk_packet s (if STALE_THRESHOLD \<le> ad_AdcsMissCount s then 1 else 0) (ad_Tlm s))]"
    unfolding ad_is_hk_def by (simp only: ad_hk_step)
next
  fix m env s tr
  assume "\<not> ad_is_hk m" "ad_alive m"
  then show "ad_AdcsMissCount (fst (ADCSMC_appTaskPipe env m s tr)) = 0"
    by (cases m) (simp_all add: ad_is_hk_def ad_alive_def ad_reply_def ADCSMC_ProcessAdcsTlm_def)
next
  fix m env s tr
  assume "\<not> ad_is_hk m" "\<not> ad_alive m"
  then show "ad_AdcsMissCount (fst (ADCSMC_appTaskPipe env m s tr)) = ad_AdcsMissCount s"
    by (cases m) (simp_all add: ad_is_hk_def ad_alive_def ad_reply_def)
next
  fix m env s tr
  assume "\<not> ad_is_hk m"
  then show "ad_Tlm (fst (ADCSMC_appTaskPipe env m s tr)) =
      (case ad_reply m of None \<Rightarrow> ad_Tlm s | Some d \<Rightarrow> d)"
    by (cases m) (simp_all add: ad_is_hk_def ad_reply_def ADCSMC_ProcessAdcsTlm_def)
next
  fix m d
  assume "ad_reply m = Some d"
  then show "ad_alive m \<and> \<not> ad_is_hk m"
    by (auto simp: ad_is_hk_def ad_alive_def ad_reply_def split: SB_Msg.splits)
qed

section \<open>Properties\<close>

text \<open>However long the application has run and whatever messages it has handled, the next
  housekeeping request publishes the estimates of the last ADCS reply, flagged stale exactly when at
  least five requests have gone by since the board was last heard (the counter saturates and never
  wraps back to fresh), and asks the board over CAN before it publishes.\<close>

lemma adcs_housekeeping:
  assumes "handle_all (ADCSMC_appTaskPipe env) ms s tr = (s', tr')"
  shows "sb_sent (snd (ADCSMC_appTaskPipe env ADCSMC_SEND_HK_MID s' tr')) = sb_sent tr' @
    [can_request CANIOMC_ADCS_ID CANIOMC_ADCS_HK_MSGID,
     ADCSMC_HK_TLM_MID (ad_hk_packet s'
       (if 5 \<le> hk_since ad_is_hk ad_alive (unat (ad_AdcsMissCount s)) ms then 1 else 0)
       (last_reply ad_reply (ad_Tlm s) ms))]"
  by (rule adcs.stale_packet [OF _ assms]) (simp add: ad_is_hk_def)

definition ad_start :: ADCSMC_AppData where
  "ad_start = \<lparr>ad_HkPacket = adcs_hk_zero, ad_CmdCounter = 0, ad_ErrCounter = 0, ad_AdcsMissCount = 0, ad_Tlm = adcs_zero,
     ad_IsImaging = False, ad_RunStatus = APP_RUN\<rparr>"

end
