(* ===== verification/Digest.thy ===== *)
theory Digest
  imports Prelude
begin

text \<open>
  The interface the file-hashing loops rely on: a context that absorbs data block by block and
  whose result depends only on the bytes absorbed, not on how they were cut into blocks.
\<close>

fun feed_blocks :: "('c \<Rightarrow> u8 list \<Rightarrow> 'c run) \<Rightarrow> 'c \<Rightarrow> u8 list list \<Rightarrow> 'c run" where
  "feed_blocks absorb c [] = Returns c"
| "feed_blocks absorb c (b # bs) = run_bind (absorb c b) (\<lambda>c'. feed_blocks absorb c' bs)"

locale stream_digest =
  fixes init :: 'c
    and absorb :: "'c \<Rightarrow> u8 list \<Rightarrow> 'c run"
    and close :: "'c \<Rightarrow> 'd run"
    and digest :: "u8 list \<Rightarrow> 'd"
    and absorbed :: "'c \<Rightarrow> u8 list \<Rightarrow> bool"
  assumes init_absorbed: "absorbed init []"
    and absorb_step: "absorbed c xs \<Longrightarrow> \<exists>c'. absorb c d = Returns c' \<and> absorbed c' (xs @ d)"
    and close_digest: "absorbed c xs \<Longrightarrow> close c = Returns (digest xs)"
begin

lemma feed_absorbed:
  "absorbed c xs \<Longrightarrow> \<exists>c'. feed_blocks absorb c bs = Returns c' \<and> absorbed c' (xs @ concat bs)"
proof (induction bs arbitrary: c xs)
  case Nil
  then show ?case by simp
next
  case (Cons b bs)
  from absorb_step [OF Cons.prems, of b] obtain c1 where
    c1: "absorb c b = Returns c1" "absorbed c1 (xs @ b)" by blast
  with Cons.IH [OF c1(2)] show ?case by simp
qed

lemma blocks_digest:
  "run_bind (feed_blocks absorb init bs) close = Returns (digest (concat bs))"
  using feed_absorbed [OF init_absorbed, of bs] close_digest by auto

end

end
