(* ===== verification/Crc32.thy ===== *)
theory Crc32
  imports Digest
begin

text \<open>
  The CRC-32 of \<open>crc-32.c\<close>: the table the first \<open>crc32_init\<close> fills, the table-driven loop, and its
  equivalence with the bit-by-bit division it stands for. The static table is represented by its
  value after initialisation; every context is opened with \<open>crc32_init\<close>, which guarantees it.
\<close>

section \<open>Code\<close>

definition CRC32_POLY :: u32 where
  "CRC32_POLY = 0xEDB88320"

definition crc32_shift :: "u32 \<Rightarrow> u32" where
  "crc32_shift c = (if c AND 1 \<noteq> 0 then CRC32_POLY XOR drop_bit 1 c else drop_bit 1 c)"

definition crc32_entry :: "u32 \<Rightarrow> u32" where
  "crc32_entry i = (crc32_shift ^^ 8) i"

definition crc32_table :: "u32 list" where
  "crc32_table = map (\<lambda>i. crc32_entry (of_nat i)) [0..<256]"

definition crc32_init :: u32 where
  "crc32_init = 0xFFFFFFFF"

fun crc32_write :: "u32 \<Rightarrow> u8 list \<Rightarrow> u32" where
  "crc32_write c [] = c"
| "crc32_write c (b # bs) =
     crc32_write (crc32_table ! unat ((c XOR ucast b) AND 0xFF) XOR drop_bit 8 c) bs"

definition crc32_close :: "u32 \<Rightarrow> u32" where
  "crc32_close c = NOT c"

text \<open>\<open>compute_crc32\<close> of \<open>commMC_app_utils.c\<close>; a \<open>NULL\<close> argument gives the error.\<close>

definition compute_crc32 :: "u8 list option \<Rightarrow> CFE_Status \<times> u32 option" where
  "compute_crc32 data =
     (case data of None \<Rightarrow> (CFE_SEVERITY_ERROR, None)
      | Some d \<Rightarrow> (CFE_SUCCESS, Some (crc32_close (crc32_write crc32_init d))))"

section \<open>Reference\<close>

text \<open>Division by the reflected polynomial, one bit at a time.\<close>

definition crc32_byte :: "u32 \<Rightarrow> u8 \<Rightarrow> u32" where
  "crc32_byte c b = (crc32_shift ^^ 8) (c XOR ucast b)"

definition crc32_of :: "u8 list \<Rightarrow> u32" where
  "crc32_of bs = NOT (foldl crc32_byte 0xFFFFFFFF bs)"

lemma and_1_bit: "(c :: u32) AND 1 \<noteq> 0 \<longleftrightarrow> bit c 0"
  by (simp add: and_one_eq odd_iff_mod_2_eq_one bit_0 flip: odd_iff_mod_2_eq_one)

lemma crc32_shift_cases:
  "bit c 0 \<Longrightarrow> crc32_shift c = CRC32_POLY XOR drop_bit 1 c"
  "\<not> bit c 0 \<Longrightarrow> crc32_shift c = drop_bit 1 c"
  by (simp_all only: crc32_shift_def and_1_bit if_True if_False)

lemma xor_cancel:
  fixes a b c :: "'a::len word"
  shows "a XOR b = a XOR c \<longleftrightarrow> b = c" and "b XOR a = c XOR a \<longleftrightarrow> b = c"
proof -
  show l: "a XOR b = a XOR c \<longleftrightarrow> b = c"
  proof
    assume "a XOR b = a XOR c"
    then have "a XOR (a XOR b) = a XOR (a XOR c)" by simp
    then show "b = c" by (simp flip: xor.assoc)
  qed simp
  show "b XOR a = c XOR a \<longleftrightarrow> b = c" using l by (simp add: xor.commute)
qed

lemma crc32_shift_xor: "crc32_shift (x XOR y) = crc32_shift x XOR crc32_shift y"
proof -
  have d: "drop_bit 1 (x XOR y) = drop_bit 1 x XOR drop_bit 1 y"
    by (rule bit_word_eqI) (simp add: bit_simps)
  show ?thesis
    unfolding crc32_shift_def and_1_bit d
    by (cases "bit x 0"; cases "bit y 0") (simp_all add: bit_simps xor.assoc xor.left_commute)
qed

lemma crc32_shifts_xor: "(crc32_shift ^^ n) (x XOR y) = (crc32_shift ^^ n) x XOR (crc32_shift ^^ n) y"
  by (induction n) (simp_all add: crc32_shift_xor)

lemma crc32_shifts_high:
  "(\<And>i. i < n \<Longrightarrow> \<not> bit x i) \<Longrightarrow> (crc32_shift ^^ n) x = drop_bit n x"
proof (induction n)
  case 0
  then show ?case by simp
next
  case (Suc n)
  then have "(crc32_shift ^^ n) x = drop_bit n x" by simp
  have "\<not> bit (drop_bit n x) 0" using Suc.prems [of n] by (simp add: bit_simps)
  then have "crc32_shift (drop_bit n x) = drop_bit 1 (drop_bit n x)"
    by (rule crc32_shift_cases)
  moreover have "drop_bit 1 (drop_bit n x) = drop_bit (Suc n) x" by simp
  ultimately show ?case using \<open>(crc32_shift ^^ n) x = drop_bit n x\<close> by simp
qed

lemma crc32_table_nth: "crc32_table ! unat (x AND 0xFF) = crc32_entry (x AND 0xFF)"
proof -
  have "unat (x AND 0xFF) < 256"
    using word_and_le1 [of x "0xFF"] by (simp add: word_le_nat_alt)
  then show ?thesis by (simp add: crc32_table_def)
qed

lemma crc32_table_step:
  "crc32_table ! unat ((c XOR ucast b) AND 0xFF) XOR drop_bit 8 c = crc32_byte c b"
proof -
  let ?x = "c XOR ucast b"
  have m: "(0xFF :: u32) = mask 8" by (simp add: mask_eq_exp_minus_1)
  have split: "?x = (?x AND 0xFF) XOR (?x AND NOT (mask 8))"
    unfolding m by (rule bit_word_eqI) (auto simp: bit_simps)
  have "(crc32_shift ^^ 8) (?x AND NOT (mask 8)) = drop_bit 8 (?x AND NOT (mask 8))"
    by (rule crc32_shifts_high) (simp add: bit_simps)
  also have "\<dots> = drop_bit 8 c"
  proof -
    have "\<not> bit b (8 + n)" "bit c (8 + n) \<Longrightarrow> n < 24" for n
      using bit_imp_le_length [of b "8 + n"] bit_imp_le_length [of c "8 + n"] by auto
    then show ?thesis by (intro bit_word_eqI) (auto simp: bit_simps)
  qed
  finally have "(crc32_shift ^^ 8) ?x = crc32_entry (?x AND 0xFF) XOR drop_bit 8 c"
    by (subst split) (simp only: crc32_shifts_xor crc32_entry_def)
  then show ?thesis by (simp only: crc32_table_nth crc32_byte_def)
qed

lemma crc32_write_foldl: "crc32_write c bs = foldl crc32_byte c bs"
  by (induction bs arbitrary: c) (simp_all only: crc32_write.simps foldl.simps crc32_table_step)

section \<open>A changed byte changes the code\<close>

lemma crc32_shift_bit31: "bit (crc32_shift c) 31 = bit c 0"
proof -
  have "\<not> bit c 32" using bit_imp_le_length [of c 32] by auto
  then show ?thesis by (cases "bit c 0") (simp_all add: crc32_shift_cases bit_simps CRC32_POLY_def)
qed

lemma crc32_shift_inj:
  assumes "crc32_shift x = crc32_shift y"
  shows "x = y"
proof -
  from assms have b: "bit x 0 = bit y 0" by (metis crc32_shift_bit31)
  with assms have d: "drop_bit 1 x = drop_bit 1 y"
    by (cases "bit x 0") (simp_all add: crc32_shift_cases xor_cancel)
  show ?thesis
  proof (rule bit_word_eqI)
    fix n
    show "bit x n = bit y n"
    proof (cases n)
      case 0
      with b show ?thesis by simp
    next
      case (Suc m)
      from d have "bit (drop_bit 1 x) m = bit (drop_bit 1 y) m" by simp
      with Suc show ?thesis by (simp add: bit_drop_bit_eq)
    qed
  qed
qed

lemma crc32_shifts_inj: "(crc32_shift ^^ n) x = (crc32_shift ^^ n) y \<Longrightarrow> x = y"
proof (induction n)
  case 0
  then show ?case by simp
next
  case (Suc n)
  then have "crc32_shift ((crc32_shift ^^ n) x) = crc32_shift ((crc32_shift ^^ n) y)" by simp
  then have "(crc32_shift ^^ n) x = (crc32_shift ^^ n) y" by (rule crc32_shift_inj)
  then show ?case by (rule Suc.IH)
qed

lemma crc32_byte_inj_state: "crc32_byte c b = crc32_byte d b \<Longrightarrow> c = d"
  unfolding crc32_byte_def by (drule crc32_shifts_inj) (simp only: xor_cancel)

lemma crc32_byte_inj_data:
  assumes "crc32_byte c a = crc32_byte c b"
  shows "a = b"
proof -
  have "c XOR ucast a = c XOR ucast b"
    using assms unfolding crc32_byte_def by (rule crc32_shifts_inj)
  then have e: "(ucast a :: u32) = ucast b" by (simp only: xor_cancel)
  show ?thesis
  proof (rule bit_word_eqI)
    fix n
    assume "n < LENGTH(8)"
    moreover have "bit (ucast a :: u32) n = bit (ucast b :: u32) n" by (simp only: e)
    ultimately show "bit a n = bit b n" by (simp add: bit_simps)
  qed
qed

lemma crc32_foldl_inj: "foldl crc32_byte c bs = foldl crc32_byte d bs \<Longrightarrow> c = d"
  by (induction bs arbitrary: c d) (auto dest: crc32_byte_inj_state)

section \<open>Properties\<close>

lemma feed_crc:
  "feed_blocks (\<lambda>c d. Returns (crc32_write c d)) c ps = Returns (foldl crc32_write c ps)"
  by (induction ps arbitrary: c) simp_all

interpretation crc: stream_digest crc32_init "\<lambda>c d. Returns (crc32_write c d)"
  "\<lambda>c. Returns (crc32_close c)" crc32_of "\<lambda>c xs. c = foldl crc32_byte 0xFFFFFFFF xs"
  by unfold_locales
    (simp_all add: crc32_write_foldl crc32_init_def crc32_close_def crc32_of_def)

text \<open>C26. The table-driven CRC equals bit-by-bit division by the reflected polynomial 0xEDB88320, and
  it is incremental: feeding a file in any pieces gives the CRC of the whole.\<close>

theorem crc32_table_equals_bitwise:
  "crc32_close (foldl crc32_write crc32_init pieces) = crc32_of (concat pieces)"
  using crc.blocks_digest [of pieces] by (simp add: feed_crc)

text \<open>Two files that differ in one byte never have the same CRC.\<close>

theorem crc32_detects_changed_byte:
  assumes "a \<noteq> b"
  shows "crc32_close (crc32_write crc32_init (pre @ [a] @ post)) \<noteq>
    crc32_close (crc32_write crc32_init (pre @ [b] @ post))"
proof
  assume "crc32_close (crc32_write crc32_init (pre @ [a] @ post)) =
    crc32_close (crc32_write crc32_init (pre @ [b] @ post))"
  then have "crc32_write crc32_init (pre @ [a] @ post) = crc32_write crc32_init (pre @ [b] @ post)"
    unfolding crc32_close_def by simp
  then have "foldl crc32_byte (crc32_byte (foldl crc32_byte crc32_init pre) a) post =
      foldl crc32_byte (crc32_byte (foldl crc32_byte crc32_init pre) b) post"
    by (simp only: crc32_write_foldl foldl_append foldl.simps)
  then have "crc32_byte (foldl crc32_byte crc32_init pre) a =
      crc32_byte (foldl crc32_byte crc32_init pre) b"
    by (rule crc32_foldl_inj)
  then have "a = b" by (rule crc32_byte_inj_data)
  with assms show False by simp
qed

theorem crc32_detects_changed_byte_witness:
  "crc32_close (crc32_write crc32_init ([1, 2] @ [7] @ [3])) \<noteq>
   crc32_close (crc32_write crc32_init ([1, 2] @ [8] @ [3]))"
  by (rule crc32_detects_changed_byte) simp

lemma funpow_8: "(f ^^ 8) x = f (f (f (f (f (f (f (f x)))))))"
  by (simp add: eval_nat_numeral)

text \<open>The usual check value: the CRC of the digits 1 to 9.\<close>

lemma crc32_check_value: "crc32_of [49, 50, 51, 52, 53, 54, 55, 56, 57] = 0xCBF43926"
  by (simp add: crc32_of_def crc32_byte_def funpow_8) (simp add: crc32_shift_def CRC32_POLY_def)

end
