(* ===== verification/Sha256.thy ===== *)
theory Sha256
  imports Digest
begin

text \<open>
  The SHA-256 of \<open>sha-256.c\<close>: the compression of a 64-byte chunk with its rolling 16-word schedule,
  the buffered streaming interface and the padding, against the standard's definition with the
  full 64-word schedule over the padded message.
\<close>

section \<open>Code\<close>

definition SIZE_OF_SHA_256_CHUNK :: nat where
  "SIZE_OF_SHA_256_CHUNK = 64"

definition TOTAL_LEN_LEN :: nat where
  "TOTAL_LEN_LEN = 8"

record Sha_256 =
  sha_chunk :: "u8 list"
  sha_chunk_pos :: nat
  sha_space_left :: nat
  sha_total_len :: u64
  sha_h :: "u32 list"

definition right_rot :: "u32 \<Rightarrow> nat \<Rightarrow> u32" where
  "right_rot value count = drop_bit count value OR push_bit (32 - count) value"

definition sha_k :: "u32 list" where
  "sha_k = concat [
    [0x428a2f98, 0x71374491, 0xb5c0fbcf, 0xe9b5dba5],
    [0x3956c25b, 0x59f111f1, 0x923f82a4, 0xab1c5ed5],
    [0xd807aa98, 0x12835b01, 0x243185be, 0x550c7dc3],
    [0x72be5d74, 0x80deb1fe, 0x9bdc06a7, 0xc19bf174],
    [0xe49b69c1, 0xefbe4786, 0x0fc19dc6, 0x240ca1cc],
    [0x2de92c6f, 0x4a7484aa, 0x5cb0a9dc, 0x76f988da],
    [0x983e5152, 0xa831c66d, 0xb00327c8, 0xbf597fc7],
    [0xc6e00bf3, 0xd5a79147, 0x06ca6351, 0x14292967],
    [0x27b70a85, 0x2e1b2138, 0x4d2c6dfc, 0x53380d13],
    [0x650a7354, 0x766a0abb, 0x81c2c92e, 0x92722c85],
    [0xa2bfe8a1, 0xa81a664b, 0xc24b8b70, 0xc76c51a3],
    [0xd192e819, 0xd6990624, 0xf40e3585, 0x106aa070],
    [0x19a4c116, 0x1e376c08, 0x2748774c, 0x34b0bcb5],
    [0x391c0cb3, 0x4ed8aa4a, 0x5b9cca4f, 0x682e6ff3],
    [0x748f82ee, 0x78a5636f, 0x84c87814, 0x8cc70208],
    [0x90befffa, 0xa4506ceb, 0xbef9a3f7, 0xc67178f2]]"

text \<open>The word schedule: the first pass reads the chunk, the others update the window in place.\<close>

definition sha_word :: "u8 list \<Rightarrow> nat \<Rightarrow> u32" where
  "sha_word p j = push_bit 24 (ucast (p ! (4 * j))) OR push_bit 16 (ucast (p ! (4 * j + 1))) OR
     push_bit 8 (ucast (p ! (4 * j + 2))) OR ucast (p ! (4 * j + 3))"

definition sha_small0 :: "u32 \<Rightarrow> u32" where
  "sha_small0 x = right_rot x 7 XOR right_rot x 18 XOR drop_bit 3 x"

definition sha_small1 :: "u32 \<Rightarrow> u32" where
  "sha_small1 x = right_rot x 17 XOR right_rot x 19 XOR drop_bit 10 x"

definition sha_window :: "u8 list \<Rightarrow> nat \<Rightarrow> nat \<Rightarrow> u32 list \<Rightarrow> u32 list" where
  "sha_window p i j w =
     (if i = 0 then w[j := sha_word p j]
      else w[j := w ! j + sha_small0 (w ! ((j + 1) mod 16)) + w ! ((j + 9) mod 16) +
                  sha_small1 (w ! ((j + 14) mod 16))])"

definition sha_round :: "u32 \<Rightarrow> u32 \<Rightarrow> u32 list \<Rightarrow> u32 list" where
  "sha_round k w ah =
     (let s1 = right_rot (ah ! 4) 6 XOR right_rot (ah ! 4) 11 XOR right_rot (ah ! 4) 25;
          ch = (ah ! 4 AND ah ! 5) XOR (NOT (ah ! 4) AND ah ! 6);
          temp1 = ah ! 7 + s1 + ch + k + w;
          s0 = right_rot (ah ! 0) 2 XOR right_rot (ah ! 0) 13 XOR right_rot (ah ! 0) 22;
          maj = (ah ! 0 AND ah ! 1) XOR (ah ! 0 AND ah ! 2) XOR (ah ! 1 AND ah ! 2);
          temp2 = s0 + maj
      in [temp1 + temp2, ah ! 0, ah ! 1, ah ! 2, ah ! 3 + temp1, ah ! 4, ah ! 5, ah ! 6])"

definition sha_loop_body :: "u8 list \<Rightarrow> u32 list \<times> u32 list \<Rightarrow> nat \<times> nat \<Rightarrow> u32 list \<times> u32 list" where
  "sha_loop_body p st ij =
     (case ij of (i, j) \<Rightarrow> case st of (w, ah) \<Rightarrow>
        let w' = sha_window p i j w in (w', sha_round (sha_k ! (16 * i + j)) (w' ! j) ah))"

definition consume_chunk :: "u32 list \<Rightarrow> u8 list \<Rightarrow> u32 list" where
  "consume_chunk h p =
     map2 (+) h (snd (foldl (sha_loop_body p) (replicate 16 0, h)
       (List.product [0..<4] [0..<16])))"

definition sha_256_init :: "Sha_256 \<Rightarrow> Sha_256" where
  "sha_256_init s = s\<lparr>sha_chunk_pos := 0, sha_space_left := SIZE_OF_SHA_256_CHUNK,
     sha_total_len := 0, sha_h := [0x6a09e667, 0xbb67ae85, 0x3c6ef372, 0xa54ff53a, 0x510e527f,
       0x9b05688c, 0x1f83d9ab, 0x5be0cd19]\<rparr>"

function sha_write_loop :: "Sha_256 \<Rightarrow> u8 list \<Rightarrow> Sha_256 run" where
  "sha_write_loop s d =
     (if d = [] then Returns s
      else if sha_space_left s = SIZE_OF_SHA_256_CHUNK \<and> SIZE_OF_SHA_256_CHUNK \<le> length d
      then sha_write_loop (s\<lparr>sha_h := consume_chunk (sha_h s) (take SIZE_OF_SHA_256_CHUNK d)\<rparr>)
             (drop SIZE_OF_SHA_256_CHUNK d)
      else
        let n = (if length d < sha_space_left s then length d else sha_space_left s) in
        case mem_write (sha_chunk s) (sha_chunk_pos s) (take n d) of
          None \<Rightarrow> OutOfBounds
        | Some c \<Rightarrow>
            let s1 = s\<lparr>sha_chunk := c, sha_space_left := sha_space_left s - n\<rparr> in
            if sha_space_left s1 = 0
            then sha_write_loop (s1\<lparr>sha_h := consume_chunk (sha_h s1) c, sha_chunk_pos := 0,
                   sha_space_left := SIZE_OF_SHA_256_CHUNK\<rparr>) (drop n d)
            else sha_write_loop (s1\<lparr>sha_chunk_pos := sha_chunk_pos s + n\<rparr>) (drop n d))"
  by pat_completeness auto
termination sha_write_loop
  by (relation "measure (\<lambda>(s, d). 2 * length d + (if sha_space_left s = 0 then 1 else 0))")
    (auto simp: SIZE_OF_SHA_256_CHUNK_def)

declare sha_write_loop.simps [simp del]

definition sha_256_write :: "Sha_256 \<Rightarrow> u8 list \<Rightarrow> Sha_256 run" where
  "sha_256_write s d =
     sha_write_loop (s\<lparr>sha_total_len := sha_total_len s + of_nat (length d)\<rparr>) d"

definition sha_store :: "Sha_256 \<Rightarrow> nat \<Rightarrow> u8 list \<Rightarrow> Sha_256 run" where
  "sha_store s pos bs =
     (case mem_write (sha_chunk s) pos bs of None \<Rightarrow> OutOfBounds
      | Some c \<Rightarrow> Returns (s\<lparr>sha_chunk := c\<rparr>))"

text \<open>The eight length bytes, from the last to the first.\<close>

definition sha_len_bytes :: "u64 \<Rightarrow> u8 list" where
  "sha_len_bytes len =
     rev (ucast (push_bit 3 len) # map (\<lambda>i. ucast (drop_bit (8 * i) (drop_bit 5 len))) [0..<7])"

definition sha_finish :: "Sha_256 \<Rightarrow> nat \<Rightarrow> nat \<Rightarrow> u8 list run" where
  "sha_finish s pos space_left =
     (let left = space_left - TOTAL_LEN_LEN in
      run_bind (sha_store s pos (zeros left)) (\<lambda>s1.
      run_bind (sha_store s1 (pos + left) (sha_len_bytes (sha_total_len s1))) (\<lambda>s2.
      Returns (concat (map be32 (consume_chunk (sha_h s2) (sha_chunk s2)))))))"

definition sha_256_close :: "Sha_256 \<Rightarrow> u8 list run" where
  "sha_256_close s =
     (if sha_space_left s = 0 then OutOfBounds
      else run_bind (sha_store s (sha_chunk_pos s) [0x80]) (\<lambda>s1.
        let pos = sha_chunk_pos s + 1; space_left = sha_space_left s - 1 in
        if space_left < TOTAL_LEN_LEN
        then run_bind (sha_store s1 pos (zeros space_left)) (\<lambda>s2.
               sha_finish (s2\<lparr>sha_h := consume_chunk (sha_h s2) (sha_chunk s2)\<rparr>) 0
                 SIZE_OF_SHA_256_CHUNK)
        else sha_finish s1 pos space_left))"

definition calc_sha_256 :: "Sha_256 \<Rightarrow> u8 list \<Rightarrow> u8 list run" where
  "calc_sha_256 s input = run_bind (sha_256_write (sha_256_init s) input) sha_256_close"

section \<open>The standard\<close>

fun sha_schedule :: "u8 list \<Rightarrow> nat \<Rightarrow> u32" where
  "sha_schedule p t =
     (if t < 16 then sha_word p t
      else sha_small1 (sha_schedule p (t - 2)) + sha_schedule p (t - 7) +
           sha_small0 (sha_schedule p (t - 15)) + sha_schedule p (t - 16))"

declare sha_schedule.simps [simp del]

definition sha_compress :: "u32 list \<Rightarrow> u8 list \<Rightarrow> u32 list" where
  "sha_compress h p =
     map2 (+) h (foldl (\<lambda>ah t. sha_round (sha_k ! t) (sha_schedule p t) ah) h [0..<64])"

definition sha_initial :: "u32 list" where
  "sha_initial = [0x6a09e667, 0xbb67ae85, 0x3c6ef372, 0xa54ff53a, 0x510e527f, 0x9b05688c,
     0x1f83d9ab, 0x5be0cd19]"

text \<open>A one-bit, zeros up to a multiple of 64 bytes less eight, and the length in bits.\<close>

definition sha_pad :: "u8 list \<Rightarrow> u8 list" where
  "sha_pad xs = xs @ [0x80] @ zeros ((119 - length xs mod 64) mod 64) @
     be64 (of_nat (8 * length xs))"

definition sha256_of :: "u8 list \<Rightarrow> u8 list" where
  "sha256_of xs = concat (map be32 (foldl sha_compress sha_initial (chunks 64 (sha_pad xs))))"

section \<open>The rolling window is the full schedule\<close>

definition window_holds :: "u8 list \<Rightarrow> nat \<Rightarrow> u32 list \<Rightarrow> bool" where
  "window_holds p n w \<longleftrightarrow> length w = 16 \<and>
     (\<forall>m. m < n \<longrightarrow> n \<le> m + 16 \<longrightarrow> w ! (m mod 16) = sha_schedule p m)"

lemma window_lookup:
  "window_holds p n w \<Longrightarrow> m < n \<Longrightarrow> n \<le> m + 16 \<Longrightarrow> k = m mod 16 \<Longrightarrow> w ! k = sha_schedule p m"
  by (simp add: window_holds_def)

lemma window_value:
  assumes w: "window_holds p n w" and n: "n = 16 * i + j" "j < 16"
  shows "sha_window p i j w = w[j := sha_schedule p n]"
proof (cases "i = 0")
  case True
  with n show ?thesis by (simp add: sha_window_def sha_schedule.simps [of p j])
next
  case False
  then have 16: "16 \<le> n" using n by simp
  obtain i' where "i = Suc i'" using False by (cases i) auto
  then have "n - 16 = j + 16 * i'" "n - 15 = j + 1 + 16 * i'" "n - 7 = j + 9 + 16 * i'"
    "n - 2 = j + 14 + 16 * i'"
    using n by simp_all
  then have idx: "(j + 1) mod 16 = (n - 15) mod 16" "(j + 9) mod 16 = (n - 7) mod 16"
    "(j + 14) mod 16 = (n - 2) mod 16" "j mod 16 = (n - 16) mod 16"
    by (simp_all only: mod_mult_self2)
  have old: "w ! j = sha_schedule p (n - 16)"
    using 16 n(2) idx(4) by (intro window_lookup [OF w]) simp_all
  have "w ! ((j + 1) mod 16) = sha_schedule p (n - 15)"
    "w ! ((j + 9) mod 16) = sha_schedule p (n - 7)"
    "w ! ((j + 14) mod 16) = sha_schedule p (n - 2)"
    using 16 window_lookup [OF w, of "n - 15"] window_lookup [OF w, of "n - 7"]
      window_lookup [OF w, of "n - 2"] by (simp_all only: idx)
  with old False 16 show ?thesis
    by (simp add: sha_window_def sha_schedule.simps [of p n] algebra_simps)
qed

lemma mod_16_apart: "m < n \<Longrightarrow> n < m + 16 \<Longrightarrow> m mod 16 \<noteq> (n :: nat) mod 16"
  using mod_eq_dvd_iff_nat [of m n 16] nat_dvd_not_less [of "n - m" 16] by auto

lemma window_step:
  assumes w: "window_holds p n w" and n: "n = 16 * i + j" "j < 16"
  shows "window_holds p (Suc n) (sha_window p i j w) \<and> sha_window p i j w ! j = sha_schedule p n"
proof -
  have len: "length w = 16" using w by (simp add: window_holds_def)
  have "w[j := sha_schedule p n] ! (m mod 16) = sha_schedule p m"
    if "m < Suc n" "Suc n \<le> m + 16" for m
  proof (cases "m = n")
    case True
    with n len show ?thesis by simp
  next
    case False
    with that have m: "m < n" "n < m + 16" by simp_all
    have "m mod 16 \<noteq> j" using mod_16_apart [OF m] n by simp
    with m w show ?thesis by (simp add: window_holds_def)
  qed
  then show ?thesis
    using window_value [OF assms] len n(2) by (simp add: window_holds_def)
qed

lemma product_rows:
  "List.product [0..<a] [0..<16] = map (\<lambda>n. (n div 16, n mod 16)) [0..<16 * a]"
proof (induction a)
  case 0
  then show ?case by simp
next
  case (Suc a)
  have "[0..<16 * Suc a] = [0..<16 * a] @ [16 * a..<16 * a + 16]"
    by (metis mult_Suc_right add.commute upt_add_eq_append zero_le)
  moreover have "map (\<lambda>n. (n div 16, n mod 16)) [16 * a..<16 * a + 16] =
      map (\<lambda>j. (a, j)) [0..<16 :: nat]"
    by (rule nth_equalityI) auto
  moreover have "List.product ([0..<a] @ [a]) [0..<16] =
      List.product [0..<a] [0..<16] @ map (\<lambda>j. (a, j)) [0..<16 :: nat]"
    by (induction "[0..<a]" arbitrary: a) (auto simp: product_concat_map)
  ultimately show ?case using Suc.IH by simp
qed

lemma sha_loop_body_step:
  "sha_loop_body p (w, ah) (i, j) =
     (sha_window p i j w, sha_round (sha_k ! (16 * i + j)) (sha_window p i j w ! j) ah)"
  by (simp add: sha_loop_body_def Let_def)

lemma sha_loop:
  "n \<le> 64 \<Longrightarrow> \<exists>w. foldl (sha_loop_body p) (replicate 16 0, h)
      (map (\<lambda>n. (n div 16, n mod 16)) [0..<n]) =
      (w, foldl (\<lambda>ah t. sha_round (sha_k ! t) (sha_schedule p t) ah) h [0..<n]) \<and>
     window_holds p n w"
proof (induction n)
  case 0
  then show ?case by (simp add: window_holds_def)
next
  case (Suc n)
  then obtain w where w: "foldl (sha_loop_body p) (replicate 16 0, h)
      (map (\<lambda>n. (n div 16, n mod 16)) [0..<n]) =
      (w, foldl (\<lambda>ah t. sha_round (sha_k ! t) (sha_schedule p t) ah) h [0..<n])"
    "window_holds p n w" by auto
  have n: "n = 16 * (n div 16) + n mod 16" "n mod 16 < 16" by simp_all
  from window_step [OF w(2) n] w(1) show ?case by (simp add: sha_loop_body_step)
qed

lemma consume_chunk_standard: "consume_chunk h p = sha_compress h p"
proof -
  obtain w where "foldl (sha_loop_body p) (replicate 16 0, h)
      (map (\<lambda>n. (n div 16, n mod 16)) [0..<64]) =
      (w, foldl (\<lambda>ah t. sha_round (sha_k ! t) (sha_schedule p t) ah) h [0..<64])"
    using sha_loop [of 64 p h] by auto
  then show ?thesis
    unfolding consume_chunk_def sha_compress_def product_rows by simp
qed

section \<open>Streaming is hashing the whole message\<close>

lemma chunks_append_blocks:
  "0 < n \<Longrightarrow> length xs = n * k \<Longrightarrow> chunks n (xs @ ys) = chunks n xs @ chunks n ys"
proof (induction k arbitrary: xs)
  case 0
  then show ?case by simp
next
  case (Suc k)
  let ?x = "take n xs" and ?r = "drop n xs"
  have "length ?x = n" "length ?r = n * k" using Suc.prems by simp_all
  with Suc.IH [of ?r] Suc.prems(1) chunks_append_full [of n ?x "?r @ ys"]
    chunks_append_full [of n ?x ?r]
  show ?case by (metis append.assoc append_Cons append_take_drop_id)
qed

lemma chunks_single: "0 < n \<Longrightarrow> length xs = n \<Longrightarrow> chunks n xs = [xs]"
  using chunks_append_full [of n xs "[]"] by simp

definition sha_hash_of :: "u8 list \<Rightarrow> u32 list" where
  "sha_hash_of bs = foldl sha_compress sha_initial (chunks 64 bs)"

lemma sha_hash_of_block:
  "length bs = 64 * k \<Longrightarrow> length c = 64 \<Longrightarrow>
   consume_chunk (sha_hash_of bs) c = sha_hash_of (bs @ c)"
  by (simp add: sha_hash_of_def chunks_append_blocks chunks_single consume_chunk_standard)

text \<open>The data absorbed are whole blocks, already hashed, and a rest waiting in the buffer.\<close>

definition sha_buffered :: "Sha_256 \<Rightarrow> u8 list \<Rightarrow> bool" where
  "sha_buffered s xs \<longleftrightarrow> (\<exists>bs k rest. xs = bs @ rest \<and> length bs = 64 * k \<and>
     sha_h s = sha_hash_of bs \<and> length rest < 64 \<and> sha_chunk_pos s = length rest \<and>
     sha_space_left s = 64 - length rest \<and> length (sha_chunk s) = 64 \<and>
     take (length rest) (sha_chunk s) = rest)"

definition sha_absorbed :: "Sha_256 \<Rightarrow> u8 list \<Rightarrow> bool" where
  "sha_absorbed s xs \<longleftrightarrow> sha_buffered s xs \<and> sha_total_len s = of_nat (length xs)"

lemma sha_buffered_init:
  "length (sha_chunk s) = 64 \<Longrightarrow> sha_absorbed (sha_256_init s) []"
  by (auto simp: sha_absorbed_def sha_buffered_def sha_256_init_def SIZE_OF_SHA_256_CHUNK_def
      sha_hash_of_def sha_initial_def intro!: exI [of _ "[]"])

lemma mem_write_at_end:
  assumes "take (length pre) buf = pre" "length pre + length src \<le> length buf"
  shows "mem_write buf (length pre) src =
    Some (pre @ src @ drop (length pre + length src) buf)"
  using assms by (simp add: mem_write_def)

lemma sha_loop_direct:
  assumes "sha_buffered s xs" "sha_space_left s = 64" "64 \<le> length d"
  shows "sha_buffered (s\<lparr>sha_h := consume_chunk (sha_h s) (take 64 d)\<rparr>) (xs @ take 64 d)"
proof -
  from assms(1) obtain bs k rest where r: "xs = bs @ rest" "length bs = 64 * k"
    "sha_h s = sha_hash_of bs" "length rest < 64" "sha_chunk_pos s = length rest"
    "sha_space_left s = 64 - length rest" "length (sha_chunk s) = 64"
    unfolding sha_buffered_def by blast
  with assms(2) have "rest = []" by (cases rest) auto
  with r have *: "xs = bs" "length bs = 64 * k" "sha_h s = sha_hash_of bs"
    "sha_chunk_pos s = 0" "length (sha_chunk s) = 64" by simp_all
  with assms have "consume_chunk (sha_h s) (take 64 d) = sha_hash_of (xs @ take 64 d)"
    by (simp add: sha_hash_of_block)
  with * assms show ?thesis unfolding sha_buffered_def
    by (intro exI [of _ "xs @ take 64 d"] exI [of _ "Suc k"] exI [of _ "[]"]) simp
qed

lemma sha_loop_copy:
  assumes s: "sha_buffered s xs" and n: "n \<le> length d" "n \<le> sha_space_left s"
  shows "\<exists>c. mem_write (sha_chunk s) (sha_chunk_pos s) (take n d) = Some c \<and>
    (n = sha_space_left s \<longrightarrow> sha_buffered (s\<lparr>sha_chunk := c,
       sha_h := consume_chunk (sha_h s) c, sha_chunk_pos := 0, sha_space_left := 64\<rparr>) (xs @ take n d)) \<and>
    (n < sha_space_left s \<longrightarrow> sha_buffered (s\<lparr>sha_chunk := c,
       sha_space_left := sha_space_left s - n, sha_chunk_pos := sha_chunk_pos s + n\<rparr>)
       (xs @ take n d))"
proof -
  from s obtain bs k rest where *: "xs = bs @ rest" "length bs = 64 * k"
    "sha_h s = sha_hash_of bs" "length rest < 64" "sha_chunk_pos s = length rest"
    "sha_space_left s = 64 - length rest" "length (sha_chunk s) = 64"
    "take (length rest) (sha_chunk s) = rest"
    unfolding sha_buffered_def by blast
  let ?c = "rest @ take n d @ drop (length rest + n) (sha_chunk s)"
  have w: "mem_write (sha_chunk s) (sha_chunk_pos s) (take n d) = Some ?c"
    using mem_write_at_end [of rest "sha_chunk s" "take n d"] * n by simp
  have full: "sha_buffered (s\<lparr>sha_chunk := ?c,
       sha_h := consume_chunk (sha_h s) ?c, sha_chunk_pos := 0, sha_space_left := 64\<rparr>) (xs @ take n d)"
    if "n = sha_space_left s"
  proof -
    have c: "?c = rest @ take n d" "length ?c = 64" using that * n by simp_all
    then have "consume_chunk (sha_h s) ?c = sha_hash_of (bs @ ?c)"
      using * by (simp add: sha_hash_of_block)
    with c * show ?thesis unfolding sha_buffered_def
      by (intro exI [of _ "bs @ ?c"] exI [of _ "Suc k"] exI [of _ "[]"]) simp
  qed
  have part: "sha_buffered (s\<lparr>sha_chunk := ?c, sha_space_left := sha_space_left s - n,
       sha_chunk_pos := sha_chunk_pos s + n\<rparr>) (xs @ take n d)"
    if "n < sha_space_left s"
    using that * n unfolding sha_buffered_def
    by (intro exI [of _ bs] exI [of _ k] exI [of _ "rest @ take n d"]) simp
  from w full part show ?thesis by blast
qed

lemma sha_write_loop_ok:
  "sha_buffered s xs \<Longrightarrow> \<exists>s'. sha_write_loop s d = Returns s' \<and> sha_buffered s' (xs @ d) \<and>
     sha_total_len s' = sha_total_len s"
proof (induction s d arbitrary: xs rule: sha_write_loop.induct)
  case (1 s d)
  consider "d = []" | "d \<noteq> []" "sha_space_left s = 64" "64 \<le> length d"
    | "d \<noteq> []" "\<not> (sha_space_left s = 64 \<and> 64 \<le> length d)" by blast
  then show ?case
  proof cases
    case 1
    with "1.prems" show ?thesis by (simp add: sha_write_loop.simps)
  next
    case 2
    with "1.IH"(1) sha_loop_direct [OF "1.prems" 2(2,3)] show ?thesis
      by (subst sha_write_loop.simps) (simp add: SIZE_OF_SHA_256_CHUNK_def, metis append.assoc append_take_drop_id)
  next
    case 3
    define n where "n = (if length d < sha_space_left s then length d else sha_space_left s)"
    have n: "n \<le> length d" "n \<le> sha_space_left s" by (simp_all add: n_def)
    from sha_loop_copy [OF "1.prems" n] obtain c where
      c: "mem_write (sha_chunk s) (sha_chunk_pos s) (take n d) = Some c"
      and full: "n = sha_space_left s \<Longrightarrow> sha_buffered (s\<lparr>sha_chunk := c,
       sha_h := consume_chunk (sha_h s) c, sha_chunk_pos := 0, sha_space_left := 64\<rparr>) (xs @ take n d)"
      and part: "n < sha_space_left s \<Longrightarrow> sha_buffered (s\<lparr>sha_chunk := c,
        sha_space_left := sha_space_left s - n, sha_chunk_pos := sha_chunk_pos s + n\<rparr>)
        (xs @ take n d)" by blast
    have small: "\<not> (sha_space_left s = SIZE_OF_SHA_256_CHUNK \<and> SIZE_OF_SHA_256_CHUNK \<le> length d)"
      using 3(2) by (simp add: SIZE_OF_SHA_256_CHUNK_def)
    let ?s1 = "s\<lparr>sha_chunk := c, sha_space_left := sha_space_left s - n\<rparr>"
    show ?thesis
    proof (cases "n = sha_space_left s")
      case True
      let ?s2 = "?s1\<lparr>sha_h := consume_chunk (sha_h ?s1) c, sha_chunk_pos := 0,
        sha_space_left := SIZE_OF_SHA_256_CHUNK\<rparr>"
      have "sha_write_loop s d = sha_write_loop ?s2 (drop n d)"
        using 3(1) small c True by (subst sha_write_loop.simps) (auto simp flip: n_def)
      moreover have "sha_buffered ?s2 (xs @ take n d)"
        using full [OF True] by (simp add: SIZE_OF_SHA_256_CHUNK_def)
      moreover have "sha_space_left ?s1 = 0" using True by simp
      ultimately show ?thesis
        using "1.IH"(2) [OF 3(1) small n_def c refl, of "xs @ take n d"] by simp
    next
      case False
      let ?s2 = "?s1\<lparr>sha_chunk_pos := sha_chunk_pos s + n\<rparr>"
      have "sha_write_loop s d = sha_write_loop ?s2 (drop n d)"
        using 3(1) small c False n by (subst sha_write_loop.simps) (auto simp flip: n_def)
      moreover have "sha_buffered ?s2 (xs @ take n d)" using part False n by simp
      moreover have "sha_space_left ?s1 \<noteq> 0" using False n by simp
      ultimately show ?thesis
        using "1.IH"(3) [OF 3(1) small n_def c refl, of "xs @ take n d"] by simp
    qed
  qed
qed

lemma sha_write_absorbs:
  "sha_absorbed s xs \<Longrightarrow> \<exists>s'. sha_256_write s d = Returns s' \<and> sha_absorbed s' (xs @ d)"
proof -
  assume a: "sha_absorbed s xs"
  let ?s = "s\<lparr>sha_total_len := sha_total_len s + of_nat (length d)\<rparr>"
  have "sha_buffered ?s xs" using a by (simp add: sha_absorbed_def sha_buffered_def)
  from sha_write_loop_ok [OF this, of d] a show ?thesis
    by (auto simp: sha_256_write_def sha_absorbed_def)
qed

lemma sha_store_at:
  assumes "take (length pre) (sha_chunk s) = pre" "length (sha_chunk s) = 64"
    "length pre + length bs \<le> 64"
  shows "sha_store s (length pre) bs = Returns (s\<lparr>sha_chunk :=
    pre @ bs @ drop (length pre + length bs) (sha_chunk s)\<rparr>)"
  using mem_write_at_end [of pre "sha_chunk s" bs] assms by (simp add: sha_store_def)

lemma sha_len_bytes_be64: "sha_len_bytes len = be64 (push_bit 3 len)"
  by (simp add: sha_len_bytes_def be64_def be32_def upt_rec)
    (intro conjI bit_word_eqI; auto simp: bit_simps dest: bit_imp_le_length)

lemma mod_pad: "r < 56 \<Longrightarrow> (119 - r) mod 64 = 55 - (r :: nat)"
proof -
  assume "r < 56"
  then have "119 - r = 55 - r + 64" "55 - r < 64" by simp_all
  then show ?thesis by (simp only: mod_add_self2 mod_less)
qed

lemma sha_last_block:
  assumes h: "sha_h s = sha_hash_of bs" and bs: "length bs = 64 * k"
    and c: "length (sha_chunk s) = 64" "take (length pre) (sha_chunk s) = pre"
    and pre: "length pre \<le> 56"
  shows "sha_finish s (length pre) (64 - length pre) =
    Returns (concat (map be32 (sha_hash_of (bs @ pre @ zeros (56 - length pre) @
      be64 (push_bit 3 (sha_total_len s))))))"
proof -
  let ?p = "pre @ zeros (56 - length pre)"
  define s4 where "s4 = s\<lparr>sha_chunk := pre @ zeros (56 - length pre) @ drop 56 (sha_chunk s)\<rparr>"
  have s4: "sha_store s (length pre) (zeros (56 - length pre)) = Returns s4"
    using sha_store_at [of pre s "zeros (56 - length pre)"] c pre by (simp add: s4_def)
  have "sha_store s4 (length ?p) (sha_len_bytes (sha_total_len s4)) =
      Returns (s4\<lparr>sha_chunk := ?p @ sha_len_bytes (sha_total_len s4)\<rparr>)"
    using sha_store_at [of ?p s4 "sha_len_bytes (sha_total_len s4)"] c pre
    by (simp add: s4_def sha_len_bytes_be64)
  moreover have "64 - length pre - TOTAL_LEN_LEN = 56 - length pre"
    by (simp add: TOTAL_LEN_LEN_def)
  ultimately show ?thesis using s4 h bs pre
    by (simp add: sha_finish_def s4_def sha_hash_of_block sha_len_bytes_be64)
qed

lemma sha_close_digest:
  assumes "sha_absorbed s xs"
  shows "sha_256_close s = Returns (sha256_of xs)"
proof -
  from assms obtain bs k rest where x: "xs = bs @ rest" "length bs = 64 * k"
    "sha_h s = sha_hash_of bs" "length rest < 64" "sha_chunk_pos s = length rest"
    "sha_space_left s = 64 - length rest" "length (sha_chunk s) = 64"
    "take (length rest) (sha_chunk s) = rest" "sha_total_len s = of_nat (length xs)"
    unfolding sha_absorbed_def sha_buffered_def by blast
  let ?r = "rest @ [0x80]"
  define s1 where "s1 = s\<lparr>sha_chunk := ?r @ drop (length ?r) (sha_chunk s)\<rparr>"
  have s1: "sha_store s (length rest) [0x80] = Returns s1"
    using sha_store_at [of rest s "[0x80]"] x by (simp add: s1_def)
  have c1: "length (sha_chunk s1) = 64" "take (length ?r) (sha_chunk s1) = ?r"
    "sha_h s1 = sha_hash_of bs" "sha_total_len s1 = of_nat (length xs)"
    using x by (simp_all add: s1_def)
  have len: "push_bit 3 (of_nat (length xs) :: u64) = of_nat (8 * length xs)"
    by (simp add: push_bit_eq_mult)
  have md: "length xs mod 64 = length rest" using x by simp
  show ?thesis
  proof (cases "length rest < 56")
    case True
    then have z: "(119 - length xs mod 64) mod 64 = 56 - length ?r"
      using mod_pad [of "length rest"] md by simp
    have "\<not> 63 - length rest < 8" using True by simp
    then have "sha_256_close s = sha_finish s1 (length ?r) (64 - length ?r)"
      using True x(5,6) s1 by (simp add: sha_256_close_def TOTAL_LEN_LEN_def Let_def)
    also have "\<dots> = Returns (concat (map be32 (sha_hash_of (bs @ ?r @ zeros (56 - length ?r) @
        be64 (of_nat (8 * length xs))))))"
      using sha_last_block [OF c1(3) x(2) c1(1,2)] True by (simp only: c1(4) len) simp
    also have "bs @ ?r @ zeros (56 - length ?r) @ be64 (of_nat (8 * length xs)) = sha_pad xs"
      by (simp only: sha_pad_def z [unfolded x(1)] x(1) append_assoc)
    finally show ?thesis by (simp add: sha256_of_def sha_hash_of_def)
  next
    case False
    let ?c = "?r @ zeros (63 - length rest)"
    have z: "(119 - length xs mod 64) mod 64 = 63 - length rest + 56"
      using False md x(4) by simp
    define s2 where "s2 = s1\<lparr>sha_chunk := ?c\<rparr>"
    define s3 where "s3 = s2\<lparr>sha_h := consume_chunk (sha_h s2) (sha_chunk s2)\<rparr>"
    have "sha_store s1 (length ?r) (zeros (63 - length rest)) = Returns s2"
      using sha_store_at [OF c1(2,1), of "zeros (63 - length rest)"] c1(1) x(4)
      by (simp add: s2_def)
    moreover have "63 - length rest < 8" using False x(4) by simp
    ultimately have "sha_256_close s = sha_finish s3 0 64"
      using False x(4,5,6) s1
      by (simp add: sha_256_close_def TOTAL_LEN_LEN_def SIZE_OF_SHA_256_CHUNK_def Let_def s3_def)
    moreover have "sha_h s3 = sha_hash_of (bs @ ?c)"
      using sha_hash_of_block [OF x(2), of ?c] c1(3) x(4) by (simp add: s3_def s2_def)
    moreover have "length (bs @ ?c) = 64 * Suc k" using x(2,4) by simp
    moreover have "length (sha_chunk s3) = 64" using x(4) by (simp add: s3_def s2_def)
    ultimately have "sha_256_close s = Returns (concat (map be32 (sha_hash_of ((bs @ ?c) @ [] @
        zeros 56 @ be64 (push_bit 3 (sha_total_len s3))))))"
      using sha_last_block [of s3 "bs @ ?c" "Suc k" "[]"] by simp
    also have "sha_total_len s3 = of_nat (length xs)" using c1(4) by (simp add: s3_def s2_def)
    also have "(bs @ ?c) @ [] @ zeros 56 @ be64 (push_bit 3 (of_nat (length xs))) = sha_pad xs"
      by (simp only: sha_pad_def z [unfolded x(1)] x(1) append_assoc len [unfolded x(1)] zeros_def replicate_add
          append_Nil)
    finally show ?thesis by (simp add: sha256_of_def sha_hash_of_def)
  qed
qed

text \<open>A context before \<open>sha_256_init\<close>: its buffer holds whatever the stack held.\<close>

definition sha_fresh :: "u8 list \<Rightarrow> Sha_256" where
  "sha_fresh junk = \<lparr>sha_chunk = take 64 (junk @ zeros 64), sha_chunk_pos = 0, sha_space_left = 0,
     sha_total_len = 0, sha_h = []\<rparr>"

interpretation sha: stream_digest "sha_256_init (sha_fresh junk)" sha_256_write sha_256_close
  sha256_of sha_absorbed for junk
proof
  show "sha_absorbed (sha_256_init (sha_fresh junk)) []"
    by (rule sha_buffered_init) (simp add: sha_fresh_def)
qed (use sha_write_absorbs sha_close_digest in blast)+

lemma sha_init_fresh:
  "length (sha_chunk s) = 64 \<Longrightarrow> sha_256_init s = sha_256_init (sha_fresh (sha_chunk s))"
  by (simp add: sha_256_init_def sha_fresh_def)

section \<open>Properties\<close>

text \<open>C12. Hashing data block by block, cut anywhere, gives the SHA-256 of the standard of the whole
  data, whatever the context held before, and no write leaves the 64-byte buffer.\<close>
theorem sha_256_streaming:
  assumes "length (sha_chunk s) = SIZE_OF_SHA_256_CHUNK"
  shows "run_bind (feed_blocks sha_256_write (sha_256_init s) blocks) sha_256_close =
    Returns (sha256_of (concat blocks))"
  using assms sha.blocks_digest [of "sha_chunk s" blocks]
  by (simp add: sha_init_fresh SIZE_OF_SHA_256_CHUNK_def)

theorem sha_256_streaming_witness:
  "run_bind (feed_blocks sha_256_write (sha_256_init (sha_fresh [7])) [[1, 2], replicate 100 3, []])
     sha_256_close = Returns (sha256_of ([1, 2] @ replicate 100 3))"
  using sha_256_streaming [of "sha_fresh [7]" "[[1, 2], replicate 100 3, []]"]
  by (simp add: sha_fresh_def SIZE_OF_SHA_256_CHUNK_def)

end
