(* ===== verification/Img_Xfer.thy ===== *)
theory Img_Xfer
  imports App_Common Crc32
begin

text \<open>
  The state of the communication application (\<open>commMC_app.h\<close>) and the image-transfer state machine of
  \<open>commMC_app_imgxfer.c\<close>: the OBC announces an image over CAN, hands it chunk by chunk to the SPI
  service of the gateway, and waits for the COMM card's acknowledgement at every step.
\<close>

section \<open>State\<close>

datatype COMMMC_ImgXferState =
    COMMMC_IMGXFER_IDLE
  | COMMMC_IMGXFER_WAIT_BEGIN_ACK
  | COMMMC_IMGXFER_WAIT_CHUNK_ACK
  | COMMMC_IMGXFER_WAIT_SPI_DONE
  | COMMMC_IMGXFER_WAIT_RESULT

definition COMMMC_IMGXFER_MAX_PATH_LEN :: nat where
  "COMMMC_IMGXFER_MAX_PATH_LEN = 128"

definition COMMMC_IMGXFER_DEFAULT_CHUNK :: u16 where
  "COMMMC_IMGXFER_DEFAULT_CHUNK = CANIOMC_SPI_MAX_CHUNK"

definition COMMMC_IMGXFER_MAX_STUCK_TICKS :: u16 where
  "COMMMC_IMGXFER_MAX_STUCK_TICKS = 3"

definition COMMMC_IMGXFER_PHOTO_PREFIX :: string where
  "COMMMC_IMGXFER_PHOTO_PREFIX = ''/cf/photos''"

definition COMMMC_IMGXFER_INF_EID :: nat where
  "COMMMC_IMGXFER_INF_EID = 223"

definition COMMMC_IMGXFER_ERR_EID :: nat where
  "COMMMC_IMGXFER_ERR_EID = 224"

text \<open>
  An open stream: the bytes the file had when it was opened, and the position from which reads fail
  if the medium is bad.
\<close>

type_synonym File = "u8 list \<times> nat option"

definition readable :: "File \<Rightarrow> u8 list" where
  "readable f = (case snd f of None \<Rightarrow> fst f | Some e \<Rightarrow> take e (fst f))"

record COMMMC_AppData =
  cm_HkPacket :: COMMMC_HkTlm_Comm
  cm_CmdCounter :: u8
  cm_ErrCounter :: u8
  cm_currentConnectionRate :: u32
  cm_CommMissCount :: u8
  cm_Telemetry :: CANIOMC_CommTlmPayload
  cm_IsImaging :: bool
  cm_XferState :: COMMMC_ImgXferState
  cm_HasLastPhoto :: bool
  cm_LastPhotoPath :: string
  cm_LastPhotoImageId :: u32
  cm_XferPeerNode :: u8
  cm_XferSession :: u8
  cm_XferFile :: "File option"
  cm_XferTotalSize :: u32
  cm_XferCrc32 :: u32
  cm_XferImageId :: u32
  cm_XferChunkSize :: u16
  cm_XferTotalChunks :: u32
  cm_XferCurChunk :: u32
  cm_XferStuckTicks :: u16
  cm_RunStatus :: Run_Status

text \<open>The object is static, so its bytes are zero when the application starts.\<close>

definition COMMMC_AppData_zero :: COMMMC_AppData where
  "COMMMC_AppData_zero = \<lparr>
     cm_HkPacket = \<lparr>ohk_CmdCounter = 0, ohk_ErrCounter = 0, ohk_CommStale = 0,
       ohk_currentConnectionRate = 0, ohk_Telemetry = zero_comm\<rparr>,
     cm_CmdCounter = 0, cm_ErrCounter = 0, cm_currentConnectionRate = 0, cm_CommMissCount = 0,
     cm_Telemetry = zero_comm, cm_IsImaging = False, cm_XferState = COMMMC_IMGXFER_IDLE,
     cm_HasLastPhoto = False, cm_LastPhotoPath = [], cm_LastPhotoImageId = 0, cm_XferPeerNode = 0,
     cm_XferSession = 0, cm_XferFile = None, cm_XferTotalSize = 0, cm_XferCrc32 = 0,
     cm_XferImageId = 0, cm_XferChunkSize = 0, cm_XferTotalChunks = 0, cm_XferCurChunk = 0,
     cm_XferStuckTicks = 0, cm_RunStatus = APP_RUN\<rparr>"

abbreviation cm_event :: "nat \<Rightarrow> EVS_EventType \<Rightarrow> Trace \<Rightarrow> Trace" where
  "cm_event \<equiv> send_event COMMMC"

section \<open>Helpers\<close>

definition put16be :: "u16 \<Rightarrow> u8 list" where
  "put16be v = [ucast (drop_bit 8 v), ucast v]"

definition put32be :: "u32 \<Rightarrow> u8 list" where
  "put32be v = [ucast (drop_bit 24 v), ucast (drop_bit 16 v), ucast (drop_bit 8 v), ucast v]"

definition get16be :: "u8 list \<Rightarrow> nat \<Rightarrow> u16" where
  "get16be p off = push_bit 8 (ucast (p ! off)) OR ucast (p ! (off + 1))"

definition control_msg :: "u8 \<Rightarrow> u16 \<Rightarrow> u8 list \<Rightarrow> SB_Msg" where
  "control_msg peer MessageID Payload = CANIOMC_CMD_MID
     \<lparr>cp_Header = \<lparr>hd_Priority = CANIOMC_HKPRIORITY, hd_SenderID = CANIOMC_OBC_ID,
        hd_ReceiverID = peer, hd_MessageID = MessageID, hd_SeqType = 0, hd_SeqCount = 0\<rparr>,
      cp_PayloadLen = of_nat (length Payload),
      cp_Payload = zero_filled CANIOMC_SB_MAX_PAYLOAD Payload\<rparr>"

definition SendCanControl :: "Env \<Rightarrow> u16 \<Rightarrow> u8 list \<Rightarrow> COMMMC_AppData \<Rightarrow> Trace \<Rightarrow>
    CFE_Status \<times> Trace" where
  "SendCanControl env MessageID Payload s tr =
     sb_transmit env (control_msg (cm_XferPeerNode s) MessageID Payload) tr"

definition file_open :: "Env \<Rightarrow> string \<Rightarrow> Trace \<Rightarrow> File option \<times> Trace" where
  "file_open env p tr = (env_file env tr p, tr @ [Fopen p])"

definition CloseXferFile :: "COMMMC_AppData \<Rightarrow> Trace \<Rightarrow> COMMMC_AppData \<times> Trace" where
  "CloseXferFile s tr =
     (if cm_XferFile s \<noteq> None then (s\<lparr>cm_XferFile := None\<rparr>, tr @ [Fclose]) else (s, tr))"

definition Abort :: "Env \<Rightarrow> COMMMC_AppData \<Rightarrow> Trace \<Rightarrow> COMMMC_AppData \<times> Trace" where
  "Abort env s tr =
     (case SendCanControl env CANIOMC_IMG_XFER_ABORT_MSGID [] s tr of (ignored, tr1) \<Rightarrow>
       (case CloseXferFile s tr1 of (s1, tr2) \<Rightarrow>
         (s1\<lparr>cm_XferState := COMMMC_IMGXFER_IDLE, cm_ErrCounter := cm_ErrCounter s1 + 1\<rparr>,
          cm_event COMMMC_IMGXFER_ERR_EID EVS_ERROR tr2)))"

definition Finish :: "bool \<Rightarrow> COMMMC_AppData \<Rightarrow> Trace \<Rightarrow> COMMMC_AppData \<times> Trace" where
  "Finish ok s tr =
     (case CloseXferFile s tr of (s1, tr1) \<Rightarrow>
        let s2 = s1\<lparr>cm_XferState := COMMMC_IMGXFER_IDLE\<rparr> in
        if ok then (s2\<lparr>cm_CmdCounter := cm_CmdCounter s2 + 1\<rparr>,
                    cm_event COMMMC_IMGXFER_INF_EID EVS_INFORMATION tr1)
        else (s2\<lparr>cm_ErrCounter := cm_ErrCounter s2 + 1\<rparr>,
              cm_event COMMMC_IMGXFER_ERR_EID EVS_ERROR tr1))"

text \<open>The \<open>fread\<close> loop: 8192 bytes at a time, until a read gives nothing.\<close>

function crc_file_loop :: "u8 list \<Rightarrow> u32 \<Rightarrow> u32 \<Rightarrow> u32 \<times> u32" where
  "crc_file_loop rest crc acc =
     (if rest = [] then (crc, acc)
      else crc_file_loop (drop 8192 rest) (crc32_write crc (take 8192 rest))
             (acc + of_nat (length (take 8192 rest))))"
  by pat_completeness auto
termination crc_file_loop
  by (relation "measure (\<lambda>(rest, crc, acc). length rest)") auto

declare crc_file_loop.simps [simp del]

definition ComputeFileCrcAndSize :: "Env \<Rightarrow> string \<Rightarrow> Trace \<Rightarrow>
    (CFE_Status \<times> u32 \<times> u32) \<times> Trace" where
  "ComputeFileCrcAndSize env Path tr =
     (case file_open env Path tr of
        (None, tr1) \<Rightarrow> ((CFE_STATUS_EXTERNAL_RESOURCE_FAIL, 0, 0), tr1)
      | (Some f, tr1) \<Rightarrow>
          (case crc_file_loop (readable f) crc32_init 0 of (crc, acc) \<Rightarrow>
             let tr2 = tr1 @ [Fclose] in
             if snd f \<noteq> None then ((CFE_STATUS_EXTERNAL_RESOURCE_FAIL, 0, 0), tr2)
             else ((CFE_SUCCESS, crc32_close crc, acc), tr2)))"

definition begin_payload :: "COMMMC_AppData \<Rightarrow> u8 list" where
  "begin_payload s = put32be (cm_XferImageId s) @ put32be (cm_XferTotalSize s) @
     put16be (cm_XferChunkSize s) @ put32be (cm_XferCrc32 s)"

definition SendBegin :: "Env \<Rightarrow> COMMMC_AppData \<Rightarrow> Trace \<Rightarrow> CFE_Status \<times> Trace" where
  "SendBegin env s tr = SendCanControl env CANIOMC_IMG_XFER_BEGIN_MSGID (begin_payload s) s tr"

definition SendChunkReady :: "Env \<Rightarrow> u16 \<Rightarrow> COMMMC_AppData \<Rightarrow> Trace \<Rightarrow> CFE_Status \<times> Trace" where
  "SendChunkReady env ChunkIdx s tr =
     SendCanControl env CANIOMC_IMG_CHUNK_READY_MSGID (put16be ChunkIdx) s tr"

definition chunk_len :: "COMMMC_AppData \<Rightarrow> u32 \<Rightarrow> u16" where
  "chunk_len s offset =
     (if cm_XferTotalSize s - offset < ucast (cm_XferChunkSize s)
      then ucast (cm_XferTotalSize s - offset) else cm_XferChunkSize s)"

text \<open>
  \<open>fseek\<close> to a position of an open regular file succeeds; the buffer of the packet has 4096 bytes.
\<close>

definition SendSpiChunk :: "Env \<Rightarrow> u32 \<Rightarrow> COMMMC_AppData \<Rightarrow> Trace \<Rightarrow> (CFE_Status \<times> Trace) run" where
  "SendSpiChunk env ChunkIdx s tr =
     (let offset = ChunkIdx * ucast (cm_XferChunkSize s) in
      case cm_XferFile s of
        None \<Rightarrow> Returns (CFE_STATUS_BAD_COMMAND_CODE, tr)
      | Some f \<Rightarrow>
          if cm_XferTotalSize s \<le> offset then Returns (CFE_STATUS_BAD_COMMAND_CODE, tr)
          else
            let len = chunk_len s offset;
                bytes = take (unat len) (drop (unat offset) (readable f))
            in if unat CANIOMC_SPI_MAX_CHUNK < unat len then OutOfBounds
               else if length bytes \<noteq> unat len
               then Returns (CFE_STATUS_EXTERNAL_RESOURCE_FAIL, tr)
               else Returns (sb_transmit env (CANIOMC_SPI_TX_MID
                      \<lparr>sx_ChunkIdx = ucast ChunkIdx, sx_DataLen = len,
                       sx_Data = zero_filled (unat CANIOMC_SPI_MAX_CHUNK) bytes\<rparr>) tr))"

section \<open>Entry points\<close>

definition COMMMC_ImgXfer_Init :: "COMMMC_AppData \<Rightarrow> COMMMC_AppData" where
  "COMMMC_ImgXfer_Init s = s\<lparr>cm_XferState := COMMMC_IMGXFER_IDLE, cm_HasLastPhoto := False,
     cm_LastPhotoPath := [], cm_LastPhotoImageId := 0, cm_XferFile := None,
     cm_XferStuckTicks := 0\<rparr>"

definition COMMMC_ImgXfer_OnDsFileComplete ::
  "DS_FileInfo option \<Rightarrow> COMMMC_AppData \<Rightarrow> Trace \<Rightarrow> COMMMC_AppData \<times> Trace" where
  "COMMMC_ImgXfer_OnDsFileComplete Pkt s tr =
     (case Pkt of
        None \<Rightarrow> (s, tr)
      | Some p \<Rightarrow>
          if take (length COMMMC_IMGXFER_PHOTO_PREFIX) (fi_FileName p) \<noteq> COMMMC_IMGXFER_PHOTO_PREFIX
          then (s, tr)
          else (s\<lparr>cm_LastPhotoPath := take (COMMMC_IMGXFER_MAX_PATH_LEN - 1) (fi_FileName p),
                  cm_LastPhotoImageId := fi_SequenceCount p, cm_HasLastPhoto := True\<rparr>,
                cm_event COMMMC_IMGXFER_INF_EID EVS_INFORMATION tr))"

abbreviation xfer_error :: "Trace \<Rightarrow> Trace" where
  "xfer_error \<equiv> cm_event COMMMC_IMGXFER_ERR_EID EVS_ERROR"

text \<open>The second half of the request: the transfer parameters are set and BEGIN is sent.\<close>

definition start_transfer ::
  "Env \<Rightarrow> u8 \<Rightarrow> u32 \<Rightarrow> u32 \<Rightarrow> File \<Rightarrow> COMMMC_AppData \<Rightarrow> Trace \<Rightarrow> COMMMC_AppData \<times> Trace" where
  "start_transfer env sender crc sz f s tr =
     (let chunk = (if CANIOMC_SPI_MAX_CHUNK < COMMMC_IMGXFER_DEFAULT_CHUNK
                   then CANIOMC_SPI_MAX_CHUNK else COMMMC_IMGXFER_DEFAULT_CHUNK);
          s1 = s\<lparr>cm_XferFile := Some f,
                 cm_XferPeerNode := (if sender \<noteq> CANIOMC_OBC_ID then sender else CANIOMC_COMM_ID),
                 cm_XferImageId := cm_LastPhotoImageId s, cm_XferTotalSize := sz,
                 cm_XferCrc32 := crc, cm_XferChunkSize := chunk,
                 cm_XferTotalChunks := (sz + ucast chunk - 1) div ucast chunk,
                 cm_XferCurChunk := 0, cm_XferStuckTicks := 0\<rparr>
      in case SendBegin env s1 tr of (status, tr1) \<Rightarrow>
           if status \<noteq> CFE_SUCCESS then Abort env s1 tr1
           else (s1\<lparr>cm_XferState := COMMMC_IMGXFER_WAIT_BEGIN_ACK\<rparr>,
                 cm_event COMMMC_IMGXFER_INF_EID EVS_INFORMATION tr1))"

definition COMMMC_ImgXfer_OnRequest ::
  "Env \<Rightarrow> CANIOMC_RouteTriggerPkt option \<Rightarrow> COMMMC_AppData \<Rightarrow> Trace \<Rightarrow>
   COMMMC_AppData \<times> Trace" where
  "COMMMC_ImgXfer_OnRequest env Pkt s tr =
     (case Pkt of
        None \<Rightarrow> (s, tr)
      | Some req \<Rightarrow>
          if cm_XferState s \<noteq> COMMMC_IMGXFER_IDLE then (s, xfer_error tr)
          else if \<not> cm_HasLastPhoto s then (s, xfer_error tr)
          else
            let tr1 = tr @ [OS_TranslatePath (cm_LastPhotoPath s)] in
            case env_path env tr (cm_LastPhotoPath s) of
              None \<Rightarrow> (s, xfer_error tr1)
            | Some localPath \<Rightarrow>
                (case ComputeFileCrcAndSize env localPath tr1 of ((status, crc, sz), tr2) \<Rightarrow>
                   if status \<noteq> CFE_SUCCESS \<or> sz = 0 then (s, xfer_error tr2)
                   else (case file_open env localPath tr2 of
                           (None, tr3) \<Rightarrow> (s\<lparr>cm_XferFile := None\<rparr>, xfer_error tr3)
                         | (Some f, tr3) \<Rightarrow>
                             start_transfer env (rt_SenderID req) crc sz f s tr3)))"

definition COMMMC_ImgXfer_OnBeginAck ::
  "Env \<Rightarrow> CANIOMC_RouteTriggerPkt option \<Rightarrow> COMMMC_AppData \<Rightarrow> Trace \<Rightarrow>
   COMMMC_AppData \<times> Trace" where
  "COMMMC_ImgXfer_OnBeginAck env Pkt s tr =
     (case Pkt of
        None \<Rightarrow> (s, tr)
      | Some ack \<Rightarrow>
          if cm_XferState s \<noteq> COMMMC_IMGXFER_WAIT_BEGIN_ACK then (s, tr)
          else if rt_PayloadLen ack < 4 then Abort env s tr
          else
            let s1 = s\<lparr>cm_XferSession := rt_Payload ack ! 0\<rparr>;
                chunk = get16be (rt_Payload ack) 2
            in if rt_Payload ack ! 1 \<noteq> 0 then Abort env s1 tr
               else
                 let s2 = (if 1 \<le> chunk \<and> chunk \<le> CANIOMC_SPI_MAX_CHUNK
                           then s1\<lparr>cm_XferChunkSize := chunk, cm_XferTotalChunks :=
                                     (cm_XferTotalSize s1 + ucast chunk - 1) div ucast chunk\<rparr>
                           else s1);
                     s3 = s2\<lparr>cm_XferCurChunk := 0, cm_XferStuckTicks := 0\<rparr>
                 in case SendChunkReady env 0 s3 tr of (status, tr1) \<Rightarrow>
                      if status \<noteq> CFE_SUCCESS then Abort env s3 tr1
                      else (s3\<lparr>cm_XferState := COMMMC_IMGXFER_WAIT_CHUNK_ACK\<rparr>, tr1))"

definition COMMMC_ImgXfer_OnChunkAck ::
  "Env \<Rightarrow> CANIOMC_RouteTriggerPkt option \<Rightarrow> COMMMC_AppData \<Rightarrow> Trace \<Rightarrow>
   (COMMMC_AppData \<times> Trace) run" where
  "COMMMC_ImgXfer_OnChunkAck env Pkt s tr =
     (case Pkt of
        None \<Rightarrow> Returns (s, tr)
      | Some ack \<Rightarrow>
          if cm_XferState s \<noteq> COMMMC_IMGXFER_WAIT_CHUNK_ACK then Returns (s, tr)
          else if rt_PayloadLen ack < 5 then Returns (Abort env s tr)
          else if rt_Payload ack ! 2 \<noteq> 0 then Returns (Abort env s tr)
          else if get16be (rt_Payload ack) 0 \<noteq> ucast (cm_XferCurChunk s)
          then Returns (Abort env s tr)
          else run_bind (SendSpiChunk env (cm_XferCurChunk s) s tr) (\<lambda>(status, tr1).
                 if status \<noteq> CFE_SUCCESS then Returns (Abort env s tr1)
                 else Returns (s\<lparr>cm_XferStuckTicks := 0,
                                 cm_XferState := COMMMC_IMGXFER_WAIT_SPI_DONE\<rparr>, tr1)))"

definition COMMMC_ImgXfer_OnSpiDone ::
  "Env \<Rightarrow> CANIOMC_SpiTxDonePkt option \<Rightarrow> COMMMC_AppData \<Rightarrow> Trace \<Rightarrow>
   COMMMC_AppData \<times> Trace" where
  "COMMMC_ImgXfer_OnSpiDone env Pkt s tr =
     (case Pkt of
        None \<Rightarrow> (s, tr)
      | Some dn \<Rightarrow>
          if cm_XferState s \<noteq> COMMMC_IMGXFER_WAIT_SPI_DONE then (s, tr)
          else if sd_Status dn \<noteq> 0 then Abort env s tr
          else if sd_ChunkIdx dn \<noteq> ucast (cm_XferCurChunk s) then Abort env s tr
          else
            let s1 = s\<lparr>cm_XferCurChunk := cm_XferCurChunk s + 1, cm_XferStuckTicks := 0\<rparr> in
            if cm_XferCurChunk s1 < cm_XferTotalChunks s1
            then (case SendChunkReady env (ucast (cm_XferCurChunk s1)) s1 tr of (status, tr1) \<Rightarrow>
                    if status \<noteq> CFE_SUCCESS then Abort env s1 tr1
                    else (s1\<lparr>cm_XferState := COMMMC_IMGXFER_WAIT_CHUNK_ACK\<rparr>, tr1))
            else (case SendCanControl env CANIOMC_IMG_XFER_END_MSGID [] s1 tr of (status, tr1) \<Rightarrow>
                    if status \<noteq> CFE_SUCCESS then Abort env s1 tr1
                    else (s1\<lparr>cm_XferState := COMMMC_IMGXFER_WAIT_RESULT\<rparr>, tr1)))"

definition COMMMC_ImgXfer_OnResult ::
  "CANIOMC_RouteTriggerPkt option \<Rightarrow> COMMMC_AppData \<Rightarrow> Trace \<Rightarrow> COMMMC_AppData \<times> Trace" where
  "COMMMC_ImgXfer_OnResult Pkt s tr =
     (case Pkt of
        None \<Rightarrow> (s, tr)
      | Some res \<Rightarrow>
          if cm_XferState s \<noteq> COMMMC_IMGXFER_WAIT_RESULT then (s, tr)
          else Finish ((if 1 \<le> rt_PayloadLen res then rt_Payload res ! 0 else 0xFF) = 0) s tr)"

definition COMMMC_ImgXfer_OnTick :: "Env \<Rightarrow> COMMMC_AppData \<Rightarrow> Trace \<Rightarrow> COMMMC_AppData \<times> Trace" where
  "COMMMC_ImgXfer_OnTick env s tr =
     (if cm_XferState s = COMMMC_IMGXFER_IDLE then (s, tr)
      else
        let s1 = s\<lparr>cm_XferStuckTicks := cm_XferStuckTicks s + 1\<rparr> in
        if COMMMC_IMGXFER_MAX_STUCK_TICKS \<le> cm_XferStuckTicks s1 then Abort env s1 tr
        else (s1, tr))"

section \<open>The machine as a step relation\<close>

text \<open>What the main loop of the application delivers to the transfer code.\<close>

datatype Xfer_Input =
    File_Complete DS_FileInfo
  | Img_Request CANIOMC_RouteTriggerPkt
  | Begin_Ack CANIOMC_RouteTriggerPkt
  | Chunk_Ack CANIOMC_RouteTriggerPkt
  | Spi_Done CANIOMC_SpiTxDonePkt
  | Xfer_Result CANIOMC_RouteTriggerPkt
  | Tick

fun xfer_step :: "Env \<Rightarrow> Xfer_Input \<Rightarrow> COMMMC_AppData \<Rightarrow> Trace \<Rightarrow> (COMMMC_AppData \<times> Trace) run" where
  "xfer_step env (File_Complete p) s tr = Returns (COMMMC_ImgXfer_OnDsFileComplete (Some p) s tr)"
| "xfer_step env (Img_Request p) s tr = Returns (COMMMC_ImgXfer_OnRequest env (Some p) s tr)"
| "xfer_step env (Begin_Ack p) s tr = Returns (COMMMC_ImgXfer_OnBeginAck env (Some p) s tr)"
| "xfer_step env (Chunk_Ack p) s tr = COMMMC_ImgXfer_OnChunkAck env (Some p) s tr"
| "xfer_step env (Spi_Done p) s tr = Returns (COMMMC_ImgXfer_OnSpiDone env (Some p) s tr)"
| "xfer_step env (Xfer_Result p) s tr = Returns (COMMMC_ImgXfer_OnResult (Some p) s tr)"
| "xfer_step env Tick s tr = Returns (COMMMC_ImgXfer_OnTick env s tr)"

text \<open>Reachable states: any order of inputs, any reply of the environment.\<close>

inductive xfer_reach :: "Env \<Rightarrow> COMMMC_AppData \<Rightarrow> Trace \<Rightarrow> bool" for env where
  start: "xfer_reach env (COMMMC_ImgXfer_Init s) []"
| step: "xfer_reach env s tr \<Longrightarrow> xfer_step env i s tr = Returns (s', tr') \<Longrightarrow> xfer_reach env s' tr'"

fun xfer_run :: "Env \<Rightarrow> Xfer_Input list \<Rightarrow> COMMMC_AppData \<Rightarrow> Trace \<Rightarrow>
    (COMMMC_AppData \<times> Trace) run" where
  "xfer_run env [] s tr = Returns (s, tr)"
| "xfer_run env (i # is) s tr =
     run_bind (xfer_step env i s tr) (\<lambda>(s', tr'). xfer_run env is s' tr')"

section \<open>Streams\<close>

text \<open>Streams opened and not yet closed; an \<open>fopen\<close> that failed opens none.\<close>

definition stream_delta :: "Env \<Rightarrow> Trace \<Rightarrow> Call \<Rightarrow> int" where
  "stream_delta env tr c =
     (case c of Fopen p \<Rightarrow> (if env_file env tr p = None then 0 else 1) | Fclose \<Rightarrow> - 1 | _ \<Rightarrow> 0)"

fun streams_from :: "Env \<Rightarrow> Trace \<Rightarrow> Trace \<Rightarrow> int" where
  "streams_from env before [] = 0"
| "streams_from env before (c # cs) =
     stream_delta env before c + streams_from env (before @ [c]) cs"

definition streams_open :: "Env \<Rightarrow> Trace \<Rightarrow> int" where
  "streams_open env tr = streams_from env [] tr"

lemma streams_from_append:
  "streams_from env before (tr @ cs) =
   streams_from env before tr + streams_from env (before @ tr) cs"
  by (induction tr arbitrary: before) simp_all

lemma streams_open_Nil [simp]: "streams_open env [] = 0"
  by (simp add: streams_open_def)

lemma streams_open_append [simp]:
  "streams_open env (tr @ cs) = streams_open env tr + streams_from env tr cs"
  by (simp add: streams_open_def streams_from_append)

lemma stream_delta_simps [simp]:
  "stream_delta env tr (SB_Transmit m st) = 0"
  "stream_delta env tr (EVS_SendEvent a b d) = 0"
  "stream_delta env tr (OS_TranslatePath p) = 0"
  "stream_delta env tr Fclose = - 1"
  "stream_delta env tr (Fopen p) = (if env_file env tr p = None then 0 else 1)"
  by (simp_all add: stream_delta_def)

section \<open>What the COMM card has been given\<close>

text \<open>
  The receiving side as the traffic shows it: the last announcement and the image bytes clocked out
  since then.
\<close>

definition note_msg :: "u8 list \<times> u8 list \<Rightarrow> SB_Msg \<Rightarrow> u8 list \<times> u8 list" where
  "note_msg r m =
     (case m of
        CANIOMC_CMD_MID p \<Rightarrow>
          (if hd_MessageID (cp_Header p) = CANIOMC_IMG_XFER_BEGIN_MSGID
           then (take (unat (cp_PayloadLen p)) (cp_Payload p), []) else r)
      | CANIOMC_SPI_TX_MID p \<Rightarrow> (fst r, snd r @ take (unat (sx_DataLen p)) (sx_Data p))
      | _ \<Rightarrow> r)"

definition comm_view :: "Trace \<Rightarrow> u8 list \<times> u8 list" where
  "comm_view tr = foldl note_msg ([], []) (sb_sent tr)"

text \<open>The BEGIN payload that describes a file truthfully.\<close>

definition announcement :: "u32 \<Rightarrow> u16 \<Rightarrow> u8 list \<Rightarrow> u8 list" where
  "announcement img chunk bs =
     put32be img @ put32be (of_nat (length bs)) @ put16be chunk @ put32be (crc32_of bs)"

lemma comm_view_append [simp]:
  "comm_view (tr @ cs) = foldl note_msg (comm_view tr) (sb_sent cs)"
  by (simp add: comm_view_def)

lemma note_control:
  "length pl < 256 \<Longrightarrow> length pl \<le> CANIOMC_SB_MAX_PAYLOAD \<Longrightarrow>
   note_msg r (control_msg peer mid pl) = (if mid = CANIOMC_IMG_XFER_BEGIN_MSGID then (pl, []) else r)"
  by (simp add: note_msg_def control_msg_def unat_of_nat)

section \<open>Arithmetic of the chunks\<close>

lemma crc_file_loop_eq:
  "crc_file_loop rest crc n = (foldl crc32_byte crc rest, n + of_nat (length rest))"
proof (induction rest crc n rule: crc_file_loop.induct)
  case (1 rest crc n)
  show ?case
  proof (cases "rest = []")
    case True
    then show ?thesis by (simp add: crc_file_loop.simps)
  next
    case False
    have "foldl crc32_byte crc rest =
        foldl crc32_byte (foldl crc32_byte crc (take 8192 rest)) (drop 8192 rest)"
      by (metis append_take_drop_id foldl_append)
    moreover have "(of_nat (length (take 8192 rest)) :: u32) + of_nat (length (drop 8192 rest))
        = of_nat (length rest)"
      by (metis append_take_drop_id length_append of_nat_add)
    ultimately show ?thesis using False 1
      by (subst crc_file_loop.simps) (simp add: crc32_write_foldl add.assoc)
  qed
qed

lemma total_chunks_unat:
  fixes sz :: u32 and c :: u16
  assumes "1 \<le> c" "c \<le> CANIOMC_SPI_MAX_CHUNK" "unat sz < 4294963200" "0 < unat sz"
  shows "unat ((sz + ucast c - 1) div ucast c) = (unat sz + unat c - 1) div unat c"
proof -
  have c: "0 < unat c" "unat c \<le> 4096"
    using assms(1,2) by (simp_all add: word_le_nat_alt CANIOMC_SPI_MAX_CHUNK_def)
  have u: "unat (ucast c :: u32) = unat c" using c by (simp add: unsigned_ucast_eq take_bit_nat_eq_self)
  have "unat (sz + ucast c) = unat sz + unat c"
    using assms(3) c u by (subst unat_plus_no_wrap) simp_all
  moreover have "1 \<le> sz + ucast c" using calculation c by (simp add: word_le_nat_alt)
  ultimately have "unat (sz + ucast c - 1) = unat sz + unat c - 1"
    by (simp add: unat_sub)
  then show ?thesis by (simp add: unat_div_distrib u)
qed

lemma index_below_ceil:
  fixes n c k :: nat
  assumes "0 < c" "0 < n"
  shows "k < (n + c - 1) div c \<longleftrightarrow> k * c < n"
proof -
  have "k < (n + c - 1) div c \<longleftrightarrow> Suc k * c \<le> n + c - 1"
    using assms(1) by (simp add: less_eq_div_iff_mult_less_eq Suc_le_eq [symmetric] del: mult_Suc)
  also have "\<dots> \<longleftrightarrow> k * c < n" using assms by auto
  finally show ?thesis .
qed

section \<open>The invariant of a transfer\<close>

text \<open>What holds while the file \<open>f\<close> is open, and the bytes the card must have received by then.\<close>

definition xfer_progress :: "COMMMC_AppData \<Rightarrow> bool" where
  "xfer_progress s =
     (case cm_XferState s of
        COMMMC_IMGXFER_IDLE \<Rightarrow> False
      | COMMMC_IMGXFER_WAIT_BEGIN_ACK \<Rightarrow> cm_XferCurChunk s = 0
      | COMMMC_IMGXFER_WAIT_CHUNK_ACK \<Rightarrow> cm_XferCurChunk s < cm_XferTotalChunks s
      | COMMMC_IMGXFER_WAIT_SPI_DONE \<Rightarrow> cm_XferCurChunk s < cm_XferTotalChunks s
      | COMMMC_IMGXFER_WAIT_RESULT \<Rightarrow> cm_XferCurChunk s = cm_XferTotalChunks s)"

definition xfer_params :: "File \<Rightarrow> COMMMC_AppData \<Rightarrow> bool" where
  "xfer_params f s \<longleftrightarrow>
     snd f = None \<and> fst f \<noteq> [] \<and> length (fst f) < 4294963200 \<and>
     cm_XferTotalSize s = of_nat (length (fst f)) \<and> cm_XferCrc32 s = crc32_of (fst f) \<and>
     1 \<le> cm_XferChunkSize s \<and> cm_XferChunkSize s \<le> CANIOMC_SPI_MAX_CHUNK \<and>
     cm_XferTotalChunks s =
       (cm_XferTotalSize s + ucast (cm_XferChunkSize s) - 1) div ucast (cm_XferChunkSize s)"

definition xfer_open :: "File \<Rightarrow> COMMMC_AppData \<Rightarrow> bool" where
  "xfer_open f s \<longleftrightarrow> xfer_params f s \<and> xfer_progress s \<and>
     cm_XferStuckTicks s < COMMMC_IMGXFER_MAX_STUCK_TICKS"

definition bytes_due :: "COMMMC_AppData \<Rightarrow> u8 list \<Rightarrow> u8 list" where
  "bytes_due s bs =
     (case cm_XferState s of
        COMMMC_IMGXFER_WAIT_CHUNK_ACK \<Rightarrow>
          take (unat (cm_XferCurChunk s) * unat (cm_XferChunkSize s)) bs
      | COMMMC_IMGXFER_WAIT_SPI_DONE \<Rightarrow>
          take (Suc (unat (cm_XferCurChunk s)) * unat (cm_XferChunkSize s)) bs
      | COMMMC_IMGXFER_WAIT_RESULT \<Rightarrow> bs
      | _ \<Rightarrow> [])"

definition xfer_inv :: "COMMMC_AppData \<Rightarrow> bool" where
  "xfer_inv s \<longleftrightarrow> (case cm_XferFile s of None \<Rightarrow> cm_XferState s = COMMMC_IMGXFER_IDLE
     | Some f \<Rightarrow> xfer_open f s)"

definition xfer_sent :: "COMMMC_AppData \<Rightarrow> Trace \<Rightarrow> bool" where
  "xfer_sent s tr \<longleftrightarrow> (case cm_XferFile s of None \<Rightarrow> True
     | Some f \<Rightarrow> snd (comm_view tr) = bytes_due s (fst f) \<and>
         (\<exists>chunk. fst (comm_view tr) = announcement (cm_XferImageId s) chunk (fst f)))"

definition xfer_balanced :: "Env \<Rightarrow> COMMMC_AppData \<Rightarrow> Trace \<Rightarrow> bool" where
  "xfer_balanced env s tr \<longleftrightarrow> streams_open env tr = (if cm_XferFile s = None then 0 else 1)"

definition xfer_good :: "Env \<Rightarrow> COMMMC_AppData \<times> Trace \<Rightarrow> bool" where
  "xfer_good env st \<longleftrightarrow>
     xfer_inv (fst st) \<and> xfer_sent (fst st) (snd st) \<and> xfer_balanced env (fst st) (snd st)"

text \<open>The environment of a flight: files stay as they are and are smaller than 4 GB less a chunk.\<close>

definition stable_files :: "Env \<Rightarrow> bool" where
  "stable_files env \<longleftrightarrow>
     (\<forall>tr tr' p. env_file env tr p = env_file env tr' p) \<and>
     (\<forall>tr p f. env_file env tr p = Some f \<longrightarrow> length (fst f) < 4294963200)"

lemmas xfer_defs = xfer_inv_def xfer_sent_def xfer_balanced_def xfer_good_def

lemma xfer_good_idle:
  "cm_XferFile s = None \<Longrightarrow> cm_XferState s = COMMMC_IMGXFER_IDLE \<Longrightarrow> streams_open env tr = 0 \<Longrightarrow>
   xfer_good env (s, tr)"
  by (simp add: xfer_defs)

lemma xfer_good_openI:
  "cm_XferFile s = Some f \<Longrightarrow> xfer_open f s \<Longrightarrow> streams_open env tr = 1 \<Longrightarrow>
   snd (comm_view tr) = bytes_due s (fst f) \<Longrightarrow>
   fst (comm_view tr) = announcement (cm_XferImageId s) chunk (fst f) \<Longrightarrow> xfer_good env (s, tr)"
  by (auto simp: xfer_defs)

lemma xfer_good_openE:
  assumes "xfer_good env (s, tr)" "cm_XferState s \<noteq> COMMMC_IMGXFER_IDLE"
  obtains f chunk where "cm_XferFile s = Some f" "xfer_open f s" "streams_open env tr = 1"
    "snd (comm_view tr) = bytes_due s (fst f)"
    "fst (comm_view tr) = announcement (cm_XferImageId s) chunk (fst f)"
  using assms by (auto simp: xfer_defs split: option.splits)

lemma xfer_good_idle_file:
  "xfer_good env (s, tr) \<Longrightarrow> cm_XferState s = COMMMC_IMGXFER_IDLE \<Longrightarrow>
   cm_XferFile s = None \<and> streams_open env tr = 0"
  by (auto simp: xfer_defs xfer_open_def xfer_progress_def split: option.splits)

section \<open>Each entry point keeps it\<close>

lemma SendCanControl_streams [simp]:
  "streams_open env (snd (SendCanControl env m pl s tr)) = streams_open env tr"
  by (simp add: SendCanControl_def sb_transmit_def)

lemma Abort_good:
  assumes "streams_open env tr = (if cm_XferFile s = None then 0 else 1)"
  shows "xfer_good env (Abort env s tr)"
  using assms
  by (cases "cm_XferFile s") (auto intro!: xfer_good_idle
      simp: Abort_def SendCanControl_def sb_transmit_def CloseXferFile_def send_event_def)

lemma Finish_good:
  assumes "streams_open env tr = (if cm_XferFile s = None then 0 else 1)"
  shows "xfer_good env (Finish ok s tr)"
  using assms
  by (cases "cm_XferFile s") (auto intro!: xfer_good_idle simp: Finish_def CloseXferFile_def send_event_def Let_def)

lemma ComputeFileCrcAndSize_streams:
  "stable_files env \<Longrightarrow>
   streams_open env (snd (ComputeFileCrcAndSize env p tr)) = streams_open env tr"
  unfolding stable_files_def
  by (auto simp: ComputeFileCrcAndSize_def file_open_def Let_def split: option.splits prod.splits)

lemma ComputeFileCrcAndSize_result:
  assumes "ComputeFileCrcAndSize env p tr = ((CFE_SUCCESS, crc, sz), tr')"
  shows "\<exists>bs. env_file env tr p = Some (bs, None) \<and> crc = crc32_of bs \<and> sz = of_nat (length bs)"
  using assms
  by (auto simp: ComputeFileCrcAndSize_def file_open_def Let_def crc_file_loop_eq crc32_close_def
      crc32_init_def crc32_of_def readable_def split: option.splits prod.splits if_splits)

text \<open>The other operations of the application do not touch the transfer.\<close>

definition xfer_view :: "COMMMC_AppData \<Rightarrow> COMMMC_ImgXferState \<times> File option \<times> u32 list \<times> u16 list" where
  "xfer_view s = (cm_XferState s, cm_XferFile s,
     [cm_XferTotalSize s, cm_XferCrc32 s, cm_XferImageId s, cm_XferTotalChunks s, cm_XferCurChunk s],
     [cm_XferChunkSize s, cm_XferStuckTicks s])"

definition xfer_neutral :: "Call \<Rightarrow> bool" where
  "xfer_neutral c = (case c of
      SB_Transmit m st \<Rightarrow> (case m of CANIOMC_SPI_TX_MID p \<Rightarrow> False
        | CANIOMC_CMD_MID p \<Rightarrow> hd_MessageID (cp_Header p) \<noteq> CANIOMC_IMG_XFER_BEGIN_MSGID
        | _ \<Rightarrow> True)
    | Fopen p \<Rightarrow> False | Fclose \<Rightarrow> False | _ \<Rightarrow> True)"

lemma xfer_neutral_simps [simp]:
  "xfer_neutral (EVS_SendEvent a b d)"
  "xfer_neutral ES_WriteToSysLog"
  "xfer_neutral (Svc a2 b2)"
  "xfer_neutral (HAL_Send f b2)"
  "xfer_neutral (SPI_HAL_Write bs b2)"
  "xfer_neutral (OS_TaskDelay n)"
  "xfer_neutral (OS_TranslatePath q)"
  "xfer_neutral (Udp_Sendto n bs ok)"
  "xfer_neutral (Udp_Recvfrom n)"
  "xfer_neutral (Ground_Send bs b2)"
  "xfer_neutral Time_GetTime"
  "xfer_neutral Read_Cpu_Temp"
  by (simp_all add: xfer_neutral_def)

lemma neutral_note:
  "xfer_neutral c \<Longrightarrow> foldl note_msg r (sb_of c) = r \<and> stream_delta env tr c = 0"
  by (cases c)
    (auto simp: xfer_neutral_def note_msg_def stream_delta_def split: SB_Msg.splits)

lemma neutral_trace:
  "list_all xfer_neutral cs \<Longrightarrow>
   foldl note_msg r (sb_sent cs) = r \<and> streams_from env tr cs = 0"
  by (induction cs arbitrary: r tr) (simp_all add: neutral_note)

lemma xfer_good_frame:
  assumes "xfer_good env (s, tr)" "xfer_view s' = xfer_view s" "list_all xfer_neutral cs"
  shows "xfer_good env (s', tr @ cs)"
  using assms(1,2) neutral_trace [OF assms(3)]
  by (simp add: xfer_view_def xfer_defs xfer_open_def xfer_params_def xfer_progress_def bytes_due_def
      cong: option.case_cong COMMMC_ImgXferState.case_cong)

lemma OnDsFileComplete_frame:
  "\<exists>s' cs. COMMMC_ImgXfer_OnDsFileComplete p s tr = (s', tr @ cs) \<and>
     list_all xfer_neutral cs \<and> xfer_view s' = xfer_view s"
  by (auto simp: COMMMC_ImgXfer_OnDsFileComplete_def xfer_view_def send_event_def
      split: option.splits intro: exI [of _ "[]"])

lemma OnDsFileComplete_good:
  assumes "xfer_good env (s, tr)"
  shows "xfer_good env (COMMMC_ImgXfer_OnDsFileComplete p s tr)"
  using OnDsFileComplete_frame [of p s tr] xfer_good_frame [OF assms] by auto

lemma OnResult_good:
  assumes "xfer_good env (s, tr)"
  shows "xfer_good env (COMMMC_ImgXfer_OnResult p s tr)"
  using assms Finish_good [of env tr s]
  by (auto simp: COMMMC_ImgXfer_OnResult_def xfer_good_def xfer_balanced_def split: option.splits)

lemma xfer_good_balanced:
  "xfer_good env (s, tr) \<Longrightarrow> streams_open env tr = (if cm_XferFile s = None then 0 else 1)"
  by (simp add: xfer_good_def xfer_balanced_def)

lemma OnTick_good:
  assumes "xfer_good env (s, tr)"
  shows "xfer_good env (COMMMC_ImgXfer_OnTick env s tr)"
proof (cases "cm_XferState s = COMMMC_IMGXFER_IDLE \<or>
    COMMMC_IMGXFER_MAX_STUCK_TICKS \<le> cm_XferStuckTicks s + 1")
  case True
  then show ?thesis
    using assms Abort_good [of env tr "s\<lparr>cm_XferStuckTicks := cm_XferStuckTicks s + 1\<rparr>"]
      xfer_good_balanced [OF assms]
    by (auto simp: COMMMC_ImgXfer_OnTick_def Let_def)
next
  case False
  with assms obtain f chunk where "cm_XferFile s = Some f" "xfer_open f s" "streams_open env tr = 1"
    "snd (comm_view tr) = bytes_due s (fst f)"
    "fst (comm_view tr) = announcement (cm_XferImageId s) chunk (fst f)"
    by (elim xfer_good_openE) auto
  then show ?thesis using False
    by (auto intro!: xfer_good_openI simp: COMMMC_ImgXfer_OnTick_def Let_def xfer_open_def
        xfer_params_def xfer_progress_def bytes_due_def not_le
        cong: COMMMC_ImgXferState.case_cong)
qed

lemma default_chunk: "(if CANIOMC_SPI_MAX_CHUNK < COMMMC_IMGXFER_DEFAULT_CHUNK
    then CANIOMC_SPI_MAX_CHUNK else COMMMC_IMGXFER_DEFAULT_CHUNK) = CANIOMC_SPI_MAX_CHUNK"
  by (simp add: COMMMC_IMGXFER_DEFAULT_CHUNK_def)

lemma length_put [simp]: "length (put32be v) = 4" "length (put16be w) = 2"
  by (simp_all add: put32be_def put16be_def)

lemma start_transfer_good:
  assumes st: "streams_open env tr = 1" and bs: "bs \<noteq> []" "length bs < 4294963200"
  shows "xfer_good env (start_transfer env peer (crc32_of bs) (of_nat (length bs)) (bs, None) s tr)"
proof -
  let ?c = CANIOMC_SPI_MAX_CHUNK
  define s1 where "s1 = s\<lparr>cm_XferFile := Some (bs, None),
      cm_XferPeerNode := (if peer \<noteq> CANIOMC_OBC_ID then peer else CANIOMC_COMM_ID),
      cm_XferImageId := cm_LastPhotoImageId s, cm_XferTotalSize := of_nat (length bs),
      cm_XferCrc32 := crc32_of bs, cm_XferChunkSize := ?c,
      cm_XferTotalChunks := (of_nat (length bs) + ucast ?c - 1) div ucast ?c,
      cm_XferCurChunk := 0, cm_XferStuckTicks := 0\<rparr>"
  define s2 where "s2 = s1\<lparr>cm_XferState := COMMMC_IMGXFER_WAIT_BEGIN_ACK\<rparr>"
  define m where "m = control_msg (cm_XferPeerNode s1) CANIOMC_IMG_XFER_BEGIN_MSGID (begin_payload s1)"
  define cs where "cs = [SB_Transmit m (env_sb env tr m),
      EVS_SendEvent COMMMC COMMMC_IMGXFER_INF_EID EVS_INFORMATION]"
  have pl: "begin_payload s1 = announcement (cm_LastPhotoImageId s) ?c bs"
    by (simp add: begin_payload_def announcement_def s1_def)
  have len: "length (begin_payload s1) = 14" by (simp add: begin_payload_def)
  have noted: "note_msg r m = (announcement (cm_LastPhotoImageId s) ?c bs, [])" for r
    unfolding m_def using len
    by (subst note_control) (simp_all add: CANIOMC_SB_MAX_PAYLOAD_def pl)
  have eq: "start_transfer env peer (crc32_of bs) (of_nat (length bs)) (bs, None) s tr =
      (if env_sb env tr m \<noteq> CFE_SUCCESS then Abort env s1 (tr @ [SB_Transmit m (env_sb env tr m)])
       else (s2, tr @ cs))"
    by (simp add: start_transfer_def default_chunk SendBegin_def SendCanControl_def sb_transmit_def
        send_event_def Let_def s1_def s2_def m_def cs_def)
  have "xfer_good env (Abort env s1 (tr @ [SB_Transmit m (env_sb env tr m)]))"
    using st by (intro Abort_good) (simp add: s1_def)
  moreover have "xfer_good env (s2, tr @ cs)"
  proof (rule xfer_good_openI)
    show "cm_XferFile s2 = Some (bs, None)" by (simp add: s2_def s1_def)
    show "xfer_open (bs, None) s2"
      using bs by (simp add: xfer_open_def xfer_params_def xfer_progress_def s2_def s1_def
          CANIOMC_SPI_MAX_CHUNK_def COMMMC_IMGXFER_MAX_STUCK_TICKS_def)
    show "streams_open env (tr @ cs) = 1" using st by (simp add: cs_def)
    show "snd (comm_view (tr @ cs)) = bytes_due s2 (fst (bs, None))"
      by (simp add: cs_def noted s2_def bytes_due_def)
    show "fst (comm_view (tr @ cs)) = announcement (cm_XferImageId s2) ?c (fst (bs, None))"
      by (simp add: cs_def noted s2_def s1_def)
  qed
  ultimately show ?thesis by (simp add: eq)
qed

lemma OnRequest_good:
  assumes env: "stable_files env" and good: "xfer_good env (s, tr)"
  shows "xfer_good env (COMMMC_ImgXfer_OnRequest env p s tr)"
proof (cases p)
  case None
  with good show ?thesis by (simp add: COMMMC_ImgXfer_OnRequest_def)
next
  case (Some req)
  let ?tr1 = "tr @ [OS_TranslatePath (cm_LastPhotoPath s)]"
  have quiet: "xfer_good env (s, xfer_error tr)" "xfer_good env (s, xfer_error ?tr1)"
    using xfer_good_frame [OF good refl] by (auto simp: send_event_def)
  show ?thesis
  proof (cases "cm_XferState s = COMMMC_IMGXFER_IDLE \<and> cm_HasLastPhoto s \<and>
      env_path env tr (cm_LastPhotoPath s) \<noteq> None")
    case False
    then show ?thesis using quiet Some
      by (auto simp: COMMMC_ImgXfer_OnRequest_def Let_def)
  next
    case True
    then obtain q where q: "env_path env tr (cm_LastPhotoPath s) = Some q" by auto
    from True good have idle: "cm_XferFile s = None" "streams_open env tr = 0"
      using xfer_good_idle_file by blast+
    obtain status crc sz tr2 where c: "ComputeFileCrcAndSize env q ?tr1 = ((status, crc, sz), tr2)"
      by (metis prod.exhaust)
    have st2: "streams_open env tr2 = 0"
      using ComputeFileCrcAndSize_streams [OF env, of q ?tr1] c idle by simp
    show ?thesis
    proof (cases "status = CFE_SUCCESS \<and> sz \<noteq> 0")
      case False
      with True q c st2 idle Some show ?thesis
        by (auto intro!: xfer_good_idle simp: COMMMC_ImgXfer_OnRequest_def Let_def send_event_def)
    next
      case sz: True
      with ComputeFileCrcAndSize_result [of env q ?tr1 crc sz tr2] c obtain bs where
        bs: "env_file env ?tr1 q = Some (bs, None)" "crc = crc32_of bs" "sz = of_nat (length bs)"
        by auto
      with env have "env_file env tr2 q = Some (bs, None)" "length bs < 4294963200"
        unfolding stable_files_def by (metis, metis fst_conv)
      moreover have "bs \<noteq> []" using sz bs(3) by auto
      ultimately show ?thesis using True q c sz bs Some
        using start_transfer_good [of env "tr2 @ [Fopen q]" bs "rt_SenderID req" s] st2
        by (auto simp: COMMMC_ImgXfer_OnRequest_def Let_def file_open_def)
    qed
  qed
qed

lemma SendCanControl_eq:
  "SendCanControl env mid pl s tr =
   (env_sb env tr (control_msg (cm_XferPeerNode s) mid pl),
    tr @ [SB_Transmit (control_msg (cm_XferPeerNode s) mid pl)
            (env_sb env tr (control_msg (cm_XferPeerNode s) mid pl))])"
  by (simp add: SendCanControl_def sb_transmit_def)

lemma xfer_params_total:
  assumes "xfer_params f s"
  shows "unat (cm_XferTotalSize s) = length (fst f)" "0 < unat (cm_XferChunkSize s)"
    "unat (cm_XferTotalChunks s) =
      (length (fst f) + unat (cm_XferChunkSize s) - 1) div unat (cm_XferChunkSize s)"
    "k < unat (cm_XferTotalChunks s) \<longleftrightarrow> k * unat (cm_XferChunkSize s) < length (fst f)"
    "unat (cm_XferChunkSize s) \<le> 4096" "length (fst f) < 4294963200"
proof -
  from assms have a: "length (fst f) < 4294963200" "fst f \<noteq> []"
    "cm_XferTotalSize s = of_nat (length (fst f))"
    "1 \<le> cm_XferChunkSize s" "cm_XferChunkSize s \<le> CANIOMC_SPI_MAX_CHUNK"
    "cm_XferTotalChunks s =
       (cm_XferTotalSize s + ucast (cm_XferChunkSize s) - 1) div ucast (cm_XferChunkSize s)"
    by (simp_all add: xfer_params_def)
  show 1: "unat (cm_XferTotalSize s) = length (fst f)"
    using a(1) by (simp add: a(3) unat_of_nat)
  show 2: "0 < unat (cm_XferChunkSize s)" using a(4) by (simp add: word_le_nat_alt)
  show "unat (cm_XferChunkSize s) \<le> 4096"
    using a(5) by (simp add: word_le_nat_alt CANIOMC_SPI_MAX_CHUNK_def)
  show 3: "unat (cm_XferTotalChunks s) =
      (length (fst f) + unat (cm_XferChunkSize s) - 1) div unat (cm_XferChunkSize s)"
    unfolding a(6) using a 1 by (subst total_chunks_unat) simp_all
  show "k < unat (cm_XferTotalChunks s) \<longleftrightarrow> k * unat (cm_XferChunkSize s) < length (fst f)"
    unfolding 3 using 2 a(2) by (intro index_below_ceil) simp_all
  show "length (fst f) < 4294963200" by (rule a(1))
qed

lemma xfer_params_one_chunk:
  "xfer_params f s \<Longrightarrow> 0 < cm_XferTotalChunks s"
  using xfer_params_total(4) [of f s 0] by (simp add: xfer_params_def word_less_nat_alt)

lemma chunk_ready_good:
  assumes f: "cm_XferFile s = Some f" "xfer_params f s" "cm_XferStuckTicks s = 0"
    and lt: "cm_XferCurChunk s < cm_XferTotalChunks s"
    and st: "streams_open env tr = 1"
    and view: "snd (comm_view tr) = take (unat (cm_XferCurChunk s) * unat (cm_XferChunkSize s)) (fst f)"
      "fst (comm_view tr) = announcement (cm_XferImageId s) chunk (fst f)"
  shows "xfer_good env (case SendChunkReady env idx s tr of (status, tr1) \<Rightarrow>
    if status \<noteq> CFE_SUCCESS then Abort env s tr1
    else (s\<lparr>cm_XferState := COMMMC_IMGXFER_WAIT_CHUNK_ACK\<rparr>, tr1))"
proof -
  define m where "m = control_msg (cm_XferPeerNode s) CANIOMC_IMG_CHUNK_READY_MSGID (put16be idx)"
  have noted: "note_msg r m = r" for r
    unfolding m_def by (subst note_control) (simp_all add: CANIOMC_SB_MAX_PAYLOAD_def msgid_defs)
  have "xfer_good env (Abort env s (tr @ [SB_Transmit m (env_sb env tr m)]))"
    using f st by (intro Abort_good) simp
  moreover have "xfer_good env (s\<lparr>cm_XferState := COMMMC_IMGXFER_WAIT_CHUNK_ACK\<rparr>,
      tr @ [SB_Transmit m (env_sb env tr m)])"
    using assms by (intro xfer_good_openI [of _ f _ _ chunk])
      (simp_all add: xfer_open_def xfer_params_def xfer_progress_def bytes_due_def noted
        COMMMC_IMGXFER_MAX_STUCK_TICKS_def)
  ultimately show ?thesis by (auto simp: SendChunkReady_def SendCanControl_eq m_def)
qed

lemma xfer_params_cong:
  "cm_XferTotalSize s' = cm_XferTotalSize s \<Longrightarrow> cm_XferCrc32 s' = cm_XferCrc32 s \<Longrightarrow>
   cm_XferChunkSize s' = cm_XferChunkSize s \<Longrightarrow> cm_XferTotalChunks s' = cm_XferTotalChunks s \<Longrightarrow>
   xfer_params f s' = xfer_params f s"
  by (simp add: xfer_params_def)

lemma OnBeginAck_good:
  assumes good: "xfer_good env (s, tr)"
  shows "xfer_good env (COMMMC_ImgXfer_OnBeginAck env p s tr)"
proof (cases "p = None \<or> cm_XferState s \<noteq> COMMMC_IMGXFER_WAIT_BEGIN_ACK")
  case True
  with good show ?thesis by (auto simp: COMMMC_ImgXfer_OnBeginAck_def split: option.split)
next
  case False
  then obtain ack where p: "p = Some ack" and w: "cm_XferState s = COMMMC_IMGXFER_WAIT_BEGIN_ACK"
    by auto
  with good obtain f chunk where f: "cm_XferFile s = Some f" "xfer_open f s"
    "streams_open env tr = 1" "snd (comm_view tr) = []"
    "fst (comm_view tr) = announcement (cm_XferImageId s) chunk (fst f)"
    by (elim xfer_good_openE) (auto simp: bytes_due_def)
  have ab: "xfer_good env (Abort env s tr)"
    "xfer_good env (Abort env (s\<lparr>cm_XferSession := v\<rparr>) tr)" for v
    using f by (auto intro!: Abort_good)
  define s1 where "s1 = s\<lparr>cm_XferSession := rt_Payload ack ! 0\<rparr>"
  define c where "c = get16be (rt_Payload ack) 2"
  define s3 where "s3 = (if 1 \<le> c \<and> c \<le> CANIOMC_SPI_MAX_CHUNK
      then s1\<lparr>cm_XferChunkSize := c,
        cm_XferTotalChunks := (cm_XferTotalSize s1 + ucast c - 1) div ucast c\<rparr> else s1)
      \<lparr>cm_XferCurChunk := 0, cm_XferStuckTicks := 0\<rparr>"
  have par: "xfer_params f s3"
    using f(2) by (simp add: s3_def s1_def xfer_open_def xfer_params_def)
  have "xfer_good env (case SendChunkReady env 0 s3 tr of (status, tr1) \<Rightarrow>
      if status \<noteq> CFE_SUCCESS then Abort env s3 tr1
      else (s3\<lparr>cm_XferState := COMMMC_IMGXFER_WAIT_CHUNK_ACK\<rparr>, tr1))"
    using f par xfer_params_one_chunk [OF par]
    by (intro chunk_ready_good [of _ f _ _ chunk]) (simp_all add: s3_def s1_def)
  moreover have "COMMMC_ImgXfer_OnBeginAck env p s tr =
      (if rt_PayloadLen ack < 4 then Abort env s tr
       else if rt_Payload ack ! 1 \<noteq> 0 then Abort env s1 tr
       else case SendChunkReady env 0 s3 tr of (status, tr1) \<Rightarrow>
         if status \<noteq> CFE_SUCCESS then Abort env s3 tr1
         else (s3\<lparr>cm_XferState := COMMMC_IMGXFER_WAIT_CHUNK_ACK\<rparr>, tr1))"
    unfolding COMMMC_ImgXfer_OnBeginAck_def Let_def s3_def s1_def c_def p using w by simp
  ultimately show ?thesis using ab by (auto simp: s1_def split del: if_split split: if_splits)
qed

text \<open>The piece of a file that chunk \<open>k\<close> is, and the packet that carries it.\<close>

definition file_piece :: "nat \<Rightarrow> u8 list \<Rightarrow> nat \<Rightarrow> u8 list" where
  "file_piece c bs k = take c (drop (k * c) bs)"

definition spi_packet :: "u16 \<Rightarrow> u8 list \<Rightarrow> SB_Msg" where
  "spi_packet idx d = CANIOMC_SPI_TX_MID
     \<lparr>sx_ChunkIdx = idx, sx_DataLen = of_nat (length d),
      sx_Data = zero_filled (unat CANIOMC_SPI_MAX_CHUNK) d\<rparr>"

lemma take_Suc_piece: "take (Suc k * c) bs = take (k * c) bs @ file_piece c bs k"
  by (simp only: file_piece_def mult_Suc add.commute [of c] take_add)

lemma length_file_piece: "length (file_piece c bs k) = min c (length bs - k * c)"
  by (simp add: file_piece_def)

lemma note_spi_packet:
  "length d \<le> 4096 \<Longrightarrow> note_msg r (spi_packet idx d) = (fst r, snd r @ d)"
  by (simp add: note_msg_def spi_packet_def unat_of_nat)

lemma SendSpiChunk_in_range:
  assumes f: "cm_XferFile s = Some f" and par: "xfer_params f s" and k: "k < cm_XferTotalChunks s"
  shows "SendSpiChunk env k s tr = Returns (sb_transmit env
      (spi_packet (ucast k) (file_piece (unat (cm_XferChunkSize s)) (fst f) (unat k))) tr)"
proof -
  let ?c = "unat (cm_XferChunkSize s)" and ?n = "length (fst f)"
  let ?off = "k * ucast (cm_XferChunkSize s)" and ?len = "chunk_len s (k * ucast (cm_XferChunkSize s))"
  note t = xfer_params_total [OF par]
  have lt: "unat k * ?c < ?n" using k t(4) by (simp add: word_less_nat_alt)
  have uc: "unat (ucast (cm_XferChunkSize s) :: u32) = ?c"
    using t(5) by (simp add: unsigned_ucast_eq take_bit_nat_eq_self)
  have off: "unat ?off = unat k * ?c"
    using lt t(6) uc by (simp add: unat_word_ariths)
  have rest: "unat (cm_XferTotalSize s - ?off) = ?n - unat k * ?c"
    using lt off t(1) by (subst unat_sub) (simp_all add: word_le_nat_alt)
  have len: "unat ?len = min ?c (?n - unat k * ?c)"
  proof (cases "?n - unat k * ?c < ?c")
    case True
    then have "unat (ucast (cm_XferTotalSize s - ?off) :: u16) = ?n - unat k * ?c"
      using t(5) rest by (simp add: unsigned_ucast_eq take_bit_nat_eq_self)
    with True rest uc show ?thesis by (simp add: chunk_len_def word_less_nat_alt)
  next
    case False
    with rest uc show ?thesis by (simp add: chunk_len_def word_less_nat_alt)
  qed
  have piece: "take (unat ?len) (drop (unat ?off) (readable f)) = file_piece ?c (fst f) (unat k)"
    using par by (simp add: len off file_piece_def readable_def xfer_params_def min_def)
  have lenD: "length (file_piece ?c (fst f) (unat k)) = unat ?len"
    by (simp add: len length_file_piece)
  have "\<not> cm_XferTotalSize s \<le> ?off"
    using lt off t(1) by (simp add: word_le_nat_alt not_le)
  moreover have "\<not> unat CANIOMC_SPI_MAX_CHUNK < unat ?len"
    using len t(5) by (simp add: CANIOMC_SPI_MAX_CHUNK_def)
  ultimately show ?thesis
    using f by (simp add: SendSpiChunk_def Let_def piece spi_packet_def lenD)
qed

lemma xfer_good_abort:
  "xfer_good env (s, tr) \<Longrightarrow> xfer_good env (Abort env s tr)"
  by (intro Abort_good xfer_good_balanced)

definition returns_good :: "Env \<Rightarrow> (COMMMC_AppData \<times> Trace) run \<Rightarrow> bool" where
  "returns_good env r = (case r of Returns st \<Rightarrow> xfer_good env st | _ \<Rightarrow> False)"

lemma OnChunkAck_good:
  assumes good: "xfer_good env (s, tr)"
  shows "returns_good env (COMMMC_ImgXfer_OnChunkAck env p s tr)"
proof (cases "p = None \<or> cm_XferState s \<noteq> COMMMC_IMGXFER_WAIT_CHUNK_ACK")
  case True
  with good show ?thesis
    by (auto simp: COMMMC_ImgXfer_OnChunkAck_def returns_good_def split: option.split)
next
  case False
  then obtain ack where p: "p = Some ack" and w: "cm_XferState s = COMMMC_IMGXFER_WAIT_CHUNK_ACK"
    by auto
  with good obtain f chunk where f: "cm_XferFile s = Some f" "xfer_open f s"
    "streams_open env tr = 1"
    "snd (comm_view tr) = take (unat (cm_XferCurChunk s) * unat (cm_XferChunkSize s)) (fst f)"
    "fst (comm_view tr) = announcement (cm_XferImageId s) chunk (fst f)"
    by (elim xfer_good_openE) (auto simp: bytes_due_def)
  then have par: "xfer_params f s" and lt: "cm_XferCurChunk s < cm_XferTotalChunks s"
    using w by (simp_all add: xfer_open_def xfer_progress_def)
  define d where "d = file_piece (unat (cm_XferChunkSize s)) (fst f) (unat (cm_XferCurChunk s))"
  define m where "m = spi_packet (ucast (cm_XferCurChunk s)) d"
  have "length d \<le> 4096" using xfer_params_total(5) [OF par] by (simp add: d_def length_file_piece)
  then have noted: "note_msg r m = (fst r, snd r @ d)" for r by (simp add: m_def note_spi_packet)
  have send: "SendSpiChunk env (cm_XferCurChunk s) s tr = Returns (sb_transmit env m tr)"
    using SendSpiChunk_in_range [OF f(1) par lt] by (simp add: m_def d_def)
  have delta: "stream_delta env tr (SB_Transmit m st) = 0" for st by simp
  have abort: "xfer_good env (Abort env s (tr @ [SB_Transmit m (env_sb env tr m)]))"
    using f by (intro Abort_good) simp
  define s1 where "s1 = s\<lparr>cm_XferStuckTicks := 0, cm_XferState := COMMMC_IMGXFER_WAIT_SPI_DONE\<rparr>"
  have sentok: "xfer_good env (s1, tr @ [SB_Transmit m (env_sb env tr m)])"
  proof (rule xfer_good_openI)
    show "cm_XferFile s1 = Some f" by (simp add: s1_def f)
    show "xfer_open f s1"
      using par lt xfer_params_cong [of s1 s]
      by (simp add: xfer_open_def s1_def xfer_progress_def COMMMC_IMGXFER_MAX_STUCK_TICKS_def)
    show "streams_open env (tr @ [SB_Transmit m (env_sb env tr m)]) = 1" by (simp add: f)
    show "snd (comm_view (tr @ [SB_Transmit m (env_sb env tr m)])) = bytes_due s1 (fst f)"
      by (simp add: noted f bytes_due_def s1_def d_def take_Suc_piece [symmetric] add.commute)
    show "fst (comm_view (tr @ [SB_Transmit m (env_sb env tr m)])) =
        announcement (cm_XferImageId s1) chunk (fst f)"
      by (simp add: noted f s1_def)
  qed
  show ?thesis using p w send abort sentok xfer_good_abort [OF good]
    by (auto simp: COMMMC_ImgXfer_OnChunkAck_def sb_transmit_def s1_def returns_good_def)
qed

lemma OnSpiDone_good:
  assumes good: "xfer_good env (s, tr)"
  shows "xfer_good env (COMMMC_ImgXfer_OnSpiDone env p s tr)"
proof (cases "p = None \<or> cm_XferState s \<noteq> COMMMC_IMGXFER_WAIT_SPI_DONE")
  case True
  with good show ?thesis by (auto simp: COMMMC_ImgXfer_OnSpiDone_def split: option.split)
next
  case False
  then obtain dn where p: "p = Some dn" and w: "cm_XferState s = COMMMC_IMGXFER_WAIT_SPI_DONE"
    by auto
  with good obtain f chunk where f: "cm_XferFile s = Some f" "xfer_open f s"
    "streams_open env tr = 1"
    "snd (comm_view tr) = take (Suc (unat (cm_XferCurChunk s)) * unat (cm_XferChunkSize s)) (fst f)"
    "fst (comm_view tr) = announcement (cm_XferImageId s) chunk (fst f)"
    by (elim xfer_good_openE) (auto simp: bytes_due_def)
  define s1 where "s1 = s\<lparr>cm_XferCurChunk := cm_XferCurChunk s + 1, cm_XferStuckTicks := 0\<rparr>"
  from f(2) w have "xfer_params f s" and lt: "cm_XferCurChunk s < cm_XferTotalChunks s"
    by (simp_all add: xfer_open_def xfer_progress_def)
  then have par: "xfer_params f s1" by (simp add: s1_def xfer_params_def)
  have cur: "unat (cm_XferCurChunk s1) = Suc (unat (cm_XferCurChunk s))"
    using lt unat_u32_less [of "cm_XferTotalChunks s"]
    by (simp add: s1_def unat_plus_no_wrap word_less_nat_alt)
  have abort: "xfer_good env (Abort env s1 tr')" if "streams_open env tr' = 1" for tr'
    using f that by (intro Abort_good) (simp add: s1_def)
  have view: "snd (comm_view tr) =
      take (unat (cm_XferCurChunk s1) * unat (cm_XferChunkSize s1)) (fst f)"
    "fst (comm_view tr) = announcement (cm_XferImageId s1) chunk (fst f)"
    using f(4,5) cur by (simp_all add: s1_def)
  have more: "xfer_good env (case SendChunkReady env (ucast (cm_XferCurChunk s1)) s1 tr of
      (status, tr1) \<Rightarrow> if status \<noteq> CFE_SUCCESS then Abort env s1 tr1
        else (s1\<lparr>cm_XferState := COMMMC_IMGXFER_WAIT_CHUNK_ACK\<rparr>, tr1))"
    if "cm_XferCurChunk s1 < cm_XferTotalChunks s1"
    using f(1,3) par view that by (intro chunk_ready_good [of _ f _ _ chunk]) (simp_all add: s1_def)
  have last: "xfer_good env (case SendCanControl env CANIOMC_IMG_XFER_END_MSGID [] s1 tr of
      (status, tr1) \<Rightarrow> if status \<noteq> CFE_SUCCESS then Abort env s1 tr1
        else (s1\<lparr>cm_XferState := COMMMC_IMGXFER_WAIT_RESULT\<rparr>, tr1))"
    if atend: "\<not> cm_XferCurChunk s1 < cm_XferTotalChunks s1"
  proof -
    define m where "m = control_msg (cm_XferPeerNode s1) CANIOMC_IMG_XFER_END_MSGID []"
    have noted: "note_msg r m = r" for r
      unfolding m_def by (subst note_control) (simp_all add: msgid_defs)
    from atend lt cur have "cm_XferCurChunk s1 = cm_XferTotalChunks s1"
      by (simp add: word_less_nat_alt word_unat_eq_iff s1_def)
    moreover have "snd (comm_view tr) = fst f"
      using atend view(1) xfer_params_total(4) [OF par, of "unat (cm_XferCurChunk s1)"]
      by (simp add: word_less_nat_alt)
    ultimately have "xfer_good env (s1\<lparr>cm_XferState := COMMMC_IMGXFER_WAIT_RESULT\<rparr>,
        tr @ [SB_Transmit m (env_sb env tr m)])"
      using f(1,3) view par xfer_params_cong [of "s1\<lparr>cm_XferState := COMMMC_IMGXFER_WAIT_RESULT\<rparr>" s1]
      by (intro xfer_good_openI [of _ f _ _ chunk])
        (simp_all add: xfer_open_def xfer_progress_def bytes_due_def noted s1_def
          COMMMC_IMGXFER_MAX_STUCK_TICKS_def)
    moreover have "xfer_good env (Abort env s1 (tr @ [SB_Transmit m (env_sb env tr m)]))"
      using f(3) by (intro abort) simp
    ultimately show ?thesis by (auto simp: SendCanControl_eq m_def)
  qed
  have "COMMMC_ImgXfer_OnSpiDone env p s tr =
      (if sd_Status dn \<noteq> 0 \<or> sd_ChunkIdx dn \<noteq> ucast (cm_XferCurChunk s) then Abort env s tr
       else if cm_XferCurChunk s1 < cm_XferTotalChunks s1
       then (case SendChunkReady env (ucast (cm_XferCurChunk s1)) s1 tr of (status, tr1) \<Rightarrow>
           if status \<noteq> CFE_SUCCESS then Abort env s1 tr1
           else (s1\<lparr>cm_XferState := COMMMC_IMGXFER_WAIT_CHUNK_ACK\<rparr>, tr1))
       else (case SendCanControl env CANIOMC_IMG_XFER_END_MSGID [] s1 tr of (status, tr1) \<Rightarrow>
           if status \<noteq> CFE_SUCCESS then Abort env s1 tr1
           else (s1\<lparr>cm_XferState := COMMMC_IMGXFER_WAIT_RESULT\<rparr>, tr1)))"
    unfolding COMMMC_ImgXfer_OnSpiDone_def Let_def s1_def p using w by simp
  then show ?thesis using more last xfer_good_abort [OF good] by presburger
qed

lemma xfer_step_good:
  assumes "stable_files env" "xfer_good env (s, tr)"
  shows "returns_good env (xfer_step env i s tr)"
  using assms
  by (cases i) (simp_all add: returns_good_def [of _ "Returns _"] OnDsFileComplete_good OnRequest_good OnBeginAck_good
      OnChunkAck_good OnSpiDone_good OnResult_good OnTick_good)

lemma xfer_reach_good:
  "xfer_reach env s tr \<Longrightarrow> stable_files env \<Longrightarrow> xfer_good env (s, tr)"
proof (induction rule: xfer_reach.induct)
  case (start s)
  show ?case by (rule xfer_good_idle) (simp_all add: COMMMC_ImgXfer_Init_def)
next
  case (step s tr i s' tr')
  then show ?case using xfer_step_good [of env s tr i] by (simp add: returns_good_def)
qed

section \<open>A card that answers\<close>

text \<open>The replies of a card that accepts everything, and the traffic of a complete transfer.\<close>

definition route_packet :: "u8 \<Rightarrow> u8 list \<Rightarrow> CANIOMC_RouteTriggerPkt" where
  "route_packet sender bytes = \<lparr>rt_SenderID = sender, rt_PayloadLen = of_nat (length bytes),
     rt_Payload = zero_filled CANIOMC_SB_MAX_PAYLOAD bytes\<rparr>"

definition chunk_answers :: "nat \<Rightarrow> Xfer_Input list" where
  "chunk_answers k =
     [Chunk_Ack (route_packet CANIOMC_COMM_ID (put16be (of_nat k) @ [0, 0, 0])),
      Spi_Done \<lparr>sd_ChunkIdx = of_nat k, sd_Status = 0\<rparr>]"

definition chunk_ready :: "u8 \<Rightarrow> nat \<Rightarrow> SB_Msg" where
  "chunk_ready peer k = control_msg peer CANIOMC_IMG_CHUNK_READY_MSGID (put16be (of_nat k))"

definition chunk_traffic :: "u8 \<Rightarrow> nat \<Rightarrow> u8 list \<Rightarrow> nat \<Rightarrow> SB_Msg list" where
  "chunk_traffic peer c bs k = [chunk_ready peer k, spi_packet (of_nat k) (file_piece c bs k)]"

lemma get16be_put16be: "get16be (put16be v @ rest) 0 = v"
proof -
  have "push_bit 8 (ucast (ucast (drop_bit 8 v) :: u8)) OR ucast (ucast v :: u8) = v"
    by (rule bit_word_eqI)
      (auto simp: bit_simps not_less dest: bit_imp_le_length)
  then show ?thesis by (simp add: get16be_def put16be_def)
qed

lemma SendCanControl_accepted:
  "(\<And>tr m. env_sb env tr m = CFE_SUCCESS) \<Longrightarrow> SendCanControl env mid pl s tr =
   (CFE_SUCCESS, tr @ [SB_Transmit (control_msg (cm_XferPeerNode s) mid pl) CFE_SUCCESS])"
  by (simp add: SendCanControl_eq)

lemma OnChunkAck_accepted:
  assumes "\<And>tr m. env_sb env tr m = CFE_SUCCESS" "cm_XferState s = COMMMC_IMGXFER_WAIT_CHUNK_ACK"
    "cm_XferFile s = Some f" "xfer_params f s" "cm_XferCurChunk s = of_nat k"
    "k < unat (cm_XferTotalChunks s)"
  shows "COMMMC_ImgXfer_OnChunkAck env
      (Some (route_packet CANIOMC_COMM_ID (put16be (of_nat k) @ [0, 0, 0]))) s tr =
    Returns (s\<lparr>cm_XferStuckTicks := 0, cm_XferState := COMMMC_IMGXFER_WAIT_SPI_DONE\<rparr>,
      tr @ [SB_Transmit (spi_packet (of_nat k)
        (file_piece (unat (cm_XferChunkSize s)) (fst f) k)) CFE_SUCCESS])"
proof -
  let ?p = "route_packet CANIOMC_COMM_ID (put16be (of_nat k) @ [0, 0, 0])"
  have k: "unat (of_nat k :: u32) = k"
    using assms(6) unat_u32_less [of "cm_XferTotalChunks s"] by (simp add: unat_of_nat)
  have idx: "get16be (rt_Payload ?p) 0 = of_nat k"
    using get16be_put16be [of "of_nat k" "[0, 0, 0] @ zeros (CANIOMC_SB_MAX_PAYLOAD - 5)"]
    by (simp add: route_packet_def zero_filled_def)
  have pl: "rt_PayloadLen ?p = 5" "rt_Payload ?p ! 2 = 0"
    by (simp_all add: route_packet_def zero_filled_def put16be_def)
  have uk: "ucast (of_nat k :: u32) = (of_nat k :: u16)"
    by (metis assms(5) k of_nat_unat)
  have "SendSpiChunk env (of_nat k) s tr = Returns (sb_transmit env
      (spi_packet (of_nat k) (file_piece (unat (cm_XferChunkSize s)) (fst f) k)) tr)"
    using SendSpiChunk_in_range [OF assms(3,4), of "of_nat k" env tr] assms(6) k uk
    by (simp add: word_less_nat_alt)
  then show ?thesis
    using assms(1,2,5) idx pl uk by (simp add: COMMMC_ImgXfer_OnChunkAck_def sb_transmit_def)
qed

definition after_chunk :: "nat \<Rightarrow> COMMMC_AppData \<Rightarrow> SB_Msg" where
  "after_chunk k s =
     (if Suc k < unat (cm_XferTotalChunks s) then chunk_ready (cm_XferPeerNode s) (Suc k)
      else control_msg (cm_XferPeerNode s) CANIOMC_IMG_XFER_END_MSGID [])"

definition chunk_done :: "nat \<Rightarrow> COMMMC_AppData \<Rightarrow> COMMMC_AppData" where
  "chunk_done k s = s\<lparr>cm_XferCurChunk := of_nat (Suc k), cm_XferStuckTicks := 0,
     cm_XferState := (if Suc k < unat (cm_XferTotalChunks s) then COMMMC_IMGXFER_WAIT_CHUNK_ACK
                      else COMMMC_IMGXFER_WAIT_RESULT)\<rparr>"

lemma OnSpiDone_accepted:
  assumes "\<And>tr m. env_sb env tr m = CFE_SUCCESS" "cm_XferState s = COMMMC_IMGXFER_WAIT_SPI_DONE"
    "cm_XferCurChunk s = of_nat k" "k < unat (cm_XferTotalChunks s)"
  shows "COMMMC_ImgXfer_OnSpiDone env (Some \<lparr>sd_ChunkIdx = of_nat k, sd_Status = 0\<rparr>) s tr =
    (chunk_done k s, tr @ [SB_Transmit (after_chunk k s) CFE_SUCCESS])"
proof -
  have T: "unat (cm_XferTotalChunks s) < 4294967296" by (rule unat_u32_less)
  have k: "unat (of_nat k :: u32) = k" "unat (of_nat k + 1 :: u32) = Suc k"
    using assms(4) T by (simp_all add: unat_of_nat unat_plus_no_wrap)
  have low: "ucast (of_nat n :: u32) = (of_nat n :: u16)" if "n < 4294967296" for n
  proof -
    from that have "unat (of_nat n :: u32) = n" by (simp add: unat_of_nat)
    then show ?thesis by (metis of_nat_unat)
  qed
  show ?thesis
    using assms k low [of k] low [of "Suc k"] T
    by (simp add: COMMMC_ImgXfer_OnSpiDone_def Let_def SendChunkReady_def SendCanControl_eq
        chunk_done_def after_chunk_def chunk_ready_def word_less_nat_alt add.commute)
qed

lemma cooperative_chunk:
  assumes "\<And>tr m. env_sb env tr m = CFE_SUCCESS" "cm_XferState s = COMMMC_IMGXFER_WAIT_CHUNK_ACK"
    "cm_XferFile s = Some f" "xfer_params f s" "cm_XferCurChunk s = of_nat k"
    "k < unat (cm_XferTotalChunks s)"
  shows "xfer_run env (chunk_answers k @ is) s tr = xfer_run env is (chunk_done k s)
      (tr @ [SB_Transmit (spi_packet (of_nat k)
          (file_piece (unat (cm_XferChunkSize s)) (fst f) k)) CFE_SUCCESS,
        SB_Transmit (after_chunk k s) CFE_SUCCESS])"
  using OnChunkAck_accepted [OF assms] assms
  by (simp add: chunk_answers_def OnSpiDone_accepted [OF assms(1)] chunk_done_def after_chunk_def)

lemma cooperative_chunks:
  assumes env: "\<And>tr m. env_sb env tr m = CFE_SUCCESS"
  shows "cm_XferState s = COMMMC_IMGXFER_WAIT_CHUNK_ACK \<Longrightarrow> cm_XferFile s = Some f \<Longrightarrow>
    xfer_params f s \<Longrightarrow> cm_XferCurChunk s = of_nat k \<Longrightarrow>
    unat (cm_XferTotalChunks s) = k + Suc n \<Longrightarrow>
    \<exists>tr'. xfer_run env (concat (map chunk_answers [k..<k + Suc n])) s tr =
        Returns (s\<lparr>cm_XferCurChunk := cm_XferTotalChunks s, cm_XferStuckTicks := 0,
          cm_XferState := COMMMC_IMGXFER_WAIT_RESULT\<rparr>, tr') \<and>
      sb_sent tr' = sb_sent tr @
        [spi_packet (of_nat k) (file_piece (unat (cm_XferChunkSize s)) (fst f) k)] @
        concat (map (chunk_traffic (cm_XferPeerNode s) (unat (cm_XferChunkSize s)) (fst f))
          [Suc k..<k + Suc n]) @
        [control_msg (cm_XferPeerNode s) CANIOMC_IMG_XFER_END_MSGID []]"
proof (induction n arbitrary: k s tr)
  case 0
  then have "cm_XferTotalChunks s = of_nat (Suc k)" by (metis Suc_eq_plus1 One_nat_def of_nat_unat ucast_id)
  with 0 show ?case
    using cooperative_chunk [OF env, of s f k "[]" tr]
    by (simp add: chunk_done_def after_chunk_def)
next
  case (Suc n)
  let ?s2 = "chunk_done k s"
  let ?tr2 = "tr @ [SB_Transmit (spi_packet (of_nat k)
      (file_piece (unat (cm_XferChunkSize s)) (fst f) k)) CFE_SUCCESS,
    SB_Transmit (after_chunk k s) CFE_SUCCESS]"
  have s2: "cm_XferState ?s2 = COMMMC_IMGXFER_WAIT_CHUNK_ACK" "cm_XferFile ?s2 = Some f"
    "xfer_params f ?s2" "cm_XferCurChunk ?s2 = of_nat (Suc k)"
    "unat (cm_XferTotalChunks ?s2) = Suc k + Suc n"
    using Suc.prems by (simp_all add: chunk_done_def xfer_params_def)
  have up: "[k..<k + Suc (Suc n)] = k # [Suc k..<Suc k + Suc n]"
    "[Suc k..<k + Suc (Suc n)] = Suc k # [Suc (Suc k)..<Suc k + Suc n]"
    by (simp_all add: upt_conv_Cons del: upt_Suc)
  have first: "xfer_run env (concat (map chunk_answers [k..<k + Suc (Suc n)])) s tr =
      xfer_run env (concat (map chunk_answers [Suc k..<Suc k + Suc n])) ?s2 ?tr2"
    unfolding up using cooperative_chunk [OF env Suc.prems(1-4)] Suc.prems(5) by simp
  from Suc.IH [OF s2, of ?tr2] first show ?case unfolding up(2)
    using Suc.prems(5)
    by (auto simp: chunk_done_def after_chunk_def chunk_traffic_def simp del: upt_Suc)
qed

definition peer_of :: "CANIOMC_RouteTriggerPkt \<Rightarrow> u8" where
  "peer_of req = (if rt_SenderID req \<noteq> CANIOMC_OBC_ID then rt_SenderID req else CANIOMC_COMM_ID)"

text \<open>Everything the OBC sends for one image: BEGIN, then for each chunk its READY and its data, END.\<close>

definition image_traffic :: "u8 \<Rightarrow> u32 \<Rightarrow> nat \<Rightarrow> u8 list \<Rightarrow> SB_Msg list" where
  "image_traffic peer img c bs =
     [control_msg peer CANIOMC_IMG_XFER_BEGIN_MSGID (announcement img CANIOMC_SPI_MAX_CHUNK bs)] @
     concat (map (chunk_traffic peer c bs) [0..<length (chunks c bs)]) @
     [control_msg peer CANIOMC_IMG_XFER_END_MSGID []]"

lemma ComputeFileCrcAndSize_ok:
  assumes "stable_files env" "env_file env [] q = Some (bs, None)"
  shows "ComputeFileCrcAndSize env q tr =
    ((CFE_SUCCESS, crc32_of bs, of_nat (length bs)), tr @ [Fopen q, Fclose])"
proof -
  have "env_file env tr q = Some (bs, None)"
    using assms unfolding stable_files_def by metis
  then show ?thesis
    by (simp add: ComputeFileCrcAndSize_def file_open_def crc_file_loop_eq readable_def
        crc32_init_def crc32_close_def crc32_of_def)
qed

lemma cooperative_begin:
  assumes env: "\<And>tr m. env_sb env tr m = CFE_SUCCESS" "stable_files env"
    and path: "\<And>tr. env_path env tr (cm_LastPhotoPath s) = Some q"
    and fl: "env_file env [] q = Some (bs, None)" "bs \<noteq> []"
    and idle: "cm_XferState s = COMMMC_IMGXFER_IDLE" "cm_HasLastPhoto s"
  shows "\<exists>s' tr'. COMMMC_ImgXfer_OnRequest env (Some req) s tr = (s', tr') \<and>
      cm_XferState s' = COMMMC_IMGXFER_WAIT_BEGIN_ACK \<and> cm_XferFile s' = Some (bs, None) \<and>
      xfer_params (bs, None) s' \<and> cm_XferPeerNode s' = peer_of req \<and>
      cm_CmdCounter s' = cm_CmdCounter s \<and> cm_ErrCounter s' = cm_ErrCounter s \<and>
      sb_sent tr' = sb_sent tr @ [control_msg (peer_of req) CANIOMC_IMG_XFER_BEGIN_MSGID
        (announcement (cm_LastPhotoImageId s) CANIOMC_SPI_MAX_CHUNK bs)]"
proof -
  have len: "length bs < 4294963200" "env_file env tr' q = Some (bs, None)" for tr'
    using env(2) fl(1) unfolding stable_files_def by (metis fst_conv, metis)
  have nz: "(of_nat (length bs) :: u32) \<noteq> 0"
  proof
    assume "(of_nat (length bs) :: u32) = 0"
    then have "unat (of_nat (length bs) :: u32) = 0" by simp
    with len(1) fl(2) show False by (simp add: unat_of_nat)
  qed
  show ?thesis
    using path len nz idle fl
    by (simp add: COMMMC_ImgXfer_OnRequest_def Let_def ComputeFileCrcAndSize_ok [OF env(2) fl(1)]
        file_open_def start_transfer_def default_chunk SendBegin_def SendCanControl_eq env(1)
        begin_payload_def announcement_def xfer_params_def peer_of_def send_event_def
        COMMMC_IMGXFER_DEFAULT_CHUNK_def CANIOMC_SPI_MAX_CHUNK_def)
qed

text \<open>The acknowledgement of BEGIN: accepted, with the card's chunk size.\<close>

definition accepts_begin :: "CANIOMC_RouteTriggerPkt \<Rightarrow> u16 \<Rightarrow> bool" where
  "accepts_begin ack c \<longleftrightarrow> 4 \<le> rt_PayloadLen ack \<and> rt_Payload ack ! 1 = 0 \<and>
     get16be (rt_Payload ack) 2 = c \<and> 1 \<le> c \<and> c \<le> CANIOMC_SPI_MAX_CHUNK"

lemma cooperative_begin_ack:
  assumes env: "\<And>tr m. env_sb env tr m = CFE_SUCCESS"
    and s: "cm_XferState s = COMMMC_IMGXFER_WAIT_BEGIN_ACK" "xfer_params f s"
    and ack: "accepts_begin ack c"
  shows "\<exists>s' tr'. COMMMC_ImgXfer_OnBeginAck env (Some ack) s tr = (s', tr') \<and>
      cm_XferState s' = COMMMC_IMGXFER_WAIT_CHUNK_ACK \<and> cm_XferFile s' = cm_XferFile s \<and>
      xfer_params f s' \<and> cm_XferPeerNode s' = cm_XferPeerNode s \<and>
      cm_XferCurChunk s' = 0 \<and> cm_XferChunkSize s' = c \<and>
      cm_CmdCounter s' = cm_CmdCounter s \<and> cm_ErrCounter s' = cm_ErrCounter s \<and>
      sb_sent tr' = sb_sent tr @ [chunk_ready (cm_XferPeerNode s) 0]"
proof -
  have "\<not> rt_PayloadLen ack < 4" using ack by (simp add: accepts_begin_def not_less)
  then show ?thesis using ack s
    by (simp add: COMMMC_ImgXfer_OnBeginAck_def accepts_begin_def Let_def SendChunkReady_def
        SendCanControl_eq env chunk_ready_def xfer_params_def)
qed

lemma chunk_traffic_all:
  "concat (map (\<lambda>k. [chunk_ready peer k, d k]) [0..<Suc n]) =
   chunk_ready peer 0 # d 0 # concat (map (\<lambda>k. [chunk_ready peer k, d k]) [Suc 0..<Suc n])"
  by (simp add: upt_conv_Cons del: upt_Suc)

lemma cooperative_transfer:
  assumes env: "\<And>tr m. env_sb env tr m = CFE_SUCCESS" "stable_files env"
    and path: "\<And>tr. env_path env tr (cm_LastPhotoPath s) = Some q"
    and fl: "env_file env [] q = Some (bs, None)" "bs \<noteq> []"
    and idle: "cm_XferState s = COMMMC_IMGXFER_IDLE" "cm_HasLastPhoto s"
    and ack: "accepts_begin ack c"
  shows "\<exists>s' tr'. xfer_run env ([Img_Request req, Begin_Ack ack] @
        concat (map chunk_answers [0..<length (chunks (unat c) bs)])) s tr = Returns (s', tr') \<and>
      cm_XferState s' = COMMMC_IMGXFER_WAIT_RESULT \<and>
      cm_CmdCounter s' = cm_CmdCounter s \<and> cm_ErrCounter s' = cm_ErrCounter s \<and>
      sb_sent tr' = sb_sent tr @ image_traffic (peer_of req) (cm_LastPhotoImageId s) (unat c) bs"
proof -
  obtain s1 tr1 where r: "COMMMC_ImgXfer_OnRequest env (Some req) s tr = (s1, tr1)"
    and s1: "cm_XferState s1 = COMMMC_IMGXFER_WAIT_BEGIN_ACK" "cm_XferFile s1 = Some (bs, None)"
      "xfer_params (bs, None) s1" "cm_XferPeerNode s1 = peer_of req"
      "cm_CmdCounter s1 = cm_CmdCounter s" "cm_ErrCounter s1 = cm_ErrCounter s"
    and t1: "sb_sent tr1 = sb_sent tr @ [control_msg (peer_of req) CANIOMC_IMG_XFER_BEGIN_MSGID
        (announcement (cm_LastPhotoImageId s) CANIOMC_SPI_MAX_CHUNK bs)]"
    using cooperative_begin [OF env path fl idle] by blast
  obtain s2 tr2 where b: "COMMMC_ImgXfer_OnBeginAck env (Some ack) s1 tr1 = (s2, tr2)"
    and s2: "cm_XferState s2 = COMMMC_IMGXFER_WAIT_CHUNK_ACK" "cm_XferFile s2 = Some (bs, None)"
      "xfer_params (bs, None) s2" "cm_XferPeerNode s2 = peer_of req" "cm_XferCurChunk s2 = 0"
      "cm_XferChunkSize s2 = c" "cm_CmdCounter s2 = cm_CmdCounter s"
      "cm_ErrCounter s2 = cm_ErrCounter s"
    and t2: "sb_sent tr2 = sb_sent tr1 @ [chunk_ready (peer_of req) 0]"
    using cooperative_begin_ack [OF env(1) s1(1,3) ack, of tr1] s1 by auto
  obtain n where n: "length (chunks (unat c) bs) = Suc n"
    using fl(2) ack by (cases "chunks (unat c) bs")
      (auto simp: accepts_begin_def word_le_nat_alt chunks.simps [of _ bs])
  have T: "unat (cm_XferTotalChunks s2) = 0 + Suc n"
    using xfer_params_total(2,3) [OF s2(3)] n s2(6) length_chunks [of "unat c" bs] by simp
  obtain tr3 where run: "xfer_run env (concat (map chunk_answers [0..<Suc n])) s2 tr2 =
        Returns (s2\<lparr>cm_XferCurChunk := cm_XferTotalChunks s2, cm_XferStuckTicks := 0,
          cm_XferState := COMMMC_IMGXFER_WAIT_RESULT\<rparr>, tr3)"
    and t3: "sb_sent tr3 = sb_sent tr2 @ [spi_packet 0 (file_piece (unat c) bs 0)] @
        concat (map (chunk_traffic (peer_of req) (unat c) bs) [Suc 0..<Suc n]) @
        [control_msg (peer_of req) CANIOMC_IMG_XFER_END_MSGID []]"
    using cooperative_chunks [OF env(1) s2(1,2,3) _ T, of tr2] s2(4-6) by auto
  have "sb_sent tr3 = sb_sent tr @
      image_traffic (peer_of req) (cm_LastPhotoImageId s) (unat c) bs"
    unfolding t3 t2 t1 image_traffic_def n chunk_traffic_def chunk_traffic_all by simp
  with run r b s2(7,8) show ?thesis unfolding n by simp
qed

lemma xfer_run_append:
  "xfer_run env (is @ js) s tr =
   run_bind (xfer_run env is s tr) (\<lambda>(s', tr'). xfer_run env js s' tr')"
  by (induction "is" arbitrary: s tr) (auto simp: run_bind_assoc split_def)

lemma xfer_run_reach:
  "xfer_run env is s tr = Returns (s', tr') \<Longrightarrow> xfer_reach env s tr \<Longrightarrow> xfer_reach env s' tr'"
proof (induction "is" arbitrary: s tr)
  case (Cons i "is")
  then show ?case by (auto simp: run_bind_Returns_iff intro: xfer_reach.step)
qed simp

lemma Abort_counters:
  "cm_CmdCounter (fst (Abort env s tr)) = cm_CmdCounter s"
  "cm_ErrCounter (fst (Abort env s tr)) = cm_ErrCounter s + 1"
  "cm_XferState (fst (Abort env s tr)) = COMMMC_IMGXFER_IDLE"
  "cm_XferFile (fst (Abort env s tr)) = None"
  "sb_sent (snd (Abort env s tr)) =
     sb_sent tr @ [control_msg (cm_XferPeerNode s) CANIOMC_IMG_XFER_ABORT_MSGID []]"
  by (cases "cm_XferFile s"; auto simp: Abort_def SendCanControl_eq CloseXferFile_def send_event_def)+

lemma Abort_keeps_count: "Abort env s tr = (s', tr') \<Longrightarrow> cm_CmdCounter s' = cm_CmdCounter s"
  using Abort_counters(1) [of env s tr] by simp

lemma counted_in_last_state:
  "xfer_step env i s tr = Returns (s', tr') \<Longrightarrow> cm_CmdCounter s' \<noteq> cm_CmdCounter s \<Longrightarrow>
   cm_XferState s = COMMMC_IMGXFER_WAIT_RESULT"
  by (cases i)
    (auto simp: COMMMC_ImgXfer_OnDsFileComplete_def COMMMC_ImgXfer_OnRequest_def start_transfer_def
      COMMMC_ImgXfer_OnBeginAck_def COMMMC_ImgXfer_OnChunkAck_def COMMMC_ImgXfer_OnSpiDone_def
      COMMMC_ImgXfer_OnResult_def COMMMC_ImgXfer_OnTick_def run_bind_Returns_iff Let_def
      dest!: Abort_keeps_count split: if_splits option.splits prod.splits)

lemma below_three:
  assumes "(x :: u16) < 3"
  shows "x = 0 \<or> x = 1 \<or> x = 2"
proof -
  have "unat x < 3" using assms by (simp add: word_less_nat_alt)
  then have "unat x = 0 \<or> unat x = 1 \<or> unat x = 2" by auto
  then show ?thesis by (simp add: word_unat_eq_iff)
qed

lemma tick_counts:
  assumes "cm_XferState s \<noteq> COMMMC_IMGXFER_IDLE" "cm_XferStuckTicks s + 1 < 3"
  shows "COMMMC_ImgXfer_OnTick env s tr =
    (s\<lparr>cm_XferStuckTicks := cm_XferStuckTicks s + 1\<rparr>, tr)"
  using assms leD [of 3 "cm_XferStuckTicks s + 1"]
  by (auto simp: COMMMC_ImgXfer_OnTick_def COMMMC_IMGXFER_MAX_STUCK_TICKS_def Let_def)

lemma tick_aborts:
  assumes "cm_XferState s \<noteq> COMMMC_IMGXFER_IDLE" "\<not> cm_XferStuckTicks s + 1 < 3"
  shows "COMMMC_ImgXfer_OnTick env s tr =
    Abort env (s\<lparr>cm_XferStuckTicks := cm_XferStuckTicks s + 1\<rparr>) tr"
  using assms leI [of "cm_XferStuckTicks s + 1" 3]
  by (auto simp: COMMMC_ImgXfer_OnTick_def COMMMC_IMGXFER_MAX_STUCK_TICKS_def Let_def)

lemma idle_ticks:
  "cm_XferState s = COMMMC_IMGXFER_IDLE \<Longrightarrow> xfer_run env (replicate n Tick) s tr = Returns (s, tr)"
  by (induction n) (simp_all add: COMMMC_ImgXfer_OnTick_def)

lemma ticks_end_transfer:
  assumes "cm_XferStuckTicks s < 3" "cm_XferState s \<noteq> COMMMC_IMGXFER_IDLE"
  shows "\<exists>s' tr'. xfer_run env [Tick, Tick, Tick] s tr = Returns (s', tr') \<and>
    cm_XferState s' = COMMMC_IMGXFER_IDLE \<and> cm_XferFile s' = None \<and>
    cm_ErrCounter s' = cm_ErrCounter s + 1 \<and> cm_CmdCounter s' = cm_CmdCounter s \<and>
    sb_sent tr' = sb_sent tr @ [control_msg (cm_XferPeerNode s) CANIOMC_IMG_XFER_ABORT_MSGID []]"
proof -
  have ab: "\<exists>s' tr'. xfer_run env (Tick # replicate n Tick) s1 tr = Returns (s', tr') \<and>
      cm_XferState s' = COMMMC_IMGXFER_IDLE \<and> cm_XferFile s' = None \<and>
      cm_ErrCounter s' = cm_ErrCounter s + 1 \<and> cm_CmdCounter s' = cm_CmdCounter s \<and>
      sb_sent tr' = sb_sent tr @ [control_msg (cm_XferPeerNode s) CANIOMC_IMG_XFER_ABORT_MSGID []]"
    if "s1 = s\<lparr>cm_XferStuckTicks := 2\<rparr>" for s1 n
  proof -
    obtain s' tr' where a: "Abort env (s1\<lparr>cm_XferStuckTicks := 3\<rparr>) tr = (s', tr')"
      by (metis prod.exhaust)
    with that Abort_counters [of env "s1\<lparr>cm_XferStuckTicks := 3\<rparr>" tr] idle_ticks [of s' env n tr']
    show ?thesis using tick_aborts [of s1 env tr] assms(2) by simp
  qed
  have cases: "cm_XferStuckTicks s = 0 \<or> cm_XferStuckTicks s = 1 \<or> cm_XferStuckTicks s = 2"
    using assms(1) by (rule below_three)
  have up: "xfer_run env (Tick # is) s1 tr =
      xfer_run env is (s1\<lparr>cm_XferStuckTicks := cm_XferStuckTicks s1 + 1\<rparr>) tr"
    if "cm_XferState s1 = cm_XferState s" "cm_XferStuckTicks s1 + 1 < 3" for s1 "is"
    using tick_counts [of s1 env tr] that assms(2) by simp
  have three: "[Tick, Tick, Tick] = Tick # replicate 2 Tick"
    "[Tick, Tick, Tick] = Tick # Tick # replicate 1 Tick"
    "[Tick, Tick, Tick] = Tick # Tick # Tick # replicate 0 Tick"
    by (simp_all add: numeral_2_eq_2)
  from cases show ?thesis
  proof (elim disjE)
    assume 0: "cm_XferStuckTicks s = 0"
    then show ?thesis unfolding three(3)
      using up [of s "Tick # Tick # replicate 0 Tick"]
        up [of "s\<lparr>cm_XferStuckTicks := 1\<rparr>" "Tick # replicate 0 Tick"] ab [OF refl, of 0] by simp
  next
    assume 1: "cm_XferStuckTicks s = 1"
    then show ?thesis unfolding three(2)
      using up [of s "Tick # replicate 1 Tick"] ab [OF refl, of 1] by simp
  next
    assume 2: "cm_XferStuckTicks s = 2"
    then have "s\<lparr>cm_XferStuckTicks := 2\<rparr> = s" by simp
    then show ?thesis unfolding three(1) using ab [OF refl, of 2] by simp
  qed
qed

section \<open>Properties\<close>

text \<open>A flight in which everything works, with one photo of five bytes; used by the witnesses.\<close>

definition photo_env :: Env where
  "photo_env = good_env\<lparr>env_file := \<lambda>_ p. Some ([1, 2, 3, 4, 5], None)\<rparr>"

definition photo_notice :: DS_FileInfo where
  "photo_notice = \<lparr>fi_FileAge = 0, fi_FileSize = 5, fi_FileRate = 0, fi_SequenceCount = 7,
     fi_EnableState = 1, fi_OpenState = 0, fi_FileName = ''/cf/photos/a''\<rparr>"

definition photo_state :: COMMMC_AppData where
  "photo_state = (COMMMC_ImgXfer_Init COMMMC_AppData_zero)\<lparr>cm_LastPhotoPath := ''/cf/photos/a'',
     cm_LastPhotoImageId := 7, cm_HasLastPhoto := True\<rparr>"

definition photo_request :: CANIOMC_RouteTriggerPkt where
  "photo_request = route_packet CANIOMC_COMM_ID []"

definition photo_ack :: CANIOMC_RouteTriggerPkt where
  "photo_ack = route_packet CANIOMC_COMM_ID [9, 0, 0, 2]"

lemma photo_env_ok:
  "stable_files photo_env" "env_sb photo_env tr m = CFE_SUCCESS"
  "env_path photo_env tr p = Some p" "env_file photo_env tr p = Some ([1, 2, 3, 4, 5], None)"
  by (simp_all add: photo_env_def good_env_def stable_files_def)

lemma photo_state_ok:
  "cm_XferState photo_state = COMMMC_IMGXFER_IDLE" "cm_HasLastPhoto photo_state"
  by (simp_all add: photo_state_def COMMMC_ImgXfer_Init_def)

lemma photo_ack_ok: "accepts_begin photo_ack 2"
  by code_simp

lemma photo_state_reach: "\<exists>tr. xfer_reach photo_env photo_state tr"
proof -
  have "xfer_step photo_env (File_Complete photo_notice) (COMMMC_ImgXfer_Init COMMMC_AppData_zero) []
      = Returns (photo_state, [EVS_SendEvent COMMMC COMMMC_IMGXFER_INF_EID EVS_INFORMATION])"
    by (simp add: COMMMC_ImgXfer_OnDsFileComplete_def photo_notice_def photo_state_def send_event_def
        COMMMC_IMGXFER_PHOTO_PREFIX_def COMMMC_IMGXFER_MAX_PATH_LEN_def)
  then show ?thesis by (blast intro: xfer_reach.intros)
qed

lemma photo_sent_reach:
  "\<exists>s tr. xfer_reach photo_env s tr \<and> cm_XferState s = COMMMC_IMGXFER_WAIT_RESULT \<and>
     cm_CmdCounter s = 0"
proof -
  obtain tr where r: "xfer_reach photo_env photo_state tr" using photo_state_reach by blast
  have zero: "cm_CmdCounter photo_state = 0"
    by (simp add: photo_state_def COMMMC_ImgXfer_Init_def COMMMC_AppData_zero_def)
  obtain s' tr' where run: "xfer_run photo_env ([Img_Request photo_request, Begin_Ack photo_ack] @
      concat (map chunk_answers [0..<length (chunks (unat (2 :: u16)) [1, 2, 3, 4, 5 :: u8])]))
      photo_state tr = Returns (s', tr')"
    and s': "cm_XferState s' = COMMMC_IMGXFER_WAIT_RESULT"
      "cm_CmdCounter s' = cm_CmdCounter photo_state"
    using cooperative_transfer [OF photo_env_ok(2,1,3,4) _ photo_state_ok photo_ack_ok,
        of photo_request tr] by auto
  have "xfer_reach photo_env s' tr'" using run r by (rule xfer_run_reach)
  with s' zero show ?thesis by auto
qed

text \<open>C11. A transfer with a card that accepts every message completes: the OBC hands over BEGIN with
  the true size and CRC, each chunk of the file announced and then clocked out in order, and END;
  it ends idle with the file closed and counts one success.\<close>
theorem image_transfer_completes:
  assumes "\<forall>tr m. env_sb env tr m = CFE_SUCCESS" "stable_files env"
    and "\<forall>tr. env_path env tr (cm_LastPhotoPath s) = Some q"
    and "env_file env [] q = Some (bs, None)" "bs \<noteq> []"
    and "cm_XferState s = COMMMC_IMGXFER_IDLE" "cm_HasLastPhoto s"
    and "accepts_begin ack c" "1 \<le> rt_PayloadLen res" "rt_Payload res ! 0 = 0"
  shows "\<exists>s' tr'. xfer_run env ([Img_Request req, Begin_Ack ack] @
        concat (map chunk_answers [0..<length (chunks (unat c) bs)]) @ [Xfer_Result res]) s tr =
      Returns (s', tr') \<and>
    cm_XferState s' = COMMMC_IMGXFER_IDLE \<and> cm_XferFile s' = None \<and>
    cm_CmdCounter s' = cm_CmdCounter s + 1 \<and> cm_ErrCounter s' = cm_ErrCounter s \<and>
    sb_sent tr' = sb_sent tr @ image_traffic (peer_of req) (cm_LastPhotoImageId s) (unat c) bs"
proof -
  obtain s2 tr2 where run: "xfer_run env ([Img_Request req, Begin_Ack ack] @
        concat (map chunk_answers [0..<length (chunks (unat c) bs)])) s tr = Returns (s2, tr2)"
    and s2: "cm_XferState s2 = COMMMC_IMGXFER_WAIT_RESULT" "cm_CmdCounter s2 = cm_CmdCounter s"
      "cm_ErrCounter s2 = cm_ErrCounter s"
    and t2: "sb_sent tr2 = sb_sent tr @
        image_traffic (peer_of req) (cm_LastPhotoImageId s) (unat c) bs"
    using cooperative_transfer [of env s q bs ack c req tr] assms by blast
  obtain s3 tr3 where fin: "COMMMC_ImgXfer_OnResult (Some res) s2 tr2 = (s3, tr3)"
    by (metis prod.exhaust)
  with s2 t2 assms(9,10) have "cm_XferState s3 = COMMMC_IMGXFER_IDLE \<and> cm_XferFile s3 = None \<and>
      cm_CmdCounter s3 = cm_CmdCounter s + 1 \<and> cm_ErrCounter s3 = cm_ErrCounter s \<and>
      sb_sent tr3 = sb_sent tr @ image_traffic (peer_of req) (cm_LastPhotoImageId s) (unat c) bs"
    by (cases "cm_XferFile s2") (auto simp: COMMMC_ImgXfer_OnResult_def Finish_def CloseXferFile_def send_event_def Let_def
        split: if_splits)
  with run fin show ?thesis unfolding append_assoc [symmetric] xfer_run_append by simp
qed

theorem image_transfer_completes_witness:
  "\<exists>s' tr'. xfer_run photo_env ([Img_Request photo_request, Begin_Ack photo_ack] @
        concat (map chunk_answers [0..<length (chunks 2 [1, 2, 3, 4, 5 :: u8])]) @
        [Xfer_Result (route_packet CANIOMC_COMM_ID [0])]) photo_state [] = Returns (s', tr') \<and>
    cm_XferState s' = COMMMC_IMGXFER_IDLE \<and> cm_CmdCounter s' = 1 \<and>
    sb_sent tr' = image_traffic CANIOMC_COMM_ID 7 2 [1, 2, 3, 4, 5]"
proof -
  have v: "peer_of photo_request = CANIOMC_COMM_ID" "cm_LastPhotoImageId photo_state = 7"
    "cm_CmdCounter photo_state = 0"
    by (simp_all add: peer_of_def photo_request_def route_packet_def node_defs photo_state_def
        COMMMC_ImgXfer_Init_def COMMMC_AppData_zero_def)
  have r: "1 \<le> rt_PayloadLen (route_packet CANIOMC_COMM_ID [0])"
    "rt_Payload (route_packet CANIOMC_COMM_ID [0]) ! 0 = 0" by code_simp+
  show ?thesis
    using image_transfer_completes [OF _ photo_env_ok(1) _ photo_env_ok(4) _ photo_state_ok
        photo_ack_ok r, where req = photo_request and tr = "[]"] photo_env_ok(2,3) v by auto
qed

text \<open>C20. In every reachable state the transfer data are consistent: a file is open exactly when a
  transfer runs, the chunk size is one the SPI packet can hold, the number of chunks is the size
  divided by it, the current chunk lies within the file, the stuck counter is below its limit; and
  no message can make the next step leave a buffer.\<close>
theorem image_transfer_invariant:
  assumes "stable_files env" "xfer_reach env s tr"
  shows "xfer_inv s \<and> (\<exists>s' tr'. xfer_step env i s tr = Returns (s', tr'))"
proof -
  have good: "xfer_good env (s, tr)" using assms by (intro xfer_reach_good)
  with xfer_step_good [OF assms(1) good, of i] show ?thesis
    by (auto simp: xfer_good_def returns_good_def split: run.splits)
qed

theorem image_transfer_invariant_witness:
  "\<exists>s tr. xfer_inv s \<and> cm_XferState s = COMMMC_IMGXFER_WAIT_RESULT \<and>
     (\<exists>s' tr'. xfer_step photo_env Tick s tr = Returns (s', tr'))"
proof -
  obtain s tr where s: "xfer_reach photo_env s tr" "cm_XferState s = COMMMC_IMGXFER_WAIT_RESULT"
    using photo_sent_reach by blast
  with image_transfer_invariant [OF photo_env_ok(1) s(1), of Tick] show ?thesis by blast
qed

text \<open>C21. The transfer leaks no file and closes none twice: in every reachable state exactly one
  stream is open while a transfer runs, and none otherwise, whatever path led there.\<close>
theorem image_streams_balanced:
  assumes "stable_files env" "xfer_reach env s tr"
  shows "streams_open env tr = (if cm_XferState s = COMMMC_IMGXFER_IDLE then 0 else 1)"
proof -
  have "xfer_good env (s, tr)" using assms by (intro xfer_reach_good)
  then show ?thesis using xfer_good_idle_file [of env s tr]
    by (cases "cm_XferFile s") (auto simp: xfer_good_def xfer_balanced_def xfer_inv_def)
qed

theorem image_streams_balanced_witness:
  "\<exists>s tr. xfer_inv s \<and> cm_XferState s = COMMMC_IMGXFER_WAIT_RESULT \<and> streams_open photo_env tr = 1"
proof -
  obtain s tr where s: "xfer_reach photo_env s tr" "cm_XferState s = COMMMC_IMGXFER_WAIT_RESULT"
    using photo_sent_reach by blast
  have "streams_open photo_env tr = 1"
    using image_streams_balanced [OF photo_env_ok(1) s(1)] s(2) by simp
  moreover have "xfer_inv s"
    using xfer_reach_good [OF s(1) photo_env_ok(1)] by (simp add: xfer_good_def)
  ultimately show ?thesis using s(2) by blast
qed

text \<open>C22. A silent card cannot hold a transfer: from any running state, three idle ticks in a row
  end it, with the file closed, one error counted and ABORT as the only message sent.\<close>
theorem image_transfer_times_out:
  assumes "stable_files env" "xfer_reach env s tr" "cm_XferState s \<noteq> COMMMC_IMGXFER_IDLE"
  shows "\<exists>s' tr'. xfer_run env [Tick, Tick, Tick] s tr = Returns (s', tr') \<and>
    cm_XferState s' = COMMMC_IMGXFER_IDLE \<and> cm_XferFile s' = None \<and>
    cm_ErrCounter s' = cm_ErrCounter s + 1 \<and> cm_CmdCounter s' = cm_CmdCounter s \<and>
    sb_sent tr' = sb_sent tr @ [control_msg (cm_XferPeerNode s) CANIOMC_IMG_XFER_ABORT_MSGID []]"
proof -
  have "xfer_good env (s, tr)" using assms by (intro xfer_reach_good)
  with assms(3) have t: "cm_XferStuckTicks s < 3"
    by (elim xfer_good_openE) (auto simp: xfer_open_def COMMMC_IMGXFER_MAX_STUCK_TICKS_def)
  show ?thesis using ticks_end_transfer [OF t assms(3)] by blast
qed

theorem image_transfer_times_out_witness:
  "\<exists>s tr s' tr'. cm_XferState s = COMMMC_IMGXFER_WAIT_RESULT \<and>
    xfer_run photo_env [Tick, Tick, Tick] s tr = Returns (s', tr') \<and>
    cm_XferState s' = COMMMC_IMGXFER_IDLE \<and> cm_XferFile s' = None"
proof -
  obtain s tr where s: "xfer_reach photo_env s tr" "cm_XferState s = COMMMC_IMGXFER_WAIT_RESULT"
    using photo_sent_reach by blast
  with image_transfer_times_out [OF photo_env_ok(1) s(1)] show ?thesis by fastforce
qed

end
