(* ===== verification/Img_Clock.thy ===== *)
theory Img_Clock
  imports Img_Xfer
begin

text \<open>
  What the SPI service reports to have clocked out. \<open>comm_view\<close> collects the chunks the application hands
  to the service; here a chunk counts only once the service has answered for it with a
  \<open>SPI_TX_DONE\<close> packet of status 0 and of its index. The record is a ghost: it is computed from the
  inputs of the machine and the messages it sends, and no code reads it.
\<close>

section \<open>The record\<close>

text \<open>The last announcement, the chunk handed over and not yet answered for, the bytes clocked out.\<close>

type_synonym clock = "u8 list \<times> (u16 \<times> u8 list) option \<times> u8 list"

definition clock_msg :: "clock \<Rightarrow> SB_Msg \<Rightarrow> clock" where
  "clock_msg c m = (case m of
      CANIOMC_CMD_MID p \<Rightarrow>
        (if hd_MessageID (cp_Header p) = CANIOMC_IMG_XFER_BEGIN_MSGID
         then (take (unat (cp_PayloadLen p)) (cp_Payload p), None, []) else c)
    | CANIOMC_SPI_TX_MID p \<Rightarrow>
        (fst c, Some (sx_ChunkIdx p, take (unat (sx_DataLen p)) (sx_Data p)), snd (snd c))
    | _ \<Rightarrow> c)"

fun clock_input :: "clock \<Rightarrow> Xfer_Input \<Rightarrow> clock" where
  "clock_input (a, Some (idx, d), out) (Spi_Done dn) =
     (a, None, if sd_Status dn = 0 \<and> sd_ChunkIdx dn = idx then out @ d else out)"
| "clock_input c i = c"

definition clock_step :: "clock \<Rightarrow> Xfer_Input \<Rightarrow> Trace \<Rightarrow> clock" where
  "clock_step c i cs = foldl clock_msg (clock_input c i) (sb_sent cs)"

text \<open>The reachable states with their record.\<close>

inductive xfer_clock :: "Env \<Rightarrow> COMMMC_AppData \<Rightarrow> Trace \<Rightarrow> clock \<Rightarrow> bool" for env where
  start: "xfer_clock env (COMMMC_ImgXfer_Init s) [] ([], None, [])"
| step: "xfer_clock env s tr c \<Longrightarrow> xfer_step env i s tr = Returns (s', tr') \<Longrightarrow>
    xfer_clock env s' tr' (clock_step c i (drop (length tr) tr'))"

lemma xfer_clock_reach: "xfer_clock env s tr c \<Longrightarrow> xfer_reach env s tr"
  by (induction rule: xfer_clock.induct) (auto intro: xfer_reach.intros)

lemma xfer_reach_clock: "xfer_reach env s tr \<Longrightarrow> \<exists>c. xfer_clock env s tr c"
  by (induction rule: xfer_reach.induct) (blast intro: xfer_clock.intros)+

lemma clock_control:
  "length pl < 256 \<Longrightarrow> length pl \<le> CANIOMC_SB_MAX_PAYLOAD \<Longrightarrow>
   clock_msg c (control_msg peer mid pl) = (if mid = CANIOMC_IMG_XFER_BEGIN_MSGID then (pl, None, []) else c)"
  by (simp add: clock_msg_def control_msg_def unat_of_nat)

lemma clock_spi_packet:
  "length d \<le> 4096 \<Longrightarrow> clock_msg c (spi_packet idx d) = (fst c, Some (idx, d), snd (snd c))"
  by (simp add: clock_msg_def spi_packet_def unat_of_nat)

lemma neutral_clock: "list_all xfer_neutral cs \<Longrightarrow> foldl clock_msg c (sb_sent cs) = c"
proof (induction cs arbitrary: c)
  case (Cons x cs)
  moreover have "foldl clock_msg c (sb_of x) = c" using Cons.prems
    by (cases x) (auto simp: xfer_neutral_def clock_msg_def split: SB_Msg.splits)
  ultimately show ?case by simp
qed simp


section \<open>The moves of the machine\<close>

text \<open>
  What a step does that matters here: it ends the transfer, announces one, hands over a chunk, takes the
  answer of the service, or leaves the record alone.
\<close>

inductive xfer_move :: "Xfer_Input \<Rightarrow> COMMMC_AppData \<Rightarrow> COMMMC_AppData \<Rightarrow> Trace \<Rightarrow> bool" where
  ends: "cm_XferState s' = COMMMC_IMGXFER_IDLE \<Longrightarrow> xfer_move i s s' cs"
| quiet: "list_all xfer_neutral cs \<Longrightarrow> cm_XferState s' = cm_XferState s \<Longrightarrow> cm_XferCurChunk s' = cm_XferCurChunk s \<Longrightarrow>
    (\<And>dn. i = Spi_Done dn \<Longrightarrow> cm_XferState s \<noteq> COMMMC_IMGXFER_WAIT_SPI_DONE) \<Longrightarrow> xfer_move i s s' cs"
| announces: "sb_sent cs = [control_msg peer CANIOMC_IMG_XFER_BEGIN_MSGID pl] \<Longrightarrow> length pl = 14 \<Longrightarrow>
    cm_XferState s' = COMMMC_IMGXFER_WAIT_BEGIN_ACK \<Longrightarrow> xfer_move i s s' cs"
| accepted: "list_all xfer_neutral cs \<Longrightarrow> cm_XferState s = COMMMC_IMGXFER_WAIT_BEGIN_ACK \<Longrightarrow>
    cm_XferState s' = COMMMC_IMGXFER_WAIT_CHUNK_ACK \<Longrightarrow> i = Begin_Ack p \<Longrightarrow> xfer_move i s s' cs"
| hands: "cs = [SB_Transmit (spi_packet (ucast (cm_XferCurChunk s)) d) st] \<Longrightarrow> length d \<le> 4096 \<Longrightarrow>
    cm_XferState s = COMMMC_IMGXFER_WAIT_CHUNK_ACK \<Longrightarrow> i = Chunk_Ack p \<Longrightarrow>
    cm_XferState s' = COMMMC_IMGXFER_WAIT_SPI_DONE \<Longrightarrow> cm_XferCurChunk s' = cm_XferCurChunk s \<Longrightarrow>
    xfer_move i s s' cs"
| clocked: "list_all xfer_neutral cs \<Longrightarrow> cm_XferState s = COMMMC_IMGXFER_WAIT_SPI_DONE \<Longrightarrow>
    i = Spi_Done dn \<Longrightarrow> sd_Status dn = 0 \<Longrightarrow> sd_ChunkIdx dn = ucast (cm_XferCurChunk s) \<Longrightarrow>
    cm_XferState s' \<noteq> COMMMC_IMGXFER_WAIT_SPI_DONE \<Longrightarrow> xfer_move i s s' cs"

definition moves :: "Xfer_Input \<Rightarrow> COMMMC_AppData \<Rightarrow> Trace \<Rightarrow> COMMMC_AppData \<times> Trace \<Rightarrow> bool" where
  "moves i s tr st \<longleftrightarrow> (\<exists>cs. snd st = tr @ cs \<and> xfer_move i s (fst st) cs)"

lemma moves_quiet:
  "list_all xfer_neutral cs \<Longrightarrow> cm_XferState s' = cm_XferState s \<Longrightarrow> cm_XferCurChunk s' = cm_XferCurChunk s \<Longrightarrow>
    (\<And>dn. i = Spi_Done dn \<Longrightarrow> cm_XferState s \<noteq> COMMMC_IMGXFER_WAIT_SPI_DONE) \<Longrightarrow> moves i s tr (s', tr @ cs)"
  by (auto simp: moves_def intro: xfer_move.quiet)

lemma moves_same:
  "(\<And>dn. i = Spi_Done dn \<Longrightarrow> cm_XferState s \<noteq> COMMMC_IMGXFER_WAIT_SPI_DONE) \<Longrightarrow> moves i s tr (s, tr)"
  using moves_quiet [of "[]" s s i tr] by simp

lemma Abort_moves: "moves i s tr (Abort env s' (tr @ cs))"
  by (cases "cm_XferFile s'") (auto simp: moves_def Abort_def SendCanControl_eq CloseXferFile_def send_event_def intro: xfer_move.ends)

lemma Abort_moves_here: "moves i s tr (Abort env s' tr)"
  using Abort_moves [of i s tr env s' "[]"] by simp

lemma Finish_moves: "moves i s tr (Finish ok s' tr)"
  by (cases "cm_XferFile s'")
    (auto simp: moves_def Finish_def CloseXferFile_def send_event_def Let_def intro: xfer_move.ends)

lemma neutral_control:
  "mid \<noteq> CANIOMC_IMG_XFER_BEGIN_MSGID \<Longrightarrow> xfer_neutral (SB_Transmit (control_msg peer mid pl) st)"
  by (simp add: xfer_neutral_def control_msg_def)

lemma start_transfer_moves: "moves i s0 tr (start_transfer env peer crc sz f s (tr @ cs))"
  if quiet: "sb_sent cs = []"
proof -
  define s1 where "s1 = s\<lparr>cm_XferFile := Some f,
      cm_XferPeerNode := (if peer \<noteq> CANIOMC_OBC_ID then peer else CANIOMC_COMM_ID),
      cm_XferImageId := cm_LastPhotoImageId s, cm_XferTotalSize := sz, cm_XferCrc32 := crc,
      cm_XferChunkSize := CANIOMC_SPI_MAX_CHUNK,
      cm_XferTotalChunks := (sz + ucast CANIOMC_SPI_MAX_CHUNK - 1) div ucast CANIOMC_SPI_MAX_CHUNK,
      cm_XferCurChunk := 0, cm_XferStuckTicks := 0\<rparr>"
  define m where "m = control_msg (cm_XferPeerNode s1) CANIOMC_IMG_XFER_BEGIN_MSGID (begin_payload s1)"
  define st where "st = env_sb env (tr @ cs) m"
  have eq: "start_transfer env peer crc sz f s (tr @ cs) =
      (if st \<noteq> CFE_SUCCESS then Abort env s1 (tr @ (cs @ [SB_Transmit m st]))
       else (s1\<lparr>cm_XferState := COMMMC_IMGXFER_WAIT_BEGIN_ACK\<rparr>, tr @ (cs @ [SB_Transmit m st,
          EVS_SendEvent COMMMC COMMMC_IMGXFER_INF_EID EVS_INFORMATION])))"
    unfolding start_transfer_def default_chunk Let_def s1_def [symmetric] SendBegin_def SendCanControl_def
      sb_transmit_def m_def [symmetric] st_def [symmetric] by (simp add: send_event_def)
  have "length (begin_payload s1) = 14" by (simp add: begin_payload_def)
  then have "xfer_move i s0 (s1\<lparr>cm_XferState := COMMMC_IMGXFER_WAIT_BEGIN_ACK\<rparr>)
      (cs @ [SB_Transmit m st, EVS_SendEvent COMMMC COMMMC_IMGXFER_INF_EID EVS_INFORMATION])"
    by (intro xfer_move.announces [where pl = "begin_payload s1"]) (simp_all add: quiet m_def)
  then have "moves i s0 tr (s1\<lparr>cm_XferState := COMMMC_IMGXFER_WAIT_BEGIN_ACK\<rparr>, tr @ (cs @ [SB_Transmit m st,
          EVS_SendEvent COMMMC COMMMC_IMGXFER_INF_EID EVS_INFORMATION]))"
    unfolding moves_def by (metis fst_conv snd_conv)
  then show ?thesis using Abort_moves [of i s0 tr env s1] by (simp only: eq split: if_split) simp
qed

lemma moves_end: "cm_XferState s' = COMMMC_IMGXFER_IDLE \<Longrightarrow> moves i s tr (s', tr @ cs)"
  by (auto simp: moves_def intro: xfer_move.ends)

lemma ComputeFileCrcAndSize_trace:
  "ComputeFileCrcAndSize env p tr = (r, tr') \<Longrightarrow> \<exists>cs. tr' = tr @ cs \<and> sb_sent cs = []"
  by (auto simp: ComputeFileCrcAndSize_def file_open_def Let_def split: option.splits prod.splits if_splits)

lemma OnRequest_moves: "moves (Img_Request req) s tr (COMMMC_ImgXfer_OnRequest env (Some req) s tr)"
proof (cases "cm_XferState s = COMMMC_IMGXFER_IDLE")
  case False
  then show ?thesis
    using moves_quiet [of "[EVS_SendEvent COMMMC COMMMC_IMGXFER_ERR_EID EVS_ERROR]" s s "Img_Request req" tr]
    by (simp add: COMMMC_ImgXfer_OnRequest_def send_event_def)
next
  case idle: True
  let ?p = "cm_LastPhotoPath s"
  let ?tr1 = "tr @ [OS_TranslatePath ?p]"
  show ?thesis
  proof (cases "cm_HasLastPhoto s \<and> env_path env tr ?p \<noteq> None")
    case False
    then show ?thesis using idle moves_end [OF idle, of "Img_Request req" s tr]
      by (auto simp: COMMMC_ImgXfer_OnRequest_def Let_def send_event_def)
  next
    case True
    then obtain q where q: "env_path env tr ?p = Some q" by auto
    obtain status crc sz tr2 where c: "ComputeFileCrcAndSize env q ?tr1 = ((status, crc, sz), tr2)"
      by (metis prod.exhaust)
    from ComputeFileCrcAndSize_trace [OF c] obtain cs where cs: "tr2 = tr @ OS_TranslatePath ?p # cs" "sb_sent cs = []"
      by auto
    show ?thesis
      using True idle c q cs(1) moves_end [of _ "Img_Request req" s tr]
        start_transfer_moves [of "OS_TranslatePath ?p # cs @ [Fopen q]" "Img_Request req" s tr env "rt_SenderID req" crc sz _ s]
      by (auto simp: COMMMC_ImgXfer_OnRequest_def Let_def file_open_def send_event_def cs(2) split: option.splits)
  qed
qed

lemma OnBeginAck_moves: "moves (Begin_Ack p) s tr (COMMMC_ImgXfer_OnBeginAck env (Some p) s tr)"
proof (cases "cm_XferState s = COMMMC_IMGXFER_WAIT_BEGIN_ACK")
  case False
  then show ?thesis by (auto simp: COMMMC_ImgXfer_OnBeginAck_def intro: moves_same)
next
  case w: True
  define k where "k = SB_Transmit (control_msg (cm_XferPeerNode s) CANIOMC_IMG_CHUNK_READY_MSGID (put16be 0))"
  have quiet: "list_all xfer_neutral [k st]" for st by (simp add: k_def neutral_control msgid_defs)
  have go: "moves (Begin_Ack p) s tr (s'\<lparr>cm_XferState := COMMMC_IMGXFER_WAIT_CHUNK_ACK\<rparr>, tr @ [k st])" for s' st
    using quiet w by (auto simp: moves_def intro!: xfer_move.accepted)
  show ?thesis
    using w go by (auto simp: COMMMC_ImgXfer_OnBeginAck_def SendChunkReady_def SendCanControl_eq Let_def k_def
      intro: Abort_moves Abort_moves_here)
qed

lemma OnChunkAck_moves:
  assumes good: "xfer_good env (s, tr)" and run: "COMMMC_ImgXfer_OnChunkAck env (Some p) s tr = Returns st"
  shows "moves (Chunk_Ack p) s tr st"
proof (cases "cm_XferState s = COMMMC_IMGXFER_WAIT_CHUNK_ACK")
  case False
  then show ?thesis using run by (auto simp: COMMMC_ImgXfer_OnChunkAck_def intro: moves_same)
next
  case w: True
  with good obtain f where f: "cm_XferFile s = Some f" "xfer_open f s" by (elim xfer_good_openE) auto
  then have par: "xfer_params f s" and lt: "cm_XferCurChunk s < cm_XferTotalChunks s"
    using w by (simp_all add: xfer_open_def xfer_progress_def)
  define d where "d = file_piece (unat (cm_XferChunkSize s)) (fst f) (unat (cm_XferCurChunk s))"
  define m where "m = spi_packet (ucast (cm_XferCurChunk s)) d"
  define r where "r = env_sb env tr m"
  have len: "length d \<le> 4096" using xfer_params_total(5) [OF par] by (simp add: d_def length_file_piece)
  have send: "SendSpiChunk env (cm_XferCurChunk s) s tr = Returns (r, tr @ [SB_Transmit m r])"
    using SendSpiChunk_in_range [OF f(1) par lt, of env tr] by (simp add: m_def d_def r_def sb_transmit_def)
  have "moves (Chunk_Ack p) s tr (s\<lparr>cm_XferStuckTicks := 0, cm_XferState := COMMMC_IMGXFER_WAIT_SPI_DONE\<rparr>,
      tr @ [SB_Transmit m r])"
    using w len by (auto simp: moves_def m_def intro!: xfer_move.hands)
  then show ?thesis using run w send
    by (auto simp: COMMMC_ImgXfer_OnChunkAck_def intro: Abort_moves Abort_moves_here split: if_splits)
qed

lemma OnSpiDone_moves: "moves (Spi_Done dn) s tr (COMMMC_ImgXfer_OnSpiDone env (Some dn) s tr)"
proof (cases "cm_XferState s = COMMMC_IMGXFER_WAIT_SPI_DONE")
  case False
  then show ?thesis by (auto simp: COMMMC_ImgXfer_OnSpiDone_def intro: moves_same)
next
  case w: True
  have quiet: "mid \<noteq> CANIOMC_IMG_XFER_BEGIN_MSGID \<Longrightarrow> list_all xfer_neutral [SB_Transmit (control_msg peer mid pl) st]"
    for mid peer pl st by (simp add: neutral_control)
  have go: "moves (Spi_Done dn) s tr (s', tr @ cs)"
    if "sd_Status dn = 0" "sd_ChunkIdx dn = ucast (cm_XferCurChunk s)" "list_all xfer_neutral cs"
      "cm_XferState s' \<noteq> COMMMC_IMGXFER_WAIT_SPI_DONE" for s' cs
    unfolding moves_def using that w by (metis fst_conv snd_conv xfer_move.clocked)
  show ?thesis
    using w by (auto simp: COMMMC_ImgXfer_OnSpiDone_def SendChunkReady_def SendCanControl_eq Let_def
      intro!: go quiet Abort_moves Abort_moves_here simp: msgid_defs)
qed

lemma OnResult_moves: "moves (Xfer_Result p) s tr (COMMMC_ImgXfer_OnResult (Some p) s tr)"
  by (auto simp: COMMMC_ImgXfer_OnResult_def intro: moves_same Finish_moves)

lemma OnTick_moves: "moves Tick s tr (COMMMC_ImgXfer_OnTick env s tr)"
  using moves_quiet [of "[]" "s\<lparr>cm_XferStuckTicks := cm_XferStuckTicks s + 1\<rparr>" s Tick tr]
  by (auto simp: COMMMC_ImgXfer_OnTick_def Let_def intro: moves_same Abort_moves_here)

lemma OnDsFileComplete_moves: "moves (File_Complete p) s tr (COMMMC_ImgXfer_OnDsFileComplete (Some p) s tr)"
  using OnDsFileComplete_frame [of "Some p" s tr]
  by (auto simp: xfer_view_def intro!: moves_quiet)

lemma xfer_step_moves:
  "xfer_good env (s, tr) \<Longrightarrow> xfer_step env i s tr = Returns st \<Longrightarrow> moves i s tr st"
  by (cases i) (auto simp: OnDsFileComplete_moves OnRequest_moves OnBeginAck_moves OnChunkAck_moves
      OnSpiDone_moves OnResult_moves OnTick_moves)


section \<open>The record agrees with the traffic\<close>

text \<open>
  While a transfer runs, the bytes handed over are those clocked out and, while the answer of the service
  is awaited, the chunk it is awaited for.
\<close>

definition clock_ok :: "COMMMC_AppData \<Rightarrow> Trace \<Rightarrow> clock \<Rightarrow> bool" where
  "clock_ok s tr c \<longleftrightarrow> cm_XferState s \<noteq> COMMMC_IMGXFER_IDLE \<longrightarrow> fst c = fst (comm_view tr) \<and>
     (case fst (snd c) of
        None \<Rightarrow> cm_XferState s \<noteq> COMMMC_IMGXFER_WAIT_SPI_DONE \<and> snd (snd c) = snd (comm_view tr)
      | Some (idx, d) \<Rightarrow> cm_XferState s = COMMMC_IMGXFER_WAIT_SPI_DONE \<and> idx = ucast (cm_XferCurChunk s) \<and>
          snd (snd c) @ d = snd (comm_view tr))"

lemma clock_input_other: "(\<And>dn. i \<noteq> Spi_Done dn) \<Longrightarrow> clock_input c i = c"
  by (cases "(c, i)" rule: clock_input.cases) auto

lemma clock_input_None: "fst (snd c) = None \<Longrightarrow> clock_input c i = c"
  by (cases "(c, i)" rule: clock_input.cases) auto

lemma move_clock:
  assumes "xfer_move i s s' cs" "clock_ok s tr c"
  shows "clock_ok s' (tr @ cs) (clock_step c i cs)"
  using assms
proof (cases rule: xfer_move.cases)
  case ends
  then show ?thesis by (simp add: clock_ok_def)
next
  case quiet
  have "clock_input c i = c" if "cm_XferState s \<noteq> COMMMC_IMGXFER_IDLE"
  proof (cases "fst (snd c)")
    case (Some x)
    with assms(2) that have "cm_XferState s = COMMMC_IMGXFER_WAIT_SPI_DONE"
      by (auto simp: clock_ok_def split: prod.splits)
    with quiet(4) show ?thesis by (intro clock_input_other) auto
  qed (rule clock_input_None)
  then show ?thesis using quiet(2,3) assms(2) neutral_trace [OF quiet(1)] neutral_clock [OF quiet(1)]
    by (auto simp: clock_ok_def clock_step_def split: option.splits)
next
  case (announces peer pl)
  then show ?thesis
    by (simp add: clock_ok_def clock_step_def clock_control note_control CANIOMC_SB_MAX_PAYLOAD_def)
next
  case (accepted p)
  then show ?thesis using assms(2) neutral_trace [OF accepted(1)]
    by (auto simp: clock_ok_def clock_step_def neutral_clock clock_input_other split: option.splits)
next
  case (hands d st p)
  then show ?thesis using assms(2)
    by (auto simp: clock_ok_def clock_step_def clock_input_other clock_spi_packet note_spi_packet split: option.splits)
next
  case (clocked dn)
  obtain a d out where c: "c = (a, Some (ucast (cm_XferCurChunk s), d), out)"
    using assms(2) clocked(2) by (cases c) (auto simp: clock_ok_def split: option.splits)
  then show ?thesis using clocked assms(2) neutral_trace [OF clocked(1)]
    by (auto simp: clock_ok_def clock_step_def neutral_clock)
qed

lemma xfer_clock_ok:
  "xfer_clock env s tr c \<Longrightarrow> stable_files env \<Longrightarrow> clock_ok s tr c"
proof (induction rule: xfer_clock.induct)
  case (start s)
  show ?case by (simp add: clock_ok_def COMMMC_ImgXfer_Init_def)
next
  case (step s tr c i s' tr')
  have "xfer_good env (s, tr)" using step by (intro xfer_reach_good xfer_clock_reach)
  from xfer_step_moves [OF this step(2)] obtain cs where "tr' = tr @ cs" "xfer_move i s s' cs"
    by (auto simp: moves_def)
  with move_clock [of i s s' cs tr c] step show ?case by simp
qed


section \<open>Properties\<close>

lemma counted_on_good_result:
  assumes "xfer_step env i s tr = Returns (s', tr')" "cm_CmdCounter s' \<noteq> cm_CmdCounter s"
    and "cm_XferState s = COMMMC_IMGXFER_WAIT_RESULT"
  shows "\<exists>p. i = Xfer_Result p \<and> 1 \<le> rt_PayloadLen p \<and> rt_Payload p ! 0 = 0"
  using assms
  by (cases i) (auto simp: COMMMC_ImgXfer_OnDsFileComplete_def COMMMC_ImgXfer_OnRequest_def
      COMMMC_ImgXfer_OnBeginAck_def COMMMC_ImgXfer_OnChunkAck_def COMMMC_ImgXfer_OnSpiDone_def
      COMMMC_ImgXfer_OnResult_def COMMMC_ImgXfer_OnTick_def Finish_def CloseXferFile_def Let_def
      dest!: Abort_keeps_count split: if_splits option.splits prod.splits)

text \<open>C8. Success is only ever counted for a whole image: a step that increments the command counter is
  the card's result with status 0, taken in the last state; by then every chunk handed to the SPI service
  since BEGIN has been answered by it with status 0 and the index of the chunk, and the chunks clocked
  out are the complete file, with the size and the CRC that BEGIN announced.\<close>
theorem image_success_means_whole_file:
  assumes "stable_files env" "xfer_clock env s tr c"
    and "xfer_step env i s tr = Returns (s', tr')" "cm_CmdCounter s' \<noteq> cm_CmdCounter s"
  shows "cm_XferState s = COMMMC_IMGXFER_WAIT_RESULT \<and>
    (\<exists>p. i = Xfer_Result p \<and> 1 \<le> rt_PayloadLen p \<and> rt_Payload p ! 0 = 0) \<and>
    (\<exists>bs chunk. cm_XferFile s = Some (bs, None) \<and>
       comm_view tr = (announcement (cm_XferImageId s) chunk bs, bs) \<and>
       c = (announcement (cm_XferImageId s) chunk bs, None, bs))"
proof -
  have w: "cm_XferState s = COMMMC_IMGXFER_WAIT_RESULT"
    using assms(3,4) by (rule counted_in_last_state)
  have "xfer_good env (s, tr)" using assms by (intro xfer_reach_good xfer_clock_reach)
  with w obtain f chunk where f: "cm_XferFile s = Some f" "xfer_open f s"
    "snd (comm_view tr) = fst f" "fst (comm_view tr) = announcement (cm_XferImageId s) chunk (fst f)"
    by (elim xfer_good_openE) (auto simp: bytes_due_def)
  moreover have "c = (fst (comm_view tr), None, snd (comm_view tr))"
    using xfer_clock_ok [OF assms(2,1)] w by (cases c) (auto simp: clock_ok_def split: option.splits)
  moreover have "\<exists>p. i = Xfer_Result p \<and> 1 \<le> rt_PayloadLen p \<and> rt_Payload p ! 0 = 0"
    using assms(3,4) w by (rule counted_on_good_result)
  ultimately show ?thesis using w
    by (cases f; cases "comm_view tr") (auto simp: xfer_open_def xfer_params_def)
qed

theorem image_success_means_whole_file_witness:
  "\<exists>s tr bs chunk. xfer_clock photo_env s tr (announcement (cm_XferImageId s) chunk bs, None, bs) \<and>
     cm_XferState s = COMMMC_IMGXFER_WAIT_RESULT \<and> cm_XferFile s = Some (bs, None)"
proof -
  obtain s tr where s: "xfer_reach photo_env s tr" "cm_XferState s = COMMMC_IMGXFER_WAIT_RESULT"
    "cm_CmdCounter s = 0" using photo_sent_reach by blast
  obtain c where c: "xfer_clock photo_env s tr c" using xfer_reach_clock [OF s(1)] by blast
  let ?i = "Xfer_Result (route_packet CANIOMC_COMM_ID [0])"
  have r: "1 \<le> rt_PayloadLen (route_packet CANIOMC_COMM_ID [0])"
    "rt_Payload (route_packet CANIOMC_COMM_ID [0]) ! 0 = 0" by code_simp+
  obtain s' tr' where i: "xfer_step photo_env ?i s tr = Returns (s', tr')"
    by (metis xfer_step.simps(6) prod.exhaust)
  with s r have "cm_CmdCounter s' = 1"
    by (cases "cm_XferFile s")
      (auto simp: COMMMC_ImgXfer_OnResult_def Finish_def CloseXferFile_def Let_def)
  then show ?thesis
    using image_success_means_whole_file [OF photo_env_ok(1) c i] s c by auto
qed

end
