(* ===== verification/Ground_Tx.thy ===== *)
theory Ground_Tx
  imports Img_Xfer Sha256 Decimal
begin

text \<open>
  The ground link of the communication application (\<open>commMC_app_cmds.c\<close>, \<open>commMC_app_utils.c\<close>,
  \<open>commMC_app_extern_typedefs.h\<close>): the endpoint string, the send loop with its partial sends, the
  telemetry packets and the transmission of a file. A packet is the bytes of its C struct on the
  little-endian target, with bit-fields allocated from the low bits as gcc does.
\<close>

section \<open>Constants\<close>

definition COMMMC_APP_GROUND_ENDPOINT :: string where
  "COMMMC_APP_GROUND_ENDPOINT = ''tcp://127.0.0.1:5000''"

definition COMMMC_APP_MINIMAL_TM_MTID :: u32 where
  "COMMMC_APP_MINIMAL_TM_MTID = 0"

definition COMMMC_APP_FILE_SEND_TM_MTID :: u32 where
  "COMMMC_APP_FILE_SEND_TM_MTID = 1"

definition COMMMC_FILE_SEND_SUCCESS_EID :: nat where "COMMMC_FILE_SEND_SUCCESS_EID = 104"

definition COMMMC_FILE_SEND_INIT_SUCCESS_EID :: nat where "COMMMC_FILE_SEND_INIT_SUCCESS_EID = 105"

definition COMMMC_FILE_OPEN_ERR_EID :: nat where "COMMMC_FILE_OPEN_ERR_EID = 216"

definition COMMMC_FILE_SIZE_ERR_EID :: nat where "COMMMC_FILE_SIZE_ERR_EID = 217"

definition COMMMC_FILE_HASH_ERR_EID :: nat where "COMMMC_FILE_HASH_ERR_EID = 218"

definition COMMMC_FILE_SEND_INIT_ERR_EID :: nat where "COMMMC_FILE_SEND_INIT_ERR_EID = 219"

definition COMMMC_FILE_SEND_ERR_EID :: nat where "COMMMC_FILE_SEND_ERR_EID = 220"

definition COMMMC_FILE_READ_ERR_EID :: nat where "COMMMC_FILE_READ_ERR_EID = 221"

definition COMMMC_FILE_SEND_LAST_ERR_EID :: nat where "COMMMC_FILE_SEND_LAST_ERR_EID = 222"

section \<open>Packets\<close>

record COMMMC_APP_TelemetryHeaderPacket =
  th_packetVersion :: "3 word"
  th_packetIdentificationType :: "1 word"
  th_packetIdentificationMTID :: "12 word"
  th_packetSequenceControl :: "2 word"
  th_packetSequenceCount :: "14 word"
  th_packetDataLength :: u32

record COMMMC_APP_TelemetrySecondaryHeaderPacket =
  ts_timestamp :: u32
  ts_crc32 :: u32

record COMMMC_APP_FileTransferHeaderPacket =
  ft_fileDataID :: u32
  ft_uniqueFileID :: u32
  ft_fileSize :: u32
  ft_fileHash :: "u8 list"
  ft_numberOfPDUs :: u16
  ft_pduDataLength :: u16

definition header_bytes :: "COMMMC_APP_TelemetryHeaderPacket \<Rightarrow> u8 list" where
  "header_bytes h = le32 (ucast (th_packetVersion h) OR
      push_bit 3 (ucast (th_packetIdentificationType h)) OR
      push_bit 4 (ucast (th_packetIdentificationMTID h)) OR
      push_bit 16 (ucast (th_packetSequenceControl h)) OR
      push_bit 18 (ucast (th_packetSequenceCount h))) @
    le32 (th_packetDataLength h)"

definition secondary_bytes :: "COMMMC_APP_TelemetrySecondaryHeaderPacket \<Rightarrow> u8 list" where
  "secondary_bytes h = le32 (ts_timestamp h) @ le32 (ts_crc32 h)"

definition file_header_bytes :: "COMMMC_APP_FileTransferHeaderPacket \<Rightarrow> u8 list" where
  "file_header_bytes h = le32 (ft_fileDataID h) @ le32 (ft_uniqueFileID h) @ le32 (ft_fileSize h) @
     ft_fileHash h @ le16 (ft_numberOfPDUs h) @ le16 (ft_pduDataLength h)"

definition COMMMC_APP_CREATE_TELEMETRY_HEADER ::
  "u32 \<Rightarrow> u32 \<Rightarrow> u32 \<Rightarrow> u32 \<Rightarrow> COMMMC_APP_TelemetryHeaderPacket" where
  "COMMMC_APP_CREATE_TELEMETRY_HEADER mtid sizeOfPayloadAndSecondaryHeader control count =
     \<lparr>th_packetVersion = 1, th_packetIdentificationType = 0,
      th_packetIdentificationMTID = ucast mtid, th_packetSequenceControl = ucast control,
      th_packetSequenceCount = ucast count,
      th_packetDataLength = sizeOfPayloadAndSecondaryHeader\<rparr>"

definition COMMMC_APP_CREATE_TELEMETRY_SECONDARY_HEADER ::
  "Env \<Rightarrow> u32 \<Rightarrow> Trace \<Rightarrow> COMMMC_APP_TelemetrySecondaryHeaderPacket \<times> Trace" where
  "COMMMC_APP_CREATE_TELEMETRY_SECONDARY_HEADER env crc32OfPayload tr =
     (\<lparr>ts_timestamp = fst (env_time env tr), ts_crc32 = crc32OfPayload\<rparr>, tr @ [Time_GetTime])"

section \<open>The endpoint\<close>

definition is_space :: "char \<Rightarrow> bool" where
  "is_space c \<longleftrightarrow> c = CHR '' '' \<or> (of_char c :: nat) \<in> {9..13}"

text \<open>\<open>strtol\<close> in base 10: the value and what follows it, or no conversion.\<close>

definition strtol10 :: "string \<Rightarrow> (int \<times> string) option" where
  "strtol10 s =
     (let t = dropWhile is_space s;
          neg = (take 1 t = ''-'');
          u = (if take 1 t = ''-'' \<or> take 1 t = ''+'' then drop 1 t else t);
          v = digits_value (takeWhile is_digit u)
      in if takeWhile is_digit u = [] then None
         else Some (if neg then - v else v, dropWhile is_digit u))"

text \<open>\<open>strrchr\<close>: what stands before and after the last colon.\<close>

fun split_last_colon :: "string \<Rightarrow> (string \<times> string) option" where
  "split_last_colon [] = None"
| "split_last_colon (c # cs) =
     (case split_last_colon cs of
        Some (a, b) \<Rightarrow> Some (c # a, b)
      | None \<Rightarrow> if c = CHR '':'' then Some ([], cs) else None)"

definition parse_endpoint :: "string \<Rightarrow> (string \<times> u16) option" where
  "parse_endpoint addr =
     (case split_last_colon addr of
        None \<Rightarrow> None
      | Some (before, after) \<Rightarrow>
          if before = [] \<or> after = [] then None
          else case strtol10 (take 15 after) of
              None \<Rightarrow> None
            | Some (port, rest) \<Rightarrow>
                if rest \<noteq> [] \<or> port \<le> 0 \<or> 65535 < port then None
                else Some (take 255 before, of_int port))"

section \<open>Sending\<close>

text \<open>
  The loop over \<open>send\<close> or \<open>write\<close>, with the pieces the kernel took; only the TCP loop gives up on an
  answer of 0. Without a further answer the call has not returned.
\<close>

fun send_loop :: "bool \<Rightarrow> Send_Answer list \<Rightarrow> u8 list \<Rightarrow> nat \<Rightarrow> u8 list list \<Rightarrow>
    (bool \<times> u8 list list) run" where
  "send_loop tcp answers dat sent pieces =
     (if length dat \<le> sent then Returns (True, pieces)
      else case answers of
          [] \<Rightarrow> Blocked
        | a # rest \<Rightarrow>
            (case a of
               Interrupted \<Rightarrow> send_loop tcp rest dat sent pieces
             | Failed \<Rightarrow> Returns (False, pieces)
             | Sent n \<Rightarrow>
                 if tcp \<and> n = 0 then Returns (False, pieces)
                 else send_loop tcp rest dat (sent + n)
                        (pieces @ [take n (drop sent dat)])))"

declare send_loop.simps [simp del]

definition transmit_over :: "bool \<Rightarrow> Ground_Link \<Rightarrow> u8 list \<Rightarrow> Trace \<Rightarrow> (CFE_Status \<times> Trace) run" where
  "transmit_over tcp link dat tr =
     (if \<not> gl_opened link \<or> \<not> gl_configured link \<or> \<not> gl_connected link
      then Returns (Status_Code 1, tr @ [Ground_Send [] (Status_Code 1)])
      else run_bind (send_loop tcp (gl_answers link) dat 0 []) (\<lambda>(ok, pieces).
        let status = (if ok then CFE_SUCCESS else Status_Code 1)
        in Returns (status, tr @ [Ground_Send (concat pieces) status])))"

definition COMMMC_APP_SEND_DATA_TO_GROUND ::
  "Env \<Rightarrow> string \<Rightarrow> u8 list \<Rightarrow> Trace \<Rightarrow> (CFE_Status \<times> Trace) run" where
  "COMMMC_APP_SEND_DATA_TO_GROUND env port dat tr =
     (if take 6 port = ''tcp://'' \<or> take 6 port = ''TCP://''
      then (case parse_endpoint (drop 6 port) of
              None \<Rightarrow> Returns (Status_Code 1, tr)
            | Some (host, port_num) \<Rightarrow> transmit_over True (env_ground env tr dat) dat tr)
      else transmit_over False (env_ground env tr dat) dat tr)"

definition minimal_payload :: "u8 list" where
  "minimal_payload = concat (map le32
     ([0x3F800000, 0, 0, 0, 0x3DCCCCCD, 0x3E4CCCCD, 0x3E99999A, 0x40F00000, 0xC04CCCCD, 0x3F8CCCCD,
       0x42C80000, 0x43480000, 0x43960000, 1500, 1600, 1700] @ [85, 95]))"

definition COMMMC_APP_SEND_MINIMAL_TM_TO_GROUND :: "Env \<Rightarrow> Trace \<Rightarrow> (CFE_Status \<times> Trace) run" where
  "COMMMC_APP_SEND_MINIMAL_TM_TO_GROUND env tr =
     (let crc = (case compute_crc32 (Some minimal_payload) of (st, Some c) \<Rightarrow> c | _ \<Rightarrow> 0);
          packetDataLength = of_nat (length minimal_payload + 8);
          header = COMMMC_APP_CREATE_TELEMETRY_HEADER COMMMC_APP_MINIMAL_TM_MTID packetDataLength 3 0
      in case COMMMC_APP_CREATE_TELEMETRY_SECONDARY_HEADER env crc tr of (secondary, tr1) \<Rightarrow>
           COMMMC_APP_SEND_DATA_TO_GROUND env COMMMC_APP_GROUND_ENDPOINT
             (header_bytes header @ secondary_bytes secondary @ minimal_payload) tr1)"

section \<open>Sending a file\<close>

text \<open>The hash of an open file, read in blocks of 8192 bytes; a \<open>NULL\<close> argument gives the error.\<close>

definition compute_sha256 :: "File option \<Rightarrow> Sha_256 \<Rightarrow> (CFE_Status \<times> u8 list) run" where
  "compute_sha256 fl ctx =
     (case fl of
        None \<Rightarrow> Returns (CFE_SEVERITY_ERROR, [])
      | Some f \<Rightarrow>
          run_bind (feed_blocks sha_256_write (sha_256_init ctx) (chunks 8192 (readable f))) (\<lambda>c.
            if snd f \<noteq> None then Returns (Status_Code (- 1), [])
            else run_bind (sha_256_close c) (\<lambda>hash. Returns (CFE_SUCCESS, hash))))"

abbreviation cm_count_error :: "COMMMC_AppData \<Rightarrow> COMMMC_AppData" where
  "cm_count_error s \<equiv> s\<lparr>cm_ErrCounter := cm_ErrCounter s + 1\<rparr>"

definition PDU_LEN :: nat where
  "PDU_LEN = 256"

text \<open>One file packet: headers and the 256 bytes of the data field.\<close>

definition send_pdu :: "Env \<Rightarrow> nat \<Rightarrow> u32 \<Rightarrow> u32 \<Rightarrow> u32 \<Rightarrow> u8 list \<Rightarrow> Trace \<Rightarrow>
    (CFE_Status \<times> Trace) run" where
  "send_pdu env bytes_read controlNumber counter crc32OfPayload field tr =
     (let header = COMMMC_APP_CREATE_TELEMETRY_HEADER COMMMC_APP_FILE_SEND_TM_MTID
            (of_nat (bytes_read + 8)) controlNumber counter
      in case COMMMC_APP_CREATE_TELEMETRY_SECONDARY_HEADER env crc32OfPayload tr of (secondary, tr1) \<Rightarrow>
           COMMMC_APP_SEND_DATA_TO_GROUND env COMMMC_APP_GROUND_ENDPOINT
             (header_bytes header @ secondary_bytes secondary @ field) tr1)"

definition crc_of_buffer :: "u8 list \<Rightarrow> u32" where
  "crc_of_buffer bs = (case compute_crc32 (Some bs) of (st, Some c) \<Rightarrow> c | _ \<Rightarrow> 0)"

text \<open>What the read loop leaves behind: the counter and, after a short read, its length and CRC.\<close>

record Chunk_End =
  ce_counter :: u32
  ce_halfChunk :: bool
  ce_bytes_read :: nat
  ce_crc32 :: u32
  ce_buffer :: "u8 list"

text \<open>\<open>bad\<close> says that the medium fails after the readable bytes; \<open>None\<close> is the read error.\<close>

function send_chunks :: "Env \<Rightarrow> bool \<Rightarrow> u8 list \<Rightarrow> u32 \<Rightarrow> u8 list \<Rightarrow> COMMMC_AppData \<Rightarrow> Trace \<Rightarrow>
    (Chunk_End option \<times> COMMMC_AppData \<times> Trace) run" where
  "send_chunks env bad rest counter buffer s tr =
     (let rd = take PDU_LEN rest; buffer' = rd @ drop (length rd) buffer in
      if rd = [] then
        (if \<not> bad
         then Returns (Some \<lparr>ce_counter = counter, ce_halfChunk = False, ce_bytes_read = 0,
                ce_crc32 = 0, ce_buffer = buffer'\<rparr>, s, tr)
         else Returns (None, cm_count_error s, cm_event COMMMC_FILE_READ_ERR_EID EVS_ERROR tr))
      else if length rd < PDU_LEN
      then Returns (Some \<lparr>ce_counter = counter + 1, ce_halfChunk = True,
             ce_bytes_read = length rd, ce_crc32 = crc_of_buffer rd, ce_buffer = buffer'\<rparr>, s, tr)
      else run_bind (send_pdu env (length rd) (if counter = 0 then 1 else 0) counter
              (crc_of_buffer rd) buffer' tr) (\<lambda>(status, tr1).
        if status \<noteq> CFE_SUCCESS
        then send_chunks env bad (drop PDU_LEN rest) (counter + 1) buffer' (cm_count_error s)
               (cm_event COMMMC_FILE_SEND_ERR_EID EVS_ERROR tr1)
        else send_chunks env bad (drop PDU_LEN rest) (counter + 1) buffer' s tr1))"
  by pat_completeness auto
termination send_chunks
  by (relation "measure (\<lambda>(env, bad, rest, x). length rest)") (auto simp: PDU_LEN_def)

declare send_chunks.simps [simp del]

text \<open>The second half: the last packet, and what is reported.\<close>

definition send_last :: "Env \<Rightarrow> Chunk_End \<Rightarrow> COMMMC_AppData \<Rightarrow> Trace \<Rightarrow>
    (CFE_Status \<times> COMMMC_AppData \<times> Trace) run" where
  "send_last env e s tr =
     (let bytes_read = (if ce_halfChunk e then ce_bytes_read e else 0);
          crc = (if ce_halfChunk e then ce_crc32 e else 0);
          buffer = (if ce_halfChunk e then ce_buffer e else zeros PDU_LEN)
      in run_bind (send_pdu env bytes_read 2 (ce_counter e) crc buffer tr) (\<lambda>(status, tr1).
           let tr2 = tr1 @ [Fclose] in
           if status \<noteq> CFE_SUCCESS
           then Returns (status, cm_count_error s,
                  cm_event COMMMC_FILE_SEND_LAST_ERR_EID EVS_ERROR tr2)
           else Returns (CFE_SUCCESS, s,
                  cm_event COMMMC_FILE_SEND_SUCCESS_EID EVS_INFORMATION tr2)))"

text \<open>
  \<open>junk\<close> and \<open>ctx\<close> are what the stack holds where the buffer and the hash context are allocated. An
  open regular file can be positioned; \<open>ftell\<close> fails when its size is not a \<open>long\<close>.
\<close>

definition COMMMC_APP_SEND_FILE_TO_GROUND ::
  "Env \<Rightarrow> u8 list \<Rightarrow> Sha_256 \<Rightarrow> string \<Rightarrow> COMMMC_AppData \<Rightarrow> Trace \<Rightarrow>
   (CFE_Status \<times> COMMMC_AppData \<times> Trace) run" where
  "COMMMC_APP_SEND_FILE_TO_GROUND env junk ctx file_path s tr =
     (case file_open env file_path tr of
        (None, tr1) \<Rightarrow> Returns (CFE_SEVERITY_ERROR, cm_count_error s,
           cm_event COMMMC_FILE_OPEN_ERR_EID EVS_ERROR tr1)
      | (Some f, tr1) \<Rightarrow>
          if 2 ^ 63 \<le> length (fst f)
          then Returns (CFE_SEVERITY_ERROR, cm_count_error s,
                 cm_event COMMMC_FILE_SIZE_ERR_EID EVS_ERROR tr1 @ [Fclose])
          else
            let totalFileSize = of_nat (length (fst f)) :: u32;
                numberOfPDUs = ucast ((totalFileSize + of_nat PDU_LEN - 1) div of_nat PDU_LEN) :: u16
            in run_bind (compute_sha256 (Some f) ctx) (\<lambda>(hash_status, fileHash).
              if hash_status \<noteq> CFE_SUCCESS
              then Returns (CFE_SEVERITY_ERROR, cm_count_error s,
                     cm_event COMMMC_FILE_HASH_ERR_EID EVS_ERROR tr1 @ [Fclose])
              else
                let file_header = \<lparr>ft_fileDataID = 0, ft_uniqueFileID = 12,
                      ft_fileSize = totalFileSize, ft_fileHash = fileHash,
                      ft_numberOfPDUs = numberOfPDUs, ft_pduDataLength = of_nat PDU_LEN\<rparr>
                in case COMMMC_APP_CREATE_TELEMETRY_SECONDARY_HEADER env 0 tr1 of (secondary, tr2) \<Rightarrow>
                  run_bind (COMMMC_APP_SEND_DATA_TO_GROUND env COMMMC_APP_GROUND_ENDPOINT
                      (file_header_bytes file_header @ secondary_bytes secondary) tr2)
                  (\<lambda>(status, tr3).
                    if status \<noteq> CFE_SUCCESS
                    then Returns (status, cm_count_error s,
                           cm_event COMMMC_FILE_SEND_INIT_ERR_EID EVS_ERROR tr3 @ [Fclose])
                    else run_bind (send_chunks env (snd f \<noteq> None) (readable f) 0 junk s
                        (cm_event COMMMC_FILE_SEND_INIT_SUCCESS_EID EVS_INFORMATION tr3))
                      (\<lambda>(e, s1, tr4). case e of
                          None \<Rightarrow> Returns (CFE_SEVERITY_ERROR, s1, tr4 @ [Fclose])
                        | Some e \<Rightarrow> send_last env e s1 tr4))))"

section \<open>The endpoint string\<close>

lemma digit_no_colon: "is_digit c \<Longrightarrow> c \<noteq> CHR '':'' \<and> c \<noteq> CHR ''-'' \<and> c \<noteq> CHR ''+'' \<and> \<not> is_space c"
  by (auto simp: is_digit_def is_space_def)

lemma split_last_colon_none: "list_all is_digit ds \<Longrightarrow> split_last_colon ds = None"
  by (induction ds) (auto dest: digit_no_colon)

lemma split_last_colon_at:
  "list_all is_digit ds \<Longrightarrow> split_last_colon (host @ CHR '':'' # ds) = Some (host, ds)"
  by (induction host) (simp_all add: split_last_colon_none)

lemma strtol10_digits:
  "list_all is_digit ds \<Longrightarrow> ds \<noteq> [] \<Longrightarrow> strtol10 ds = Some (digits_value ds, [])"
proof -
  assume d: "list_all is_digit ds" "ds \<noteq> []"
  then have h: "is_digit (hd ds)" by (cases ds) simp_all
  have t: "takeWhile is_digit ds = ds" "dropWhile is_digit ds = []"
    using d(1) by (simp_all add: list_all_iff)
  have "dropWhile is_space ds = ds" "take 1 ds \<noteq> ''-''" "take 1 ds \<noteq> ''+''"
    using d(2) digit_no_colon [OF h] by (cases ds; simp)+
  then show ?thesis using d(2) by (simp add: strtol10_def Let_def t)
qed

section \<open>The send loop\<close>

definition takes_something :: "Send_Answer \<Rightarrow> bool" where
  "takes_something a = (case a of Sent n \<Rightarrow> 0 < n | _ \<Rightarrow> False)"

definition no_failure :: "Send_Answer \<Rightarrow> bool" where
  "no_failure a = (case a of Sent n \<Rightarrow> 0 < n | Interrupted \<Rightarrow> True | Failed \<Rightarrow> False)"

lemma take_split: "take (a + b) xs = take a xs @ take b (drop a xs)"
  by (simp add: take_add)

lemma send_loop_pieces:
  "send_loop tcp answers dat sent pieces = Returns (ok, out) \<Longrightarrow> concat pieces = take sent dat \<Longrightarrow>
   (\<exists>k. concat out = take k dat) \<and> (ok \<longrightarrow> concat out = dat)"
proof (induction answers arbitrary: sent pieces)
  case Nil
  then have "out = pieces" "length dat \<le> sent" by (auto simp: send_loop.simps split: if_splits)
  with Nil.prems(2) have "concat out = take sent dat" "concat out = dat" by simp_all
  then show ?case by blast
next
  case (Cons a rest)
  show ?case
  proof (cases "length dat \<le> sent")
    case True
    with Cons.prems(1) have "out = pieces" by (simp add: send_loop.simps)
    with True Cons.prems(2) have "concat out = take sent dat" "concat out = dat" by simp_all
    then show ?thesis by blast
  next
    case False
    then show ?thesis
      using Cons.prems Cons.IH [of sent pieces]
        Cons.IH [of "sent + n" "pieces @ [take n (drop sent dat)]" for n]
      by (subst (asm) send_loop.simps) (auto simp: take_split split: Send_Answer.splits if_splits)
  qed
qed

lemma send_loop_returns:
  "list_all no_failure answers \<Longrightarrow> length dat \<le> sent + length (filter takes_something answers) \<Longrightarrow>
   \<exists>out. send_loop tcp answers dat sent pieces = Returns (True, out)"
proof (induction answers arbitrary: sent pieces)
  case Nil
  then show ?case by (simp add: send_loop.simps)
next
  case (Cons a rest)
  show ?case
  proof (cases "length dat \<le> sent")
    case True
    then show ?thesis by (simp add: send_loop.simps)
  next
    case False
    then show ?thesis
      using Cons.prems Cons.IH
      by (subst send_loop.simps)
        (auto simp: takes_something_def no_failure_def split: Send_Answer.splits)
  qed
qed

definition link_delivers :: "Ground_Link \<Rightarrow> u8 list \<Rightarrow> bool" where
  "link_delivers l dat \<longleftrightarrow> gl_opened l \<and> gl_configured l \<and> gl_connected l \<and>
     (case send_loop True (gl_answers l) dat 0 [] of Returns (ok, pieces) \<Rightarrow> ok | _ \<Rightarrow> False)"

lemma transmit_over_delivers:
  assumes "link_delivers l dat"
  shows "transmit_over True l dat tr = Returns (CFE_SUCCESS, tr @ [Ground_Send dat CFE_SUCCESS])"
proof -
  from assms obtain pieces where l: "send_loop True (gl_answers l) dat 0 [] = Returns (True, pieces)"
    by (auto simp: link_delivers_def split: run.splits)
  with send_loop_pieces [OF l] assms show ?thesis
    by (simp add: transmit_over_def link_delivers_def)
qed

lemma endpoint_ok: "take 6 COMMMC_APP_GROUND_ENDPOINT = ''tcp://''"
  "parse_endpoint (drop 6 COMMMC_APP_GROUND_ENDPOINT) = Some (''127.0.0.1'', 5000)"
  by code_simp+

lemma send_data_delivers:
  assumes "link_delivers (env_ground env tr dat) dat"
  shows "COMMMC_APP_SEND_DATA_TO_GROUND env COMMMC_APP_GROUND_ENDPOINT dat tr =
    Returns (CFE_SUCCESS, tr @ [Ground_Send dat CFE_SUCCESS])"
  using transmit_over_delivers [OF assms]
  by (simp add: COMMMC_APP_SEND_DATA_TO_GROUND_def endpoint_ok)

section \<open>Reading packets back\<close>

definition tm_length :: "u8 list \<Rightarrow> nat" where
  "tm_length d = unat (read_le32 d 4)"

definition tm_control :: "u8 list \<Rightarrow> 2 word" where
  "tm_control d = ucast (drop_bit 16 (read_le32 d 0))"

definition tm_count :: "u8 list \<Rightarrow> 14 word" where
  "tm_count d = ucast (drop_bit 18 (read_le32 d 0))"

definition tm_crc :: "u8 list \<Rightarrow> u32" where
  "tm_crc d = read_le32 d 12"

definition tm_data :: "u8 list \<Rightarrow> u8 list" where
  "tm_data d = take (tm_length d - 8) (drop 16 d)"

definition pdu_bytes :: "nat \<Rightarrow> u32 \<Rightarrow> u32 \<Rightarrow> u32 \<Rightarrow> u32 \<Rightarrow> u8 list \<Rightarrow> u8 list" where
  "pdu_bytes len control counter time crc field =
     header_bytes (COMMMC_APP_CREATE_TELEMETRY_HEADER COMMMC_APP_FILE_SEND_TM_MTID
       (of_nat (len + 8)) control counter) @
     secondary_bytes \<lparr>ts_timestamp = time, ts_crc32 = crc\<rparr> @ field"

lemma length_le32 [simp]: "length (le32 v) = 4"
  by (simp add: le32_def)

lemma pdu_decode:
  assumes "len \<le> 256"
  shows "tm_length (pdu_bytes len control counter time crc field) = len + 8"
    "tm_control (pdu_bytes len control counter time crc field) = ucast control"
    "tm_count (pdu_bytes len control counter time crc field) = ucast counter"
    "tm_crc (pdu_bytes len control counter time crc field) = crc"
    "tm_data (pdu_bytes len control counter time crc field) = take len field"
proof -
  let ?h = "COMMMC_APP_CREATE_TELEMETRY_HEADER COMMMC_APP_FILE_SEND_TM_MTID (of_nat (len + 8))
    control counter"
  let ?w = "ucast (th_packetVersion ?h) OR push_bit 3 (ucast (th_packetIdentificationType ?h)) OR
      push_bit 4 (ucast (th_packetIdentificationMTID ?h)) OR
      push_bit 16 (ucast (th_packetSequenceControl ?h)) OR
      push_bit 18 (ucast (th_packetSequenceCount ?h)) :: u32"
  let ?p = "pdu_bytes len control counter time crc field"
  have p: "?p = le32 ?w @ le32 (of_nat (len + 8)) @ le32 time @ le32 crc @ field"
    by (simp add: pdu_bytes_def header_bytes_def secondary_bytes_def
        COMMMC_APP_CREATE_TELEMETRY_HEADER_def)
  have r: "read_le32 ?p 0 = ?w" "read_le32 ?p 4 = of_nat (len + 8)" "read_le32 ?p 12 = crc"
    using read_le32_at [of "[]" 0 ?w] read_le32_at [of "le32 ?w" 4 "of_nat (len + 8)"]
      read_le32_at [of "le32 ?w @ le32 (of_nat (len + 8)) @ le32 time" 12 crc field]
    unfolding p by simp_all
  have "unat (of_nat (len + 8) :: u32) = len + 8" using assms by (subst unat_of_nat) simp
  then show len: "tm_length ?p = len + 8" by (simp only: tm_length_def r)
  show "tm_crc ?p = crc" by (simp add: tm_crc_def r)
  show "tm_data ?p = take len field" unfolding tm_data_def len by (simp add: p)
  have "ucast (drop_bit 16 ?w) = th_packetSequenceControl ?h"
    by (rule bit_word_eqI) (auto simp: bit_simps dest: bit_imp_le_length)
  then show "tm_control ?p = ucast control"
    by (simp add: tm_control_def r COMMMC_APP_CREATE_TELEMETRY_HEADER_def)
  have "ucast (drop_bit 18 ?w) = th_packetSequenceCount ?h"
    by (rule bit_word_eqI) (auto simp: bit_simps dest: bit_imp_le_length)
  then show "tm_count ?p = ucast counter"
    by (simp add: tm_count_def r COMMMC_APP_CREATE_TELEMETRY_HEADER_def)
qed

section \<open>The packets of a file\<close>

definition ground_sent :: "Trace \<Rightarrow> u8 list list" where
  "ground_sent tr = concat (map (\<lambda>c. case c of Ground_Send d st \<Rightarrow> [d] | _ \<Rightarrow> []) tr)"

lemma ground_sent_append [simp]:
  "ground_sent (tr @ tr') = ground_sent tr @ ground_sent tr'"
  "ground_sent [] = []" "ground_sent (c # tr) =
     (case c of Ground_Send d st \<Rightarrow> [d] | _ \<Rightarrow> []) @ ground_sent tr"
  by (simp_all add: ground_sent_def)

definition reliable_ground :: "Env \<Rightarrow> bool" where
  "reliable_ground env \<longleftrightarrow> (\<forall>tr dat. link_delivers (env_ground env tr dat) dat)"

lemma send_pdu_ok:
  assumes "reliable_ground env"
  shows "send_pdu env len control counter crc field tr = Returns (CFE_SUCCESS, tr @ [Time_GetTime,
    Ground_Send (pdu_bytes len control counter (fst (env_time env tr)) crc field) CFE_SUCCESS])"
  using assms send_data_delivers [of env "tr @ [Time_GetTime]"]
  by (simp add: send_pdu_def reliable_ground_def COMMMC_APP_CREATE_TELEMETRY_SECONDARY_HEADER_def
      pdu_bytes_def Let_def)

lemma crc_of_buffer_eq: "crc_of_buffer bs = crc32_of bs"
  by (simp add: crc_of_buffer_def compute_crc32_def crc32_write_foldl crc32_init_def
      crc32_close_def crc32_of_def)

text \<open>The full packets of a file, before the last one.\<close>

definition full_pdus :: "u8 list list \<Rightarrow> u8 list \<Rightarrow> nat \<Rightarrow> bool" where
  "full_pdus pdus bs k \<longleftrightarrow> concat (map tm_data pdus) = bs \<and>
     map tm_count pdus = map of_nat [k..<k + length pdus] \<and>
     map tm_control pdus = map (\<lambda>i. if i = 0 then 1 else 0) [k..<k + length pdus] \<and>
     (\<forall>d\<in>set pdus. tm_crc d = crc32_of (tm_data d))"

lemma full_pdus_Cons:
  assumes "full_pdus pdus bs (Suc k)" "tm_data d = x" "tm_count d = of_nat k"
    "tm_control d = (if k = 0 then 1 else 0)" "tm_crc d = crc32_of x"
  shows "full_pdus (d # pdus) (x @ bs) k"
proof -
  have "[k..<k + length (d # pdus)] = k # [Suc k..<Suc k + length pdus]"
    by (simp add: upt_conv_Cons del: upt_Suc)
  with assms show ?thesis by (simp add: full_pdus_def del: upt_Suc)
qed

lemma ucast_of_nat_low: "n < 4294967296 \<Longrightarrow> (ucast (of_nat n :: u32) :: 14 word) = of_nat n"
proof -
  assume "n < 4294967296"
  then have "unat (of_nat n :: u32) = n" by (simp add: unat_of_nat)
  then show ?thesis by (metis of_nat_unat)
qed

lemma of_nat_u32_zero: "n < 4294967296 \<Longrightarrow> (of_nat n :: u32) = 0 \<longleftrightarrow> n = 0"
proof -
  assume "n < 4294967296"
  then have "unat (of_nat n :: u32) = n" by (simp add: unat_of_nat)
  then have "unat (of_nat n :: u32) = 0 \<longleftrightarrow> n = 0" by simp
  then show ?thesis by (simp only: unat_eq_zero)
qed

lemma send_chunks_ok:
  assumes env: "reliable_ground env"
  shows "length buf = 256 \<Longrightarrow> k + length rest div 256 < 4294967295 \<Longrightarrow>
    \<exists>e tr' pdus. send_chunks env False rest (of_nat k) buf s tr = Returns (Some e, s, tr') \<and>
      ground_sent tr' = ground_sent tr @ pdus \<and>
      full_pdus pdus (take (256 * (length rest div 256)) rest) k \<and>
      length pdus = length rest div 256 \<and>
      ce_halfChunk e = (length rest mod 256 \<noteq> 0) \<and>
      ce_counter e = of_nat (k + length rest div 256 + (if length rest mod 256 = 0 then 0 else 1)) \<and>
      (length rest mod 256 \<noteq> 0 \<longrightarrow> ce_bytes_read e = length rest mod 256 \<and>
         ce_crc32 e = crc32_of (drop (256 * (length rest div 256)) rest)) \<and>
      take (length rest mod 256) (ce_buffer e) = drop (256 * (length rest div 256)) rest \<and>
      (length rest < 256 \<longrightarrow> ce_buffer e = rest @ drop (length rest) buf) \<and>
      length (ce_buffer e) = 256"
proof (induction "length rest div 256" arbitrary: rest k buf tr)
  case 0
  then have lt: "length rest < 256" by simp
  let ?e = "\<lparr>ce_counter = of_nat (k + (if rest = [] then 0 else 1)), ce_halfChunk = (rest \<noteq> []),
    ce_bytes_read = length rest, ce_crc32 = (if rest = [] then 0 else crc32_of rest),
    ce_buffer = rest @ drop (length rest) buf\<rparr>"
  have "send_chunks env False rest (of_nat k) buf s tr = Returns (Some ?e, s, tr)"
    using lt by (subst send_chunks.simps)
      (simp add: PDU_LEN_def Let_def crc_of_buffer_eq add.commute)
  moreover have "full_pdus [] [] k" by (simp add: full_pdus_def)
  ultimately show ?case using lt 0 by (intro exI [of _ ?e] exI [of _ tr] exI [of _ "[]"]) simp
next
  case (Suc q)
  then have ge: "256 \<le> length rest" by (metis div_less linorder_not_le nat.distinct(1))
  let ?x = "take 256 rest" and ?r = "drop 256 rest"
  let ?d = "pdu_bytes 256 (if of_nat k = (0 :: u32) then 1 else 0) (of_nat k)
    (fst (env_time env tr)) (crc32_of ?x) ?x"
  let ?tr = "tr @ [Time_GetTime, Ground_Send ?d CFE_SUCCESS]"
  have len: "length ?x = 256" using ge by simp
  have q: "length rest div 256 = Suc (length ?r div 256)" "length rest mod 256 = length ?r mod 256"
    using le_div_geq [of 256 "length rest"] le_mod_geq [of 256 "length rest"] ge by simp_all
  have q1: "q = length ?r div 256" using Suc.hyps(2) q(1) by simp
  have k: "k < 4294967296" using Suc.prems(2) by simp
  have small: "Suc k + length ?r div 256 < 4294967295" using Suc.prems(2) q(1) by simp
  have step: "send_chunks env False rest (of_nat k) buf s tr =
      send_chunks env False ?r (of_nat (Suc k)) ?x s ?tr"
    using len Suc.prems(1) by (subst send_chunks.simps)
      (auto simp: PDU_LEN_def Let_def send_pdu_ok [OF env] crc_of_buffer_eq add.commute)
  from Suc.hyps(1) [OF q1 len small, of ?tr] obtain e tr' pdus where
    r: "send_chunks env False ?r (of_nat (Suc k)) ?x s ?tr = Returns (Some e, s, tr')"
      "ground_sent tr' = ground_sent ?tr @ pdus"
      "full_pdus pdus (take (256 * (length ?r div 256)) ?r) (Suc k)"
      "length pdus = length ?r div 256" "ce_halfChunk e = (length ?r mod 256 \<noteq> 0)"
      "ce_counter e = of_nat (Suc k + length ?r div 256 + (if length ?r mod 256 = 0 then 0 else 1))"
      "length ?r mod 256 \<noteq> 0 \<longrightarrow> ce_bytes_read e = length ?r mod 256 \<and>
         ce_crc32 e = crc32_of (drop (256 * (length ?r div 256)) ?r)"
      "take (length ?r mod 256) (ce_buffer e) = drop (256 * (length ?r div 256)) ?r"
      "length (ce_buffer e) = 256" by blast
  have "full_pdus (?d # pdus) (?x @ take (256 * (length ?r div 256)) ?r) k"
    using k by (intro full_pdus_Cons r(3))
      (simp_all add: pdu_decode len ucast_of_nat_low of_nat_u32_zero)
  moreover have "?x @ take (256 * (length ?r div 256)) ?r = take (256 * (length rest div 256)) rest"
    unfolding q(1) by (simp add: take_add [symmetric] add.commute)
  ultimately have 1: "full_pdus (?d # pdus) (take (256 * (length rest div 256)) rest) k" by simp
  have dr: "drop (256 * (length ?r div 256)) ?r = drop (256 * (length rest div 256)) rest"
    unfolding q(1) by (simp add: add.commute)
  have 2: "ground_sent tr' = ground_sent tr @ (?d # pdus)" using r(2) by simp
  have 3: "length (?d # pdus) = length rest div 256" using r(4) q(1) by simp
  have 4: "ce_halfChunk e = (length rest mod 256 \<noteq> 0)" using r(5) q(2) by simp
  have 5: "ce_counter e = of_nat (k + length rest div 256 + (if length rest mod 256 = 0 then 0 else 1))"
    unfolding r(6) q by simp
  have 6: "length rest mod 256 \<noteq> 0 \<longrightarrow> ce_bytes_read e = length rest mod 256 \<and>
      ce_crc32 e = crc32_of (drop (256 * (length rest div 256)) rest)"
    using r(7) unfolding dr q(2) .
  have 7: "take (length rest mod 256) (ce_buffer e) = drop (256 * (length rest div 256)) rest"
    using r(8) unfolding dr q(2) .
  have 8: "length rest < 256 \<longrightarrow> ce_buffer e = rest @ drop (length rest) buf" using ge by simp
  show ?case unfolding step using r(1) 1 2 3 4 5 6 7 8 r(9)
    by (intro exI conjI) assumption+
qed

lemma compute_sha256_ok:
  assumes "length (sha_chunk ctx) = 64"
  shows "compute_sha256 (Some (bs, None)) ctx = Returns (CFE_SUCCESS, sha256_of bs)"
proof -
  have "run_bind (feed_blocks sha_256_write (sha_256_init ctx) (chunks 8192 bs)) sha_256_close =
      Returns (sha256_of bs)"
    using sha.blocks_digest [of "sha_chunk ctx" "chunks 8192 bs"] sha_init_fresh [OF assms]
    by (simp add: concat_chunks)
  then show ?thesis
    by (simp add: compute_sha256_def readable_def run_bind_assoc [symmetric])
qed

text \<open>What the first packet announces.\<close>

definition file_announcement :: "u8 list \<Rightarrow> COMMMC_APP_FileTransferHeaderPacket" where
  "file_announcement bs = \<lparr>ft_fileDataID = 0, ft_uniqueFileID = 12, ft_fileSize = of_nat (length bs),
     ft_fileHash = sha256_of bs, ft_numberOfPDUs = of_nat ((length bs + 255) div 256),
     ft_pduDataLength = 256\<rparr>"

lemma pdu_count_u16:
  assumes "length bs < 4294967040"
  shows "ucast ((of_nat (length bs) + of_nat PDU_LEN - 1) div of_nat PDU_LEN :: u32) =
    (of_nat ((length bs + 255) div 256) :: u16)"
proof -
  have "of_nat (length bs) + of_nat PDU_LEN - 1 = (of_nat (length bs + 255) :: u32)"
    by (simp add: PDU_LEN_def)
  moreover have "unat (of_nat (length bs + 255) :: u32) = length bs + 255"
    using assms by (subst unat_of_nat) simp
  ultimately have "unat ((of_nat (length bs) + of_nat PDU_LEN - 1) div of_nat PDU_LEN :: u32) =
      (length bs + 255) div 256"
    by (simp only: unat_div_distrib) (simp add: PDU_LEN_def)
  then show ?thesis by (metis of_nat_unat)
qed

lemma send_last_ok:
  assumes "reliable_ground env"
  shows "send_last env e s tr = Returns (CFE_SUCCESS, s, tr @ [Time_GetTime, Ground_Send
      (pdu_bytes (if ce_halfChunk e then ce_bytes_read e else 0) 2 (ce_counter e)
        (fst (env_time env tr)) (if ce_halfChunk e then ce_crc32 e else 0)
        (if ce_halfChunk e then ce_buffer e else zeros 256)) CFE_SUCCESS,
      Fclose, EVS_SendEvent COMMMC COMMMC_FILE_SEND_SUCCESS_EID EVS_INFORMATION])"
  by (simp add: send_last_def send_pdu_ok [OF assms] Let_def send_event_def PDU_LEN_def)

lemma send_file_ok:
  assumes env: "reliable_ground env" and fl: "env_file env tr path = Some (bs, None)"
    and len: "length bs < 4294967040" "length junk = 256" "length (sha_chunk ctx) = 64"
  shows "\<exists>tr' pdus final time. COMMMC_APP_SEND_FILE_TO_GROUND env junk ctx path s tr =
      Returns (CFE_SUCCESS, s, tr') \<and>
    ground_sent tr' = ground_sent tr @
      [file_header_bytes (file_announcement bs) @ le32 time @ le32 0] @ pdus @ [final] \<and>
    full_pdus pdus (take (256 * (length bs div 256)) bs) 0 \<and> length pdus = length bs div 256 \<and>
    tm_data final = drop (256 * (length bs div 256)) bs \<and> tm_control final = 2 \<and>
    tm_crc final = (if length bs mod 256 = 0 then 0 else crc32_of (tm_data final)) \<and>
    tm_count final = of_nat (length bs div 256 + (if length bs mod 256 = 0 then 0 else 1)) \<and>
    (0 < length bs \<and> length bs < 256 \<longrightarrow> drop 16 final = bs @ drop (length bs) junk)"
proof -
  let ?tr1 = "tr @ [Fopen path, Time_GetTime]"
  let ?init = "file_header_bytes (file_announcement bs) @
    le32 (fst (env_time env (tr @ [Fopen path]))) @ le32 0"
  let ?tr2 = "?tr1 @ [Ground_Send ?init CFE_SUCCESS,
    EVS_SendEvent COMMMC COMMMC_FILE_SEND_INIT_SUCCESS_EID EVS_INFORMATION]"
  have "0 + length bs div 256 < 4294967295" using len(1) by simp
  from send_chunks_ok [OF env len(2) this, of s ?tr2] obtain e tr3 pdus where
    c: "send_chunks env False bs 0 junk s ?tr2 = Returns (Some e, s, tr3)"
      "ground_sent tr3 = ground_sent ?tr2 @ pdus"
      "full_pdus pdus (take (256 * (length bs div 256)) bs) 0" "length pdus = length bs div 256"
      "ce_halfChunk e = (length bs mod 256 \<noteq> 0)"
      "ce_counter e = of_nat (length bs div 256 + (if length bs mod 256 = 0 then 0 else 1))"
      "length bs mod 256 \<noteq> 0 \<longrightarrow> ce_bytes_read e = length bs mod 256 \<and>
         ce_crc32 e = crc32_of (drop (256 * (length bs div 256)) bs)"
      "take (length bs mod 256) (ce_buffer e) = drop (256 * (length bs div 256)) bs"
      "length bs < 256 \<longrightarrow> ce_buffer e = bs @ drop (length bs) junk" by auto
  let ?n = "if ce_halfChunk e then ce_bytes_read e else 0"
  let ?final = "pdu_bytes ?n 2 (ce_counter e) (fst (env_time env tr3))
    (if ce_halfChunk e then ce_crc32 e else 0) (if ce_halfChunk e then ce_buffer e else zeros 256)"
  have n: "?n \<le> 256" "?n = length bs mod 256" using c(5,7) by (auto simp: less_imp_le)
  have field: "drop 16 ?final = (if ce_halfChunk e then ce_buffer e else zeros 256)"
    by (simp add: pdu_bytes_def header_bytes_def secondary_bytes_def)
  have data: "tm_data ?final = drop (256 * (length bs div 256)) bs"
  proof (cases "length bs mod 256 = 0")
    case True
    then have "drop (256 * (length bs div 256)) bs = []" using c(8) by (metis take0)
    moreover have "tm_data ?final = []" using pdu_decode(5) [OF n(1)] n(2) True by simp
    ultimately show ?thesis by simp
  next
    case False
    then show ?thesis using pdu_decode(5) [OF n(1)] n(2) c(5,8) by simp
  qed
  have init: "COMMMC_APP_SEND_DATA_TO_GROUND env COMMMC_APP_GROUND_ENDPOINT d tr' =
      Returns (CFE_SUCCESS, tr' @ [Ground_Send d CFE_SUCCESS])" for d tr'
    using env by (intro send_data_delivers) (simp add: reliable_ground_def)
  have "COMMMC_APP_SEND_FILE_TO_GROUND env junk ctx path s tr = send_last env e s tr3"
    using fl len(1) c(1) pdu_count_u16 [OF len(1)]
    by (simp add: COMMMC_APP_SEND_FILE_TO_GROUND_def file_open_def Let_def
        compute_sha256_ok [OF len(3)] COMMMC_APP_CREATE_TELEMETRY_SECONDARY_HEADER_def
        init file_announcement_def secondary_bytes_def send_event_def readable_def PDU_LEN_def)
  then have 1: "COMMMC_APP_SEND_FILE_TO_GROUND env junk ctx path s tr = Returns (CFE_SUCCESS, s,
      tr3 @ [Time_GetTime, Ground_Send ?final CFE_SUCCESS, Fclose,
        EVS_SendEvent COMMMC COMMMC_FILE_SEND_SUCCESS_EID EVS_INFORMATION])"
    using send_last_ok [OF env] by simp
  have 2: "ground_sent (tr3 @ [Time_GetTime, Ground_Send ?final CFE_SUCCESS, Fclose,
        EVS_SendEvent COMMMC COMMMC_FILE_SEND_SUCCESS_EID EVS_INFORMATION]) =
      ground_sent tr @ [?init] @ pdus @ [?final]"
    using c(2) by simp
  have 3: "tm_control ?final = 2" "tm_crc ?final = (if ce_halfChunk e then ce_crc32 e else 0)"
    "tm_count ?final = ucast (ce_counter e)"
    using pdu_decode(2,3,4) [OF n(1)] by simp_all
  have 4: "tm_crc ?final = (if length bs mod 256 = 0 then 0 else crc32_of (tm_data ?final))"
    unfolding 3(2) data using c(5,7) by simp
  have 5: "tm_count ?final = of_nat (length bs div 256 + (if length bs mod 256 = 0 then 0 else 1))"
  proof -
    have "length bs div 256 < 4294967040"
      by (rule le_less_trans [OF div_le_dividend len(1)])
    then have "length bs div 256 + (if length bs mod 256 = 0 then 0 else 1) < 4294967296"
      by simp
    from ucast_of_nat_low [OF this] show ?thesis unfolding 3(3) c(6) [symmetric] by simp
  qed
  have 6: "0 < length bs \<and> length bs < 256 \<longrightarrow> drop 16 ?final = bs @ drop (length bs) junk"
    unfolding field using c(5,9) by simp
  show ?thesis using 1 2 c(3,4) data 3(1) 4 5 6 by (intro exI conjI) assumption+
qed

lemma photo_env_ground: "reliable_ground photo_env"
  by (simp add: reliable_ground_def link_delivers_def photo_env_def good_env_def
      send_loop.simps [of _ "[_]"] send_loop.simps [of _ "[]"])

section \<open>Properties\<close>

text \<open>An endpoint written as host, colon and decimal port is parsed into that host and that port,
  for every port from 1 to 65535 and every host of at most 255 characters, colons included.\<close>
theorem endpoint_round_trip:
  assumes "host \<noteq> []" "length host \<le> 255" "0 < port" "port \<le> 65535"
  shows "parse_endpoint (host @ CHR '':'' # decimal port) = Some (host, of_nat port)"
proof -
  have d: "list_all is_digit (decimal port)" "decimal port \<noteq> []"
    using decimal_digits by auto
  have "length (decimal port) \<le> Suc 14" using assms(4) by (intro decimal_length) simp
  then have "take 15 (decimal port) = decimal port" by simp
  with assms d show ?thesis
    by (simp add: parse_endpoint_def split_last_colon_at strtol10_digits decimal_value)
qed

theorem endpoint_round_trip_witness:
  "parse_endpoint (''10.0.0.7'' @ CHR '':'' # decimal 5000) = Some (''10.0.0.7'', 5000)"
  using endpoint_round_trip [of "''10.0.0.7''" 5000] by simp

text \<open>The send loop copes with partial and interrupted sends: when the kernel never fails and takes
  something often enough, it returns success, and the pieces it took are the whole packet, in order,
  without a gap or a repetition.\<close>
theorem ground_send_complete:
  assumes "list_all no_failure answers" "length dat \<le> length (filter takes_something answers)"
  shows "\<exists>pieces. send_loop tcp answers dat 0 [] = Returns (True, pieces) \<and> concat pieces = dat"
proof -
  obtain out where "send_loop tcp answers dat 0 [] = Returns (True, out)"
    using send_loop_returns [of answers dat 0 tcp "[]"] assms by auto
  with send_loop_pieces [of tcp answers dat 0 "[]" True out] show ?thesis by simp
qed

theorem ground_send_complete_witness:
  "\<exists>pieces. send_loop True [Sent 2, Interrupted, Sent 1, Sent 5] [1, 2, 3] 0 [] =
     Returns (True, pieces) \<and> concat pieces = [1, 2, 3]"
  by (rule ground_send_complete) (simp_all add: no_failure_def takes_something_def)

text \<open>C31. When the send loop fails, what reached the kernel is still a prefix of the packet.\<close>
theorem ground_send_prefix:
  assumes "send_loop tcp answers dat 0 [] = Returns (ok, pieces)"
  shows "(\<exists>k. concat pieces = take k dat) \<and> (ok \<longrightarrow> concat pieces = dat)"
  using send_loop_pieces [OF assms] by simp

theorem ground_send_prefix_witness:
  "send_loop True [Sent 2, Failed] [1, 2, 3] 0 [] = Returns (False, [[1, 2]]) \<and>
   (\<exists>k. concat [[1, 2]] = take k [1, 2, 3 :: u8])"
proof -
  have "send_loop True [Sent 2, Failed] [1, 2, 3] 0 [] = Returns (False, [[1, 2]])"
    by (simp add: send_loop.simps)
  from this ground_send_prefix [OF this] show ?thesis by blast
qed

text \<open>C13. Over a reliable link a file arrives: the first packet announces its size, its SHA-256 and the
  number of packets of its data rounded up, the data fields that follow, cut to their stated
  lengths, are the file, and every non-empty one carries the CRC of its data.\<close>
theorem file_to_ground_complete:
  assumes "reliable_ground env" "env_file env tr path = Some (bs, None)"
    and "length bs < 4294967040" "length junk = PDU_LEN" "length (sha_chunk ctx) = 64"
  shows "\<exists>tr' pdus time. COMMMC_APP_SEND_FILE_TO_GROUND env junk ctx path s tr =
      Returns (CFE_SUCCESS, s, tr') \<and>
    ground_sent tr' = ground_sent tr @
      (file_header_bytes (file_announcement bs) @ le32 time @ le32 0) # pdus \<and>
    concat (map tm_data pdus) = bs \<and>
    list_all (\<lambda>d. tm_data d = [] \<or> tm_crc d = crc32_of (tm_data d)) pdus"
proof -
  have "length junk = 256" using assms(4) by (simp add: PDU_LEN_def)
  from send_file_ok [OF assms(1-3) this assms(5), of s] obtain tr' pdus final time where
    r: "COMMMC_APP_SEND_FILE_TO_GROUND env junk ctx path s tr = Returns (CFE_SUCCESS, s, tr')"
      "ground_sent tr' = ground_sent tr @
        [file_header_bytes (file_announcement bs) @ le32 time @ le32 0] @ pdus @ [final]"
      "full_pdus pdus (take (256 * (length bs div 256)) bs) 0"
      "tm_data final = drop (256 * (length bs div 256)) bs"
      "tm_crc final = (if length bs mod 256 = 0 then 0 else crc32_of (tm_data final))" by blast
  have "concat (map tm_data (pdus @ [final])) = bs"
    using r(3,4) by (simp add: full_pdus_def)
  moreover have "length bs mod 256 = 0 \<Longrightarrow> tm_data final = []"
    unfolding r(4) using div_mult_mod_eq [of "length bs" 256] by simp
  moreover from calculation(2) have
    "list_all (\<lambda>d. tm_data d = [] \<or> tm_crc d = crc32_of (tm_data d)) (pdus @ [final])"
    using r(3,5) by (auto simp: full_pdus_def list_all_iff)
  ultimately show ?thesis using r(1,2)
    by (intro exI [of _ tr'] exI [of _ "pdus @ [final]"] exI [of _ time]) simp
qed

theorem file_to_ground_complete_witness:
  "\<exists>tr' pdus time. COMMMC_APP_SEND_FILE_TO_GROUND photo_env (zeros 256) (sha_fresh []) ''f''
      COMMMC_AppData_zero [] = Returns (CFE_SUCCESS, COMMMC_AppData_zero, tr') \<and>
    ground_sent tr' =
      (file_header_bytes (file_announcement [1, 2, 3, 4, 5]) @ le32 time @ le32 0) # pdus \<and>
    concat (map tm_data pdus) = [1, 2, 3, 4, 5]"
  using file_to_ground_complete [OF photo_env_ground photo_env_ok(4), where junk = "zeros 256" and
      ctx = "sha_fresh []" and path = "''f''" and tr = "[]" and s = COMMMC_AppData_zero]
  by (auto simp: PDU_LEN_def sha_fresh_def)

text \<open>The packet numbers: the full packets are numbered from 0 in the 14-bit count, the first has
  control 1 and the others 0; then one more packet with control 2 follows, empty when 256 divides
  the size, so that one packet more is sent than announced, and with a number skipped before it
  when the last piece is short.\<close>
theorem file_packet_numbers:
  assumes "reliable_ground env" "env_file env tr path = Some (bs, None)"
    and "length bs < 4294967040" "length junk = PDU_LEN" "length (sha_chunk ctx) = 64"
  shows "\<exists>tr' pdus final head. COMMMC_APP_SEND_FILE_TO_GROUND env junk ctx path s tr =
      Returns (CFE_SUCCESS, s, tr') \<and>
    ground_sent tr' = ground_sent tr @ head # pdus @ [final] \<and>
    length pdus = length bs div 256 \<and>
    map tm_count pdus = map of_nat [0..<length bs div 256] \<and>
    map tm_control pdus = map (\<lambda>i. if i = 0 then 1 else 0) [0..<length bs div 256] \<and>
    tm_control final = 2 \<and> length (tm_data final) = length bs mod 256 \<and>
    tm_count final = of_nat (length bs div 256 + (if length bs mod 256 = 0 then 0 else 1))"
proof -
  have "length junk = 256" using assms(4) by (simp add: PDU_LEN_def)
  from send_file_ok [OF assms(1-3) this assms(5), of s] obtain tr' pdus final time where
    r: "COMMMC_APP_SEND_FILE_TO_GROUND env junk ctx path s tr = Returns (CFE_SUCCESS, s, tr')"
      "ground_sent tr' = ground_sent tr @
        [file_header_bytes (file_announcement bs) @ le32 time @ le32 0] @ pdus @ [final]"
      "full_pdus pdus (take (256 * (length bs div 256)) bs) 0" "length pdus = length bs div 256"
      "tm_data final = drop (256 * (length bs div 256)) bs" "tm_control final = 2"
      "tm_count final = of_nat (length bs div 256 + (if length bs mod 256 = 0 then 0 else 1))"
    by blast
  have "length (tm_data final) = length bs mod 256"
    unfolding r(5) by (simp add: minus_mult_div_eq_mod)
  with r show ?thesis
    by (intro exI [of _ tr'] exI [of _ pdus] exI [of _ final]
        exI [of _ "file_header_bytes (file_announcement bs) @ le32 time @ le32 0"])
      (simp add: full_pdus_def)
qed

theorem file_packet_numbers_witness:
  "\<exists>tr' final head. COMMMC_APP_SEND_FILE_TO_GROUND photo_env (zeros 256) (sha_fresh []) ''f''
      COMMMC_AppData_zero [] = Returns (CFE_SUCCESS, COMMMC_AppData_zero, tr') \<and>
    ground_sent tr' = [head, final] \<and> tm_control final = 2 \<and> tm_count final = 1"
  using file_packet_numbers [OF photo_env_ground photo_env_ok(4), where junk = "zeros 256" and
      ctx = "sha_fresh []" and path = "''f''" and tr = "[]" and s = COMMMC_AppData_zero]
  by (fastforce simp: PDU_LEN_def sha_fresh_def)

text \<open>C40. A file shorter than one packet is sent with the rest of the 256-byte field filled from the
  uninitialised stack buffer: those bytes leave the satellite.\<close>
theorem short_file_leaks_stack:
  assumes "reliable_ground env" "env_file env tr path = Some (bs, None)"
    and "0 < length bs" "length bs < PDU_LEN" "length junk = PDU_LEN" "length (sha_chunk ctx) = 64"
  shows "\<exists>tr' head final. COMMMC_APP_SEND_FILE_TO_GROUND env junk ctx path s tr =
      Returns (CFE_SUCCESS, s, tr') \<and> ground_sent tr' = ground_sent tr @ [head, final] \<and>
    drop 16 final = bs @ drop (length bs) junk"
proof -
  have l: "length bs < 256" "length bs < 4294967040" "length junk = 256" "length bs div 256 = 0"
    using assms(4,5) by (simp_all add: PDU_LEN_def)
  from send_file_ok [OF assms(1,2) l(2,3) assms(6), of s] l(1,4) assms(3) obtain tr' pdus final time
    where "COMMMC_APP_SEND_FILE_TO_GROUND env junk ctx path s tr = Returns (CFE_SUCCESS, s, tr')"
      "ground_sent tr' = ground_sent tr @
        [file_header_bytes (file_announcement bs) @ le32 time @ le32 0] @ pdus @ [final]"
      "length pdus = length bs div 256" "drop 16 final = bs @ drop (length bs) junk" by blast
  with l(4) show ?thesis by auto
qed

theorem short_file_leaks_stack_witness:
  "\<exists>tr' head final. COMMMC_APP_SEND_FILE_TO_GROUND photo_env (replicate 256 0xAA) (sha_fresh []) ''f''
      COMMMC_AppData_zero [] = Returns (CFE_SUCCESS, COMMMC_AppData_zero, tr') \<and>
    ground_sent tr' = [head, final] \<and> drop 16 final = [1, 2, 3, 4, 5] @ replicate 251 0xAA"
  using short_file_leaks_stack [OF photo_env_ground photo_env_ok(4), where junk = "replicate 256 0xAA"
      and ctx = "sha_fresh []" and path = "''f''" and tr = "[]" and s = COMMMC_AppData_zero]
  by (simp add: PDU_LEN_def sha_fresh_def)

end
