(* ===== verification/Comm_App.thy ===== *)
theory Comm_App
  imports Ground_Tx Subsystem
begin

text \<open>
  The communication application (\<open>commMC_app.c\<close>, \<open>commMC_app_cmds.c\<close>, \<open>commMC_app_dispatch.c\<close>):
  housekeeping of the COMM board, dispatch of the image-transfer messages, start and main loop. Its
  state is the record of \<open>Img_Xfer\<close>.
\<close>

section \<open>Commands\<close>

definition COMMMC_SEND_MINIMAL_TM_SUCCESS_EID :: nat where
  "COMMMC_SEND_MINIMAL_TM_SUCCESS_EID = 106"

definition COMMMC_SEND_MINIMAL_TM_ERR_EID :: nat where "COMMMC_SEND_MINIMAL_TM_ERR_EID = 213"

definition COMMMC_UNKNOWN_COMMAND_TASK_ID_ERR_EID :: nat where
  "COMMMC_UNKNOWN_COMMAND_TASK_ID_ERR_EID = 214"

definition COMMMC_TASK_CREATE_ERR_EID :: nat where "COMMMC_TASK_CREATE_ERR_EID = 215"

definition COMMMC_APP_COMMAND_TASK_ID_SEND_MINIMAL_TM_TO_GROUND :: u32 where
  "COMMMC_APP_COMMAND_TASK_ID_SEND_MINIMAL_TM_TO_GROUND = 0x0001"

definition COMMMC_APP_COMMAND_TASK_ID_SEND_MAX :: u32 where
  "COMMMC_APP_COMMAND_TASK_ID_SEND_MAX = 0x0002"

definition COMMMC_APP_SEND_HK_CAN_REQUEST_TO_SB ::
  "Env \<Rightarrow> COMMMC_AppData \<Rightarrow> Trace \<Rightarrow> CFE_Status \<times> COMMMC_AppData \<times> Trace" where
  "COMMMC_APP_SEND_HK_CAN_REQUEST_TO_SB env s tr =
     (case sb_transmit env (can_request CANIOMC_COMM_ID CANIOMC_COMM_HK_MSGID) tr of
        (status, tr1) \<Rightarrow>
          if status \<noteq> CFE_SUCCESS
          then (status, cm_count_error s, cm_event HK_SEND_ERR_EID EVS_ERROR tr1)
          else (status, s\<lparr>cm_CmdCounter := cm_CmdCounter s + 1\<rparr>,
                cm_event HK_SEND_SUCCESS_EID EVS_DEBUG tr1))"

definition COMMMC_appResetHkData :: "COMMMC_AppData \<Rightarrow> CFE_Status \<times> COMMMC_AppData" where
  "COMMMC_appResetHkData s =
     (CFE_SUCCESS, s\<lparr>cm_CmdCounter := 0, cm_ErrCounter := 0, cm_currentConnectionRate := 0,
        cm_CommMissCount := 0, cm_Telemetry := zero_comm, cm_IsImaging := False\<rparr>)"

definition cm_hk_packet :: "COMMMC_AppData \<Rightarrow> u8 \<Rightarrow> CANIOMC_CommTlmPayload \<Rightarrow>
    COMMMC_HkTlm_Comm" where
  "cm_hk_packet s stale t =
     \<lparr>ohk_CmdCounter = cm_CmdCounter s, ohk_ErrCounter = cm_ErrCounter s, ohk_CommStale = stale,
      ohk_currentConnectionRate = cm_currentConnectionRate s, ohk_Telemetry = t\<rparr>"

definition COMMMC_appPrepareHkPacket ::
  "Env \<Rightarrow> COMMMC_AppData \<Rightarrow> Trace \<Rightarrow> CFE_Status \<times> COMMMC_AppData \<times> Trace" where
  "COMMMC_appPrepareHkPacket env s tr =
     (let s1 = s\<lparr>cm_HkPacket := cm_hk_packet s
                  (if STALE_THRESHOLD \<le> cm_CommMissCount s then 1 else 0) (cm_Telemetry s)\<rparr>;
          (ignored, s2, tr1) = COMMMC_APP_SEND_HK_CAN_REQUEST_TO_SB env s1 tr;
          s3 = (if cm_CommMissCount s2 < 0xFF
                then s2\<lparr>cm_CommMissCount := cm_CommMissCount s2 + 1\<rparr> else s2)
      in (CFE_SUCCESS, s3, tr1))"

definition COMMMC_APP_SEND_HK_TO_SB ::
  "Env \<Rightarrow> COMMMC_AppData \<Rightarrow> Trace \<Rightarrow> CFE_Status \<times> COMMMC_AppData \<times> Trace" where
  "COMMMC_APP_SEND_HK_TO_SB env s tr =
     (case COMMMC_appPrepareHkPacket env s tr of (status, s1, tr1) \<Rightarrow>
        if status \<noteq> CFE_SUCCESS
        then (status, cm_count_error s1, cm_event HK_PREP_ERR_EID EVS_ERROR tr1)
        else (case sb_transmit env (COMMMC_HK_TLM_MID (cm_HkPacket s1)) tr1 of (status, tr2) \<Rightarrow>
           if status \<noteq> CFE_SUCCESS
           then (status, cm_count_error s1, cm_event HK_SEND_ERR_EID EVS_ERROR tr2)
           else (status, s1, cm_event HK_SEND_SUCCESS_EID EVS_INFORMATION tr2)))"

definition COMMMC_ProcessCommTlm ::
  "CANIOMC_CommTlmPayload option \<Rightarrow> COMMMC_AppData \<Rightarrow> Trace \<Rightarrow>
   CFE_Status \<times> COMMMC_AppData \<times> Trace" where
  "COMMMC_ProcessCommTlm Pkt s tr =
     (case Pkt of None \<Rightarrow> (CFE_SUCCESS, s, tr)
      | Some t \<Rightarrow> (CFE_SUCCESS, s\<lparr>cm_Telemetry := t, cm_CommMissCount := 0\<rparr>,
                   cm_event HK_SEND_SUCCESS_EID EVS_DEBUG tr))"

section \<open>Dispatch, start and main loop\<close>

definition process_command :: "Env \<Rightarrow> COMMMC_APP_ProcessCmd \<Rightarrow> COMMMC_AppData \<Rightarrow> Trace \<Rightarrow>
    (COMMMC_AppData \<times> Trace) run" where
  "process_command env c s tr =
     (let tr1 = cm_event MSG_RECEIVED_EID EVS_INFORMATION tr;
          s1 = s\<lparr>cm_CmdCounter := cm_CmdCounter s + 1\<rparr>
      in if pc_OutMsgToSend c = COMMMC_APP_COMMAND_TASK_ID_SEND_MINIMAL_TM_TO_GROUND
         then run_bind (COMMMC_APP_SEND_MINIMAL_TM_TO_GROUND env tr1) (\<lambda>(status, tr2).
           if status \<noteq> CFE_SUCCESS
           then Returns (s1, cm_event COMMMC_SEND_MINIMAL_TM_ERR_EID EVS_ERROR tr2)
           else Returns (s1, cm_event COMMMC_SEND_MINIMAL_TM_SUCCESS_EID EVS_INFORMATION tr2))
         else if pc_OutMsgToSend c = COMMMC_APP_COMMAND_TASK_ID_SEND_MAX then Returns (s1, tr1)
         else Returns (s1, cm_event COMMMC_UNKNOWN_COMMAND_TASK_ID_ERR_EID EVS_ERROR tr1))"

fun COMMMC_appTaskPipe :: "Env \<Rightarrow> SB_Msg \<Rightarrow> COMMMC_AppData \<Rightarrow> Trace \<Rightarrow>
    (COMMMC_AppData \<times> Trace) run" where
  "COMMMC_appTaskPipe env (COMMMC_CMD_MID c) s tr = process_command env c s tr"
| "COMMMC_appTaskPipe env COMMMC_SEND_HK_MID s tr =
     Returns (snd (COMMMC_APP_SEND_HK_TO_SB env s (cm_event MSG_RECEIVED_EID EVS_INFORMATION tr)))"
| "COMMMC_appTaskPipe env (CANIOMC_COMM_TLM_MID t) s tr =
     Returns (snd (COMMMC_ProcessCommTlm (Some t) s tr))"
| "COMMMC_appTaskPipe env (PAYLOADMC_IMAGING_MODE_MID b) s tr = Returns (s\<lparr>cm_IsImaging := b\<rparr>, tr)"
| "COMMMC_appTaskPipe env (DS_COMP_TLM_MID p) s tr =
     Returns (COMMMC_ImgXfer_OnDsFileComplete (Some p) s tr)"
| "COMMMC_appTaskPipe env (CANIOMC_COMM_IMG_REQUEST_MID p) s tr =
     Returns (COMMMC_ImgXfer_OnRequest env (Some p) s tr)"
| "COMMMC_appTaskPipe env (CANIOMC_IMG_XFER_BEGIN_ACK_MID p) s tr =
     Returns (COMMMC_ImgXfer_OnBeginAck env (Some p) s tr)"
| "COMMMC_appTaskPipe env (CANIOMC_IMG_CHUNK_ACK_MID p) s tr =
     COMMMC_ImgXfer_OnChunkAck env (Some p) s tr"
| "COMMMC_appTaskPipe env (CANIOMC_IMG_XFER_RESULT_MID p) s tr =
     Returns (COMMMC_ImgXfer_OnResult (Some p) s tr)"
| "COMMMC_appTaskPipe env (CANIOMC_SPI_TX_DONE_MID p) s tr =
     Returns (COMMMC_ImgXfer_OnSpiDone env (Some p) s tr)"
| "COMMMC_appTaskPipe env m s tr = Returns (s, cm_event UNKNOWN_MSG_ERR_EID EVS_ERROR tr)"

definition COMMMC_appTableInit :: "Env \<Rightarrow> Trace \<Rightarrow> CFE_Status \<times> Trace" where
  "COMMMC_appTableInit env = app_table_init env COMMMC"

definition COMMMC_appTableReload :: "Env \<Rightarrow> Trace \<Rightarrow> CFE_Status \<times> Trace" where
  "COMMMC_appTableReload env = app_table_reload env COMMMC"

definition comm_subscriptions :: "u16 list" where
  "comm_subscriptions = [0xBC1, 0xBC2, 0xDCA, 0xEC3, 0xDCD, 0xDCE, 0xDCF, 0xDD0, 0xDD2, 0x8BA]"

text \<open>The start up to the subscriptions.\<close>

definition comm_connect :: "Env \<Rightarrow> COMMMC_AppData \<Rightarrow> Trace \<Rightarrow> CFE_Status \<times> COMMMC_AppData \<times> Trace" where
  "comm_connect env s tr =
     (let s1 = s\<lparr>cm_RunStatus := APP_RUN, cm_HkPacket := cm_HkPacket COMMMC_AppData_zero\<rparr>;
          (regStatus, tr1) = svc_call env EVS_Register tr
      in if regStatus \<noteq> CFE_SUCCESS then (regStatus, s1, sys_log tr1)
         else case COMMMC_appPrepareHkPacket env s1 tr1 of (hkStatus, s2, tr2) \<Rightarrow>
           if hkStatus \<noteq> CFE_SUCCESS then (hkStatus, s2, cm_event INIT_HK_ERR_EID EVS_ERROR tr2)
           else case
             svc_or env (SB_CreatePipe 12) (cm_event CREATE_PIPE_ERR_EID EVS_ERROR)
              (subscribe_all env COMMMC comm_subscriptions (\<lambda>tr3. (CFE_SUCCESS, tr3))) tr2
           of (status, tr3) \<Rightarrow> (status, s2, tr3))"

definition COMMMC_appInit :: "Env \<Rightarrow> u8 list \<Rightarrow> Sha_256 \<Rightarrow> COMMMC_AppData \<Rightarrow> Trace \<Rightarrow>
    (CFE_Status \<times> COMMMC_AppData \<times> Trace) run" where
  "COMMMC_appInit env junk ctx s tr =
     (case comm_connect env s tr of (status, s1, tr1) \<Rightarrow>
        if status \<noteq> CFE_SUCCESS then Returns (status, s1, tr1)
        else
          let s2 = COMMMC_ImgXfer_Init s1 in
          case COMMMC_appTableInit env tr1 of (tblStatus, tr2) \<Rightarrow>
            if tblStatus \<noteq> CFE_SUCCESS then Returns (tblStatus, s2, tr2)
            else case svc_call env OS_TaskCreate (cm_event 1 EVS_INFORMATION tr2) of
                (taskStatus, tr3) \<Rightarrow>
              if taskStatus \<noteq> CFE_SUCCESS
              then Returns (taskStatus, s2, cm_event COMMMC_TASK_CREATE_ERR_EID EVS_ERROR tr3)
              else run_bind
                (COMMMC_APP_SEND_FILE_TO_GROUND env junk ctx ''cf/powerMC_Cfg.tbl'' s2 tr3)
                (\<lambda>(ignored, s3, tr4). Returns (CFE_SUCCESS, s3, tr4)))"

fun comm_loop_step :: "Env \<Rightarrow> Loop_Input \<Rightarrow> COMMMC_AppData \<Rightarrow> Trace \<Rightarrow>
    (COMMMC_AppData \<times> Trace) run" where
  "comm_loop_step env (Received m) s tr = COMMMC_appTaskPipe env m s tr"
| "comm_loop_step env Timed_Out s tr = Returns (COMMMC_ImgXfer_OnTick env s tr)"
| "comm_loop_step env (Receive_Error e) s tr =
     Returns (s\<lparr>cm_RunStatus := APP_ERROR\<rparr>, sys_log (cm_event RCV_MSG_ERR_EID EVS_ERROR tr))"
| "comm_loop_step env Shutdown s tr = Returns (s, tr)"

definition COMMMC_appMain :: "Env \<Rightarrow> u8 list \<Rightarrow> Sha_256 \<Rightarrow> Loop_Input list \<Rightarrow> COMMMC_AppData \<Rightarrow>
    (COMMMC_AppData \<times> Trace) run" where
  "COMMMC_appMain env junk ctx is s =
     run_bind (COMMMC_appInit env junk ctx s []) (\<lambda>(status, s1, tr).
       let s2 = (if status \<noteq> CFE_SUCCESS then s1\<lparr>cm_RunStatus := APP_ERROR\<rparr> else s1)
       in app_run_loop cm_RunStatus (comm_loop_step env) is s2 tr)"

section \<open>The contract holds\<close>

definition cm_is_hk :: "SB_Msg \<Rightarrow> bool" where
  "cm_is_hk m = (m = COMMMC_SEND_HK_MID)"

definition cm_reply :: "SB_Msg \<Rightarrow> CANIOMC_CommTlmPayload option" where
  "cm_reply m = (case m of CANIOMC_COMM_TLM_MID t \<Rightarrow> Some t | _ \<Rightarrow> None)"

definition cm_alive :: "SB_Msg \<Rightarrow> bool" where
  "cm_alive m = (cm_reply m \<noteq> None)"

definition comm_step :: "Env \<Rightarrow> SB_Msg \<Rightarrow> COMMMC_AppData \<Rightarrow> Trace \<Rightarrow> COMMMC_AppData \<times> Trace" where
  "comm_step env m = returned (COMMMC_appTaskPipe env m)"

lemma comm_hk_step:
  "cm_CommMissCount (fst (comm_step env COMMMC_SEND_HK_MID s tr)) = count_miss (cm_CommMissCount s)"
  "cm_Telemetry (fst (comm_step env COMMMC_SEND_HK_MID s tr)) = cm_Telemetry s"
  "sb_sent (snd (comm_step env COMMMC_SEND_HK_MID s tr)) = sb_sent tr @
     [can_request CANIOMC_COMM_ID CANIOMC_COMM_HK_MSGID, COMMMC_HK_TLM_MID
        (cm_hk_packet s (if STALE_THRESHOLD \<le> cm_CommMissCount s then 1 else 0) (cm_Telemetry s))]"
  by (simp_all add: comm_step_def returned_def COMMMC_APP_SEND_HK_TO_SB_def Let_def
      COMMMC_appPrepareHkPacket_def COMMMC_APP_SEND_HK_CAN_REQUEST_TO_SB_def env_call_defs
      count_miss_def)

text \<open>The transfer code leaves the cached telemetry and the miss count alone.\<close>

lemma CloseXferFile_cache [simp]:
  "cm_CommMissCount (fst (CloseXferFile s tr)) = cm_CommMissCount s"
  "cm_Telemetry (fst (CloseXferFile s tr)) = cm_Telemetry s"
  by (simp_all add: CloseXferFile_def)

lemma Abort_cache [simp]:
  "cm_CommMissCount (fst (Abort env s tr)) = cm_CommMissCount s"
  "cm_Telemetry (fst (Abort env s tr)) = cm_Telemetry s"
  by (simp_all add: Abort_def split_def)

lemma Finish_cache [simp]:
  "cm_CommMissCount (fst (Finish ok s tr)) = cm_CommMissCount s"
  "cm_Telemetry (fst (Finish ok s tr)) = cm_Telemetry s"
  by (simp_all add: Finish_def split_def Let_def)

lemma start_transfer_cache [simp]:
  "cm_CommMissCount (fst (start_transfer env sender crc sz f s tr)) = cm_CommMissCount s"
  "cm_Telemetry (fst (start_transfer env sender crc sz f s tr)) = cm_Telemetry s"
  by (simp_all add: start_transfer_def split_def Let_def)

lemma Abort_cacheD:
  "Abort env s tr = (s', tr') \<Longrightarrow> cm_CommMissCount s' = cm_CommMissCount s \<and> cm_Telemetry s' = cm_Telemetry s"
  using Abort_cache [of env s tr] by simp

definition cache_view :: "COMMMC_AppData \<Rightarrow> u8 \<times> CANIOMC_CommTlmPayload" where
  "cache_view s = (cm_CommMissCount s, cm_Telemetry s)"

lemma cache_view_handlers [simp]:
  "cache_view (fst (COMMMC_ImgXfer_OnDsFileComplete p s tr)) = cache_view s"
  "cache_view (fst (COMMMC_ImgXfer_OnRequest env q s tr)) = cache_view s"
  "cache_view (fst (COMMMC_ImgXfer_OnBeginAck env q s tr)) = cache_view s"
  "cache_view (fst (COMMMC_ImgXfer_OnSpiDone env d s tr)) = cache_view s"
  "cache_view (fst (COMMMC_ImgXfer_OnResult q s tr)) = cache_view s"
  by (auto simp: cache_view_def COMMMC_ImgXfer_OnDsFileComplete_def COMMMC_ImgXfer_OnRequest_def
      COMMMC_ImgXfer_OnBeginAck_def COMMMC_ImgXfer_OnSpiDone_def COMMMC_ImgXfer_OnResult_def Let_def
      split: option.split prod.split)

lemma cache_view_chunk_ack:
  "cache_view (fst (returned (\<lambda>s. COMMMC_ImgXfer_OnChunkAck env q s) s tr)) = cache_view s"
  by (auto simp: returned_def cache_view_def COMMMC_ImgXfer_OnChunkAck_def Let_def run_bind_Returns_iff
      dest: Abort_cacheD split: option.split prod.split run.split if_splits)

lemma cache_view_command:
  "cache_view (fst (returned (process_command env c) s tr)) = cache_view s"
  by (auto simp: returned_def cache_view_def process_command_def Let_def run_bind_Returns_iff
      split: prod.splits run.split if_splits)

lemma comm_step_cache:
  "\<not> cm_is_hk m \<Longrightarrow> cache_view (fst (comm_step env m s tr)) =
     (case cm_reply m of None \<Rightarrow> cache_view s | Some t \<Rightarrow> (0, t))"
proof (cases m)
  case (COMMMC_CMD_MID c)
  then show ?thesis using cache_view_command [of env c s tr]
    by (simp add: comm_step_def returned_def cm_reply_def)
next
  case (CANIOMC_IMG_CHUNK_ACK_MID p)
  then show ?thesis using cache_view_chunk_ack [of env "Some p" s tr]
    by (simp add: comm_step_def returned_def cm_reply_def)
next
  case (CANIOMC_COMM_TLM_MID t)
  then show ?thesis
    by (simp add: comm_step_def returned_def cm_reply_def COMMMC_ProcessCommTlm_def cache_view_def)
qed (simp_all add: comm_step_def returned_def cm_reply_def cm_is_hk_def,
     simp_all add: cache_view_def)

interpretation comm: hk_subsystem comm_step cm_CommMissCount cm_Telemetry cm_is_hk cm_alive
  cm_reply "can_request CANIOMC_COMM_ID CANIOMC_COMM_HK_MSGID"
  "\<lambda>env tr s stale t. COMMMC_HK_TLM_MID (cm_hk_packet s stale t)"
proof unfold_locales
  fix m env s tr
  assume "cm_is_hk m"
  then show "cm_CommMissCount (fst (comm_step env m s tr)) = count_miss (cm_CommMissCount s) \<and>
      cm_Telemetry (fst (comm_step env m s tr)) = cm_Telemetry s \<and>
      sb_sent (snd (comm_step env m s tr)) = sb_sent tr @
        [can_request CANIOMC_COMM_ID CANIOMC_COMM_HK_MSGID, COMMMC_HK_TLM_MID
          (cm_hk_packet s (if STALE_THRESHOLD \<le> cm_CommMissCount s then 1 else 0) (cm_Telemetry s))]"
    unfolding cm_is_hk_def by (simp only: comm_hk_step)
next
  fix m env s tr
  assume "\<not> cm_is_hk m" "cm_alive m"
  then show "cm_CommMissCount (fst (comm_step env m s tr)) = 0"
    using comm_step_cache [of m env s tr] by (auto simp: cm_alive_def cache_view_def)
next
  fix m env s tr
  assume "\<not> cm_is_hk m" "\<not> cm_alive m"
  then show "cm_CommMissCount (fst (comm_step env m s tr)) = cm_CommMissCount s"
    using comm_step_cache [of m env s tr] by (auto simp: cm_alive_def cache_view_def)
next
  fix m env s tr
  assume "\<not> cm_is_hk m"
  then show "cm_Telemetry (fst (comm_step env m s tr)) =
      (case cm_reply m of None \<Rightarrow> cm_Telemetry s | Some d \<Rightarrow> d)"
    using comm_step_cache [of m env s tr] by (auto simp: cache_view_def split: option.splits)
next
  fix m d
  assume "cm_reply m = Some d"
  then show "cm_alive m \<and> \<not> cm_is_hk m"
    by (auto simp: cm_is_hk_def cm_alive_def cm_reply_def split: SB_Msg.splits)
qed

section \<open>Nothing else touches the transfer\<close>

text \<open>
  What a step of the application other than those of the transfer leaves as it was: the transfer
  fields, what the card has been given, and, up to \<open>d\<close>, the number of open streams.
\<close>

definition xfer_quiet :: "Env \<Rightarrow> int \<Rightarrow> Trace \<Rightarrow> Trace \<Rightarrow> bool" where
  "xfer_quiet env d tr tr' \<longleftrightarrow>
     comm_view tr' = comm_view tr \<and> streams_open env tr' = streams_open env tr + d"

text \<open>A send call of the ground link comes back, with whatever result.\<close>

definition link_returns :: "Env \<Rightarrow> bool" where
  "link_returns env \<longleftrightarrow> (\<forall>tcp tr dat. transmit_over tcp (env_ground env tr dat) dat tr \<noteq> Blocked)"

definition quiet_send :: "Env \<Rightarrow> Trace \<Rightarrow> ('a \<times> Trace) run \<Rightarrow> bool" where
  "quiet_send env tr r =
     (case r of Returns (st, tr') \<Rightarrow> xfer_quiet env 0 tr tr'
      | OutOfBounds \<Rightarrow> False | Blocked \<Rightarrow> \<not> link_returns env)"

definition quiet_file :: "Env \<Rightarrow> int \<Rightarrow> COMMMC_AppData \<Rightarrow> Trace \<Rightarrow>
    ('a \<times> COMMMC_AppData \<times> Trace) run \<Rightarrow> bool" where
  "quiet_file env d s tr r =
     (case r of Returns (st, s', tr') \<Rightarrow> xfer_view s' = xfer_view s \<and> xfer_quiet env d tr tr'
      | OutOfBounds \<Rightarrow> False | Blocked \<Rightarrow> \<not> link_returns env)"

lemma quiet_refl [simp]: "xfer_quiet env 0 tr tr"
  by (simp add: xfer_quiet_def)

lemma quiet_neutral [simp]: "list_all xfer_neutral cs \<Longrightarrow> xfer_quiet env 0 tr (tr @ cs)"
  using neutral_trace [of cs "comm_view tr" env tr] by (simp add: xfer_quiet_def)

lemma quiet_event: "xfer_quiet env d tr tr' \<Longrightarrow> xfer_quiet env d tr (send_event app e ty tr')"
  using quiet_neutral [of "[EVS_SendEvent app e ty]" env tr']
  by (simp add: xfer_quiet_def send_event_def note_msg_def)

lemma quiet_trans:
  "xfer_quiet env d tr tr' \<Longrightarrow> xfer_quiet env e tr' tr'' \<Longrightarrow> xfer_quiet env (d + e) tr tr''"
  by (simp add: xfer_quiet_def)

lemma quiet_Fclose: "xfer_quiet env d tr tr' \<Longrightarrow> xfer_quiet env (d - 1) tr (tr' @ [Fclose])"
  by (simp add: xfer_quiet_def)

lemma quiet_bind:
  assumes "quiet_send env tr r" "xfer_quiet env e tr0 tr"
    and "\<And>st tr'. xfer_quiet env e tr0 tr' \<Longrightarrow> quiet_file env d s tr0 (k (st, tr'))"
  shows "quiet_file env d s tr0 (run_bind r k)"
  using assms quiet_trans [of env e tr0 tr 0]
  by (cases r) (auto simp: quiet_send_def quiet_file_def)

lemma quiet_good:
  assumes "xfer_good env (s, tr)" "xfer_view s' = xfer_view s" "xfer_quiet env 0 tr tr'"
  shows "xfer_good env (s', tr')"
  using assms
  by (simp add: xfer_quiet_def xfer_view_def xfer_defs xfer_open_def xfer_params_def
      xfer_progress_def bytes_due_def cong: option.case_cong COMMMC_ImgXferState.case_cong)

lemma send_loop_no_oob: "send_loop tcp answers dat sent pieces \<noteq> OutOfBounds"
proof (induction answers arbitrary: sent pieces)
  case Nil
  then show ?case by (simp add: send_loop.simps)
next
  case (Cons a rest)
  then show ?case by (subst send_loop.simps) (simp split: Send_Answer.split)
qed

lemma quiet_send_intro: "list_all xfer_neutral cs \<Longrightarrow> quiet_send env tr (Returns (st, tr @ cs))"
  by (simp add: quiet_send_def)

lemma transmit_over_shape:
  "transmit_over tcp l dat tr = Blocked \<or> (\<exists>st out. transmit_over tcp l dat tr = Returns (st, tr @ [Ground_Send out st]))"
  using send_loop_no_oob [of tcp "gl_answers l" dat 0 "[]"]
  by (cases "send_loop tcp (gl_answers l) dat 0 []") (auto simp: transmit_over_def Let_def)

lemma quiet_transmit: "quiet_send env tr (transmit_over tcp (env_ground env tr dat) dat tr)"
proof (cases "transmit_over tcp (env_ground env tr dat) dat tr = Blocked")
  case True
  then show ?thesis by (auto simp: quiet_send_def link_returns_def)
next
  case False
  then obtain st out where "transmit_over tcp (env_ground env tr dat) dat tr = Returns (st, tr @ [Ground_Send out st])"
    using transmit_over_shape [of tcp "env_ground env tr dat" dat tr] by blast
  then show ?thesis by (simp add: quiet_send_intro)
qed

lemma quiet_send_data: "quiet_send env tr (COMMMC_APP_SEND_DATA_TO_GROUND env port dat tr)"
  using quiet_transmit [of env tr] quiet_send_intro [of "[]" env tr "Status_Code 1"]
  by (auto simp: COMMMC_APP_SEND_DATA_TO_GROUND_def split: option.split)

lemma quiet_send_from:
  "quiet_send env tr1 r \<Longrightarrow> xfer_quiet env 0 tr tr1 \<Longrightarrow> quiet_send env tr r"
  using quiet_trans [of env 0 tr tr1 0] by (auto simp: quiet_send_def split: run.splits)

lemma quiet_time: "xfer_quiet env 0 tr (tr @ [Time_GetTime])"
  by simp

lemma quiet_pdu: "quiet_send env tr (send_pdu env n control counter crc field tr)"
  by (simp add: send_pdu_def COMMMC_APP_CREATE_TELEMETRY_SECONDARY_HEADER_def Let_def
      quiet_send_from [OF quiet_send_data quiet_time])

lemma quiet_minimal: "quiet_send env tr (COMMMC_APP_SEND_MINIMAL_TM_TO_GROUND env tr)"
  by (simp add: COMMMC_APP_SEND_MINIMAL_TM_TO_GROUND_def Let_def
      COMMMC_APP_CREATE_TELEMETRY_SECONDARY_HEADER_def quiet_send_from [OF quiet_send_data quiet_time])

lemma quiet_fileI: "xfer_view s' = xfer_view s \<Longrightarrow> xfer_quiet env d tr tr' \<Longrightarrow>
   quiet_file env d s tr (Returns (st, s', tr'))"
  by (simp add: quiet_file_def)

lemma count_error_view [simp]: "xfer_view (cm_count_error s) = xfer_view s"
  by (simp add: xfer_view_def)

lemma quiet_file_view: "xfer_view s1 = xfer_view s \<Longrightarrow> quiet_file env d s1 tr r \<Longrightarrow> quiet_file env d s tr r"
  by (auto simp: quiet_file_def split: run.splits)

lemma quiet_chunks:
  "xfer_quiet env 0 tr0 tr \<Longrightarrow> quiet_file env 0 s tr0 (send_chunks env bad rest counter buf s tr)"
proof (induction env bad rest counter buf s tr rule: send_chunks.induct)
  case (1 env bad rest counter buf s tr)
  let ?rd = "take PDU_LEN rest"
  consider "?rd = []" | "?rd \<noteq> []" "length ?rd < PDU_LEN"
    | "?rd \<noteq> []" "\<not> length ?rd < PDU_LEN" by blast
  then show ?case
  proof cases
    case 1
    with "1.prems" show ?thesis
      by (subst send_chunks.simps) (auto simp: Let_def intro!: quiet_fileI quiet_event)
  next
    case 2
    with "1.prems" show ?thesis
      by (subst send_chunks.simps) (auto simp: Let_def intro!: quiet_fileI)
  next
    case 3
    show ?thesis
      apply (subst send_chunks.simps)
      apply (simp only: Let_def 3 if_False)
      apply (rule quiet_bind [OF quiet_pdu "1.prems"])
      apply (simp only: prod.case split: if_split)
      apply (intro conjI impI)
       apply (rule quiet_file_view [OF count_error_view])
       apply (rule "1.IH"(1) [OF refl refl 3])
         apply (assumption | rule refl quiet_event)+
      apply (rule "1.IH"(2) [OF refl refl 3])
        apply (assumption | rule refl | simp)+
      done
  qed
qed

lemma quiet_last: "quiet_file env (- 1) s tr (send_last env e s tr)"
proof -
  have "xfer_quiet env (- 1) tr (t @ [Fclose])" if "xfer_quiet env 0 tr t" for t
    using quiet_Fclose [OF that] by simp
  then show ?thesis unfolding send_last_def Let_def
    by (intro quiet_bind [OF quiet_pdu quiet_refl, where d = "- 1"])
      (auto simp: prod.case intro!: quiet_fileI quiet_event split: if_splits)
qed

lemma hash_returns:
  assumes "length (sha_chunk ctx) = 64"
  shows "\<exists>r. compute_sha256 (Some f) ctx = Returns r"
proof -
  have "sha_absorbed (sha_256_init ctx) []" by (rule sha_buffered_init) (simp add: assms)
  from sha.feed_absorbed [OF this, of "chunks 8192 (readable f)"] obtain c where
    "feed_blocks sha_256_write (sha_256_init ctx) (chunks 8192 (readable f)) = Returns c"
    "sha_absorbed c (concat (chunks 8192 (readable f)))" by auto
  then show ?thesis by (auto simp: compute_sha256_def sha_close_digest)
qed

lemma quiet_file_from:
  "quiet_file env d s1 tr1 r \<Longrightarrow> xfer_view s1 = xfer_view s \<Longrightarrow> xfer_quiet env e tr tr1 \<Longrightarrow>
   quiet_file env (d + e) s tr r"
  by (auto simp: quiet_file_def xfer_quiet_def split: run.splits)

lemma quiet_file_bind:
  assumes "quiet_file env 0 s tr r" "xfer_quiet env e tr0 tr"
    and "\<And>st s1 tr1. xfer_view s1 = xfer_view s \<Longrightarrow> xfer_quiet env e tr0 tr1 \<Longrightarrow>
      quiet_file env d s tr0 (k (st, s1, tr1))"
  shows "quiet_file env d s tr0 (run_bind r k)"
  using assms quiet_trans [of env e tr0 tr 0]
  by (cases r) (auto simp: quiet_file_def)

lemma quiet_close: "xfer_quiet env 1 tr tr' \<Longrightarrow> xfer_quiet env 0 tr (tr' @ [Fclose])"
  using quiet_Fclose [of env 1] by simp

text \<open>Sending a file opens and closes one stream, whatever the ground link answers.\<close>

lemma quiet_send_file:
  assumes "length (sha_chunk ctx) = 64"
  shows "quiet_file env 0 s tr (COMMMC_APP_SEND_FILE_TO_GROUND env junk ctx path s tr)"
proof (cases "env_file env tr path")
  case None
  have "xfer_quiet env 0 tr (tr @ [Fopen path])" using None by (simp add: xfer_quiet_def note_msg_def)
  with None show ?thesis
    by (auto simp: COMMMC_APP_SEND_FILE_TO_GROUND_def file_open_def intro!: quiet_fileI quiet_event)
next
  case (Some f)
  have opened: "xfer_quiet env 1 tr (tr @ [Fopen path])"
    using Some by (simp add: xfer_quiet_def note_msg_def)
  have timed: "xfer_quiet env 1 tr ((tr @ [Fopen path]) @ [Time_GetTime])"
    using quiet_trans [OF opened quiet_time] by simp
  obtain h digest where hash: "compute_sha256 (Some f) ctx = Returns (h, digest)"
    using hash_returns [OF assms, of f] by auto
  have chunks: "quiet_file env 0 s tr (run_bind (send_chunks env (snd f \<noteq> None) (readable f) 0 junk s tr1)
     (\<lambda>(e, s1, tr4). case e of None \<Rightarrow> Returns (CFE_SEVERITY_ERROR, s1, tr4 @ [Fclose])
        | Some e \<Rightarrow> send_last env e s1 tr4))" if t: "xfer_quiet env 1 tr tr1" for tr1
    using quiet_file_from [OF quiet_last, of _ s env 1 tr]
    by (intro quiet_file_bind [OF quiet_chunks [OF quiet_refl] t])
      (auto intro!: quiet_fileI quiet_close split: option.split)
  show ?thesis
    apply (simp only: COMMMC_APP_SEND_FILE_TO_GROUND_def file_open_def Some prod.case option.case Let_def
        hash run_bind.simps COMMMC_APP_CREATE_TELEMETRY_SECONDARY_HEADER_def split: if_split)
    apply (intro conjI impI)
      apply (rule quiet_fileI, simp, rule quiet_close, rule quiet_event, rule opened)+
    apply (rule quiet_bind [OF quiet_send_data timed])
    apply (simp only: prod.case split: if_split)
    apply (intro conjI impI)
     apply (rule quiet_fileI, simp, rule quiet_close, rule quiet_event, assumption)
    apply (rule chunks, rule quiet_event, assumption)
    done
qed

lemma xfer_idle_good:
  "cm_XferState s = COMMMC_IMGXFER_IDLE \<Longrightarrow> cm_XferFile s = None \<Longrightarrow> xfer_quiet env 0 [] tr \<Longrightarrow>
   xfer_good env (s, tr)"
  by (rule xfer_good_idle) (simp_all add: xfer_quiet_def)

lemma quiet_svc_or:
  assumes "xfer_quiet env 0 tr0 tr" "\<And>tr. xfer_quiet env 0 tr0 tr \<Longrightarrow> xfer_quiet env 0 tr0 (report tr)"
    "\<And>tr. xfer_quiet env 0 tr0 tr \<Longrightarrow> xfer_quiet env 0 tr0 (snd (k tr))"
  shows "xfer_quiet env 0 tr0 (snd (svc_or env v report k tr))"
  using assms quiet_trans [OF assms(1) quiet_neutral [of "[Svc v (env_svc env tr v)]"]]
  by (cases "env_svc env tr v = CFE_SUCCESS") (simp_all add: svc_or_def svc_call_def)

lemma quiet_subscribe:
  assumes "xfer_quiet env 0 tr0 tr" "\<And>tr. xfer_quiet env 0 tr0 tr \<Longrightarrow> xfer_quiet env 0 tr0 (snd (k tr))"
  shows "xfer_quiet env 0 tr0 (snd (subscribe_all env app mids k tr))"
  using assms
  by (induction mids arbitrary: tr) (auto intro!: quiet_svc_or quiet_event)

section \<open>Start and main loop\<close>

lemma quiet_request:
  assumes "COMMMC_APP_SEND_HK_CAN_REQUEST_TO_SB env s tr = (st, s', tr')"
  shows "xfer_view s' = xfer_view s \<and> cm_RunStatus s' = cm_RunStatus s \<and> xfer_quiet env 0 tr tr'"
proof -
  let ?c = "SB_Transmit (can_request CANIOMC_COMM_ID CANIOMC_COMM_HK_MSGID)
    (env_sb env tr (can_request CANIOMC_COMM_ID CANIOMC_COMM_HK_MSGID))"
  have "xfer_quiet env 0 tr (tr @ [?c])"
    by (rule quiet_neutral) (simp add: xfer_neutral_def can_request_def msgid_defs)
  with assms show ?thesis
    by (auto simp: COMMMC_APP_SEND_HK_CAN_REQUEST_TO_SB_def sb_transmit_def xfer_view_def
        split: if_splits intro!: quiet_event)
qed

lemma quiet_prepare:
  assumes "COMMMC_appPrepareHkPacket env s tr = (st, s', tr')"
  shows "st = CFE_SUCCESS \<and> xfer_view s' = xfer_view s \<and> cm_RunStatus s' = cm_RunStatus s \<and>
    xfer_quiet env 0 tr tr'"
  using assms quiet_request [of env "s\<lparr>cm_HkPacket := cm_hk_packet s
    (if STALE_THRESHOLD \<le> cm_CommMissCount s then 1 else 0) (cm_Telemetry s)\<rparr>" tr]
  by (auto simp: COMMMC_appPrepareHkPacket_def Let_def xfer_view_def split: prod.splits if_splits)

lemma quiet_hk: 
  "xfer_view (fst (snd (COMMMC_APP_SEND_HK_TO_SB env s tr))) = xfer_view s \<and>
   xfer_quiet env 0 tr (snd (snd (COMMMC_APP_SEND_HK_TO_SB env s tr)))"
proof -
  obtain st s1 tr1 where p: "COMMMC_appPrepareHkPacket env s tr = (st, s1, tr1)"
    by (cases "COMMMC_appPrepareHkPacket env s tr") auto
  let ?m = "COMMMC_HK_TLM_MID (cm_HkPacket s1)"
  have "xfer_quiet env 0 tr1 (tr1 @ [SB_Transmit ?m (env_sb env tr1 ?m)])"
    by (rule quiet_neutral) (simp add: xfer_neutral_def)
  with quiet_prepare [OF p] quiet_trans [of env 0 tr tr1 0] p show ?thesis
    by (auto simp: COMMMC_APP_SEND_HK_TO_SB_def sb_transmit_def xfer_view_def
        split: if_splits intro!: quiet_event)
qed

lemma connect_quiet:
  assumes "comm_connect env s tr = (st, s', tr')" "xfer_quiet env 0 [] tr"
  shows "xfer_view s' = xfer_view s \<and> xfer_quiet env 0 [] tr'"
proof -
  let ?s = "s\<lparr>cm_RunStatus := APP_RUN, cm_HkPacket := cm_HkPacket COMMMC_AppData_zero\<rparr>"
  let ?tr = "tr @ [Svc EVS_Register (env_svc env tr EVS_Register)]"
  have reg: "xfer_quiet env 0 [] ?tr"
    using quiet_trans [OF assms(2) quiet_neutral [of "[Svc EVS_Register (env_svc env tr EVS_Register)]"]]
    by simp
  have log: "xfer_quiet env 0 [] (sys_log ?tr)"
    using quiet_trans [OF reg quiet_neutral [of "[ES_WriteToSysLog]"]] by (simp add: sys_log_def)
  obtain h s2 tr2 where p: "COMMMC_appPrepareHkPacket env ?s ?tr = (h, s2, tr2)"
    by (cases "COMMMC_appPrepareHkPacket env ?s ?tr") auto
  have v: "xfer_view ?s = xfer_view s" by (simp add: xfer_view_def)
  have q2: "xfer_quiet env 0 [] tr2" using quiet_trans [OF reg, of 0 tr2] quiet_prepare [OF p] by simp
  let ?pipe = "svc_or env (SB_CreatePipe 12) (cm_event CREATE_PIPE_ERR_EID EVS_ERROR)
       (subscribe_all env COMMMC comm_subscriptions (\<lambda>tr3. (CFE_SUCCESS, tr3))) tr2"
  obtain st3 tr3 where p3: "?pipe = (st3, tr3)" by (cases ?pipe) auto
  have "xfer_quiet env 0 [] (snd ?pipe)"
    by (intro quiet_svc_or quiet_subscribe q2 quiet_event) simp_all
  with p3 have q3: "xfer_quiet env 0 [] tr3" by simp
  from p quiet_prepare [OF p] have h: "h = CFE_SUCCESS" "xfer_view s2 = xfer_view s" using v by simp_all
  show ?thesis using assms(1) v log q3 h
    unfolding comm_connect_def Let_def svc_call_def prod.case p p3
    by (auto split: if_splits)
qed

definition start_good :: "Env \<Rightarrow> (CFE_Status \<times> COMMMC_AppData \<times> Trace) run \<Rightarrow> bool" where
  "start_good env r = (case r of Returns (st, s, tr) \<Rightarrow> xfer_good env (s, tr)
     | OutOfBounds \<Rightarrow> False | Blocked \<Rightarrow> \<not> link_returns env)"

lemma start_good_Returns [simp]: "start_good env (Returns (st, s, tr)) = xfer_good env (s, tr)"
  by (simp add: start_good_def)

lemma table_quiet:
  "xfer_quiet env 0 [] tr \<Longrightarrow> xfer_quiet env 0 [] (snd (COMMMC_appTableInit env tr))"
  unfolding COMMMC_appTableInit_def app_table_init_def
proof (intro quiet_svc_or quiet_event)
  fix t
  assume t: "xfer_quiet env 0 [] t"
  have "xfer_quiet env 0 [] (t @ [Svc TBL_GetAddress (env_svc env t TBL_GetAddress)])"
    using quiet_trans [OF t quiet_neutral [of "[Svc TBL_GetAddress (env_svc env t TBL_GetAddress)]"]]
    by simp
  then show "xfer_quiet env 0 [] (snd (case svc_call env TBL_GetAddress t of (status, tr') \<Rightarrow>
      if status \<noteq> CFE_TBL_INFO_UPDATED
      then (status, send_event COMMMC TBL_GET_ADDR_ERR_EID EVS_ERROR tr') else (CFE_SUCCESS, tr')))"
    by (cases "env_svc env t TBL_GetAddress = CFE_TBL_INFO_UPDATED")
      (simp_all add: svc_call_def quiet_event)
qed

lemma init_good:
  assumes "cm_XferState s = COMMMC_IMGXFER_IDLE" "cm_XferFile s = None" "length (sha_chunk ctx) = 64"
  shows "start_good env (COMMMC_appInit env junk ctx s [])"
proof -
  obtain st s1 tr1 where c: "comm_connect env s [] = (st, s1, tr1)"
    by (cases "comm_connect env s []") auto
  from connect_quiet [OF c quiet_refl] have v: "xfer_view s1 = xfer_view s" and q1: "xfer_quiet env 0 [] tr1"
    by simp_all
  have s1: "xfer_good env (s1, tr1)"
    using v assms by (intro xfer_idle_good q1) (simp_all add: xfer_view_def)
  let ?s2 = "COMMMC_ImgXfer_Init s1"
  have good: "xfer_good env (?s2, t)" if "xfer_quiet env 0 [] t" for t
    by (rule xfer_idle_good [OF _ _ that]) (simp_all add: COMMMC_ImgXfer_Init_def)
  obtain tb tr2 where t: "COMMMC_appTableInit env tr1 = (tb, tr2)"
    by (cases "COMMMC_appTableInit env tr1") auto
  have q2: "xfer_quiet env 0 [] tr2" using table_quiet [OF q1] t by simp
  let ?ev = "cm_event 1 EVS_INFORMATION tr2"
  let ?tr3 = "?ev @ [Svc OS_TaskCreate (env_svc env ?ev OS_TaskCreate)]"
  have q3: "xfer_quiet env 0 [] ?tr3"
    using quiet_trans [OF quiet_event [OF q2]
        quiet_neutral [of "[Svc OS_TaskCreate (env_svc env ?ev OS_TaskCreate)]"]] by simp
  have sent_file: "start_good env (run_bind
      (COMMMC_APP_SEND_FILE_TO_GROUND env junk ctx ''cf/powerMC_Cfg.tbl'' ?s2 ?tr3)
      (\<lambda>(ignored, s3, tr4). Returns (CFE_SUCCESS, s3, tr4)))"
    using quiet_send_file [OF assms(3), of env ?s2 ?tr3 junk "''cf/powerMC_Cfg.tbl''"] good [OF q3]
    by (cases "COMMMC_APP_SEND_FILE_TO_GROUND env junk ctx ''cf/powerMC_Cfg.tbl'' ?s2 ?tr3")
      (auto simp: quiet_file_def start_good_def intro: quiet_good)
  show ?thesis
    apply (simp only: COMMMC_appInit_def c t prod.case Let_def svc_call_def split: if_split)
    by (intro conjI impI)
      (rule sent_file | simp (no_asm) only: start_good_Returns s1 good [OF q2] good [OF quiet_event [OF q3]])+
qed

definition keeps_good :: "Env \<Rightarrow> (COMMMC_AppData \<times> Trace) run \<Rightarrow> bool" where
  "keeps_good env r =
     (case r of Returns st \<Rightarrow> xfer_good env st | OutOfBounds \<Rightarrow> False | Blocked \<Rightarrow> \<not> link_returns env)"

lemma keeps_good_Returns [simp]: "keeps_good env (Returns st) = xfer_good env st"
  by (simp add: keeps_good_def)

lemma keeps_good_returns: "returns_good env r \<Longrightarrow> keeps_good env r"
  by (auto simp: returns_good_def keeps_good_def split: run.splits)

lemma pipe_good:
  assumes "stable_files env" "xfer_good env (s, tr)"
  shows "keeps_good env (COMMMC_appTaskPipe env m s tr)"
proof (cases m)
  case (COMMMC_CMD_MID c)
  let ?tr = "cm_event MSG_RECEIVED_EID EVS_INFORMATION tr"
  have q: "xfer_quiet env 0 tr ?tr" by (rule quiet_event) simp
  have v: "xfer_view (s\<lparr>cm_CmdCounter := cm_CmdCounter s + 1\<rparr>) = xfer_view s"
    by (simp add: xfer_view_def)
  have g: "xfer_good env (s\<lparr>cm_CmdCounter := cm_CmdCounter s + 1\<rparr>, t)" if "xfer_quiet env 0 tr t" for t
    by (rule quiet_good [OF assms(2) v that])
  have "quiet_send env tr (COMMMC_APP_SEND_MINIMAL_TM_TO_GROUND env ?tr)"
    by (rule quiet_send_from [OF quiet_minimal q])
  then show ?thesis using COMMMC_CMD_MID g [OF q] g [OF quiet_event [OF q]] g [OF quiet_event]
    by (cases "COMMMC_APP_SEND_MINIMAL_TM_TO_GROUND env ?tr")
      (auto simp: process_command_def Let_def keeps_good_def quiet_send_def)
next
  case COMMMC_SEND_HK_MID
  let ?tr = "cm_event MSG_RECEIVED_EID EVS_INFORMATION tr"
  have q: "xfer_quiet env 0 tr ?tr" by (rule quiet_event) simp
  from quiet_hk [of env s ?tr] quiet_trans [OF q, of 0] show ?thesis
    using COMMMC_SEND_HK_MID quiet_good [OF assms(2)]
    by (cases "COMMMC_APP_SEND_HK_TO_SB env s ?tr") (auto simp: keeps_good_def)
next
  case (CANIOMC_COMM_TLM_MID t)
  have "xfer_good env (s\<lparr>cm_Telemetry := t, cm_CommMissCount := 0\<rparr>,
      cm_event HK_SEND_SUCCESS_EID EVS_DEBUG tr)"
    by (rule quiet_good [OF assms(2) _ quiet_event]) (simp_all add: xfer_view_def)
  then show ?thesis using CANIOMC_COMM_TLM_MID
    by (simp add: keeps_good_def COMMMC_ProcessCommTlm_def)
next
  case (PAYLOADMC_IMAGING_MODE_MID b)
  have "xfer_good env (s\<lparr>cm_IsImaging := b\<rparr>, tr)"
    by (rule quiet_good [OF assms(2) _ quiet_refl]) (simp add: xfer_view_def)
  then show ?thesis using PAYLOADMC_IMAGING_MODE_MID by (simp add: keeps_good_def)
qed (use assms quiet_good [OF assms(2) refl quiet_event [OF quiet_refl]] in
    \<open>simp_all add: keeps_good_Returns OnDsFileComplete_good OnRequest_good
      OnBeginAck_good keeps_good_returns OnChunkAck_good OnSpiDone_good OnResult_good\<close>)

lemma loop_step_good:
  assumes "stable_files env" "xfer_good env (s, tr)"
  shows "keeps_good env (comm_loop_step env i s tr)"
proof (cases i)
  case (Receive_Error e)
  have q: "xfer_quiet env 0 tr (sys_log (cm_event RCV_MSG_ERR_EID EVS_ERROR tr))"
    using quiet_trans [OF quiet_event [OF quiet_refl] quiet_neutral [of "[ES_WriteToSysLog]"]]
    by (simp add: sys_log_def)
  have "xfer_good env (s\<lparr>cm_RunStatus := APP_ERROR\<rparr>, sys_log (cm_event RCV_MSG_ERR_EID EVS_ERROR tr))"
    by (rule quiet_good [OF assms(2) _ q]) (simp add: xfer_view_def)
  then show ?thesis using Receive_Error by (simp add: keeps_good_def)
qed (use assms in \<open>simp_all add: pipe_good OnTick_good keeps_good_Returns\<close>)

lemma run_loop_good:
  assumes "stable_files env" "xfer_good env (s, tr)"
  shows "keeps_good env (app_run_loop cm_RunStatus (comm_loop_step env) (is @ [Shutdown]) s tr)"
  using assms(2)
proof (induction "is" arbitrary: s tr)
  case Nil
  then show ?case by (simp add: keeps_good_def)
next
  case (Cons i rest)
  show ?case
  proof (cases "comm_loop_step env i s tr")
    case (Returns st)
    then show ?thesis using loop_step_good [OF assms(1) Cons.prems, of i] Cons.prems Cons.IH
      by (cases st) (auto simp: keeps_good_Returns)
  qed (use loop_step_good [OF assms(1) Cons.prems, of i] Cons.prems in \<open>simp_all add: keeps_good_def\<close>)
qed

lemma good_streams:
  assumes "xfer_good env (s, tr)"
  shows "streams_open env tr = (if cm_XferFile s = None then 0 else 1) \<and>
    (cm_XferFile s = None \<longleftrightarrow> cm_XferState s = COMMMC_IMGXFER_IDLE)"
  using xfer_good_balanced [OF assms] xfer_good_idle_file [OF assms] assms
  by (auto simp: xfer_good_def xfer_inv_def)

section \<open>Properties\<close>

text \<open>Whatever has been received, the next housekeeping request makes the application ask the COMM
  board again and publish the last telemetry the board sent, marked stale exactly when at least five
  requests have gone by since the board was last heard.\<close>
lemma comm_housekeeping:
  assumes "run_all (COMMMC_appTaskPipe env) ms COMMMC_AppData_zero [] = Returns (s, tr)"
  shows "case COMMMC_appTaskPipe env COMMMC_SEND_HK_MID s tr of Returns (s', tr') \<Rightarrow>
    sb_sent tr' = sb_sent tr @ [can_request CANIOMC_COMM_ID CANIOMC_COMM_HK_MSGID,
      COMMMC_HK_TLM_MID (cm_hk_packet s
        (if 5 \<le> hk_since cm_is_hk cm_alive 0 ms then 1 else 0)
        (last_reply cm_reply zero_comm ms))] | _ \<Rightarrow> False"
proof -
  have h: "handle_all (comm_step env) ms COMMMC_AppData_zero [] = (s, tr)"
    using run_all_returned [OF assms] by (simp add: comm_step_def [abs_def])
  show ?thesis using comm.stale_packet [OF _ h, of COMMMC_SEND_HK_MID]
    by (cases "snd (COMMMC_APP_SEND_HK_TO_SB env s (cm_event MSG_RECEIVED_EID EVS_INFORMATION tr))")
      (simp add: cm_is_hk_def comm_step_def returned_def COMMMC_AppData_zero_def)
qed

text \<open>C9. From power up, whatever the services and the ground link answer and whatever messages arrive,
  as long as the files are readable the same at every opening and below 4 GB less a chunk, the application
  never reads or writes outside its buffers; every run that cFE ends comes to its end unless a send call of the
  ground link never returns; and at that point, which may be between any two messages, a file is held exactly
  while a transfer runs and the open streams are that file and nothing else.\<close>
theorem comm_app_safe:
  assumes "stable_files env" "length (sha_chunk ctx) = SIZE_OF_SHA_256_CHUNK"
  shows "case COMMMC_appMain env junk ctx (is @ [Shutdown]) COMMMC_AppData_zero of
      Returns (s, tr) \<Rightarrow> streams_open env tr = (if cm_XferFile s = None then 0 else 1) \<and>
        (cm_XferFile s = None \<longleftrightarrow> cm_XferState s = COMMMC_IMGXFER_IDLE)
    | OutOfBounds \<Rightarrow> False
    | Blocked \<Rightarrow> \<not> link_returns env"
proof -
  have "start_good env (COMMMC_appInit env junk ctx COMMMC_AppData_zero [])"
    using assms(2) by (intro init_good) (simp_all add: COMMMC_AppData_zero_def SIZE_OF_SHA_256_CHUNK_def)
  then have "keeps_good env (COMMMC_appMain env junk ctx (is @ [Shutdown]) COMMMC_AppData_zero)"
  proof (cases "COMMMC_appInit env junk ctx COMMMC_AppData_zero []")
    case (Returns r)
    obtain st s tr where r: "r = (st, s, tr)" by (cases r)
    let ?s = "if st \<noteq> CFE_SUCCESS then s\<lparr>cm_RunStatus := APP_ERROR\<rparr> else s"
    assume "start_good env (COMMMC_appInit env junk ctx COMMMC_AppData_zero [])"
    with Returns r have g: "xfer_good env (s, tr)" by simp
    have "xfer_good env (?s, tr)" by (rule quiet_good [OF g _ quiet_refl]) (simp add: xfer_view_def)
    from run_loop_good [OF assms(1) this] Returns r show ?thesis
      by (simp add: COMMMC_appMain_def Let_def)
  qed (simp_all add: COMMMC_appMain_def start_good_def keeps_good_def)
  then show ?thesis
    by (auto simp: keeps_good_def dest!: good_streams split: run.splits)
qed

text \<open>A card that asks for an image that was never announced, after which cFE stops the application.\<close>

theorem comm_app_safe_witness:
  "\<exists>s tr. COMMMC_appMain photo_env [] (sha_fresh []) ([Received (CANIOMC_COMM_IMG_REQUEST_MID photo_request),
      Timed_Out] @ [Shutdown]) COMMMC_AppData_zero = Returns (s, tr) \<and>
    streams_open photo_env tr = (if cm_XferFile s = None then 0 else 1)"
proof -
  have "link_returns photo_env"
    by (simp add: link_returns_def transmit_over_def photo_env_def good_env_def Let_def
        send_loop.simps [of _ "[_]"] send_loop.simps [of _ "[]"])
  moreover have "length (sha_chunk (sha_fresh [])) = SIZE_OF_SHA_256_CHUNK"
    by (simp add: sha_fresh_def SIZE_OF_SHA_256_CHUNK_def)
  ultimately show ?thesis
    using comm_app_safe [OF photo_env_ok(1), of "sha_fresh []" "[]"
      "[Received (CANIOMC_COMM_IMG_REQUEST_MID photo_request), Timed_Out]"]
    by (cases "COMMMC_appMain photo_env [] (sha_fresh []) ([Received (CANIOMC_COMM_IMG_REQUEST_MID photo_request),
      Timed_Out] @ [Shutdown]) COMMMC_AppData_zero") (simp_all add: split_paired_all)
qed

end
