(* ===== verification/Gvcp.thy ===== *)
theory Gvcp
  imports Flight_Env Decimal
begin

text \<open>
  The camera link (\<open>payloadMC_gvcp_hal_udp.c\<close>): the register writes that put a camera into
  streaming, the heartbeat, and the capture of one frame from the stream. The sockets are the
  environment: a datagram sent is an entry of the trace, a datagram received an answer.
\<close>

section \<open>Control channel\<close>

definition PAYLOADMC_NUM_CAMERAS :: nat where
  "PAYLOADMC_NUM_CAMERAS = 4"

definition PAYLOADMC_STREAM_PORT :: u32 where
  "PAYLOADMC_STREAM_PORT = 50001"

definition GVCP_REG_CCP :: u32 where "GVCP_REG_CCP = 0x00000A00"

definition GVCP_REG_SCP0 :: u32 where "GVCP_REG_SCP0 = 0x00000D00"

definition GVCP_REG_SCPS0 :: u32 where "GVCP_REG_SCPS0 = 0x00000D04"

definition GVCP_REG_SCDA0 :: u32 where "GVCP_REG_SCDA0 = 0x00000D18"

definition GVCP_REG_EXPOSURE_AUTO :: u32 where "GVCP_REG_EXPOSURE_AUTO = 0x00030B08"

definition GVCP_REG_GAIN_AUTO :: u32 where "GVCP_REG_GAIN_AUTO = 0x00031220"

definition GVCP_REG_ACQ_START :: u32 where "GVCP_REG_ACQ_START = 0x00030804"

definition GVCP_CCP_TAKE_CONTROL :: u32 where "GVCP_CCP_TAKE_CONTROL = 0x00000002"

definition GVCP_SCPS0_1500 :: u32 where "GVCP_SCPS0_1500 = 0x000005DC"

definition GVCP_AUTO_CONTINUOUS :: u32 where "GVCP_AUTO_CONTINUOUS = 0x00000002"

definition GVCP_ACQ_START_FIRE :: u32 where "GVCP_ACQ_START_FIRE = 0x80000000"

definition GVCP_KEY :: u8 where "GVCP_KEY = 0x42"

definition GVCP_FLAG_ACK :: u8 where "GVCP_FLAG_ACK = 0x01"

definition GVCP_CMD_WRITEREG :: u16 where "GVCP_CMD_WRITEREG = 0x0082"

definition GVCP_CMD_READREG :: u16 where "GVCP_CMD_READREG = 0x0080"

lemmas gvcp_defs = GVCP_REG_CCP_def GVCP_REG_SCP0_def GVCP_REG_SCPS0_def GVCP_REG_SCDA0_def
  GVCP_REG_EXPOSURE_AUTO_def GVCP_REG_GAIN_AUTO_def GVCP_REG_ACQ_START_def
  GVCP_CCP_TAKE_CONTROL_def GVCP_SCPS0_1500_def GVCP_AUTO_CONTINUOUS_def GVCP_ACQ_START_FIRE_def

text \<open>\<open>PAYLOADMC_OBC_IP\<close> is 192.168.1.50, in host order after \<open>ntohl\<close>.\<close>

definition PAYLOADMC_OBC_IP :: u32 where "PAYLOADMC_OBC_IP = 0xC0A80132"

text \<open>The statics of the file: which sockets are open, and the request counters.\<close>

record Gvcp =
  gv_Socket :: "bool list"
  gv_ReqCounter :: "u16 list"

definition GVCP_Header :: "u16 \<Rightarrow> u16 \<Rightarrow> u16 \<Rightarrow> u8 list" where
  "GVCP_Header command len req_id =
     [GVCP_KEY, GVCP_FLAG_ACK] @ be16 command @ be16 len @ be16 req_id"

definition udp_sendto :: "Env \<Rightarrow> nat \<Rightarrow> u8 list \<Rightarrow> Trace \<Rightarrow> bool \<times> Trace" where
  "udp_sendto env cam pkt tr =
     (env_sendto env tr cam pkt, tr @ [Udp_Sendto cam pkt (env_sendto env tr cam pkt)])"

text \<open>A datagram longer than the buffer is cut to its size.\<close>

definition udp_recvfrom :: "Env \<Rightarrow> nat \<Rightarrow> nat \<Rightarrow> Trace \<Rightarrow> u8 list option \<times> Trace" where
  "udp_recvfrom env cam size_of tr =
     (map_option (take size_of) (env_recvfrom env tr cam), tr @ [Udp_Recvfrom cam])"

definition next_request :: "nat \<Rightarrow> Gvcp \<Rightarrow> Gvcp" where
  "next_request cam g = g\<lparr>gv_ReqCounter := (gv_ReqCounter g)[cam := gv_ReqCounter g ! cam + 1]\<rparr>"

definition GVCP_WriteReg :: "Env \<Rightarrow> nat \<Rightarrow> u32 \<Rightarrow> u32 \<Rightarrow> Gvcp \<Rightarrow> Trace \<Rightarrow>
    CFE_Status \<times> Gvcp \<times> Trace" where
  "GVCP_WriteReg env CamIndex addr val g tr =
     (case udp_sendto env CamIndex
        (GVCP_Header GVCP_CMD_WRITEREG 8 (gv_ReqCounter g ! CamIndex) @ be32 addr @ be32 val) tr of
        (ok, tr1) \<Rightarrow>
          if \<not> ok then (CFE_STATUS_EXTERNAL_RESOURCE_FAIL, g, tr1)
          else case udp_recvfrom env CamIndex 64 tr1 of (n, tr2) \<Rightarrow>
            let g1 = next_request CamIndex g in
            (case n of
               None \<Rightarrow> (CFE_STATUS_EXTERNAL_RESOURCE_FAIL, g1, tr2)
             | Some ack \<Rightarrow>
                 if length ack < 8 then (CFE_STATUS_EXTERNAL_RESOURCE_FAIL, g1, tr2)
                 else if ack ! 0 \<noteq> 0 \<or> ack ! 1 \<noteq> 0
                 then (CFE_STATUS_EXTERNAL_RESOURCE_FAIL, g1, tr2)
                 else (CFE_SUCCESS, g1, tr2)))"

definition PAYLOADMC_GVCP_HAL_Init :: "Env \<Rightarrow> nat \<Rightarrow> Gvcp \<Rightarrow> Trace \<Rightarrow>
    CFE_Status \<times> Gvcp \<times> Trace" where
  "PAYLOADMC_GVCP_HAL_Init env CamIndex g tr =
     (if PAYLOADMC_NUM_CAMERAS \<le> CamIndex then (CFE_STATUS_EXTERNAL_RESOURCE_FAIL, g, tr)
      else case svc_call env (GVCP_Socket CamIndex) tr of (status, tr1) \<Rightarrow>
        if status \<noteq> CFE_SUCCESS
        then (CFE_STATUS_EXTERNAL_RESOURCE_FAIL,
              g\<lparr>gv_Socket := (gv_Socket g)[CamIndex := False]\<rparr>, sys_log tr1)
        else (CFE_SUCCESS, g\<lparr>gv_Socket := (gv_Socket g)[CamIndex := True],
              gv_ReqCounter := (gv_ReqCounter g)[CamIndex := 1]\<rparr>, tr1))"

text \<open>The register writes, one after the other, until one fails.\<close>

fun write_regs :: "Env \<Rightarrow> nat \<Rightarrow> (u32 \<times> u32) list \<Rightarrow> Gvcp \<Rightarrow> Trace \<Rightarrow>
    CFE_Status \<times> Gvcp \<times> Trace" where
  "write_regs env cam [] g tr = (CFE_SUCCESS, g, tr)"
| "write_regs env cam ((addr, val) # regs) g tr =
     (case GVCP_WriteReg env cam addr val g tr of (status, g1, tr1) \<Rightarrow>
        if status \<noteq> CFE_SUCCESS then (status, g1, tr1) else write_regs env cam regs g1 tr1)"

definition init_sequence :: "(u32 \<times> u32) list" where
  "init_sequence =
     [(GVCP_REG_CCP, GVCP_CCP_TAKE_CONTROL), (GVCP_REG_SCPS0, GVCP_SCPS0_1500),
      (GVCP_REG_SCDA0, PAYLOADMC_OBC_IP), (GVCP_REG_SCP0, PAYLOADMC_STREAM_PORT),
      (GVCP_REG_EXPOSURE_AUTO, GVCP_AUTO_CONTINUOUS), (GVCP_REG_GAIN_AUTO, GVCP_AUTO_CONTINUOUS),
      (GVCP_REG_ACQ_START, GVCP_ACQ_START_FIRE)]"

definition PAYLOADMC_GVCP_HAL_InitCamera :: "Env \<Rightarrow> nat \<Rightarrow> Gvcp \<Rightarrow> Trace \<Rightarrow>
    CFE_Status \<times> Gvcp \<times> Trace" where
  "PAYLOADMC_GVCP_HAL_InitCamera env CamIndex g tr =
     (if PAYLOADMC_NUM_CAMERAS \<le> CamIndex then (CFE_STATUS_EXTERNAL_RESOURCE_FAIL, g, tr)
      else write_regs env CamIndex init_sequence g tr)"

definition PAYLOADMC_GVCP_HAL_Heartbeat :: "Env \<Rightarrow> nat \<Rightarrow> Gvcp \<Rightarrow> Trace \<Rightarrow>
    CFE_Status \<times> Gvcp \<times> Trace" where
  "PAYLOADMC_GVCP_HAL_Heartbeat env CamIndex g tr =
     (if PAYLOADMC_NUM_CAMERAS \<le> CamIndex then (CFE_STATUS_EXTERNAL_RESOURCE_FAIL, g, tr)
      else
        let pkt = GVCP_Header GVCP_CMD_READREG 4 (gv_ReqCounter g ! CamIndex) @ be32 GVCP_REG_CCP;
            g1 = next_request CamIndex g
        in case udp_sendto env CamIndex pkt tr of (ok, tr1) \<Rightarrow>
             if \<not> ok then (CFE_STATUS_EXTERNAL_RESOURCE_FAIL, g1, tr1)
             else case udp_recvfrom env CamIndex 64 tr1 of (ignored, tr2) \<Rightarrow>
               (CFE_SUCCESS, g1, tr2))"

definition PAYLOADMC_GVCP_HAL_Deinit :: "nat \<Rightarrow> Gvcp \<Rightarrow> Gvcp" where
  "PAYLOADMC_GVCP_HAL_Deinit CamIndex g =
     (if PAYLOADMC_NUM_CAMERAS \<le> CamIndex then g
      else if gv_Socket g ! CamIndex then g\<lparr>gv_Socket := (gv_Socket g)[CamIndex := False]\<rparr>
      else g)"

section \<open>Stream channel\<close>

definition GVSP_FMT_LEADER :: u8 where "GVSP_FMT_LEADER = 0x01"

definition GVSP_FMT_TRAILER :: u8 where "GVSP_FMT_TRAILER = 0x02"

definition GVSP_FMT_PAYLOAD :: u8 where "GVSP_FMT_PAYLOAD = 0x03"

definition GVSP_MAX_UDP_PKT :: nat where "GVSP_MAX_UDP_PKT = 2048"

definition GVSP_RECV_IDLE_LIMIT :: nat where "GVSP_RECV_IDLE_LIMIT = 20"

definition GVSP_MAX_FRAME_BYTES :: u32 where "GVSP_MAX_FRAME_BYTES = 64 * 1024 * 1024"

lemmas gvsp_fmt_defs = GVSP_FMT_LEADER_def GVSP_FMT_TRAILER_def GVSP_FMT_PAYLOAD_def

text \<open>
  The locals of the loop. \<open>gs_frame\<close> is the whole block \<open>frame\<close> points to; \<open>gs_curBlock\<close> is
  compared after a cast, so it is kept as 16 bits.
\<close>

record Gvsp =
  gs_frame :: "u8 list"
  gs_frameCap :: u32
  gs_frameLen :: u32
  gs_width :: u32
  gs_height :: u32
  gs_haveLeader :: bool
  gs_curBlock :: u16
  gs_idle :: nat

definition gvsp_start :: Gvsp where
  "gvsp_start = \<lparr>gs_frame = [], gs_frameCap = 0, gs_frameLen = 0, gs_width = 0, gs_height = 0,
     gs_haveLeader = False, gs_curBlock = - 1, gs_idle = 0\<rparr>"

definition get32be :: "u8 list \<Rightarrow> nat \<Rightarrow> u32" where
  "get32be b k = push_bit 24 (ucast (b ! k)) OR push_bit 16 (ucast (b ! (k + 1))) OR
     push_bit 8 (ucast (b ! (k + 2))) OR ucast (b ! (k + 3))"

definition pgm_header :: "u32 \<Rightarrow> u32 \<Rightarrow> string" where
  "pgm_header width height = ''P5'' @ [CHR 0x0A] @ decimal (unat width) @ '' '' @
     decimal (unat height) @ [CHR 0x0A] @ ''255'' @ [CHR 0x0A]"

definition string_bytes :: "string \<Rightarrow> u8 list" where
  "string_bytes s = map of_char s"

text \<open>What a datagram does: the capture goes on in a new state, or it is over.\<close>

type_synonym Capture = "CFE_Status \<times> u8 list option"

definition gvsp_leader :: "Gvsp_Stream \<Rightarrow> nat \<Rightarrow> u8 list \<Rightarrow> u16 \<Rightarrow> Gvsp \<Rightarrow> (Gvsp + Capture) run" where
  "gvsp_leader st left udpBuf block g =
     (if length udpBuf < 8 + 36 then Returns (Inl g)
      else
        let width = get32be udpBuf (8 + 16); height = get32be udpBuf (8 + 20);
            need = width * height;
            g1 = g\<lparr>gs_width := width, gs_height := height\<rparr>
        in if need = 0 \<or> GVSP_MAX_FRAME_BYTES < need
           then Returns (Inl (g1\<lparr>gs_haveLeader := False\<rparr>))
           else if gs_frameCap g1 < need \<and> \<not> st_malloc st left need
           then Returns (Inr (CFE_STATUS_EXTERNAL_RESOURCE_FAIL, None))
           else
             let g2 = (if gs_frameCap g1 < need
                       then g1\<lparr>gs_frame := take (unat need) (zero_filled (unat need) (st_junk st left)),
                               gs_frameCap := need\<rparr>
                       else g1)
             in Returns (Inl (g2\<lparr>gs_frameLen := 0, gs_curBlock := block, gs_haveLeader := True\<rparr>)))"

definition gvsp_payload :: "u8 list \<Rightarrow> Gvsp \<Rightarrow> (Gvsp + Capture) run" where
  "gvsp_payload udpBuf g =
     (let dlen = of_nat (length udpBuf - 8) in
      if gs_frameLen g + dlen \<le> gs_frameCap g
      then (case mem_write (gs_frame g) (unat (gs_frameLen g)) (drop 8 udpBuf) of
              None \<Rightarrow> OutOfBounds
            | Some frame \<Rightarrow> Returns (Inl (g\<lparr>gs_frame := frame, gs_frameLen := gs_frameLen g + dlen\<rparr>)))
      else Returns (Inl g))"

definition gvsp_trailer :: "Gvsp_Stream \<Rightarrow> nat \<Rightarrow> Gvsp \<Rightarrow> (Gvsp + Capture) run" where
  "gvsp_trailer st left g =
     (let n = gs_width g * gs_height g;
          pgmHeader = string_bytes (pgm_header (gs_width g) (gs_height g))
      in if n \<le> gs_frameLen g \<and> 0 < gs_width g \<and> 0 < gs_height g
         then
           if 64 \<le> length pgmHeader then OutOfBounds
           else if \<not> st_malloc st left (of_nat (length pgmHeader) + n)
           then Returns (Inr (CFE_STATUS_EXTERNAL_RESOURCE_FAIL, None))
           else (case mem_read (gs_frame g) 0 (unat n) of
                   None \<Rightarrow> OutOfBounds
                 | Some pixels \<Rightarrow> Returns (Inr (CFE_SUCCESS, Some (pgmHeader @ pixels))))
         else Returns (Inl (g\<lparr>gs_haveLeader := False\<rparr>)))"

definition gvsp_packet :: "Gvsp_Stream \<Rightarrow> nat \<Rightarrow> u8 list \<Rightarrow> Gvsp \<Rightarrow> (Gvsp + Capture) run" where
  "gvsp_packet st left udpBuf g =
     (let block = push_bit 8 (ucast (udpBuf ! 2)) OR ucast (udpBuf ! 3);
          format = udpBuf ! 4 AND 0x0F
      in if format = GVSP_FMT_LEADER then gvsp_leader st left udpBuf block g
         else if format = GVSP_FMT_PAYLOAD \<and> gs_haveLeader g \<and> block = gs_curBlock g
         then gvsp_payload udpBuf g
         else if format = GVSP_FMT_TRAILER \<and> gs_haveLeader g \<and> block = gs_curBlock g
         then gvsp_trailer st left g
         else Returns (Inl g))"

fun gvsp_loop :: "Gvsp_Stream \<Rightarrow> u8 list option list \<Rightarrow> Gvsp \<Rightarrow> Capture run" where
  "gvsp_loop st answers g =
     (if GVSP_RECV_IDLE_LIMIT \<le> gs_idle g then Returns (CFE_STATUS_EXTERNAL_RESOURCE_FAIL, None)
      else case answers of
          [] \<Rightarrow> Blocked
        | None # rest \<Rightarrow> gvsp_loop st rest (g\<lparr>gs_idle := gs_idle g + 1\<rparr>)
        | Some datagram # rest \<Rightarrow>
            (let udpBuf = take GVSP_MAX_UDP_PKT datagram in
             if length udpBuf < 8 then gvsp_loop st rest g
             else (case gvsp_packet st (length rest) udpBuf (g\<lparr>gs_idle := 0\<rparr>) of
                     OutOfBounds \<Rightarrow> OutOfBounds
                   | Blocked \<Rightarrow> Blocked
                   | Returns (Inr r) \<Rightarrow> Returns r
                   | Returns (Inl g') \<Rightarrow> gvsp_loop st rest g')))"

declare gvsp_loop.simps [simp del]

definition PAYLOADMC_GVCP_HAL_CaptureFrame :: "Gvsp_Stream \<Rightarrow> Capture run" where
  "PAYLOADMC_GVCP_HAL_CaptureFrame st =
     (if \<not> st_socket st then Returns (CFE_STATUS_EXTERNAL_RESOURCE_FAIL, None)
      else if \<not> st_bind st then Returns (CFE_STATUS_EXTERNAL_RESOURCE_FAIL, None)
      else gvsp_loop st (st_recv st) gvsp_start)"

section \<open>The capture stays inside its buffers\<close>

definition gvsp_ok :: "Gvsp \<Rightarrow> bool" where
  "gvsp_ok g \<longleftrightarrow> length (gs_frame g) = unat (gs_frameCap g) \<and> gs_frameLen g \<le> gs_frameCap g \<and>
     gs_frameCap g \<le> GVSP_MAX_FRAME_BYTES \<and>
     (gs_haveLeader g \<longrightarrow> gs_width g * gs_height g \<noteq> 0 \<and> gs_width g * gs_height g \<le> GVSP_MAX_FRAME_BYTES)"

text \<open>A captured image: a header for some size, and as many bytes as the 32-bit product says.\<close>

definition pgm_image :: "u8 list \<Rightarrow> bool" where
  "pgm_image out \<longleftrightarrow> (\<exists>w h px. out = string_bytes (pgm_header w h) @ px \<and> length px = unat (w * h) \<and>
     w * h \<noteq> 0 \<and> w * h \<le> GVSP_MAX_FRAME_BYTES)"

definition capture_ok :: "Capture \<Rightarrow> bool" where
  "capture_ok r = (case r of (status, Some out) \<Rightarrow> status = CFE_SUCCESS \<and> pgm_image out
     | (status, None) \<Rightarrow> status \<noteq> CFE_SUCCESS)"

definition packet_ok :: "(Gvsp + Capture) run \<Rightarrow> bool" where
  "packet_ok r = (case r of Returns (Inl g) \<Rightarrow> gvsp_ok g | Returns (Inr c) \<Rightarrow> capture_ok c | _ \<Rightarrow> False)"

lemma packet_ok_simps [simp]:
  "packet_ok (Returns (Inl g)) = gvsp_ok g" "packet_ok (Returns (Inr c)) = capture_ok c"
  by (simp_all add: packet_ok_def)

lemma capture_ok_fail [simp]: "capture_ok (CFE_STATUS_EXTERNAL_RESOURCE_FAIL, None)"
  by (simp add: capture_ok_def)

lemma max_frame: "unat GVSP_MAX_FRAME_BYTES = 67108864"
  by (simp add: GVSP_MAX_FRAME_BYTES_def)

lemma pgm_header_short: "length (string_bytes (pgm_header w h)) < 64"
proof -
  have "length (decimal (unat v)) \<le> 10" for v :: u32
    using decimal_length [of "unat v" 9] unat_u32_less [of v] by simp
  from this [of w] this [of h] show ?thesis by (simp add: pgm_header_def string_bytes_def)
qed

lemma leader_ok: "gvsp_ok g \<Longrightarrow> packet_ok (gvsp_leader st left b block g)"
  by (auto simp: gvsp_leader_def gvsp_ok_def Let_def)

lemma frame_room:
  assumes "gvsp_ok g" "length b \<le> GVSP_MAX_UDP_PKT"
  shows "unat (gs_frameLen g + of_nat (length b - 8)) = unat (gs_frameLen g) + (length b - 8)"
proof -
  have "unat (of_nat (length b - 8) :: u32) = length b - 8"
    using assms(2) by (simp add: unat_of_nat GVSP_MAX_UDP_PKT_def)
  moreover have "unat (gs_frameLen g) \<le> 67108864"
    using assms(1) max_frame by (simp add: gvsp_ok_def word_le_nat_alt)
  ultimately show ?thesis using assms(2)
    by (subst unat_plus_no_wrap) (simp_all add: GVSP_MAX_UDP_PKT_def)
qed

lemma payload_ok:
  assumes "gvsp_ok g" "8 \<le> length b" "length b \<le> GVSP_MAX_UDP_PKT"
  shows "packet_ok (gvsp_payload b g)"
proof (cases "gs_frameLen g + of_nat (length b - 8) \<le> gs_frameCap g")
  case True
  then have "unat (gs_frameLen g) + length (drop 8 b) \<le> length (gs_frame g)"
    using frame_room [OF assms(1,3)] assms(1) by (simp add: word_le_nat_alt gvsp_ok_def)
  then obtain fr where fr: "mem_write (gs_frame g) (unat (gs_frameLen g)) (drop 8 b) = Some fr"
    by (simp add: mem_write_def)
  then show ?thesis using True assms(1) mem_write_length [OF fr]
    by (simp add: gvsp_payload_def gvsp_ok_def)
qed (simp add: gvsp_payload_def assms(1))

lemma trailer_ok:
  assumes "gvsp_ok g" "gs_haveLeader g"
  shows "packet_ok (gvsp_trailer st left g)"
proof -
  let ?n = "gs_width g * gs_height g"
  have "mem_read (gs_frame g) 0 (unat ?n) = Some (take (unat ?n) (gs_frame g))"
    "unat ?n \<le> length (gs_frame g)" if "?n \<le> gs_frameLen g"
    using that assms(1) by (auto simp: mem_read_def gvsp_ok_def word_le_nat_alt)
  moreover have "pgm_image (string_bytes (pgm_header (gs_width g) (gs_height g)) @ take (unat ?n) (gs_frame g))"
    if "unat ?n \<le> length (gs_frame g)"
    unfolding pgm_image_def using that assms by (intro exI conjI) (auto simp: gvsp_ok_def)
  ultimately show ?thesis using assms pgm_header_short [of "gs_width g" "gs_height g"]
    by (auto simp: gvsp_trailer_def Let_def capture_ok_def gvsp_ok_def)
qed

lemma packet_step_ok:
  assumes "gvsp_ok g" "8 \<le> length b" "length b \<le> GVSP_MAX_UDP_PKT"
  shows "packet_ok (gvsp_packet st left b g)"
  using assms by (simp add: gvsp_packet_def Let_def leader_ok payload_ok trailer_ok)

lemma ok_idle [simp]: "gvsp_ok (g\<lparr>gs_idle := k\<rparr>) = gvsp_ok g"
  by (simp add: gvsp_ok_def)

definition captures :: "Capture run \<Rightarrow> bool" where
  "captures r = (case r of Returns c \<Rightarrow> capture_ok c | OutOfBounds \<Rightarrow> False | Blocked \<Rightarrow> True)"

lemma captures_simps [simp]: "captures (Returns c) = capture_ok c" "captures Blocked"
  by (simp_all add: captures_def)

lemma loop_ok: "gvsp_ok g \<Longrightarrow> captures (gvsp_loop st answers g)"
proof (induction answers arbitrary: g)
  case Nil
  then show ?case by (simp add: gvsp_loop.simps)
next
  case (Cons a rest)
  show ?case
  proof (cases a)
    case None
    then show ?thesis using Cons.prems Cons.IH [of "g\<lparr>gs_idle := gs_idle g + 1\<rparr>"]
      by (subst gvsp_loop.simps) simp
  next
    case (Some d)
    let ?b = "take GVSP_MAX_UDP_PKT d"
    show ?thesis
    proof (cases "length ?b < 8")
      case True
      then show ?thesis using Cons.prems Some Cons.IH [of g]
        by (subst gvsp_loop.simps) (simp add: Let_def)
    next
      case False
      then have "packet_ok (gvsp_packet st (length rest) ?b (g\<lparr>gs_idle := 0\<rparr>))"
        using Cons.prems by (intro packet_step_ok) (simp_all add: GVSP_MAX_UDP_PKT_def)
      then show ?thesis using Some Cons.IH False
        by (subst gvsp_loop.simps)
          (auto simp: Let_def packet_ok_def split: run.splits sum.splits if_splits simp del: length_take)
    qed
  qed
qed

lemma loop_returns:
  "GVSP_RECV_IDLE_LIMIT \<le> gs_idle g + n \<Longrightarrow> gvsp_loop st (replicate n None) g =
     Returns (CFE_STATUS_EXTERNAL_RESOURCE_FAIL, None)"
proof (induction n arbitrary: g)
  case 0
  then show ?case by (simp add: gvsp_loop.simps)
next
  case (Suc n)
  then show ?case by (subst gvsp_loop.simps) simp
qed

lemma packet_not_blocked: "gvsp_packet st left b g \<noteq> Blocked"
  by (simp add: gvsp_packet_def Let_def gvsp_leader_def gvsp_payload_def gvsp_trailer_def
      split: option.split)

lemma loop_not_blocked:
  "gvsp_loop st (before @ replicate GVSP_RECV_IDLE_LIMIT None) g \<noteq> Blocked"
proof (induction before arbitrary: g)
  case Nil
  then show ?case by (simp add: loop_returns)
next
  case (Cons a rest)
  then show ?case
    using packet_not_blocked
    by (cases a; subst gvsp_loop.simps) (auto simp: Let_def split: run.split sum.split)
qed

section \<open>A camera that streams\<close>

text \<open>The datagrams of one frame, and a stream that is never silent for the whole limit.\<close>

definition gvsp_datagram :: "u16 \<Rightarrow> u8 \<Rightarrow> u8 list \<Rightarrow> u8 list" where
  "gvsp_datagram block format body = [0, 0] @ be16 block @ [format, 0, 0, 0] @ body"

definition leader_datagram :: "u16 \<Rightarrow> u32 \<Rightarrow> u32 \<Rightarrow> u8 list" where
  "leader_datagram block w h =
     gvsp_datagram block GVSP_FMT_LEADER (zeros 16 @ be32 w @ be32 h @ zeros 12)"

definition trailer_datagram :: "u16 \<Rightarrow> u8 list" where
  "trailer_datagram block = gvsp_datagram block GVSP_FMT_TRAILER (zeros 8)"

definition frame_datagrams :: "u16 \<Rightarrow> u32 \<Rightarrow> u32 \<Rightarrow> u8 list list \<Rightarrow> u8 list list" where
  "frame_datagrams block w h pieces = leader_datagram block w h #
     map (gvsp_datagram block GVSP_FMT_PAYLOAD) pieces @ [trailer_datagram block]"

fun awake :: "nat \<Rightarrow> 'a option list \<Rightarrow> bool" where
  "awake k [] = True"
| "awake k (None # as) = (Suc k < GVSP_RECV_IDLE_LIMIT \<and> awake (Suc k) as)"
| "awake k (Some a # as) = awake 0 as"

fun received :: "'a option list \<Rightarrow> 'a list" where
  "received [] = []"
| "received (None # as) = received as"
| "received (Some a # as) = a # received as"

lemma block_bytes: "push_bit 8 (ucast (be16 v ! 0)) OR ucast (be16 v ! 1) = v"
  unfolding be16_def by (rule bit_word_eqI) (auto simp: bit_simps)

lemma get32be_be32: "get32be (be32 v @ rest) 0 = v"
proof (rule bit_word_eqI)
  fix n
  assume n: "n < LENGTH(32)"
  have eq: "16 + (n - 16) = n" if "16 \<le> n" using that by simp
  have eq24: "24 + (n - 24) = n" if "24 \<le> n" using that by simp
  have eq8: "8 + (n - 8) = n" if "8 \<le> n" using that by simp
  have "n < 32" using n by simp
  then consider "n < 8" | "8 \<le> n" "n < 16" | "16 \<le> n" "n < 24" | "24 \<le> n" "n < 32"
    by (cases "n < 8"; cases "n < 16"; cases "n < 24") auto
  then show "bit (get32be (be32 v @ rest) 0) n = bit v n"
    by cases (use eq eq8 eq24 in \<open>auto simp: get32be_def be32_def bit_simps nth_Cons'\<close>)
qed

lemma get32be_append: "get32be (xs @ ys) (length xs + k) = get32be ys k"
  by (simp add: get32be_def nth_append)

lemma datagram_fields:
  "8 \<le> length (gvsp_datagram block format body)"
  "length (gvsp_datagram block format body) = 8 + length body"
  "push_bit 8 (ucast (gvsp_datagram block format body ! 2)) OR
     ucast (gvsp_datagram block format body ! 3) = block"
  "gvsp_datagram block format body ! 4 = format"
  "drop 8 (gvsp_datagram block format body) = body"
  using block_bytes [of block] by (simp_all add: gvsp_datagram_def be16_def)

lemma leader_fields:
  "get32be (leader_datagram block w h) (8 + 16) = w"
  "get32be (leader_datagram block w h) (8 + 20) = h"
proof -
  let ?p = "[0, 0] @ be16 block @ [GVSP_FMT_LEADER, 0, 0, 0] @ zeros 16"
  have l: "leader_datagram block w h = ?p @ be32 w @ be32 h @ zeros 12"
    "leader_datagram block w h = (?p @ be32 w) @ be32 h @ zeros 12"
    by (simp_all add: leader_datagram_def gvsp_datagram_def)
  have "get32be (leader_datagram block w h) (length ?p + 0) = w"
    by (simp only: l(1) get32be_append get32be_be32)
  moreover have "get32be (leader_datagram block w h) (length (?p @ be32 w) + 0) = h"
    by (simp only: l(2) get32be_append get32be_be32)
  ultimately show "get32be (leader_datagram block w h) (8 + 16) = w"
    "get32be (leader_datagram block w h) (8 + 20) = h" by simp_all
qed

definition collecting :: "u16 \<Rightarrow> u32 \<Rightarrow> u32 \<Rightarrow> u8 list \<Rightarrow> Gvsp \<Rightarrow> bool" where
  "collecting block w h got g \<longleftrightarrow> gvsp_ok g \<and> gs_haveLeader g \<and> gs_curBlock g = block \<and>
     gs_width g = w \<and> gs_height g = h \<and> w * h \<le> gs_frameCap g \<and>
     unat (gs_frameLen g) = length got \<and> take (length got) (gs_frame g) = got"

lemma collecting_idle [simp]: "collecting block w h got (g\<lparr>gs_idle := k\<rparr>) = collecting block w h got g"
  by (simp add: collecting_def)

lemma packet_payload:
  assumes "collecting block w h got g" "length piece \<le> 2040" "length (got @ piece) \<le> unat (w * h)"
  shows "\<exists>g'. gvsp_packet st left (gvsp_datagram block GVSP_FMT_PAYLOAD piece) g = Returns (Inl g') \<and>
    collecting block w h (got @ piece) g' \<and> gs_idle g' = gs_idle g"
proof -
  let ?b = "gvsp_datagram block GVSP_FMT_PAYLOAD piece"
  have ok: "gvsp_ok g" and len: "unat (gs_frameLen g) = length got"
    and cap: "unat (w * h) \<le> unat (gs_frameCap g)" and fr: "length (gs_frame g) = unat (gs_frameCap g)"
    using assms(1) by (auto simp: collecting_def gvsp_ok_def word_le_nat_alt)
  have room: "unat (gs_frameLen g + of_nat (length piece)) = length got + length piece"
    using frame_room [OF ok, of ?b] assms(2) len
    by (simp add: datagram_fields(2) GVSP_MAX_UDP_PKT_def)
  have fits: "gs_frameLen g + of_nat (length piece) \<le> gs_frameCap g"
    using room assms(3) cap by (simp add: word_le_nat_alt)
  have "mem_write (gs_frame g) (length got) piece =
      Some (got @ piece @ drop (length got + length piece) (gs_frame g))"
    using assms(1,3) cap fr by (simp add: mem_write_def collecting_def)
  then have "gvsp_packet st left ?b g = Returns (Inl (g\<lparr>gs_frame := got @ piece @
      drop (length got + length piece) (gs_frame g), gs_frameLen := gs_frameLen g + of_nat (length piece)\<rparr>))"
    using assms(1) fits len
    by (simp add: gvsp_packet_def Let_def datagram_fields gvsp_fmt_defs gvsp_payload_def collecting_def)
  then show ?thesis using assms(1,3) fits room cap fr
    by (auto simp: collecting_def gvsp_ok_def)
qed

lemma packet_trailer:
  assumes "collecting block w h got g" "length got = unat (w * h)" "\<And>k n. st_malloc st k n"
  shows "gvsp_packet st left (trailer_datagram block) g =
    Returns (Inr (CFE_SUCCESS, Some (string_bytes (pgm_header w h) @ got)))"
proof -
  have n: "w * h \<le> gs_frameLen g" using assms(1,2) by (simp add: collecting_def word_le_nat_alt)
  have z: "0 < w" "0 < h" using assms(1) by (auto simp: collecting_def gvsp_ok_def word_neq_0_conv [symmetric])
  have "mem_read (gs_frame g) 0 (unat (w * h)) = Some got"
    using assms(1,2) by (auto simp: mem_read_def collecting_def gvsp_ok_def word_le_nat_alt)
  then show ?thesis using assms(1,3) n z pgm_header_short [of w h]
    by (simp add: gvsp_packet_def Let_def datagram_fields gvsp_fmt_defs trailer_datagram_def
        gvsp_trailer_def collecting_def)
qed

lemma packet_leader:
  assumes "gvsp_ok g" "w * h \<noteq> 0" "w * h \<le> GVSP_MAX_FRAME_BYTES" "\<And>k n. st_malloc st k n"
  shows "\<exists>g'. gvsp_packet st left (leader_datagram block w h) g = Returns (Inl g') \<and>
    collecting block w h [] g' \<and> gs_idle g' = gs_idle g"
proof -
  let ?g = "\<lparr>gs_frame = (if gs_frameCap g < w * h
       then take (unat (w * h)) (zero_filled (unat (w * h)) (st_junk st left)) else gs_frame g),
     gs_frameCap = (if gs_frameCap g < w * h then w * h else gs_frameCap g), gs_frameLen = 0,
     gs_width = w, gs_height = h, gs_haveLeader = True, gs_curBlock = block, gs_idle = gs_idle g\<rparr>"
  have "gvsp_packet st left (leader_datagram block w h) g =
      gvsp_leader st left (leader_datagram block w h) block g"
    by (simp add: gvsp_packet_def leader_datagram_def datagram_fields(3,4) gvsp_fmt_defs)
  moreover have "8 + 36 \<le> length (leader_datagram block w h)"
    by (simp add: leader_datagram_def datagram_fields(2))
  ultimately have "gvsp_packet st left (leader_datagram block w h) g = Returns (Inl ?g)"
    using assms by (simp add: gvsp_leader_def leader_fields [simplified] Let_def)
  moreover have "collecting block w h [] ?g"
    using assms by (auto simp: collecting_def gvsp_ok_def)
  ultimately show ?thesis by simp
qed

lemma loop_collects:
  assumes "\<And>k n. st_malloc st k n" "list_all (\<lambda>p. length p \<le> 2040) pieces"
    and "collecting block w h got g" "length (got @ concat pieces) = unat (w * h)"
    and "awake (gs_idle g) answers" "gs_idle g < GVSP_RECV_IDLE_LIMIT"
    and "received answers = map (gvsp_datagram block GVSP_FMT_PAYLOAD) pieces @ trailer_datagram block # later"
  shows "gvsp_loop st answers g =
    Returns (CFE_SUCCESS, Some (string_bytes (pgm_header w h) @ got @ concat pieces))"
  using assms(2-)
proof (induction answers arbitrary: pieces got g)
  case Nil
  then show ?case by simp
next
  case (Cons a rest)
  show ?case
  proof (cases a)
    case None
    then show ?thesis
      using Cons.prems Cons.IH [of pieces got "g\<lparr>gs_idle := gs_idle g + 1\<rparr>"]
      by (subst gvsp_loop.simps) simp
  next
    case (Some d)
    note recv = Cons.prems(6) [unfolded Some, simplified]
    show ?thesis
    proof (cases pieces)
      case Nil
      then have d: "d = trailer_datagram block" using recv by simp
      have "take GVSP_MAX_UDP_PKT d = d" "8 \<le> length d"
        by (simp_all add: d trailer_datagram_def datagram_fields(2) GVSP_MAX_UDP_PKT_def)
      then show ?thesis using Some Nil Cons.prems(2,3,5)
          packet_trailer [OF _ _ assms(1), of block w h got "g\<lparr>gs_idle := 0\<rparr>" "length rest"]
        by (subst gvsp_loop.simps) (simp add: Let_def d)
    next
      case (Cons p ps)
      then have d: "d = gvsp_datagram block GVSP_FMT_PAYLOAD p"
        and r: "received rest = map (gvsp_datagram block GVSP_FMT_PAYLOAD) ps @ trailer_datagram block # later"
        using recv by simp_all
      have p: "length p \<le> 2040" "list_all (\<lambda>p. length p \<le> 2040) ps" using Cons.prems(1) Cons by simp_all
      have k: "take GVSP_MAX_UDP_PKT d = d" "8 \<le> length d"
        using p(1) by (simp_all add: d datagram_fields(2) GVSP_MAX_UDP_PKT_def)
      have "length (got @ p) \<le> unat (w * h)" using Cons.prems(3) Cons by simp
      with packet_payload [of block w h got "g\<lparr>gs_idle := 0\<rparr>" p st "length rest"] Cons.prems(2) p(1)
      obtain g' where g': "gvsp_packet st (length rest) d (g\<lparr>gs_idle := 0\<rparr>) = Returns (Inl g')"
        "collecting block w h (got @ p) g'" "gs_idle g' = 0" by (auto simp: d)
      have "gvsp_loop st rest g' =
          Returns (CFE_SUCCESS, Some (string_bytes (pgm_header w h) @ (got @ p) @ concat ps))"
        using Cons.prems(3,4) Cons Some g'(3) r
        by (intro Cons.IH [OF p(2) g'(2)]) (simp_all add: GVSP_RECV_IDLE_LIMIT_def)
      then show ?thesis using Some Cons Cons.prems(5) k g'(1)
        by (subst gvsp_loop.simps) (simp add: Let_def)
    qed
  qed
qed

lemma loop_frame:
  assumes "\<And>k n. st_malloc st k n" "list_all (\<lambda>p. length p \<le> 2040) pieces"
    and "gvsp_ok g" "length (concat pieces) = unat (w * h)" "w * h \<noteq> 0" "w * h \<le> GVSP_MAX_FRAME_BYTES"
    and "awake (gs_idle g) answers" "gs_idle g < GVSP_RECV_IDLE_LIMIT"
    and "received answers = frame_datagrams block w h pieces @ later"
  shows "gvsp_loop st answers g =
    Returns (CFE_SUCCESS, Some (string_bytes (pgm_header w h) @ concat pieces))"
  using assms(3,7-)
proof (induction answers arbitrary: g)
  case Nil
  then show ?case by (simp add: frame_datagrams_def)
next
  case (Cons a rest)
  show ?case
  proof (cases a)
    case None
    then show ?thesis
      using Cons.prems Cons.IH [of "g\<lparr>gs_idle := gs_idle g + 1\<rparr>"]
      by (subst gvsp_loop.simps) simp
  next
    case (Some d)
    then have d: "d = leader_datagram block w h" and r: "received rest =
        map (gvsp_datagram block GVSP_FMT_PAYLOAD) pieces @ trailer_datagram block # later"
      using Cons.prems(4) by (simp_all add: frame_datagrams_def)
    have k: "take GVSP_MAX_UDP_PKT d = d" "8 \<le> length d"
      by (simp_all add: d leader_datagram_def datagram_fields(2) GVSP_MAX_UDP_PKT_def)
    from packet_leader [OF _ assms(5,6,1), of "g\<lparr>gs_idle := 0\<rparr>" "length rest" block] Cons.prems(1)
    obtain g' where g': "gvsp_packet st (length rest) d (g\<lparr>gs_idle := 0\<rparr>) = Returns (Inl g')"
      "collecting block w h [] g'" "gs_idle g' = 0" by (auto simp: d)
    have "gvsp_loop st rest g' = Returns (CFE_SUCCESS, Some (string_bytes (pgm_header w h) @ [] @ concat pieces))"
      using Cons.prems(2) Some assms(4) r g'(3)
      by (intro loop_collects [OF assms(1,2) g'(2)]) (simp_all add: GVSP_RECV_IDLE_LIMIT_def)
    then show ?thesis using Some Cons.prems(3) k g'(1)
      by (subst gvsp_loop.simps) (simp add: Let_def)
  qed
qed

section \<open>Reading the image back\<close>

text \<open>A reader of binary PGM files: width, height and the rest of the file.\<close>

definition read_pgm :: "u8 list \<Rightarrow> (nat \<times> nat \<times> u8 list) option" where
  "read_pgm bs =
     (let s = map (\<lambda>b. char_of (unat b)) bs;
          w = takeWhile is_digit (drop 3 s);
          r1 = dropWhile is_digit (drop 3 s);
          h = takeWhile is_digit (drop 1 r1);
          r2 = dropWhile is_digit (drop 1 r1)
      in if take 3 s = ''P5'' @ [CHR 0x0A] \<and> take 1 r1 = '' '' \<and>
            take 5 r2 = [CHR 0x0A] @ ''255'' @ [CHR 0x0A]
         then Some (nat (digits_value w), nat (digits_value h),
                drop (3 + length w + 1 + length h + 5) bs)
         else None)"

lemma char_byte: "char_of (unat (of_char c :: u8)) = c"
proof -
  have "(of_char c :: u8) = of_nat (of_char c)" by (rule of_nat_of_char [symmetric])
  then have "unat (of_char c :: u8) = of_char c"
    by (simp only: unat_of_nat) simp
  then show ?thesis by simp
qed

lemma string_of_bytes [simp]: "map (\<lambda>b. char_of (unat b)) (string_bytes s) = s"
  by (induction s) (simp_all add: string_bytes_def char_byte)

lemma decimal_span:
  assumes "\<not> is_digit c"
  shows "takeWhile is_digit (decimal n @ c # s) = decimal n"
    "dropWhile is_digit (decimal n @ c # s) = c # s"
proof -
  have "\<And>x. x \<in> set (decimal n) \<Longrightarrow> is_digit x" using decimal_digits [of n] by (simp add: list_all_iff)
  then show "takeWhile is_digit (decimal n @ c # s) = decimal n"
    "dropWhile is_digit (decimal n @ c # s) = c # s"
    using assms by (simp_all add: takeWhile_append2 dropWhile_append2)
qed

lemma read_pgm_header:
  "read_pgm (string_bytes (pgm_header w h) @ px) = Some (unat w, unat h, px)"
proof -
  let ?hdr = "pgm_header w h" and ?s = "map (\<lambda>b. char_of (unat b)) px"
  have sep: "\<not> is_digit (CHR 0x0A)" "\<not> is_digit (CHR '' '')" by (simp_all add: is_digit_def)
  have hdr: "?hdr @ ?s = ''P5'' @ CHR 0x0A # decimal (unat w) @ CHR '' '' #
      decimal (unat h) @ CHR 0x0A # ''255'' @ CHR 0x0A # ?s" by (simp add: pgm_header_def)
  have w: "takeWhile is_digit (drop 3 (?hdr @ ?s)) = decimal (unat w)"
    "dropWhile is_digit (drop 3 (?hdr @ ?s)) =
       CHR '' '' # decimal (unat h) @ CHR 0x0A # ''255'' @ CHR 0x0A # ?s"
    unfolding hdr by (simp_all add: decimal_span sep)
  have len: "length (string_bytes ?hdr) = 3 + length (decimal (unat w)) + 1 + length (decimal (unat h)) + 5"
    by (simp add: pgm_header_def string_bytes_def)
  have px: "drop (3 + length (decimal (unat w)) + 1 + length (decimal (unat h)) + 5) (string_bytes ?hdr @ px) = px"
    by (simp only: len [symmetric]) simp
  have h: "takeWhile is_digit (drop 1 (dropWhile is_digit (drop 3 (?hdr @ ?s)))) = decimal (unat h)"
    "dropWhile is_digit (drop 1 (dropWhile is_digit (drop 3 (?hdr @ ?s)))) = CHR 0x0A # ''255'' @ CHR 0x0A # ?s"
    unfolding w by (simp_all add: decimal_span sep)
  have "take 3 (?hdr @ ?s) = ''P5'' @ [CHR 0x0A]" unfolding hdr by simp
  then show ?thesis
    unfolding read_pgm_def Let_def map_append string_of_bytes h w(1) px decimal_value
    unfolding w by simp
qed

section \<open>Properties\<close>

text \<open>C25. Whatever datagrams arrive on the stream port, in any order and of any length, the capture
  writes and reads only inside its buffers; once the stream has been silent for twenty timeouts it has
  returned, either with an error and no image or with an image whose pixels fill exactly the 32-bit
  product of the announced sizes, at most 64 MB.\<close>
theorem gvsp_capture_bounds:
  assumes "st_recv st = before @ replicate GVSP_RECV_IDLE_LIMIT None"
  shows "case PAYLOADMC_GVCP_HAL_CaptureFrame st of
      Returns (status, Some out) \<Rightarrow> status = CFE_SUCCESS \<and>
        (\<exists>w h px. out = string_bytes (pgm_header w h) @ px \<and> length px = unat (w * h) \<and>
          w * h \<noteq> 0 \<and> w * h \<le> GVSP_MAX_FRAME_BYTES)
    | Returns (status, None) \<Rightarrow> status \<noteq> CFE_SUCCESS
    | _ \<Rightarrow> False"
proof -
  have start: "gvsp_ok gvsp_start" by (simp add: gvsp_ok_def gvsp_start_def)
  have "captures (gvsp_loop st (st_recv st) gvsp_start)" "gvsp_loop st (st_recv st) gvsp_start \<noteq> Blocked"
    using loop_ok [OF start] loop_not_blocked by (simp_all add: assms)
  then show ?thesis
    by (auto simp: PAYLOADMC_GVCP_HAL_CaptureFrame_def captures_def capture_ok_def pgm_image_def
        split: run.splits option.splits)
qed

text \<open>A stream of noise: a leader of an implausible size, a payload without leader, silence.\<close>

definition noise_stream :: Gvsp_Stream where
  "noise_stream = \<lparr>st_socket = True, st_bind = True,
     st_recv = [Some (leader_datagram 1 0 0), Some (gvsp_datagram 1 GVSP_FMT_PAYLOAD [1, 2, 3]), None,
       Some [0]] @ replicate GVSP_RECV_IDLE_LIMIT None,
     st_malloc = \<lambda>_ _. True, st_junk = \<lambda>_. []\<rparr>"

theorem gvsp_capture_bounds_witness:
  "case PAYLOADMC_GVCP_HAL_CaptureFrame noise_stream of
      Returns (status, Some out) \<Rightarrow> status = CFE_SUCCESS \<and>
        (\<exists>w h px. out = string_bytes (pgm_header w h) @ px \<and> length px = unat (w * h) \<and>
          w * h \<noteq> 0 \<and> w * h \<le> GVSP_MAX_FRAME_BYTES)
    | Returns (status, None) \<Rightarrow> status \<noteq> CFE_SUCCESS
    | _ \<Rightarrow> False"
  by (rule gvsp_capture_bounds) (simp add: noise_stream_def)

text \<open>C24. A camera that streams a frame of up to 64 MB, as one leader, payload datagrams of any sizes
  and a trailer, with silences shorter than the limit in between, is captured: a PGM reader gets back the
  width, the height and the pixels.\<close>
theorem gvsp_capture_round_trip:
  assumes "st_socket st" "st_bind st" "\<And>k n. st_malloc st k n"
    and "received (st_recv st) = frame_datagrams block w h pieces @ later" "awake 0 (st_recv st)"
    and "list_all (\<lambda>p. length p \<le> 2040) pieces" "length (concat pieces) = unat w * unat h"
    and "0 < unat w * unat h" "unat w * unat h \<le> 67108864"
  shows "\<exists>out. PAYLOADMC_GVCP_HAL_CaptureFrame st = Returns (CFE_SUCCESS, Some out) \<and>
    read_pgm out = Some (unat w, unat h, concat pieces)"
proof -
  have n: "unat (w * h) = unat w * unat h"
    using assms(9) by (simp add: unat_word_ariths)
  then have "w * h \<noteq> 0" "w * h \<le> GVSP_MAX_FRAME_BYTES"
    using assms(8,9) max_frame by (auto simp: word_le_nat_alt simp del: unat_eq_0 mult_eq_0_iff)
  moreover have "gvsp_ok gvsp_start" "gs_idle gvsp_start = 0" by (simp_all add: gvsp_ok_def gvsp_start_def)
  ultimately have "gvsp_loop st (st_recv st) gvsp_start =
      Returns (CFE_SUCCESS, Some (string_bytes (pgm_header w h) @ concat pieces))"
    using assms(4,5,7) n by (intro loop_frame [OF assms(3,6)]) (simp_all add: GVSP_RECV_IDLE_LIMIT_def)
  then show ?thesis using assms(1,2) by (simp add: PAYLOADMC_GVCP_HAL_CaptureFrame_def read_pgm_header)
qed

definition small_stream :: Gvsp_Stream where
  "small_stream = \<lparr>st_socket = True, st_bind = True,
     st_recv = None # map Some (frame_datagrams 5 3 2 [[1, 2, 3, 4], [5, 6]]),
     st_malloc = \<lambda>_ _. True, st_junk = \<lambda>_. []\<rparr>"

lemma received_map [simp]: "received (map Some xs) = xs"
  by (induction xs) simp_all

lemma awake_map [simp]: "awake k (map Some xs)"
  by (induction xs arbitrary: k) simp_all

theorem gvsp_capture_round_trip_witness:
  "\<exists>out. PAYLOADMC_GVCP_HAL_CaptureFrame small_stream = Returns (CFE_SUCCESS, Some out) \<and>
    read_pgm out = Some (unat (3 :: u32), unat (2 :: u32), concat [[1, 2, 3, 4], [5, 6]])"
  by (rule gvsp_capture_round_trip [where block = 5 and later = "[]"])
    (simp_all add: small_stream_def GVSP_RECV_IDLE_LIMIT_def)

text \<open>The size check is made on a product that wraps: a leader that announces 65537 by 4294901761
  pixels is accepted as a frame of one byte, and the capture succeeds with a header for a picture of
  281 tera-pixels.\<close>
theorem gvsp_oversized_leader:
  assumes "st_socket st" "st_bind st" "\<And>k n. st_malloc st k n"
    and "st_recv st = map Some (frame_datagrams block 65537 4294901761 [[b]])"
  shows "\<exists>out. PAYLOADMC_GVCP_HAL_CaptureFrame st = Returns (CFE_SUCCESS, Some out) \<and>
    read_pgm out = Some (65537, 4294901761, [b])"
proof -
  have n: "(65537 :: u32) * 4294901761 = 1" by simp
  have "gvsp_loop st (st_recv st) gvsp_start =
      Returns (CFE_SUCCESS, Some (string_bytes (pgm_header 65537 4294901761) @ concat [[b]]))"
    using assms(4)
    by (intro loop_frame [OF assms(3), where later = "[]" and block = block])
      (simp_all add: GVSP_RECV_IDLE_LIMIT_def gvsp_ok_def gvsp_start_def n GVSP_MAX_FRAME_BYTES_def)
  then show ?thesis using assms(1,2)
    by (simp add: PAYLOADMC_GVCP_HAL_CaptureFrame_def read_pgm_header)
qed

theorem gvsp_oversized_leader_witness:
  "\<exists>out. PAYLOADMC_GVCP_HAL_CaptureFrame (small_stream\<lparr>st_recv :=
      map Some (frame_datagrams 7 65537 4294901761 [[9]])\<rparr>) = Returns (CFE_SUCCESS, Some out) \<and>
    read_pgm out = Some (65537, 4294901761, [9])"
  by (rule gvsp_oversized_leader [where block = 7]) (simp_all add: small_stream_def)

end
