(* ===== verification/Payload_App.thy ===== *)
theory Payload_App
  imports Subsystem Gvcp "HOL-Library.Sublist"
begin

text \<open>
  The payload application (\<open>payloadMC_app.c\<close>, \<open>payloadMC_app_cmds.c\<close>, \<open>payloadMC_app_dispatch.c\<close>):
  housekeeping of the payload board, the four cameras, the capture of a photo and its publication in
  chunks for the data storage application.
\<close>

section \<open>State\<close>

definition PAYLOADMC_NUM_READINGS :: nat where
  "PAYLOADMC_NUM_READINGS = 20"

definition PAYLOADMC_PHOTO_CHUNK_MAX_RETRIES :: nat where
  "PAYLOADMC_PHOTO_CHUNK_MAX_RETRIES = 20"

definition PAYLOADMC_PHOTO_CHUNK_RETRY_DELAY_MS :: nat where
  "PAYLOADMC_PHOTO_CHUNK_RETRY_DELAY_MS = 10"

definition PAYLOADMC_DS_PHOTO_FILE_INDEX :: u16 where
  "PAYLOADMC_DS_PHOTO_FILE_INDEX = 1"

definition DS_CLOSE_FILE_CC :: u8 where
  "DS_CLOSE_FILE_CC = 14"

text \<open>The statics of the camera link are kept in a field of the state.\<close>

record PAYLOADMC_AppData =
  py_HkPacket :: PAYLOADMC_HkTlm_Payload
  py_CmdCounter :: u8
  py_ErrCounter :: u8
  py_ActiveCameraN :: u32
  py_NumberOfTakenPhotos :: u32
  py_PayloadMissCount :: u8
  py_Readings :: "u8 list"
  py_IsImaging :: bool
  py_CamInitialized :: "bool list"
  py_Gvcp :: Gvcp
  py_RunStatus :: Run_Status

abbreviation py_event :: "nat \<Rightarrow> EVS_EventType \<Rightarrow> Trace \<Rightarrow> Trace" where
  "py_event \<equiv> send_event PAYLOADMC"

abbreviation py_count_error :: "PAYLOADMC_AppData \<Rightarrow> PAYLOADMC_AppData" where
  "py_count_error s \<equiv> s\<lparr>py_ErrCounter := py_ErrCounter s + 1\<rparr>"

definition payload_hk_zero :: PAYLOADMC_HkTlm_Payload where
  "payload_hk_zero = \<lparr>yhk_CmdCounter = 0, yhk_ErrCounter = 0, yhk_PayloadStale = 0,
     yhk_NumberOfTakenPhotos = 0, yhk_ActiveCameraN = 0, yhk_currentTime = (0, 0),
     yhk_CpuTemperature = 0, yhk_Readings = zeros PAYLOADMC_NUM_READINGS\<rparr>"

text \<open>The zeroed globals of a fresh process; a static socket descriptor of 0 counts as open.\<close>

definition PAYLOADMC_AppData_zero :: PAYLOADMC_AppData where
  "PAYLOADMC_AppData_zero = \<lparr>py_HkPacket = payload_hk_zero, py_CmdCounter = 0, py_ErrCounter = 0,
     py_ActiveCameraN = 0, py_NumberOfTakenPhotos = 0, py_PayloadMissCount = 0,
     py_Readings = zeros PAYLOADMC_NUM_READINGS, py_IsImaging = False,
     py_CamInitialized = replicate PAYLOADMC_NUM_CAMERAS False,
     py_Gvcp = \<lparr>gv_Socket = replicate PAYLOADMC_NUM_CAMERAS True,
       gv_ReqCounter = replicate PAYLOADMC_NUM_CAMERAS 0\<rparr>, py_RunStatus = APP_RUN\<rparr>"

section \<open>Housekeeping\<close>

definition PAYLOADMC_APP_SEND_HK_CAN_REQUEST_TO_SB ::
  "Env \<Rightarrow> PAYLOADMC_AppData \<Rightarrow> Trace \<Rightarrow> CFE_Status \<times> PAYLOADMC_AppData \<times> Trace" where
  "PAYLOADMC_APP_SEND_HK_CAN_REQUEST_TO_SB env s tr =
     (case sb_transmit env (can_request CANIOMC_PAYLOAD_ID CANIOMC_PAYLOAD_HK_MSGID) tr of
        (status, tr1) \<Rightarrow>
          if status \<noteq> CFE_SUCCESS
          then (status, py_count_error s, py_event HK_SEND_ERR_EID EVS_ERROR tr1)
          else (status, s\<lparr>py_CmdCounter := py_CmdCounter s + 1\<rparr>,
                py_event HK_SEND_SUCCESS_EID EVS_DEBUG tr1))"

definition PAYLOADMC_appResetHkData :: "PAYLOADMC_AppData \<Rightarrow> CFE_Status \<times> PAYLOADMC_AppData" where
  "PAYLOADMC_appResetHkData s =
     (CFE_SUCCESS, s\<lparr>py_CmdCounter := 0, py_ErrCounter := 0, py_ActiveCameraN := 0,
        py_NumberOfTakenPhotos := 0, py_PayloadMissCount := 0,
        py_Readings := zeros PAYLOADMC_NUM_READINGS, py_IsImaging := False,
        py_CamInitialized := replicate PAYLOADMC_NUM_CAMERAS False\<rparr>)"

text \<open>The division of C, which cuts towards zero.\<close>

definition GetCpuTemp :: "Env \<Rightarrow> Trace \<Rightarrow> int" where
  "GetCpuTemp env tr =
     (let temp_mC = env_cpu_temp env tr in
      if 0 \<le> temp_mC then temp_mC div 1000 else - ((- temp_mC) div 1000))"

definition py_hk_packet :: "Env \<Rightarrow> Trace \<Rightarrow> PAYLOADMC_AppData \<Rightarrow> u8 \<Rightarrow> u8 list \<Rightarrow>
    PAYLOADMC_HkTlm_Payload" where
  "py_hk_packet env tr s stale readings =
     \<lparr>yhk_CmdCounter = py_CmdCounter s, yhk_ErrCounter = py_ErrCounter s, yhk_PayloadStale = stale,
      yhk_NumberOfTakenPhotos = py_NumberOfTakenPhotos s, yhk_ActiveCameraN = py_ActiveCameraN s,
      yhk_currentTime = env_time env tr,
      yhk_CpuTemperature = GetCpuTemp env (tr @ [Time_GetTime]), yhk_Readings = readings\<rparr>"

definition PAYLOADMC_appPrepareHkPacket ::
  "Env \<Rightarrow> PAYLOADMC_AppData \<Rightarrow> Trace \<Rightarrow> CFE_Status \<times> PAYLOADMC_AppData \<times> Trace" where
  "PAYLOADMC_appPrepareHkPacket env s tr =
     (let s1 = s\<lparr>py_HkPacket := py_hk_packet env tr s
                  (if STALE_THRESHOLD \<le> py_PayloadMissCount s then 1 else 0) (py_Readings s)\<rparr>;
          tr1 = tr @ [Time_GetTime, Read_Cpu_Temp];
          (ignored, s2, tr2) = PAYLOADMC_APP_SEND_HK_CAN_REQUEST_TO_SB env s1 tr1;
          s3 = (if py_PayloadMissCount s2 < 0xFF
                then s2\<lparr>py_PayloadMissCount := py_PayloadMissCount s2 + 1\<rparr> else s2)
      in (CFE_SUCCESS, s3, tr2))"

definition PAYLOADMC_APP_SEND_HK_TO_SB ::
  "Env \<Rightarrow> PAYLOADMC_AppData \<Rightarrow> Trace \<Rightarrow> CFE_Status \<times> PAYLOADMC_AppData \<times> Trace" where
  "PAYLOADMC_APP_SEND_HK_TO_SB env s tr =
     (case PAYLOADMC_appPrepareHkPacket env s tr of (status, s1, tr1) \<Rightarrow>
        if status \<noteq> CFE_SUCCESS
        then (status, py_count_error s1, py_event HK_PREP_ERR_EID EVS_ERROR tr1)
        else (case sb_transmit env (PAYLOADMC_HK_TLM_MID (py_HkPacket s1)) tr1 of (status, tr2) \<Rightarrow>
           if status \<noteq> CFE_SUCCESS
           then (status, py_count_error s1, py_event HK_SEND_ERR_EID EVS_ERROR tr2)
           else (status, s1, py_event HK_SEND_SUCCESS_EID EVS_INFORMATION tr2)))"

definition PAYLOADMC_ProcessPayloadTlm ::
  "u8 list option \<Rightarrow> PAYLOADMC_AppData \<Rightarrow> Trace \<Rightarrow> CFE_Status \<times> PAYLOADMC_AppData \<times> Trace" where
  "PAYLOADMC_ProcessPayloadTlm Pkt s tr =
     (case Pkt of None \<Rightarrow> (CFE_SUCCESS, s, tr)
      | Some readings \<Rightarrow> (CFE_SUCCESS, s\<lparr>py_Readings := readings, py_PayloadMissCount := 0\<rparr>,
                   py_event HK_SEND_SUCCESS_EID EVS_DEBUG tr))"

definition PAYLOADMC_ProcessPayloadHeartbeat ::
  "bool \<Rightarrow> PAYLOADMC_AppData \<Rightarrow> Trace \<Rightarrow> CFE_Status \<times> PAYLOADMC_AppData \<times> Trace" where
  "PAYLOADMC_ProcessPayloadHeartbeat present s tr =
     (if \<not> present then (CFE_SUCCESS, s, tr)
      else (CFE_SUCCESS, s\<lparr>py_PayloadMissCount := 0\<rparr>, py_event MSG_RECEIVED_EID EVS_DEBUG tr))"

section \<open>Cameras\<close>

definition PAYLOADMC_APP_SEND_INIT_COMPLETE_ACK_TO_SB ::
  "Env \<Rightarrow> u8 \<Rightarrow> u16 list \<Rightarrow> PAYLOADMC_AppData \<Rightarrow> Trace \<Rightarrow>
   CFE_Status \<times> PAYLOADMC_AppData \<times> Trace" where
  "PAYLOADMC_APP_SEND_INIT_COMPLETE_ACK_TO_SB env ReceiverID CamSuccess s tr =
     (let AckPkt = \<lparr>cp_Header = \<lparr>hd_Priority = CANIOMC_HKPRIORITY, hd_SenderID = CANIOMC_OBC_ID,
            hd_ReceiverID = ReceiverID, hd_MessageID = CANIOMC_PAYLOAD_INIT_COMPLETE_MSGID,
            hd_SeqType = 0, hd_SeqCount = 0\<rparr>,
          cp_PayloadLen = of_nat (PAYLOADMC_NUM_CAMERAS * 2),
          cp_Payload = zero_filled CANIOMC_SB_MAX_PAYLOAD (concat (map le16 CamSuccess))\<rparr>
      in case sb_transmit env (CANIOMC_CMD_MID AckPkt) tr of (status, tr1) \<Rightarrow>
        if status \<noteq> CFE_SUCCESS
        then (status, py_count_error s, py_event HK_SEND_ERR_EID EVS_ERROR tr1)
        else (status, s, py_event HK_SEND_SUCCESS_EID EVS_DEBUG tr1))"

definition PAYLOADMC_BroadcastImagingMode ::
  "Env \<Rightarrow> bool \<Rightarrow> PAYLOADMC_AppData \<Rightarrow> Trace \<Rightarrow> PAYLOADMC_AppData \<times> Trace" where
  "PAYLOADMC_BroadcastImagingMode env IsImaging s tr =
     (s\<lparr>py_IsImaging := IsImaging\<rparr>, py_event MSG_RECEIVED_EID EVS_DEBUG
        (snd (sb_transmit env (PAYLOADMC_IMAGING_MODE_MID IsImaging) tr)))"

text \<open>The loop over the cameras, and what it stores in \<open>CamSuccess\<close>.\<close>

fun init_cameras :: "Env \<Rightarrow> nat list \<Rightarrow> PAYLOADMC_AppData \<Rightarrow> u16 list \<Rightarrow> Trace \<Rightarrow>
    PAYLOADMC_AppData \<times> u16 list \<times> Trace" where
  "init_cameras env [] s CamSuccess tr = (s, CamSuccess, tr)"
| "init_cameras env (CamIndex # rest) s CamSuccess tr =
     (case PAYLOADMC_GVCP_HAL_InitCamera env CamIndex (py_Gvcp s) tr of (status, g, tr1) \<Rightarrow>
        if status \<noteq> CFE_SUCCESS
        then init_cameras env rest
          (s\<lparr>py_Gvcp := g, py_ErrCounter := py_ErrCounter s + 1,
             py_CamInitialized := (py_CamInitialized s)[CamIndex := False]\<rparr>)
          (CamSuccess[CamIndex := 0]) (py_event HK_SEND_ERR_EID EVS_ERROR tr1)
        else init_cameras env rest
          (s\<lparr>py_Gvcp := g, py_CamInitialized := (py_CamInitialized s)[CamIndex := True]\<rparr>)
          (CamSuccess[CamIndex := 1]) tr1)"

text \<open>\<open>CamSuccess\<close> is not initialised; the loop sets every element.\<close>

definition PAYLOADMC_takePhoto :: "Env \<Rightarrow> u16 list \<Rightarrow> u8 \<Rightarrow> PAYLOADMC_AppData \<Rightarrow> Trace \<Rightarrow>
    PAYLOADMC_AppData \<times> Trace" where
  "PAYLOADMC_takePhoto env junk SenderID s tr =
     (case init_cameras env [0..<PAYLOADMC_NUM_CAMERAS] s
        (take PAYLOADMC_NUM_CAMERAS (junk @ replicate PAYLOADMC_NUM_CAMERAS 0)) tr of
        (s1, CamSuccess, tr1) \<Rightarrow>
          (case PAYLOADMC_APP_SEND_INIT_COMPLETE_ACK_TO_SB env SenderID CamSuccess s1
                  (py_event HK_SEND_SUCCESS_EID EVS_INFORMATION tr1) of
             (ignored, s2, tr2) \<Rightarrow> PAYLOADMC_BroadcastImagingMode env True s2 tr2))"

fun heartbeat_cameras :: "Env \<Rightarrow> nat list \<Rightarrow> PAYLOADMC_AppData \<Rightarrow> Trace \<Rightarrow>
    PAYLOADMC_AppData \<times> Trace" where
  "heartbeat_cameras env [] s tr = (s, tr)"
| "heartbeat_cameras env (CamIndex # rest) s tr =
     (if \<not> py_CamInitialized s ! CamIndex then heartbeat_cameras env rest s tr
      else case PAYLOADMC_GVCP_HAL_Heartbeat env CamIndex (py_Gvcp s) tr of (status, g, tr1) \<Rightarrow>
        if status \<noteq> CFE_SUCCESS
        then heartbeat_cameras env rest (s\<lparr>py_Gvcp := g, py_ErrCounter := py_ErrCounter s + 1\<rparr>)
               (py_event HK_SEND_ERR_EID EVS_ERROR tr1)
        else heartbeat_cameras env rest (s\<lparr>py_Gvcp := g\<rparr>) tr1)"

definition PAYLOADMC_SendGvcpHeartbeatIfImaging ::
  "Env \<Rightarrow> PAYLOADMC_AppData \<Rightarrow> Trace \<Rightarrow> PAYLOADMC_AppData \<times> Trace" where
  "PAYLOADMC_SendGvcpHeartbeatIfImaging env s tr =
     (if \<not> py_IsImaging s then (s, tr)
      else heartbeat_cameras env [0..<PAYLOADMC_NUM_CAMERAS] s tr)"

section \<open>Photos\<close>

text \<open>The retries after a first attempt: a delay and the same message again.\<close>

fun retry_transmit :: "Env \<Rightarrow> SB_Msg \<Rightarrow> nat \<Rightarrow> CFE_Status \<Rightarrow> Trace \<Rightarrow> CFE_Status \<times> Trace" where
  "retry_transmit env m 0 status tr = (status, tr)"
| "retry_transmit env m (Suc left) status tr =
     (if status = CFE_SUCCESS then (status, tr)
      else case sb_transmit env m (tr @ [OS_TaskDelay PAYLOADMC_PHOTO_CHUNK_RETRY_DELAY_MS]) of
        (status', tr1) \<Rightarrow> retry_transmit env m left status' tr1)"

definition transmit_with_retries :: "Env \<Rightarrow> SB_Msg \<Rightarrow> Trace \<Rightarrow> CFE_Status \<times> Trace" where
  "transmit_with_retries env m tr =
     (case sb_transmit env m tr of (status, tr1) \<Rightarrow>
        retry_transmit env m PAYLOADMC_PHOTO_CHUNK_MAX_RETRIES status tr1)"

definition photo_chunk :: "u8 list \<Rightarrow> SB_Msg" where
  "photo_chunk bytes = PAYLOADMC_PHOTO_CHUNK_MID
     \<lparr>ph_ChunkLen = of_nat (length bytes),
      ph_ChunkData = zero_filled PAYLOADMC_PHOTO_CHUNK_MAX_PAYLOAD bytes\<rparr>"

fun publish_chunks :: "Env \<Rightarrow> u8 list list \<Rightarrow> u32 \<Rightarrow> u32 \<Rightarrow> Trace \<Rightarrow> u32 \<times> u32 \<times> Trace" where
  "publish_chunks env [] chunkCount chunkFailCount tr = (chunkCount, chunkFailCount, tr)"
| "publish_chunks env (c # cs) chunkCount chunkFailCount tr =
     (case transmit_with_retries env (photo_chunk c) tr of (status, tr1) \<Rightarrow>
        if status = CFE_SUCCESS
        then publish_chunks env cs (chunkCount + 1) chunkFailCount
               (tr1 @ [OS_TaskDelay PAYLOADMC_PHOTO_CHUNK_RETRY_DELAY_MS])
        else publish_chunks env cs chunkCount (chunkFailCount + 1)
               (py_event HK_SEND_ERR_EID EVS_ERROR tr1 @
                [OS_TaskDelay PAYLOADMC_PHOTO_CHUNK_RETRY_DELAY_MS]))"

definition close_photo_cmd :: SB_Msg where
  "close_photo_cmd = DS_CMD_MID DS_CLOSE_FILE_CC
     \<lparr>dc_FileTableIndex = PAYLOADMC_DS_PHOTO_FILE_INDEX, dc_Padding = 0\<rparr>"

definition PAYLOADMC_APP_CLOSE_DS_PHOTO_FILE ::
  "Env \<Rightarrow> PAYLOADMC_AppData \<Rightarrow> Trace \<Rightarrow> PAYLOADMC_AppData \<times> Trace" where
  "PAYLOADMC_APP_CLOSE_DS_PHOTO_FILE env s tr =
     (case transmit_with_retries env close_photo_cmd tr of (status, tr1) \<Rightarrow>
        if status \<noteq> CFE_SUCCESS then (py_count_error s, py_event HK_SEND_ERR_EID EVS_ERROR tr1)
        else (s, py_event HK_SEND_SUCCESS_EID EVS_DEBUG tr1))"

definition archive_frame :: "Env \<Rightarrow> u8 list \<Rightarrow> PAYLOADMC_AppData \<Rightarrow> Trace \<Rightarrow>
    PAYLOADMC_AppData \<times> Trace" where
  "archive_frame env frame s tr =
     (case publish_chunks env (chunks PAYLOADMC_PHOTO_CHUNK_MAX_PAYLOAD frame) 0 0 tr of
        (chunkCount, chunkFailCount, tr1) \<Rightarrow>
          let (s1, tr2) = (if chunkFailCount = 0
                then (s, py_event HK_SEND_SUCCESS_EID EVS_INFORMATION tr1)
                else (py_count_error s, py_event HK_SEND_ERR_EID EVS_ERROR tr1))
          in case PAYLOADMC_APP_CLOSE_DS_PHOTO_FILE env s1 tr2 of (s2, tr3) \<Rightarrow>
               (s2\<lparr>py_CmdCounter := py_CmdCounter s2 + 1\<rparr>, tr3))"

definition PAYLOADMC_captureFrame :: "Env \<Rightarrow> PAYLOADMC_AppData \<Rightarrow> Trace \<Rightarrow>
    (PAYLOADMC_AppData \<times> Trace) run" where
  "PAYLOADMC_captureFrame env s tr =
     (if \<not> py_IsImaging s
      then Returns (py_count_error s, py_event HK_SEND_ERR_EID EVS_ERROR tr)
      else run_bind (PAYLOADMC_GVCP_HAL_CaptureFrame (env_stream env tr)) (\<lambda>(status, frameBuf).
        case frameBuf of
          Some frame \<Rightarrow>
            if status \<noteq> CFE_SUCCESS
            then Returns (py_count_error s, py_event HK_SEND_ERR_EID EVS_ERROR tr)
            else Returns (archive_frame env frame s tr)
        | None \<Rightarrow> Returns (py_count_error s, py_event HK_SEND_ERR_EID EVS_ERROR tr)))"

section \<open>Dispatch, start and main loop\<close>

text \<open>\<open>junk\<close> is what the stack holds where \<open>PAYLOADMC_takePhoto\<close> keeps its results.\<close>

fun PAYLOADMC_appTaskPipe :: "Env \<Rightarrow> u16 list \<Rightarrow> SB_Msg \<Rightarrow> PAYLOADMC_AppData \<Rightarrow> Trace \<Rightarrow>
    (PAYLOADMC_AppData \<times> Trace) run" where
  "PAYLOADMC_appTaskPipe env junk PAYLOADMC_CMD_MID s tr =
     Returns (s\<lparr>py_CmdCounter := py_CmdCounter s + 1\<rparr>, py_event MSG_RECEIVED_EID EVS_INFORMATION tr)"
| "PAYLOADMC_appTaskPipe env junk PAYLOADMC_SEND_HK_MID s tr =
     Returns (snd (PAYLOADMC_APP_SEND_HK_TO_SB env s (py_event MSG_RECEIVED_EID EVS_INFORMATION tr)))"
| "PAYLOADMC_appTaskPipe env junk (CANIOMC_PAYLOAD_TLM_MID t) s tr =
     Returns (snd (PAYLOADMC_ProcessPayloadTlm (Some t) s tr))"
| "PAYLOADMC_appTaskPipe env junk CANIOMC_PAYLOAD_HEARTBEAT_MID s tr =
     Returns (snd (PAYLOADMC_ProcessPayloadHeartbeat True s tr))"
| "PAYLOADMC_appTaskPipe env junk (CANIOMC_PAYLOAD_TAKEPHOTO_MID p) s tr =
     Returns (PAYLOADMC_takePhoto env junk (rt_SenderID p) s tr)"
| "PAYLOADMC_appTaskPipe env junk PAYLOADMC_SEND_GVCP_HEARTBEAT_MID s tr =
     Returns (PAYLOADMC_SendGvcpHeartbeatIfImaging env s tr)"
| "PAYLOADMC_appTaskPipe env junk (CANIOMC_PAYLOAD_CAPTURE_FRAME_MID p) s tr =
     PAYLOADMC_captureFrame env s tr"
| "PAYLOADMC_appTaskPipe env junk m s tr = Returns (s, py_event UNKNOWN_MSG_ERR_EID EVS_ERROR tr)"

definition PAYLOADMC_appTableInit :: "Env \<Rightarrow> Trace \<Rightarrow> CFE_Status \<times> Trace" where
  "PAYLOADMC_appTableInit env = app_table_init env PAYLOADMC"

definition PAYLOADMC_appTableReload :: "Env \<Rightarrow> Trace \<Rightarrow> CFE_Status \<times> Trace" where
  "PAYLOADMC_appTableReload env = app_table_reload env PAYLOADMC"

definition payload_subscriptions :: "u16 list" where
  "payload_subscriptions = [0xEC1, 0xEC2, 0xDC7, 0xDC8, 0xDCB, 0xEC4, 0xDCC]"

fun open_cameras :: "Env \<Rightarrow> nat list \<Rightarrow> Gvcp \<Rightarrow> Trace \<Rightarrow> CFE_Status \<times> Gvcp \<times> Trace" where
  "open_cameras env [] g tr = (CFE_SUCCESS, g, tr)"
| "open_cameras env (CamIndex # rest) g tr =
     (case PAYLOADMC_GVCP_HAL_Init env CamIndex g tr of (status, g1, tr1) \<Rightarrow>
        if status \<noteq> CFE_SUCCESS then (status, g1, py_event INIT_HK_ERR_EID EVS_ERROR tr1)
        else open_cameras env rest g1 tr1)"

definition PAYLOADMC_appInit :: "Env \<Rightarrow> PAYLOADMC_AppData \<Rightarrow> Trace \<Rightarrow>
    CFE_Status \<times> PAYLOADMC_AppData \<times> Trace" where
  "PAYLOADMC_appInit env s tr =
     (let s1 = s\<lparr>py_RunStatus := APP_RUN, py_HkPacket := payload_hk_zero\<rparr>;
          (regStatus, tr1) = svc_call env EVS_Register tr
      in if regStatus \<noteq> CFE_SUCCESS then (regStatus, s1, sys_log tr1)
         else case PAYLOADMC_appPrepareHkPacket env s1 tr1 of (hkStatus, s2, tr2) \<Rightarrow>
           if hkStatus \<noteq> CFE_SUCCESS
           then (hkStatus, s2, py_event INIT_HK_ERR_EID EVS_ERROR tr2)
           else case svc_or env (SB_CreatePipe 12) (py_event CREATE_PIPE_ERR_EID EVS_ERROR)
              (subscribe_all env PAYLOADMC payload_subscriptions (\<lambda>tr3. (CFE_SUCCESS, tr3))) tr2
            of (subStatus, tr3) \<Rightarrow>
              if subStatus \<noteq> CFE_SUCCESS then (subStatus, s2, tr3)
              else case open_cameras env [0..<PAYLOADMC_NUM_CAMERAS] (py_Gvcp s2) tr3 of
                (camStatus, g, tr4) \<Rightarrow>
                  let s3 = s2\<lparr>py_Gvcp := g\<rparr> in
                  if camStatus \<noteq> CFE_SUCCESS then (camStatus, s3, tr4)
                  else case PAYLOADMC_appTableInit env tr4 of (status, tr5) \<Rightarrow>
                    if status \<noteq> CFE_SUCCESS then (status, s3, tr5)
                    else (CFE_SUCCESS, s3, py_event 1 EVS_INFORMATION tr5))"

fun py_loop_step :: "Env \<Rightarrow> u16 list \<Rightarrow> Loop_Input \<Rightarrow> PAYLOADMC_AppData \<Rightarrow> Trace \<Rightarrow>
    (PAYLOADMC_AppData \<times> Trace) run" where
  "py_loop_step env junk (Received m) s tr = PAYLOADMC_appTaskPipe env junk m s tr"
| "py_loop_step env junk Timed_Out s tr = Returns (s, tr)"
| "py_loop_step env junk (Receive_Error e) s tr =
     Returns (s\<lparr>py_RunStatus := APP_ERROR\<rparr>, sys_log (py_event RCV_MSG_ERR_EID EVS_ERROR tr))"
| "py_loop_step env junk Shutdown s tr = Returns (s, tr)"

definition PAYLOADMC_appMain :: "Env \<Rightarrow> u16 list \<Rightarrow> Loop_Input list \<Rightarrow> PAYLOADMC_AppData \<Rightarrow>
    (PAYLOADMC_AppData \<times> Trace) run" where
  "PAYLOADMC_appMain env junk is s =
     (case PAYLOADMC_appInit env s [] of (status, s1, tr) \<Rightarrow>
        let s2 = (if status \<noteq> CFE_SUCCESS then s1\<lparr>py_RunStatus := APP_ERROR\<rparr> else s1)
        in app_run_loop py_RunStatus (py_loop_step env junk) is s2 tr)"

section \<open>The contract holds\<close>

definition py_is_hk :: "SB_Msg \<Rightarrow> bool" where
  "py_is_hk m = (m = PAYLOADMC_SEND_HK_MID)"

definition py_reply :: "SB_Msg \<Rightarrow> u8 list option" where
  "py_reply m = (case m of CANIOMC_PAYLOAD_TLM_MID t \<Rightarrow> Some t | _ \<Rightarrow> None)"

definition py_alive :: "SB_Msg \<Rightarrow> bool" where
  "py_alive m = (py_reply m \<noteq> None \<or> m = CANIOMC_PAYLOAD_HEARTBEAT_MID)"

definition payload_step :: "u16 list \<Rightarrow> Env \<Rightarrow> SB_Msg \<Rightarrow> PAYLOADMC_AppData \<Rightarrow> Trace \<Rightarrow>
    PAYLOADMC_AppData \<times> Trace" where
  "payload_step junk env m = returned (PAYLOADMC_appTaskPipe env junk m)"

abbreviation py_hk_message :: "Env \<Rightarrow> Trace \<Rightarrow> PAYLOADMC_AppData \<Rightarrow> u8 \<Rightarrow> u8 list \<Rightarrow> SB_Msg" where
  "py_hk_message env tr s stale t \<equiv> PAYLOADMC_HK_TLM_MID
     (py_hk_packet env (py_event MSG_RECEIVED_EID EVS_INFORMATION tr) s stale t)"

lemma payload_hk_step:
  "py_PayloadMissCount (fst (payload_step junk env PAYLOADMC_SEND_HK_MID s tr)) =
     count_miss (py_PayloadMissCount s)"
  "py_Readings (fst (payload_step junk env PAYLOADMC_SEND_HK_MID s tr)) = py_Readings s"
  "sb_sent (snd (payload_step junk env PAYLOADMC_SEND_HK_MID s tr)) = sb_sent tr @
     [can_request CANIOMC_PAYLOAD_ID CANIOMC_PAYLOAD_HK_MSGID, py_hk_message env tr s
        (if STALE_THRESHOLD \<le> py_PayloadMissCount s then 1 else 0) (py_Readings s)]"
  by (simp_all add: payload_step_def returned_def PAYLOADMC_APP_SEND_HK_TO_SB_def Let_def
      PAYLOADMC_appPrepareHkPacket_def PAYLOADMC_APP_SEND_HK_CAN_REQUEST_TO_SB_def env_call_defs
      count_miss_def)

text \<open>The camera commands leave the cache alone.\<close>

definition py_cache :: "PAYLOADMC_AppData \<Rightarrow> u8 \<times> u8 list" where
  "py_cache s = (py_PayloadMissCount s, py_Readings s)"

lemma init_cameras_cache: "py_cache (fst (init_cameras env cams s flags tr)) = py_cache s"
  by (induction env cams s flags tr rule: init_cameras.induct)
    (simp_all add: py_cache_def split: prod.splits)

lemma heartbeat_cameras_cache: "py_cache (fst (heartbeat_cameras env cams s tr)) = py_cache s"
  by (induction env cams s tr rule: heartbeat_cameras.induct)
    (simp_all add: py_cache_def split: prod.splits)

lemma ack_cache:
  "py_cache (fst (snd (PAYLOADMC_APP_SEND_INIT_COMPLETE_ACK_TO_SB env to flags s tr))) = py_cache s"
  by (simp add: PAYLOADMC_APP_SEND_INIT_COMPLETE_ACK_TO_SB_def sb_transmit_def py_cache_def Let_def)

lemma take_photo_cache: "py_cache (fst (PAYLOADMC_takePhoto env junk from s tr)) = py_cache s"
proof -
  obtain s1 flags tr1 where i: "init_cameras env [0..<PAYLOADMC_NUM_CAMERAS] s
      (take PAYLOADMC_NUM_CAMERAS (junk @ replicate PAYLOADMC_NUM_CAMERAS 0)) tr = (s1, flags, tr1)"
    by (rule prod_cases3)
  obtain st s2 tr2 where a: "PAYLOADMC_APP_SEND_INIT_COMPLETE_ACK_TO_SB env from flags s1
      (py_event HK_SEND_SUCCESS_EID EVS_INFORMATION tr1) = (st, s2, tr2)"
    by (rule prod_cases3)
  have "py_cache s1 = py_cache s" "py_cache s2 = py_cache s1"
    using init_cameras_cache [of env "[0..<PAYLOADMC_NUM_CAMERAS]" s _ tr] i
      ack_cache [of env "from" flags s1 "py_event HK_SEND_SUCCESS_EID EVS_INFORMATION tr1"] a
    by (metis fst_conv) (metis a ack_cache fst_conv snd_conv)
  then show ?thesis unfolding PAYLOADMC_takePhoto_def i a prod.case
    by (simp add: PAYLOADMC_BroadcastImagingMode_def py_cache_def)
qed

lemma archive_cache: "py_cache (fst (archive_frame env frame s tr)) = py_cache s"
  by (simp add: archive_frame_def PAYLOADMC_APP_CLOSE_DS_PHOTO_FILE_def py_cache_def
      split: prod.splits if_splits)

lemma archive_cache_fields [simp]:
  "py_PayloadMissCount (fst (archive_frame env frame s tr)) = py_PayloadMissCount s"
  "py_Readings (fst (archive_frame env frame s tr)) = py_Readings s"
  using archive_cache [of env frame s tr] by (simp_all add: py_cache_def)

lemma capture_cache: "py_cache (fst (returned (PAYLOADMC_captureFrame env) s tr)) = py_cache s"
  by (cases "PAYLOADMC_GVCP_HAL_CaptureFrame (env_stream env tr)")
    (auto simp: returned_def PAYLOADMC_captureFrame_def py_cache_def split: option.split prod.split)

lemma payload_step_cache:
  "\<not> py_is_hk m \<Longrightarrow> py_cache (fst (payload_step junk env m s tr)) =
     (if m = CANIOMC_PAYLOAD_HEARTBEAT_MID then (0, py_Readings s)
      else case py_reply m of None \<Rightarrow> py_cache s | Some t \<Rightarrow> (0, t))"
proof (cases m)
  case (CANIOMC_PAYLOAD_TAKEPHOTO_MID p)
  then show ?thesis using take_photo_cache [of env junk "rt_SenderID p" s tr]
    by (simp add: payload_step_def returned_def py_reply_def)
next
  case PAYLOADMC_SEND_GVCP_HEARTBEAT_MID
  then show ?thesis using heartbeat_cameras_cache [of env "[0..<PAYLOADMC_NUM_CAMERAS]" s tr]
    by (simp add: payload_step_def returned_def py_reply_def PAYLOADMC_SendGvcpHeartbeatIfImaging_def)
next
  case (CANIOMC_PAYLOAD_CAPTURE_FRAME_MID p)
  then show ?thesis using capture_cache [of env s tr]
    by (simp add: payload_step_def returned_def py_reply_def)
qed (simp_all add: payload_step_def returned_def py_reply_def py_is_hk_def py_cache_def
    PAYLOADMC_ProcessPayloadTlm_def PAYLOADMC_ProcessPayloadHeartbeat_def)

interpretation payload: hk_subsystem "payload_step junk" py_PayloadMissCount py_Readings py_is_hk
  py_alive py_reply "can_request CANIOMC_PAYLOAD_ID CANIOMC_PAYLOAD_HK_MSGID" py_hk_message for junk
proof unfold_locales
  fix m env s tr
  assume "py_is_hk m"
  then show "py_PayloadMissCount (fst (payload_step junk env m s tr)) =
        count_miss (py_PayloadMissCount s) \<and>
      py_Readings (fst (payload_step junk env m s tr)) = py_Readings s \<and>
      sb_sent (snd (payload_step junk env m s tr)) = sb_sent tr @
        [can_request CANIOMC_PAYLOAD_ID CANIOMC_PAYLOAD_HK_MSGID, py_hk_message env tr s
          (if STALE_THRESHOLD \<le> py_PayloadMissCount s then 1 else 0) (py_Readings s)]"
    unfolding py_is_hk_def by (simp only: payload_hk_step)
next
  fix m env s tr
  assume "\<not> py_is_hk m" "py_alive m"
  then show "py_PayloadMissCount (fst (payload_step junk env m s tr)) = 0"
    using payload_step_cache [of m junk env s tr]
    by (auto simp: py_alive_def py_cache_def split: if_splits)
next
  fix m env s tr
  assume "\<not> py_is_hk m" "\<not> py_alive m"
  then show "py_PayloadMissCount (fst (payload_step junk env m s tr)) = py_PayloadMissCount s"
    using payload_step_cache [of m junk env s tr] by (auto simp: py_alive_def py_cache_def)
next
  fix m env s tr
  assume "\<not> py_is_hk m"
  then show "py_Readings (fst (payload_step junk env m s tr)) =
      (case py_reply m of None \<Rightarrow> py_Readings s | Some d \<Rightarrow> d)"
    using payload_step_cache [of m junk env s tr]
    by (auto simp: py_cache_def py_reply_def split: option.splits if_splits SB_Msg.splits)
next
  fix m d
  assume "py_reply m = Some d"
  then show "py_alive m \<and> \<not> py_is_hk m"
    by (auto simp: py_is_hk_def py_alive_def py_reply_def split: SB_Msg.splits)
qed

section \<open>Publishing a photo\<close>

text \<open>What the bus has accepted of one message after up to 21 attempts.\<close>

lemma sb_transmit_trace:
  "sb_transmit env m tr = (st, tr') \<Longrightarrow> sb_sent tr' = sb_sent tr @ [m] \<and>
     sb_delivered tr' = sb_delivered tr @ (if st = CFE_SUCCESS then [m] else [])"
  by (auto simp: sb_transmit_def split: CFE_Status.split)

lemma retry_delivers:
  "retry_transmit env m left status tr = (st, tr') \<Longrightarrow> status \<noteq> CFE_SUCCESS \<Longrightarrow>
     (\<exists>k \<le> left. sb_sent tr' = sb_sent tr @ replicate k m) \<and>
     sb_delivered tr' = sb_delivered tr @ (if st = CFE_SUCCESS then [m] else [])"
proof (induction left arbitrary: status tr)
  case 0
  then show ?case by auto
next
  case (Suc left)
  let ?d = "tr @ [OS_TaskDelay PAYLOADMC_PHOTO_CHUNK_RETRY_DELAY_MS]"
  obtain st1 tr1 where t: "sb_transmit env m ?d = (st1, tr1)" by (cases "sb_transmit env m ?d")
  have r: "retry_transmit env m left st1 tr1 = (st, tr')" using Suc.prems t by simp
  show ?case
  proof (cases "st1 = CFE_SUCCESS")
    case True
    then have "st = CFE_SUCCESS" "tr' = tr1" using r by (cases left; simp)+
    then show ?thesis using sb_transmit_trace [OF t] True
      by (auto intro!: exI [of _ 1])
  next
    case False
    from Suc.IH [OF r False] sb_transmit_trace [OF t] False obtain k where
      "k \<le> left" "sb_sent tr' = sb_sent tr @ [m] @ replicate k m"
      "sb_delivered tr' = sb_delivered tr @ (if st = CFE_SUCCESS then [m] else [])"
      by auto
    then show ?thesis by (auto intro!: exI [of _ "Suc k"])
  qed
qed

lemma retries_deliver:
  assumes "transmit_with_retries env m tr = (st, tr')"
  shows "(\<exists>k \<le> Suc PAYLOADMC_PHOTO_CHUNK_MAX_RETRIES. sb_sent tr' = sb_sent tr @ replicate k m) \<and>
     sb_delivered tr' = sb_delivered tr @ (if st = CFE_SUCCESS then [m] else [])"
proof -
  obtain st1 tr1 where t: "sb_transmit env m tr = (st1, tr1)" by (cases "sb_transmit env m tr")
  have r: "retry_transmit env m PAYLOADMC_PHOTO_CHUNK_MAX_RETRIES st1 tr1 = (st, tr')"
    using assms t by (simp add: transmit_with_retries_def)
  show ?thesis
  proof (cases "st1 = CFE_SUCCESS")
    case True
    then have "st = CFE_SUCCESS" "tr' = tr1"
      using r by (simp_all add: PAYLOADMC_PHOTO_CHUNK_MAX_RETRIES_def eval_nat_numeral)
    then show ?thesis using sb_transmit_trace [OF t] True by (auto intro!: exI [of _ 1])
  next
    case False
    from retry_delivers [OF r False] sb_transmit_trace [OF t] False obtain k where
      "k \<le> PAYLOADMC_PHOTO_CHUNK_MAX_RETRIES" "sb_sent tr' = sb_sent tr @ [m] @ replicate k m"
      "sb_delivered tr' = sb_delivered tr @ (if st = CFE_SUCCESS then [m] else [])"
      by auto
    then show ?thesis by (auto intro!: exI [of _ "Suc k"])
  qed
qed

lemma publish_delivers:
  "publish_chunks env cs ok lost tr = (ok', lost', tr') \<Longrightarrow>
   \<exists>got. subseq got cs \<and> sb_delivered tr' = sb_delivered tr @ map photo_chunk got \<and>
     ok' = ok + of_nat (length got) \<and> lost' = lost + of_nat (length cs - length got)"
proof (induction cs arbitrary: ok lost tr)
  case Nil
  then show ?case by (auto intro!: exI [of _ "[]"])
next
  case (Cons c cs)
  obtain st tr1 where t: "transmit_with_retries env (photo_chunk c) tr = (st, tr1)"
    by (cases "transmit_with_retries env (photo_chunk c) tr")
  show ?case
  proof (cases "st = CFE_SUCCESS")
    case True
    with Cons.prems t have "publish_chunks env cs (ok + 1) lost
        (tr1 @ [OS_TaskDelay PAYLOADMC_PHOTO_CHUNK_RETRY_DELAY_MS]) = (ok', lost', tr')" by simp
    from Cons.IH [OF this] obtain got where "subseq got cs"
      "sb_delivered tr' = sb_delivered tr @ map photo_chunk (c # got)"
      "ok' = ok + 1 + of_nat (length got)" "lost' = lost + of_nat (length cs - length got)"
      using retries_deliver [OF t] True by auto
    then show ?thesis by (intro exI [of _ "c # got"]) simp
  next
    case False
    with Cons.prems t have "publish_chunks env cs ok (lost + 1)
        (py_event HK_SEND_ERR_EID EVS_ERROR tr1 @
         [OS_TaskDelay PAYLOADMC_PHOTO_CHUNK_RETRY_DELAY_MS]) = (ok', lost', tr')" by simp
    from Cons.IH [OF this] obtain got where g: "subseq got cs"
      "sb_delivered tr' = sb_delivered tr @ map photo_chunk got"
      "ok' = ok + of_nat (length got)" "lost' = lost + 1 + of_nat (length cs - length got)"
      using retries_deliver [OF t] False by (auto simp: send_event_def)
    have "length (c # cs) - length got = Suc (length cs - length got)"
      using list_emb_length [OF g(1)] by simp
    with g show ?thesis by (intro exI [of _ got]) (simp add: list_emb_Cons)
  qed
qed

text \<open>What the archive holds of a chunk.\<close>

definition chunk_bytes :: "SB_Msg \<Rightarrow> u8 list" where
  "chunk_bytes m = (case m of PAYLOADMC_PHOTO_CHUNK_MID p \<Rightarrow> take (unat (ph_ChunkLen p)) (ph_ChunkData p)
     | _ \<Rightarrow> [])"

lemma chunk_bytes_photo: "length c \<le> PAYLOADMC_PHOTO_CHUNK_MAX_PAYLOAD \<Longrightarrow> chunk_bytes (photo_chunk c) = c"
  by (simp add: chunk_bytes_def photo_chunk_def PAYLOADMC_PHOTO_CHUNK_MAX_PAYLOAD_def unat_of_nat
      zero_filled_def)

lemma captured_length:
  assumes "PAYLOADMC_GVCP_HAL_CaptureFrame st = Returns (CFE_SUCCESS, Some frame)"
  shows "length frame \<le> 67108928" "frame \<noteq> []"
proof -
  have "gvsp_ok gvsp_start" by (simp add: gvsp_ok_def gvsp_start_def)
  from loop_ok [OF this, of st "st_recv st"] assms have "pgm_image frame"
    by (auto simp: PAYLOADMC_GVCP_HAL_CaptureFrame_def capture_ok_def split: if_splits)
  then obtain w h px where f: "frame = string_bytes (pgm_header w h) @ px"
    "length px = unat (w * h)" "w * h \<noteq> 0" "w * h \<le> GVSP_MAX_FRAME_BYTES" by (auto simp: pgm_image_def)
  have "unat (w * h) \<le> 67108864" using f(4) max_frame by (simp add: word_le_nat_alt)
  then show "length frame \<le> 67108928" using f(1,2) pgm_header_short [of w h] by simp
  have "0 < unat (w * h)" using f(3) by (simp add: unat_gt_0)
  then show "frame \<noteq> []" using f(1,2) by auto
qed

lemma captured_chunks:
  assumes "PAYLOADMC_GVCP_HAL_CaptureFrame st = Returns (CFE_SUCCESS, Some frame)"
  shows "length (chunks PAYLOADMC_PHOTO_CHUNK_MAX_PAYLOAD frame) \<le> 8193"
  using captured_length [OF assms] by (simp add: length_chunks PAYLOADMC_PHOTO_CHUNK_MAX_PAYLOAD_def)

section \<open>Setting up the cameras\<close>

text \<open>The datagrams sent to a camera, without their headers.\<close>

definition udp_bodies :: "nat \<Rightarrow> Trace \<Rightarrow> u8 list list" where
  "udp_bodies cam tr = concat (map (\<lambda>c. case c of Udp_Sendto n pkt ok \<Rightarrow>
     if n = cam then [drop 8 pkt] else [] | _ \<Rightarrow> []) tr)"

definition reg_bytes :: "u32 \<times> u32 \<Rightarrow> u8 list" where
  "reg_bytes r = be32 (fst r) @ be32 (snd r)"

lemma udp_bodies_append [simp]: "udp_bodies cam (a @ b) = udp_bodies cam a @ udp_bodies cam b"
  by (simp add: udp_bodies_def)

lemma udp_bodies_Cons [simp]:
  "udp_bodies cam (Udp_Sendto n pkt ok # tr) = (if n = cam then [drop 8 pkt] else []) @ udp_bodies cam tr"
  "udp_bodies cam (Udp_Recvfrom n # tr) = udp_bodies cam tr"
  "udp_bodies cam (EVS_SendEvent a e ty # tr) = udp_bodies cam tr"
  "udp_bodies cam (SB_Transmit m st # tr) = udp_bodies cam tr"
  "udp_bodies cam [] = []"
  by (simp_all add: udp_bodies_def)

lemma WriteReg_trace:
  "GVCP_WriteReg env cam addr val g tr = (st, g', tr') \<Longrightarrow> sb_sent tr' = sb_sent tr \<and>
   udp_bodies c tr' = udp_bodies c tr @ (if c = cam then [reg_bytes (addr, val)] else [])"
  by (auto simp: GVCP_WriteReg_def udp_sendto_def udp_recvfrom_def GVCP_Header_def be16_def
      reg_bytes_def Let_def split: if_splits option.splits)

lemma write_regs_trace:
  "write_regs env cam regs g tr = (st, g', tr') \<Longrightarrow> sb_sent tr' = sb_sent tr \<and>
   (c \<noteq> cam \<longrightarrow> udp_bodies c tr' = udp_bodies c tr) \<and>
   (st = CFE_SUCCESS \<longrightarrow> udp_bodies cam tr' = udp_bodies cam tr @ map reg_bytes regs)"
proof (induction env cam regs g tr rule: write_regs.induct)
  case (2 env cam addr val regs g tr)
  obtain st1 g1 tr1 where w: "GVCP_WriteReg env cam addr val g tr = (st1, g1, tr1)"
    by (rule prod_cases3)
  show ?case
    using "2.IH" [OF w [symmetric] refl] "2.prems" WriteReg_trace [OF w, of c] WriteReg_trace [OF w, of cam] w
    by (cases "st1 = CFE_SUCCESS") (auto simp: reg_bytes_def)
qed simp

definition cam_flags :: "bool list \<Rightarrow> u16 list" where
  "cam_flags bs = map (\<lambda>b. if b then 1 else 0) bs"

definition camera_done :: "nat set \<Rightarrow> bool list \<Rightarrow> u16 list \<Rightarrow> Trace \<Rightarrow> bool list \<Rightarrow> u16 list \<Rightarrow> Trace \<Rightarrow>
    nat \<Rightarrow> bool" where
  "camera_done cams up flags tr up' flags' tr' c =
     (if c \<in> cams
      then flags' ! c = (if up' ! c then 1 else 0) \<and>
        (up' ! c \<longrightarrow> udp_bodies c tr' = udp_bodies c tr @ map reg_bytes init_sequence)
      else flags' ! c = flags ! c \<and> up' ! c = up ! c \<and> udp_bodies c tr' = udp_bodies c tr)"

lemma camera_done_step:
  assumes "camera_done cams (up[cam := b]) (flags[cam := if b then 1 else 0]) tr1 up' flags' tr' c"
    and "cam \<notin> cams" "cam < length up" "cam < length flags"
    and "c \<noteq> cam \<Longrightarrow> udp_bodies c tr1 = udp_bodies c tr"
    and "b \<Longrightarrow> udp_bodies cam tr1 = udp_bodies cam tr @ map reg_bytes init_sequence"
  shows "camera_done (insert cam cams) up flags tr up' flags' tr' c"
  using assms by (cases "c = cam"; cases "c \<in> cams") (auto simp: camera_done_def)

lemma init_cameras_trace:
  "init_cameras env cams s flags tr = (s', flags', tr') \<Longrightarrow> distinct cams \<Longrightarrow>
   \<forall>c \<in> set cams. c < PAYLOADMC_NUM_CAMERAS \<Longrightarrow> length (py_CamInitialized s) = PAYLOADMC_NUM_CAMERAS \<Longrightarrow>
   length flags = PAYLOADMC_NUM_CAMERAS \<Longrightarrow>
   sb_sent tr' = sb_sent tr \<and> length (py_CamInitialized s') = PAYLOADMC_NUM_CAMERAS \<and>
   length flags' = PAYLOADMC_NUM_CAMERAS \<and>
   camera_done (set cams) (py_CamInitialized s) flags tr (py_CamInitialized s') flags' tr' c"
proof (induction env cams s flags tr rule: init_cameras.induct)
  case (1 env s flags tr)
  then show ?case by (simp add: camera_done_def)
next
  case (2 env cam cams s flags tr)
  obtain st g tr1 where i: "PAYLOADMC_GVCP_HAL_InitCamera env cam (py_Gvcp s) tr = (st, g, tr1)"
    by (rule prod_cases3)
  have w: "write_regs env cam init_sequence (py_Gvcp s) tr = (st, g, tr1)"
    using i "2.prems"(3) by (simp add: PAYLOADMC_GVCP_HAL_InitCamera_def)
  have room: "cam \<notin> set cams" "cam < length (py_CamInitialized s)" "cam < length flags"
    using "2.prems" by simp_all
  show ?case
  proof (cases "st = CFE_SUCCESS")
    case True
    have "camera_done (set cams) ((py_CamInitialized s)[cam := True]) (flags[cam := if True then 1 else 0]) tr1
        (py_CamInitialized s') flags' tr' c \<and> sb_sent tr' = sb_sent tr1 \<and>
        length (py_CamInitialized s') = PAYLOADMC_NUM_CAMERAS \<and> length flags' = PAYLOADMC_NUM_CAMERAS"
      using "2.IH"(2) [OF i [symmetric] refl] True i "2.prems" by simp
    then show ?thesis using True write_regs_trace [OF w, of c] room
      by (auto intro!: camera_done_step [where ?tr1.0 = tr1 and b = True])
  next
    case False
    let ?tr1 = "py_event HK_SEND_ERR_EID EVS_ERROR tr1"
    have "camera_done (set cams) ((py_CamInitialized s)[cam := False]) (flags[cam := if False then 1 else 0]) ?tr1
        (py_CamInitialized s') flags' tr' c \<and> sb_sent tr' = sb_sent tr1 \<and>
        length (py_CamInitialized s') = PAYLOADMC_NUM_CAMERAS \<and> length flags' = PAYLOADMC_NUM_CAMERAS"
      using "2.IH"(1) [OF i [symmetric] refl] False i "2.prems" by (simp add: send_event_def)
    then show ?thesis using False write_regs_trace [OF w, of c] room
      by (auto simp: send_event_def intro!: camera_done_step [where ?tr1.0 = ?tr1 and b = False])
  qed
qed

section \<open>Properties\<close>

text \<open>However long the application has run, whatever photos it has taken and whatever the cameras
  answered, the next housekeeping request publishes the last readings of the payload board, flagged stale
  exactly when at least five requests have gone by since its last reply or heartbeat.\<close>
lemma payload_housekeeping:
  assumes "run_all (PAYLOADMC_appTaskPipe env junk) ms s tr = Returns (s', tr')"
  shows "case PAYLOADMC_appTaskPipe env junk PAYLOADMC_SEND_HK_MID s' tr' of Returns (s'', tr'') \<Rightarrow>
    sb_sent tr'' = sb_sent tr' @ [can_request CANIOMC_PAYLOAD_ID CANIOMC_PAYLOAD_HK_MSGID,
      PAYLOADMC_HK_TLM_MID (py_hk_packet env (send_event PAYLOADMC MSG_RECEIVED_EID EVS_INFORMATION tr') s'
        (if 5 \<le> hk_since py_is_hk py_alive (unat (py_PayloadMissCount s)) ms then 1 else 0)
        (last_reply py_reply (py_Readings s) ms))] | _ \<Rightarrow> False"
proof -
  have h: "handle_all (payload_step junk env) ms s tr = (s', tr')"
    using run_all_returned [OF assms] by (simp add: payload_step_def [abs_def])
  show ?thesis using payload.stale_packet [OF _ h, of PAYLOADMC_SEND_HK_MID]
    by (cases "snd (PAYLOADMC_APP_SEND_HK_TO_SB env s' (py_event MSG_RECEIVED_EID EVS_INFORMATION tr'))")
      (simp add: py_is_hk_def payload_step_def returned_def)
qed

lemma capture_delivers:
  assumes "py_IsImaging s"
    and "PAYLOADMC_GVCP_HAL_CaptureFrame (env_stream env tr) = Returns (CFE_SUCCESS, Some frame)"
    and "PAYLOADMC_captureFrame env s tr = Returns (s', tr')"
  shows "\<exists>got closed. sb_delivered tr' = sb_delivered tr @ map photo_chunk got @ closed \<and>
    subseq got (chunks PAYLOADMC_PHOTO_CHUNK_MAX_PAYLOAD frame) \<and>
    (if py_ErrCounter s' = py_ErrCounter s
     then concat (map (chunk_bytes \<circ> photo_chunk) got) = frame \<and> closed = [close_photo_cmd]
     else length got < length (chunks PAYLOADMC_PHOTO_CHUNK_MAX_PAYLOAD frame) \<or> closed = [])"
proof -
  let ?cs = "chunks PAYLOADMC_PHOTO_CHUNK_MAX_PAYLOAD frame"
  obtain ok lost tr1 where p: "publish_chunks env ?cs 0 0 tr = (ok, lost, tr1)"
    by (rule prod_cases3)
  from publish_delivers [OF p] obtain got where got: "subseq got ?cs"
    "sb_delivered tr1 = sb_delivered tr @ map photo_chunk got"
    "lost = of_nat (length ?cs - length got)" by auto
  have "unat lost = length ?cs - length got"
    using got(3) captured_chunks [OF assms(2)] by (simp add: unat_of_nat)
  then have lost: "lost = 0 \<longleftrightarrow> length got = length ?cs"
    using list_emb_length [OF got(1)] unat_eq_zero [of lost] by auto
  have all: "concat (map (chunk_bytes \<circ> photo_chunk) got) = frame" if "length got = length ?cs"
  proof -
    have "got = ?cs" using subseq_same_length [OF got(1) that] .
    moreover have "map (chunk_bytes \<circ> photo_chunk) ?cs = ?cs"
      by (rule map_idI) (simp add: chunk_bytes_photo length_chunks_le)
    ultimately show ?thesis by (simp add: concat_chunks PAYLOADMC_PHOTO_CHUNK_MAX_PAYLOAD_def)
  qed
  let ?tr2 = "if lost = 0 then py_event HK_SEND_SUCCESS_EID EVS_INFORMATION tr1
    else py_event HK_SEND_ERR_EID EVS_ERROR tr1"
  obtain st tr3 where c: "transmit_with_retries env close_photo_cmd ?tr2 = (st, tr3)"
    by (cases "transmit_with_retries env close_photo_cmd ?tr2")
  have d3: "sb_delivered tr3 = sb_delivered tr @ map photo_chunk got @
      (if st = CFE_SUCCESS then [close_photo_cmd] else [])"
    using retries_deliver [OF c] got(2) by (simp add: send_event_def)
  have fin: "archive_frame env frame s tr = (s', tr')"
    using assms by (simp add: PAYLOADMC_captureFrame_def)
  have "sb_delivered tr' = sb_delivered tr3 \<and> py_ErrCounter s' = py_ErrCounter s +
      (if lost = 0 then 0 else 1) + (if st = CFE_SUCCESS then 0 else 1)"
    using fin p c by (auto simp: archive_frame_def PAYLOADMC_APP_CLOSE_DS_PHOTO_FILE_def send_event_def
        split: if_splits)
  then show ?thesis using d3 got(1) lost all list_emb_length [OF got(1)]
    by (intro exI [of _ got] exI [of _ "if st = CFE_SUCCESS then [close_photo_cmd] else []"])
      (auto split: if_splits)
qed

text \<open>A captured frame is published in order in chunks of at most 8192 bytes, each offered to the bus
  at most 21 times, and then the archive file is closed. The error counter tells the truth about it: it is
  unchanged exactly when every byte of the frame and the command to close the file were accepted.\<close>
theorem photo_archived:
  assumes "py_IsImaging s"
    and "PAYLOADMC_GVCP_HAL_CaptureFrame (env_stream env tr) = Returns (CFE_SUCCESS, Some frame)"
    and "PAYLOADMC_captureFrame env s tr = Returns (s', tr')"
  shows "\<exists>got closed. sb_delivered tr' = sb_delivered tr @ map photo_chunk got @ closed \<and>
    subseq got (chunks PAYLOADMC_PHOTO_CHUNK_MAX_PAYLOAD frame) \<and>
    (if py_ErrCounter s' = py_ErrCounter s
     then concat (map (chunk_bytes \<circ> photo_chunk) got) = frame \<and> closed = [close_photo_cmd]
     else length got < length (chunks PAYLOADMC_PHOTO_CHUNK_MAX_PAYLOAD frame) \<or> closed = [])"
  using assms by (rule capture_delivers)

definition camera_env :: Env where
  "camera_env = good_env\<lparr>env_stream := \<lambda>_. small_stream, env_recvfrom := \<lambda>_ _. Some (zeros 8)\<rparr>"

lemma small_stream_captured:
  "PAYLOADMC_GVCP_HAL_CaptureFrame small_stream =
     Returns (CFE_SUCCESS, Some (string_bytes (pgm_header 3 2) @ concat [[1, 2, 3, 4], [5, 6]]))"
proof -
  have "gvsp_loop small_stream (st_recv small_stream) gvsp_start =
      Returns (CFE_SUCCESS, Some (string_bytes (pgm_header 3 2) @ concat [[1, 2, 3, 4], [5, 6]]))"
    by (rule loop_frame [where block = 5 and later = "[]"])
      (simp_all add: small_stream_def GVSP_RECV_IDLE_LIMIT_def gvsp_ok_def gvsp_start_def
        GVSP_MAX_FRAME_BYTES_def)
  then show ?thesis
    by (simp add: PAYLOADMC_GVCP_HAL_CaptureFrame_def small_stream_def)
qed

theorem photo_archived_witness:
  "let s = PAYLOADMC_AppData_zero\<lparr>py_IsImaging := True\<rparr>;
       frame = string_bytes (pgm_header 3 2) @ concat [[1, 2, 3, 4], [5, 6]];
       (s', tr') = archive_frame camera_env frame s [] in
   \<exists>got closed. sb_delivered tr' = sb_delivered [] @ map photo_chunk got @ closed \<and>
    subseq got (chunks PAYLOADMC_PHOTO_CHUNK_MAX_PAYLOAD frame) \<and>
    (if py_ErrCounter s' = py_ErrCounter s
     then concat (map (chunk_bytes \<circ> photo_chunk) got) = frame \<and> closed = [close_photo_cmd]
     else length got < length (chunks PAYLOADMC_PHOTO_CHUNK_MAX_PAYLOAD frame) \<or> closed = [])"
proof -
  let ?s = "PAYLOADMC_AppData_zero\<lparr>py_IsImaging := True\<rparr>"
  let ?f = "string_bytes (pgm_header 3 2) @ concat [[1, 2, 3, 4], [5, 6]]"
  obtain s' tr' where a: "archive_frame camera_env ?f ?s [] = (s', tr')"
    by (cases "archive_frame camera_env ?f ?s []")
  have c: "PAYLOADMC_GVCP_HAL_CaptureFrame (env_stream camera_env []) = Returns (CFE_SUCCESS, Some ?f)"
    by (simp add: camera_env_def small_stream_captured)
  then have "PAYLOADMC_captureFrame camera_env ?s [] = Returns (s', tr')"
    using a unfolding PAYLOADMC_captureFrame_def c by simp
  from photo_archived [OF _ c this] show ?thesis unfolding Let_def a by simp
qed

text \<open>C33. The trigger to take a photo sets the four cameras up in turn and reports the outcome to the
  node that asked, one 16-bit flag per camera; a camera is flagged only when it was sent the complete
  sequence of seven register writes and nothing else. The application then announces imaging mode, even
  when every camera failed.\<close>
theorem take_photo_reports:
  assumes "PAYLOADMC_takePhoto env junk node s tr = (s', tr')"
    and "length (py_CamInitialized s) = PAYLOADMC_NUM_CAMERAS"
  shows "length (py_CamInitialized s') = PAYLOADMC_NUM_CAMERAS \<and> py_IsImaging s' \<and>
    sb_sent tr' = sb_sent tr @ [CANIOMC_CMD_MID
      \<lparr>cp_Header = \<lparr>hd_Priority = CANIOMC_HKPRIORITY, hd_SenderID = CANIOMC_OBC_ID,
         hd_ReceiverID = node, hd_MessageID = CANIOMC_PAYLOAD_INIT_COMPLETE_MSGID,
         hd_SeqType = 0, hd_SeqCount = 0\<rparr>,
       cp_PayloadLen = 8, cp_Payload = zero_filled CANIOMC_SB_MAX_PAYLOAD
         (concat (map le16 (cam_flags (py_CamInitialized s'))))\<rparr>,
      PAYLOADMC_IMAGING_MODE_MID True] \<and>
    (\<forall>cam < PAYLOADMC_NUM_CAMERAS. py_CamInitialized s' ! cam \<longrightarrow>
       udp_bodies cam tr' = udp_bodies cam tr @ map reg_bytes init_sequence)"
proof -
  let ?junk = "take PAYLOADMC_NUM_CAMERAS (junk @ replicate PAYLOADMC_NUM_CAMERAS 0)"
  obtain s1 flags tr1 where i: "init_cameras env [0..<PAYLOADMC_NUM_CAMERAS] s ?junk tr = (s1, flags, tr1)"
    by (rule prod_cases3)
  have run: "sb_sent tr1 = sb_sent tr \<and> length (py_CamInitialized s1) = PAYLOADMC_NUM_CAMERAS \<and>
      length flags = PAYLOADMC_NUM_CAMERAS \<and>
      camera_done (set [0..<PAYLOADMC_NUM_CAMERAS]) (py_CamInitialized s) ?junk tr
        (py_CamInitialized s1) flags tr1 c" for c
    by (rule init_cameras_trace [OF i]) (simp_all add: assms(2))
  have done': "flags ! c = (if py_CamInitialized s1 ! c then 1 else 0) \<and> (py_CamInitialized s1 ! c \<longrightarrow>
      udp_bodies c tr1 = udp_bodies c tr @ map reg_bytes init_sequence)" if "c < PAYLOADMC_NUM_CAMERAS" for c
    using run [of c] that by (simp add: camera_done_def)
  have flags: "flags = cam_flags (py_CamInitialized s1)"
    using run done' by (intro nth_equalityI) (simp_all add: cam_flags_def)
  let ?ev = "py_event HK_SEND_SUCCESS_EID EVS_INFORMATION tr1"
  obtain st s2 tr2 where a: "PAYLOADMC_APP_SEND_INIT_COMPLETE_ACK_TO_SB env node flags s1 ?ev = (st, s2, tr2)"
    by (rule prod_cases3)
  have ack: "py_CamInitialized s2 = py_CamInitialized s1" "udp_bodies c tr2 = udp_bodies c tr1"
    "sb_sent tr2 = sb_sent tr1 @ [CANIOMC_CMD_MID
      \<lparr>cp_Header = \<lparr>hd_Priority = CANIOMC_HKPRIORITY, hd_SenderID = CANIOMC_OBC_ID,
         hd_ReceiverID = node, hd_MessageID = CANIOMC_PAYLOAD_INIT_COMPLETE_MSGID,
         hd_SeqType = 0, hd_SeqCount = 0\<rparr>,
       cp_PayloadLen = 8, cp_Payload = zero_filled CANIOMC_SB_MAX_PAYLOAD (concat (map le16 flags))\<rparr>]" for c
    using a by (auto simp: PAYLOADMC_APP_SEND_INIT_COMPLETE_ACK_TO_SB_def Let_def sb_transmit_def
        send_event_def PAYLOADMC_NUM_CAMERAS_def split: if_splits)
  have "PAYLOADMC_BroadcastImagingMode env True s2 tr2 = (s', tr')"
    using assms(1) unfolding PAYLOADMC_takePhoto_def i a prod.case .
  then have fin: "py_CamInitialized s' = py_CamInitialized s2" "py_IsImaging s'"
    "sb_sent tr' = sb_sent tr2 @ [PAYLOADMC_IMAGING_MODE_MID True]" "udp_bodies c tr' = udp_bodies c tr2" for c
    by (auto simp: PAYLOADMC_BroadcastImagingMode_def sb_transmit_def send_event_def)
  show ?thesis using run done' by (simp add: fin ack flags)
qed

theorem take_photo_reports_witness:
  "let (s', tr') = PAYLOADMC_takePhoto camera_env [7] CANIOMC_PAYLOAD_ID PAYLOADMC_AppData_zero [] in
   length (py_CamInitialized s') = PAYLOADMC_NUM_CAMERAS \<and> py_IsImaging s' \<and>
    sb_sent tr' = sb_sent [] @ [CANIOMC_CMD_MID
      \<lparr>cp_Header = \<lparr>hd_Priority = CANIOMC_HKPRIORITY, hd_SenderID = CANIOMC_OBC_ID,
         hd_ReceiverID = CANIOMC_PAYLOAD_ID, hd_MessageID = CANIOMC_PAYLOAD_INIT_COMPLETE_MSGID,
         hd_SeqType = 0, hd_SeqCount = 0\<rparr>,
       cp_PayloadLen = 8, cp_Payload = zero_filled CANIOMC_SB_MAX_PAYLOAD
         (concat (map le16 (cam_flags (py_CamInitialized s'))))\<rparr>,
      PAYLOADMC_IMAGING_MODE_MID True] \<and>
    (\<forall>cam < PAYLOADMC_NUM_CAMERAS. py_CamInitialized s' ! cam \<longrightarrow>
       udp_bodies cam tr' = udp_bodies cam [] @ map reg_bytes init_sequence)"
proof -
  obtain s' tr' where t: "PAYLOADMC_takePhoto camera_env [7] CANIOMC_PAYLOAD_ID PAYLOADMC_AppData_zero [] = (s', tr')"
    by (cases "PAYLOADMC_takePhoto camera_env [7] CANIOMC_PAYLOAD_ID PAYLOADMC_AppData_zero []")
  have "length (py_CamInitialized PAYLOADMC_AppData_zero) = PAYLOADMC_NUM_CAMERAS"
    by (simp add: PAYLOADMC_AppData_zero_def)
  from take_photo_reports [OF t this] show ?thesis unfolding Let_def t prod.case .
qed

end
