(* ===== verification/System.thy ===== *)
theory System
  imports Can_Io Power_App Mppt_App Adcs_App Comm_App Payload_App
begin

text \<open>
  What the applications do together: a request that travels from one application over the software
  bus and the CAN bus to a board, and the reply on its way back.
\<close>

section \<open>The request for telemetry and its reply\<close>

lemma hk_since_replies:
  "\<forall>m \<in> set ms. \<not> alive m \<or> is_hk m \<Longrightarrow>
   hk_since is_hk alive n ms = n + length (filter is_hk ms)"
  by (induction ms arbitrary: n) auto

lemma last_reply_none: "\<forall>m \<in> set ms. reply m = None \<Longrightarrow> last_reply reply d ms = d"
  by (induction ms arbitrary: d) auto

lemma can_request_sent:
  assumes "\<And>tr f. env_can env tr f = CFE_SUCCESS"
  shows "CANIOMC_appTaskPipe env (can_request node msgid) rx s tr =
    CANIOMC_PollAndPublishCanRx env rx (s\<lparr>ci_CmdCounter := ci_CmdCounter s + 1\<rparr>)
      (can_event MSG_RECEIVED_EID EVS_DEBUG (tr @ map (\<lambda>f. HAL_Send f CFE_SUCCESS) (seg_frames
        \<lparr>hd_Priority = CANIOMC_HKPRIORITY, hd_SenderID = CANIOMC_OBC_ID, hd_ReceiverID = node,
         hd_MessageID = msgid, hd_SeqType = 0, hd_SeqCount = 0\<rparr> [])))"
  using assms by (simp add: can_request_def CANIOMC_ProcessSBCanPacket_def CANIO_SendSegmented_def
      seg_send_loop_empty send_all_good)

section \<open>Housekeeping of the five boards\<close>


text \<open>C4. The housekeeping of the five boards keeps its contract together. However long the five
  applications have run and whatever messages they have handled, the next housekeeping request makes
  each ask its board over CAN and publish the readings of the last reply, flagged stale exactly when
  at least five requests have gone by since the last sign of life of the board (the counters saturate and
  never wrap back to fresh). A sign of life is a reply, and for MPPT and payload also a heartbeat.\<close>

theorem subsystems_housekeeping:
  assumes "handle_all (POWERMC_appTaskPipe env) ms1 pw tr1 = (pw', tr1')"
    and "handle_all (MPPTMC_appTaskPipe env) ms2 mp tr2 = (mp', tr2')"
    and "handle_all (ADCSMC_appTaskPipe env) ms3 ad tr3 = (ad', tr3')"
    and "run_all (COMMMC_appTaskPipe env) ms4 COMMMC_AppData_zero [] = Returns (cm', tr4')"
    and "run_all (PAYLOADMC_appTaskPipe env junk) ms5 py tr5 = Returns (py', tr5')"
  shows "(sb_sent (snd (POWERMC_appTaskPipe env POWERMC_SEND_HK_MID pw' tr1')) = sb_sent tr1' @
      [can_request CANIOMC_EPS_ID CANIOMC_OBCPOWER_HK_MSGID,
       POWERMC_HK_TLM_MID (pw_hk_packet pw'
         (if 5 \<le> hk_since pw_is_hk pw_alive (unat (pw_EpsMissCount pw)) ms1 then 1 else 0)
         (last_reply pw_reply (pw_Eps pw) ms1))]) \<and>
    (sb_sent (snd (MPPTMC_appTaskPipe env MPPTMC_SEND_HK_MID mp' tr2')) = sb_sent tr2' @
      [can_request CANIOMC_MPPT_ID CANIOMC_MPPT_HK_MSGID,
       MPPTMC_HK_TLM_MID (mp_hk_packet mp'
         (if 5 \<le> hk_since mp_is_hk mp_alive (unat (mp_MpptMissCount mp)) ms2 then 1 else 0)
         (last_reply mp_reply (mp_Readings mp) ms2))]) \<and>
    (sb_sent (snd (ADCSMC_appTaskPipe env ADCSMC_SEND_HK_MID ad' tr3')) = sb_sent tr3' @
      [can_request CANIOMC_ADCS_ID CANIOMC_ADCS_HK_MSGID,
       ADCSMC_HK_TLM_MID (ad_hk_packet ad'
         (if 5 \<le> hk_since ad_is_hk ad_alive (unat (ad_AdcsMissCount ad)) ms3 then 1 else 0)
         (last_reply ad_reply (ad_Tlm ad) ms3))]) \<and>
    (case COMMMC_appTaskPipe env COMMMC_SEND_HK_MID cm' tr4' of Returns (s', tr') \<Rightarrow>
      sb_sent tr' = sb_sent tr4' @ [can_request CANIOMC_COMM_ID CANIOMC_COMM_HK_MSGID,
        COMMMC_HK_TLM_MID (cm_hk_packet cm'
          (if 5 \<le> hk_since cm_is_hk cm_alive 0 ms4 then 1 else 0)
          (last_reply cm_reply zero_comm ms4))] | _ \<Rightarrow> False) \<and>
    (case PAYLOADMC_appTaskPipe env junk PAYLOADMC_SEND_HK_MID py' tr5' of Returns (s'', tr'') \<Rightarrow>
      sb_sent tr'' = sb_sent tr5' @ [can_request CANIOMC_PAYLOAD_ID CANIOMC_PAYLOAD_HK_MSGID,
        PAYLOADMC_HK_TLM_MID (py_hk_packet env (send_event PAYLOADMC MSG_RECEIVED_EID EVS_INFORMATION tr5') py'
          (if 5 \<le> hk_since py_is_hk py_alive (unat (py_PayloadMissCount py)) ms5 then 1 else 0)
          (last_reply py_reply (py_Readings py) ms5))] | _ \<Rightarrow> False)"
  by (intro conjI power_housekeeping [OF assms(1)] mppt_housekeeping [OF assms(2)] adcs_housekeeping [OF assms(3)]
      comm_housekeeping [OF assms(4)] payload_housekeeping [OF assms(5)])

theorem subsystems_housekeeping_witness:
  "let r1 = handle_all (POWERMC_appTaskPipe good_env) [CANIOMC_EPS_TLM_MID eps_zero] pw_start [];
       r2 = handle_all (MPPTMC_appTaskPipe good_env) [CANIOMC_MPPT_TLM_MID mppt_zero] mp_start [];
       r3 = handle_all (ADCSMC_appTaskPipe good_env) [CANIOMC_ADCS_TLM_MID adcs_zero] ad_start [] in
   sb_sent (snd (POWERMC_appTaskPipe good_env POWERMC_SEND_HK_MID (fst r1) (snd r1))) = sb_sent (snd r1) @
     [can_request CANIOMC_EPS_ID CANIOMC_OBCPOWER_HK_MSGID, POWERMC_HK_TLM_MID (pw_hk_packet (fst r1) 0 eps_zero)] \<and>
   sb_sent (snd (MPPTMC_appTaskPipe good_env MPPTMC_SEND_HK_MID (fst r2) (snd r2))) = sb_sent (snd r2) @
     [can_request CANIOMC_MPPT_ID CANIOMC_MPPT_HK_MSGID, MPPTMC_HK_TLM_MID (mp_hk_packet (fst r2) 0 mppt_zero)] \<and>
   sb_sent (snd (ADCSMC_appTaskPipe good_env ADCSMC_SEND_HK_MID (fst r3) (snd r3))) = sb_sent (snd r3) @
     [can_request CANIOMC_ADCS_ID CANIOMC_ADCS_HK_MSGID, ADCSMC_HK_TLM_MID (ad_hk_packet (fst r3) 0 adcs_zero)]"
  using subsystems_housekeeping [of good_env "[CANIOMC_EPS_TLM_MID eps_zero]" pw_start "[]" _ _
      "[CANIOMC_MPPT_TLM_MID mppt_zero]" mp_start "[]" _ _ "[CANIOMC_ADCS_TLM_MID adcs_zero]" ad_start "[]" _ _
      "[CANIOMC_COMM_TLM_MID zero_comm]" "COMMMC_AppData_zero\<lparr>cm_Telemetry := zero_comm, cm_CommMissCount := 0\<rparr>"
      "cm_event HK_SEND_SUCCESS_EID EVS_DEBUG []" "[]" "[CANIOMC_PAYLOAD_HEARTBEAT_MID]" PAYLOADMC_AppData_zero "[]"
      "PAYLOADMC_AppData_zero\<lparr>py_PayloadMissCount := 0\<rparr>" "py_event MSG_RECEIVED_EID EVS_DEBUG []",
      OF prod.collapse [symmetric] prod.collapse [symmetric] prod.collapse [symmetric]]
  by (simp add: Let_def COMMMC_ProcessCommTlm_def PAYLOADMC_ProcessPayloadHeartbeat_def send_event_def
      pw_is_hk_def pw_alive_def pw_reply_def mp_is_hk_def mp_alive_def mp_reply_def ad_is_hk_def ad_alive_def ad_reply_def)



text \<open>C10. The telemetry cycle of the power subsystem closes. The request that the power
  application puts on the software bus leaves the gateway as one CAN frame for the EPS; the reply
  frames the gateway then finds on the bus are published as one packet with the readings; and the
  housekeeping packet the power application sends next carries exactly these readings, whatever
  else it has handled in between, and calls them fresh exactly while fewer than five requests have
  gone unanswered since.\<close>

theorem eps_telemetry_cycle:
  assumes can: "\<And>tr f. env_can env tr f = CFE_SUCCESS" and e: "eps_ok e"
    and slots: "slots_ok (ci_RxSlots s)" "card (dom (slots_abs (ci_RxSlots s))) < CANIO_MAX_REASSEMBLY_SLOTS"
    and ms: "\<forall>m \<in> set ms. pw_reply m = None"
    and p: "handle_all (POWERMC_appTaskPipe env) (CANIOMC_EPS_TLM_MID e # ms) p0 ptr = (p, ptr')"
  shows "(\<exists>s' tr'. CANIOMC_appTaskPipe env (can_request CANIOMC_EPS_ID CANIOMC_OBCPOWER_HK_MSGID)
        (map (Pair CFE_SUCCESS)
          (seg_frames (node_header CANIOMC_EPS_ID CANIOMC_OBCPOWER_HK_MSGID) (eps_wire e)) @
          [(CANIO_HAL_NO_MSG, f)]) s tr = Returns ([], s', tr') \<and>
      map frame_stream (can_sent tr') =
        map frame_stream (can_sent tr) @ [(CANIOMC_OBC_ID, CANIOMC_EPS_ID, CANIOMC_OBCPOWER_HK_MSGID)] \<and>
      sb_sent tr' = sb_sent tr @ [CANIOMC_EPS_TLM_MID e]) \<and>
    sb_sent (snd (POWERMC_appTaskPipe env POWERMC_SEND_HK_MID p ptr')) = sb_sent ptr' @
      [can_request CANIOMC_EPS_ID CANIOMC_OBCPOWER_HK_MSGID,
       POWERMC_HK_TLM_MID (pw_hk_packet p (if 5 \<le> length (filter pw_is_hk ms) then 1 else 0) e)]"
proof (intro conjI)
  let ?req = "\<lparr>hd_Priority = CANIOMC_HKPRIORITY, hd_SenderID = CANIOMC_OBC_ID, hd_ReceiverID = CANIOMC_EPS_ID,
         hd_MessageID = CANIOMC_OBCPOWER_HK_MSGID, hd_SeqType = 0, hd_SeqCount = 0\<rparr>"
  let ?tr1 = "can_event MSG_RECEIVED_EID EVS_DEBUG (tr @ map (\<lambda>f. HAL_Send f CFE_SUCCESS) (seg_frames ?req []))"
  let ?s1 = "s\<lparr>ci_CmdCounter := ci_CmdCounter s + 1\<rparr>"
  have h: "header_ok ?req" by (simp add: header_ok_def node_defs msgid_defs)
  have sent: "map frame_stream (can_sent ?tr1) =
      map frame_stream (can_sent tr) @ [(CANIOMC_OBC_ID, CANIOMC_EPS_ID, CANIOMC_OBCPOWER_HK_MSGID)]"
    by (simp add: send_event_def seg_frames_def seg_frame_fields [OF h] header_stream_def)
  have sb: "sb_sent ?tr1 = sb_sent tr"
    by (simp add: send_event_def seg_frames_def)
  have "slots_ok (ci_RxSlots ?s1)" "card (dom (slots_abs (ci_RxSlots ?s1))) < CANIO_MAX_REASSEMBLY_SLOTS"
    using slots by simp_all
  from eps_frames_published [OF this(1) e this(2), of env f ?tr1] sent sb
  show "\<exists>s' tr'. CANIOMC_appTaskPipe env (can_request CANIOMC_EPS_ID CANIOMC_OBCPOWER_HK_MSGID)
        (map (Pair CFE_SUCCESS)
          (seg_frames (node_header CANIOMC_EPS_ID CANIOMC_OBCPOWER_HK_MSGID) (eps_wire e)) @
          [(CANIO_HAL_NO_MSG, f)]) s tr = Returns ([], s', tr') \<and>
      map frame_stream (can_sent tr') =
        map frame_stream (can_sent tr) @ [(CANIOMC_OBC_ID, CANIOMC_EPS_ID, CANIOMC_OBCPOWER_HK_MSGID)] \<and>
      sb_sent tr' = sb_sent tr @ [CANIOMC_EPS_TLM_MID e]"
    unfolding can_request_sent [OF can] by auto
next
  have "hk_since pw_is_hk pw_alive (unat (pw_EpsMissCount p0)) (CANIOMC_EPS_TLM_MID e # ms) =
      length (filter pw_is_hk ms)"
    using ms by (simp add: hk_since_replies pw_is_hk_def pw_alive_def pw_reply_def)
  moreover have "last_reply pw_reply (pw_Eps p0) (CANIOMC_EPS_TLM_MID e # ms) = e"
    using ms by (simp add: last_reply_none pw_reply_def)
  ultimately show "sb_sent (snd (POWERMC_appTaskPipe env POWERMC_SEND_HK_MID p ptr')) = sb_sent ptr' @
      [can_request CANIOMC_EPS_ID CANIOMC_OBCPOWER_HK_MSGID,
       POWERMC_HK_TLM_MID (pw_hk_packet p (if 5 \<le> length (filter pw_is_hk ms) then 1 else 0) e)]"
    using power.stale_packet [OF _ p, of POWERMC_SEND_HK_MID] by (simp add: pw_is_hk_def)
qed

theorem eps_telemetry_cycle_witness:
  "let ms = [POWERMC_SEND_HK_MID];
       r = handle_all (POWERMC_appTaskPipe good_env) (CANIOMC_EPS_TLM_MID zero_eps # ms) pw_start [] in
   (\<exists>s' tr'. CANIOMC_appTaskPipe good_env (can_request CANIOMC_EPS_ID CANIOMC_OBCPOWER_HK_MSGID)
        (map (Pair CFE_SUCCESS)
          (seg_frames (node_header CANIOMC_EPS_ID CANIOMC_OBCPOWER_HK_MSGID) (eps_wire zero_eps)) @
          [(CANIO_HAL_NO_MSG, empty_frame)]) can_start [] = Returns ([], s', tr') \<and>
      map frame_stream (can_sent tr') =
        map frame_stream (can_sent []) @ [(CANIOMC_OBC_ID, CANIOMC_EPS_ID, CANIOMC_OBCPOWER_HK_MSGID)] \<and>
      sb_sent tr' = sb_sent [] @ [CANIOMC_EPS_TLM_MID zero_eps]) \<and>
    sb_sent (snd (POWERMC_appTaskPipe good_env POWERMC_SEND_HK_MID (fst r) (snd r))) = sb_sent (snd r) @
      [can_request CANIOMC_EPS_ID CANIOMC_OBCPOWER_HK_MSGID,
       POWERMC_HK_TLM_MID (pw_hk_packet (fst r) (if 5 \<le> length (filter pw_is_hk ms) then 1 else 0) zero_eps)]"
  unfolding Let_def
  by (rule eps_telemetry_cycle)
    (simp_all add: slots_ok_empty slots_abs_empty CANIO_MAX_REASSEMBLY_SLOTS_def eps_ok_def zero_eps_def
      pw_reply_def)

end
