(* ===== verification/Cfs_Env.thy ===== *)
theory Cfs_Env
  imports Flight_Env
begin

text \<open>
  The boundary of the cFS applications the mission configures, HK, DS and SCH_LAB. They handle packets as
  bytes: a packet is its header followed by its data, and what the header says (message id, function
  code, sequence count, time) is read and written by cFE functions outside \<open>src/\<close>. These functions, and the
  replies of the services, are a record that the definitions take as an argument.
\<close>

section \<open>Calls\<close>

datatype Cfs_Table = HK_CopyTable_Handle | HK_RuntimeTable_Handle | DS_DestFile_Handle | DS_Filter_Handle
  | SCH_ScheduleTable_Handle

datatype Cfs_Service =
    Cfs_EVS_Register
  | Cfs_SB_CreatePipe nat
  | Cfs_SB_Subscribe u32
  | Cfs_ES_PoolCreate nat
  | Cfs_TBL_Register Cfs_Table
  | Cfs_TBL_Load Cfs_Table
  | Cfs_TBL_Manage Cfs_Table
  | Cfs_TBL_GetAddress Cfs_Table
  | Cfs_TBL_ReleaseAddress Cfs_Table
  | Cfs_TBL_GetStatus Cfs_Table
  | Cfs_TBL_Validate Cfs_Table
  | Cfs_TBL_Update Cfs_Table
  | Cfs_TBL_DumpToBuffer Cfs_Table
  | Cfs_TBL_Modified Cfs_Table
  | Cfs_TBL_GetInfo Cfs_Table
  | Cfs_CDS_Register nat
  | Cfs_CDS_Copy "u32 list"
  | Cfs_CDS_Restore
  | Cfs_EVS_SendInit nat
  | Os_CountSemCreate
  | Os_TimeBaseGetIdByName
  | Os_TimerAdd
  | Os_TimerSet nat nat

datatype Cfs_Call =
    Cfs_Event nat EVS_EventType
  | Cfs_SysLog
  | Cfs_Svc Cfs_Service CFE_Status
  | Cfs_Unsubscribe u32
  | Cfs_GetPoolBuf nat int nat
  | Cfs_PutPoolBuf nat int
  | Cfs_Transmit "u8 list"
  | Os_OpenCreate "u8 list" "nat option"
  | Os_WriteHeader nat int
  | Os_Write nat "u8 list" int
  | Os_Lseek nat nat int
  | Os_Close nat
  | Os_Mv "u8 list" "u8 list" bool

type_synonym Cfs_Trace = "Cfs_Call list"

section \<open>The environment\<close>

text \<open>
  \<open>cf_svc\<close> is the status of a service. \<open>CFE_ES_GetPoolBuf\<close> answers with a status, non-negative when
  it succeeded, and the address of the buffer; \<open>CFE_ES_PutPoolBuf\<close> with a status. \<open>CFE_MSG_Init\<close>
  gives the bytes of a new packet of a size, the accessors read a packet, and \<open>CFE_SB_TimeStampMsg\<close>
  rewrites it. The header sizes are those of the cFE configuration.
\<close>

record Cfs_Env =
  cf_svc :: "Cfs_Trace \<Rightarrow> Cfs_Service \<Rightarrow> CFE_Status"
  cf_GetPoolBuf :: "Cfs_Trace \<Rightarrow> nat \<Rightarrow> int \<times> nat"
  cf_PutPoolBuf :: "Cfs_Trace \<Rightarrow> nat \<Rightarrow> int"
  cf_IsValidMsgId :: "u32 \<Rightarrow> bool"
  cf_MsgInit :: "u32 \<Rightarrow> nat \<Rightarrow> u8 list"
  cf_MsgId :: "u8 list \<Rightarrow> u32"
  cf_FcnCode :: "u8 list \<Rightarrow> u16"
  cf_TimeStamp :: "Cfs_Trace \<Rightarrow> u8 list \<Rightarrow> u8 list"
  cf_CmdHeader :: nat
  cf_TlmHeader :: nat

definition cfs_event :: "nat \<Rightarrow> EVS_EventType \<Rightarrow> Cfs_Trace \<Rightarrow> Cfs_Trace" where
  "cfs_event eid ty tr = tr @ [Cfs_Event eid ty]"

definition cfs_log :: "Cfs_Trace \<Rightarrow> Cfs_Trace" where
  "cfs_log tr = tr @ [Cfs_SysLog]"

definition cfs_call :: "Cfs_Env \<Rightarrow> Cfs_Service \<Rightarrow> Cfs_Trace \<Rightarrow> CFE_Status \<times> Cfs_Trace" where
  "cfs_call env v tr = (cf_svc env tr v, tr @ [Cfs_Svc v (cf_svc env tr v)])"

definition cfs_transmit :: "u8 list \<Rightarrow> Cfs_Trace \<Rightarrow> Cfs_Trace" where
  "cfs_transmit p tr = tr @ [Cfs_Transmit p]"

text \<open>A service call whose failure is reported and ends the function with its status.\<close>

definition cfs_or :: "Cfs_Env \<Rightarrow> Cfs_Service \<Rightarrow> CFE_Status \<Rightarrow> (Cfs_Trace \<Rightarrow> Cfs_Trace) \<Rightarrow>
    (Cfs_Trace \<Rightarrow> CFE_Status \<times> 's \<times> Cfs_Trace) \<Rightarrow> 's \<Rightarrow> Cfs_Trace \<Rightarrow> CFE_Status \<times> 's \<times> Cfs_Trace" where
  "cfs_or env v good report k s tr =
     (case cfs_call env v tr of (status, tr') \<Rightarrow>
        if status \<noteq> good then (status, s, report tr') else k tr')"

section \<open>What a trace says\<close>

text \<open>The packets sent, and the pool buffers taken and not given back.\<close>

definition cfs_sent :: "Cfs_Trace \<Rightarrow> u8 list list" where
  "cfs_sent tr = concat (map (\<lambda>c. case c of Cfs_Transmit p \<Rightarrow> [p] | _ \<Rightarrow> []) tr)"

fun pool_step :: "nat list \<Rightarrow> Cfs_Call \<Rightarrow> nat list" where
  "pool_step as (Cfs_GetPoolBuf n r a) = (if 0 \<le> r then a # as else as)"
| "pool_step as (Cfs_PutPoolBuf a r) = (if 0 \<le> r then removeAll a as else as)"
| "pool_step as c = as"

definition pool_live :: "Cfs_Trace \<Rightarrow> nat list" where
  "pool_live tr = foldl pool_step [] tr"

fun subs_step :: "u32 list \<Rightarrow> Cfs_Call \<Rightarrow> u32 list" where
  "subs_step ms (Cfs_Svc (Cfs_SB_Subscribe m) status) = (if status = CFE_SUCCESS then m # ms else ms)"
| "subs_step ms (Cfs_Unsubscribe m) = removeAll m ms"
| "subs_step ms c = ms"

text \<open>The subscriptions made and not taken back.\<close>

definition subs_live :: "Cfs_Trace \<Rightarrow> u32 list" where
  "subs_live tr = foldl subs_step [] tr"

lemma subs_live_simps [simp]:
  "subs_live [] = []" "subs_live (tr @ [c]) = subs_step (subs_live tr) c"
  by (simp_all add: subs_live_def)

lemma cfs_sent_simps [simp]:
  "cfs_sent [] = []" "cfs_sent (a @ b) = cfs_sent a @ cfs_sent b"
  "cfs_sent (c # tr) = (case c of Cfs_Transmit p \<Rightarrow> [p] | _ \<Rightarrow> []) @ cfs_sent tr"
  by (simp_all add: cfs_sent_def)

lemma pool_live_simps [simp]:
  "pool_live [] = []" "pool_live (tr @ [c]) = pool_step (pool_live tr) c"
  by (simp_all add: pool_live_def)

text \<open>
  What the documentation of cFE promises: the allocator hands out no buffer that is still in use, a
  new packet has its size and its id, the id is in the header, and a time stamp changes nothing
  outside the header and not the id.
\<close>

definition cfs_env_ok :: "Cfs_Env \<Rightarrow> bool" where
  "cfs_env_ok env \<longleftrightarrow>
     (\<forall>tr n r a. cf_GetPoolBuf env tr n = (r, a) \<longrightarrow> 0 \<le> r \<longrightarrow> a \<notin> set (pool_live tr)) \<and>
     (\<forall>mid n. length (cf_MsgInit env mid n) = n) \<and>
     (\<forall>mid n. cf_TlmHeader env \<le> n \<longrightarrow> cf_MsgId env (cf_MsgInit env mid n) = mid) \<and>
     (\<forall>p q. take (cf_TlmHeader env) p = take (cf_TlmHeader env) q \<longrightarrow>
        cf_MsgId env p = cf_MsgId env q) \<and>
     (\<forall>tr p. cf_TlmHeader env \<le> length p \<longrightarrow> length (cf_TimeStamp env tr p) = length p \<and>
        cf_MsgId env (cf_TimeStamp env tr p) = cf_MsgId env p \<and>
        drop (cf_TlmHeader env) (cf_TimeStamp env tr p) = drop (cf_TlmHeader env) p)"

lemma cfs_env_okD:
  assumes "cfs_env_ok env"
  shows "cf_GetPoolBuf env tr n = (r, a) \<Longrightarrow> 0 \<le> r \<Longrightarrow> a \<notin> set (pool_live tr)"
    "length (cf_MsgInit env mid n) = n"
    "cf_TlmHeader env \<le> n \<Longrightarrow> cf_MsgId env (cf_MsgInit env mid n) = mid"
    "take (cf_TlmHeader env) p = take (cf_TlmHeader env) q \<Longrightarrow> cf_MsgId env p = cf_MsgId env q"
    "cf_TlmHeader env \<le> length p \<Longrightarrow> length (cf_TimeStamp env tr p) = length p"
    "cf_TlmHeader env \<le> length p \<Longrightarrow> cf_MsgId env (cf_TimeStamp env tr p) = cf_MsgId env p"
    "cf_TlmHeader env \<le> length p \<Longrightarrow>
       drop (cf_TlmHeader env) (cf_TimeStamp env tr p) = drop (cf_TlmHeader env) p"
  using assms unfolding cfs_env_ok_def by blast+

end
