(* ===== verification/Hk_App.thy ===== *)
theory Hk_App
  imports Cfs_Env
begin

text \<open>
  The housekeeping application HK (\<open>hk_app.c\<close>, \<open>hk_dispatch.c\<close>, \<open>hk_utils.c\<close>): it copies pieces of the
  packets of other applications into combined packets, as its copy table says, and sends a combined
  packet on command. Output packets live in a memory pool; an address that no buffer is at is NULL
  (\<open>None\<close> in the runtime table) or dangling, and a \<open>memcpy\<close> there is out of bounds.
\<close>

section \<open>Tables\<close>

definition HK_COPY_TABLE_ENTRIES :: nat where "HK_COPY_TABLE_ENTRIES = 128"

definition HK_MAX_COMBINED_PACKET_SIZE :: int where "HK_MAX_COMBINED_PACKET_SIZE = 1500"

definition HK_NUM_BYTES_IN_MEM_POOL :: nat where "HK_NUM_BYTES_IN_MEM_POOL = 6 * 1024"

definition HK_PIPE_DEPTH :: nat where "HK_PIPE_DEPTH = 40"

record hk_copy_table_entry =
  ce_InputMid :: u32
  ce_InputOffset :: u16
  ce_OutputMid :: u32
  ce_OutputOffset :: u16
  ce_NumBytes :: u16

record hk_runtime_tbl_entry =
  re_OutputPktAddr :: "nat option"
  re_InputMidSubscribed :: u8
  re_DataPresent :: u8

definition HK_INPUTMID_SUBSCRIBED :: u8 where "HK_INPUTMID_SUBSCRIBED = 0xFF"

definition HK_INPUTMID_NOT_SUBSCRIBED :: u8 where "HK_INPUTMID_NOT_SUBSCRIBED = 0"

definition HK_DATA_NOT_PRESENT :: u8 where "HK_DATA_NOT_PRESENT = 0"

definition HK_DATA_PRESENT :: u8 where "HK_DATA_PRESENT = 1"

lemmas hk_flag_defs = HK_INPUTMID_SUBSCRIBED_def HK_INPUTMID_NOT_SUBSCRIBED_def
  HK_DATA_NOT_PRESENT_def HK_DATA_PRESENT_def

type_synonym Copy_Table = "hk_copy_table_entry list"
type_synonym Runtime_Table = "hk_runtime_tbl_entry list"
type_synonym Pool = "nat \<Rightarrow> u8 list option"

section \<open>Events and identifiers\<close>

definition HK_INIT_INF_EID :: nat where "HK_INIT_INF_EID = 1"

definition HK_CC_ERR_EID :: nat where "HK_CC_ERR_EID = 2"

definition HK_CMD_LEN_ERR_EID :: nat where "HK_CMD_LEN_ERR_EID = 3"

definition HK_NOOP_INF_EID :: nat where "HK_NOOP_INF_EID = 4"

definition HK_RESET_INF_EID :: nat where "HK_RESET_INF_EID = 5"

definition HK_ACCESSING_PAST_PACKET_END_EID :: nat where "HK_ACCESSING_PAST_PACKET_END_EID = 6"

definition HK_MEM_POOL_MALLOC_FAILED_EID :: nat where "HK_MEM_POOL_MALLOC_FAILED_EID = 7"

definition HK_CANT_SUBSCRIBE_TO_SB_PKT_EID :: nat where "HK_CANT_SUBSCRIBE_TO_SB_PKT_EID = 8"

definition HK_MEM_POOL_FREE_FAILED_EID :: nat where "HK_MEM_POOL_FREE_FAILED_EID = 9"

definition HK_UNEXPECTED_GETSTAT_RET_EID :: nat where "HK_UNEXPECTED_GETSTAT_RET_EID = 10"

definition HK_UNKNOWN_COMBINED_PACKET_EID :: nat where "HK_UNKNOWN_COMBINED_PACKET_EID = 11"

definition HK_OUTPKT_MISSING_DATA_EID :: nat where "HK_OUTPKT_MISSING_DATA_EID = 12"

definition HK_CR_PIPE_ERR_EID :: nat where "HK_CR_PIPE_ERR_EID = 14"

definition HK_SUB_CMB_ERR_EID :: nat where "HK_SUB_CMB_ERR_EID = 15"

definition HK_SUB_REQ_ERR_EID :: nat where "HK_SUB_REQ_ERR_EID = 16"

definition HK_SUB_CMD_ERR_EID :: nat where "HK_SUB_CMD_ERR_EID = 17"

definition HK_CR_POOL_ERR_EID :: nat where "HK_CR_POOL_ERR_EID = 18"

definition HK_CPTBL_REG_ERR_EID :: nat where "HK_CPTBL_REG_ERR_EID = 19"

definition HK_RTTBL_REG_ERR_EID :: nat where "HK_RTTBL_REG_ERR_EID = 20"

definition HK_CPTBL_LD_ERR_EID :: nat where "HK_CPTBL_LD_ERR_EID = 21"

definition HK_CPTBL_MNG_ERR_EID :: nat where "HK_CPTBL_MNG_ERR_EID = 22"

definition HK_RTTBL_MNG_ERR_EID :: nat where "HK_RTTBL_MNG_ERR_EID = 23"

definition HK_CPTBL_GADR_ERR_EID :: nat where "HK_CPTBL_GADR_ERR_EID = 24"

definition HK_RTTBL_GADR_ERR_EID :: nat where "HK_RTTBL_GADR_ERR_EID = 25"

definition HK_RCV_MSG_ERR_EID :: nat where "HK_RCV_MSG_ERR_EID = 26"

definition HK_UNEXPECTED_GETSTAT2_RET_EID :: nat where "HK_UNEXPECTED_GETSTAT2_RET_EID = 27"

definition HK_MSG_LEN_ERR_EID :: nat where "HK_MSG_LEN_ERR_EID = 28"

definition HK_UNEXPECTED_GETADDR_RET_EID :: nat where "HK_UNEXPECTED_GETADDR_RET_EID = 29"

definition HK_UNEXPECTED_TBLUPD_RET_EID :: nat where "HK_UNEXPECTED_TBLUPD_RET_EID = 30"

definition HK_UNEXPECTED_RELADDR_RET_EID :: nat where "HK_UNEXPECTED_RELADDR_RET_EID = 31"

definition HK_UNEXPECTED_TBLVLD_RET_EID :: nat where "HK_UNEXPECTED_TBLVLD_RET_EID = 32"

definition HK_UNEXPECTED_DUMPTOBUFFER_RET_EID :: nat where "HK_UNEXPECTED_DUMPTOBUFFER_RET_EID = 33"

definition HK_NULL_POINTER_NEWCPY_ERR_EID :: nat where "HK_NULL_POINTER_NEWCPY_ERR_EID = 34"

definition HK_NULL_POINTER_TEARCPY_ERR_EID :: nat where "HK_NULL_POINTER_TEARCPY_ERR_EID = 35"

definition HK_NEWCPYTBL_HK_FAILED_EID :: nat where "HK_NEWCPYTBL_HK_FAILED_EID = 36"

definition HK_NEWCPYTBL_INIT_FAILED_EID :: nat where "HK_NEWCPYTBL_INIT_FAILED_EID = 37"

definition HK_COMBINED_PACKET_SENT_EID :: nat where "HK_COMBINED_PACKET_SENT_EID = 38"

definition HK_CMD_MID :: u32 where "HK_CMD_MID = 0x189A"

definition HK_SEND_HK_MID :: u32 where "HK_SEND_HK_MID = 0x189B"

definition HK_SEND_COMBINED_PKT_MID :: u32 where "HK_SEND_COMBINED_PKT_MID = 0x189C"

definition HK_HK_TLM_MID :: u32 where "HK_HK_TLM_MID = 0x089B"

definition HK_NOOP_CC :: u16 where "HK_NOOP_CC = 0"

definition HK_RESET_COUNTERS_CC :: u16 where "HK_RESET_COUNTERS_CC = 1"

lemmas hk_mid_defs = HK_CMD_MID_def HK_SEND_HK_MID_def HK_SEND_COMBINED_PKT_MID_def HK_HK_TLM_MID_def

section \<open>State\<close>

text \<open>\<open>HK_SUCCESS\<close> and the two error codes of \<open>hk_app.h\<close>.\<close>

datatype HK_Status = HK_SUCCESS | HK_ERROR | HK_BAD_MSG_LENGTH_RC

datatype HK_RunStatus = HK_APP_RUN | HK_APP_ERROR

record HK_AppData =
  hk_HkPacket :: "u8 list"
  hk_CmdCounter :: u8
  hk_ErrCounter :: u8
  hk_MissingDataCtr :: u16
  hk_CombinedPacketsSent :: u16
  hk_MemPoolHandle :: u32
  hk_RunStatus :: HK_RunStatus
  hk_CopyTable :: "Copy_Table option"
  hk_RuntimeTable :: "Runtime_Table option"
  hk_Pool :: Pool

definition HK_ResetHkData :: "HK_AppData \<Rightarrow> HK_AppData" where
  "HK_ResetHkData s = s\<lparr>hk_CmdCounter := 0, hk_ErrCounter := 0, hk_CombinedPacketsSent := 0,
     hk_MissingDataCtr := 0\<rparr>"

section \<open>Copying input data\<close>

text \<open>\<open>memcpy\<close> into an output packet.\<close>

definition pool_write :: "Pool \<Rightarrow> nat option \<Rightarrow> nat \<Rightarrow> u8 list \<Rightarrow> Pool option" where
  "pool_write pool addr off bytes =
     (case addr of None \<Rightarrow> None
      | Some a \<Rightarrow> (case pool a of None \<Rightarrow> None
          | Some p \<Rightarrow> (case mem_write p off bytes of None \<Rightarrow> None | Some p' \<Rightarrow> Some (pool(a \<mapsto> p')))))"

text \<open>The loop over the two tables, entry by entry.\<close>

fun incoming_loop :: "u32 \<Rightarrow> u8 list \<Rightarrow> Copy_Table \<Rightarrow> Runtime_Table \<Rightarrow> Pool \<Rightarrow> nat \<Rightarrow>
    (Runtime_Table \<times> Pool \<times> nat) run" where
  "incoming_loop mid buf (c # cs) (r # rs) pool errs =
     (if mid = ce_InputMid c
      then if unat (ce_InputOffset c) + unat (ce_NumBytes c) \<le> length buf
        then case mem_read buf (unat (ce_InputOffset c)) (unat (ce_NumBytes c)) of
               None \<Rightarrow> OutOfBounds
             | Some bytes \<Rightarrow>
                 (case pool_write pool (re_OutputPktAddr r) (unat (ce_OutputOffset c)) bytes of
                    None \<Rightarrow> OutOfBounds
                  | Some pool' \<Rightarrow> run_bind (incoming_loop mid buf cs rs pool' errs)
                      (\<lambda>(rs', p, e). Returns (r\<lparr>re_DataPresent := HK_DATA_PRESENT\<rparr> # rs', p, e)))
        else run_bind (incoming_loop mid buf cs rs pool (Suc errs)) (\<lambda>(rs', p, e). Returns (r # rs', p, e))
      else run_bind (incoming_loop mid buf cs rs pool errs) (\<lambda>(rs', p, e). Returns (r # rs', p, e)))"
| "incoming_loop mid buf cs rs pool errs = Returns (rs, pool, errs)"

definition HK_ProcessIncomingHkData ::
  "Cfs_Env \<Rightarrow> u8 list \<Rightarrow> HK_AppData \<Rightarrow> Cfs_Trace \<Rightarrow> (HK_AppData \<times> Cfs_Trace) run" where
  "HK_ProcessIncomingHkData env buf s tr =
     (case (hk_CopyTable s, hk_RuntimeTable s) of
        (Some cs, Some rs) \<Rightarrow>
          run_bind (incoming_loop (cf_MsgId env buf) buf cs rs (hk_Pool s) 0) (\<lambda>(rs', pool, errs).
            Returns (s\<lparr>hk_RuntimeTable := Some rs', hk_Pool := pool\<rparr>,
              if errs \<noteq> 0 then cfs_event HK_ACCESSING_PAST_PACKET_END_EID EVS_ERROR tr else tr))
      | _ \<Rightarrow> OutOfBounds)"

definition HK_ValidateHkCopyTable :: "Copy_Table \<Rightarrow> Cfs_Trace \<Rightarrow> HK_Status \<times> Cfs_Trace" where
  "HK_ValidateHkCopyTable tbl tr =
     (let sumBytes = sum_list (map (\<lambda>c. uint (ce_NumBytes c)) tbl)
      in if sumBytes > HK_MAX_COMBINED_PACKET_SIZE
         then (HK_ERROR, cfs_event HK_NEWCPYTBL_HK_FAILED_EID EVS_ERROR tr)
         else (HK_SUCCESS, tr))"

section \<open>A new copy table\<close>

text \<open>The size of an output packet: the furthest byte any entry for it writes.\<close>

definition packet_size :: "Copy_Table \<Rightarrow> u32 \<Rightarrow> nat" where
  "packet_size cs mid = foldl (\<lambda>size c.
     if ce_OutputMid c = mid \<and> unat (ce_OutputOffset c) + unat (ce_NumBytes c) > size
     then unat (ce_OutputOffset c) + unat (ce_NumBytes c) else size) 0 cs"

definition assign_packet :: "Copy_Table \<Rightarrow> u32 \<Rightarrow> nat \<Rightarrow> Runtime_Table \<Rightarrow> Runtime_Table" where
  "assign_packet cs mid a rs =
     map2 (\<lambda>c r. if ce_OutputMid c = mid then r\<lparr>re_OutputPktAddr := Some a\<rparr> else r) cs rs"

definition mark_input :: "Copy_Table \<Rightarrow> u32 \<Rightarrow> u8 \<Rightarrow> Runtime_Table \<Rightarrow> Runtime_Table" where
  "mark_input cs mid flag rs =
     map2 (\<lambda>c r. if ce_InputMid c = mid then r\<lparr>re_InputMidSubscribed := flag\<rparr> else r) cs rs"

definition build_packet :: "Cfs_Env \<Rightarrow> Copy_Table \<Rightarrow> nat \<Rightarrow> Runtime_Table \<times> Pool \<times> Cfs_Trace \<Rightarrow>
    Runtime_Table \<times> Pool \<times> Cfs_Trace" where
  "build_packet env cs i = (\<lambda>(rs, pool, tr).
     let c = cs ! i in
     if cf_IsValidMsgId env (ce_OutputMid c) \<and> cf_IsValidMsgId env (ce_InputMid c) \<and>
        re_OutputPktAddr (rs ! i) = None
     then let size = packet_size cs (ce_OutputMid c) in
       if 0 < size
       then case cf_GetPoolBuf env tr size of (result, a) \<Rightarrow>
         let tr1 = tr @ [Cfs_GetPoolBuf size result a] in
         if 0 \<le> result
         then (assign_packet cs (ce_OutputMid c) a rs,
               pool(a \<mapsto> cf_MsgInit env (ce_OutputMid c) size), tr1)
         else (rs, pool, cfs_event HK_MEM_POOL_MALLOC_FAILED_EID EVS_ERROR tr1)
       else (rs, pool, tr)
     else (rs, pool, tr))"

definition subscribe_input :: "Cfs_Env \<Rightarrow> Copy_Table \<Rightarrow> nat \<Rightarrow> Runtime_Table \<times> Pool \<times> Cfs_Trace \<Rightarrow>
    Runtime_Table \<times> Pool \<times> Cfs_Trace" where
  "subscribe_input env cs i = (\<lambda>(rs, pool, tr).
     let c = cs ! i in
     if re_InputMidSubscribed (rs ! i) = HK_INPUTMID_NOT_SUBSCRIBED \<and> cf_IsValidMsgId env (ce_InputMid c)
     then case cfs_call env (Cfs_SB_Subscribe (ce_InputMid c)) tr of (result, tr1) \<Rightarrow>
       if result = CFE_SUCCESS
       then (mark_input cs (ce_InputMid c) HK_INPUTMID_SUBSCRIBED rs, pool, tr1)
       else (rs, pool, cfs_event HK_CANT_SUBSCRIBE_TO_SB_PKT_EID EVS_ERROR tr1)
     else (rs, pool, tr))"

fun new_table_loop :: "Cfs_Env \<Rightarrow> Copy_Table \<Rightarrow> nat list \<Rightarrow> Runtime_Table \<times> Pool \<times> Cfs_Trace \<Rightarrow>
    Runtime_Table \<times> Pool \<times> Cfs_Trace" where
  "new_table_loop env cs [] st = st"
| "new_table_loop env cs (i # is) st =
     new_table_loop env cs is (subscribe_input env cs i (build_packet env cs i st))"

definition fresh_runtime :: "Runtime_Table \<Rightarrow> Runtime_Table" where
  "fresh_runtime rs = map (\<lambda>r. r\<lparr>re_OutputPktAddr := None,
     re_InputMidSubscribed := HK_INPUTMID_NOT_SUBSCRIBED, re_DataPresent := HK_DATA_NOT_PRESENT\<rparr>) rs"

text \<open>\<open>False\<close> stands for \<open>HK_NULL_POINTER_DETECTED\<close>, the only other status.\<close>

definition HK_ProcessNewCopyTable :: "Cfs_Env \<Rightarrow> HK_AppData \<Rightarrow> Cfs_Trace \<Rightarrow> bool \<times> HK_AppData \<times> Cfs_Trace" where
  "HK_ProcessNewCopyTable env s tr =
     (case (hk_CopyTable s, hk_RuntimeTable s) of
        (Some cs, Some rs) \<Rightarrow>
          (case new_table_loop env cs [0..<HK_COPY_TABLE_ENTRIES] (fresh_runtime rs, hk_Pool s, tr) of
             (rs', pool, tr') \<Rightarrow> (True, s\<lparr>hk_RuntimeTable := Some rs', hk_Pool := pool\<rparr>, tr'))
      | _ \<Rightarrow> (False, s, cfs_event HK_NULL_POINTER_NEWCPY_ERR_EID EVS_ERROR tr))"

section \<open>Taking the old copy table down\<close>

definition clear_packet :: "Copy_Table \<Rightarrow> u32 \<Rightarrow> nat \<Rightarrow> Runtime_Table \<Rightarrow> Runtime_Table" where
  "clear_packet cs mid a rs =
     map2 (\<lambda>c r. if ce_OutputMid c = mid \<and> re_OutputPktAddr r = Some a
                 then r\<lparr>re_OutputPktAddr := None\<rparr> else r) cs rs"

definition free_packet :: "Cfs_Env \<Rightarrow> Copy_Table \<Rightarrow> nat \<Rightarrow> Runtime_Table \<times> Pool \<times> Cfs_Trace \<Rightarrow>
    Runtime_Table \<times> Pool \<times> Cfs_Trace" where
  "free_packet env cs i = (\<lambda>(rs, pool, tr).
     case re_OutputPktAddr (rs ! i) of None \<Rightarrow> (rs, pool, tr)
     | Some a \<Rightarrow>
         let result = cf_PutPoolBuf env tr a; tr1 = tr @ [Cfs_PutPoolBuf a result] in
         if 0 \<le> result
         then (clear_packet cs (ce_OutputMid (cs ! i)) a rs, pool(a := None), tr1)
         else (rs, pool, cfs_event HK_MEM_POOL_FREE_FAILED_EID EVS_ERROR tr1))"

definition unsubscribe_input :: "Copy_Table \<Rightarrow> nat \<Rightarrow> Runtime_Table \<times> Pool \<times> Cfs_Trace \<Rightarrow>
    Runtime_Table \<times> Pool \<times> Cfs_Trace" where
  "unsubscribe_input cs i = (\<lambda>(rs, pool, tr).
     if re_InputMidSubscribed (rs ! i) = HK_INPUTMID_SUBSCRIBED
     then (mark_input cs (ce_InputMid (cs ! i)) HK_INPUTMID_NOT_SUBSCRIBED rs, pool,
           tr @ [Cfs_Unsubscribe (ce_InputMid (cs ! i))])
     else (rs, pool, tr))"

fun tear_down_loop :: "Cfs_Env \<Rightarrow> Copy_Table \<Rightarrow> nat list \<Rightarrow> Runtime_Table \<times> Pool \<times> Cfs_Trace \<Rightarrow>
    Runtime_Table \<times> Pool \<times> Cfs_Trace" where
  "tear_down_loop env cs [] st = st"
| "tear_down_loop env cs (i # is) st =
     tear_down_loop env cs is (unsubscribe_input cs i (free_packet env cs i st))"

definition HK_TearDownOldCopyTable :: "Cfs_Env \<Rightarrow> HK_AppData \<Rightarrow> Cfs_Trace \<Rightarrow> bool \<times> HK_AppData \<times> Cfs_Trace" where
  "HK_TearDownOldCopyTable env s tr =
     (case (hk_CopyTable s, hk_RuntimeTable s) of
        (Some cs, Some rs) \<Rightarrow>
          (case tear_down_loop env cs [0..<HK_COPY_TABLE_ENTRIES] (rs, hk_Pool s, tr) of
             (rs', pool, tr') \<Rightarrow> (True, s\<lparr>hk_RuntimeTable := Some rs', hk_Pool := pool\<rparr>, tr'))
      | _ \<Rightarrow> (False, s, cfs_event HK_NULL_POINTER_TEARCPY_ERR_EID EVS_ERROR tr))"

section \<open>Sending a combined packet\<close>

text \<open>The input message the first entry without data waits for, if there is one.\<close>

fun HK_CheckForMissingData :: "u32 \<Rightarrow> Copy_Table \<Rightarrow> Runtime_Table \<Rightarrow> u32 option" where
  "HK_CheckForMissingData out (c # cs) (r # rs) =
     (if re_OutputPktAddr r \<noteq> None \<and> ce_OutputMid c = out \<and> re_DataPresent r = HK_DATA_NOT_PRESENT
      then Some (ce_InputMid c) else HK_CheckForMissingData out cs rs)"
| "HK_CheckForMissingData out cs rs = None"

definition HK_SetFlagsToNotPresent :: "u32 \<Rightarrow> Copy_Table \<Rightarrow> Runtime_Table \<Rightarrow> Runtime_Table" where
  "HK_SetFlagsToNotPresent out cs rs =
     map2 (\<lambda>c r. if re_OutputPktAddr r \<noteq> None \<and> ce_OutputMid c = out
                 then r\<lparr>re_DataPresent := HK_DATA_NOT_PRESENT\<rparr> else r) cs rs"

text \<open>The address of the first entry whose packet has the message id; reading a dangling address is
  out of bounds.\<close>

fun find_packet :: "Cfs_Env \<Rightarrow> u32 \<Rightarrow> Runtime_Table \<Rightarrow> Pool \<Rightarrow> nat option run" where
  "find_packet env which [] pool = Returns None"
| "find_packet env which (r # rs) pool =
     (case re_OutputPktAddr r of None \<Rightarrow> find_packet env which rs pool
      | Some a \<Rightarrow> (case pool a of None \<Rightarrow> OutOfBounds
          | Some p \<Rightarrow> if cf_MsgId env p = which then Returns (Some a) else find_packet env which rs pool))"

text \<open>\<open>HK_DISCARD_INCOMPLETE_COMBO\<close> is 0: an incomplete packet is counted and sent.\<close>

definition send_packet :: "Cfs_Env \<Rightarrow> u32 \<Rightarrow> Copy_Table \<Rightarrow> Runtime_Table \<Rightarrow> nat \<Rightarrow> u8 list \<Rightarrow>
    HK_AppData \<Rightarrow> Cfs_Trace \<Rightarrow> HK_AppData \<times> Cfs_Trace" where
  "send_packet env mid cs rs a p s tr =
     (let (s1, tr1) = (if HK_CheckForMissingData mid cs rs \<noteq> None
            then (s\<lparr>hk_MissingDataCtr := hk_MissingDataCtr s + 1\<rparr>,
                  cfs_event HK_OUTPKT_MISSING_DATA_EID EVS_DEBUG tr)
            else (s, tr));
          p' = cf_TimeStamp env tr1 p
      in (s1\<lparr>hk_Pool := (hk_Pool s1)(a \<mapsto> p'), hk_CombinedPacketsSent := hk_CombinedPacketsSent s1 + 1,
            hk_RuntimeTable := Some (HK_SetFlagsToNotPresent mid cs rs)\<rparr>,
          cfs_event HK_COMBINED_PACKET_SENT_EID EVS_DEBUG (cfs_transmit p' tr1)))"

definition HK_SendCombinedHkPacket :: "Cfs_Env \<Rightarrow> u32 \<Rightarrow> HK_AppData \<Rightarrow> Cfs_Trace \<Rightarrow>
    (HK_AppData \<times> Cfs_Trace) run" where
  "HK_SendCombinedHkPacket env which s tr =
     (case (hk_CopyTable s, hk_RuntimeTable s) of
        (Some cs, Some rs) \<Rightarrow>
          run_bind (find_packet env which rs (hk_Pool s)) (\<lambda>found.
            case found of
              None \<Rightarrow> Returns (s, cfs_event HK_UNKNOWN_COMBINED_PACKET_EID EVS_INFORMATION tr)
            | Some a \<Rightarrow> Returns (send_packet env which cs rs a (the (hk_Pool s a)) s tr))
      | _ \<Rightarrow> OutOfBounds)"

section \<open>The tables of the table services\<close>

text \<open>What \<open>CFE_TBL_GetAddress\<close> leaves in the two table pointers, and the handle of the pool.\<close>

record HK_Tables =
  ht_CopyTable :: "Cfs_Trace \<Rightarrow> Copy_Table option"
  ht_RuntimeTable :: "Cfs_Trace \<Rightarrow> Runtime_Table option"
  ht_PoolHandle :: u32

text \<open>A failure of the table services at a point where only success is expected: the event, and
  the application reports an error.\<close>

definition hk_unexpected :: "nat \<Rightarrow> 's \<Rightarrow> Cfs_Trace \<Rightarrow> HK_Status \<times> 's \<times> Cfs_Trace" where
  "hk_unexpected eid s tr = (HK_ERROR, s, cfs_event eid EVS_CRITICAL tr)"

definition update_copy_table :: "Cfs_Env \<Rightarrow> HK_Tables \<Rightarrow> HK_AppData \<Rightarrow> Cfs_Trace \<Rightarrow>
    HK_Status \<times> HK_AppData \<times> Cfs_Trace" where
  "update_copy_table env tb s tr =
     (case HK_TearDownOldCopyTable env s tr of (ignored, s1, tr1) \<Rightarrow>
      case cfs_call env (Cfs_TBL_ReleaseAddress HK_CopyTable_Handle) tr1 of (status, tr2) \<Rightarrow>
      if status \<noteq> CFE_SUCCESS then hk_unexpected HK_UNEXPECTED_RELADDR_RET_EID s1 tr2
      else case cfs_call env (Cfs_TBL_Update HK_CopyTable_Handle) tr2 of (status, tr3) \<Rightarrow>
      if status \<noteq> CFE_SUCCESS then hk_unexpected HK_UNEXPECTED_TBLUPD_RET_EID s1 tr3
      else case cfs_call env (Cfs_TBL_GetAddress HK_CopyTable_Handle) tr3 of (status, tr4) \<Rightarrow>
      let s2 = s1\<lparr>hk_CopyTable := ht_CopyTable tb tr4\<rparr> in
      if status \<noteq> CFE_TBL_INFO_UPDATED then hk_unexpected HK_UNEXPECTED_GETADDR_RET_EID s2 tr4
      else case HK_ProcessNewCopyTable env s2 tr4 of (ok, s3, tr5) \<Rightarrow>
      if ok then (HK_SUCCESS, s3, tr5) else hk_unexpected HK_NEWCPYTBL_HK_FAILED_EID s3 tr5)"

definition HK_CheckStatusOfCopyTable :: "Cfs_Env \<Rightarrow> HK_Tables \<Rightarrow> HK_AppData \<Rightarrow> Cfs_Trace \<Rightarrow>
    HK_Status \<times> HK_AppData \<times> Cfs_Trace" where
  "HK_CheckStatusOfCopyTable env tb s tr =
     (case cfs_call env (Cfs_TBL_GetStatus HK_CopyTable_Handle) tr of (status, tr1) \<Rightarrow>
      if status = CFE_TBL_INFO_VALIDATION_PENDING
      then case cfs_call env (Cfs_TBL_Validate HK_CopyTable_Handle) tr1 of (status, tr2) \<Rightarrow>
        (HK_SUCCESS, s, if status \<noteq> CFE_SUCCESS then cfs_event HK_UNEXPECTED_TBLVLD_RET_EID EVS_ERROR tr2 else tr2)
      else if status = CFE_TBL_INFO_UPDATE_PENDING then update_copy_table env tb s tr1
      else if status \<noteq> CFE_SUCCESS then hk_unexpected HK_UNEXPECTED_GETSTAT_RET_EID s tr1
      else (HK_SUCCESS, s, tr1))"

definition HK_CheckStatusOfDumpTable :: "Cfs_Env \<Rightarrow> HK_AppData \<Rightarrow> Cfs_Trace \<Rightarrow>
    HK_Status \<times> HK_AppData \<times> Cfs_Trace" where
  "HK_CheckStatusOfDumpTable env s tr =
     (case cfs_call env (Cfs_TBL_GetStatus HK_RuntimeTable_Handle) tr of (status, tr1) \<Rightarrow>
      if status = CFE_TBL_INFO_DUMP_PENDING
      then case cfs_call env (Cfs_TBL_DumpToBuffer HK_RuntimeTable_Handle) tr1 of (status, tr2) \<Rightarrow>
        if status \<noteq> CFE_SUCCESS then hk_unexpected HK_UNEXPECTED_DUMPTOBUFFER_RET_EID s tr2
        else (HK_SUCCESS, s, tr2)
      else if status \<noteq> CFE_SUCCESS then hk_unexpected HK_UNEXPECTED_GETSTAT2_RET_EID s tr1
      else (HK_SUCCESS, s, tr1))"

definition HK_CheckStatusOfTables :: "Cfs_Env \<Rightarrow> HK_Tables \<Rightarrow> HK_AppData \<Rightarrow> Cfs_Trace \<Rightarrow>
    HK_Status \<times> HK_AppData \<times> Cfs_Trace" where
  "HK_CheckStatusOfTables env tb s tr =
     (case HK_CheckStatusOfCopyTable env tb s tr of (status, s1, tr1) \<Rightarrow>
        if status = HK_SUCCESS then HK_CheckStatusOfDumpTable env s1 tr1 else (status, s1, tr1))"

text \<open>The two callers of the check: any failure ends the application.\<close>

definition check_tables :: "Cfs_Env \<Rightarrow> HK_Tables \<Rightarrow> HK_AppData \<Rightarrow> Cfs_Trace \<Rightarrow> HK_AppData \<times> Cfs_Trace" where
  "check_tables env tb s tr =
     (case HK_CheckStatusOfTables env tb s tr of (status, s1, tr1) \<Rightarrow>
        (if status \<noteq> HK_SUCCESS then s1\<lparr>hk_RunStatus := HK_APP_ERROR\<rparr> else s1, tr1))"

section \<open>Commands\<close>

definition HK_HkTlm_Payload_size :: nat where "HK_HkTlm_Payload_size = 12"

text \<open>The payload of the housekeeping packet, padding included, as the little-endian target stores it.\<close>

definition hk_payload :: "HK_AppData \<Rightarrow> u8 list" where
  "hk_payload s = [hk_CmdCounter s, hk_ErrCounter s] @ le16 0 @ le16 (hk_CombinedPacketsSent s) @
     le16 (hk_MissingDataCtr s) @ le32 (hk_MemPoolHandle s)"

definition HK_SendHkCmd :: "Cfs_Env \<Rightarrow> HK_AppData \<Rightarrow> Cfs_Trace \<Rightarrow> HK_AppData \<times> Cfs_Trace" where
  "HK_SendHkCmd env s tr =
     (let p = cf_TimeStamp env tr (take (cf_TlmHeader env) (hk_HkPacket s) @ hk_payload s)
      in (s\<lparr>hk_HkPacket := p\<rparr>, cfs_transmit p tr))"

definition HK_SendCombinedPktCmd :: "Cfs_Env \<Rightarrow> u8 list \<Rightarrow> HK_AppData \<Rightarrow> Cfs_Trace \<Rightarrow>
    (HK_AppData \<times> Cfs_Trace) run" where
  "HK_SendCombinedPktCmd env buf = HK_SendCombinedHkPacket env (read_le32 buf (cf_CmdHeader env))"

definition HK_NoopCmd :: "HK_AppData \<Rightarrow> Cfs_Trace \<Rightarrow> HK_AppData \<times> Cfs_Trace" where
  "HK_NoopCmd s tr = (s\<lparr>hk_CmdCounter := hk_CmdCounter s + 1\<rparr>, cfs_event HK_NOOP_INF_EID EVS_INFORMATION tr)"

definition HK_ResetCountersCmd :: "HK_AppData \<Rightarrow> Cfs_Trace \<Rightarrow> HK_AppData \<times> Cfs_Trace" where
  "HK_ResetCountersCmd s tr = (HK_ResetHkData s, cfs_event HK_RESET_INF_EID EVS_INFORMATION tr)"

definition HK_VerifyCmdLength :: "u8 list \<Rightarrow> nat \<Rightarrow> Cfs_Trace \<Rightarrow> HK_Status \<times> Cfs_Trace" where
  "HK_VerifyCmdLength buf n tr =
     (if n \<noteq> length buf then (HK_BAD_MSG_LENGTH_RC, cfs_event HK_CMD_LEN_ERR_EID EVS_ERROR tr)
      else (HK_SUCCESS, tr))"

definition HK_VerifyMsgLength :: "u8 list \<Rightarrow> nat \<Rightarrow> Cfs_Trace \<Rightarrow> HK_Status \<times> Cfs_Trace" where
  "HK_VerifyMsgLength buf n tr =
     (if n \<noteq> length buf then (HK_BAD_MSG_LENGTH_RC, cfs_event HK_MSG_LEN_ERR_EID EVS_ERROR tr)
      else (HK_SUCCESS, tr))"

definition HK_SendCombinedPktVerifyDispatch :: "Cfs_Env \<Rightarrow> u8 list \<Rightarrow> HK_AppData \<Rightarrow> Cfs_Trace \<Rightarrow>
    (HK_AppData \<times> Cfs_Trace) run" where
  "HK_SendCombinedPktVerifyDispatch env buf s tr =
     (case HK_VerifyMsgLength buf (cf_CmdHeader env + 4) tr of (status, tr1) \<Rightarrow>
        if status = HK_SUCCESS then HK_SendCombinedPktCmd env buf s tr1 else Returns (s, tr1))"

definition HK_SendHkVerifyDispatch :: "Cfs_Env \<Rightarrow> u8 list \<Rightarrow> HK_AppData \<Rightarrow> Cfs_Trace \<Rightarrow>
    HK_AppData \<times> Cfs_Trace" where
  "HK_SendHkVerifyDispatch env buf s tr =
     (case HK_VerifyMsgLength buf (cf_CmdHeader env) tr of (status, tr1) \<Rightarrow>
        if status = HK_SUCCESS then HK_SendHkCmd env s tr1 else (s, tr1))"

definition HK_NoopVerifyDispatch :: "Cfs_Env \<Rightarrow> u8 list \<Rightarrow> HK_AppData \<Rightarrow> Cfs_Trace \<Rightarrow>
    HK_AppData \<times> Cfs_Trace" where
  "HK_NoopVerifyDispatch env buf s tr =
     (case HK_VerifyCmdLength buf (cf_CmdHeader env) tr of (status, tr1) \<Rightarrow>
        if status = HK_SUCCESS then HK_NoopCmd s tr1 else (s\<lparr>hk_ErrCounter := hk_ErrCounter s + 1\<rparr>, tr1))"

definition HK_ResetCountersVerifyDispatch :: "Cfs_Env \<Rightarrow> u8 list \<Rightarrow> HK_AppData \<Rightarrow> Cfs_Trace \<Rightarrow>
    HK_AppData \<times> Cfs_Trace" where
  "HK_ResetCountersVerifyDispatch env buf s tr =
     (case HK_VerifyCmdLength buf (cf_CmdHeader env) tr of (status, tr1) \<Rightarrow>
        if status = HK_SUCCESS then HK_ResetCountersCmd s tr1
        else (s\<lparr>hk_ErrCounter := hk_ErrCounter s + 1\<rparr>, tr1))"

definition HK_AppPipe :: "Cfs_Env \<Rightarrow> HK_Tables \<Rightarrow> u8 list \<Rightarrow> HK_AppData \<Rightarrow> Cfs_Trace \<Rightarrow>
    (HK_AppData \<times> Cfs_Trace) run" where
  "HK_AppPipe env tb buf s tr =
     (let mid = cf_MsgId env buf in
      if mid = HK_SEND_COMBINED_PKT_MID then HK_SendCombinedPktVerifyDispatch env buf s tr
      else if mid = HK_SEND_HK_MID
      then (case HK_SendHkVerifyDispatch env buf s tr of (s1, tr1) \<Rightarrow> Returns (check_tables env tb s1 tr1))
      else if mid = HK_CMD_MID
      then (let cc = cf_FcnCode env buf in
        if cc = HK_NOOP_CC then Returns (HK_NoopVerifyDispatch env buf s tr)
        else if cc = HK_RESET_COUNTERS_CC then Returns (HK_ResetCountersVerifyDispatch env buf s tr)
        else Returns (s\<lparr>hk_ErrCounter := hk_ErrCounter s + 1\<rparr>, cfs_event HK_CC_ERR_EID EVS_ERROR tr))
      else HK_ProcessIncomingHkData env buf s tr)"

section \<open>Start and main loop\<close>

definition HK_TableInit :: "Cfs_Env \<Rightarrow> HK_Tables \<Rightarrow> HK_AppData \<Rightarrow> Cfs_Trace \<Rightarrow>
    CFE_Status \<times> HK_AppData \<times> Cfs_Trace" where
  "HK_TableInit env tb s tr =
     cfs_or env (Cfs_TBL_Register HK_CopyTable_Handle) CFE_SUCCESS (cfs_event HK_CPTBL_REG_ERR_EID EVS_ERROR)
    (cfs_or env (Cfs_TBL_Register HK_RuntimeTable_Handle) CFE_SUCCESS (cfs_event HK_RTTBL_REG_ERR_EID EVS_ERROR)
    (cfs_or env (Cfs_TBL_Load HK_CopyTable_Handle) CFE_SUCCESS (cfs_event HK_CPTBL_LD_ERR_EID EVS_ERROR)
    (cfs_or env (Cfs_TBL_Manage HK_CopyTable_Handle) CFE_SUCCESS (cfs_event HK_CPTBL_MNG_ERR_EID EVS_ERROR)
    (cfs_or env (Cfs_TBL_Manage HK_RuntimeTable_Handle) CFE_SUCCESS (cfs_event HK_RTTBL_MNG_ERR_EID EVS_ERROR)
    (\<lambda>tr1. case cfs_call env (Cfs_TBL_GetAddress HK_CopyTable_Handle) tr1 of (status, tr2) \<Rightarrow>
       let s1 = s\<lparr>hk_CopyTable := ht_CopyTable tb tr2\<rparr> in
       if status \<noteq> CFE_TBL_INFO_UPDATED then (status, s1, cfs_event HK_CPTBL_GADR_ERR_EID EVS_ERROR tr2)
       else case cfs_call env (Cfs_TBL_GetAddress HK_RuntimeTable_Handle) tr2 of (status, tr3) \<Rightarrow>
       let s2 = s1\<lparr>hk_RuntimeTable := ht_RuntimeTable tb tr3\<rparr> in
       if status \<noteq> CFE_SUCCESS then (status, s2, cfs_event HK_RTTBL_GADR_ERR_EID EVS_ERROR tr3)
       else case HK_ProcessNewCopyTable env s2 tr3 of (ok, s3, tr4) \<Rightarrow>
       if ok then (CFE_SUCCESS, s3, tr4)
       else (Status_Code (-1), s3, cfs_event HK_NEWCPYTBL_INIT_FAILED_EID EVS_ERROR tr4)) s) s) s) s) s tr"

definition HK_AppInit :: "Cfs_Env \<Rightarrow> HK_Tables \<Rightarrow> HK_AppData \<Rightarrow> Cfs_Trace \<Rightarrow>
    CFE_Status \<times> HK_AppData \<times> Cfs_Trace" where
  "HK_AppInit env tb s tr =
     (let s1 = s\<lparr>hk_RunStatus := HK_APP_RUN,
                hk_HkPacket := cf_MsgInit env HK_HK_TLM_MID (cf_TlmHeader env + HK_HkTlm_Payload_size)\<rparr>
      in cfs_or env Cfs_EVS_Register CFE_SUCCESS cfs_log
        (cfs_or env (Cfs_SB_CreatePipe HK_PIPE_DEPTH) CFE_SUCCESS (cfs_event HK_CR_PIPE_ERR_EID EVS_ERROR)
        (cfs_or env (Cfs_SB_Subscribe HK_SEND_COMBINED_PKT_MID) CFE_SUCCESS (cfs_event HK_SUB_CMB_ERR_EID EVS_ERROR)
        (cfs_or env (Cfs_SB_Subscribe HK_SEND_HK_MID) CFE_SUCCESS (cfs_event HK_SUB_REQ_ERR_EID EVS_ERROR)
        (cfs_or env (Cfs_SB_Subscribe HK_CMD_MID) CFE_SUCCESS (cfs_event HK_SUB_CMD_ERR_EID EVS_ERROR)
        (cfs_or env (Cfs_ES_PoolCreate HK_NUM_BYTES_IN_MEM_POOL) CFE_SUCCESS (cfs_event HK_CR_POOL_ERR_EID EVS_ERROR)
        (\<lambda>tr1. case HK_TableInit env tb (HK_ResetHkData (s1\<lparr>hk_MemPoolHandle := ht_PoolHandle tb\<rparr>)) tr1 of
           (status, s2, tr2) \<Rightarrow>
             if status \<noteq> CFE_SUCCESS then (status, s2, tr2)
             else case cfs_call env (Cfs_EVS_SendInit HK_INIT_INF_EID) tr2 of (status, tr3) \<Rightarrow>
               (status, s2, if status \<noteq> CFE_SUCCESS then cfs_log tr3 else tr3)) s1) s1) s1) s1) s1) s1 tr)"

datatype HK_Input = HK_Received "u8 list" | HK_Timed_Out | HK_Receive_Error | HK_Shutdown

fun hk_loop_step :: "Cfs_Env \<Rightarrow> HK_Tables \<Rightarrow> HK_Input \<Rightarrow> HK_AppData \<Rightarrow> Cfs_Trace \<Rightarrow>
    (HK_AppData \<times> Cfs_Trace) run" where
  "hk_loop_step env tb (HK_Received buf) s tr = HK_AppPipe env tb buf s tr"
| "hk_loop_step env tb HK_Timed_Out s tr = Returns (check_tables env tb s tr)"
| "hk_loop_step env tb HK_Receive_Error s tr =
     Returns (s\<lparr>hk_RunStatus := HK_APP_ERROR\<rparr>, cfs_log (cfs_event HK_RCV_MSG_ERR_EID EVS_ERROR tr))"
| "hk_loop_step env tb HK_Shutdown s tr = Returns (s, tr)"

fun hk_run_loop :: "Cfs_Env \<Rightarrow> HK_Tables \<Rightarrow> HK_Input list \<Rightarrow> HK_AppData \<Rightarrow> Cfs_Trace \<Rightarrow>
    (HK_AppData \<times> Cfs_Trace) run" where
  "hk_run_loop env tb [] s tr = (if hk_RunStatus s = HK_APP_RUN then Blocked else Returns (s, tr))"
| "hk_run_loop env tb (i # is) s tr =
     (if hk_RunStatus s \<noteq> HK_APP_RUN \<or> i = HK_Shutdown then Returns (s, tr)
      else run_bind (hk_loop_step env tb i s tr) (\<lambda>(s', tr'). hk_run_loop env tb is s' tr'))"

definition HK_AppMain :: "Cfs_Env \<Rightarrow> HK_Tables \<Rightarrow> HK_Input list \<Rightarrow> HK_AppData \<Rightarrow>
    (HK_AppData \<times> Cfs_Trace) run" where
  "HK_AppMain env tb is s =
     (case HK_AppInit env tb s [] of (status, s1, tr) \<Rightarrow>
        hk_run_loop env tb is (if status \<noteq> CFE_SUCCESS then s1\<lparr>hk_RunStatus := HK_APP_ERROR\<rparr> else s1) tr)"

end
