(* ===== verification/Hk_Packets.thy ===== *)
theory Hk_Packets
  imports Hk_App
begin

text \<open>
  What HK promises about combined packets: the effect of one input packet on the pool, the invariant
  between the copy table, the runtime table and the pool, and what a combined packet holds after any
  cycle of input packets and send commands.
\<close>

section \<open>What one input packet changes\<close>

abbreviation in_off :: "hk_copy_table_entry \<Rightarrow> nat" where "in_off c \<equiv> unat (ce_InputOffset c)"
abbreviation out_off :: "hk_copy_table_entry \<Rightarrow> nat" where "out_off c \<equiv> unat (ce_OutputOffset c)"
abbreviation num :: "hk_copy_table_entry \<Rightarrow> nat" where "num c \<equiv> unat (ce_NumBytes c)"

definition slice :: "nat \<Rightarrow> nat \<Rightarrow> 'a list \<Rightarrow> 'a list" where
  "slice off n p = take n (drop off p)"

definition apart :: "nat \<Rightarrow> nat \<Rightarrow> nat \<Rightarrow> nat \<Rightarrow> bool" where
  "apart o1 n1 o2 n2 \<longleftrightarrow> o1 + n1 \<le> o2 \<or> o2 + n2 \<le> o1"

text \<open>An entry takes part of a packet: the ids match and the packet is long enough.\<close>

definition takes :: "Cfs_Env \<Rightarrow> hk_copy_table_entry \<Rightarrow> u8 list \<Rightarrow> bool" where
  "takes env c m \<longleftrightarrow> cf_MsgId env m = ce_InputMid c \<and> in_off c + num c \<le> length m"

lemma slice_other:
  assumes "mem_write p off b = Some p'" "apart off (length b) o2 n2"
  shows "slice o2 n2 p' = slice o2 n2 p"
proof -
  have le: "off + length b \<le> length p" and p': "p' = take off p @ b @ drop (off + length b) p"
    using assms(1) by (auto simp: mem_write_def split: if_splits)
  from assms(2) consider "off + length b \<le> o2" | "o2 + n2 \<le> off" by (auto simp: apart_def)
  then show ?thesis
  proof cases
    case 1
    then have "drop o2 p' = drop o2 p" using le by (simp add: p')
    then show ?thesis by (simp add: slice_def)
  next
    case 2
    then have "o2 \<le> length (take off p)" "n2 \<le> length (drop o2 (take off p))" using le by simp_all
    then have "slice o2 n2 p' = take n2 (drop o2 (take off p))" by (simp add: slice_def p')
    also have "\<dots> = slice o2 n2 p" using 2 by (simp add: slice_def drop_take min_def)
    finally show ?thesis .
  qed
qed

lemma slice_same: "mem_write p off b = Some p' \<Longrightarrow> slice off (length b) p' = b"
  by (auto simp: mem_write_def slice_def split: if_splits)

text \<open>The addresses the loop writes to hold packets in which the entries fit.\<close>

definition fits :: "Pool \<Rightarrow> hk_copy_table_entry \<times> hk_runtime_tbl_entry \<Rightarrow> bool" where
  "fits pool cr = (case re_OutputPktAddr (snd cr) of None \<Rightarrow> False
     | Some a \<Rightarrow> (case pool a of None \<Rightarrow> False
         | Some p \<Rightarrow> out_off (fst cr) + num (fst cr) \<le> length p))"

definition pool_shape :: "Pool \<Rightarrow> nat \<Rightarrow> nat option" where
  "pool_shape pool a = map_option length (pool a)"

lemma fits_shape: "pool_shape pool' = pool_shape pool \<Longrightarrow> fits pool' cr = fits pool cr"
proof -
  assume s: "pool_shape pool' = pool_shape pool"
  have "map_option length (pool' a) = map_option length (pool a)" for a
    using fun_cong [OF s, of a] by (simp add: pool_shape_def)
  then show ?thesis
    by (auto simp: fits_def split: option.splits) (metis option.map(2) option.sel option.discI option.map_disc_iff)+
qed

lemma pool_write_fits:
  assumes "fits pool (c, r)" "length b = num c"
  shows "\<exists>a p p'. re_OutputPktAddr r = Some a \<and> pool a = Some p \<and> mem_write p (out_off c) b = Some p' \<and>
    pool_write pool (re_OutputPktAddr r) (out_off c) b = Some (pool(a \<mapsto> p'))"
  using assms by (auto simp: fits_def pool_write_def mem_write_def split: option.splits)

lemma pool_write_shape:
  "pool a = Some p \<Longrightarrow> mem_write p off b = Some p' \<Longrightarrow> pool_shape (pool(a \<mapsto> p')) = pool_shape pool"
  by (auto simp: pool_shape_def fun_eq_iff dest: mem_write_length)

lemma incoming_loop_spec:
  assumes "length cs = length rs"
    and "\<forall>(c, r) \<in> set (zip cs rs). takes env c m \<longrightarrow> fits pool (c, r)"
    and "sorted_wrt (\<lambda>(c, r) (c', r'). takes env c m \<and> takes env c' m \<and>
      re_OutputPktAddr r = re_OutputPktAddr r' \<longrightarrow> apart (out_off c) (num c) (out_off c') (num c')) (zip cs rs)"
  shows "\<exists>pool' errs'. incoming_loop (cf_MsgId env m) m cs rs pool errs = Returns
      (map2 (\<lambda>c r. if takes env c m then r\<lparr>re_DataPresent := HK_DATA_PRESENT\<rparr> else r) cs rs, pool', errs') \<and>
    pool_shape pool' = pool_shape pool \<and>
    (\<forall>a off n. (\<forall>(c, r) \<in> set (zip cs rs). takes env c m \<and> re_OutputPktAddr r = Some a \<longrightarrow>
        apart (out_off c) (num c) off n) \<longrightarrow> map_option (slice off n) (pool' a) = map_option (slice off n) (pool a)) \<and>
    (\<forall>(c, r) \<in> set (zip cs rs). takes env c m \<longrightarrow>
        map_option (slice (out_off c) (num c)) (pool' (the (re_OutputPktAddr r))) = Some (slice (in_off c) (num c) m))"
  using assms
proof (induction cs rs arbitrary: pool errs rule: list_induct2)
  case Nil
  then show ?case by simp
next
  case (Cons c cs r rs)
  have apart_tl: "apart (out_off c) (num c) (out_off c') (num c')"
    if "takes env c m" "takes env c' m" "(c', r') \<in> set (zip cs rs)" "re_OutputPktAddr r = re_OutputPktAddr r'" for c' r'
    using Cons.prems(2) that by auto
  show ?case
  proof (cases "takes env c m")
    case False
    define e1 where "e1 = (if cf_MsgId env m = ce_InputMid c then Suc errs else errs)"
    have e1: "incoming_loop (cf_MsgId env m) m (c # cs) (r # rs) pool errs =
        run_bind (incoming_loop (cf_MsgId env m) m cs rs pool e1) (\<lambda>(rs', p, e). Returns (r # rs', p, e))"
      using False by (auto simp: takes_def e1_def)
    obtain pool' errs' where "incoming_loop (cf_MsgId env m) m cs rs pool e1 = Returns
      (map2 (\<lambda>c r. if takes env c m then r\<lparr>re_DataPresent := HK_DATA_PRESENT\<rparr> else r) cs rs, pool', errs')"
      "pool_shape pool' = pool_shape pool"
      "\<forall>a off n. (\<forall>(c, r) \<in> set (zip cs rs). takes env c m \<and> re_OutputPktAddr r = Some a \<longrightarrow>
        apart (out_off c) (num c) off n) \<longrightarrow> map_option (slice off n) (pool' a) = map_option (slice off n) (pool a)"
      "\<forall>(c, r) \<in> set (zip cs rs). takes env c m \<longrightarrow>
        map_option (slice (out_off c) (num c)) (pool' (the (re_OutputPktAddr r))) = Some (slice (in_off c) (num c) m)"
      using Cons.IH [of pool e1] Cons.prems by auto
    with e1 False show ?thesis by auto
  next
    case True
    let ?b = "slice (in_off c) (num c) m"
    have len: "length ?b = num c" using True by (auto simp: takes_def slice_def min_def)
    have fits_head: "fits pool (c, r)" using Cons.prems(1) True by simp
    obtain a p p1 where w: "re_OutputPktAddr r = Some a" "pool a = Some p" "mem_write p (out_off c) ?b = Some p1"
      "pool_write pool (re_OutputPktAddr r) (out_off c) ?b = Some (pool(a \<mapsto> p1))"
      using pool_write_fits [OF fits_head len] by auto
    let ?pool = "pool(a \<mapsto> p1)"
    have shape: "pool_shape ?pool = pool_shape pool" using w(2,3) by (rule pool_write_shape)
    have step: "incoming_loop (cf_MsgId env m) m (c # cs) (r # rs) pool errs =
        run_bind (incoming_loop (cf_MsgId env m) m cs rs ?pool errs)
          (\<lambda>(rs', p, e). Returns (r\<lparr>re_DataPresent := HK_DATA_PRESENT\<rparr> # rs', p, e))"
      using True w(4) by (simp add: takes_def mem_read_def slice_def)
    have tl: "\<forall>(c, r) \<in> set (zip cs rs). takes env c m \<longrightarrow> fits ?pool (c, r)"
      using Cons.prems(1) fits_shape [OF shape] by simp
    have srt: "sorted_wrt (\<lambda>(c, r) (c', r'). takes env c m \<and> takes env c' m \<and>
      re_OutputPktAddr r = re_OutputPktAddr r' \<longrightarrow> apart (out_off c) (num c) (out_off c') (num c')) (zip cs rs)"
      using Cons.prems(2) by simp
    obtain pool' errs' where IH: "incoming_loop (cf_MsgId env m) m cs rs ?pool errs = Returns
      (map2 (\<lambda>c r. if takes env c m then r\<lparr>re_DataPresent := HK_DATA_PRESENT\<rparr> else r) cs rs, pool', errs')"
      "pool_shape pool' = pool_shape ?pool"
      "\<forall>a off n. (\<forall>(c, r) \<in> set (zip cs rs). takes env c m \<and> re_OutputPktAddr r = Some a \<longrightarrow>
        apart (out_off c) (num c) off n) \<longrightarrow> map_option (slice off n) (pool' a) = map_option (slice off n) (?pool a)"
      "\<forall>(c, r) \<in> set (zip cs rs). takes env c m \<longrightarrow>
        map_option (slice (out_off c) (num c)) (pool' (the (re_OutputPktAddr r))) = Some (slice (in_off c) (num c) m)"
      using Cons.IH [of ?pool errs, OF tl srt] by (elim exE conjE) (rule that; assumption)
    note IH3 = IH(3) [rule_format]
    have own: "map_option (slice (out_off c) (num c)) (pool' a) = Some ?b"
    proof -
      have "map_option (slice (out_off c) (num c)) (pool' a) = map_option (slice (out_off c) (num c)) (?pool a)"
        using apart_tl [OF True] w(1) by (intro IH3) (force simp: apart_def)
      then show ?thesis using slice_same [OF w(3)] len by simp
    qed
    have other: "map_option (slice off n) (pool' b) = map_option (slice off n) (pool b)"
      if "\<forall>(c', r') \<in> set (zip (c # cs) (r # rs)). takes env c' m \<and> re_OutputPktAddr r' = Some b \<longrightarrow>
        apart (out_off c') (num c') off n" for b off n
    proof -
      have "map_option (slice off n) (pool' b) = map_option (slice off n) (?pool b)"
        using that by (intro IH3) auto
      also have "\<dots> = map_option (slice off n) (pool b)"
        using that True w len slice_other [OF w(3), of off n] by auto
      finally show ?thesis .
    qed
    show ?thesis using step IH(1,2,4) own other True w(1) shape by auto
  qed
qed

section \<open>What the tables keep\<close>

lemma length_table_updates [simp]:
  "length cs = length rs \<Longrightarrow> length (assign_packet cs mid a rs) = length rs"
  "length cs = length rs \<Longrightarrow> length (mark_input cs mid f rs) = length rs"
  "length cs = length rs \<Longrightarrow> length (clear_packet cs mid a rs) = length rs"
  "length cs = length rs \<Longrightarrow> length (HK_SetFlagsToNotPresent mid cs rs) = length rs"
  "length (fresh_runtime rs) = length rs"
  by (simp_all add: assign_packet_def mark_input_def clear_packet_def HK_SetFlagsToNotPresent_def fresh_runtime_def)

lemma nth_table_updates [simp]:
  assumes "length cs = length rs" "i < length rs"
  shows "assign_packet cs mid a rs ! i =
      (if ce_OutputMid (cs ! i) = mid then (rs ! i)\<lparr>re_OutputPktAddr := Some a\<rparr> else rs ! i)"
    "mark_input cs mid f rs ! i =
      (if ce_InputMid (cs ! i) = mid then (rs ! i)\<lparr>re_InputMidSubscribed := f\<rparr> else rs ! i)"
    "clear_packet cs mid a rs ! i =
      (if ce_OutputMid (cs ! i) = mid \<and> re_OutputPktAddr (rs ! i) = Some a
       then (rs ! i)\<lparr>re_OutputPktAddr := None\<rparr> else rs ! i)"
    "HK_SetFlagsToNotPresent mid cs rs ! i =
      (if re_OutputPktAddr (rs ! i) \<noteq> None \<and> ce_OutputMid (cs ! i) = mid
       then (rs ! i)\<lparr>re_DataPresent := HK_DATA_NOT_PRESENT\<rparr> else rs ! i)"
  using assms
  by (simp_all add: assign_packet_def mark_input_def clear_packet_def HK_SetFlagsToNotPresent_def)

text \<open>
  Entries for the same output packet share its address and no others do; the address holds a packet
  of the right size and id; the addresses in the table are the pool buffers in use; entries with the
  same input id agree on the subscription.
\<close>

definition tables_ok :: "Cfs_Env \<Rightarrow> Copy_Table \<Rightarrow> Runtime_Table \<Rightarrow> Pool \<Rightarrow> Cfs_Trace \<Rightarrow> bool" where
  "tables_ok env cs rs pool tr \<longleftrightarrow> length cs = length rs \<and>
     (\<forall>i < length rs. \<forall>j < length rs. ce_OutputMid (cs ! i) = ce_OutputMid (cs ! j) \<longrightarrow>
        re_OutputPktAddr (rs ! i) = re_OutputPktAddr (rs ! j)) \<and>
     (\<forall>i < length rs. \<forall>j < length rs. \<forall>a. re_OutputPktAddr (rs ! i) = Some a \<longrightarrow>
        re_OutputPktAddr (rs ! j) = Some a \<longrightarrow> ce_OutputMid (cs ! i) = ce_OutputMid (cs ! j)) \<and>
     (\<forall>i < length rs. \<forall>j < length rs. ce_InputMid (cs ! i) = ce_InputMid (cs ! j) \<longrightarrow>
        re_InputMidSubscribed (rs ! i) = re_InputMidSubscribed (rs ! j)) \<and>
     (\<forall>i < length rs. \<forall>a. re_OutputPktAddr (rs ! i) = Some a \<longrightarrow>
        (\<exists>p. pool a = Some p \<and> length p = packet_size cs (ce_OutputMid (cs ! i)))) \<and>
     (\<forall>a. a \<in> set (pool_live tr) \<longleftrightarrow> (\<exists>i < length rs. re_OutputPktAddr (rs ! i) = Some a))"

lemma tables_okD:
  assumes "tables_ok env cs rs pool tr"
  shows "length cs = length rs"
    "\<And>i j. i < length rs \<Longrightarrow> j < length rs \<Longrightarrow> ce_OutputMid (cs ! i) = ce_OutputMid (cs ! j) \<Longrightarrow>
       re_OutputPktAddr (rs ! i) = re_OutputPktAddr (rs ! j)"
    "\<And>i j a. i < length rs \<Longrightarrow> j < length rs \<Longrightarrow> re_OutputPktAddr (rs ! i) = Some a \<Longrightarrow>
       re_OutputPktAddr (rs ! j) = Some a \<Longrightarrow> ce_OutputMid (cs ! i) = ce_OutputMid (cs ! j)"
    "\<And>i j. i < length rs \<Longrightarrow> j < length rs \<Longrightarrow> ce_InputMid (cs ! i) = ce_InputMid (cs ! j) \<Longrightarrow>
       re_InputMidSubscribed (rs ! i) = re_InputMidSubscribed (rs ! j)"
    "\<And>i a. i < length rs \<Longrightarrow> re_OutputPktAddr (rs ! i) = Some a \<Longrightarrow>
       \<exists>p. pool a = Some p \<and> length p = packet_size cs (ce_OutputMid (cs ! i))"
    "\<And>a. a \<in> set (pool_live tr) \<longleftrightarrow> (\<exists>i < length rs. re_OutputPktAddr (rs ! i) = Some a)"
  using assms unfolding tables_ok_def by (elim conjE, assumption | blast)+

lemma pool_live_other [simp]:
  "pool_live (cfs_event e ty tr) = pool_live tr"
  "pool_live (snd (cfs_call env v tr)) = pool_live tr"
  by (simp_all add: cfs_event_def cfs_call_def)

lemma packet_size_mono:
  "n \<le> foldl (\<lambda>size c. if ce_OutputMid c = mid \<and> out_off c + num c > size
     then out_off c + num c else size) n cs"
proof (induction cs arbitrary: n)
  case Nil
  then show ?case by simp
next
  case (Cons c cs)
  show ?case
  proof (cases "ce_OutputMid c = mid \<and> out_off c + num c > n")
    case True
    with Cons [of "out_off c + num c"] show ?thesis by simp
  next
    case False
    then show ?thesis using Cons [of n] by (simp only: foldl_Cons if_False)
  qed
qed

lemma packet_size_bound:
  assumes "c \<in> set cs"
  shows "out_off c + num c \<le> packet_size cs (ce_OutputMid c)"
proof -
  obtain as bs where cs: "cs = as @ c # bs" using split_list [OF assms] by blast
  define f where "f = (\<lambda>size c'. if ce_OutputMid c' = ce_OutputMid c \<and> out_off c' + num c' > size
      then out_off c' + num c' else size)"
  have "out_off c + num c \<le> f (foldl f 0 as) c" by (simp add: f_def)
  also have "\<dots> \<le> foldl f (f (foldl f 0 as) c) bs" unfolding f_def by (rule packet_size_mono)
  also have "\<dots> = packet_size cs (ce_OutputMid c)" by (simp add: packet_size_def cs f_def)
  finally show ?thesis .
qed

lemma tables_ok_build:
  assumes "tables_ok env cs rs pool tr" "cfs_env_ok env" "i < length rs"
    "build_packet env cs i (rs, pool, tr) = (rs', pool', tr')"
  shows "tables_ok env cs rs' pool' tr'"
proof -
  note ok = tables_okD [OF assms(1)]
  let ?o = "ce_OutputMid (cs ! i)"
  obtain result a where g: "cf_GetPoolBuf env tr (packet_size cs ?o) = (result, a)" by force
  let ?tr1 = "tr @ [Cfs_GetPoolBuf (packet_size cs ?o) result a]"
  show ?thesis
  proof (cases "(cf_IsValidMsgId env ?o \<and> cf_IsValidMsgId env (ce_InputMid (cs ! i)) \<and>
      re_OutputPktAddr (rs ! i) = None) \<and> 0 < packet_size cs ?o \<and> 0 \<le> result")
    case True
    then have eq: "(rs', pool', tr') =
        (assign_packet cs ?o a rs, pool(a \<mapsto> cf_MsgInit env ?o (packet_size cs ?o)), ?tr1)"
      using assms(4) g by (simp add: build_packet_def Let_def)
    let ?rs = "assign_packet cs ?o a rs"
    have res: "0 \<le> result" using True by simp
    have fresh: "a \<notin> set (pool_live tr)" using cfs_env_okD(1) [OF assms(2) g res] .
    have other: "re_OutputPktAddr (rs ! j) \<noteq> Some a" if "j < length rs" for j using fresh ok(6) that by blast
    have none: "re_OutputPktAddr (rs ! j) = None" if "j < length rs" "ce_OutputMid (cs ! j) = ?o" for j
      using ok(2) [OF that(1) assms(3) that(2)] True by simp
    have nth: "re_OutputPktAddr (?rs ! j) = (if ce_OutputMid (cs ! j) = ?o then Some a else re_OutputPktAddr (rs ! j))"
      "re_InputMidSubscribed (?rs ! j) = re_InputMidSubscribed (rs ! j)" if "j < length rs" for j
      using that ok(1) by simp_all
    have live: "b \<in> set (pool_live ?tr1) \<longleftrightarrow> (\<exists>j < length rs. re_OutputPktAddr (?rs ! j) = Some b)" for b
    proof (cases "b = a")
      case True
      with nth(1) [OF assms(3)] assms(3) res show ?thesis by auto
    next
      case False
      have "re_OutputPktAddr (?rs ! j) = Some b \<longleftrightarrow> re_OutputPktAddr (rs ! j) = Some b" if "j < length rs" for j
        using nth(1) [OF that] none [OF that] False by simp
      with ok(6) [of b] False res show ?thesis by auto
    qed
    have "tables_ok env cs ?rs (pool(a \<mapsto> cf_MsgInit env ?o (packet_size cs ?o))) ?tr1"
      unfolding tables_ok_def length_table_updates(1) [OF ok(1)]
    proof (intro conjI allI impI)
      show "length cs = length rs" by (rule ok(1))
    next
      fix j k assume j: "j < length rs" and k: "k < length rs" and eq: "ce_OutputMid (cs ! j) = ce_OutputMid (cs ! k)"
      show "re_OutputPktAddr (?rs ! j) = re_OutputPktAddr (?rs ! k)"
        using eq ok(2) [OF j k] nth(1) [OF j] nth(1) [OF k] by simp
    next
      fix j k b assume j: "j < length rs" and k: "k < length rs"
        and eq: "re_OutputPktAddr (?rs ! j) = Some b" "re_OutputPktAddr (?rs ! k) = Some b"
      show "ce_OutputMid (cs ! j) = ce_OutputMid (cs ! k)"
        using eq ok(3) [OF j k] nth(1) [OF j] nth(1) [OF k] other [OF j] other [OF k] by (auto split: if_splits)
    next
      fix j k assume j: "j < length rs" and k: "k < length rs" and eq: "ce_InputMid (cs ! j) = ce_InputMid (cs ! k)"
      show "re_InputMidSubscribed (?rs ! j) = re_InputMidSubscribed (?rs ! k)"
        using eq ok(4) [OF j k] nth(2) [OF j] nth(2) [OF k] by simp
    next
      fix j b assume j: "j < length rs" and eq: "re_OutputPktAddr (?rs ! j) = Some b"
      show "\<exists>p. (pool(a \<mapsto> cf_MsgInit env ?o (packet_size cs ?o))) b = Some p \<and>
          length p = packet_size cs (ce_OutputMid (cs ! j))"
      proof (cases "ce_OutputMid (cs ! j) = ?o")
        case True
        then show ?thesis using eq nth(1) [OF j] cfs_env_okD(2) [OF assms(2)] by simp
      next
        case False
        then show ?thesis using eq nth(1) [OF j] ok(5) [OF j, of b] other [OF j] by simp
      qed
    next
      fix b
      show "b \<in> set (pool_live ?tr1) \<longleftrightarrow> (\<exists>j < length rs. re_OutputPktAddr (?rs ! j) = Some b)" by (rule live)
    qed
    then show ?thesis using eq by simp
  next
    case False
    have same: "rs' = rs \<and> pool' = pool \<and> pool_live tr' = pool_live tr"
    proof (cases "cf_IsValidMsgId env ?o \<and> cf_IsValidMsgId env (ce_InputMid (cs ! i)) \<and>
        re_OutputPktAddr (rs ! i) = None")
      case True
      with False assms(4) g show ?thesis
        by (cases "0 < packet_size cs ?o") (auto simp: build_packet_def)
    next
      case False
      with assms(4) show ?thesis by (auto simp: build_packet_def)
    qed
    show ?thesis using assms(1) unfolding tables_ok_def same [THEN conjunct1]
        same [THEN conjunct2, THEN conjunct2] same [THEN conjunct2, THEN conjunct1] .
  qed
qed

lemma tables_ok_mark:
  assumes "tables_ok env cs rs pool tr" "i < length rs" "pool_live tr' = pool_live tr"
  shows "tables_ok env cs (mark_input cs (ce_InputMid (cs ! i)) f rs) pool tr'"
proof -
  note ok = tables_okD [OF assms(1)]
  let ?rs = "mark_input cs (ce_InputMid (cs ! i)) f rs"
  have nth: "re_OutputPktAddr (?rs ! j) = re_OutputPktAddr (rs ! j)"
    "re_InputMidSubscribed (?rs ! j) =
      (if ce_InputMid (cs ! j) = ce_InputMid (cs ! i) then f else re_InputMidSubscribed (rs ! j))"
    if "j < length rs" for j
    using that ok(1) by simp_all
  show ?thesis
    unfolding tables_ok_def length_table_updates(2) [OF ok(1)] assms(3)
  proof (intro conjI allI impI)
    fix j k assume j: "j < length rs" and k: "k < length rs" and eq: "ce_InputMid (cs ! j) = ce_InputMid (cs ! k)"
    show "re_InputMidSubscribed (?rs ! j) = re_InputMidSubscribed (?rs ! k)"
      using eq ok(4) [OF j k] nth(2) [OF j] nth(2) [OF k] by simp
  next
    fix b
    show "b \<in> set (pool_live tr) \<longleftrightarrow> (\<exists>j < length rs. re_OutputPktAddr (?rs ! j) = Some b)"
      using ok(6) [of b] nth(1) by auto
  next
    fix j k assume j: "j < length rs" and k: "k < length rs" and eq: "ce_OutputMid (cs ! j) = ce_OutputMid (cs ! k)"
    show "re_OutputPktAddr (?rs ! j) = re_OutputPktAddr (?rs ! k)" using ok(2) [OF j k eq] nth(1) j k by simp
  next
    fix j k b assume j: "j < length rs" and k: "k < length rs"
      and eq: "re_OutputPktAddr (?rs ! j) = Some b" "re_OutputPktAddr (?rs ! k) = Some b"
    show "ce_OutputMid (cs ! j) = ce_OutputMid (cs ! k)" using ok(3) [OF j k, of b] eq nth(1) j k by simp
  next
    fix j b assume j: "j < length rs" and eq: "re_OutputPktAddr (?rs ! j) = Some b"
    show "\<exists>p. pool b = Some p \<and> length p = packet_size cs (ce_OutputMid (cs ! j))"
      using ok(5) [OF j, of b] eq nth(1) [OF j] by simp
  qed (rule ok(1))
qed

lemma tables_ok_subscribe:
  assumes "tables_ok env cs rs pool tr" "i < length rs"
    "(rs', pool', tr') = subscribe_input env cs i (rs, pool, tr)"
  shows "tables_ok env cs rs' pool' tr'"
proof -
  let ?v = "Cfs_SB_Subscribe (ce_InputMid (cs ! i))"
  have same: "tables_ok env cs rs pool tr1" if "pool_live tr1 = pool_live tr" for tr1
    using assms(1) unfolding tables_ok_def that .
  show ?thesis using assms(3)
    by (auto simp: subscribe_input_def cfs_call_def Let_def split: if_splits
        intro!: same assms(1) tables_ok_mark [OF assms(1,2)])
qed

lemma tables_ok_free:
  assumes "tables_ok env cs rs pool tr" "i < length rs"
    "(rs', pool', tr') = free_packet env cs i (rs, pool, tr)"
  shows "tables_ok env cs rs' pool' tr'"
proof (cases "re_OutputPktAddr (rs ! i)")
  case None
  with assms show ?thesis by (simp add: free_packet_def)
next
  case (Some a)
  note ok = tables_okD [OF assms(1)]
  let ?o = "ce_OutputMid (cs ! i)" and ?r = "cf_PutPoolBuf env tr a"
  have same: "tables_ok env cs rs pool tr1" if "pool_live tr1 = pool_live tr" for tr1
    using assms(1) unfolding tables_ok_def that .
  show ?thesis
  proof (cases "0 \<le> ?r")
    case False
    then show ?thesis using assms(3) Some by (auto simp: free_packet_def Let_def intro!: same)
  next
    case True
    let ?rs = "clear_packet cs ?o a rs" and ?tr = "tr @ [Cfs_PutPoolBuf a ?r]"
    have eq: "rs' = ?rs" "pool' = pool(a := None)" "tr' = ?tr"
      using assms(3) Some True by (auto simp: free_packet_def Let_def)
    have owner: "ce_OutputMid (cs ! j) = ?o" if "j < length rs" "re_OutputPktAddr (rs ! j) = Some a" for j
      using ok(3) [OF that(1) assms(2) that(2) Some] .
    have nth: "re_OutputPktAddr (?rs ! j) =
        (if re_OutputPktAddr (rs ! j) = Some a then None else re_OutputPktAddr (rs ! j))"
      "re_InputMidSubscribed (?rs ! j) = re_InputMidSubscribed (rs ! j)" if "j < length rs" for j
      using that ok(1) owner by auto
    show ?thesis
      unfolding tables_ok_def eq length_table_updates(3) [OF ok(1)]
    proof (intro conjI allI impI)
      fix b
      show "b \<in> set (pool_live ?tr) \<longleftrightarrow> (\<exists>j < length rs. re_OutputPktAddr (?rs ! j) = Some b)"
        using ok(6) [of b] nth(1) True by (auto split: if_splits)
    next
      fix j b assume j: "j < length rs" and eq: "re_OutputPktAddr (?rs ! j) = Some b"
      show "\<exists>p. (pool(a := None)) b = Some p \<and> length p = packet_size cs (ce_OutputMid (cs ! j))"
        using eq nth(1) [OF j] ok(5) [OF j, of b] by (auto split: if_splits)
    next
      fix j k b assume j: "j < length rs" and k: "k < length rs"
        and eq: "re_OutputPktAddr (?rs ! j) = Some b" "re_OutputPktAddr (?rs ! k) = Some b"
      show "ce_OutputMid (cs ! j) = ce_OutputMid (cs ! k)"
        using eq ok(3) [OF j k] nth(1) [OF j] nth(1) [OF k] by (auto split: if_splits)
    next
      fix j k assume j: "j < length rs" and k: "k < length rs" and eq: "ce_OutputMid (cs ! j) = ce_OutputMid (cs ! k)"
      show "re_OutputPktAddr (?rs ! j) = re_OutputPktAddr (?rs ! k)" using ok(2) [OF j k eq] nth(1) j k by simp
    next
      fix j k assume j: "j < length rs" and k: "k < length rs" and eq: "ce_InputMid (cs ! j) = ce_InputMid (cs ! k)"
      show "re_InputMidSubscribed (?rs ! j) = re_InputMidSubscribed (?rs ! k)" using ok(4) [OF j k eq] nth(2) j k by simp
    qed (rule ok(1))
  qed
qed

section \<open>The state a new copy table leaves\<close>

text \<open>
  A copy table fit for use: an entry that takes from a message writes at least one byte, behind the
  header of a packet with a valid id, and no two entries write the same byte of a packet.
\<close>

definition table_fit :: "Cfs_Env \<Rightarrow> Copy_Table \<Rightarrow> bool" where
  "table_fit env cs \<longleftrightarrow> length cs = HK_COPY_TABLE_ENTRIES \<and>
     (\<forall>c \<in> set cs. cf_IsValidMsgId env (ce_InputMid c) \<longrightarrow> cf_IsValidMsgId env (ce_OutputMid c) \<and>
        0 < num c \<and> cf_TlmHeader env \<le> out_off c) \<and>
     (\<forall>i < length cs. \<forall>j < length cs. i \<noteq> j \<and> ce_OutputMid (cs ! i) = ce_OutputMid (cs ! j) \<and>
        cf_IsValidMsgId env (ce_InputMid (cs ! i)) \<and> cf_IsValidMsgId env (ce_InputMid (cs ! j)) \<longrightarrow>
        apart (out_off (cs ! i)) (num (cs ! i)) (out_off (cs ! j)) (num (cs ! j)))"

definition pool_gives :: "Cfs_Env \<Rightarrow> bool" where
  "pool_gives env \<longleftrightarrow> (\<forall>tr n. 0 \<le> fst (cf_GetPoolBuf env tr n))"

definition new_ok :: "Cfs_Env \<Rightarrow> Copy_Table \<Rightarrow> nat \<Rightarrow> Runtime_Table \<times> Pool \<times> Cfs_Trace \<Rightarrow> bool" where
  "new_ok env cs k = (\<lambda>(rs, pool, tr). tables_ok env cs rs pool tr \<and>
     (\<forall>i < length rs. re_DataPresent (rs ! i) = HK_DATA_NOT_PRESENT) \<and>
     (\<forall>i < length rs. \<forall>a. re_OutputPktAddr (rs ! i) = Some a \<longrightarrow>
        pool a = Some (cf_MsgInit env (ce_OutputMid (cs ! i)) (packet_size cs (ce_OutputMid (cs ! i)))) \<and>
        cf_TlmHeader env \<le> packet_size cs (ce_OutputMid (cs ! i))) \<and>
     (\<forall>i < k. cf_IsValidMsgId env (ce_InputMid (cs ! i)) \<longrightarrow> re_OutputPktAddr (rs ! i) \<noteq> None))"

lemma new_ok_build:
  assumes ok: "new_ok env cs k (rs, pool, tr)" and k: "k < length cs" and fit: "table_fit env cs"
    and gives: "pool_gives env" and env: "cfs_env_ok env"
    and step: "build_packet env cs k (rs, pool, tr) = (rs', pool', tr')"
  shows "new_ok env cs (Suc k) (rs', pool', tr')"
proof -
  let ?o = "ce_OutputMid (cs ! k)" and ?ok = "cf_IsValidMsgId env (ce_InputMid (cs ! k))"
  have tok: "tables_ok env cs rs pool tr" using ok by (simp add: new_ok_def)
  note len = tables_okD(1) [OF tok]
  have tok': "tables_ok env cs rs' pool' tr'" using tables_ok_build [OF tok env _ step] k len by simp
  obtain result a where g: "cf_GetPoolBuf env tr (packet_size cs ?o) = (result, a)" by force
  have r: "0 \<le> result" using gives g by (metis fst_conv pool_gives_def)
  have in_set: "cs ! k \<in> set cs" using k by simp
  show ?thesis
  proof (cases "?ok \<and> re_OutputPktAddr (rs ! k) = None")
    case True
    then have valid: "cf_IsValidMsgId env ?o" and "0 < num (cs ! k)" and hdr: "cf_TlmHeader env \<le> out_off (cs ! k)"
      using fit in_set by (auto simp: table_fit_def)
    with packet_size_bound [OF in_set] have size: "0 < packet_size cs ?o" "cf_TlmHeader env \<le> packet_size cs ?o" by simp_all
    have eq: "rs' = assign_packet cs ?o a rs" "pool' = pool(a \<mapsto> cf_MsgInit env ?o (packet_size cs ?o))"
      using step g True valid size r by (simp_all add: build_packet_def Let_def)
    have fresh: "a \<notin> set (pool_live tr)" by (rule cfs_env_okD(1) [OF env g r])
    have other: "re_OutputPktAddr (rs ! j) \<noteq> Some a" if "j < length rs" for j
      using fresh tables_okD(6) [OF tok] that by blast
    have nth: "rs' ! j = (if ce_OutputMid (cs ! j) = ?o then (rs ! j)\<lparr>re_OutputPktAddr := Some a\<rparr> else rs ! j)"
      if "j < length rs" for j
      using that len by (simp add: eq)
    show ?thesis
      unfolding new_ok_def prod.case
    proof (intro conjI allI impI)
      show "tables_ok env cs rs' pool' tr'" by (rule tok')
    next
      fix j assume "j < length rs'"
      then show "re_DataPresent (rs' ! j) = HK_DATA_NOT_PRESENT" using ok nth [of j] len by (simp add: eq new_ok_def)
    next
      fix j b assume "j < length rs'" and b: "re_OutputPktAddr (rs' ! j) = Some b"
      then have j: "j < length rs" using len by (simp add: eq)
      have old: "re_OutputPktAddr (rs ! j) = Some b \<Longrightarrow> pool b = Some (cf_MsgInit env (ce_OutputMid (cs ! j))
          (packet_size cs (ce_OutputMid (cs ! j)))) \<and> cf_TlmHeader env \<le> packet_size cs (ce_OutputMid (cs ! j))"
        using ok j by (simp add: new_ok_def)
      show "pool' b = Some (cf_MsgInit env (ce_OutputMid (cs ! j)) (packet_size cs (ce_OutputMid (cs ! j))))"
        using b nth [OF j] old other [OF j] by (cases "ce_OutputMid (cs ! j) = ?o") (auto simp: eq)
      show "cf_TlmHeader env \<le> packet_size cs (ce_OutputMid (cs ! j))"
        using b nth [OF j] old size by (cases "ce_OutputMid (cs ! j) = ?o") auto
    next
      fix j assume j: "j < Suc k" and v: "cf_IsValidMsgId env (ce_InputMid (cs ! j))"
      then have "j = k \<or> re_OutputPktAddr (rs ! j) \<noteq> None" using ok by (auto simp: new_ok_def less_Suc_eq)
      moreover have "j < length rs" using j k len by simp
      ultimately show "re_OutputPktAddr (rs' ! j) \<noteq> None" using nth [of j] by auto
    qed
  next
    case False
    then have eq: "rs' = rs" "pool' = pool"
      using step by (auto simp: build_packet_def Let_def)
    show ?thesis using ok tok' False unfolding new_ok_def prod.case eq
      by (auto simp: less_Suc_eq)
  qed
qed

lemma new_ok_subscribe:
  assumes ok: "new_ok env cs k (rs, pool, tr)" and i: "i < length cs" and k: "k \<le> length cs"
    and step: "subscribe_input env cs i (rs, pool, tr) = (rs', pool', tr')"
  shows "new_ok env cs k (rs', pool', tr')"
proof -
  have tok: "tables_ok env cs rs pool tr" using ok by (simp add: new_ok_def)
  note len = tables_okD(1) [OF tok]
  have tok': "tables_ok env cs rs' pool' tr'" using tables_ok_subscribe [OF tok _ step [symmetric]] i len by simp
  have len': "length rs' = length rs" using tables_okD(1) [OF tok'] len by simp
  have "\<forall>j < length rs. re_OutputPktAddr (rs' ! j) = re_OutputPktAddr (rs ! j) \<and>
      re_DataPresent (rs' ! j) = re_DataPresent (rs ! j)" "pool' = pool"
    using step len by (auto simp: subscribe_input_def cfs_call_def Let_def split: if_splits)
  with ok tok' len' k len show ?thesis by (simp add: new_ok_def)
qed

lemma new_ok_loop:
  assumes "table_fit env cs" "pool_gives env" "cfs_env_ok env"
  shows "new_ok env cs k st \<Longrightarrow> n \<le> length cs \<Longrightarrow> k \<le> n \<Longrightarrow> new_ok env cs n (new_table_loop env cs [k..<n] st)"
proof (induction "n - k" arbitrary: k st)
  case 0
  then show ?case by simp
next
  case (Suc d)
  then have k: "k < n" "k < length cs" by simp_all
  obtain rs pool tr where st: "st = (rs, pool, tr)" by (rule prod_cases3)
  obtain rs1 pool1 tr1 where b: "build_packet env cs k (rs, pool, tr) = (rs1, pool1, tr1)" by (rule prod_cases3)
  obtain rs2 pool2 tr2 where u: "subscribe_input env cs k (rs1, pool1, tr1) = (rs2, pool2, tr2)" by (rule prod_cases3)
  have "new_ok env cs (Suc k) (rs1, pool1, tr1)"
    using new_ok_build [OF _ k(2) assms b] Suc.prems(1) st by simp
  then have "new_ok env cs (Suc k) (rs2, pool2, tr2)"
    by (rule new_ok_subscribe [OF _ k(2) _ u]) (use k in simp)
  then have "new_ok env cs n (new_table_loop env cs [Suc k..<n] (rs2, pool2, tr2))"
    using Suc.hyps(1) [of "Suc k"] Suc.hyps(2) Suc.prems k by simp
  then show ?case using k(1) st b u by (simp add: upt_conv_Cons)
qed

lemma new_table:
  assumes "table_fit env cs" "pool_gives env" "cfs_env_ok env"
    and "hk_CopyTable s = Some cs" "hk_RuntimeTable s = Some rs" "length rs = HK_COPY_TABLE_ENTRIES"
    and "pool_live tr = []" "HK_ProcessNewCopyTable env s tr = (st, s', tr')"
  shows "\<exists>rs'. st \<and> hk_RuntimeTable s' = Some rs' \<and> hk_CopyTable s' = Some cs \<and>
    new_ok env cs HK_COPY_TABLE_ENTRIES (rs', hk_Pool s', tr')"
proof -
  have len: "length cs = HK_COPY_TABLE_ENTRIES" using assms(1) by (simp add: table_fit_def)
  have start: "new_ok env cs 0 (fresh_runtime rs, hk_Pool s, tr)"
    using len assms(6,7) by (simp add: new_ok_def tables_ok_def fresh_runtime_def)
  from new_ok_loop [OF assms(1-3) start, of HK_COPY_TABLE_ENTRIES] len assms(4,5,8) show ?thesis
    by (auto simp: HK_ProcessNewCopyTable_def split: prod.splits)
qed

section \<open>Cycles of input packets and combined packets\<close>

datatype HK_Op = HK_Incoming "u8 list" | HK_Send u32

fun hk_op :: "Cfs_Env \<Rightarrow> HK_Op \<Rightarrow> HK_AppData \<Rightarrow> Cfs_Trace \<Rightarrow> (HK_AppData \<times> Cfs_Trace) run" where
  "hk_op env (HK_Incoming m) s tr = HK_ProcessIncomingHkData env m s tr"
| "hk_op env (HK_Send mid) s tr = HK_SendCombinedHkPacket env mid s tr"

fun hk_ops :: "Cfs_Env \<Rightarrow> HK_Op list \<Rightarrow> HK_AppData \<Rightarrow> Cfs_Trace \<Rightarrow> (HK_AppData \<times> Cfs_Trace) run" where
  "hk_ops env [] s tr = Returns (s, tr)"
| "hk_ops env (p # ps) s tr = run_bind (hk_op env p s tr) (\<lambda>(s', tr'). hk_ops env ps s' tr')"

text \<open>What an entry last took, and whether it took anything since its packet was last sent.\<close>

fun latest :: "Cfs_Env \<Rightarrow> hk_copy_table_entry \<Rightarrow> u8 list \<Rightarrow> HK_Op list \<Rightarrow> u8 list" where
  "latest env c d [] = d"
| "latest env c d (HK_Incoming m # ps) =
     latest env c (if takes env c m then slice (in_off c) (num c) m else d) ps"
| "latest env c d (HK_Send mid # ps) = latest env c d ps"

fun arrived :: "Cfs_Env \<Rightarrow> hk_copy_table_entry \<Rightarrow> bool \<Rightarrow> HK_Op list \<Rightarrow> bool" where
  "arrived env c b [] = b"
| "arrived env c b (HK_Incoming m # ps) = arrived env c (b \<or> takes env c m) ps"
| "arrived env c b (HK_Send mid # ps) = arrived env c (b \<and> ce_OutputMid c \<noteq> mid) ps"

text \<open>The concrete state against what each entry is expected to hold.\<close>

definition hk_holds :: "Cfs_Env \<Rightarrow> Copy_Table \<Rightarrow> Runtime_Table \<Rightarrow> (nat \<Rightarrow> u8 list) \<Rightarrow> (nat \<Rightarrow> bool) \<Rightarrow>
    HK_AppData \<Rightarrow> bool" where
  "hk_holds env cs rs0 d b s \<longleftrightarrow> hk_CopyTable s = Some cs \<and>
     (\<exists>rs. hk_RuntimeTable s = Some rs \<and> length rs = length cs \<and>
        (\<forall>i < length cs. re_OutputPktAddr (rs ! i) = re_OutputPktAddr (rs0 ! i) \<and>
           re_DataPresent (rs ! i) = (if b i then HK_DATA_PRESENT else HK_DATA_NOT_PRESENT))) \<and>
     (\<forall>i < length cs. \<forall>a. re_OutputPktAddr (rs0 ! i) = Some a \<longrightarrow>
        (\<exists>p. hk_Pool s a = Some p \<and> length p = packet_size cs (ce_OutputMid (cs ! i)) \<and>
           cf_MsgId env p = ce_OutputMid (cs ! i) \<and>
           (cf_IsValidMsgId env (ce_InputMid (cs ! i)) \<longrightarrow>
              slice (out_off (cs ! i)) (num (cs ! i)) p = d i)))"

text \<open>What the addresses of the runtime table satisfy once the table is built.\<close>

definition addrs_ok :: "Cfs_Env \<Rightarrow> Copy_Table \<Rightarrow> Runtime_Table \<Rightarrow> bool" where
  "addrs_ok env cs rs0 \<longleftrightarrow> length rs0 = length cs \<and>
     (\<forall>i < length cs. \<forall>j < length cs. ce_OutputMid (cs ! i) = ce_OutputMid (cs ! j) \<longrightarrow>
        re_OutputPktAddr (rs0 ! i) = re_OutputPktAddr (rs0 ! j)) \<and>
     (\<forall>i < length cs. \<forall>j < length cs. \<forall>a. re_OutputPktAddr (rs0 ! i) = Some a \<longrightarrow>
        re_OutputPktAddr (rs0 ! j) = Some a \<longrightarrow> ce_OutputMid (cs ! i) = ce_OutputMid (cs ! j)) \<and>
     (\<forall>i < length cs. cf_IsValidMsgId env (ce_InputMid (cs ! i)) \<longrightarrow> re_OutputPktAddr (rs0 ! i) \<noteq> None) \<and>
     (\<forall>i < length cs. re_OutputPktAddr (rs0 ! i) \<noteq> None \<longrightarrow>
        cf_TlmHeader env \<le> packet_size cs (ce_OutputMid (cs ! i)))"

definition first_bytes :: "Cfs_Env \<Rightarrow> Copy_Table \<Rightarrow> nat \<Rightarrow> u8 list" where
  "first_bytes env cs i = slice (out_off (cs ! i)) (num (cs ! i))
     (cf_MsgInit env (ce_OutputMid (cs ! i)) (packet_size cs (ce_OutputMid (cs ! i))))"

lemma new_holds:
  assumes "new_ok env cs (length cs) (rs, hk_Pool s, tr)" "cfs_env_ok env"
    and "hk_CopyTable s = Some cs" "hk_RuntimeTable s = Some rs"
  shows "addrs_ok env cs rs" "hk_holds env cs rs (first_bytes env cs) (\<lambda>_. False) s"
proof -
  have tok: "tables_ok env cs rs (hk_Pool s) tr" using assms(1) by (simp add: new_ok_def)
  note ok = tables_okD [OF tok]
  have content: "hk_Pool s a = Some (cf_MsgInit env (ce_OutputMid (cs ! i)) (packet_size cs (ce_OutputMid (cs ! i)))) \<and>
        cf_TlmHeader env \<le> packet_size cs (ce_OutputMid (cs ! i))"
    if "i < length rs" "re_OutputPktAddr (rs ! i) = Some a" for i a
    using assms(1) that by (simp add: new_ok_def)
  show "addrs_ok env cs rs"
    unfolding addrs_ok_def
  proof (intro conjI allI impI)
    fix i assume i: "i < length cs" and v: "cf_IsValidMsgId env (ce_InputMid (cs ! i))"
    show "re_OutputPktAddr (rs ! i) \<noteq> None" using assms(1) i v by (simp add: new_ok_def)
  next
    fix i assume "i < length cs" "re_OutputPktAddr (rs ! i) \<noteq> None"
    then show "cf_TlmHeader env \<le> packet_size cs (ce_OutputMid (cs ! i))" using content ok(1) by auto
  next
    fix i j a
    assume "i < length cs" "j < length cs" "re_OutputPktAddr (rs ! i) = Some a" "re_OutputPktAddr (rs ! j) = Some a"
    then show "ce_OutputMid (cs ! i) = ce_OutputMid (cs ! j)" using ok(1) ok(3) [of i j a] by simp
  next
    fix i j assume "i < length cs" "j < length cs" "ce_OutputMid (cs ! i) = ce_OutputMid (cs ! j)"
    then show "re_OutputPktAddr (rs ! i) = re_OutputPktAddr (rs ! j)" using ok(1) ok(2) [of i j] by simp
  qed (simp add: ok(1))
  have "re_DataPresent (rs ! i) = HK_DATA_NOT_PRESENT" if "i < length cs" for i
    using assms(1) that ok(1) by (simp add: new_ok_def)
  moreover have "\<exists>p. hk_Pool s a = Some p \<and> length p = packet_size cs (ce_OutputMid (cs ! i)) \<and>
      cf_MsgId env p = ce_OutputMid (cs ! i) \<and> (cf_IsValidMsgId env (ce_InputMid (cs ! i)) \<longrightarrow>
        slice (out_off (cs ! i)) (num (cs ! i)) p = first_bytes env cs i)"
    if "i < length cs" "re_OutputPktAddr (rs ! i) = Some a" for i a
    using content [of i a] that ok(1) cfs_env_okD(2,3) [OF assms(2)] by (simp add: first_bytes_def)
  ultimately show "hk_holds env cs rs (first_bytes env cs) (\<lambda>_. False) s"
    using assms(3,4) ok(1) unfolding hk_holds_def by auto
qed

lemma zip_in_nth: "(x, y) \<in> set (zip xs ys) \<longleftrightarrow> (\<exists>i < min (length xs) (length ys). x = xs ! i \<and> y = ys ! i)"
  by (auto simp: in_set_zip)

lemma slice_prefix: "slice 0 n p = take n p"
  by (simp add: slice_def)

lemma apart_commute: "apart a b c d = apart c d a b"
  by (auto simp: apart_def)

lemma hk_holds_incoming:
  assumes fit: "table_fit env cs" and addrs: "addrs_ok env cs rs0" and env: "cfs_env_ok env"
    and holds: "hk_holds env cs rs0 d b s" and valid: "cf_IsValidMsgId env (cf_MsgId env m)"
  shows "\<exists>s' tr'. HK_ProcessIncomingHkData env m s tr = Returns (s', tr') \<and>
    hk_holds env cs rs0 (\<lambda>i. if takes env (cs ! i) m then slice (in_off (cs ! i)) (num (cs ! i)) m else d i)
      (\<lambda>i. b i \<or> takes env (cs ! i) m) s' \<and>
    hk_MissingDataCtr s' = hk_MissingDataCtr s \<and> cfs_sent tr' = cfs_sent tr"
proof -
  obtain rs where rs: "hk_CopyTable s = Some cs" "hk_RuntimeTable s = Some rs" "length cs = length rs"
    "\<And>i. i < length cs \<Longrightarrow> re_OutputPktAddr (rs ! i) = re_OutputPktAddr (rs0 ! i)"
    "\<And>i. i < length cs \<Longrightarrow> re_DataPresent (rs ! i) = (if b i then HK_DATA_PRESENT else HK_DATA_NOT_PRESENT)"
    using holds unfolding hk_holds_def by auto
  have pkt: "\<exists>p. hk_Pool s a = Some p \<and> length p = packet_size cs (ce_OutputMid (cs ! i)) \<and>
           cf_MsgId env p = ce_OutputMid (cs ! i) \<and> (cf_IsValidMsgId env (ce_InputMid (cs ! i)) \<longrightarrow>
              slice (out_off (cs ! i)) (num (cs ! i)) p = d i)"
    if "i < length cs" "re_OutputPktAddr (rs0 ! i) = Some a" for i a
    using holds that unfolding hk_holds_def by blast
  have tk: "cf_IsValidMsgId env (ce_InputMid c)" if "takes env c m" for c
    using valid that by (simp add: takes_def)
  have fits: "\<forall>(c, r) \<in> set (zip cs rs). takes env c m \<longrightarrow> fits (hk_Pool s) (c, r)"
  proof (intro ballI, clarify)
    fix c r assume "(c, r) \<in> set (zip cs rs)" and t: "takes env c m"
    then obtain i where i: "i < length cs" "c = cs ! i" "r = rs ! i" using rs(3) by (auto simp: zip_in_nth)
    with tk [OF t] addrs obtain a where a: "re_OutputPktAddr (rs0 ! i) = Some a" unfolding addrs_ok_def by blast
    from pkt [OF i(1) a] packet_size_bound [of c cs] i a rs(4) [OF i(1)]
    show "fits (hk_Pool s) (c, r)" by (auto simp: fits_def)
  qed
  have disj: "apart (out_off (cs ! i)) (num (cs ! i)) (out_off (cs ! j)) (num (cs ! j))"
    if "i < length cs" "j < length cs" "i \<noteq> j" "takes env (cs ! i) m" "cf_IsValidMsgId env (ce_InputMid (cs ! j))"
      "re_OutputPktAddr (rs0 ! i) = re_OutputPktAddr (rs0 ! j)" for i j
  proof -
    note h = that
    obtain a where "re_OutputPktAddr (rs0 ! i) = Some a"
      using addrs h(1) tk [OF h(4)] unfolding addrs_ok_def by blast
    with addrs h(1,2,6) have "ce_OutputMid (cs ! i) = ce_OutputMid (cs ! j)" unfolding addrs_ok_def by metis
    with fit h(1-3,5) tk [OF h(4)] show ?thesis unfolding table_fit_def by blast
  qed
  have srt: "sorted_wrt (\<lambda>(c, r) (c', r'). takes env c m \<and> takes env c' m \<and>
      re_OutputPktAddr r = re_OutputPktAddr r' \<longrightarrow> apart (out_off c) (num c) (out_off c') (num c')) (zip cs rs)"
    using disj tk rs(3,4) by (auto simp: sorted_wrt_iff_nth_less)
  let ?rs = "map2 (\<lambda>c r. if takes env c m then r\<lparr>re_DataPresent := HK_DATA_PRESENT\<rparr> else r) cs rs"
  obtain pool' errs' where loop: "incoming_loop (cf_MsgId env m) m cs rs (hk_Pool s) 0 = Returns (?rs, pool', errs')"
    and shape: "pool_shape pool' = pool_shape (hk_Pool s)"
    and kept: "\<forall>a off n. (\<forall>(c, r) \<in> set (zip cs rs). takes env c m \<and> re_OutputPktAddr r = Some a \<longrightarrow>
        apart (out_off c) (num c) off n) \<longrightarrow> map_option (slice off n) (pool' a) = map_option (slice off n) (hk_Pool s a)"
    and written: "\<forall>(c, r) \<in> set (zip cs rs). takes env c m \<longrightarrow>
        map_option (slice (out_off c) (num c)) (pool' (the (re_OutputPktAddr r))) = Some (slice (in_off c) (num c) m)"
    using incoming_loop_spec [OF rs(3) fits srt, of 0] by (elim exE conjE) (rule that; assumption)
  have new: "\<exists>p. pool' a = Some p \<and> length p = packet_size cs (ce_OutputMid (cs ! i)) \<and>
           cf_MsgId env p = ce_OutputMid (cs ! i) \<and> (cf_IsValidMsgId env (ce_InputMid (cs ! i)) \<longrightarrow>
              slice (out_off (cs ! i)) (num (cs ! i)) p =
                (if takes env (cs ! i) m then slice (in_off (cs ! i)) (num (cs ! i)) m else d i))"
    if i: "i < length cs" and a: "re_OutputPktAddr (rs0 ! i) = Some a" for i a
  proof -
    obtain p where p: "hk_Pool s a = Some p" "length p = packet_size cs (ce_OutputMid (cs ! i))"
      "cf_MsgId env p = ce_OutputMid (cs ! i)" "cf_IsValidMsgId env (ce_InputMid (cs ! i)) \<longrightarrow>
              slice (out_off (cs ! i)) (num (cs ! i)) p = d i"
      using pkt [OF i a] by blast
    have "map_option length (pool' a) = Some (length p)" using fun_cong [OF shape, of a] p(1) by (simp add: pool_shape_def)
    then obtain p' where p': "pool' a = Some p'" "length p' = length p" by auto
    have "\<forall>(c, r) \<in> set (zip cs rs). takes env c m \<and> re_OutputPktAddr r = Some a \<longrightarrow>
        apart (out_off c) (num c) 0 (cf_TlmHeader env)"
      using fit tk by (auto simp: apart_def table_fit_def dest!: set_zip_leftD)
    then have "slice 0 (cf_TlmHeader env) p' = slice 0 (cf_TlmHeader env) p"
      using kept p(1) p'(1) by force
    then have "cf_MsgId env p' = cf_MsgId env p" by (intro cfs_env_okD(4) [OF env]) (simp add: slice_prefix)
    moreover have "slice (out_off (cs ! i)) (num (cs ! i)) p' =
        (if takes env (cs ! i) m then slice (in_off (cs ! i)) (num (cs ! i)) m else d i)"
      if v: "cf_IsValidMsgId env (ce_InputMid (cs ! i))"
    proof (cases "takes env (cs ! i) m")
      case True
      have "(cs ! i, rs ! i) \<in> set (zip cs rs)" using i rs(3) by (auto simp: zip_in_nth)
      with written True a rs(4) [OF i] p'(1) show ?thesis by fastforce
    next
      case False
      have "\<forall>(c, r) \<in> set (zip cs rs). takes env c m \<and> re_OutputPktAddr r = Some a \<longrightarrow>
          apart (out_off c) (num c) (out_off (cs ! i)) (num (cs ! i))"
      proof (intro ballI, clarify)
        fix c r assume "(c, r) \<in> set (zip cs rs)" and t: "takes env c m" and r: "re_OutputPktAddr r = Some a"
        then obtain j where j: "j < length cs" "c = cs ! j" "r = rs ! j" using rs(3) by (auto simp: zip_in_nth)
        with t False have "j \<noteq> i" by auto
        with disj [OF j(1) i this] t r j v a rs(4) [OF j(1)] show "apart (out_off c) (num c) (out_off (cs ! i)) (num (cs ! i))"
          by simp
      qed
      then have "slice (out_off (cs ! i)) (num (cs ! i)) p' = slice (out_off (cs ! i)) (num (cs ! i)) p"
        using kept p(1) p'(1) by force
      then show ?thesis using False v p(4) by simp
    qed
    ultimately show ?thesis using p' p by auto
  qed
  have nth: "re_OutputPktAddr (?rs ! i) = re_OutputPktAddr (rs0 ! i) \<and>
      re_DataPresent (?rs ! i) = (if b i \<or> takes env (cs ! i) m then HK_DATA_PRESENT else HK_DATA_NOT_PRESENT)"
    if "i < length cs" for i
    using that rs(3) rs(4,5) [OF that] by simp
  let ?s = "s\<lparr>hk_RuntimeTable := Some ?rs, hk_Pool := pool'\<rparr>"
  have "HK_ProcessIncomingHkData env m s tr = Returns (?s,
      if errs' \<noteq> 0 then cfs_event HK_ACCESSING_PAST_PACKET_END_EID EVS_ERROR tr else tr)"
    using rs(1,2) loop by (simp add: HK_ProcessIncomingHkData_def)
  moreover have "hk_holds env cs rs0 (\<lambda>i. if takes env (cs ! i) m then slice (in_off (cs ! i)) (num (cs ! i)) m else d i)
      (\<lambda>i. b i \<or> takes env (cs ! i) m) ?s"
    unfolding hk_holds_def using rs(1,3) nth new by auto
  ultimately show ?thesis by (auto simp: cfs_event_def)
qed

lemma addrs_okD:
  assumes "addrs_ok env cs rs0"
  shows "length rs0 = length cs"
    "\<And>i j. i < length cs \<Longrightarrow> j < length cs \<Longrightarrow> ce_OutputMid (cs ! i) = ce_OutputMid (cs ! j) \<Longrightarrow>
       re_OutputPktAddr (rs0 ! i) = re_OutputPktAddr (rs0 ! j)"
    "\<And>i j a. i < length cs \<Longrightarrow> j < length cs \<Longrightarrow> re_OutputPktAddr (rs0 ! i) = Some a \<Longrightarrow>
       re_OutputPktAddr (rs0 ! j) = Some a \<Longrightarrow> ce_OutputMid (cs ! i) = ce_OutputMid (cs ! j)"
    "\<And>i. i < length cs \<Longrightarrow> cf_IsValidMsgId env (ce_InputMid (cs ! i)) \<Longrightarrow> re_OutputPktAddr (rs0 ! i) \<noteq> None"
    "\<And>i. i < length cs \<Longrightarrow> re_OutputPktAddr (rs0 ! i) \<noteq> None \<Longrightarrow>
       cf_TlmHeader env \<le> packet_size cs (ce_OutputMid (cs ! i))"
  using assms unfolding addrs_ok_def by (elim conjE, assumption | blast)+

lemma find_packet_spec:
  assumes "\<forall>r \<in> set rs. \<forall>a. re_OutputPktAddr r = Some a \<longrightarrow> (\<exists>p. pool a = Some p)"
  shows "(find_packet env mid rs pool = Returns None \<and>
      (\<forall>r \<in> set rs. \<forall>a. re_OutputPktAddr r = Some a \<longrightarrow> cf_MsgId env (the (pool a)) \<noteq> mid)) \<or>
    (\<exists>r \<in> set rs. \<exists>a. re_OutputPktAddr r = Some a \<and> cf_MsgId env (the (pool a)) = mid \<and>
      find_packet env mid rs pool = Returns (Some a))"
  using assms by (induction rs) (auto split: option.split)

lemma missing_data_iff:
  "HK_CheckForMissingData mid cs rs \<noteq> None \<longleftrightarrow>
   (\<exists>(c, r) \<in> set (zip cs rs). re_OutputPktAddr r \<noteq> None \<and> ce_OutputMid c = mid \<and>
      re_DataPresent r = HK_DATA_NOT_PRESENT)"
  by (induction mid cs rs rule: HK_CheckForMissingData.induct) auto

lemma slice_stamp:
  assumes "cfs_env_ok env" "cf_TlmHeader env \<le> length p" "cf_TlmHeader env \<le> off"
  shows "slice off n (cf_TimeStamp env tr p) = slice off n p"
proof -
  have "drop off q = drop (off - cf_TlmHeader env) (drop (cf_TlmHeader env) q)" for q :: "u8 list"
    using assms(3) by simp
  then show ?thesis unfolding slice_def using cfs_env_okD(7) [OF assms(1,2)] by metis
qed

lemma hk_holds_send:
  assumes fit: "table_fit env cs" and addrs: "addrs_ok env cs rs0" and env: "cfs_env_ok env"
    and holds: "hk_holds env cs rs0 d b s"
    and b: "\<forall>i < length cs. b i \<longrightarrow> re_OutputPktAddr (rs0 ! i) \<noteq> None"
  shows "\<exists>s' tr'. HK_SendCombinedHkPacket env mid s tr = Returns (s', tr') \<and>
    hk_holds env cs rs0 d (\<lambda>i. b i \<and> ce_OutputMid (cs ! i) \<noteq> mid) s' \<and>
    (\<forall>k < length cs. ce_OutputMid (cs ! k) = mid \<and> re_OutputPktAddr (rs0 ! k) \<noteq> None \<longrightarrow>
      (\<exists>p. cfs_sent tr' = cfs_sent tr @ [p] \<and> cf_MsgId env p = mid \<and> length p = packet_size cs mid \<and>
        (\<forall>i < length cs. ce_OutputMid (cs ! i) = mid \<and> cf_IsValidMsgId env (ce_InputMid (cs ! i)) \<longrightarrow>
           slice (out_off (cs ! i)) (num (cs ! i)) p = d i)) \<and>
      hk_MissingDataCtr s' = hk_MissingDataCtr s +
        (if \<exists>i < length cs. ce_OutputMid (cs ! i) = mid \<and> \<not> b i then 1 else 0))"
proof -
  obtain rs where rs: "hk_CopyTable s = Some cs" "hk_RuntimeTable s = Some rs" "length cs = length rs"
    "\<And>i. i < length cs \<Longrightarrow> re_OutputPktAddr (rs ! i) = re_OutputPktAddr (rs0 ! i)"
    "\<And>i. i < length cs \<Longrightarrow> re_DataPresent (rs ! i) = (if b i then HK_DATA_PRESENT else HK_DATA_NOT_PRESENT)"
    using holds unfolding hk_holds_def by auto
  have pkt: "\<exists>p. hk_Pool s a = Some p \<and> length p = packet_size cs (ce_OutputMid (cs ! i)) \<and>
           cf_MsgId env p = ce_OutputMid (cs ! i) \<and> (cf_IsValidMsgId env (ce_InputMid (cs ! i)) \<longrightarrow>
              slice (out_off (cs ! i)) (num (cs ! i)) p = d i)"
    if "i < length cs" "re_OutputPktAddr (rs0 ! i) = Some a" for i a
    using holds that unfolding hk_holds_def by blast
  have "\<forall>r \<in> set rs. \<forall>a. re_OutputPktAddr r = Some a \<longrightarrow> (\<exists>p. hk_Pool s a = Some p)"
    using pkt rs(3,4) by (metis in_set_conv_nth)
  from find_packet_spec [OF this, of env mid] consider
      (none) "find_packet env mid rs (hk_Pool s) = Returns None"
        "\<forall>r \<in> set rs. \<forall>a. re_OutputPktAddr r = Some a \<longrightarrow> cf_MsgId env (the (hk_Pool s a)) \<noteq> mid"
    | (some) r a where "r \<in> set rs" "re_OutputPktAddr r = Some a" "cf_MsgId env (the (hk_Pool s a)) = mid"
        "find_packet env mid rs (hk_Pool s) = Returns (Some a)"
    by blast
  then show ?thesis
  proof cases
    case none
    have no: "re_OutputPktAddr (rs0 ! i) = None" if i: "i < length cs" "ce_OutputMid (cs ! i) = mid" for i
    proof (rule ccontr)
      assume "re_OutputPktAddr (rs0 ! i) \<noteq> None"
      then obtain a where a: "re_OutputPktAddr (rs0 ! i) = Some a" by auto
      have "rs ! i \<in> set rs" using i rs(3) by simp
      with none(2) a rs(4) [OF i(1)] have "cf_MsgId env (the (hk_Pool s a)) \<noteq> mid" by auto
      with pkt [OF i(1) a] i(2) show False by auto
    qed
    have bn: "\<forall>i < length cs. b i \<longrightarrow> ce_OutputMid (cs ! i) \<noteq> mid" using no b by blast
    have "hk_holds env cs rs0 d (\<lambda>i. b i \<and> ce_OutputMid (cs ! i) \<noteq> mid) s"
      using holds bn unfolding hk_holds_def by auto
    with none(1) rs(1,2) no show ?thesis
      by (auto simp: HK_SendCombinedHkPacket_def)
  next
    case some
    obtain k where k: "k < length cs" "r = rs ! k" using some(1) rs(3) by (auto simp: in_set_conv_nth)
    have ka: "re_OutputPktAddr (rs0 ! k) = Some a" using some(2) k rs(4) by simp
    obtain p where q: "hk_Pool s a = Some p" "length p = packet_size cs (ce_OutputMid (cs ! k))"
      "cf_MsgId env p = ce_OutputMid (cs ! k)"
      using pkt [OF k(1) ka] by blast
    then have p: "hk_Pool s a = Some p" "length p = packet_size cs mid" "ce_OutputMid (cs ! k) = mid"
      using some(3) by simp_all
    have share: "re_OutputPktAddr (rs0 ! i) = Some a" if "i < length cs" "ce_OutputMid (cs ! i) = mid" for i
      using addrs_okD(2) [OF addrs that(1) k(1)] that(2) p(3) ka by simp
    have own: "ce_OutputMid (cs ! i) = mid" if "i < length cs" "re_OutputPktAddr (rs0 ! i) = Some a" for i
      using addrs_okD(3) [OF addrs that(1) k(1) that(2) ka] p(3) by simp
    have hdr: "cf_TlmHeader env \<le> length p" using addrs_okD(5) [OF addrs k(1)] ka p(2,3) by simp
    have missing: "HK_CheckForMissingData mid cs rs \<noteq> None \<longleftrightarrow>
        (\<exists>i < length cs. ce_OutputMid (cs ! i) = mid \<and> \<not> b i)"
    proof -
      have one: "re_OutputPktAddr (rs ! i) \<noteq> None \<and> ce_OutputMid (cs ! i) = mid \<and>
          re_DataPresent (rs ! i) = HK_DATA_NOT_PRESENT \<longleftrightarrow> ce_OutputMid (cs ! i) = mid \<and> \<not> b i"
        if "i < length cs" for i
        using rs(4,5) [OF that] share [OF that] by (auto simp: hk_flag_defs)
      have "HK_CheckForMissingData mid cs rs \<noteq> None \<longleftrightarrow> (\<exists>i < length cs. re_OutputPktAddr (rs ! i) \<noteq> None \<and>
          ce_OutputMid (cs ! i) = mid \<and> re_DataPresent (rs ! i) = HK_DATA_NOT_PRESENT)"
        unfolding missing_data_iff using rs(3) by (force simp: set_zip)
      with one show ?thesis by blast
    qed
    let ?rs = "HK_SetFlagsToNotPresent mid cs rs"
    have nth: "re_OutputPktAddr (?rs ! i) = re_OutputPktAddr (rs0 ! i) \<and>
        re_DataPresent (?rs ! i) =
          (if b i \<and> ce_OutputMid (cs ! i) \<noteq> mid then HK_DATA_PRESENT else HK_DATA_NOT_PRESENT)"
      if "i < length cs" for i
      using that rs(3) rs(4,5) [OF that] share [OF that] by auto
    let ?tr1 = "if HK_CheckForMissingData mid cs rs \<noteq> None then cfs_event HK_OUTPKT_MISSING_DATA_EID EVS_DEBUG tr else tr"
    let ?p = "cf_TimeStamp env ?tr1 p"
    have p': "length ?p = packet_size cs mid" "cf_MsgId env ?p = mid"
      using cfs_env_okD(5,6) [OF env hdr] p(1,2) some(3) by simp_all
    have sl: "slice (out_off (cs ! i)) (num (cs ! i)) ?p = d i"
      if "i < length cs" "ce_OutputMid (cs ! i) = mid" "cf_IsValidMsgId env (ce_InputMid (cs ! i))" for i
    proof -
      have "cf_TlmHeader env \<le> out_off (cs ! i)" using fit that(1,3) unfolding table_fit_def by auto
      from slice_stamp [OF env hdr this] pkt [OF that(1) share [OF that(1,2)]] p(1) that(3) show ?thesis by simp
    qed
    obtain s' tr' where st: "send_packet env mid cs rs a p s tr = (s', tr')" by force
    have s': "hk_CopyTable s' = Some cs" "hk_RuntimeTable s' = Some ?rs" "hk_Pool s' = (hk_Pool s)(a \<mapsto> ?p)"
      "cfs_sent tr' = cfs_sent tr @ [?p]"
      "hk_MissingDataCtr s' = hk_MissingDataCtr s + (if HK_CheckForMissingData mid cs rs \<noteq> None then 1 else 0)"
      using st rs(1) by (auto simp: send_packet_def Let_def cfs_event_def cfs_transmit_def split: if_splits)
    have "hk_holds env cs rs0 d (\<lambda>i. b i \<and> ce_OutputMid (cs ! i) \<noteq> mid) s'"
      unfolding hk_holds_def
    proof (intro conjI allI impI)
      show "\<exists>rs'. hk_RuntimeTable s' = Some rs' \<and> length rs' = length cs \<and>
        (\<forall>i < length cs. re_OutputPktAddr (rs' ! i) = re_OutputPktAddr (rs0 ! i) \<and>
           re_DataPresent (rs' ! i) = (if b i \<and> ce_OutputMid (cs ! i) \<noteq> mid then HK_DATA_PRESENT
             else HK_DATA_NOT_PRESENT))"
        using s'(2) nth rs(3) by auto
    next
      fix i c assume i: "i < length cs" and c: "re_OutputPktAddr (rs0 ! i) = Some c"
      show "\<exists>q. hk_Pool s' c = Some q \<and> length q = packet_size cs (ce_OutputMid (cs ! i)) \<and>
           cf_MsgId env q = ce_OutputMid (cs ! i) \<and> (cf_IsValidMsgId env (ce_InputMid (cs ! i)) \<longrightarrow>
              slice (out_off (cs ! i)) (num (cs ! i)) q = d i)"
      proof (cases "c = a")
        case True
        with own [OF i] c have "ce_OutputMid (cs ! i) = mid" by simp
        with True p' sl [OF i] s'(3) show ?thesis by simp
      next
        case False
        with pkt [OF i c] s'(3) show ?thesis by simp
      qed
    qed (rule s'(1))
    moreover have "HK_SendCombinedHkPacket env mid s tr = Returns (s', tr')"
      using rs(1,2) some(4) p(1) st by (simp add: HK_SendCombinedHkPacket_def)
    moreover have "\<exists>p. cfs_sent tr' = cfs_sent tr @ [p] \<and> cf_MsgId env p = mid \<and> length p = packet_size cs mid \<and>
        (\<forall>i < length cs. ce_OutputMid (cs ! i) = mid \<and> cf_IsValidMsgId env (ce_InputMid (cs ! i)) \<longrightarrow>
           slice (out_off (cs ! i)) (num (cs ! i)) p = d i)"
      using s'(4) p' sl by blast
    ultimately show ?thesis using s'(5) missing by auto
  qed
qed

lemma hk_ops_hold:
  assumes fit: "table_fit env cs" and addrs: "addrs_ok env cs rs0" and env: "cfs_env_ok env"
  shows "hk_holds env cs rs0 d b s \<Longrightarrow>
    (\<And>i. i < length cs \<Longrightarrow> b i \<Longrightarrow> cf_IsValidMsgId env (ce_InputMid (cs ! i))) \<Longrightarrow>
    \<forall>m. HK_Incoming m \<in> set ops \<longrightarrow> cf_IsValidMsgId env (cf_MsgId env m) \<Longrightarrow>
    \<exists>s' tr'. hk_ops env ops s tr = Returns (s', tr') \<and>
      hk_holds env cs rs0 (\<lambda>i. latest env (cs ! i) (d i) ops) (\<lambda>i. arrived env (cs ! i) (b i) ops) s' \<and>
      (\<forall>i < length cs. arrived env (cs ! i) (b i) ops \<longrightarrow> cf_IsValidMsgId env (ce_InputMid (cs ! i)))"
proof (induction ops arbitrary: d b s tr)
  case Nil
  then show ?case by simp
next
  case (Cons p ps)
  have addr: "\<forall>i < length cs. b i \<longrightarrow> re_OutputPktAddr (rs0 ! i) \<noteq> None"
    using Cons.prems(2) addrs_okD(4) [OF addrs] by blast
  show ?case
  proof (cases p)
    case (HK_Incoming m)
    then have v: "cf_IsValidMsgId env (cf_MsgId env m)" using Cons.prems(3) by simp
    obtain s1 tr1 where 1: "HK_ProcessIncomingHkData env m s tr = Returns (s1, tr1)"
      "hk_holds env cs rs0 (\<lambda>i. if takes env (cs ! i) m then slice (in_off (cs ! i)) (num (cs ! i)) m else d i)
        (\<lambda>i. b i \<or> takes env (cs ! i) m) s1"
      using hk_holds_incoming [OF fit addrs env Cons.prems(1) v, of tr] by blast
    have "b i \<or> takes env (cs ! i) m \<Longrightarrow> cf_IsValidMsgId env (ce_InputMid (cs ! i))" if "i < length cs" for i
      using Cons.prems(2) [OF that] v by (auto simp: takes_def)
    from Cons.IH [OF 1(2) this, of tr1] Cons.prems(3) show ?thesis using 1(1) HK_Incoming by simp
  next
    case (HK_Send mid)
    obtain s1 tr1 where 1: "HK_SendCombinedHkPacket env mid s tr = Returns (s1, tr1)"
      "hk_holds env cs rs0 d (\<lambda>i. b i \<and> ce_OutputMid (cs ! i) \<noteq> mid) s1"
      using hk_holds_send [OF fit addrs env Cons.prems(1) addr, of mid tr] by blast
    from Cons.IH [OF 1(2), of tr1] Cons.prems(2,3) show ?thesis using 1(1) HK_Send by simp
  qed
qed

section \<open>Properties\<close>

text \<open>C5. A combined packet holds what its sources last sent. After a copy table fit for use has been
  taken in and the pool could serve it, any sequence of input packets and send commands is handled
  without leaving a buffer; a command for a packet of the table then sends one packet of its id and
  size in which the bytes of every entry are those of the last input packet long enough to hold them
  (those of the initialised packet if there was none), and the missing-data counter goes up
  exactly when some entry of the packet took nothing since the packet was last sent.\<close>

theorem hk_combined_packet:
  assumes "table_fit env cs" "pool_gives env" "cfs_env_ok env"
    and "hk_CopyTable s = Some cs" "hk_RuntimeTable s = Some rs" "length rs = HK_COPY_TABLE_ENTRIES"
    and "pool_live tr = []" "HK_ProcessNewCopyTable env s tr = (ok, s0, tr0)"
    and "\<forall>m. HK_Incoming m \<in> set ops \<longrightarrow> cf_IsValidMsgId env (cf_MsgId env m)"
    and "k < length cs" "ce_OutputMid (cs ! k) = mid" "cf_IsValidMsgId env (ce_InputMid (cs ! k))"
  shows "\<exists>s1 tr1 s2 tr2 p. hk_ops env ops s0 tr0 = Returns (s1, tr1) \<and>
    HK_SendCombinedHkPacket env mid s1 tr1 = Returns (s2, tr2) \<and>
    cfs_sent tr2 = cfs_sent tr1 @ [p] \<and> cf_MsgId env p = mid \<and> length p = packet_size cs mid \<and>
    (\<forall>i < length cs. ce_OutputMid (cs ! i) = mid \<and> cf_IsValidMsgId env (ce_InputMid (cs ! i)) \<longrightarrow>
       slice (out_off (cs ! i)) (num (cs ! i)) p = latest env (cs ! i) (first_bytes env cs i) ops) \<and>
    hk_MissingDataCtr s2 = hk_MissingDataCtr s1 +
      (if \<exists>i < length cs. ce_OutputMid (cs ! i) = mid \<and> \<not> arrived env (cs ! i) False ops then 1 else 0)"
proof -
  have len: "length cs = HK_COPY_TABLE_ENTRIES" using assms(1) by (simp add: table_fit_def)
  obtain rs' where rs': "hk_RuntimeTable s0 = Some rs'" "hk_CopyTable s0 = Some cs"
    "new_ok env cs (length cs) (rs', hk_Pool s0, tr0)"
    using new_table [OF assms(1-8)] len by auto
  note start = new_holds [OF rs'(3) assms(3) rs'(2,1)]
  obtain s1 tr1 where 1: "hk_ops env ops s0 tr0 = Returns (s1, tr1)"
    "hk_holds env cs rs' (\<lambda>i. latest env (cs ! i) (first_bytes env cs i) ops) (\<lambda>i. arrived env (cs ! i) False ops) s1"
    "\<forall>i < length cs. arrived env (cs ! i) False ops \<longrightarrow> cf_IsValidMsgId env (ce_InputMid (cs ! i))"
    using hk_ops_hold [OF assms(1) start(1) assms(3) start(2) _ assms(9), of tr0] by blast
  have addr: "\<forall>i < length cs. arrived env (cs ! i) False ops \<longrightarrow> re_OutputPktAddr (rs' ! i) \<noteq> None"
    using 1(3) addrs_okD(4) [OF start(1)] by blast
  have nn: "re_OutputPktAddr (rs' ! k) \<noteq> None" using assms(10,12) addrs_okD(4) [OF start(1)] by blast
  obtain s2 tr2 where s2: "HK_SendCombinedHkPacket env mid s1 tr1 = Returns (s2, tr2)"
    "\<forall>k < length cs. ce_OutputMid (cs ! k) = mid \<and> re_OutputPktAddr (rs' ! k) \<noteq> None \<longrightarrow>
      (\<exists>p. cfs_sent tr2 = cfs_sent tr1 @ [p] \<and> cf_MsgId env p = mid \<and> length p = packet_size cs mid \<and>
        (\<forall>i < length cs. ce_OutputMid (cs ! i) = mid \<and> cf_IsValidMsgId env (ce_InputMid (cs ! i)) \<longrightarrow>
           slice (out_off (cs ! i)) (num (cs ! i)) p = latest env (cs ! i) (first_bytes env cs i) ops)) \<and>
      hk_MissingDataCtr s2 = hk_MissingDataCtr s1 +
        (if \<exists>i < length cs. ce_OutputMid (cs ! i) = mid \<and> \<not> arrived env (cs ! i) False ops then 1 else 0)"
    using hk_holds_send [OF assms(1) start(1) assms(3) 1(2) addr, of mid tr1] by (elim exE conjE) (rule that)
  note s2(2) [rule_format, OF assms(10) conjI, OF assms(11) nn]
  with 1(1) s2(1) show ?thesis by (elim conjE exE) (intro exI conjI, assumption+)
qed

end
