(* ===== verification/Hk_Tables.thy ===== *)
theory Hk_Tables
  imports Hk_Packets
begin

text \<open>
  The copy table of the mission (\<open>hk_cpy_tbl.c\<close>), and what HK promises when it takes a copy table in
  and down again: the pool buffers and subscriptions it holds are those the runtime table records.
\<close>

section \<open>The copy table of the mission\<close>

definition HK_COMBINED_PKT1_MID :: u32 where "HK_COMBINED_PKT1_MID = 0x089C"

definition copy_entry :: "u32 \<Rightarrow> nat \<Rightarrow> u32 \<Rightarrow> nat \<Rightarrow> nat \<Rightarrow> hk_copy_table_entry" where
  "copy_entry inp ioff out ooff n = \<lparr>ce_InputMid = inp, ce_InputOffset = of_nat ioff,
     ce_OutputMid = out, ce_OutputOffset = of_nat ooff, ce_NumBytes = of_nat n\<rparr>"

text \<open>
  The sizes of the five structures are the compiler's, the size of the telemetry header and the
  reserved message id those of the cFE configuration. The initialiser has 119 unused entries; the
  last four of the array are zero. The five input messages are the housekeeping packets of power,
  COMM, ADCS, payload and MPPT.
\<close>

definition mission_entries :: "nat \<Rightarrow> nat \<Rightarrow> nat \<Rightarrow> nat \<Rightarrow> nat \<Rightarrow> nat \<Rightarrow> Copy_Table" where
  "mission_entries hdr pw cm ad py mp =
     [copy_entry 0xAC0 hdr HK_COMBINED_PKT1_MID hdr pw,
      copy_entry 0xBC0 hdr HK_COMBINED_PKT1_MID (hdr + pw) cm,
      copy_entry 0xCC0 hdr HK_COMBINED_PKT1_MID (hdr + pw + cm) ad,
      copy_entry 0xEC0 hdr HK_COMBINED_PKT1_MID (hdr + pw + cm + ad) py,
      copy_entry 0xFC0 hdr HK_COMBINED_PKT1_MID (hdr + pw + cm + ad + py) mp]"

definition HK_CopyTable :: "u32 \<Rightarrow> nat \<Rightarrow> nat \<Rightarrow> nat \<Rightarrow> nat \<Rightarrow> nat \<Rightarrow> nat \<Rightarrow> Copy_Table" where
  "HK_CopyTable reserved hdr pw cm ad py mp = mission_entries hdr pw cm ad py mp @
     replicate 119 (copy_entry reserved 0 reserved 0 0) @ replicate 4 (copy_entry 0 0 0 0 0)"

lemma copy_entry_simps [simp]:
  "ce_InputMid (copy_entry inp ioff out ooff n) = inp"
  "ce_OutputMid (copy_entry inp ioff out ooff n) = out"
  "ioff < 65536 \<Longrightarrow> in_off (copy_entry inp ioff out ooff n) = ioff"
  "ooff < 65536 \<Longrightarrow> out_off (copy_entry inp ioff out ooff n) = ooff"
  "n < 65536 \<Longrightarrow> num (copy_entry inp ioff out ooff n) = n"
  by (simp_all add: copy_entry_def unat_of_nat)

lemma uint_NumBytes: "n < 65536 \<Longrightarrow> uint (ce_NumBytes (copy_entry inp ioff out ooff n)) = int n"
  by (simp add: copy_entry_def uint_nat unat_of_nat)

lemma packet_size_replicate:
  assumes "ce_OutputMid c \<noteq> mid"
  shows "packet_size (cs @ replicate n c) mid = packet_size cs mid"
proof -
  have "foldl (\<lambda>size c. if ce_OutputMid c = mid \<and> out_off c + num c > size
     then out_off c + num c else size) k (replicate n c) = k" for k
    using assms by (induction n) auto
  then show ?thesis by (simp add: packet_size_def)
qed


lemma HK_CopyTable_fit:
  assumes "\<not> cf_IsValidMsgId env reserved" "\<not> cf_IsValidMsgId env 0"
    and "cf_IsValidMsgId env HK_COMBINED_PKT1_MID" "hdr = cf_TlmHeader env"
    and "0 < pw" "0 < cm" "0 < ad" "0 < py" "0 < mp" "hdr + pw + cm + ad + py + mp < 65536"
  shows "table_fit env (HK_CopyTable reserved hdr pw cm ad py mp)"
proof -
  let ?cs = "HK_CopyTable reserved hdr pw cm ad py mp"
  let ?used = "mission_entries hdr pw cm ad py mp"
  have len: "length ?used = 5" by (simp add: mission_entries_def)
  have cs: "?cs = (?used @ replicate 119 (copy_entry reserved 0 reserved 0 0)) @ replicate 4 (copy_entry 0 0 0 0 0)"
    by (simp add: HK_CopyTable_def)
  have rest: "\<not> cf_IsValidMsgId env (ce_InputMid (?cs ! i))" if "i < length ?cs" "\<not> i < 5" for i
    using that assms(1,2) len by (auto simp: HK_CopyTable_def nth_append nth_Cons')
  have first: "?cs ! i = ?used ! i" if "i < 5" for i
    using that len by (subst cs) (simp add: nth_append)
  have five: "i < 5 \<longleftrightarrow> i = 0 \<or> i = 1 \<or> i = 2 \<or> i = 3 \<or> i = (4::nat)" for i by auto
  show ?thesis
    unfolding table_fit_def
  proof (intro conjI ballI allI impI)
    show "length ?cs = HK_COPY_TABLE_ENTRIES" by (simp add: HK_CopyTable_def mission_entries_def HK_COPY_TABLE_ENTRIES_def)
  next
    fix c assume c: "c \<in> set ?cs" and v: "cf_IsValidMsgId env (ce_InputMid c)"
    have "c \<in> set ?used" using c v assms(1,2) unfolding cs by auto
    then have "ce_OutputMid c = HK_COMBINED_PKT1_MID \<and> 0 < num c \<and> hdr \<le> out_off c"
      unfolding mission_entries_def using assms(5-10) by auto
    with assms(3,4) show "cf_IsValidMsgId env (ce_OutputMid c)" "0 < num c" "cf_TlmHeader env \<le> out_off c"
      by auto
  next
    fix i j assume i: "i < length ?cs" and j: "j < length ?cs"
      and h: "i \<noteq> j \<and> ce_OutputMid (?cs ! i) = ce_OutputMid (?cs ! j) \<and>
        cf_IsValidMsgId env (ce_InputMid (?cs ! i)) \<and> cf_IsValidMsgId env (ce_InputMid (?cs ! j))"
    then have "i < 5" "j < 5" using rest by blast+
    then show "apart (out_off (?cs ! i)) (num (?cs ! i)) (out_off (?cs ! j)) (num (?cs ! j))"
      unfolding first [OF \<open>i < 5\<close>] first [OF \<open>j < 5\<close>] mission_entries_def using h assms(10) unfolding five
      by (elim disjE) (simp_all add: apart_def)
  qed
qed

text \<open>C35. The combined packet of the mission is well laid out whatever sizes the compiler gives to the five
  housekeeping structures, as long as they fit 16-bit offsets: the five pieces lie behind the header, do
  not overlap and fill the packet without a gap, and the table passes validation exactly when they
  have at most 1500 bytes together.\<close>

theorem mission_copy_table_fit:
  assumes "\<not> cf_IsValidMsgId env reserved" "\<not> cf_IsValidMsgId env 0"
    and "cf_IsValidMsgId env HK_COMBINED_PKT1_MID" "hdr = cf_TlmHeader env"
    and "0 < pw" "0 < cm" "0 < ad" "0 < py" "0 < mp" "hdr + pw + cm + ad + py + mp < 65536"
  shows "let cs = HK_CopyTable reserved hdr pw cm ad py mp in
    table_fit env cs \<and> packet_size cs HK_COMBINED_PKT1_MID = hdr + pw + cm + ad + py + mp \<and>
    (fst (HK_ValidateHkCopyTable cs tr) = HK_SUCCESS \<longleftrightarrow> pw + cm + ad + py + mp \<le> 1500)"
proof -
  let ?cs = "HK_CopyTable reserved hdr pw cm ad py mp"
  let ?used = "mission_entries hdr pw cm ad py mp"
  have len: "length ?used = 5" by (simp add: mission_entries_def)
  have cs: "?cs = (?used @ replicate 119 (copy_entry reserved 0 reserved 0 0)) @ replicate 4 (copy_entry 0 0 0 0 0)"
    by (simp add: HK_CopyTable_def)
  have fit: "table_fit env ?cs" by (rule HK_CopyTable_fit [OF assms])
  have "reserved \<noteq> HK_COMBINED_PKT1_MID" "0 \<noteq> HK_COMBINED_PKT1_MID" using assms(1-3) by metis+
  then have "packet_size ?cs HK_COMBINED_PKT1_MID = packet_size ?used HK_COMBINED_PKT1_MID"
    by (subst cs) (simp add: packet_size_replicate del: append_assoc)
  also have "\<dots> = hdr + pw + cm + ad + py + mp"
    unfolding mission_entries_def packet_size_def using assms(5-10) by simp
  finally have size: "packet_size ?cs HK_COMBINED_PKT1_MID = hdr + pw + cm + ad + py + mp" .
  have "sum_list (map (\<lambda>c. uint (ce_NumBytes c)) ?cs) = int (pw + cm + ad + py + mp)"
    using assms(10) by (simp add: HK_CopyTable_def mission_entries_def uint_NumBytes sum_list_replicate)
  then show ?thesis using fit size
    by (simp add: Let_def HK_ValidateHkCopyTable_def HK_MAX_COMBINED_PACKET_SIZE_def)
qed

text \<open>An environment that keeps the promises of cFE, for concrete runs.\<close>

definition hk_env :: Cfs_Env where
  "hk_env = \<lparr>cf_svc = \<lambda>tr v. CFE_SUCCESS, cf_GetPoolBuf = \<lambda>tr n. (0, Suc (sum_list (pool_live tr))),
     cf_PutPoolBuf = \<lambda>tr a. 0, cf_IsValidMsgId = \<lambda>m. m \<noteq> 0,
     cf_MsgInit = \<lambda>mid n. take n (le32 mid @ zeros n),
     cf_MsgId = \<lambda>p. if 4 \<le> length p then read_le32 p 0 else 0, cf_FcnCode = \<lambda>p. 0,
     cf_TimeStamp = \<lambda>tr p. p, cf_CmdHeader = 4, cf_TlmHeader = 4\<rparr>"

lemma hk_env_ok: "cfs_env_ok hk_env"
proof -
  have fresh: "Suc (sum_list xs) \<notin> set xs" for xs :: "nat list"
    using member_le_sum_list [of "Suc (sum_list xs)" xs] by auto
  have id: "(if 4 \<le> length p then read_le32 p 0 else 0) = (if 4 \<le> length q then read_le32 q 0 else 0)"
    if "take 4 p = take 4 q" for p q :: "u8 list"
  proof -
    have "4 \<le> length p \<longleftrightarrow> 4 \<le> length q" using arg_cong [OF that, of length] by (auto simp: min_def split: if_splits)
    moreover have "p ! k = q ! k" if k: "k < 4" for k
      using arg_cong [OF \<open>take 4 p = take 4 q\<close>, of "\<lambda>l. l ! k"] k by simp
    ultimately show ?thesis by (simp add: read_le32_def read_le16_def)
  qed
  have init: "read_le32 (take n (le32 mid @ zeros n)) 0 = mid" if "4 \<le> n" for mid n
  proof -
    have "take n (le32 mid @ zeros n) = [] @ le32 mid @ zeros (n - 4)"
      using that by (simp add: le32_def zeros_def min_def take_Cons' numeral_eq_Suc)
    then show ?thesis using read_le32_at [of "[]" 0 mid "zeros (n - 4)"] by simp
  qed
  have len: "length (le32 mid @ zeros n) = 4 + n" for mid n by (simp add: le32_def)
  show ?thesis unfolding cfs_env_ok_def
  proof (intro conjI allI impI)
    fix p q :: "u8 list" assume "take (cf_TlmHeader hk_env) p = take (cf_TlmHeader hk_env) q"
    then show "cf_MsgId hk_env p = cf_MsgId hk_env q" using id [of p q] by (simp add: hk_env_def)
  next
    fix mid :: u32 and n assume "cf_TlmHeader hk_env \<le> n"
    then show "cf_MsgId hk_env (cf_MsgInit hk_env mid n) = mid" using init [of n mid] len
      by (simp add: hk_env_def min_def)
  qed (auto simp: hk_env_def fresh len)
qed

theorem mission_copy_table_fit_witness:
  "let cs = HK_CopyTable 0 4 26 208 144 44 40 in
    table_fit hk_env cs \<and> packet_size cs HK_COMBINED_PKT1_MID = 4 + 26 + 208 + 144 + 44 + 40 \<and>
    (fst (HK_ValidateHkCopyTable cs []) = HK_SUCCESS \<longleftrightarrow> (26::nat) + 208 + 144 + 44 + 40 \<le> 1500)"
  by (rule mission_copy_table_fit) (simp_all add: hk_env_def HK_COMBINED_PKT1_MID_def)


section \<open>What the runtime table records\<close>

text \<open>
  Buffers and subscriptions are those of the runtime table: each output packet has one address of its own,
  the addresses are the pool buffers in use, the flag of an entry tells whether its input message is
  subscribed, and behind the subscriptions made for the table are those there were before (\<open>ms\<close>).
\<close>

definition lease_ok :: "Copy_Table \<Rightarrow> u32 list \<Rightarrow> Runtime_Table \<Rightarrow> Cfs_Trace \<Rightarrow> bool" where
  "lease_ok cs ms rs tr \<longleftrightarrow> length cs = length rs \<and>
     (\<forall>i < length rs. \<forall>j < length rs. ce_OutputMid (cs ! i) = ce_OutputMid (cs ! j) \<longrightarrow>
        re_OutputPktAddr (rs ! i) = re_OutputPktAddr (rs ! j)) \<and>
     (\<forall>i < length rs. \<forall>j < length rs. \<forall>a. re_OutputPktAddr (rs ! i) = Some a \<longrightarrow>
        re_OutputPktAddr (rs ! j) = Some a \<longrightarrow> ce_OutputMid (cs ! i) = ce_OutputMid (cs ! j)) \<and>
     (\<forall>a. a \<in> set (pool_live tr) \<longleftrightarrow> (\<exists>i < length rs. re_OutputPktAddr (rs ! i) = Some a)) \<and>
     (\<forall>i < length rs. re_InputMidSubscribed (rs ! i) =
        (if ce_InputMid (cs ! i) \<in> set (subs_live tr) then HK_INPUTMID_SUBSCRIBED else HK_INPUTMID_NOT_SUBSCRIBED)) \<and>
     (\<exists>xs. subs_live tr = xs @ ms \<and> distinct xs \<and> set xs \<subseteq> ce_InputMid ` set cs)"

lemma lease_okD:
  assumes "lease_ok cs ms rs tr"
  shows "length cs = length rs"
    "\<And>i j. i < length rs \<Longrightarrow> j < length rs \<Longrightarrow> ce_OutputMid (cs ! i) = ce_OutputMid (cs ! j) \<Longrightarrow>
       re_OutputPktAddr (rs ! i) = re_OutputPktAddr (rs ! j)"
    "\<And>i j a. i < length rs \<Longrightarrow> j < length rs \<Longrightarrow> re_OutputPktAddr (rs ! i) = Some a \<Longrightarrow>
       re_OutputPktAddr (rs ! j) = Some a \<Longrightarrow> ce_OutputMid (cs ! i) = ce_OutputMid (cs ! j)"
    "\<And>a. a \<in> set (pool_live tr) \<longleftrightarrow> (\<exists>i < length rs. re_OutputPktAddr (rs ! i) = Some a)"
    "\<And>i. i < length rs \<Longrightarrow> re_InputMidSubscribed (rs ! i) =
       (if ce_InputMid (cs ! i) \<in> set (subs_live tr) then HK_INPUTMID_SUBSCRIBED else HK_INPUTMID_NOT_SUBSCRIBED)"
    "\<exists>xs. subs_live tr = xs @ ms \<and> distinct xs \<and> set xs \<subseteq> ce_InputMid ` set cs"
  using assms unfolding lease_ok_def by (elim conjE, assumption | blast)+

lemma lease_ok_same:
  assumes "lease_ok cs ms rs tr" "pool_live tr' = pool_live tr" "subs_live tr' = subs_live tr"
    and "map re_OutputPktAddr rs' = map re_OutputPktAddr rs"
    and "map re_InputMidSubscribed rs' = map re_InputMidSubscribed rs"
  shows "lease_ok cs ms rs' tr'"
proof -
  have len: "length rs' = length rs" using assms(4) by (rule map_eq_imp_length_eq)
  note d = lease_okD [OF assms(1)]
  have a: "re_OutputPktAddr (rs' ! i) = re_OutputPktAddr (rs ! i)" if "i < length rs" for i
    using arg_cong [OF assms(4), of "\<lambda>l. l ! i"] that len by simp
  have f: "re_InputMidSubscribed (rs' ! i) = re_InputMidSubscribed (rs ! i)" if "i < length rs" for i
    using arg_cong [OF assms(5), of "\<lambda>l. l ! i"] that len by simp
  show ?thesis unfolding lease_ok_def assms(2,3) len
  proof (intro conjI allI impI)
    fix i j assume i: "i < length rs" and j: "j < length rs" and eq: "ce_OutputMid (cs ! i) = ce_OutputMid (cs ! j)"
    show "re_OutputPktAddr (rs' ! i) = re_OutputPktAddr (rs' ! j)" using d(2) [OF i j eq] a [OF i] a [OF j] by simp
  next
    fix i j b assume i: "i < length rs" and j: "j < length rs"
      and eq: "re_OutputPktAddr (rs' ! i) = Some b" "re_OutputPktAddr (rs' ! j) = Some b"
    show "ce_OutputMid (cs ! i) = ce_OutputMid (cs ! j)" using d(3) [OF i j] eq a [OF i] a [OF j] by simp
  next
    fix b
    show "b \<in> set (pool_live tr) \<longleftrightarrow> (\<exists>i < length rs. re_OutputPktAddr (rs' ! i) = Some b)"
      using d(4) [of b] a by auto
  next
    fix i assume i: "i < length rs"
    show "re_InputMidSubscribed (rs' ! i) =
        (if ce_InputMid (cs ! i) \<in> set (subs_live tr) then HK_INPUTMID_SUBSCRIBED else HK_INPUTMID_NOT_SUBSCRIBED)"
      using d(5) [OF i] f [OF i] by (rule trans [rotated])
  qed (rule d(1,6))+
qed

lemma live_append:
  "pool_live (tr @ cs) = foldl pool_step (pool_live tr) cs"
  "subs_live (tr @ cs) = foldl subs_step (subs_live tr) cs"
  by (simp_all add: pool_live_def subs_live_def)

lemma lease_ok_build:
  assumes ok: "lease_ok cs ms rs tr" and env: "cfs_env_ok env" and i: "i < length rs"
    and step: "build_packet env cs i (rs, pool, tr) = (rs', pool', tr')"
  shows "lease_ok cs ms rs' tr'"
proof -
  note d = lease_okD [OF ok]
  let ?o = "ce_OutputMid (cs ! i)"
  obtain r a where g: "cf_GetPoolBuf env tr (packet_size cs ?o) = (r, a)" by force
  let ?tr = "tr @ [Cfs_GetPoolBuf (packet_size cs ?o) r a]" and ?rs = "assign_packet cs ?o a rs"
  have same: "lease_ok cs ms rs tr1" if "pool_live tr1 = pool_live tr" "subs_live tr1 = subs_live tr" for tr1
    by (rule lease_ok_same [OF ok that]) simp_all
  have taken: "lease_ok cs ms ?rs ?tr" if res: "0 \<le> r" and none: "re_OutputPktAddr (rs ! i) = None"
  proof -
    have fresh: "re_OutputPktAddr (rs ! j) \<noteq> Some a" if "j < length rs" for j
      using cfs_env_okD(1) [OF env g res] d(4) that by blast
    have none': "re_OutputPktAddr (rs ! j) = None" if "j < length rs" "ce_OutputMid (cs ! j) = ?o" for j
      using d(2) [OF that(1) i that(2)] none by simp
    have nth: "re_OutputPktAddr (?rs ! j) = (if ce_OutputMid (cs ! j) = ?o then Some a else re_OutputPktAddr (rs ! j))"
      "re_InputMidSubscribed (?rs ! j) = re_InputMidSubscribed (rs ! j)" if "j < length rs" for j
      using that d(1) by simp_all
    have live: "set (pool_live ?tr) = insert a (set (pool_live tr))" "subs_live ?tr = subs_live tr"
      using res by simp_all
    show ?thesis
      unfolding lease_ok_def live length_table_updates(1) [OF d(1)]
    proof (intro conjI allI impI)
      fix j k assume j: "j < length rs" and k: "k < length rs" and eq: "ce_OutputMid (cs ! j) = ce_OutputMid (cs ! k)"
      show "re_OutputPktAddr (?rs ! j) = re_OutputPktAddr (?rs ! k)"
        using eq d(2) [OF j k] nth(1) [OF j] nth(1) [OF k] by simp
    next
      fix j k b assume j: "j < length rs" and k: "k < length rs"
        and eq: "re_OutputPktAddr (?rs ! j) = Some b" "re_OutputPktAddr (?rs ! k) = Some b"
      show "ce_OutputMid (cs ! j) = ce_OutputMid (cs ! k)"
        using eq d(3) [OF j k] nth(1) [OF j] nth(1) [OF k] fresh [OF j] fresh [OF k] by (auto split: if_splits)
    next
      fix b
      show "b \<in> insert a (set (pool_live tr)) \<longleftrightarrow> (\<exists>j < length rs. re_OutputPktAddr (?rs ! j) = Some b)"
      proof (cases "b = a")
        case True
        with nth(1) [OF i] i show ?thesis by auto
      next
        case False
        have "re_OutputPktAddr (?rs ! j) = Some b \<longleftrightarrow> re_OutputPktAddr (rs ! j) = Some b" if "j < length rs" for j
          using nth(1) [OF that] none' [OF that] False by simp
        with d(4) [of b] False show ?thesis by auto
      qed
    next
      fix j assume j: "j < length rs"
      show "re_InputMidSubscribed (?rs ! j) =
        (if ce_InputMid (cs ! j) \<in> set (subs_live tr) then HK_INPUTMID_SUBSCRIBED else HK_INPUTMID_NOT_SUBSCRIBED)"
        using d(5) [OF j] nth(2) [OF j] by (rule trans [rotated])
    qed (rule d(1,6))+
  qed
  show ?thesis using step g taken same
    by (auto simp: build_packet_def Let_def cfs_event_def live_append split: if_splits)
qed

lemma hk_flags_differ [simp]: "HK_INPUTMID_SUBSCRIBED \<noteq> HK_INPUTMID_NOT_SUBSCRIBED"
  "HK_INPUTMID_NOT_SUBSCRIBED \<noteq> HK_INPUTMID_SUBSCRIBED"
  by (simp_all add: hk_flag_defs)

lemma lease_ok_mark:
  assumes ok: "lease_ok cs ms rs tr" and live: "pool_live tr' = pool_live tr"
    and subs: "\<forall>m \<in> ce_InputMid ` set cs. m \<in> set (subs_live tr') \<longleftrightarrow>
      (if m = mid then f = HK_INPUTMID_SUBSCRIBED else m \<in> set (subs_live tr))"
    and f: "f = HK_INPUTMID_SUBSCRIBED \<or> f = HK_INPUTMID_NOT_SUBSCRIBED"
    and xs: "\<exists>xs. subs_live tr' = xs @ ms \<and> distinct xs \<and> set xs \<subseteq> ce_InputMid ` set cs"
  shows "lease_ok cs ms (mark_input cs mid f rs) tr'"
proof -
  note d = lease_okD [OF ok]
  let ?rs = "mark_input cs mid f rs"
  have nth: "re_OutputPktAddr (?rs ! j) = re_OutputPktAddr (rs ! j)"
    "re_InputMidSubscribed (?rs ! j) = (if ce_InputMid (cs ! j) = mid then f else re_InputMidSubscribed (rs ! j))"
    if "j < length rs" for j
    using that d(1) by simp_all
  show ?thesis
    unfolding lease_ok_def live length_table_updates(2) [OF d(1)]
  proof (intro conjI allI impI)
    fix j k assume j: "j < length rs" and k: "k < length rs" and eq: "ce_OutputMid (cs ! j) = ce_OutputMid (cs ! k)"
    show "re_OutputPktAddr (?rs ! j) = re_OutputPktAddr (?rs ! k)" using d(2) [OF j k eq] nth(1) j k by simp
  next
    fix j k b assume j: "j < length rs" and k: "k < length rs"
      and eq: "re_OutputPktAddr (?rs ! j) = Some b" "re_OutputPktAddr (?rs ! k) = Some b"
    show "ce_OutputMid (cs ! j) = ce_OutputMid (cs ! k)" using d(3) [OF j k, of b] eq nth(1) j k by simp
  next
    fix b
    show "b \<in> set (pool_live tr) \<longleftrightarrow> (\<exists>j < length rs. re_OutputPktAddr (?rs ! j) = Some b)"
      using d(4) [of b] nth(1) by auto
  next
    fix j assume j: "j < length rs"
    have "ce_InputMid (cs ! j) \<in> ce_InputMid ` set cs" using j d(1) by simp
    with subs have "ce_InputMid (cs ! j) \<in> set (subs_live tr') \<longleftrightarrow>
      (if ce_InputMid (cs ! j) = mid then f = HK_INPUTMID_SUBSCRIBED else ce_InputMid (cs ! j) \<in> set (subs_live tr))"
      by blast
    then show "re_InputMidSubscribed (?rs ! j) =
      (if ce_InputMid (cs ! j) \<in> set (subs_live tr') then HK_INPUTMID_SUBSCRIBED else HK_INPUTMID_NOT_SUBSCRIBED)"
      using d(5) [OF j] nth(2) [OF j] f by auto
  qed (rule d(1) xs)+
qed

lemma lease_ok_subscribe:
  assumes ok: "lease_ok cs ms rs tr" and i: "i < length rs"
    and step: "subscribe_input env cs i (rs, pool, tr) = (rs', pool', tr')"
  shows "lease_ok cs ms rs' tr'"
proof -
  note d = lease_okD [OF ok]
  let ?m = "ce_InputMid (cs ! i)"
  have same: "lease_ok cs ms rs tr1" if "pool_live tr1 = pool_live tr" "subs_live tr1 = subs_live tr" for tr1
    by (rule lease_ok_same [OF ok that]) simp_all
  have new: "lease_ok cs ms (mark_input cs ?m HK_INPUTMID_SUBSCRIBED rs) (tr @ [Cfs_Svc (Cfs_SB_Subscribe ?m) CFE_SUCCESS])"
    if "re_InputMidSubscribed (rs ! i) = HK_INPUTMID_NOT_SUBSCRIBED"
  proof (rule lease_ok_mark [OF ok])
    have no: "?m \<notin> set (subs_live tr)" using d(5) [OF i] that by (auto split: if_splits)
    obtain xs where xs: "subs_live tr = xs @ ms" "distinct xs" "set xs \<subseteq> ce_InputMid ` set cs" using d(6) by blast
    have "?m \<in> ce_InputMid ` set cs" using i d(1) by simp
    with xs no have "subs_live (tr @ [Cfs_Svc (Cfs_SB_Subscribe ?m) CFE_SUCCESS]) = (?m # xs) @ ms \<and>
        distinct (?m # xs) \<and> set (?m # xs) \<subseteq> ce_InputMid ` set cs" by auto
    then show "\<exists>xs. subs_live (tr @ [Cfs_Svc (Cfs_SB_Subscribe ?m) CFE_SUCCESS]) = xs @ ms \<and> distinct xs \<and>
        set xs \<subseteq> ce_InputMid ` set cs" by blast
  qed auto
  show ?thesis using step new same ok
    by (auto simp: subscribe_input_def cfs_call_def cfs_event_def live_append Let_def split: if_splits)
qed

lemma lease_ok_unsubscribe:
  assumes ok: "lease_ok cs ms rs tr" and i: "i < length rs" and ms: "set ms \<inter> ce_InputMid ` set cs = {}"
    and step: "unsubscribe_input cs i (rs, pool, tr) = (rs', pool', tr')"
  shows "lease_ok cs ms rs' tr'" "ce_InputMid (cs ! i) \<notin> set (subs_live tr')"
    "set (subs_live tr') \<subseteq> set (subs_live tr)" "map re_OutputPktAddr rs' = map re_OutputPktAddr rs"
proof -
  note d = lease_okD [OF ok]
  let ?m = "ce_InputMid (cs ! i)"
  have m: "?m \<in> ce_InputMid ` set cs" using i d(1) by simp
  have new: "lease_ok cs ms (mark_input cs ?m HK_INPUTMID_NOT_SUBSCRIBED rs) (tr @ [Cfs_Unsubscribe ?m])"
  proof (rule lease_ok_mark [OF ok])
    obtain xs where xs: "subs_live tr = xs @ ms" "distinct xs" "set xs \<subseteq> ce_InputMid ` set cs" using d(6) by blast
    have "removeAll ?m ms = ms" using m ms by (intro removeAll_id) blast
    with xs have "subs_live (tr @ [Cfs_Unsubscribe ?m]) = removeAll ?m xs @ ms \<and>
        distinct (removeAll ?m xs) \<and> set (removeAll ?m xs) \<subseteq> ce_InputMid ` set cs" by (auto simp: distinct_removeAll)
    then show "\<exists>xs. subs_live (tr @ [Cfs_Unsubscribe ?m]) = xs @ ms \<and> distinct xs \<and>
        set xs \<subseteq> ce_InputMid ` set cs" by blast
  qed auto
  have addrs: "map re_OutputPktAddr (mark_input cs mid f rs) = map re_OutputPktAddr rs" for mid f
    using d(1) by (intro nth_equalityI) simp_all
  show "lease_ok cs ms rs' tr'" "map re_OutputPktAddr rs' = map re_OutputPktAddr rs"
    "set (subs_live tr') \<subseteq> set (subs_live tr)"
    using step new ok addrs by (auto simp: unsubscribe_input_def Let_def split: if_splits)
  show "?m \<notin> set (subs_live tr')"
    using step d(5) [OF i] by (auto simp: unsubscribe_input_def Let_def split: if_splits)
qed

lemma lease_ok_free:
  assumes ok: "lease_ok cs ms rs tr" and i: "i < length rs" and put: "\<forall>tr a. 0 \<le> cf_PutPoolBuf env tr a"
    and step: "free_packet env cs i (rs, pool, tr) = (rs', pool', tr')"
  shows "lease_ok cs ms rs' tr'" "re_OutputPktAddr (rs' ! i) = None"
    "\<forall>j < length rs. re_OutputPktAddr (rs ! j) = None \<longrightarrow> re_OutputPktAddr (rs' ! j) = None"
    "subs_live tr' = subs_live tr"
proof -
  note d = lease_okD [OF ok]
  let ?o = "ce_OutputMid (cs ! i)"
  have "lease_ok cs ms rs' tr' \<and> re_OutputPktAddr (rs' ! i) = None \<and>
    (\<forall>j < length rs. re_OutputPktAddr (rs ! j) = None \<longrightarrow> re_OutputPktAddr (rs' ! j) = None) \<and>
    subs_live tr' = subs_live tr"
  proof (cases "re_OutputPktAddr (rs ! i)")
    case None
    then have "(rs', pool', tr') = (rs, pool, tr)" using step by (simp add: free_packet_def)
    with ok None show ?thesis by simp
  next
    case (Some a)
    let ?rs = "clear_packet cs ?o a rs" and ?tr = "tr @ [Cfs_PutPoolBuf a (cf_PutPoolBuf env tr a)]"
    have eq: "rs' = ?rs" "tr' = ?tr" using step Some put by (auto simp: free_packet_def Let_def)
    have owner: "ce_OutputMid (cs ! j) = ?o" if "j < length rs" "re_OutputPktAddr (rs ! j) = Some a" for j
      using d(3) [OF that(1) i that(2) Some] .
    have nth: "re_OutputPktAddr (?rs ! j) =
        (if re_OutputPktAddr (rs ! j) = Some a then None else re_OutputPktAddr (rs ! j))"
      "re_InputMidSubscribed (?rs ! j) = re_InputMidSubscribed (rs ! j)" if "j < length rs" for j
      using that d(1) owner by auto
    have live: "set (pool_live ?tr) = set (pool_live tr) - {a}" "subs_live ?tr = subs_live tr" using put by auto
    have "lease_ok cs ms ?rs ?tr"
      unfolding lease_ok_def live length_table_updates(3) [OF d(1)]
    proof (intro conjI allI impI)
      fix j k assume j: "j < length rs" and k: "k < length rs" and eq: "ce_OutputMid (cs ! j) = ce_OutputMid (cs ! k)"
      show "re_OutputPktAddr (?rs ! j) = re_OutputPktAddr (?rs ! k)" using d(2) [OF j k eq] nth(1) j k by simp
    next
      fix j k b assume j: "j < length rs" and k: "k < length rs"
        and eq: "re_OutputPktAddr (?rs ! j) = Some b" "re_OutputPktAddr (?rs ! k) = Some b"
      show "ce_OutputMid (cs ! j) = ce_OutputMid (cs ! k)"
        using eq d(3) [OF j k] nth(1) [OF j] nth(1) [OF k] by (auto split: if_splits)
    next
      fix b
      show "b \<in> set (pool_live tr) - {a} \<longleftrightarrow> (\<exists>j < length rs. re_OutputPktAddr (?rs ! j) = Some b)"
        using d(4) [of b] nth(1) by (auto split: if_splits)
    next
      fix j assume j: "j < length rs"
      show "re_InputMidSubscribed (?rs ! j) =
        (if ce_InputMid (cs ! j) \<in> set (subs_live tr) then HK_INPUTMID_SUBSCRIBED else HK_INPUTMID_NOT_SUBSCRIBED)"
        using d(5) [OF j] nth(2) [OF j] by (rule trans [rotated])
    qed (rule d(1,6))+
    with eq live(2) nth(1) Some i show ?thesis by simp
  qed
  then show "lease_ok cs ms rs' tr'" "re_OutputPktAddr (rs' ! i) = None"
    "\<forall>j < length rs. re_OutputPktAddr (rs ! j) = None \<longrightarrow> re_OutputPktAddr (rs' ! j) = None"
    "subs_live tr' = subs_live tr" by blast+
qed

section \<open>Taking a table in and down\<close>

lemma lease_ok_new:
  assumes env: "cfs_env_ok env"
  shows "lease_ok cs ms rs tr \<Longrightarrow> \<forall>i \<in> set is. i < length rs \<Longrightarrow>
    new_table_loop env cs is (rs, pool, tr) = (rs', pool', tr') \<Longrightarrow> lease_ok cs ms rs' tr'"
proof (induction "is" arbitrary: rs pool tr)
  case Nil
  then show ?case by simp
next
  case (Cons i js)
  obtain rs1 pool1 tr1 where b: "build_packet env cs i (rs, pool, tr) = (rs1, pool1, tr1)" by (rule prod_cases3)
  obtain rs2 pool2 tr2 where u: "subscribe_input env cs i (rs1, pool1, tr1) = (rs2, pool2, tr2)" by (rule prod_cases3)
  have 1: "lease_ok cs ms rs1 tr1" using lease_ok_build [OF Cons.prems(1) env _ b] Cons.prems(2) by simp
  have l1: "length rs1 = length rs" using lease_okD(1) [OF 1] lease_okD(1) [OF Cons.prems(1)] by simp
  have 2: "lease_ok cs ms rs2 tr2" using lease_ok_subscribe [OF 1 _ u] Cons.prems(2) l1 by simp
  have l2: "length rs2 = length rs" using lease_okD(1) [OF 2] lease_okD(1) [OF Cons.prems(1)] by simp
  show ?case by (rule Cons.IH [OF 2]) (use Cons.prems(2,3) l2 b u in simp_all)
qed

text \<open>When a subscription never fails, every valid input message of the table is subscribed.\<close>

lemma subscribed_new:
  assumes env: "cfs_env_ok env" and good: "\<forall>tr m. cf_svc env tr (Cfs_SB_Subscribe m) = CFE_SUCCESS"
  shows "lease_ok cs ms rs tr \<Longrightarrow> \<forall>i \<in> set is. i < length rs \<Longrightarrow>
    new_table_loop env cs is (rs, pool, tr) = (rs', pool', tr') \<Longrightarrow>
    set (subs_live tr) \<subseteq> set (subs_live tr') \<and>
    (\<forall>i \<in> set is. cf_IsValidMsgId env (ce_InputMid (cs ! i)) \<longrightarrow> ce_InputMid (cs ! i) \<in> set (subs_live tr'))"
proof (induction "is" arbitrary: rs pool tr)
  case Nil
  then show ?case by simp
next
  case (Cons i js)
  obtain rs1 pool1 tr1 where b: "build_packet env cs i (rs, pool, tr) = (rs1, pool1, tr1)" by (rule prod_cases3)
  obtain rs2 pool2 tr2 where u: "subscribe_input env cs i (rs1, pool1, tr1) = (rs2, pool2, tr2)" by (rule prod_cases3)
  have 1: "lease_ok cs ms rs1 tr1" using lease_ok_build [OF Cons.prems(1) env _ b] Cons.prems(2) by simp
  have l1: "length rs1 = length rs" using lease_okD(1) [OF 1] lease_okD(1) [OF Cons.prems(1)] by simp
  have 2: "lease_ok cs ms rs2 tr2" using lease_ok_subscribe [OF 1 _ u] Cons.prems(2) l1 by simp
  have l2: "length rs2 = length rs" using lease_okD(1) [OF 2] lease_okD(1) [OF Cons.prems(1)] by simp
  have s1: "subs_live tr1 = subs_live tr"
    using b by (auto simp: build_packet_def cfs_event_def live_append Let_def split: prod.splits if_splits)
  have s2: "set (subs_live tr1) \<subseteq> set (subs_live tr2)"
    using u good by (auto simp: subscribe_input_def cfs_call_def Let_def split: if_splits)
  have i2: "cf_IsValidMsgId env (ce_InputMid (cs ! i)) \<Longrightarrow> ce_InputMid (cs ! i) \<in> set (subs_live tr2)"
    using u good lease_okD(5) [OF 1, of i] Cons.prems(2) l1
    by (auto simp: subscribe_input_def cfs_call_def Let_def split: if_splits)
  have "set (subs_live tr2) \<subseteq> set (subs_live tr') \<and>
    (\<forall>i \<in> set js. cf_IsValidMsgId env (ce_InputMid (cs ! i)) \<longrightarrow> ce_InputMid (cs ! i) \<in> set (subs_live tr'))"
    by (rule Cons.IH [OF 2]) (use Cons.prems(2,3) l2 b u in simp_all)
  with s1 s2 i2 show ?case by auto
qed

lemma lease_ok_tear_down:
  assumes put: "\<forall>tr a. 0 \<le> cf_PutPoolBuf env tr a" and ms: "set ms \<inter> ce_InputMid ` set cs = {}"
  shows "lease_ok cs ms rs tr \<Longrightarrow> \<forall>i \<in> set is. i < length rs \<Longrightarrow>
    tear_down_loop env cs is (rs, pool, tr) = (rs', pool', tr') \<Longrightarrow>
    lease_ok cs ms rs' tr' \<and> set (subs_live tr') \<subseteq> set (subs_live tr) \<and>
    (\<forall>j < length rs. re_OutputPktAddr (rs ! j) = None \<longrightarrow> re_OutputPktAddr (rs' ! j) = None) \<and>
    (\<forall>i \<in> set is. re_OutputPktAddr (rs' ! i) = None \<and> ce_InputMid (cs ! i) \<notin> set (subs_live tr'))"
proof (induction "is" arbitrary: rs pool tr)
  case Nil
  then show ?case by simp
next
  case (Cons i js)
  obtain rs1 pool1 tr1 where b: "free_packet env cs i (rs, pool, tr) = (rs1, pool1, tr1)" by (rule prod_cases3)
  obtain rs2 pool2 tr2 where u: "unsubscribe_input cs i (rs1, pool1, tr1) = (rs2, pool2, tr2)" by (rule prod_cases3)
  have i: "i < length rs" using Cons.prems(2) by simp
  note 1 = lease_ok_free [OF Cons.prems(1) i put b]
  have l1: "length rs1 = length rs" using lease_okD(1) [OF 1(1)] lease_okD(1) [OF Cons.prems(1)] by simp
  have i1: "i < length rs1" using i l1 by simp
  note 2 = lease_ok_unsubscribe [OF 1(1) i1 ms u]
  have l2: "length rs2 = length rs" using lease_okD(1) [OF 2(1)] lease_okD(1) [OF Cons.prems(1)] by simp
  have a2: "re_OutputPktAddr (rs2 ! j) = re_OutputPktAddr (rs1 ! j)" if "j < length rs" for j
    using arg_cong [OF 2(4), of "\<lambda>l. l ! j"] that l1 l2 by simp
  have IH: "lease_ok cs ms rs' tr' \<and> set (subs_live tr') \<subseteq> set (subs_live tr2) \<and>
    (\<forall>j < length rs2. re_OutputPktAddr (rs2 ! j) = None \<longrightarrow> re_OutputPktAddr (rs' ! j) = None) \<and>
    (\<forall>i \<in> set js. re_OutputPktAddr (rs' ! i) = None \<and> ce_InputMid (cs ! i) \<notin> set (subs_live tr'))"
    by (rule Cons.IH [OF 2(1)]) (use Cons.prems(2,3) l2 b u in simp_all)
  have "re_OutputPktAddr (rs' ! i) = None" using IH 1(2) a2 i l2 by simp
  moreover have "ce_InputMid (cs ! i) \<notin> set (subs_live tr')" using IH 2(2) by blast
  moreover have "set (subs_live tr') \<subseteq> set (subs_live tr)" using IH 2(3) 1(4) by auto
  moreover have "\<forall>j < length rs. re_OutputPktAddr (rs ! j) = None \<longrightarrow> re_OutputPktAddr (rs' ! j) = None"
    using IH 1(3) a2 l2 by simp
  ultimately show ?case using IH by simp
qed

lemma incoming_loop_keeps:
  "incoming_loop mid buf cs rs pool errs = Returns (rs', pool', errs') \<Longrightarrow>
   map re_OutputPktAddr rs' = map re_OutputPktAddr rs \<and> map re_InputMidSubscribed rs' = map re_InputMidSubscribed rs"
  by (induction mid buf cs rs pool errs arbitrary: rs' pool' errs' rule: incoming_loop.induct)
    (auto simp: run_bind_Returns_iff split: if_splits option.splits)

definition hk_leases :: "Copy_Table \<Rightarrow> u32 list \<Rightarrow> HK_AppData \<Rightarrow> Cfs_Trace \<Rightarrow> bool" where
  "hk_leases cs ms s tr \<longleftrightarrow> hk_CopyTable s = Some cs \<and>
     (\<exists>rs. hk_RuntimeTable s = Some rs \<and> length rs = length cs \<and> lease_ok cs ms rs tr)"

lemma hk_leases_op:
  assumes ok: "hk_leases cs ms s tr" and step: "hk_op env p s tr = Returns (s', tr')"
  shows "hk_leases cs ms s' tr'"
proof -
  obtain rs where rs: "hk_CopyTable s = Some cs" "hk_RuntimeTable s = Some rs" "length rs = length cs"
    "lease_ok cs ms rs tr" using ok by (auto simp: hk_leases_def)
  have "\<exists>rs'. hk_CopyTable s' = Some cs \<and> hk_RuntimeTable s' = Some rs' \<and>
    map re_OutputPktAddr rs' = map re_OutputPktAddr rs \<and> map re_InputMidSubscribed rs' = map re_InputMidSubscribed rs \<and>
    pool_live tr' = pool_live tr \<and> subs_live tr' = subs_live tr"
  proof (cases p)
    case (HK_Incoming m)
    obtain rs' pool errs where l: "incoming_loop (cf_MsgId env m) m cs rs (hk_Pool s) 0 = Returns (rs', pool, errs)"
      "s' = s\<lparr>hk_RuntimeTable := Some rs', hk_Pool := pool\<rparr>"
      "tr' = (if errs \<noteq> 0 then cfs_event HK_ACCESSING_PAST_PACKET_END_EID EVS_ERROR tr else tr)"
      using step HK_Incoming rs(1,2) by (auto simp: HK_ProcessIncomingHkData_def run_bind_Returns_iff)
    with incoming_loop_keeps [OF l(1)] rs(1) show ?thesis by (auto simp: cfs_event_def)
  next
    case (HK_Send mid)
    let ?rs = "HK_SetFlagsToNotPresent mid cs rs"
    have keep: "map re_OutputPktAddr ?rs = map re_OutputPktAddr rs"
      "map re_InputMidSubscribed ?rs = map re_InputMidSubscribed rs"
      using rs(3) by (auto intro!: nth_equalityI)
    from step HK_Send rs(1,2) consider "s' = s" "tr' = cfs_event HK_UNKNOWN_COMBINED_PACKET_EID EVS_INFORMATION tr"
      | a where "send_packet env mid cs rs a (the (hk_Pool s a)) s tr = (s', tr')"
      by (auto simp: HK_SendCombinedHkPacket_def run_bind_Returns_iff split: option.splits)
    then show ?thesis
    proof cases
      case 1
      with rs(1,2) show ?thesis by (auto simp: cfs_event_def)
    next
      case 2
      with keep rs(1) show ?thesis
        by (auto simp: send_packet_def cfs_event_def cfs_transmit_def live_append Let_def split: if_splits)
    qed
  qed
  then obtain rs' where rs': "hk_CopyTable s' = Some cs" "hk_RuntimeTable s' = Some rs'"
    "map re_OutputPktAddr rs' = map re_OutputPktAddr rs" "map re_InputMidSubscribed rs' = map re_InputMidSubscribed rs"
    "pool_live tr' = pool_live tr" "subs_live tr' = subs_live tr" by blast
  have "lease_ok cs ms rs' tr'" by (rule lease_ok_same [OF rs(4) rs'(5,6,3,4)])
  moreover have "length rs' = length cs" using map_eq_imp_length_eq [OF rs'(3)] rs(3) by simp
  ultimately show ?thesis using rs'(1,2) by (auto simp: hk_leases_def)
qed

lemma hk_leases_ops:
  "hk_leases cs ms s tr \<Longrightarrow> hk_ops env ops s tr = Returns (s', tr') \<Longrightarrow> hk_leases cs ms s' tr'"
  by (induction ops arbitrary: s tr) (auto simp: run_bind_Returns_iff dest: hk_leases_op)

section \<open>A table without packets\<close>

lemma exhausted_loop:
  assumes "\<forall>tr n. fst (cf_GetPoolBuf env tr n) < 0"
  shows "\<forall>r \<in> set rs. re_OutputPktAddr r = None \<Longrightarrow>
    new_table_loop env cs is (rs, pool, tr) = (rs', pool', tr') \<Longrightarrow> \<forall>r \<in> set rs'. re_OutputPktAddr r = None"
proof (induction "is" arbitrary: rs pool tr)
  case Nil
  then show ?case by simp
next
  case (Cons i js)
  obtain rs1 pool1 tr1 where b: "build_packet env cs i (rs, pool, tr) = (rs1, pool1, tr1)" by (rule prod_cases3)
  obtain rs2 pool2 tr2 where u: "subscribe_input env cs i (rs1, pool1, tr1) = (rs2, pool2, tr2)" by (rule prod_cases3)
  have "\<not> 0 \<le> fst (cf_GetPoolBuf env tr n)" for n using assms by (simp add: not_le)
  then have "rs1 = rs" using b by (auto simp: build_packet_def Let_def split: prod.splits if_splits) (metis fst_conv)+
  moreover have "rs2 = rs1 \<or> rs2 = mark_input cs (ce_InputMid (cs ! i)) HK_INPUTMID_SUBSCRIBED rs1"
    using u by (auto simp: subscribe_input_def cfs_call_def Let_def split: if_splits)
  ultimately have "\<forall>r \<in> set rs2. re_OutputPktAddr r = None"
    using Cons.prems(1) by (auto simp: mark_input_def dest!: set_zip_rightD split: if_splits)
  from Cons.IH [OF this] Cons.prems(2) b u show ?case by simp
qed

lemma incoming_loop_null:
  "\<forall>r \<in> set rs. re_OutputPktAddr r = None \<Longrightarrow> (c, r) \<in> set (zip cs rs) \<Longrightarrow> takes env c m \<Longrightarrow>
   incoming_loop (cf_MsgId env m) m cs rs pool errs = OutOfBounds"
proof (induction "cf_MsgId env m" m cs rs pool errs rule: incoming_loop.induct)
  case (1 buf c' cs r' rs pool errs)
  then show ?case by (auto simp: takes_def mem_read_def pool_write_def)
qed auto

section \<open>Properties\<close>

lemma lease_created:
  assumes env: "cfs_env_ok env" and s: "hk_CopyTable s = Some cs" "hk_RuntimeTable s = Some rs"
    and len: "length cs = HK_COPY_TABLE_ENTRIES" "length rs = HK_COPY_TABLE_ENTRIES"
    and fresh: "pool_live tr = []" "set (subs_live tr) \<inter> ce_InputMid ` set cs = {}"
    and run: "HK_ProcessNewCopyTable env s tr = (ok, s0, tr0)"
  shows "hk_leases cs (subs_live tr) s0 tr0"
    and "\<forall>tr m. cf_svc env tr (Cfs_SB_Subscribe m) = CFE_SUCCESS \<Longrightarrow>
      {m \<in> ce_InputMid ` set cs. cf_IsValidMsgId env m} \<subseteq> set (subs_live tr0)"
proof -
  let ?is = "[0..<HK_COPY_TABLE_ENTRIES]"
  have start: "lease_ok cs (subs_live tr) (fresh_runtime rs) tr"
    using len fresh by (auto simp: lease_ok_def fresh_runtime_def)
  obtain rs0 pool0 where n: "new_table_loop env cs ?is (fresh_runtime rs, hk_Pool s, tr) = (rs0, pool0, tr0)"
    and s0: "s0 = s\<lparr>hk_RuntimeTable := Some rs0, hk_Pool := pool0\<rparr>"
    using s run by (auto simp: HK_ProcessNewCopyTable_def split: prod.splits)
  have l0: "lease_ok cs (subs_live tr) rs0 tr0" using lease_ok_new [OF env start _ n] len by simp
  then show "hk_leases cs (subs_live tr) s0 tr0"
    using s0 s lease_okD(1) [OF l0] by (simp add: hk_leases_def)
  assume "\<forall>tr m. cf_svc env tr (Cfs_SB_Subscribe m) = CFE_SUCCESS"
  from subscribed_new [OF env this start _ n] len
  show "{m \<in> ce_InputMid ` set cs. cf_IsValidMsgId env m} \<subseteq> set (subs_live tr0)"
    by (auto simp: in_set_conv_nth)
qed

lemma lease_torn_down:
  assumes put: "\<forall>tr a. 0 \<le> cf_PutPoolBuf env tr a" and ms: "set ms \<inter> ce_InputMid ` set cs = {}"
    and len: "length cs = HK_COPY_TABLE_ENTRIES" and lease: "hk_leases cs ms s tr"
    and run: "HK_TearDownOldCopyTable env s tr = (ok, s', tr')"
  shows "ok \<and> pool_live tr' = [] \<and> subs_live tr' = ms \<and>
    (\<exists>rs'. hk_RuntimeTable s' = Some rs' \<and> length rs' = HK_COPY_TABLE_ENTRIES \<and>
      (\<forall>r \<in> set rs'. re_OutputPktAddr r = None \<and> re_InputMidSubscribed r = HK_INPUTMID_NOT_SUBSCRIBED))"
proof -
  obtain rs where rs: "hk_CopyTable s = Some cs" "hk_RuntimeTable s = Some rs" "length rs = length cs"
    "lease_ok cs ms rs tr" using lease by (auto simp: hk_leases_def)
  obtain rs2 pool2 where t: "tear_down_loop env cs [0..<HK_COPY_TABLE_ENTRIES] (rs, hk_Pool s, tr) = (rs2, pool2, tr')"
    and s2: "s' = s\<lparr>hk_RuntimeTable := Some rs2, hk_Pool := pool2\<rparr>" and ok: "ok"
    using rs(1,2) run by (auto simp: HK_TearDownOldCopyTable_def split: prod.splits)
  have down: "lease_ok cs ms rs2 tr'"
    "\<And>i. i < length cs \<Longrightarrow> re_OutputPktAddr (rs2 ! i) = None \<and> ce_InputMid (cs ! i) \<notin> set (subs_live tr')"
    using lease_ok_tear_down [OF put ms rs(4) _ t] len rs(3) by simp_all
  note d = lease_okD [OF down(1)]
  have "a \<notin> set (pool_live tr')" for a using d(1,4) down(2) by auto
  then have "pool_live tr' = []" by (cases "pool_live tr'") auto
  moreover have "subs_live tr' = ms"
  proof -
    obtain ys where ys: "subs_live tr' = ys @ ms" "set ys \<subseteq> ce_InputMid ` set cs" using d(6) by blast
    have "m \<notin> set (subs_live tr')" if "m \<in> ce_InputMid ` set cs" for m
      using down(2) that by (auto simp: in_set_conv_nth)
    with ys have "ys = []" by (cases ys) auto
    with ys show ?thesis by simp
  qed
  moreover have "\<forall>r \<in> set rs2. re_OutputPktAddr r = None \<and> re_InputMidSubscribed r = HK_INPUTMID_NOT_SUBSCRIBED"
    using down(2) d(1,5) by (auto simp: in_set_conv_nth)
  ultimately show ?thesis using ok s2 d(1) len by auto
qed

text \<open>C16. Replacing a copy table leaks nothing. Whatever allocations and subscriptions failed while the
  table was taken in and whatever packets were handled since, taking it down gives back every pool
  buffer, leaves exactly the subscriptions that were there before the table, and clears the runtime
  table. While the table is in use no input message is subscribed twice, and if the bus refused none
  every valid input message of the table is subscribed.\<close>

theorem hk_table_swap:
  assumes "cfs_env_ok env" "\<forall>tr a. 0 \<le> cf_PutPoolBuf env tr a"
    and "hk_CopyTable s = Some cs" "hk_RuntimeTable s = Some rs"
    and "length cs = HK_COPY_TABLE_ENTRIES" "length rs = HK_COPY_TABLE_ENTRIES"
    and "pool_live tr = []" "set (subs_live tr) \<inter> ce_InputMid ` set cs = {}"
    and "HK_ProcessNewCopyTable env s tr = (ok, s0, tr0)"
    and "hk_ops env ops s0 tr0 = Returns (s1, tr1)"
    and "HK_TearDownOldCopyTable env s1 tr1 = (ok', s2, tr2)"
  shows "(\<exists>xs. subs_live tr0 = xs @ subs_live tr \<and> distinct xs \<and> set xs \<subseteq> ce_InputMid ` set cs \<and>
      ((\<forall>tr m. cf_svc env tr (Cfs_SB_Subscribe m) = CFE_SUCCESS) \<longrightarrow>
        {m \<in> ce_InputMid ` set cs. cf_IsValidMsgId env m} \<subseteq> set xs)) \<and>
    ok' \<and> pool_live tr2 = [] \<and> subs_live tr2 = subs_live tr \<and>
    (\<exists>rs'. hk_RuntimeTable s2 = Some rs' \<and> length rs' = HK_COPY_TABLE_ENTRIES \<and>
      (\<forall>r \<in> set rs'. re_OutputPktAddr r = None \<and> re_InputMidSubscribed r = HK_INPUTMID_NOT_SUBSCRIBED))"
proof -
  note lease = lease_created [OF assms(1,3-9)]
  obtain rs0 where "lease_ok cs (subs_live tr) rs0 tr0" using lease(1) by (auto simp: hk_leases_def)
  from lease_okD(6) [OF this] obtain xs
    where xs: "subs_live tr0 = xs @ subs_live tr" "distinct xs" "set xs \<subseteq> ce_InputMid ` set cs" by blast
  have "{m \<in> ce_InputMid ` set cs. cf_IsValidMsgId env m} \<subseteq> set xs"
    if "\<forall>tr m. cf_svc env tr (Cfs_SB_Subscribe m) = CFE_SUCCESS"
    using lease(2) [OF that] xs(1) assms(8) by auto
  with xs lease_torn_down [OF assms(2,8,5) hk_leases_ops [OF lease(1) assms(10)] assms(11)]
  show ?thesis by blast
qed

definition hk_start :: HK_AppData where
  "hk_start = \<lparr>hk_HkPacket = zeros 16, hk_CmdCounter = 0, hk_ErrCounter = 0, hk_MissingDataCtr = 0,
     hk_CombinedPacketsSent = 0, hk_MemPoolHandle = 0, hk_RunStatus = HK_APP_RUN,
     hk_CopyTable = Some (HK_CopyTable 0 4 26 208 144 44 40),
     hk_RuntimeTable = Some (replicate HK_COPY_TABLE_ENTRIES
       \<lparr>re_OutputPktAddr = None, re_InputMidSubscribed = 0, re_DataPresent = 0\<rparr>),
     hk_Pool = Map.empty\<rparr>"

lemma hk_start_simps [simp]:
  "hk_CopyTable hk_start = Some (HK_CopyTable 0 4 26 208 144 44 40)"
  "hk_RuntimeTable hk_start = Some (replicate HK_COPY_TABLE_ENTRIES
     \<lparr>re_OutputPktAddr = None, re_InputMidSubscribed = 0, re_DataPresent = 0\<rparr>)"
  by (simp_all add: hk_start_def)

lemma hk_env_simps [simp]:
  "cf_PutPoolBuf hk_env tr a = 0" "cf_IsValidMsgId hk_env m \<longleftrightarrow> m \<noteq> 0" "cf_svc hk_env tr v = CFE_SUCCESS"
  "cf_TlmHeader hk_env = 4" "cf_CmdHeader hk_env = 4" "cf_GetPoolBuf hk_env tr n = (0, Suc (sum_list (pool_live tr)))"
  "cf_MsgId hk_env p = (if 4 \<le> length p then read_le32 p 0 else 0)"
  by (simp_all add: hk_env_def)

lemma length_HK_CopyTable [simp]: "length (HK_CopyTable r h a b c d e) = HK_COPY_TABLE_ENTRIES"
  by (simp add: HK_CopyTable_def mission_entries_def HK_COPY_TABLE_ENTRIES_def)

theorem hk_table_swap_witness:
  "let cs = HK_CopyTable 0 4 26 208 144 44 40; n = HK_ProcessNewCopyTable hk_env hk_start [];
       s0 = fst (snd n); tr0 = snd (snd n); d = HK_TearDownOldCopyTable hk_env s0 tr0 in
    (\<exists>xs. subs_live tr0 = xs @ subs_live [] \<and> distinct xs \<and> set xs \<subseteq> ce_InputMid ` set cs \<and>
      ((\<forall>tr m. cf_svc hk_env tr (Cfs_SB_Subscribe m) = CFE_SUCCESS) \<longrightarrow>
        {m \<in> ce_InputMid ` set cs. cf_IsValidMsgId hk_env m} \<subseteq> set xs)) \<and>
    fst d \<and> pool_live (snd (snd d)) = [] \<and> subs_live (snd (snd d)) = subs_live [] \<and>
    (\<exists>rs'. hk_RuntimeTable (fst (snd d)) = Some rs' \<and> length rs' = HK_COPY_TABLE_ENTRIES \<and>
      (\<forall>r \<in> set rs'. re_OutputPktAddr r = None \<and> re_InputMidSubscribed r = HK_INPUTMID_NOT_SUBSCRIBED))"
  unfolding Let_def
  by (rule hk_table_swap [where s = hk_start and env = hk_env and ops = "[]"
      and rs = "replicate HK_COPY_TABLE_ENTRIES \<lparr>re_OutputPktAddr = None, re_InputMidSubscribed = 0, re_DataPresent = 0\<rparr>"
      and ok = "fst (HK_ProcessNewCopyTable hk_env hk_start [])"
      and ?s0.0 = "fst (snd (HK_ProcessNewCopyTable hk_env hk_start []))"
      and ?s1.0 = "fst (snd (HK_ProcessNewCopyTable hk_env hk_start []))"
      and ?tr1.0 = "snd (snd (HK_ProcessNewCopyTable hk_env hk_start []))"])
    (simp_all add: hk_env_ok)

text \<open>C39. When the pool is exhausted HK still reports that the new table was taken in and stays subscribed to
  the inputs of the table, but no output packet exists: a send command finds none, and the first input
  packet an entry takes is copied to a NULL address.\<close>

theorem hk_pool_exhausted:
  assumes "\<forall>tr n. fst (cf_GetPoolBuf env tr n) < 0" "\<forall>tr m. cf_svc env tr (Cfs_SB_Subscribe m) = CFE_SUCCESS"
    and "cfs_env_ok env" "hk_CopyTable s = Some cs" "hk_RuntimeTable s = Some rs"
    and "length cs = HK_COPY_TABLE_ENTRIES" "length rs = HK_COPY_TABLE_ENTRIES"
    and "pool_live tr = []" "set (subs_live tr) \<inter> ce_InputMid ` set cs = {}"
    and "HK_ProcessNewCopyTable env s tr = (ok, s0, tr0)"
    and "c \<in> set cs" "cf_IsValidMsgId env (ce_InputMid c)" "takes env c m"
  shows "ok \<and> ce_InputMid c \<in> set (subs_live tr0) \<and> HK_ProcessIncomingHkData env m s0 tr0 = OutOfBounds \<and>
    HK_SendCombinedHkPacket env mid s0 tr0 = Returns (s0, cfs_event HK_UNKNOWN_COMBINED_PACKET_EID EVS_INFORMATION tr0)"
proof -
  let ?is = "[0..<HK_COPY_TABLE_ENTRIES]"
  have start: "lease_ok cs (subs_live tr) (fresh_runtime rs) tr"
    using assms(6-9) by (auto simp: lease_ok_def fresh_runtime_def)
  obtain rs0 pool0 where n: "new_table_loop env cs ?is (fresh_runtime rs, hk_Pool s, tr) = (rs0, pool0, tr0)"
    and s0: "s0 = s\<lparr>hk_RuntimeTable := Some rs0, hk_Pool := pool0\<rparr>" and ok: ok
    using assms(4,5,10) by (auto simp: HK_ProcessNewCopyTable_def split: prod.splits)
  have l0: "lease_ok cs (subs_live tr) rs0 tr0" using lease_ok_new [OF assms(3) start _ n] assms(7) by simp
  have none: "\<forall>r \<in> set rs0. re_OutputPktAddr r = None"
    by (rule exhausted_loop [OF assms(1) _ n]) (auto simp: fresh_runtime_def)
  obtain i where i: "i < length cs" "c = cs ! i" using assms(11) by (auto simp: in_set_conv_nth)
  have sub: "ce_InputMid c \<in> set (subs_live tr0)"
    using subscribed_new [OF assms(3,2) start _ n] i assms(6,7,12) by simp
  have "(c, rs0 ! i) \<in> set (zip cs rs0)" using i lease_okD(1) [OF l0] by (auto simp: set_zip)
  then have "incoming_loop (cf_MsgId env m) m cs rs0 pool0 0 = OutOfBounds"
    using incoming_loop_null [OF none _ assms(13)] by blast
  moreover have "find_packet env mid rs0 pool0 = Returns None"
    using none by (induction rs0) simp_all
  ultimately show ?thesis using ok sub s0 assms(4)
    by (simp add: HK_ProcessIncomingHkData_def HK_SendCombinedHkPacket_def)
qed

definition hk_poor_env :: Cfs_Env where
  "hk_poor_env = hk_env\<lparr>cf_GetPoolBuf := \<lambda>tr n. (-1, 0)\<rparr>"

lemma hk_poor_env_ok: "cfs_env_ok hk_poor_env"
  unfolding hk_poor_env_def cfs_env_ok_def
  by (auto simp del: hk_env_simps simp: cfs_env_okD(2,3,5-7) [OF hk_env_ok] intro: cfs_env_okD(4) [OF hk_env_ok])

definition power_packet :: "u8 list" where
  "power_packet = le32 0xAC0 @ zeros 26"

lemma power_packet_id: "length power_packet = 30" "read_le32 power_packet 0 = 0xAC0"
  using read_le32_at [of "[]" 0 "0xAC0" "zeros 26"] by (simp_all add: power_packet_def le32_def)

theorem hk_pool_exhausted_witness:
  "let n = HK_ProcessNewCopyTable hk_poor_env hk_start []; s0 = fst (snd n); tr0 = snd (snd n) in
    fst n \<and> 0xAC0 \<in> set (subs_live tr0) \<and> HK_ProcessIncomingHkData hk_poor_env power_packet s0 tr0 = OutOfBounds \<and>
    HK_SendCombinedHkPacket hk_poor_env HK_COMBINED_PKT1_MID s0 tr0 =
      Returns (s0, cfs_event HK_UNKNOWN_COMBINED_PACKET_EID EVS_INFORMATION tr0)"
proof -
  let ?c = "copy_entry 0xAC0 4 HK_COMBINED_PKT1_MID 4 26"
  let ?n = "HK_ProcessNewCopyTable hk_poor_env hk_start []"
  have t: "takes hk_poor_env ?c power_packet" 
    by (simp add: takes_def copy_entry_def power_packet_id hk_poor_env_def)
  have "?c \<in> set (HK_CopyTable 0 4 26 208 144 44 40)" by (simp add: HK_CopyTable_def mission_entries_def)
  from hk_pool_exhausted [OF _ _ hk_poor_env_ok, of hk_start _ _ "[]" "fst ?n" "fst (snd ?n)" "snd (snd ?n)" ?c,
      OF _ _ _ _ _ _ _ _ _ this _ t]
  show ?thesis by (simp add: Let_def hk_poor_env_def)
qed

theorem hk_combined_packet_witness:
  "let cs = HK_CopyTable 0 4 26 208 144 44 40; n = HK_ProcessNewCopyTable hk_env hk_start [];
       mid = HK_COMBINED_PKT1_MID; ops = [HK_Incoming power_packet, HK_Send HK_COMBINED_PKT1_MID] in
    \<exists>s1 tr1 s2 tr2 p. hk_ops hk_env ops (fst (snd n)) (snd (snd n)) = Returns (s1, tr1) \<and>
    HK_SendCombinedHkPacket hk_env mid s1 tr1 = Returns (s2, tr2) \<and>
    cfs_sent tr2 = cfs_sent tr1 @ [p] \<and> cf_MsgId hk_env p = mid \<and> length p = packet_size cs mid \<and>
    (\<forall>i < length cs. ce_OutputMid (cs ! i) = mid \<and> cf_IsValidMsgId hk_env (ce_InputMid (cs ! i)) \<longrightarrow>
       slice (out_off (cs ! i)) (num (cs ! i)) p = latest hk_env (cs ! i) (first_bytes hk_env cs i) ops) \<and>
    hk_MissingDataCtr s2 = hk_MissingDataCtr s1 +
      (if \<exists>i < length cs. ce_OutputMid (cs ! i) = mid \<and> \<not> arrived hk_env (cs ! i) False ops then 1 else 0)"
proof -
  let ?cs = "HK_CopyTable 0 4 26 208 144 44 40"
  have fit: "table_fit hk_env ?cs" by (rule HK_CopyTable_fit) (simp_all add: HK_COMBINED_PKT1_MID_def)
  have first: "?cs ! 0 = copy_entry 0xAC0 4 HK_COMBINED_PKT1_MID 4 26" by (simp add: HK_CopyTable_def mission_entries_def)
  show ?thesis
    unfolding Let_def
    by (intro hk_combined_packet [where s = hk_start and tr = "[]" and k = 0
          and ok = "fst (HK_ProcessNewCopyTable hk_env hk_start [])"
          and rs = "replicate HK_COPY_TABLE_ENTRIES \<lparr>re_OutputPktAddr = None, re_InputMidSubscribed = 0, re_DataPresent = 0\<rparr>"])
      (simp_all add: fit hk_env_ok pool_gives_def first HK_COPY_TABLE_ENTRIES_def power_packet_id)
qed

end
