(* ===== verification/Ds_State.thy ===== *)
theory Ds_State
  imports Cfs_Env
begin

text \<open>
  The data storage application DS: its configuration, tables, state and environment
  (\<open>ds_platform_cfg.h\<close>, \<open>ds_extern_typedefs.h\<close>, \<open>ds_app.h\<close>, \<open>ds_table.h\<close>, \<open>ds_events.h\<close>, \<open>ds_msgdefs.h\<close>).
  Character arrays are byte lists; a C string is given by its bytes without the terminator. A table
  pointer is \<open>None\<close> when NULL and otherwise the contents of the table buffer, which DS modifies in place.
\<close>

section \<open>Configuration\<close>

definition DS_DEST_FILE_CNT :: nat where "DS_DEST_FILE_CNT = 16"

definition DS_PACKETS_IN_FILTER_TABLE :: nat where "DS_PACKETS_IN_FILTER_TABLE = 256"

definition DS_FILTERS_PER_PACKET :: nat where "DS_FILTERS_PER_PACKET = 4"

definition DS_HASH_TABLE_ENTRIES :: nat where "DS_HASH_TABLE_ENTRIES = 256"

definition DS_HASH_TABLE_MASK :: u32 where "DS_HASH_TABLE_MASK = 0x00FF"

definition DS_SEQUENCE_DIGITS :: nat where "DS_SEQUENCE_DIGITS = 8"

definition DS_MAX_SEQUENCE_COUNT :: u32 where "DS_MAX_SEQUENCE_COUNT = 99999999"

definition DS_FILE_MIN_SIZE_LIMIT :: u32 where "DS_FILE_MIN_SIZE_LIMIT = 1024"

definition DS_FILE_MIN_AGE_LIMIT :: u32 where "DS_FILE_MIN_AGE_LIMIT = 60"

definition DS_SECS_PER_HK_CYCLE :: u32 where "DS_SECS_PER_HK_CYCLE = 4"

definition DS_APP_PIPE_DEPTH :: nat where "DS_APP_PIPE_DEPTH = 45"

definition DS_EXTENSION_BUFSIZE :: nat where "DS_EXTENSION_BUFSIZE = 8"

definition DS_UNUSED :: u8 where "DS_UNUSED = 0"

definition DS_DISABLED :: u16 where "DS_DISABLED = 0"

definition DS_ENABLED :: u16 where "DS_ENABLED = 1"

definition DS_BY_COUNT :: u16 where "DS_BY_COUNT = 1"

definition DS_BY_TIME :: u16 where "DS_BY_TIME = 2"

definition DS_PATH_SEPARATOR :: u8 where "DS_PATH_SEPARATOR = 0x2F"

definition DS_CLOSED :: u16 where "DS_CLOSED = 0"

definition DS_OPEN :: u16 where "DS_OPEN = 1"

definition DS_DEF_ENABLE_STATE :: u8 where "DS_DEF_ENABLE_STATE = 1"

definition DS_MOVE_FILES :: u8 where "DS_MOVE_FILES = 1"

definition DS_CDS_ENABLE_STATE :: nat where "DS_CDS_ENABLE_STATE = 1"

definition DS_CMD_MID :: u32 where "DS_CMD_MID = 0x18BB"

definition DS_SEND_HK_MID :: u32 where "DS_SEND_HK_MID = 0x18BC"

definition DS_HK_TLM_MID :: u32 where "DS_HK_TLM_MID = 0x08B8"

definition DS_DIAG_TLM_MID :: u32 where "DS_DIAG_TLM_MID = 0x08B9"

definition DS_COMP_TLM_MID :: u32 where "DS_COMP_TLM_MID = 0x08BA"

lemmas ds_cfg_defs = DS_DEST_FILE_CNT_def DS_PACKETS_IN_FILTER_TABLE_def DS_FILTERS_PER_PACKET_def
  DS_HASH_TABLE_ENTRIES_def DS_SEQUENCE_DIGITS_def

lemmas ds_mid_defs = DS_CMD_MID_def DS_SEND_HK_MID_def DS_HK_TLM_MID_def DS_DIAG_TLM_MID_def DS_COMP_TLM_MID_def

section \<open>Command codes\<close>

definition DS_NOOP_CC :: u16 where "DS_NOOP_CC = 0"

definition DS_RESET_COUNTERS_CC :: u16 where "DS_RESET_COUNTERS_CC = 1"

definition DS_SET_APP_STATE_CC :: u16 where "DS_SET_APP_STATE_CC = 2"

definition DS_SET_FILTER_FILE_CC :: u16 where "DS_SET_FILTER_FILE_CC = 3"

definition DS_SET_FILTER_TYPE_CC :: u16 where "DS_SET_FILTER_TYPE_CC = 4"

definition DS_SET_FILTER_PARMS_CC :: u16 where "DS_SET_FILTER_PARMS_CC = 5"

definition DS_SET_DEST_TYPE_CC :: u16 where "DS_SET_DEST_TYPE_CC = 6"

definition DS_SET_DEST_STATE_CC :: u16 where "DS_SET_DEST_STATE_CC = 7"

definition DS_SET_DEST_PATH_CC :: u16 where "DS_SET_DEST_PATH_CC = 8"

definition DS_SET_DEST_BASE_CC :: u16 where "DS_SET_DEST_BASE_CC = 9"

definition DS_SET_DEST_EXT_CC :: u16 where "DS_SET_DEST_EXT_CC = 10"

definition DS_SET_DEST_SIZE_CC :: u16 where "DS_SET_DEST_SIZE_CC = 11"

definition DS_SET_DEST_AGE_CC :: u16 where "DS_SET_DEST_AGE_CC = 12"

definition DS_SET_DEST_COUNT_CC :: u16 where "DS_SET_DEST_COUNT_CC = 13"

definition DS_CLOSE_FILE_CC :: u16 where "DS_CLOSE_FILE_CC = 14"

definition DS_GET_FILE_INFO_CC :: u16 where "DS_GET_FILE_INFO_CC = 15"

definition DS_ADD_MID_CC :: u16 where "DS_ADD_MID_CC = 16"

definition DS_CLOSE_ALL_CC :: u16 where "DS_CLOSE_ALL_CC = 17"

definition DS_REMOVE_MID_CC :: u16 where "DS_REMOVE_MID_CC = 18"

section \<open>Events\<close>

definition DS_INIT_INF_EID :: nat where "DS_INIT_INF_EID = 1"

definition DS_INIT_ERR_EID :: nat where "DS_INIT_ERR_EID = 2"

definition DS_EXIT_ERR_EID :: nat where "DS_EXIT_ERR_EID = 3"

definition DS_INIT_CDS_ERR_EID :: nat where "DS_INIT_CDS_ERR_EID = 6"

definition DS_INIT_TBL_CDS_EID :: nat where "DS_INIT_TBL_CDS_EID = 7"

definition DS_INIT_TBL_ERR_EID :: nat where "DS_INIT_TBL_ERR_EID = 8"

definition DS_FIL_TBL_EID :: nat where "DS_FIL_TBL_EID = 10"

definition DS_FIL_TBL_ERR_EID :: nat where "DS_FIL_TBL_ERR_EID = 11"

definition DS_FLT_TBL_EID :: nat where "DS_FLT_TBL_EID = 12"

definition DS_FLT_TBL_ERR_EID :: nat where "DS_FLT_TBL_ERR_EID = 13"

definition DS_FILE_NAME_ERR_EID :: nat where "DS_FILE_NAME_ERR_EID = 14"

definition DS_CREATE_FILE_ERR_EID :: nat where "DS_CREATE_FILE_ERR_EID = 15"

definition DS_WRITE_FILE_ERR_EID :: nat where "DS_WRITE_FILE_ERR_EID = 16"

definition DS_CC_ERR_EID :: nat where "DS_CC_ERR_EID = 21"

definition DS_HKREQ_LEN_ERR_EID :: nat where "DS_HKREQ_LEN_ERR_EID = 22"

definition DS_NOOP_INF_EID :: nat where "DS_NOOP_INF_EID = 31"

definition DS_NOOP_CMD_ERR_EID :: nat where "DS_NOOP_CMD_ERR_EID = 32"

definition DS_RESET_INF_EID :: nat where "DS_RESET_INF_EID = 33"

definition DS_RESET_CMD_ERR_EID :: nat where "DS_RESET_CMD_ERR_EID = 34"

definition DS_ENADIS_CMD_EID :: nat where "DS_ENADIS_CMD_EID = 35"

definition DS_ENADIS_CMD_ERR_EID :: nat where "DS_ENADIS_CMD_ERR_EID = 36"

definition DS_FILE_CMD_EID :: nat where "DS_FILE_CMD_EID = 37"

definition DS_FILE_CMD_ERR_EID :: nat where "DS_FILE_CMD_ERR_EID = 38"

definition DS_FTYPE_CMD_EID :: nat where "DS_FTYPE_CMD_EID = 39"

definition DS_FTYPE_CMD_ERR_EID :: nat where "DS_FTYPE_CMD_ERR_EID = 40"

definition DS_PARMS_CMD_EID :: nat where "DS_PARMS_CMD_EID = 41"

definition DS_PARMS_CMD_ERR_EID :: nat where "DS_PARMS_CMD_ERR_EID = 42"

definition DS_NTYPE_CMD_EID :: nat where "DS_NTYPE_CMD_EID = 43"

definition DS_NTYPE_CMD_ERR_EID :: nat where "DS_NTYPE_CMD_ERR_EID = 44"

definition DS_STATE_CMD_EID :: nat where "DS_STATE_CMD_EID = 45"

definition DS_STATE_CMD_ERR_EID :: nat where "DS_STATE_CMD_ERR_EID = 46"

definition DS_PATH_CMD_EID :: nat where "DS_PATH_CMD_EID = 47"

definition DS_PATH_CMD_ERR_EID :: nat where "DS_PATH_CMD_ERR_EID = 48"

definition DS_BASE_CMD_EID :: nat where "DS_BASE_CMD_EID = 49"

definition DS_BASE_CMD_ERR_EID :: nat where "DS_BASE_CMD_ERR_EID = 50"

definition DS_EXT_CMD_EID :: nat where "DS_EXT_CMD_EID = 51"

definition DS_EXT_CMD_ERR_EID :: nat where "DS_EXT_CMD_ERR_EID = 52"

definition DS_SIZE_CMD_EID :: nat where "DS_SIZE_CMD_EID = 53"

definition DS_SIZE_CMD_ERR_EID :: nat where "DS_SIZE_CMD_ERR_EID = 54"

definition DS_AGE_CMD_EID :: nat where "DS_AGE_CMD_EID = 55"

definition DS_AGE_CMD_ERR_EID :: nat where "DS_AGE_CMD_ERR_EID = 56"

definition DS_SEQ_CMD_EID :: nat where "DS_SEQ_CMD_EID = 57"

definition DS_SEQ_CMD_ERR_EID :: nat where "DS_SEQ_CMD_ERR_EID = 58"

definition DS_CLOSE_CMD_EID :: nat where "DS_CLOSE_CMD_EID = 59"

definition DS_CLOSE_CMD_ERR_EID :: nat where "DS_CLOSE_CMD_ERR_EID = 60"

definition DS_MOVE_FILE_ERR_EID :: nat where "DS_MOVE_FILE_ERR_EID = 61"

definition DS_GET_FILE_INFO_CMD_EID :: nat where "DS_GET_FILE_INFO_CMD_EID = 62"

definition DS_GET_FILE_INFO_CMD_ERR_EID :: nat where "DS_GET_FILE_INFO_CMD_ERR_EID = 63"

definition DS_ADD_MID_CMD_EID :: nat where "DS_ADD_MID_CMD_EID = 64"

definition DS_ADD_MID_CMD_ERR_EID :: nat where "DS_ADD_MID_CMD_ERR_EID = 65"

definition DS_CLOSE_ALL_CMD_EID :: nat where "DS_CLOSE_ALL_CMD_EID = 66"

definition DS_CLOSE_ALL_CMD_ERR_EID :: nat where "DS_CLOSE_ALL_CMD_ERR_EID = 67"

definition DS_FILE_CREATE_EMPTY_PATH_ERR_EID :: nat where "DS_FILE_CREATE_EMPTY_PATH_ERR_EID = 68"

definition DS_APPHK_FILTER_TBL_ERR_EID :: nat where "DS_APPHK_FILTER_TBL_ERR_EID = 69"

definition DS_APPHK_FILTER_TBL_PRINT_ERR_EID :: nat where "DS_APPHK_FILTER_TBL_PRINT_ERR_EID = 70"

definition DS_REMOVE_MID_CMD_EID :: nat where "DS_REMOVE_MID_CMD_EID = 71"

definition DS_REMOVE_MID_CMD_ERR_EID :: nat where "DS_REMOVE_MID_CMD_ERR_EID = 72"

section \<open>Tables\<close>

record DS_FilterParms =
  fp_FileTableIndex :: u8
  fp_FilterType :: u8
  fp_Algorithm_N :: u16
  fp_Algorithm_X :: u16
  fp_Algorithm_O :: u16

record DS_PacketEntry =
  pe_MessageID :: u32
  pe_Filter :: "DS_FilterParms list"

record DS_FilterTable =
  ft_Descriptor :: "u8 list"
  ft_Packet :: "DS_PacketEntry list"

record DS_DestFileEntry =
  df_Movename :: "u8 list"
  df_Pathname :: "u8 list"
  df_Basename :: "u8 list"
  df_Extension :: "u8 list"
  df_FileNameType :: u16
  df_EnableState :: u16
  df_MaxFileSize :: u32
  df_MaxFileAge :: u32
  df_SequenceCount :: u32

record DS_DestFileTable =
  dt_Descriptor :: "u8 list"
  dt_File :: "DS_DestFileEntry list"

section \<open>State\<close>

text \<open>
  \<open>None\<close> in \<open>fs_FileHandle\<close> is \<open>OS_OBJECT_ID_UNDEFINED\<close>. A hash link points to the next one by its
  position in the array \<open>HashLinks\<close>, and an entry of the hash table to the first.
\<close>

record DS_AppFileStatus =
  fs_FileHandle :: "nat option"
  fs_FileAge :: u32
  fs_FileSize :: u32
  fs_FileGrowth :: u32
  fs_FileRate :: u32
  fs_FileCount :: u32
  fs_FileState :: u16
  fs_FileName :: "u8 list"

record DS_HashLink =
  hl_MessageID :: u32
  hl_Index :: u16
  hl_Next :: "nat option"

record DS_AppData =
  ds_DataStoreHandle :: bool
  ds_FilterTbl :: "DS_FilterTable option"
  ds_DestFileTbl :: "DS_DestFileTable option"
  ds_CmdAcceptedCounter :: u8
  ds_CmdRejectedCounter :: u8
  ds_DestTblLoadCounter :: u8
  ds_DestTblErrCounter :: u8
  ds_FilterTblLoadCounter :: u8
  ds_FilterTblErrCounter :: u8
  ds_AppEnableState :: u8
  ds_FileWriteCounter :: u16
  ds_FileWriteErrCounter :: u16
  ds_FileUpdateCounter :: u16
  ds_FileUpdateErrCounter :: u16
  ds_DisabledPktCounter :: u32
  ds_IgnoredPktCounter :: u32
  ds_FilteredPktCounter :: u32
  ds_PassedPktCounter :: u32
  ds_FileStatus :: "DS_AppFileStatus list"
  ds_HashLinks :: "DS_HashLink list"
  ds_HashTable :: "nat option list"
  ds_EnableMoveFiles :: u8

definition dest_file :: "DS_AppData \<Rightarrow> nat \<Rightarrow> DS_DestFileEntry" where
  "dest_file s i = dt_File (the (ds_DestFileTbl s)) ! i"

definition file_status :: "DS_AppData \<Rightarrow> nat \<Rightarrow> DS_AppFileStatus" where
  "file_status s i = ds_FileStatus s ! i"

definition set_status :: "nat \<Rightarrow> (DS_AppFileStatus \<Rightarrow> DS_AppFileStatus) \<Rightarrow> DS_AppData \<Rightarrow> DS_AppData" where
  "set_status i f s = s\<lparr>ds_FileStatus := (ds_FileStatus s)[i := f (ds_FileStatus s ! i)]\<rparr>"

section \<open>Environment\<close>

text \<open>
  What the operating system and cFE answer. A seconds and subseconds pair is a \<open>CFE_TIME_SysTime_t\<close>;
  \<open>CFE_TIME_Print\<close> fills a text buffer; \<open>CFE_SB_MessageStringGet\<close> copies a string out of an array into
  a buffer of a given size; \<open>OS_OpenCreate\<close> gives a handle when it succeeds; \<open>OS_write\<close>, \<open>OS_lseek\<close>
  and \<open>CFE_FS_WriteHeader\<close> a count or an error. The table contents are what a table pointer shows
  after \<open>CFE_TBL_GetAddress\<close>. \<open>de_UnionPad\<close> is what the alignment of \<open>CFE_SB_Buffer_t\<close> adds to a packet
  in a union with it.
\<close>

record Ds_Env =
  de_cfs :: Cfs_Env
  de_SeqCnt :: "u8 list \<Rightarrow> u16"
  de_MsgTime :: "u8 list \<Rightarrow> u32 \<times> u32"
  de_GetTime :: "Cfs_Trace \<Rightarrow> u32 \<times> u32"
  de_TimePrint :: "u32 \<times> u32 \<Rightarrow> u8 list"
  de_StringGet :: "nat \<Rightarrow> u8 list \<Rightarrow> u8 list"
  de_OpenCreate :: "Cfs_Trace \<Rightarrow> u8 list \<Rightarrow> nat option"
  de_Write :: "Cfs_Trace \<Rightarrow> nat \<Rightarrow> u8 list \<Rightarrow> int"
  de_WriteHeader :: "Cfs_Trace \<Rightarrow> nat \<Rightarrow> int"
  de_Lseek :: "Cfs_Trace \<Rightarrow> nat \<Rightarrow> nat \<Rightarrow> int"
  de_Mv :: "Cfs_Trace \<Rightarrow> u8 list \<Rightarrow> u8 list \<Rightarrow> bool"
  de_AllocateBuffer :: "Cfs_Trace \<Rightarrow> bool"
  de_FsHeader :: nat
  de_MaxPath :: nat
  de_UnionPad :: nat
  de_InvalidMid :: u32
  de_DestTable :: "Cfs_Trace \<Rightarrow> DS_DestFileTable option"
  de_FilterTable :: "Cfs_Trace \<Rightarrow> DS_FilterTable option"
  de_CdsData :: "Cfs_Trace \<Rightarrow> u32 list"
  de_LastFileLoaded :: "Cfs_Trace \<Rightarrow> u8 list"

definition ds_call :: "Ds_Env \<Rightarrow> Cfs_Service \<Rightarrow> Cfs_Trace \<Rightarrow> CFE_Status \<times> Cfs_Trace" where
  "ds_call env = cfs_call (de_cfs env)"

text \<open>Calls whose status the code does not look at.\<close>

definition ds_do :: "Ds_Env \<Rightarrow> Cfs_Service \<Rightarrow> Cfs_Trace \<Rightarrow> Cfs_Trace" where
  "ds_do env v tr = snd (ds_call env v tr)"

text \<open>A character array of the size of a file name, from the bytes of a string.\<close>

definition name_bytes :: "Ds_Env \<Rightarrow> u8 list \<Rightarrow> u8 list" where
  "name_bytes env name = take (de_MaxPath env) (name @ zeros (de_MaxPath env))"

text \<open>Bytes put into a packet, and a telemetry packet: initialised, filled, stamped.\<close>

definition put_bytes :: "nat \<times> u8 list \<Rightarrow> u8 list \<Rightarrow> u8 list" where
  "put_bytes = (\<lambda>(off, bs) p. take off p @ bs @ drop (off + length bs) p)"

definition ds_packet :: "Ds_Env \<Rightarrow> u32 \<Rightarrow> nat \<Rightarrow> (nat \<times> u8 list) list \<Rightarrow> Cfs_Trace \<Rightarrow> u8 list" where
  "ds_packet env mid n parts tr =
     (let h = cf_TlmHeader (de_cfs env) in
      cf_TimeStamp (de_cfs env) tr
        (fold (\<lambda>(off, bs). put_bytes (h + off, bs)) parts (cf_MsgInit (de_cfs env) mid (h + n))))"

section \<open>The critical data store\<close>

definition cds_buffer :: "DS_AppData \<Rightarrow> u32 list" where
  "cds_buffer s = map fs_FileCount (take DS_DEST_FILE_CNT (ds_FileStatus s)) @ [ucast (ds_AppEnableState s)]"

definition DS_TableUpdateCDS :: "Ds_Env \<Rightarrow> DS_AppData \<Rightarrow> Cfs_Trace \<Rightarrow> DS_AppData \<times> Cfs_Trace" where
  "DS_TableUpdateCDS env s tr =
     (if ds_DataStoreHandle s
      then case ds_call env (Cfs_CDS_Copy (cds_buffer s)) tr of (result, tr1) \<Rightarrow>
        if result \<noteq> CFE_SUCCESS
        then (s\<lparr>ds_DataStoreHandle := False\<rparr>, cfs_event DS_INIT_CDS_ERR_EID EVS_ERROR tr1)
        else (s, tr1)
      else (s, tr))"

end
