(* ===== verification/Ds_File.thy ===== *)
theory Ds_File
  imports Ds_State
begin

text \<open>
  The packet filter and the destination files of DS (\<open>ds_file.c\<close>). The functions on a destination file
  read the destination file table; their callers have tested its pointer, or test it where the model
  says so.
\<close>

section \<open>The packet filter\<close>

definition DS_PKT_SEQUENCE_BASED_FILTER_TYPE :: u16 where "DS_PKT_SEQUENCE_BASED_FILTER_TYPE = 1"

definition DS_PKT_TIME_BASED_FILTER_TYPE :: u16 where "DS_PKT_TIME_BASED_FILTER_TYPE = 2"

definition DS_16_MSB_SUBSECS_SHIFT :: nat where "DS_16_MSB_SUBSECS_SHIFT = 16"

definition DS_11_LSB_SECONDS_MASK :: u16 where "DS_11_LSB_SECONDS_MASK = 0x07FF"

definition DS_11_LSB_SECONDS_SHIFT :: nat where "DS_11_LSB_SECONDS_SHIFT = 4"

definition DS_4_MSB_SUBSECS_MASK :: u16 where "DS_4_MSB_SUBSECS_MASK = 0xF000"

definition DS_4_MSB_SUBSECS_SHIFT :: nat where "DS_4_MSB_SUBSECS_SHIFT = 12"

text \<open>The packet value the filter looks at: the sequence count, or 11 bits of seconds and 4 bits of subseconds.\<close>

definition time_value :: "u32 \<times> u32 \<Rightarrow> u16" where
  "time_value = (\<lambda>(seconds, subseconds).
     let secs = ucast seconds AND DS_11_LSB_SECONDS_MASK;
         subs = ucast (drop_bit DS_16_MSB_SUBSECS_SHIFT subseconds) AND DS_4_MSB_SUBSECS_MASK
     in push_bit DS_11_LSB_SECONDS_SHIFT secs OR drop_bit DS_4_MSB_SUBSECS_SHIFT subs)"

definition packet_value :: "Ds_Env \<Rightarrow> u8 list \<Rightarrow> u16 \<Rightarrow> u16" where
  "packet_value env buf FilterType =
     (if FilterType = DS_PKT_SEQUENCE_BASED_FILTER_TYPE then de_SeqCnt env buf
      else time_value (de_MsgTime env buf))"

definition DS_IsPacketFiltered :: "Ds_Env \<Rightarrow> u8 list \<Rightarrow> u16 \<Rightarrow> u16 \<Rightarrow> u16 \<Rightarrow> u16 \<Rightarrow> bool" where
  "DS_IsPacketFiltered env buf FilterType N X Off =
     (if X = 0 then True
      else if N = 0 then True
      else if N > X then True
      else if Off \<ge> X then True
      else if FilterType \<noteq> DS_PKT_TIME_BASED_FILTER_TYPE \<and> FilterType \<noteq> DS_PKT_SEQUENCE_BASED_FILTER_TYPE
      then True
      else let v = packet_value env buf FilterType in
        if v < Off then True
        else if (uint v - uint Off) mod uint X < uint N then False
        else True)"

section \<open>File names\<close>

text \<open>The digits of a sequence count, least significant digit first, written from the end of the buffer.\<close>

fun sequence_digits :: "nat \<Rightarrow> u32 \<Rightarrow> u8 list \<Rightarrow> u8 list" where
  "sequence_digits 0 count text = text"
| "sequence_digits (Suc n) count text =
     sequence_digits n (count div 10) ((0x30 + ucast (count mod 10)) # text)"

definition c_string :: "u8 list \<Rightarrow> u8 list" where
  "c_string = takeWhile (\<lambda>b. b \<noteq> 0)"

text \<open>Positions in \<open>YYYY-DDD-HH:MM:SS.sssss\<close> and where they go in \<open>YYYYDDDHHMMSS\<close>.\<close>

definition time_moves :: "(nat \<times> nat) list" where
  "time_moves = [(4, 5), (5, 6), (6, 7), (7, 9), (8, 10), (9, 12), (10, 13), (11, 15), (12, 16)]"

definition DS_TERM_INDEX :: nat where "DS_TERM_INDEX = 13"

definition DS_FileCreateSequence :: "Ds_Env \<Rightarrow> u16 \<Rightarrow> u32 \<Rightarrow> Cfs_Trace \<Rightarrow> u8 list" where
  "DS_FileCreateSequence env Type Count tr =
     (if Type = DS_BY_COUNT then sequence_digits DS_SEQUENCE_DIGITS Count []
      else if Type = DS_BY_TIME
      then c_string ((foldl (\<lambda>buf (dst, src). buf[dst := buf ! src])
             (de_TimePrint env (de_GetTime env tr)) time_moves)[DS_TERM_INDEX := 0])
      else [])"

text \<open>The work name and its growth: \<open>strncat\<close> adds what fits before the terminator.\<close>

definition strncat :: "nat \<Rightarrow> u8 list \<Rightarrow> u8 list \<Rightarrow> u8 list" where
  "strncat n dest src = dest @ take (n - length dest - 1) src"

definition work_name :: "Ds_Env \<Rightarrow> DS_DestFileEntry \<Rightarrow> u8 list \<Rightarrow> u8 list" where
  "work_name env df seq =
     (let n = 2 * de_MaxPath env;
          path = de_StringGet env n (df_Pathname df);
          dir = (if last path \<noteq> DS_PATH_SEPARATOR then path @ [DS_PATH_SEPARATOR] else path);
          base = dir @ de_StringGet env (n - length dir) (df_Basename df);
          numbered = strncat n base seq
      in if df_Extension df ! 0 \<noteq> 0
         then let dotted = (if df_Extension df ! 0 \<noteq> 0x2E then strncat n numbered [0x2E] else numbered);
                  pos = (if df_Extension df ! 0 \<noteq> 0x2E then length numbered + 1 else length numbered)
              in dotted @ de_StringGet env (n - pos) (df_Extension df)
         else numbered)"

definition DS_FileCreateName :: "Ds_Env \<Rightarrow> nat \<Rightarrow> DS_AppData \<Rightarrow> Cfs_Trace \<Rightarrow> DS_AppData \<times> Cfs_Trace" where
  "DS_FileCreateName env i s tr =
     (let df = dest_file s i in
      if 0 < length (de_StringGet env (2 * de_MaxPath env) (df_Pathname df))
      then let w = work_name env df (DS_FileCreateSequence env (df_FileNameType df) (fs_FileCount (file_status s i)) tr) in
        if length w < de_MaxPath env then (set_status i (\<lambda>fs. fs\<lparr>fs_FileName := w\<rparr>) s, tr)
        else (set_status i (\<lambda>fs. fs\<lparr>fs_FileState := DS_DISABLED\<rparr>) s, cfs_event DS_FILE_NAME_ERR_EID EVS_ERROR tr)
      else (set_status i (\<lambda>fs. fs\<lparr>fs_FileState := DS_DISABLED\<rparr>) s,
            cfs_event DS_FILE_CREATE_EMPTY_PATH_ERR_EID EVS_ERROR tr))"

section \<open>Closing a file\<close>

text \<open>What the information on a file starts with: age, size, rate, count and two states; the name follows.\<close>

definition file_info :: "DS_AppFileStatus \<Rightarrow> u16 \<Rightarrow> u16 \<Rightarrow> u8 list" where
  "file_info fs enable opened =
     le32 (fs_FileAge fs) @ le32 (fs_FileSize fs) @ le32 (fs_FileRate fs) @ le32 (fs_FileCount fs) @
     le16 enable @ le16 opened"

definition DS_FileInfo_size :: "Ds_Env \<Rightarrow> nat" where
  "DS_FileInfo_size env = 20 + de_MaxPath env"

definition print_name :: "Ds_Env \<Rightarrow> u8 list \<Rightarrow> u8 list" where
  "print_name env name = take (de_MaxPath env - 1) name @ [0]"

definition DS_FileTransmit :: "Ds_Env \<Rightarrow> DS_AppFileStatus \<Rightarrow> Cfs_Trace \<Rightarrow> Cfs_Trace" where
  "DS_FileTransmit env fs tr =
     (if de_AllocateBuffer env tr
      then cfs_transmit (ds_packet env DS_COMP_TLM_MID (DS_FileInfo_size env + de_UnionPad env)
        [(0, file_info fs (fs_FileState fs) DS_CLOSED), (20, print_name env (fs_FileName fs))] tr) tr
      else tr)"

definition DS_FileUpdateHeader :: "Ds_Env \<Rightarrow> nat \<Rightarrow> DS_AppData \<Rightarrow> Cfs_Trace \<Rightarrow> DS_AppData \<times> Cfs_Trace" where
  "DS_FileUpdateHeader env i s tr =
     (let h = the (fs_FileHandle (file_status s i));
          (secs, subs) = de_GetTime env tr;
          r = de_Lseek env tr h (de_FsHeader env);
          tr1 = tr @ [Os_Lseek h (de_FsHeader env) r]
      in if r = int (de_FsHeader env)
         then let bytes = le32 secs @ le32 subs; r2 = de_Write env tr1 h bytes; tr2 = tr1 @ [Os_Write h bytes r2] in
           if r2 = 8 then (s\<lparr>ds_FileUpdateCounter := ds_FileUpdateCounter s + 1\<rparr>, tr2)
           else (s\<lparr>ds_FileUpdateErrCounter := ds_FileUpdateErrCounter s + 1\<rparr>, tr2)
         else (s\<lparr>ds_FileUpdateErrCounter := ds_FileUpdateErrCounter s + 1\<rparr>, tr1))"

text \<open>The part of a file name from its last slash, and the move to the downlink directory: the path
  name that is left for reporting, and the trace.\<close>

definition from_last_slash :: "u8 list \<Rightarrow> u8 list option" where
  "from_last_slash name =
     (if DS_PATH_SEPARATOR \<in> set name
      then Some (DS_PATH_SEPARATOR # rev (takeWhile (\<lambda>b. b \<noteq> DS_PATH_SEPARATOR) (rev name))) else None)"

definition move_file :: "Ds_Env \<Rightarrow> u8 list \<Rightarrow> u8 list \<Rightarrow> Cfs_Trace \<Rightarrow> u8 list \<times> Cfs_Trace" where
  "move_file env movename name tr =
     (let path0 = de_StringGet env (de_MaxPath env) movename;
          path = (if last path0 = DS_PATH_SEPARATOR then butlast path0 else path0)
      in case from_last_slash name of
           Some file \<Rightarrow>
             if length path + length file < de_MaxPath env
             then let ok = de_Mv env tr name (path @ file); tr1 = tr @ [Os_Mv name (path @ file) ok] in
               (path @ file, if ok then tr1 else cfs_event DS_MOVE_FILE_ERR_EID EVS_ERROR tr1)
             else (path, cfs_event DS_MOVE_FILE_ERR_EID EVS_ERROR tr)
         | None \<Rightarrow> (path, cfs_event DS_MOVE_FILE_ERR_EID EVS_ERROR tr))"

definition DS_FileCloseDest :: "Ds_Env \<Rightarrow> nat \<Rightarrow> DS_AppData \<Rightarrow> Cfs_Trace \<Rightarrow> DS_AppData \<times> Cfs_Trace" where
  "DS_FileCloseDest env i s tr =
     (let fs = file_status s i;
          tr1 = tr @ [Os_Close (the (fs_FileHandle fs))];
          (name, tr2) = (if ds_EnableMoveFiles s = ucast DS_ENABLED \<and> df_Movename (dest_file s i) ! 0 \<noteq> 0
             then case move_file env (df_Movename (dest_file s i)) (fs_FileName fs) tr1 of
               (path, tr') \<Rightarrow> (take (de_MaxPath env - 1) path, tr')
             else (fs_FileName fs, tr1));
          tr3 = DS_FileTransmit env (fs\<lparr>fs_FileName := name\<rparr>) tr2
      in (set_status i (\<lambda>fs. fs\<lparr>fs_FileHandle := None, fs_FileAge := 0, fs_FileSize := 0, fs_FileName := []\<rparr>) s, tr3))"

section \<open>Writing\<close>

definition DS_FileWriteError :: "Ds_Env \<Rightarrow> nat \<Rightarrow> DS_AppData \<Rightarrow> Cfs_Trace \<Rightarrow> DS_AppData \<times> Cfs_Trace" where
  "DS_FileWriteError env i s tr =
     (case DS_FileCloseDest env i (s\<lparr>ds_FileWriteErrCounter := ds_FileWriteErrCounter s + 1\<rparr>)
             (cfs_event DS_WRITE_FILE_ERR_EID EVS_ERROR tr) of
        (s1, tr1) \<Rightarrow> (set_status i (\<lambda>fs. fs\<lparr>fs_FileState := DS_DISABLED\<rparr>) s1, tr1))"

text \<open>What a successful write counts.\<close>

definition count_write :: "nat \<Rightarrow> u32 \<Rightarrow> DS_AppData \<Rightarrow> DS_AppData" where
  "count_write i n s = set_status i (\<lambda>fs. fs\<lparr>fs_FileSize := fs_FileSize fs + n, fs_FileGrowth := fs_FileGrowth fs + n\<rparr>)
     (s\<lparr>ds_FileWriteCounter := ds_FileWriteCounter s + 1\<rparr>)"

definition DS_FileWriteData :: "Ds_Env \<Rightarrow> nat \<Rightarrow> u8 list \<Rightarrow> DS_AppData \<Rightarrow> Cfs_Trace \<Rightarrow> DS_AppData \<times> Cfs_Trace" where
  "DS_FileWriteData env i bytes s tr =
     (let h = the (fs_FileHandle (file_status s i));
          r = de_Write env tr h bytes;
          tr1 = tr @ [Os_Write h bytes r]
      in if (word_of_int r :: u32) = of_nat (length bytes) then (count_write i (of_nat (length bytes)) s, tr1)
         else DS_FileWriteError env i s tr1)"

text \<open>The secondary header: times, table index, file name type, file name.\<close>

definition ds_file_header :: "Ds_Env \<Rightarrow> nat \<Rightarrow> DS_AppData \<Rightarrow> u8 list" where
  "ds_file_header env i s = le32 0 @ le32 0 @ le16 (of_nat i) @ le16 (df_FileNameType (dest_file s i)) @
     name_bytes env (fs_FileName (file_status s i))"

definition DS_FileWriteHeader :: "Ds_Env \<Rightarrow> nat \<Rightarrow> DS_AppData \<Rightarrow> Cfs_Trace \<Rightarrow> DS_AppData \<times> Cfs_Trace" where
  "DS_FileWriteHeader env i s tr =
     (let h = the (fs_FileHandle (file_status s i));
          r = de_WriteHeader env tr h;
          tr1 = tr @ [Os_WriteHeader h r]
      in if r = int (de_FsHeader env)
         then let s1 = count_write i (of_nat (de_FsHeader env)) s;
                  bytes = ds_file_header env i s1;
                  r2 = de_Write env tr1 h bytes;
                  tr2 = tr1 @ [Os_Write h bytes r2]
              in if r2 = int (length bytes) then (count_write i (of_nat (length bytes)) s1, tr2)
                 else DS_FileWriteError env i s1 tr2
         else DS_FileWriteError env i s tr1)"

definition DS_FileCreateDest :: "Ds_Env \<Rightarrow> nat \<Rightarrow> DS_AppData \<Rightarrow> Cfs_Trace \<Rightarrow> DS_AppData \<times> Cfs_Trace" where
  "DS_FileCreateDest env i s tr =
     (case DS_FileCreateName env i s tr of (s1, tr1) \<Rightarrow>
      let name = fs_FileName (file_status s1 i) in
      if name \<noteq> []
      then let r = de_OpenCreate env tr1 name; tr2 = tr1 @ [Os_OpenCreate name r] in
        case r of
          None \<Rightarrow> (set_status i (\<lambda>fs. fs\<lparr>fs_FileName := [], fs_FileState := DS_DISABLED\<rparr>)
                     (s1\<lparr>ds_FileWriteErrCounter := ds_FileWriteErrCounter s1 + 1\<rparr>),
                   cfs_event DS_CREATE_FILE_ERR_EID EVS_ERROR tr2)
        | Some h \<Rightarrow>
            case DS_FileWriteHeader env i (set_status i (\<lambda>fs. fs\<lparr>fs_FileHandle := Some h\<rparr>)
                   (s1\<lparr>ds_FileWriteCounter := ds_FileWriteCounter s1 + 1\<rparr>)) tr2 of
              (s2, tr3) \<Rightarrow>
                if fs_FileHandle (file_status s2 i) \<noteq> None \<and> df_FileNameType (dest_file s2 i) = DS_BY_COUNT
                then DS_TableUpdateCDS env (set_status i (\<lambda>fs. fs\<lparr>fs_FileCount :=
                    (if fs_FileCount fs + 1 > DS_MAX_SEQUENCE_COUNT then df_SequenceCount (dest_file s2 i)
                     else fs_FileCount fs + 1)\<rparr>) s2) tr3
                else (s2, tr3)
      else (s1, tr1))"

definition DS_FileSetupWrite :: "Ds_Env \<Rightarrow> nat \<Rightarrow> u8 list \<Rightarrow> DS_AppData \<Rightarrow> Cfs_Trace \<Rightarrow> DS_AppData \<times> Cfs_Trace" where
  "DS_FileSetupWrite env i buf s tr =
     (let create = (\<lambda>(s1, tr1). case DS_FileCreateDest env i s1 tr1 of (s2, tr2) \<Rightarrow>
            if fs_FileHandle (file_status s2 i) \<noteq> None then DS_FileWriteData env i buf s2 tr2 else (s2, tr2))
      in if fs_FileHandle (file_status s i) = None then create (s, tr)
         else if unat (fs_FileSize (file_status s i)) + length buf > unat (df_MaxFileSize (dest_file s i))
         then create (case DS_FileUpdateHeader env i s tr of (s1, tr1) \<Rightarrow> DS_FileCloseDest env i s1 tr1)
         else DS_FileWriteData env i buf s tr)"

section \<open>Age\<close>

fun test_age_loop :: "Ds_Env \<Rightarrow> u32 \<Rightarrow> nat list \<Rightarrow> DS_AppData \<Rightarrow> Cfs_Trace \<Rightarrow> DS_AppData \<times> Cfs_Trace" where
  "test_age_loop env secs [] s tr = (s, tr)"
| "test_age_loop env secs (i # js) s tr =
     (if fs_FileHandle (file_status s i) = None then test_age_loop env secs js s tr
      else let s1 = set_status i (\<lambda>fs. fs\<lparr>fs_FileAge := fs_FileAge fs + secs\<rparr>) s in
        if fs_FileAge (file_status s1 i) \<ge> df_MaxFileAge (dest_file s1 i)
        then case DS_FileUpdateHeader env i s1 tr of (s2, tr2) \<Rightarrow>
             case DS_FileCloseDest env i s2 tr2 of (s3, tr3) \<Rightarrow> test_age_loop env secs js s3 tr3
        else test_age_loop env secs js s1 tr)"

definition DS_FileTestAge :: "Ds_Env \<Rightarrow> u32 \<Rightarrow> DS_AppData \<Rightarrow> Cfs_Trace \<Rightarrow> DS_AppData \<times> Cfs_Trace" where
  "DS_FileTestAge env secs s tr =
     (if ds_DestFileTbl s \<noteq> None then test_age_loop env secs [0..<DS_DEST_FILE_CNT] s tr else (s, tr))"

end
