(* ===== verification/Ds_Table.thy ===== *)
theory Ds_Table
  imports Ds_State
begin

text \<open>
  The tables of DS (\<open>ds_table.c\<close>): their validation, what DS does when they are loaded and updated,
  the critical data store, and the hash table from message ids to filter table entries, whose linked
  lists live in one array. Walking a list that does not end is a function that has no value.
\<close>

section \<open>Validation\<close>

definition DS_TableEntryUnused :: "u8 list \<Rightarrow> bool" where
  "DS_TableEntryUnused = list_all (\<lambda>b. b = DS_UNUSED)"

definition filter_parms_bytes :: "DS_FilterParms \<Rightarrow> u8 list" where
  "filter_parms_bytes fp = [fp_FileTableIndex fp, fp_FilterType fp] @ le16 (fp_Algorithm_N fp) @
     le16 (fp_Algorithm_X fp) @ le16 (fp_Algorithm_O fp)"

definition dest_entry_bytes :: "DS_DestFileEntry \<Rightarrow> u8 list" where
  "dest_entry_bytes df = df_Movename df @ df_Pathname df @ df_Basename df @ df_Extension df @
     le16 (df_FileNameType df) @ le16 (df_EnableState df) @ le32 (df_MaxFileSize df) @
     le32 (df_MaxFileAge df) @ le32 (df_SequenceCount df)"

definition DS_TableVerifyFileIndex :: "u16 \<Rightarrow> bool" where
  "DS_TableVerifyFileIndex FileTableIndex \<longleftrightarrow> unat FileTableIndex < DS_DEST_FILE_CNT"

definition DS_TableVerifyParms :: "u16 \<Rightarrow> u16 \<Rightarrow> u16 \<Rightarrow> bool" where
  "DS_TableVerifyParms N X Off =
     (if N \<noteq> 0 \<or> X \<noteq> 0 \<or> Off \<noteq> 0
      then if N > X then False else if Off \<ge> X then False else True
      else True)"

definition DS_TableVerifyType :: "u16 \<Rightarrow> bool" where
  "DS_TableVerifyType TimeVsCount \<longleftrightarrow> TimeVsCount = DS_BY_COUNT \<or> TimeVsCount = DS_BY_TIME"

definition DS_TableVerifyState :: "u16 \<Rightarrow> bool" where
  "DS_TableVerifyState EnableState \<longleftrightarrow> EnableState = DS_ENABLED \<or> EnableState = DS_DISABLED"

definition DS_TableVerifySize :: "u32 \<Rightarrow> bool" where
  "DS_TableVerifySize MaxFileSize \<longleftrightarrow> \<not> MaxFileSize < DS_FILE_MIN_SIZE_LIMIT"

definition DS_TableVerifyAge :: "u32 \<Rightarrow> bool" where
  "DS_TableVerifyAge MaxFileAge \<longleftrightarrow> \<not> MaxFileAge < DS_FILE_MIN_AGE_LIMIT"

definition DS_TableVerifyCount :: "u32 \<Rightarrow> bool" where
  "DS_TableVerifyCount SequenceCount \<longleftrightarrow> \<not> SequenceCount > DS_MAX_SEQUENCE_COUNT"

text \<open>Only the first bad entry of a table is reported.\<close>

definition verify_result :: "bool \<Rightarrow> nat \<Rightarrow> nat \<Rightarrow> Cfs_Trace \<Rightarrow> bool \<times> Cfs_Trace" where
  "verify_result good eid errors tr = (good, if \<not> good \<and> errors = 0 then cfs_event eid EVS_ERROR tr else tr)"

definition DS_TableVerifyDestFileEntry :: "DS_DestFileEntry \<Rightarrow> nat \<Rightarrow> Cfs_Trace \<Rightarrow> bool \<times> Cfs_Trace" where
  "DS_TableVerifyDestFileEntry df errors tr = verify_result
     (if \<not> DS_TableVerifyType (df_FileNameType df) then False
      else if \<not> DS_TableVerifyState (df_EnableState df) then False
      else if \<not> DS_TableVerifySize (df_MaxFileSize df) then False
      else if \<not> DS_TableVerifyAge (df_MaxFileAge df) then False
      else if \<not> DS_TableVerifyCount (df_SequenceCount df) then False
      else True) DS_FIL_TBL_ERR_EID errors tr"

fun verify_dest_loop :: "DS_DestFileEntry list \<Rightarrow> nat \<Rightarrow> Cfs_Trace \<Rightarrow> nat \<times> Cfs_Trace" where
  "verify_dest_loop [] bad tr = (bad, tr)"
| "verify_dest_loop (df # dfs) bad tr =
     (if DS_TableEntryUnused (dest_entry_bytes df) then verify_dest_loop dfs bad tr
      else case DS_TableVerifyDestFileEntry df bad tr of (good, tr1) \<Rightarrow>
        verify_dest_loop dfs (if good then bad else Suc bad) tr1)"

definition DS_TableVerifyDestFile :: "DS_DestFileTable \<Rightarrow> Cfs_Trace \<Rightarrow> CFE_Status \<times> Cfs_Trace" where
  "DS_TableVerifyDestFile tbl tr =
     (case verify_dest_loop (dt_File tbl) 0 tr of (bad, tr1) \<Rightarrow>
        (if bad = 0 then CFE_SUCCESS else Status_Code (-1), cfs_event DS_FIL_TBL_EID EVS_INFORMATION tr1))"

definition filter_parms_good :: "DS_FilterParms \<Rightarrow> bool" where
  "filter_parms_good fp =
     (if \<not> DS_TableVerifyFileIndex (ucast (fp_FileTableIndex fp)) then False
      else if \<not> DS_TableVerifyType (ucast (fp_FilterType fp)) then False
      else if \<not> DS_TableVerifyParms (fp_Algorithm_N fp) (fp_Algorithm_X fp) (fp_Algorithm_O fp) then False
      else True)"

definition DS_TableVerifyFilterEntry :: "DS_PacketEntry \<Rightarrow> nat \<Rightarrow> Cfs_Trace \<Rightarrow> bool \<times> Cfs_Trace" where
  "DS_TableVerifyFilterEntry pe errors tr = verify_result
     (list_all (\<lambda>fp. if \<not> DS_TableEntryUnused (filter_parms_bytes fp) then filter_parms_good fp else True)
        (pe_Filter pe)) DS_FLT_TBL_ERR_EID errors tr"

fun verify_filter_loop :: "Ds_Env \<Rightarrow> DS_PacketEntry list \<Rightarrow> nat \<Rightarrow> Cfs_Trace \<Rightarrow> nat \<times> Cfs_Trace" where
  "verify_filter_loop env [] bad tr = (bad, tr)"
| "verify_filter_loop env (pe # pes) bad tr =
     (if \<not> cf_IsValidMsgId (de_cfs env) (pe_MessageID pe) then verify_filter_loop env pes bad tr
      else case DS_TableVerifyFilterEntry pe bad tr of (good, tr1) \<Rightarrow>
        verify_filter_loop env pes (if good then bad else Suc bad) tr1)"

definition DS_TableVerifyFilter :: "Ds_Env \<Rightarrow> DS_FilterTable \<Rightarrow> Cfs_Trace \<Rightarrow> CFE_Status \<times> Cfs_Trace" where
  "DS_TableVerifyFilter env tbl tr =
     (case verify_filter_loop env (ft_Packet tbl) 0 tr of (bad, tr1) \<Rightarrow>
        (if bad = 0 then CFE_SUCCESS else Status_Code (-1), cfs_event DS_FLT_TBL_EID EVS_INFORMATION tr1))"

section \<open>Subscriptions\<close>

definition ds_subscribes :: "Ds_Env \<Rightarrow> u32 \<Rightarrow> bool" where
  "ds_subscribes env mid \<longleftrightarrow> cf_IsValidMsgId (de_cfs env) mid \<and> mid \<noteq> DS_CMD_MID \<and> mid \<noteq> DS_SEND_HK_MID"

definition DS_TableSubscribe :: "Ds_Env \<Rightarrow> DS_FilterTable \<Rightarrow> Cfs_Trace \<Rightarrow> Cfs_Trace" where
  "DS_TableSubscribe env tbl tr = foldl (\<lambda>tr pe. if ds_subscribes env (pe_MessageID pe)
     then ds_do env (Cfs_SB_Subscribe (pe_MessageID pe)) tr else tr) tr (ft_Packet tbl)"

definition DS_TableUnsubscribe :: "Ds_Env \<Rightarrow> DS_FilterTable \<Rightarrow> Cfs_Trace \<Rightarrow> Cfs_Trace" where
  "DS_TableUnsubscribe env tbl tr = foldl (\<lambda>tr pe. if ds_subscribes env (pe_MessageID pe)
     then tr @ [Cfs_Unsubscribe (pe_MessageID pe)] else tr) tr (ft_Packet tbl)"

section \<open>The hash table\<close>

definition DS_TableHashFunction :: "u32 \<Rightarrow> u32" where
  "DS_TableHashFunction MessageID = MessageID AND DS_HASH_TABLE_MASK"

text \<open>The last link of a list, and the filter table entry of a message id.\<close>

partial_function (option) last_link :: "DS_HashLink list \<Rightarrow> nat \<Rightarrow> nat option" where
  "last_link links k = (case hl_Next (links ! k) of None \<Rightarrow> Some k | Some k' \<Rightarrow> last_link links k')"

partial_function (option) find_link ::
  "DS_PacketEntry list \<Rightarrow> DS_HashLink list \<Rightarrow> u32 \<Rightarrow> nat \<Rightarrow> nat option option" where
  "find_link packets links mid k =
     (if pe_MessageID (packets ! unat (hl_Index (links ! k))) = mid
      then Some (Some (unat (hl_Index (links ! k))))
      else case hl_Next (links ! k) of
          None \<Rightarrow> Some None
        | Some k' \<Rightarrow> find_link packets links mid k')"

definition set_link :: "nat \<Rightarrow> (DS_HashLink \<Rightarrow> DS_HashLink) \<Rightarrow> DS_AppData \<Rightarrow> DS_AppData" where
  "set_link k f s = s\<lparr>ds_HashLinks := (ds_HashLinks s)[k := f (ds_HashLinks s ! k)]\<rparr>"

definition DS_TableAddMsgID :: "u32 \<Rightarrow> nat \<Rightarrow> DS_AppData \<Rightarrow> DS_AppData run" where
  "DS_TableAddMsgID mid i s =
     (let s1 = set_link i (\<lambda>l. l\<lparr>hl_Index := of_nat i, hl_MessageID := mid\<rparr>) s;
          h = unat (DS_TableHashFunction mid)
      in case ds_HashTable s1 ! h of
           None \<Rightarrow> Returns (s1\<lparr>ds_HashTable := (ds_HashTable s1)[h := Some i]\<rparr>)
         | Some k \<Rightarrow> (case last_link (ds_HashLinks s1) k of
             None \<Rightarrow> Blocked
           | Some l \<Rightarrow> Returns (set_link l (\<lambda>l. l\<lparr>hl_Next := Some i\<rparr>) s1)))"

definition zero_link :: DS_HashLink where
  "zero_link = \<lparr>hl_MessageID = 0, hl_Index = 0, hl_Next = None\<rparr>"

fun add_all_ids :: "DS_PacketEntry list \<Rightarrow> nat list \<Rightarrow> DS_AppData \<Rightarrow> DS_AppData run" where
  "add_all_ids packets [] s = Returns s"
| "add_all_ids packets (i # js) s =
     run_bind (DS_TableAddMsgID (pe_MessageID (packets ! i)) i s) (add_all_ids packets js)"

definition DS_TableCreateHash :: "DS_FilterTable \<Rightarrow> DS_AppData \<Rightarrow> DS_AppData run" where
  "DS_TableCreateHash tbl s = add_all_ids (ft_Packet tbl) [0..<DS_PACKETS_IN_FILTER_TABLE]
     (s\<lparr>ds_HashLinks := replicate DS_PACKETS_IN_FILTER_TABLE zero_link,
        ds_HashTable := replicate DS_HASH_TABLE_ENTRIES None\<rparr>)"

text \<open>
  \<open>None\<close> is \<open>DS_INDEX_NONE\<close>. The filter table is only looked at when the list is not empty, and the
  lists are empty until a filter table was loaded.
\<close>

definition DS_TableFindMsgID :: "u32 \<Rightarrow> DS_AppData \<Rightarrow> nat option run" where
  "DS_TableFindMsgID mid s =
     (case ds_HashTable s ! unat (DS_TableHashFunction mid) of
        None \<Rightarrow> Returns None
      | Some k \<Rightarrow> (case ds_FilterTbl s of None \<Rightarrow> OutOfBounds
          | Some tbl \<Rightarrow> (case find_link (ft_Packet tbl) (ds_HashLinks s) mid k of
              None \<Rightarrow> Blocked | Some r \<Rightarrow> Returns r)))"

section \<open>Loading and updating\<close>

text \<open>What DS keeps of a new destination file table.\<close>

definition adopt_dest_table :: "Ds_Env \<Rightarrow> DS_AppData \<Rightarrow> Cfs_Trace \<Rightarrow> (DS_AppData \<times> Cfs_Trace) run" where
  "adopt_dest_table env s tr =
     (case ds_DestFileTbl s of None \<Rightarrow> OutOfBounds
      | Some tbl \<Rightarrow> Returns (DS_TableUpdateCDS env (s\<lparr>ds_FileStatus :=
          map2 (\<lambda>fs df. fs\<lparr>fs_FileState := df_EnableState df, fs_FileCount := df_SequenceCount df\<rparr>)
            (ds_FileStatus s) (dt_File tbl)\<rparr>) tr))"

definition DS_TableManageDestFile :: "Ds_Env \<Rightarrow> DS_AppData \<Rightarrow> Cfs_Trace \<Rightarrow> (DS_AppData \<times> Cfs_Trace) run" where
  "DS_TableManageDestFile env s tr =
     (if ds_DestFileTbl s = None
      then case ds_call env (Cfs_TBL_GetAddress DS_DestFile_Handle)
          (ds_do env (Cfs_TBL_Manage DS_DestFile_Handle) (ds_do env (Cfs_TBL_ReleaseAddress DS_DestFile_Handle) tr)) of
        (result, tr1) \<Rightarrow>
          let s1 = s\<lparr>ds_DestFileTbl := de_DestTable env tr1\<rparr> in
          if result = CFE_TBL_INFO_UPDATED
          then adopt_dest_table env (s1\<lparr>ds_DestTblLoadCounter := ds_DestTblLoadCounter s1 + 1\<rparr>) tr1
          else if result = CFE_TBL_ERR_NEVER_LOADED
          then Returns (s1\<lparr>ds_DestTblErrCounter := ds_DestTblErrCounter s1 + 1, ds_DestFileTbl := None\<rparr>, tr1)
          else Returns (s1, tr1)
      else case ds_call env (Cfs_TBL_GetStatus DS_DestFile_Handle) tr of (result, tr1) \<Rightarrow>
        if result = CFE_TBL_INFO_DUMP_PENDING
        then Returns (s, ds_do env (Cfs_TBL_DumpToBuffer DS_DestFile_Handle) tr1)
        else if result = CFE_TBL_INFO_VALIDATION_PENDING
        then Returns (s, ds_do env (Cfs_TBL_Validate DS_DestFile_Handle) tr1)
        else if result = CFE_TBL_INFO_UPDATE_PENDING
        then let s1 = s\<lparr>ds_DestTblLoadCounter := ds_DestTblLoadCounter s + 1\<rparr>;
                 tr2 = ds_do env (Cfs_TBL_GetAddress DS_DestFile_Handle) (ds_do env (Cfs_TBL_Update DS_DestFile_Handle)
                   (ds_do env (Cfs_TBL_ReleaseAddress DS_DestFile_Handle) tr1))
             in adopt_dest_table env (s1\<lparr>ds_DestFileTbl := de_DestTable env tr2\<rparr>) tr2
        else Returns (s, tr1))"

definition adopt_filter_table :: "Ds_Env \<Rightarrow> DS_AppData \<Rightarrow> Cfs_Trace \<Rightarrow> (DS_AppData \<times> Cfs_Trace) run" where
  "adopt_filter_table env s tr =
     (case ds_FilterTbl s of None \<Rightarrow> OutOfBounds
      | Some tbl \<Rightarrow> run_bind (DS_TableCreateHash tbl s) (\<lambda>s1. Returns (s1, DS_TableSubscribe env tbl tr)))"

definition DS_TableManageFilter :: "Ds_Env \<Rightarrow> DS_AppData \<Rightarrow> Cfs_Trace \<Rightarrow> (DS_AppData \<times> Cfs_Trace) run" where
  "DS_TableManageFilter env s tr =
     (case ds_FilterTbl s of
        None \<Rightarrow>
          (case ds_call env (Cfs_TBL_GetAddress DS_Filter_Handle)
            (ds_do env (Cfs_TBL_Manage DS_Filter_Handle) (ds_do env (Cfs_TBL_ReleaseAddress DS_Filter_Handle) tr)) of
          (result, tr1) \<Rightarrow>
            let s1 = s\<lparr>ds_FilterTbl := de_FilterTable env tr1\<rparr> in
            if result = CFE_TBL_INFO_UPDATED
            then adopt_filter_table env (s1\<lparr>ds_FilterTblLoadCounter := ds_FilterTblLoadCounter s1 + 1\<rparr>) tr1
            else if result = CFE_TBL_ERR_NEVER_LOADED
            then Returns (s1\<lparr>ds_FilterTblErrCounter := ds_FilterTblErrCounter s1 + 1, ds_FilterTbl := None\<rparr>, tr1)
            else Returns (s1, tr1))
      | Some old \<Rightarrow>
          (case ds_call env (Cfs_TBL_GetStatus DS_Filter_Handle) tr of (result, tr1) \<Rightarrow>
            if result = CFE_TBL_INFO_DUMP_PENDING
            then Returns (s, ds_do env (Cfs_TBL_DumpToBuffer DS_Filter_Handle) tr1)
            else if result = CFE_TBL_INFO_VALIDATION_PENDING
            then Returns (s, ds_do env (Cfs_TBL_Validate DS_Filter_Handle) tr1)
            else if result = CFE_TBL_INFO_UPDATE_PENDING
            then let s1 = s\<lparr>ds_FilterTblLoadCounter := ds_FilterTblLoadCounter s + 1\<rparr>;
                     tr2 = ds_do env (Cfs_TBL_GetAddress DS_Filter_Handle) (ds_do env (Cfs_TBL_Update DS_Filter_Handle)
                       (ds_do env (Cfs_TBL_ReleaseAddress DS_Filter_Handle) (DS_TableUnsubscribe env old tr1)))
                 in adopt_filter_table env (s1\<lparr>ds_FilterTbl := de_FilterTable env tr2\<rparr>) tr2
            else Returns (s, tr1)))"

text \<open>The registration of a table: the status to go on with, and whether the table is to be loaded.\<close>

definition register_table :: "Ds_Env \<Rightarrow> Cfs_Table \<Rightarrow> Cfs_Trace \<Rightarrow> CFE_Status \<times> bool \<times> Cfs_Trace" where
  "register_table env t tr =
     (case ds_call env (Cfs_TBL_Register t) tr of (result, tr1) \<Rightarrow>
        if result = CFE_TBL_INFO_RECOVERED_TBL then (CFE_SUCCESS, False, cfs_event DS_INIT_TBL_CDS_EID EVS_DEBUG tr1)
        else if result = CFE_SUCCESS then (CFE_SUCCESS, True, tr1)
        else (result, False, cfs_event DS_INIT_TBL_ERR_EID EVS_ERROR tr1))"

definition load_table :: "Ds_Env \<Rightarrow> Cfs_Table \<Rightarrow> bool \<Rightarrow> Cfs_Trace \<Rightarrow> Cfs_Trace" where
  "load_table env t need tr =
     (if need
      then case ds_call env (Cfs_TBL_Load t) tr of (result, tr1) \<Rightarrow>
        if result \<noteq> CFE_SUCCESS then cfs_event DS_INIT_TBL_ERR_EID EVS_ERROR tr1 else tr1
      else tr)"

definition DS_TableInit :: "Ds_Env \<Rightarrow> DS_AppData \<Rightarrow> Cfs_Trace \<Rightarrow> (CFE_Status \<times> DS_AppData \<times> Cfs_Trace) run" where
  "DS_TableInit env s tr =
     (case register_table env DS_DestFile_Handle tr of (result1, dest, tr1) \<Rightarrow>
      if result1 \<noteq> CFE_SUCCESS then Returns (result1, s, tr1)
      else case register_table env DS_Filter_Handle tr1 of (result2, flt, tr2) \<Rightarrow>
      if result2 \<noteq> CFE_SUCCESS then Returns (result2, s, tr2)
      else run_bind (DS_TableManageDestFile env s
          (load_table env DS_Filter_Handle flt (load_table env DS_DestFile_Handle dest tr2))) (\<lambda>(s1, tr3).
        run_bind (DS_TableManageFilter env s1 tr3) (\<lambda>(s2, tr4). Returns (CFE_SUCCESS, s2, tr4))))"

definition restore_cds :: "u32 list \<Rightarrow> DS_AppData \<Rightarrow> DS_AppData" where
  "restore_cds buf s = s\<lparr>ds_FileStatus := map2 (\<lambda>fs n. fs\<lparr>fs_FileCount := n\<rparr>) (ds_FileStatus s) (take DS_DEST_FILE_CNT buf),
     ds_AppEnableState := (if DS_CDS_ENABLE_STATE = 1 then ucast (buf ! DS_DEST_FILE_CNT) else ds_AppEnableState s)\<rparr>"

definition DS_TableCreateCDS :: "Ds_Env \<Rightarrow> DS_AppData \<Rightarrow> Cfs_Trace \<Rightarrow> CFE_Status \<times> DS_AppData \<times> Cfs_Trace" where
  "DS_TableCreateCDS env s tr =
     (case ds_call env (Cfs_CDS_Register (4 * (DS_DEST_FILE_CNT + 1))) tr of (result, tr1) \<Rightarrow>
      let s1 = s\<lparr>ds_DataStoreHandle := True\<rparr>;
          (result2, s2, tr2) =
            (if result = CFE_SUCCESS
             then case ds_call env (Cfs_CDS_Copy (cds_buffer s1)) tr1 of (r, tr') \<Rightarrow> (r, s1, tr')
             else if result = CFE_ES_CDS_ALREADY_EXISTS
             then case ds_call env Cfs_CDS_Restore tr1 of (r, tr') \<Rightarrow>
               (r, if r = CFE_SUCCESS then restore_cds (de_CdsData env tr') s1 else s1, tr')
             else (result, s1, tr1))
      in if result2 \<noteq> CFE_SUCCESS
         then (CFE_SUCCESS, s2\<lparr>ds_DataStoreHandle := False\<rparr>, cfs_event DS_INIT_CDS_ERR_EID EVS_ERROR tr2)
         else (CFE_SUCCESS, s2, tr2))"

end
