(* ===== verification/Ds_Cmds.thy ===== *)
theory Ds_Cmds
  imports Ds_File Ds_Table
begin

text \<open>
  The commands of DS (\<open>ds_cmds.c\<close>). A handler reads its payload behind the command header of a packet
  whose length the dispatcher has checked; it rejects, with an event that names the command, or
  changes the tables in place and accepts.
\<close>

section \<open>Shared steps\<close>

definition ds_reject :: "nat \<Rightarrow> DS_AppData \<Rightarrow> Cfs_Trace \<Rightarrow> DS_AppData \<times> Cfs_Trace" where
  "ds_reject eid s tr = (s\<lparr>ds_CmdRejectedCounter := ds_CmdRejectedCounter s + 1\<rparr>, cfs_event eid EVS_ERROR tr)"

definition ds_accept :: "nat \<Rightarrow> DS_AppData \<Rightarrow> Cfs_Trace \<Rightarrow> DS_AppData \<times> Cfs_Trace" where
  "ds_accept eid s tr = (s\<lparr>ds_CmdAcceptedCounter := ds_CmdAcceptedCounter s + 1\<rparr>, cfs_event eid EVS_INFORMATION tr)"

definition pay16 :: "Ds_Env \<Rightarrow> u8 list \<Rightarrow> nat \<Rightarrow> u16" where
  "pay16 env buf off = read_le16 buf (cf_CmdHeader (de_cfs env) + off)"

definition pay32 :: "Ds_Env \<Rightarrow> u8 list \<Rightarrow> nat \<Rightarrow> u32" where
  "pay32 env buf off = read_le32 buf (cf_CmdHeader (de_cfs env) + off)"

text \<open>In-place changes of the tables.\<close>

definition set_packet :: "nat \<Rightarrow> (DS_PacketEntry \<Rightarrow> DS_PacketEntry) \<Rightarrow> DS_AppData \<Rightarrow> DS_AppData" where
  "set_packet k f s = s\<lparr>ds_FilterTbl := map_option (\<lambda>tbl. tbl\<lparr>ft_Packet :=
     (ft_Packet tbl)[k := f (ft_Packet tbl ! k)]\<rparr>) (ds_FilterTbl s)\<rparr>"

definition set_filter :: "nat \<Rightarrow> nat \<Rightarrow> (DS_FilterParms \<Rightarrow> DS_FilterParms) \<Rightarrow> DS_AppData \<Rightarrow> DS_AppData" where
  "set_filter k j f = set_packet k (\<lambda>pe. pe\<lparr>pe_Filter := (pe_Filter pe)[j := f (pe_Filter pe ! j)]\<rparr>)"

definition set_dest :: "nat \<Rightarrow> (DS_DestFileEntry \<Rightarrow> DS_DestFileEntry) \<Rightarrow> DS_AppData \<Rightarrow> DS_AppData" where
  "set_dest i f s = s\<lparr>ds_DestFileTbl := map_option (\<lambda>tbl. tbl\<lparr>dt_File :=
     (dt_File tbl)[i := f (dt_File tbl ! i)]\<rparr>) (ds_DestFileTbl s)\<rparr>"

text \<open>A string copied into a character array, with its terminator.\<close>

definition put_string :: "u8 list \<Rightarrow> u8 list \<Rightarrow> u8 list" where
  "put_string str old = str @ [0] @ drop (length str + 1) old"

section \<open>The application\<close>

definition DS_NoopCmd :: "DS_AppData \<Rightarrow> Cfs_Trace \<Rightarrow> DS_AppData \<times> Cfs_Trace" where
  "DS_NoopCmd s tr = (s\<lparr>ds_CmdAcceptedCounter := ds_CmdAcceptedCounter s + 1\<rparr>,
     cfs_event DS_NOOP_INF_EID EVS_INFORMATION tr)"

definition DS_ResetCountersCmd :: "DS_AppData \<Rightarrow> Cfs_Trace \<Rightarrow> DS_AppData \<times> Cfs_Trace" where
  "DS_ResetCountersCmd s tr = (s\<lparr>ds_CmdAcceptedCounter := 0, ds_CmdRejectedCounter := 0,
     ds_DisabledPktCounter := 0, ds_IgnoredPktCounter := 0, ds_FilteredPktCounter := 0, ds_PassedPktCounter := 0,
     ds_FileWriteCounter := 0, ds_FileWriteErrCounter := 0, ds_FileUpdateCounter := 0, ds_FileUpdateErrCounter := 0,
     ds_DestTblLoadCounter := 0, ds_DestTblErrCounter := 0, ds_FilterTblLoadCounter := 0, ds_FilterTblErrCounter := 0\<rparr>,
     cfs_event DS_RESET_INF_EID EVS_INFORMATION tr)"

definition DS_SetAppStateCmd :: "Ds_Env \<Rightarrow> u8 list \<Rightarrow> DS_AppData \<Rightarrow> Cfs_Trace \<Rightarrow> DS_AppData \<times> Cfs_Trace" where
  "DS_SetAppStateCmd env buf s tr =
     (let EnableState = pay16 env buf 0 in
      if \<not> DS_TableVerifyState EnableState then ds_reject DS_ENADIS_CMD_ERR_EID s tr
      else case DS_TableUpdateCDS env (s\<lparr>ds_AppEnableState := ucast EnableState\<rparr>) tr of (s1, tr1) \<Rightarrow>
        ds_accept DS_ENADIS_CMD_EID s1 tr1)"

section \<open>Filters\<close>

definition DS_SetFilterFileCmd :: "Ds_Env \<Rightarrow> u8 list \<Rightarrow> DS_AppData \<Rightarrow> Cfs_Trace \<Rightarrow> (DS_AppData \<times> Cfs_Trace) run" where
  "DS_SetFilterFileCmd env buf s tr =
     (let MessageID = pay32 env buf 0; FilterParmsIndex = unat (pay16 env buf 4);
          FileTableIndex = pay16 env buf 6
      in if \<not> cf_IsValidMsgId (de_cfs env) MessageID then Returns (ds_reject DS_FILE_CMD_ERR_EID s tr)
         else if FilterParmsIndex \<ge> DS_FILTERS_PER_PACKET then Returns (ds_reject DS_FILE_CMD_ERR_EID s tr)
         else if \<not> DS_TableVerifyFileIndex FileTableIndex then Returns (ds_reject DS_FILE_CMD_ERR_EID s tr)
         else if ds_FilterTbl s = None then Returns (ds_reject DS_FILE_CMD_ERR_EID s tr)
         else run_bind (DS_TableFindMsgID MessageID s) (\<lambda>found. case found of
             None \<Rightarrow> Returns (ds_reject DS_FILE_CMD_ERR_EID s tr)
           | Some k \<Rightarrow> Returns (ds_accept DS_FILE_CMD_EID (set_filter k FilterParmsIndex (\<lambda>fp. fp\<lparr>fp_FileTableIndex := ucast FileTableIndex\<rparr>) s)
               (ds_do env (Cfs_TBL_Modified DS_Filter_Handle) tr))))"

definition DS_SetFilterTypeCmd :: "Ds_Env \<Rightarrow> u8 list \<Rightarrow> DS_AppData \<Rightarrow> Cfs_Trace \<Rightarrow> (DS_AppData \<times> Cfs_Trace) run" where
  "DS_SetFilterTypeCmd env buf s tr =
     (let MessageID = pay32 env buf 0; FilterParmsIndex = unat (pay16 env buf 4);
          FilterType = pay16 env buf 6
      in if \<not> cf_IsValidMsgId (de_cfs env) MessageID then Returns (ds_reject DS_FTYPE_CMD_ERR_EID s tr)
         else if FilterParmsIndex \<ge> DS_FILTERS_PER_PACKET then Returns (ds_reject DS_FTYPE_CMD_ERR_EID s tr)
         else if \<not> DS_TableVerifyType FilterType then Returns (ds_reject DS_FTYPE_CMD_ERR_EID s tr)
         else if ds_FilterTbl s = None then Returns (ds_reject DS_FTYPE_CMD_ERR_EID s tr)
         else run_bind (DS_TableFindMsgID MessageID s) (\<lambda>found. case found of
             None \<Rightarrow> Returns (ds_reject DS_FTYPE_CMD_ERR_EID s tr)
           | Some k \<Rightarrow> Returns (ds_accept DS_FTYPE_CMD_EID (set_filter k FilterParmsIndex (\<lambda>fp. fp\<lparr>fp_FilterType := ucast FilterType\<rparr>) s)
               (ds_do env (Cfs_TBL_Modified DS_Filter_Handle) tr))))"

definition DS_SetFilterParmsCmd :: "Ds_Env \<Rightarrow> u8 list \<Rightarrow> DS_AppData \<Rightarrow> Cfs_Trace \<Rightarrow> (DS_AppData \<times> Cfs_Trace) run" where
  "DS_SetFilterParmsCmd env buf s tr =
     (let MessageID = pay32 env buf 0; FilterParmsIndex = unat (pay16 env buf 4);
          N = pay16 env buf 6; X = pay16 env buf 8; Off = pay16 env buf 10
      in if \<not> cf_IsValidMsgId (de_cfs env) MessageID then Returns (ds_reject DS_PARMS_CMD_ERR_EID s tr)
         else if FilterParmsIndex \<ge> DS_FILTERS_PER_PACKET then Returns (ds_reject DS_PARMS_CMD_ERR_EID s tr)
         else if \<not> DS_TableVerifyParms N X Off then Returns (ds_reject DS_PARMS_CMD_ERR_EID s tr)
         else if ds_FilterTbl s = None then Returns (ds_reject DS_PARMS_CMD_ERR_EID s tr)
         else run_bind (DS_TableFindMsgID MessageID s) (\<lambda>found. case found of
             None \<Rightarrow> Returns (ds_reject DS_PARMS_CMD_ERR_EID s tr)
           | Some k \<Rightarrow> Returns (ds_accept DS_PARMS_CMD_EID (set_filter k FilterParmsIndex (\<lambda>fp. fp\<lparr>fp_Algorithm_N := N, fp_Algorithm_X := X, fp_Algorithm_O := Off\<rparr>) s)
               (ds_do env (Cfs_TBL_Modified DS_Filter_Handle) tr))))"

section \<open>Destination files\<close>

definition DS_SetDestTypeCmd :: "Ds_Env \<Rightarrow> u8 list \<Rightarrow> DS_AppData \<Rightarrow> Cfs_Trace \<Rightarrow> DS_AppData \<times> Cfs_Trace" where
  "DS_SetDestTypeCmd env buf s tr =
     (let FileTableIndex = pay16 env buf 0; i = unat FileTableIndex;
          FileNameType = pay16 env buf 2
      in if \<not> DS_TableVerifyFileIndex FileTableIndex then ds_reject DS_NTYPE_CMD_ERR_EID s tr
         else if \<not> DS_TableVerifyType FileNameType then ds_reject DS_NTYPE_CMD_ERR_EID s tr
         else if ds_DestFileTbl s = None then ds_reject DS_NTYPE_CMD_ERR_EID s tr
         else ds_accept DS_NTYPE_CMD_EID (set_dest i (\<lambda>df. df\<lparr>df_FileNameType := FileNameType\<rparr>) s)
           (ds_do env (Cfs_TBL_Modified DS_DestFile_Handle) tr))"

definition DS_SetDestStateCmd :: "Ds_Env \<Rightarrow> u8 list \<Rightarrow> DS_AppData \<Rightarrow> Cfs_Trace \<Rightarrow> DS_AppData \<times> Cfs_Trace" where
  "DS_SetDestStateCmd env buf s tr =
     (let FileTableIndex = pay16 env buf 0; i = unat FileTableIndex;
          EnableState = pay16 env buf 2
      in if \<not> DS_TableVerifyFileIndex FileTableIndex then ds_reject DS_STATE_CMD_ERR_EID s tr
         else if \<not> DS_TableVerifyState EnableState then ds_reject DS_STATE_CMD_ERR_EID s tr
         else if ds_DestFileTbl s = None then ds_reject DS_STATE_CMD_ERR_EID s tr
         else ds_accept DS_STATE_CMD_EID (set_status i (\<lambda>fs. fs\<lparr>fs_FileState := EnableState\<rparr>) (set_dest i (\<lambda>df. df\<lparr>df_EnableState := EnableState\<rparr>) s))
           (ds_do env (Cfs_TBL_Modified DS_DestFile_Handle) tr))"

definition DS_SetDestPathCmd :: "Ds_Env \<Rightarrow> u8 list \<Rightarrow> DS_AppData \<Rightarrow> Cfs_Trace \<Rightarrow> DS_AppData \<times> Cfs_Trace" where
  "DS_SetDestPathCmd env buf s tr =
     (let FileTableIndex = pay16 env buf 0; i = unat FileTableIndex;
          str = de_StringGet env (de_MaxPath env) (take (de_MaxPath env) (drop (cf_CmdHeader (de_cfs env) + 4) buf))
      in if \<not> DS_TableVerifyFileIndex FileTableIndex then ds_reject DS_PATH_CMD_ERR_EID s tr
         else if ds_DestFileTbl s = None then ds_reject DS_PATH_CMD_ERR_EID s tr
         else ds_accept DS_PATH_CMD_EID (set_dest i (\<lambda>df. df\<lparr>df_Pathname := put_string str (df_Pathname df)\<rparr>) s)
           (ds_do env (Cfs_TBL_Modified DS_DestFile_Handle) tr))"

definition DS_SetDestBaseCmd :: "Ds_Env \<Rightarrow> u8 list \<Rightarrow> DS_AppData \<Rightarrow> Cfs_Trace \<Rightarrow> DS_AppData \<times> Cfs_Trace" where
  "DS_SetDestBaseCmd env buf s tr =
     (let FileTableIndex = pay16 env buf 0; i = unat FileTableIndex;
          str = de_StringGet env (de_MaxPath env) (take (de_MaxPath env) (drop (cf_CmdHeader (de_cfs env) + 4) buf))
      in if \<not> DS_TableVerifyFileIndex FileTableIndex then ds_reject DS_BASE_CMD_ERR_EID s tr
         else if ds_DestFileTbl s = None then ds_reject DS_BASE_CMD_ERR_EID s tr
         else ds_accept DS_BASE_CMD_EID (set_dest i (\<lambda>df. df\<lparr>df_Basename := put_string str (df_Basename df)\<rparr>) s)
           (ds_do env (Cfs_TBL_Modified DS_DestFile_Handle) tr))"

definition DS_SetDestExtCmd :: "Ds_Env \<Rightarrow> u8 list \<Rightarrow> DS_AppData \<Rightarrow> Cfs_Trace \<Rightarrow> DS_AppData \<times> Cfs_Trace" where
  "DS_SetDestExtCmd env buf s tr =
     (let FileTableIndex = pay16 env buf 0; i = unat FileTableIndex;
          str = de_StringGet env DS_EXTENSION_BUFSIZE (take DS_EXTENSION_BUFSIZE (drop (cf_CmdHeader (de_cfs env) + 4) buf))
      in if \<not> DS_TableVerifyFileIndex FileTableIndex then ds_reject DS_EXT_CMD_ERR_EID s tr
         else if ds_DestFileTbl s = None then ds_reject DS_EXT_CMD_ERR_EID s tr
         else ds_accept DS_EXT_CMD_EID (set_dest i (\<lambda>df. df\<lparr>df_Extension := put_string str (df_Extension df)\<rparr>) s)
           (ds_do env (Cfs_TBL_Modified DS_DestFile_Handle) tr))"

definition DS_SetDestSizeCmd :: "Ds_Env \<Rightarrow> u8 list \<Rightarrow> DS_AppData \<Rightarrow> Cfs_Trace \<Rightarrow> DS_AppData \<times> Cfs_Trace" where
  "DS_SetDestSizeCmd env buf s tr =
     (let FileTableIndex = pay16 env buf 0; i = unat FileTableIndex;
          MaxFileSize = pay32 env buf 4
      in if \<not> DS_TableVerifyFileIndex FileTableIndex then ds_reject DS_SIZE_CMD_ERR_EID s tr
         else if \<not> DS_TableVerifySize MaxFileSize then ds_reject DS_SIZE_CMD_ERR_EID s tr
         else if ds_DestFileTbl s = None then ds_reject DS_SIZE_CMD_ERR_EID s tr
         else ds_accept DS_SIZE_CMD_EID (set_dest i (\<lambda>df. df\<lparr>df_MaxFileSize := MaxFileSize\<rparr>) s)
           (ds_do env (Cfs_TBL_Modified DS_DestFile_Handle) tr))"

definition DS_SetDestAgeCmd :: "Ds_Env \<Rightarrow> u8 list \<Rightarrow> DS_AppData \<Rightarrow> Cfs_Trace \<Rightarrow> DS_AppData \<times> Cfs_Trace" where
  "DS_SetDestAgeCmd env buf s tr =
     (let FileTableIndex = pay16 env buf 0; i = unat FileTableIndex;
          MaxFileAge = pay32 env buf 4
      in if \<not> DS_TableVerifyFileIndex FileTableIndex then ds_reject DS_AGE_CMD_ERR_EID s tr
         else if \<not> DS_TableVerifyAge MaxFileAge then ds_reject DS_AGE_CMD_ERR_EID s tr
         else if ds_DestFileTbl s = None then ds_reject DS_AGE_CMD_ERR_EID s tr
         else ds_accept DS_AGE_CMD_EID (set_dest i (\<lambda>df. df\<lparr>df_MaxFileAge := MaxFileAge\<rparr>) s)
           (ds_do env (Cfs_TBL_Modified DS_DestFile_Handle) tr))"

definition DS_SetDestCountCmd :: "Ds_Env \<Rightarrow> u8 list \<Rightarrow> DS_AppData \<Rightarrow> Cfs_Trace \<Rightarrow> DS_AppData \<times> Cfs_Trace" where
  "DS_SetDestCountCmd env buf s tr =
     (let FileTableIndex = pay16 env buf 0; i = unat FileTableIndex;
          SequenceCount = pay32 env buf 4
      in if \<not> DS_TableVerifyFileIndex FileTableIndex then ds_reject DS_SEQ_CMD_ERR_EID s tr
         else if \<not> DS_TableVerifyCount SequenceCount then ds_reject DS_SEQ_CMD_ERR_EID s tr
         else if ds_DestFileTbl s = None then ds_reject DS_SEQ_CMD_ERR_EID s tr
         else case DS_TableUpdateCDS env (set_status i (\<lambda>fs. fs\<lparr>fs_FileCount := SequenceCount\<rparr>) (set_dest i (\<lambda>df. df\<lparr>df_SequenceCount := SequenceCount\<rparr>) s))
             (ds_do env (Cfs_TBL_Modified DS_DestFile_Handle) tr) of (s1, tr1) \<Rightarrow> ds_accept DS_SEQ_CMD_EID s1 tr1)"

text \<open>Closing a file when it is open. The close reads the table, without a test of its pointer, where files are moved.\<close>

definition close_open :: "Ds_Env \<Rightarrow> nat \<Rightarrow> DS_AppData \<Rightarrow> Cfs_Trace \<Rightarrow> (DS_AppData \<times> Cfs_Trace) run" where
  "close_open env i s tr =
     (if fs_FileHandle (file_status s i) = None then Returns (s, tr)
      else if ds_EnableMoveFiles s = ucast DS_ENABLED \<and> ds_DestFileTbl s = None then OutOfBounds
      else case DS_FileUpdateHeader env i s tr of (s1, tr1) \<Rightarrow> Returns (DS_FileCloseDest env i s1 tr1))"

definition DS_CloseFileCmd :: "Ds_Env \<Rightarrow> u8 list \<Rightarrow> DS_AppData \<Rightarrow> Cfs_Trace \<Rightarrow> (DS_AppData \<times> Cfs_Trace) run" where
  "DS_CloseFileCmd env buf s tr =
     (let FileTableIndex = pay16 env buf 0 in
      if \<not> DS_TableVerifyFileIndex FileTableIndex then Returns (ds_reject DS_CLOSE_CMD_ERR_EID s tr)
      else run_bind (close_open env (unat FileTableIndex) s tr)
        (\<lambda>(s1, tr1). Returns (ds_accept DS_CLOSE_CMD_EID s1 tr1)))"

fun close_all_loop :: "Ds_Env \<Rightarrow> nat list \<Rightarrow> DS_AppData \<Rightarrow> Cfs_Trace \<Rightarrow> (DS_AppData \<times> Cfs_Trace) run" where
  "close_all_loop env [] s tr = Returns (s, tr)"
| "close_all_loop env (i # js) s tr = run_bind (close_open env i s tr) (\<lambda>(s1, tr1). close_all_loop env js s1 tr1)"

definition DS_CloseAllCmd :: "Ds_Env \<Rightarrow> DS_AppData \<Rightarrow> Cfs_Trace \<Rightarrow> (DS_AppData \<times> Cfs_Trace) run" where
  "DS_CloseAllCmd env s tr = run_bind (close_all_loop env [0..<DS_DEST_FILE_CNT] s tr)
     (\<lambda>(s1, tr1). Returns (ds_accept DS_CLOSE_ALL_CMD_EID s1 tr1))"

text \<open>The information on one file, at its place in the packet.\<close>

definition file_info_parts :: "Ds_Env \<Rightarrow> DS_AppData \<Rightarrow> nat \<Rightarrow> (nat \<times> u8 list) list" where
  "file_info_parts env s i =
     (let fs = file_status s i; at = i * DS_FileInfo_size env;
          enable = (if ds_DestFileTbl s = None then DS_DISABLED else fs_FileState fs)
      in if fs_FileHandle fs = None then [(at, file_info fs enable DS_CLOSED)]
         else [(at, file_info fs enable DS_OPEN), (at + 20, print_name env (fs_FileName fs))])"

definition DS_GetFileInfoCmd :: "Ds_Env \<Rightarrow> DS_AppData \<Rightarrow> Cfs_Trace \<Rightarrow> DS_AppData \<times> Cfs_Trace" where
  "DS_GetFileInfoCmd env s tr =
     (case ds_accept DS_GET_FILE_INFO_CMD_EID s tr of (s1, tr1) \<Rightarrow>
        (s1, cfs_transmit (ds_packet env DS_DIAG_TLM_MID (DS_DEST_FILE_CNT * DS_FileInfo_size env)
           (concat (map (file_info_parts env s1) [0..<DS_DEST_FILE_CNT])) tr1) tr1))"

section \<open>Adding and removing a message id\<close>

definition reset_filters :: "DS_PacketEntry \<Rightarrow> DS_PacketEntry" where
  "reset_filters pe = pe\<lparr>pe_Filter := replicate DS_FILTERS_PER_PACKET
     \<lparr>fp_FileTableIndex = 0, fp_FilterType = ucast DS_BY_COUNT, fp_Algorithm_N = 0, fp_Algorithm_X = 0, fp_Algorithm_O = 0\<rparr>\<rparr>"

definition DS_AddMIDCmd :: "Ds_Env \<Rightarrow> u8 list \<Rightarrow> DS_AppData \<Rightarrow> Cfs_Trace \<Rightarrow> (DS_AppData \<times> Cfs_Trace) run" where
  "DS_AddMIDCmd env buf s tr =
     (let MessageID = pay32 env buf 0 in
      if \<not> cf_IsValidMsgId (de_cfs env) MessageID then Returns (ds_reject DS_ADD_MID_CMD_ERR_EID s tr)
      else if ds_FilterTbl s = None then Returns (ds_reject DS_ADD_MID_CMD_ERR_EID s tr)
      else run_bind (DS_TableFindMsgID MessageID s) (\<lambda>found.
        if found \<noteq> None then Returns (ds_reject DS_ADD_MID_CMD_ERR_EID s tr)
        else run_bind (DS_TableFindMsgID (de_InvalidMid env) s) (\<lambda>free. case free of
            None \<Rightarrow> Returns (ds_reject DS_ADD_MID_CMD_ERR_EID s tr)
          | Some k \<Rightarrow>
              run_bind (DS_TableAddMsgID MessageID k (set_packet k (\<lambda>pe. pe\<lparr>pe_MessageID := MessageID\<rparr>) s)) (\<lambda>s1.
                Returns (ds_accept DS_ADD_MID_CMD_EID (set_packet k reset_filters s1)
                  (ds_do env (Cfs_TBL_Modified DS_Filter_Handle) (ds_do env (Cfs_SB_Subscribe MessageID) tr)))))))"

definition DS_RemoveMIDCmd :: "Ds_Env \<Rightarrow> u8 list \<Rightarrow> DS_AppData \<Rightarrow> Cfs_Trace \<Rightarrow> (DS_AppData \<times> Cfs_Trace) run" where
  "DS_RemoveMIDCmd env buf s tr =
     (let MessageID = pay32 env buf 0 in
      run_bind (DS_TableFindMsgID MessageID s) (\<lambda>found.
        if \<not> cf_IsValidMsgId (de_cfs env) MessageID then Returns (ds_reject DS_REMOVE_MID_CMD_ERR_EID s tr)
        else case ds_FilterTbl s of
            None \<Rightarrow> Returns (ds_reject DS_REMOVE_MID_CMD_ERR_EID s tr)
          | Some _ \<Rightarrow> (case found of
              None \<Rightarrow> Returns (ds_reject DS_REMOVE_MID_CMD_ERR_EID s tr)
            | Some k \<Rightarrow>
                (let s1 = set_packet k (\<lambda>pe. pe\<lparr>pe_MessageID := de_InvalidMid env\<rparr>) s in
                 run_bind (DS_TableCreateHash (the (ds_FilterTbl s1)) s1) (\<lambda>s2.
                   Returns (ds_accept DS_REMOVE_MID_CMD_EID (set_packet k reset_filters s2)
                     (ds_do env (Cfs_TBL_Modified DS_Filter_Handle) (tr @ [Cfs_Unsubscribe MessageID]))))))))"

end
