(* ===== verification/Ds_App.thy ===== *)
theory Ds_App
  imports Ds_Cmds
begin

text \<open>
  The rest of DS: storing a packet (\<open>DS_FileStorePacket\<close> of \<open>ds_file.c\<close>), the application of
  \<open>ds_app.c\<close> and the dispatch of \<open>ds_dispatch.c\<close>.
\<close>

section \<open>Storing a packet\<close>

text \<open>The filters of one packet, in their order; the flag says whether one let the packet pass.\<close>

fun store_loop :: "Ds_Env \<Rightarrow> u8 list \<Rightarrow> DS_FilterParms list \<Rightarrow> bool \<Rightarrow> DS_AppData \<Rightarrow> Cfs_Trace \<Rightarrow>
    bool \<times> DS_AppData \<times> Cfs_Trace" where
  "store_loop env buf [] passed s tr = (passed, s, tr)"
| "store_loop env buf (fp # fps) passed s tr =
     (if fp_Algorithm_N fp \<noteq> ucast DS_UNUSED \<and> unat (fp_FileTableIndex fp) < DS_DEST_FILE_CNT \<and>
         fs_FileState (file_status s (unat (fp_FileTableIndex fp))) = DS_ENABLED \<and>
         \<not> DS_IsPacketFiltered env buf (ucast (fp_FilterType fp)) (fp_Algorithm_N fp) (fp_Algorithm_X fp) (fp_Algorithm_O fp)
      then case DS_FileSetupWrite env (unat (fp_FileTableIndex fp)) buf s tr of (s1, tr1) \<Rightarrow>
        store_loop env buf fps True s1 tr1
      else store_loop env buf fps passed s tr)"

definition DS_FileStorePacket :: "Ds_Env \<Rightarrow> u32 \<Rightarrow> u8 list \<Rightarrow> DS_AppData \<Rightarrow> Cfs_Trace \<Rightarrow>
    (DS_AppData \<times> Cfs_Trace) run" where
  "DS_FileStorePacket env MessageID buf s tr =
     run_bind (DS_TableFindMsgID MessageID s) (\<lambda>found. Returns (case found of
         None \<Rightarrow> (s\<lparr>ds_IgnoredPktCounter := ds_IgnoredPktCounter s + 1\<rparr>, tr)
       | Some k \<Rightarrow> (case store_loop env buf (pe_Filter (ft_Packet (the (ds_FilterTbl s)) ! k)) False s tr of
           (passed, s1, tr1) \<Rightarrow>
             (if passed then s1\<lparr>ds_PassedPktCounter := ds_PassedPktCounter s1 + 1\<rparr>
              else s1\<lparr>ds_FilteredPktCounter := ds_FilteredPktCounter s1 + 1\<rparr>, tr1))))"

definition DS_AppStorePacket :: "Ds_Env \<Rightarrow> u32 \<Rightarrow> u8 list \<Rightarrow> DS_AppData \<Rightarrow> Cfs_Trace \<Rightarrow>
    (DS_AppData \<times> Cfs_Trace) run" where
  "DS_AppStorePacket env MessageID buf s tr =
     (if ds_AppEnableState s = ucast DS_DISABLED
      then Returns (s\<lparr>ds_DisabledPktCounter := ds_DisabledPktCounter s + 1\<rparr>, tr)
      else if ds_FilterTbl s = None \<or> ds_DestFileTbl s = None
      then Returns (s\<lparr>ds_IgnoredPktCounter := ds_IgnoredPktCounter s + 1\<rparr>, tr)
      else DS_FileStorePacket env MessageID buf s tr)"

section \<open>Housekeeping\<close>

definition ds_hk_payload :: "DS_AppData \<Rightarrow> u8 list" where
  "ds_hk_payload s = [ds_CmdAcceptedCounter s, ds_CmdRejectedCounter s, ds_DestTblLoadCounter s, ds_DestTblErrCounter s,
     ds_FilterTblLoadCounter s, ds_FilterTblErrCounter s, ds_AppEnableState s, 0] @
     le16 (ds_FileWriteCounter s) @ le16 (ds_FileWriteErrCounter s) @
     le16 (ds_FileUpdateCounter s) @ le16 (ds_FileUpdateErrCounter s) @
     le32 (ds_DisabledPktCounter s) @ le32 (ds_IgnoredPktCounter s) @
     le32 (ds_FilteredPktCounter s) @ le32 (ds_PassedPktCounter s)"

definition file_rates :: "DS_AppData \<Rightarrow> DS_AppData" where
  "file_rates s = s\<lparr>ds_FileStatus := map (\<lambda>fs. fs\<lparr>fs_FileRate := fs_FileGrowth fs div DS_SECS_PER_HK_CYCLE,
     fs_FileGrowth := 0\<rparr>) (ds_FileStatus s)\<rparr>"

text \<open>The table name always fits its buffer, so only \<open>CFE_TBL_GetInfo\<close> can fail.\<close>

definition DS_AppSendHkCmd :: "Ds_Env \<Rightarrow> DS_AppData \<Rightarrow> Cfs_Trace \<Rightarrow> (DS_AppData \<times> Cfs_Trace) run" where
  "DS_AppSendHkCmd env s tr =
     (case DS_FileTestAge env DS_SECS_PER_HK_CYCLE s tr of (s1, tr1) \<Rightarrow>
      run_bind (DS_TableManageDestFile env s1 tr1) (\<lambda>(s2, tr2).
      run_bind (DS_TableManageFilter env s2 tr2) (\<lambda>(s3, tr3).
        case ds_call env (Cfs_TBL_GetInfo DS_Filter_Handle) tr3 of (status, tr4) \<Rightarrow>
        let (name, tr5) = (if status = CFE_SUCCESS then (print_name env (de_LastFileLoaded env tr4), tr4)
              else (zeros (de_MaxPath env), cfs_event DS_APPHK_FILTER_TBL_ERR_EID EVS_ERROR tr4))
        in Returns (file_rates s3, cfs_transmit
             (ds_packet env DS_HK_TLM_MID (32 + de_MaxPath env) [(0, ds_hk_payload s3), (32, name)] tr5) tr5))))"

section \<open>Dispatch\<close>

text \<open>A packet of the expected length is handled; any other is counted as rejected and reported.\<close>

definition DS_VerifyLength :: "Ds_Env \<Rightarrow> u8 list \<Rightarrow> nat \<Rightarrow> nat \<Rightarrow> DS_AppData \<Rightarrow> Cfs_Trace \<Rightarrow>
    bool \<times> DS_AppData \<times> Cfs_Trace" where
  "DS_VerifyLength env buf n eid s tr =
     (if n \<noteq> length buf
      then (False, s\<lparr>ds_CmdRejectedCounter := ds_CmdRejectedCounter s + 1\<rparr>, cfs_event eid EVS_ERROR tr)
      else (True, s, tr))"

definition verify_dispatch :: "Ds_Env \<Rightarrow> u8 list \<Rightarrow> nat \<Rightarrow> nat \<Rightarrow>
    (DS_AppData \<Rightarrow> Cfs_Trace \<Rightarrow> (DS_AppData \<times> Cfs_Trace) run) \<Rightarrow> DS_AppData \<Rightarrow> Cfs_Trace \<Rightarrow>
    (DS_AppData \<times> Cfs_Trace) run" where
  "verify_dispatch env buf n eid handle s tr =
     (case DS_VerifyLength env buf (cf_CmdHeader (de_cfs env) + n) eid s tr of (ok, s1, tr1) \<Rightarrow>
        if ok then handle s1 tr1 else Returns (s1, tr1))"

definition DS_NoopVerifyDispatch :: "Ds_Env \<Rightarrow> u8 list \<Rightarrow> DS_AppData \<Rightarrow> Cfs_Trace \<Rightarrow> (DS_AppData \<times> Cfs_Trace) run" where
  "DS_NoopVerifyDispatch env buf = verify_dispatch env buf 0 DS_NOOP_CMD_ERR_EID (\<lambda>s1 tr1. Returns (DS_NoopCmd s1 tr1))"

definition DS_ResetVerifyDispatch :: "Ds_Env \<Rightarrow> u8 list \<Rightarrow> DS_AppData \<Rightarrow> Cfs_Trace \<Rightarrow> (DS_AppData \<times> Cfs_Trace) run" where
  "DS_ResetVerifyDispatch env buf = verify_dispatch env buf 0 DS_RESET_CMD_ERR_EID (\<lambda>s1 tr1. Returns (DS_ResetCountersCmd s1 tr1))"

definition DS_SetAppStateVerifyDispatch :: "Ds_Env \<Rightarrow> u8 list \<Rightarrow> DS_AppData \<Rightarrow> Cfs_Trace \<Rightarrow> (DS_AppData \<times> Cfs_Trace) run" where
  "DS_SetAppStateVerifyDispatch env buf = verify_dispatch env buf 4 DS_ENADIS_CMD_ERR_EID (\<lambda>s1 tr1. Returns (DS_SetAppStateCmd env buf s1 tr1))"

definition DS_SetFilterFileVerifyDispatch :: "Ds_Env \<Rightarrow> u8 list \<Rightarrow> DS_AppData \<Rightarrow> Cfs_Trace \<Rightarrow> (DS_AppData \<times> Cfs_Trace) run" where
  "DS_SetFilterFileVerifyDispatch env buf = verify_dispatch env buf 8 DS_FILE_CMD_ERR_EID (DS_SetFilterFileCmd env buf)"

definition DS_SetFilterTypeVerifyDispatch :: "Ds_Env \<Rightarrow> u8 list \<Rightarrow> DS_AppData \<Rightarrow> Cfs_Trace \<Rightarrow> (DS_AppData \<times> Cfs_Trace) run" where
  "DS_SetFilterTypeVerifyDispatch env buf = verify_dispatch env buf 8 DS_FTYPE_CMD_ERR_EID (DS_SetFilterTypeCmd env buf)"

definition DS_SetFilterParmsVerifyDispatch :: "Ds_Env \<Rightarrow> u8 list \<Rightarrow> DS_AppData \<Rightarrow> Cfs_Trace \<Rightarrow> (DS_AppData \<times> Cfs_Trace) run" where
  "DS_SetFilterParmsVerifyDispatch env buf = verify_dispatch env buf 12 DS_PARMS_CMD_ERR_EID (DS_SetFilterParmsCmd env buf)"

definition DS_SetDestTypeVerifyDispatch :: "Ds_Env \<Rightarrow> u8 list \<Rightarrow> DS_AppData \<Rightarrow> Cfs_Trace \<Rightarrow> (DS_AppData \<times> Cfs_Trace) run" where
  "DS_SetDestTypeVerifyDispatch env buf = verify_dispatch env buf 4 DS_NTYPE_CMD_ERR_EID (\<lambda>s1 tr1. Returns (DS_SetDestTypeCmd env buf s1 tr1))"

definition DS_SetDestStateVerifyDispatch :: "Ds_Env \<Rightarrow> u8 list \<Rightarrow> DS_AppData \<Rightarrow> Cfs_Trace \<Rightarrow> (DS_AppData \<times> Cfs_Trace) run" where
  "DS_SetDestStateVerifyDispatch env buf = verify_dispatch env buf 4 DS_STATE_CMD_ERR_EID (\<lambda>s1 tr1. Returns (DS_SetDestStateCmd env buf s1 tr1))"

definition DS_SetDestPathVerifyDispatch :: "Ds_Env \<Rightarrow> u8 list \<Rightarrow> DS_AppData \<Rightarrow> Cfs_Trace \<Rightarrow> (DS_AppData \<times> Cfs_Trace) run" where
  "DS_SetDestPathVerifyDispatch env buf = verify_dispatch env buf (4 + de_MaxPath env) DS_PATH_CMD_ERR_EID (\<lambda>s1 tr1. Returns (DS_SetDestPathCmd env buf s1 tr1))"

definition DS_SetDestBaseVerifyDispatch :: "Ds_Env \<Rightarrow> u8 list \<Rightarrow> DS_AppData \<Rightarrow> Cfs_Trace \<Rightarrow> (DS_AppData \<times> Cfs_Trace) run" where
  "DS_SetDestBaseVerifyDispatch env buf = verify_dispatch env buf (4 + de_MaxPath env) DS_BASE_CMD_ERR_EID (\<lambda>s1 tr1. Returns (DS_SetDestBaseCmd env buf s1 tr1))"

definition DS_SetDestExtVerifyDispatch :: "Ds_Env \<Rightarrow> u8 list \<Rightarrow> DS_AppData \<Rightarrow> Cfs_Trace \<Rightarrow> (DS_AppData \<times> Cfs_Trace) run" where
  "DS_SetDestExtVerifyDispatch env buf = verify_dispatch env buf (4 + DS_EXTENSION_BUFSIZE) DS_EXT_CMD_ERR_EID (\<lambda>s1 tr1. Returns (DS_SetDestExtCmd env buf s1 tr1))"

definition DS_SetDestSizeVerifyDispatch :: "Ds_Env \<Rightarrow> u8 list \<Rightarrow> DS_AppData \<Rightarrow> Cfs_Trace \<Rightarrow> (DS_AppData \<times> Cfs_Trace) run" where
  "DS_SetDestSizeVerifyDispatch env buf = verify_dispatch env buf 8 DS_SIZE_CMD_ERR_EID (\<lambda>s1 tr1. Returns (DS_SetDestSizeCmd env buf s1 tr1))"

definition DS_SetDestAgeVerifyDispatch :: "Ds_Env \<Rightarrow> u8 list \<Rightarrow> DS_AppData \<Rightarrow> Cfs_Trace \<Rightarrow> (DS_AppData \<times> Cfs_Trace) run" where
  "DS_SetDestAgeVerifyDispatch env buf = verify_dispatch env buf 8 DS_AGE_CMD_ERR_EID (\<lambda>s1 tr1. Returns (DS_SetDestAgeCmd env buf s1 tr1))"

definition DS_SetDestCountVerifyDispatch :: "Ds_Env \<Rightarrow> u8 list \<Rightarrow> DS_AppData \<Rightarrow> Cfs_Trace \<Rightarrow> (DS_AppData \<times> Cfs_Trace) run" where
  "DS_SetDestCountVerifyDispatch env buf = verify_dispatch env buf 8 DS_SEQ_CMD_ERR_EID (\<lambda>s1 tr1. Returns (DS_SetDestCountCmd env buf s1 tr1))"

definition DS_CloseFileVerifyDispatch :: "Ds_Env \<Rightarrow> u8 list \<Rightarrow> DS_AppData \<Rightarrow> Cfs_Trace \<Rightarrow> (DS_AppData \<times> Cfs_Trace) run" where
  "DS_CloseFileVerifyDispatch env buf = verify_dispatch env buf 4 DS_CLOSE_CMD_ERR_EID (DS_CloseFileCmd env buf)"

definition DS_GetFileInfoVerifyDispatch :: "Ds_Env \<Rightarrow> u8 list \<Rightarrow> DS_AppData \<Rightarrow> Cfs_Trace \<Rightarrow> (DS_AppData \<times> Cfs_Trace) run" where
  "DS_GetFileInfoVerifyDispatch env buf = verify_dispatch env buf 0 DS_GET_FILE_INFO_CMD_ERR_EID (\<lambda>s1 tr1. Returns (DS_GetFileInfoCmd env s1 tr1))"

definition DS_AddMIDVerifyDispatch :: "Ds_Env \<Rightarrow> u8 list \<Rightarrow> DS_AppData \<Rightarrow> Cfs_Trace \<Rightarrow> (DS_AppData \<times> Cfs_Trace) run" where
  "DS_AddMIDVerifyDispatch env buf = verify_dispatch env buf 4 DS_ADD_MID_CMD_ERR_EID (DS_AddMIDCmd env buf)"

definition DS_RemoveMIDVerifyDispatch :: "Ds_Env \<Rightarrow> u8 list \<Rightarrow> DS_AppData \<Rightarrow> Cfs_Trace \<Rightarrow> (DS_AppData \<times> Cfs_Trace) run" where
  "DS_RemoveMIDVerifyDispatch env buf = verify_dispatch env buf 4 DS_REMOVE_MID_CMD_ERR_EID (DS_RemoveMIDCmd env buf)"

definition DS_CloseAllVerifyDispatch :: "Ds_Env \<Rightarrow> u8 list \<Rightarrow> DS_AppData \<Rightarrow> Cfs_Trace \<Rightarrow> (DS_AppData \<times> Cfs_Trace) run" where
  "DS_CloseAllVerifyDispatch env buf = verify_dispatch env buf 0 DS_CLOSE_ALL_CMD_ERR_EID (DS_CloseAllCmd env)"

definition DS_SendHkVerifyDispatch :: "Ds_Env \<Rightarrow> u8 list \<Rightarrow> DS_AppData \<Rightarrow> Cfs_Trace \<Rightarrow> (DS_AppData \<times> Cfs_Trace) run" where
  "DS_SendHkVerifyDispatch env buf = verify_dispatch env buf 0 DS_HKREQ_LEN_ERR_EID (DS_AppSendHkCmd env)"

definition DS_AppProcessCmd :: "Ds_Env \<Rightarrow> u8 list \<Rightarrow> DS_AppData \<Rightarrow> Cfs_Trace \<Rightarrow> (DS_AppData \<times> Cfs_Trace) run" where
  "DS_AppProcessCmd env buf s tr =
     (let cc = cf_FcnCode (de_cfs env) buf in
      if cc = DS_NOOP_CC then DS_NoopVerifyDispatch env buf s tr
      else if cc = DS_RESET_COUNTERS_CC then DS_ResetVerifyDispatch env buf s tr
      else if cc = DS_SET_APP_STATE_CC then DS_SetAppStateVerifyDispatch env buf s tr
      else if cc = DS_SET_FILTER_FILE_CC then DS_SetFilterFileVerifyDispatch env buf s tr
      else if cc = DS_SET_FILTER_TYPE_CC then DS_SetFilterTypeVerifyDispatch env buf s tr
      else if cc = DS_SET_FILTER_PARMS_CC then DS_SetFilterParmsVerifyDispatch env buf s tr
      else if cc = DS_SET_DEST_TYPE_CC then DS_SetDestTypeVerifyDispatch env buf s tr
      else if cc = DS_SET_DEST_STATE_CC then DS_SetDestStateVerifyDispatch env buf s tr
      else if cc = DS_SET_DEST_PATH_CC then DS_SetDestPathVerifyDispatch env buf s tr
      else if cc = DS_SET_DEST_BASE_CC then DS_SetDestBaseVerifyDispatch env buf s tr
      else if cc = DS_SET_DEST_EXT_CC then DS_SetDestExtVerifyDispatch env buf s tr
      else if cc = DS_SET_DEST_SIZE_CC then DS_SetDestSizeVerifyDispatch env buf s tr
      else if cc = DS_SET_DEST_AGE_CC then DS_SetDestAgeVerifyDispatch env buf s tr
      else if cc = DS_SET_DEST_COUNT_CC then DS_SetDestCountVerifyDispatch env buf s tr
      else if cc = DS_CLOSE_FILE_CC then DS_CloseFileVerifyDispatch env buf s tr
      else if cc = DS_GET_FILE_INFO_CC then DS_GetFileInfoVerifyDispatch env buf s tr
      else if cc = DS_ADD_MID_CC then DS_AddMIDVerifyDispatch env buf s tr
      else if cc = DS_REMOVE_MID_CC then DS_RemoveMIDVerifyDispatch env buf s tr
      else if cc = DS_CLOSE_ALL_CC then DS_CloseAllVerifyDispatch env buf s tr
      else Returns (s\<lparr>ds_CmdRejectedCounter := ds_CmdRejectedCounter s + 1\<rparr>, cfs_event DS_CC_ERR_EID EVS_ERROR tr))"

text \<open>A message of DS itself is also stored when the filter table lists it.\<close>

definition store_if_listed :: "Ds_Env \<Rightarrow> u32 \<Rightarrow> u8 list \<Rightarrow> DS_AppData \<Rightarrow> Cfs_Trace \<Rightarrow>
    (DS_AppData \<times> Cfs_Trace) run" where
  "store_if_listed env MessageID buf s tr = run_bind (DS_TableFindMsgID MessageID s) (\<lambda>found.
     if found \<noteq> None then DS_AppStorePacket env MessageID buf s tr else Returns (s, tr))"

definition DS_AppProcessMsg :: "Ds_Env \<Rightarrow> u8 list \<Rightarrow> DS_AppData \<Rightarrow> Cfs_Trace \<Rightarrow> (DS_AppData \<times> Cfs_Trace) run" where
  "DS_AppProcessMsg env buf s tr =
     (let MessageID = cf_MsgId (de_cfs env) buf in
      if MessageID = DS_CMD_MID
      then run_bind (DS_AppProcessCmd env buf s tr) (\<lambda>(s1, tr1). store_if_listed env MessageID buf s1 tr1)
      else if MessageID = DS_SEND_HK_MID
      then run_bind (DS_SendHkVerifyDispatch env buf s tr) (\<lambda>(s1, tr1). store_if_listed env MessageID buf s1 tr1)
      else DS_AppStorePacket env MessageID buf s tr)"

section \<open>Start and main loop\<close>

definition closed_status :: DS_AppFileStatus where
  "closed_status = \<lparr>fs_FileHandle = None, fs_FileAge = 0, fs_FileSize = 0, fs_FileGrowth = 0, fs_FileRate = 0,
     fs_FileCount = 0, fs_FileState = 0, fs_FileName = []\<rparr>"

definition ds_initial :: DS_AppData where
  "ds_initial = \<lparr>ds_DataStoreHandle = False, ds_FilterTbl = None, ds_DestFileTbl = None,
     ds_CmdAcceptedCounter = 0, ds_CmdRejectedCounter = 0, ds_DestTblLoadCounter = 0, ds_DestTblErrCounter = 0,
     ds_FilterTblLoadCounter = 0, ds_FilterTblErrCounter = 0, ds_AppEnableState = DS_DEF_ENABLE_STATE,
     ds_FileWriteCounter = 0, ds_FileWriteErrCounter = 0, ds_FileUpdateCounter = 0, ds_FileUpdateErrCounter = 0,
     ds_DisabledPktCounter = 0, ds_IgnoredPktCounter = 0, ds_FilteredPktCounter = 0, ds_PassedPktCounter = 0,
     ds_FileStatus = replicate DS_DEST_FILE_CNT closed_status,
     ds_HashLinks = replicate DS_PACKETS_IN_FILTER_TABLE zero_link,
     ds_HashTable = replicate DS_HASH_TABLE_ENTRIES None, ds_EnableMoveFiles = DS_MOVE_FILES\<rparr>"

definition DS_AppInitialize :: "Ds_Env \<Rightarrow> Cfs_Trace \<Rightarrow> (CFE_Status \<times> DS_AppData \<times> Cfs_Trace) run" where
  "DS_AppInitialize env tr =
     (case cfs_or (de_cfs env) Cfs_EVS_Register CFE_SUCCESS cfs_log
        (cfs_or (de_cfs env) (Cfs_SB_CreatePipe DS_APP_PIPE_DEPTH) CFE_SUCCESS (cfs_event DS_INIT_ERR_EID EVS_ERROR)
        (cfs_or (de_cfs env) (Cfs_SB_Subscribe DS_SEND_HK_MID) CFE_SUCCESS (cfs_event DS_INIT_ERR_EID EVS_ERROR)
        (cfs_or (de_cfs env) (Cfs_SB_Subscribe DS_CMD_MID) CFE_SUCCESS (cfs_event DS_INIT_ERR_EID EVS_ERROR)
        (\<lambda>tr'. (CFE_SUCCESS, ds_initial, tr')) ds_initial) ds_initial) ds_initial) ds_initial tr of
      (result, s, tr1) \<Rightarrow>
        if result \<noteq> CFE_SUCCESS then Returns (result, s, tr1)
        else run_bind (DS_TableInit env s tr1) (\<lambda>(result2, s2, tr2).
          if result2 \<noteq> CFE_SUCCESS then Returns (result2, s2, tr2)
          else case DS_TableCreateCDS env s2 tr2 of (result3, s3, tr3) \<Rightarrow>
            Returns (result3, s3, if result3 = CFE_SUCCESS then cfs_event DS_INIT_INF_EID EVS_INFORMATION tr3 else tr3)))"

text \<open>
  What one turn of \<open>CFE_ES_RunLoop\<close> brings: the status and the packet that \<open>CFE_SB_ReceiveBuffer\<close> gives,
  or the end of the run. The flag is \<open>RunStatus = CFE_ES_RunStatus_APP_RUN\<close>.
\<close>

datatype DS_Input = DS_Receive CFE_Status "u8 list" | DS_Shutdown

fun ds_run_loop :: "Ds_Env \<Rightarrow> DS_Input list \<Rightarrow> bool \<Rightarrow> CFE_Status \<Rightarrow> DS_AppData \<Rightarrow> Cfs_Trace \<Rightarrow>
    (bool \<times> CFE_Status \<times> DS_AppData \<times> Cfs_Trace) run" where
  "ds_run_loop env [] running result s tr = (if running then Blocked else Returns (running, result, s, tr))"
| "ds_run_loop env (DS_Shutdown # inputs) running result s tr = Returns (running, result, s, tr)"
| "ds_run_loop env (DS_Receive status buf # inputs) running result s tr =
     (if \<not> running then Returns (running, result, s, tr)
      else if status = CFE_SUCCESS
      then run_bind (DS_AppProcessMsg env buf s tr) (\<lambda>(s1, tr1). ds_run_loop env inputs True status s1 tr1)
      else if status = CFE_SB_TIME_OUT
      then run_bind (DS_TableManageDestFile env s tr) (\<lambda>(s1, tr1).
           run_bind (DS_TableManageFilter env s1 tr1) (\<lambda>(s2, tr2). ds_run_loop env inputs True status s2 tr2))
      else ds_run_loop env inputs False status s tr)"

definition DS_AppMain :: "Ds_Env \<Rightarrow> DS_Input list \<Rightarrow> (bool \<times> DS_AppData \<times> Cfs_Trace) run" where
  "DS_AppMain env inputs =
     run_bind (DS_AppInitialize env []) (\<lambda>(result, s, tr).
     run_bind (ds_run_loop env inputs (result = CFE_SUCCESS) result s tr) (\<lambda>(running, result', s', tr').
       Returns (running, s', if result' \<noteq> CFE_SUCCESS then cfs_log (cfs_event DS_EXIT_ERR_EID EVS_CRITICAL tr') else tr')))"

end
