(* ===== verification/Ds_Hash.thy ===== *)
theory Ds_Hash
  imports Ds_App
begin

text \<open>
  The hash table of DS. After \<open>DS_TableCreateHash\<close> every bucket is the list of its entries in the order
  of the table, so a lookup is a search through the table; \<open>DS_AddMIDCmd\<close> takes an entry whose link is
  already in the list of the unused entries and can close a list into a cycle.
\<close>

section \<open>Lists in the link array\<close>

text \<open>The links \<open>ks\<close> are a list: each points to the following one and the last to none.\<close>

fun chain :: "DS_HashLink list \<Rightarrow> nat list \<Rightarrow> bool" where
  "chain links [] \<longleftrightarrow> True"
| "chain links [k] \<longleftrightarrow> hl_Next (links ! k) = None"
| "chain links (k # k' # ks) \<longleftrightarrow> hl_Next (links ! k) = Some k' \<and> chain links (k' # ks)"

text \<open>The entries of a bucket, and the first entry with a message id.\<close>

definition bucket :: "DS_PacketEntry list \<Rightarrow> nat \<Rightarrow> nat \<Rightarrow> nat list" where
  "bucket packets h n = filter (\<lambda>i. unat (DS_TableHashFunction (pe_MessageID (packets ! i))) = h) [0..<n]"

definition linear_find :: "DS_PacketEntry list \<Rightarrow> u32 \<Rightarrow> nat \<Rightarrow> nat option" where
  "linear_find packets mid n = find (\<lambda>i. pe_MessageID (packets ! i) = mid) [0..<n]"

definition hash_ok :: "DS_PacketEntry list \<Rightarrow> nat \<Rightarrow> DS_AppData \<Rightarrow> bool" where
  "hash_ok packets n s \<longleftrightarrow>
     length (ds_HashLinks s) = DS_PACKETS_IN_FILTER_TABLE \<and> length (ds_HashTable s) = DS_HASH_TABLE_ENTRIES \<and>
     (\<forall>i<n. hl_Index (ds_HashLinks s ! i) = of_nat i) \<and>
     (\<forall>i. n \<le> i \<longrightarrow> i < DS_PACKETS_IN_FILTER_TABLE \<longrightarrow> hl_Next (ds_HashLinks s ! i) = None) \<and>
     (\<forall>h<DS_HASH_TABLE_ENTRIES. ds_HashTable s ! h = (case bucket packets h n of [] \<Rightarrow> None | k # _ \<Rightarrow> Some k) \<and>
        chain (ds_HashLinks s) (bucket packets h n))"

lemma hash_less: "unat (DS_TableHashFunction mid) < DS_HASH_TABLE_ENTRIES"
proof -
  have "DS_TableHashFunction mid = take_bit 8 mid"
    unfolding DS_TableHashFunction_def DS_HASH_TABLE_MASK_def
    by (rule bit_word_eqI) (auto simp: bit_simps bit_numeral_rec less_Suc_eq numeral_eq_Suc)
  then have "unat (DS_TableHashFunction mid) = unat mid mod 256"
    by (simp add: unsigned_take_bit_eq take_bit_eq_mod unat_mod_distrib)
  then show ?thesis by (simp add: DS_HASH_TABLE_ENTRIES_def)
qed

lemma bucket_0 [simp]: "bucket packets h 0 = []"
  by (simp add: bucket_def)

lemma bucket_Suc: "bucket packets h (Suc n) = bucket packets h n @
    (if unat (DS_TableHashFunction (pe_MessageID (packets ! n))) = h then [n] else [])"
  by (simp add: bucket_def)

lemma bucket_less: "k \<in> set (bucket packets h n) \<Longrightarrow> k < n"
  by (auto simp: bucket_def)

lemma bucket_distinct: "distinct (bucket packets h n)"
  by (simp add: bucket_def)

lemma bucket_disjoint: "k \<in> set (bucket packets h n) \<Longrightarrow> k \<in> set (bucket packets h' n) \<Longrightarrow> h = h'"
  by (auto simp: bucket_def)

text \<open>Only the following pointers of the links of a list matter to it.\<close>

lemma chain_cong:
  "(\<And>k. k \<in> set ks \<Longrightarrow> hl_Next (links ! k) = hl_Next (links' ! k)) \<Longrightarrow> chain links ks \<longleftrightarrow> chain links' ks"
  by (induction links ks rule: chain.induct) auto

lemma chain_last: "chain links ks \<Longrightarrow> ks \<noteq> [] \<Longrightarrow> hl_Next (links ! last ks) = None"
  by (induction links ks rule: chain.induct) auto

lemma last_link_chain: "chain links (k # ks) \<Longrightarrow> last_link links k = Some (last (k # ks))"
proof (induction ks arbitrary: k)
  case Nil
  then show ?case by (simp add: last_link.simps)
next
  case (Cons k' ks)
  from Cons.prems Cons.IH [of k'] show ?case by (subst last_link.simps) simp
qed

lemma chain_snoc:
  assumes "chain links ks" "ks \<noteq> []" "hl_Next (links ! n) = None" "n \<notin> set ks" "distinct ks"
    "\<forall>k\<in>set ks. k < length links"
  shows "chain (links[last ks := (links ! last ks)\<lparr>hl_Next := Some n\<rparr>]) (ks @ [n])"
  using assms
proof (induction links ks rule: chain.induct)
  case (3 links k k' ks)
  have "k \<noteq> last (k' # ks)" using "3.prems"(5) by (metis distinct.simps(2) last_in_set list.distinct(1))
  with 3 show ?case by simp
qed auto

lemma find_link_chain:
  assumes "chain links (k # ks)" "\<forall>i\<in>set (k # ks). unat (hl_Index (links ! i)) = i"
  shows "find_link packets links mid k = Some (find (\<lambda>i. pe_MessageID (packets ! i) = mid) (k # ks))"
  using assms
proof (induction ks arbitrary: k)
  case Nil
  then show ?case by (simp add: find_link.simps)
next
  case (Cons k' ks)
  from Cons.prems Cons.IH [of k'] show ?case by (subst find_link.simps) simp
qed

text \<open>A walk that stays in a set of links whose entries do not match has no end.\<close>

lemma find_link_cycle_False:
  "find_link packets links mid k = Some y \<Longrightarrow> \<forall>k\<in>C. \<exists>k'\<in>C. hl_Next (links ! k) = Some k' \<Longrightarrow>
   \<forall>k\<in>C. pe_MessageID (packets ! unat (hl_Index (links ! k))) \<noteq> mid \<Longrightarrow> k \<in> C \<Longrightarrow> False"
proof (induction packets links mid k y rule: find_link.raw_induct [rotated, consumes 1])
  case (1 finder packets links mid k r)
  obtain k' where "k' \<in> C" "hl_Next (links ! k) = Some k'" using "1.prems" by blast
  moreover have "finder packets links mid k' = Some r"
    using "1.hyps" "1.prems" calculation by simp
  ultimately show ?case using "1.IH" "1.prems" by blast
qed

lemma find_link_cycle:
  assumes "\<forall>k\<in>C. \<exists>k'\<in>C. hl_Next (links ! k) = Some k'"
    "\<forall>k\<in>C. pe_MessageID (packets ! unat (hl_Index (links ! k))) \<noteq> mid" "k \<in> C"
  shows "find_link packets links mid k = None"
  using find_link_cycle_False [OF _ assms] by (cases "find_link packets links mid k") auto

section \<open>Building the table\<close>

lemma hash_ok_fields:
  "hash_ok packets n (s\<lparr>ds_FilterTbl := t\<rparr>) \<longleftrightarrow> hash_ok packets n s"
  by (simp add: hash_ok_def)

lemma unat_of_nat_index: "i < DS_PACKETS_IN_FILTER_TABLE \<Longrightarrow> unat (of_nat i :: u16) = i"
  by (simp add: DS_PACKETS_IN_FILTER_TABLE_def unat_of_nat take_bit_eq_mod)

lemma add_id_step:
  assumes ok: "hash_ok packets n s" and n: "n < DS_PACKETS_IN_FILTER_TABLE"
  obtains links tbl where "DS_TableAddMsgID (pe_MessageID (packets ! n)) n s =
      Returns (s\<lparr>ds_HashLinks := links, ds_HashTable := tbl\<rparr>)"
    "hash_ok packets (Suc n) (s\<lparr>ds_HashLinks := links, ds_HashTable := tbl\<rparr>)"
proof -
  define mid where "mid = pe_MessageID (packets ! n)"
  define h where "h = unat (DS_TableHashFunction mid)"
  define s1 where "s1 = set_link n (\<lambda>l. l\<lparr>hl_Index := of_nat n, hl_MessageID := mid\<rparr>) s"
  define ks where "ks = bucket packets h n"
  have h: "h < DS_HASH_TABLE_ENTRIES" unfolding h_def by (rule hash_less)
  note ok' = ok [unfolded hash_ok_def]
  have len: "length (ds_HashLinks s1) = DS_PACKETS_IN_FILTER_TABLE" "length (ds_HashTable s1) = DS_HASH_TABLE_ENTRIES"
    using ok' by (auto simp: s1_def set_link_def)
  have nexts: "hl_Next (ds_HashLinks s1 ! k) = hl_Next (ds_HashLinks s ! k)" for k
    using ok' n by (cases "k = n") (auto simp: s1_def set_link_def)
  have idx: "\<forall>i<Suc n. hl_Index (ds_HashLinks s1 ! i) = of_nat i"
    using ok' n by (auto simp: s1_def set_link_def nth_list_update less_Suc_eq)
  have tbl: "ds_HashTable s1 = ds_HashTable s" by (simp add: s1_def set_link_def)
  have chains: "chain (ds_HashLinks s1) (bucket packets h' n)" if "h' < DS_HASH_TABLE_ENTRIES" for h'
    using ok' that chain_cong [of "bucket packets h' n" "ds_HashLinks s1" "ds_HashLinks s"] nexts by blast
  have after: "\<forall>i\<ge>n. i < DS_PACKETS_IN_FILTER_TABLE \<longrightarrow> hl_Next (ds_HashLinks s1 ! i) = None"
    using ok' nexts by auto
  have bh: "bucket packets h (Suc n) = ks @ [n]" by (simp add: bucket_Suc ks_def h_def mid_def)
  have bo: "bucket packets h' (Suc n) = bucket packets h' n" if "h' \<noteq> h" for h'
    using that by (simp add: bucket_Suc h_def mid_def)
  have add: "DS_TableAddMsgID mid n s = (case ds_HashTable s ! h of
       None \<Rightarrow> Returns (s1\<lparr>ds_HashTable := (ds_HashTable s)[h := Some n]\<rparr>)
     | Some k \<Rightarrow> (case last_link (ds_HashLinks s1) k of None \<Rightarrow> Blocked
        | Some l \<Rightarrow> Returns (set_link l (\<lambda>l. l\<lparr>hl_Next := Some n\<rparr>) s1)))"
    unfolding DS_TableAddMsgID_def by (simp add: s1_def [symmetric] h_def [symmetric] tbl split: option.split)
  have hd: "ds_HashTable s ! h = (case ks of [] \<Rightarrow> None | k # _ \<Rightarrow> Some k)"
    using ok' h by (simp add: ks_def)
  show ?thesis
  proof (cases ks)
    case Nil
    let ?s = "s1\<lparr>ds_HashTable := (ds_HashTable s)[h := Some n]\<rparr>"
    have "DS_TableAddMsgID mid n s = Returns ?s" using add hd Nil by simp
    moreover have "hash_ok packets (Suc n) ?s"
    proof -
      have "ds_HashTable ?s ! h' = (case bucket packets h' (Suc n) of [] \<Rightarrow> None | k # _ \<Rightarrow> Some k)
          \<and> chain (ds_HashLinks ?s) (bucket packets h' (Suc n))" if h': "h' < DS_HASH_TABLE_ENTRIES" for h'
      proof (cases "h' = h")
        case True
        then show ?thesis using bh Nil after n h len by (simp add: tbl)
      next
        case False
        then show ?thesis using bo chains ok' h' by simp
      qed
      then show ?thesis using len idx after by (simp add: hash_ok_def tbl)
    qed
    moreover have "?s = s\<lparr>ds_HashLinks := ds_HashLinks ?s, ds_HashTable := ds_HashTable ?s\<rparr>"
      by (simp add: s1_def set_link_def)
    ultimately show ?thesis using that [of "ds_HashTable ?s" "ds_HashLinks ?s"] unfolding mid_def by metis
  next
    case (Cons k ks')
    let ?l = "last ks"
    let ?s = "set_link ?l (\<lambda>l. l\<lparr>hl_Next := Some n\<rparr>) s1"
    have c: "chain (ds_HashLinks s1) ks" using chains [OF h] by (simp add: ks_def)
    have "last_link (ds_HashLinks s1) k = Some ?l"
      using c last_link_chain [of "ds_HashLinks s1" k ks'] Cons by simp
    then have "DS_TableAddMsgID mid n s = Returns ?s" using add hd Cons by simp
    moreover have "hash_ok packets (Suc n) ?s"
    proof -
      have l: "?l \<in> set ks" using Cons by simp
      then have ln: "?l < n" using bucket_less ks_def by blast
      have links: "ds_HashLinks ?s = (ds_HashLinks s1)[?l := (ds_HashLinks s1 ! ?l)\<lparr>hl_Next := Some n\<rparr>]"
        and tbl': "ds_HashTable ?s = ds_HashTable s" by (simp_all add: set_link_def tbl)
      have keep: "hl_Next (ds_HashLinks ?s ! i) = hl_Next (ds_HashLinks s1 ! i)" if "i \<noteq> ?l" for i
        using that by (simp add: links)
      have idx': "hl_Index (ds_HashLinks ?s ! i) = hl_Index (ds_HashLinks s1 ! i)" for i
        using ln n len by (cases "i = ?l") (simp_all add: links)
      have "ds_HashTable ?s ! h' = (case bucket packets h' (Suc n) of [] \<Rightarrow> None | k # _ \<Rightarrow> Some k)
          \<and> chain (ds_HashLinks ?s) (bucket packets h' (Suc n))" if h': "h' < DS_HASH_TABLE_ENTRIES" for h'
      proof (cases "h' = h")
        case True
        have "chain (ds_HashLinks ?s) (ks @ [n])"
          unfolding links
        proof (rule chain_snoc [OF c])
          show "ks \<noteq> []" using Cons by simp
          show "hl_Next (ds_HashLinks s1 ! n) = None" using after n by simp
          show "distinct ks" by (simp add: ks_def bucket_distinct)
          show "n \<notin> set ks" "\<forall>k\<in>set ks. k < length (ds_HashLinks s1)"
            using bucket_less [of _ packets h n] n len unfolding ks_def by (auto intro: less_trans)
        qed
        then show ?thesis using True bh hd Cons tbl' by simp
      next
        case False
        have "?l \<notin> set (bucket packets h' n)" using False l bucket_disjoint ks_def by blast
        then have "chain (ds_HashLinks ?s) (bucket packets h' n)"
          using chains [OF h'] chain_cong [of "bucket packets h' n" "ds_HashLinks ?s" "ds_HashLinks s1"] keep by metis
        then show ?thesis using False bo ok' h' tbl' by simp
      qed
      moreover have "hl_Next (ds_HashLinks ?s ! i) = None" if "Suc n \<le> i" "i < DS_PACKETS_IN_FILTER_TABLE" for i
        using that keep [of i] after ln by simp
      ultimately show ?thesis using len idx idx' by (simp add: hash_ok_def tbl' tbl links)
    qed
    moreover have "?s = s\<lparr>ds_HashLinks := ds_HashLinks ?s, ds_HashTable := ds_HashTable ?s\<rparr>"
      by (simp add: s1_def set_link_def)
    ultimately show ?thesis using that [of "ds_HashTable ?s" "ds_HashLinks ?s"] unfolding mid_def by metis
  qed
qed

lemma add_all_ids_upt:
  assumes "hash_ok packets n s" "n \<le> m" "m \<le> DS_PACKETS_IN_FILTER_TABLE"
  shows "\<exists>links tbl. add_all_ids packets [n..<m] s = Returns (s\<lparr>ds_HashLinks := links, ds_HashTable := tbl\<rparr>) \<and>
    hash_ok packets m (s\<lparr>ds_HashLinks := links, ds_HashTable := tbl\<rparr>)"
  using assms
proof (induction "m - n" arbitrary: n s)
  case 0
  then have "s = s\<lparr>ds_HashLinks := ds_HashLinks s, ds_HashTable := ds_HashTable s\<rparr>" "n = m" by simp_all
  with 0 show ?case by (metis add_all_ids.simps(1) upt_rec less_irrefl)
next
  case (Suc d)
  then have n: "n < DS_PACKETS_IN_FILTER_TABLE" "n < m" "d = m - Suc n" by simp_all
  obtain links tbl where 1: "DS_TableAddMsgID (pe_MessageID (packets ! n)) n s =
      Returns (s\<lparr>ds_HashLinks := links, ds_HashTable := tbl\<rparr>)"
    "hash_ok packets (Suc n) (s\<lparr>ds_HashLinks := links, ds_HashTable := tbl\<rparr>)"
    using add_id_step [OF Suc.prems(1) n(1)] by blast
  from Suc.hyps(1) [OF n(3) 1(2)] Suc.prems n 1 show ?case by (simp add: upt_conv_Cons)
qed

lemma bucket_zero_hash: "hash_ok packets 0 (s\<lparr>ds_HashLinks := replicate DS_PACKETS_IN_FILTER_TABLE zero_link,
    ds_HashTable := replicate DS_HASH_TABLE_ENTRIES None\<rparr>)"
  by (simp add: hash_ok_def zero_link_def)

lemma create_hash:
  obtains links tbl where "DS_TableCreateHash t s = Returns (s\<lparr>ds_HashLinks := links, ds_HashTable := tbl\<rparr>)"
    "hash_ok (ft_Packet t) DS_PACKETS_IN_FILTER_TABLE (s\<lparr>ds_HashLinks := links, ds_HashTable := tbl\<rparr>)"
  using add_all_ids_upt [OF bucket_zero_hash [of "ft_Packet t" s] le0 order.refl]
  unfolding DS_TableCreateHash_def by auto

section \<open>Looking up\<close>

lemma find_filter: "(\<And>x. P x \<Longrightarrow> Q x) \<Longrightarrow> find P (filter Q xs) = find P xs"
  by (induction xs) auto

lemma find_bucket:
  "find (\<lambda>i. pe_MessageID (packets ! i) = mid) (bucket packets (unat (DS_TableHashFunction mid)) n) =
   linear_find packets mid n"
  unfolding linear_find_def bucket_def by (rule find_filter) simp

lemma hash_lookup:
  assumes ok: "hash_ok packets DS_PACKETS_IN_FILTER_TABLE s"
    and tbl: "ds_FilterTbl s = Some t" "ft_Packet t = packets"
  shows "DS_TableFindMsgID mid s = Returns (linear_find packets mid DS_PACKETS_IN_FILTER_TABLE)"
proof -
  define h where "h = unat (DS_TableHashFunction mid)"
  have h: "h < DS_HASH_TABLE_ENTRIES" unfolding h_def by (rule hash_less)
  let ?n = DS_PACKETS_IN_FILTER_TABLE
  have hd: "ds_HashTable s ! h = (case bucket packets h ?n of [] \<Rightarrow> None | k # _ \<Rightarrow> Some k)"
    and ch: "chain (ds_HashLinks s) (bucket packets h ?n)"
    using ok h by (auto simp: hash_ok_def)
  have idx: "\<forall>i\<in>set (bucket packets h ?n). unat (hl_Index (ds_HashLinks s ! i)) = i"
    using ok bucket_less [of _ packets h ?n] by (auto simp: hash_ok_def unat_of_nat_index)
  have lin: "find (\<lambda>i. pe_MessageID (packets ! i) = mid) (bucket packets h ?n) = linear_find packets mid ?n"
    unfolding h_def by (rule find_bucket)
  show ?thesis
  proof (cases "bucket packets h ?n")
    case Nil
    with hd lin show ?thesis by (simp add: DS_TableFindMsgID_def h_def [symmetric])
  next
    case (Cons k ks)
    with hd lin ch idx tbl find_link_chain [of "ds_HashLinks s" k ks packets mid] show ?thesis
      by (simp add: DS_TableFindMsgID_def h_def [symmetric])
  qed
qed


text \<open>C14. After a filter table is loaded, looking up a message id returns, and it gives the first entry of the table that has the id, or none.\<close>

theorem filter_lookup:
  "\<exists>s'. DS_TableCreateHash t (s\<lparr>ds_FilterTbl := Some t\<rparr>) = Returns s' \<and> ds_FilterTbl s' = Some t \<and>
     (\<forall>mid. DS_TableFindMsgID mid s' = Returns (linear_find (ft_Packet t) mid DS_PACKETS_IN_FILTER_TABLE))"
proof -
  obtain links tbl where "DS_TableCreateHash t (s\<lparr>ds_FilterTbl := Some t\<rparr>) =
      Returns (s\<lparr>ds_FilterTbl := Some t, ds_HashLinks := links, ds_HashTable := tbl\<rparr>)"
    "hash_ok (ft_Packet t) DS_PACKETS_IN_FILTER_TABLE (s\<lparr>ds_FilterTbl := Some t, ds_HashLinks := links, ds_HashTable := tbl\<rparr>)"
    using create_hash [of t "s\<lparr>ds_FilterTbl := Some t\<rparr>"] by blast
  then show ?thesis using hash_lookup [OF _ _ refl] by simp
qed

section \<open>Adding message ids by command\<close>

lemma chain_next: "chain links ks \<Longrightarrow> k \<in> set ks \<Longrightarrow> k \<noteq> last ks \<Longrightarrow> \<exists>k'\<in>set ks. hl_Next (links ! k) = Some k'"
  by (induction links ks rule: chain.induct) auto

lemma chain_append: "chain links (xs @ ys) \<Longrightarrow> chain links ys"
proof (induction xs)
  case (Cons x xs)
  then show ?case by (cases "xs @ ys") auto
qed simp

text \<open>An id added to a bucket whose list contains its own entry: the list has no end any more.\<close>

lemma add_closes_cycle:
  assumes "ds_HashTable s ! unat (DS_TableHashFunction mid) = Some a" "chain (ds_HashLinks s) (a # as)"
    "k \<in> set (a # as)" "\<forall>i\<in>set (a # as). i < length (ds_HashLinks s)"
  obtains links where "DS_TableAddMsgID mid k s = Returns (s\<lparr>ds_HashLinks := links\<rparr>)"
    "\<forall>i\<in>set (a # as). \<exists>i'\<in>set (a # as). hl_Next (links ! i) = Some i'"
    "\<And>i. i < length (ds_HashLinks s) \<Longrightarrow> hl_Index (links ! i) = (if i = k then of_nat k else hl_Index (ds_HashLinks s ! i))"
proof -
  define l1 where "l1 = (ds_HashLinks s)[k := (ds_HashLinks s ! k)\<lparr>hl_Index := of_nat k, hl_MessageID := mid\<rparr>]"
  define l where "l = last (a # as)"
  define l2 where "l2 = l1[l := (l1 ! l)\<lparr>hl_Next := Some k\<rparr>]"
  have k: "k < length (ds_HashLinks s)" using assms by blast
  have nx: "hl_Next (l1 ! i) = hl_Next (ds_HashLinks s ! i)" for i
    using k by (cases "i = k") (simp_all add: l1_def)
  have c: "chain l1 (a # as)" using assms(2) chain_cong [of "a # as" l1 "ds_HashLinks s"] nx by blast
  have l: "l \<in> set (a # as)" unfolding l_def by (rule last_in_set) simp
  then have ll: "l < length l1" using assms(4) by (auto simp: l1_def)
  have "DS_TableAddMsgID mid k s = Returns (s\<lparr>ds_HashLinks := l2\<rparr>)"
    using assms(1) last_link_chain [OF c, folded l_def]
    by (simp add: DS_TableAddMsgID_def set_link_def l1_def [symmetric] l2_def)
  moreover have "\<forall>i\<in>set (a # as). \<exists>i'\<in>set (a # as). hl_Next (l2 ! i) = Some i'"
  proof
    fix i assume i: "i \<in> set (a # as)"
    show "\<exists>i'\<in>set (a # as). hl_Next (l2 ! i) = Some i'"
    proof (cases "i = l")
      case True
      then show ?thesis using assms(3) ll by (simp add: l2_def)
    next
      case False
      then show ?thesis using chain_next [OF c i] by (simp add: l2_def l_def)
    qed
  qed
  moreover have "hl_Index (l2 ! i) = (if i = k then of_nat k else hl_Index (ds_HashLinks s ! i))"
    if "i < length (ds_HashLinks s)" for i
    using that k by (cases "i = l"; cases "i = k") (simp_all add: l2_def l1_def nth_list_update)
  ultimately show ?thesis by (rule that)
qed

lemma find_first: "find P xs = Some x \<Longrightarrow> \<exists>ys zs. xs = ys @ x # zs \<and> P x \<and> (\<forall>y\<in>set ys. \<not> P y)"
proof (induction xs)
  case (Cons a xs)
  show ?case
  proof (cases "P a")
    case True
    with Cons.prems show ?thesis by (auto intro: exI [of _ "[]"])
  next
    case False
    with Cons obtain ys zs where "xs = ys @ x # zs" "P x" "\<forall>y\<in>set ys. \<not> P y" by auto
    with False have "a # xs = (a # ys) @ x # zs \<and> P x \<and> (\<forall>y\<in>set (a # ys). \<not> P y)" by simp
    then show ?thesis by blast
  qed
qed simp

lemma find_SomeI: "x \<in> set xs \<Longrightarrow> P x \<Longrightarrow> \<exists>y. find P xs = Some y"
  by (induction xs) auto

lemma find_SomeD: "find P xs = Some x \<Longrightarrow> P x \<and> x \<in> set xs"
  using find_first [of P xs x] by auto

lemma find_None: "\<forall>x\<in>set xs. \<not> P x \<Longrightarrow> find P xs = None"
  by (induction xs) auto

text \<open>The list that a lookup of a message id walks through.\<close>

definition bucket_list :: "DS_AppData \<Rightarrow> u32 \<Rightarrow> nat list \<Rightarrow> bool" where
  "bucket_list s mid ks \<longleftrightarrow> ks \<noteq> [] \<and> ds_HashTable s ! unat (DS_TableHashFunction mid) = Some (hd ks) \<and>
     chain (ds_HashLinks s) ks \<and> (\<forall>k\<in>set ks. k < DS_PACKETS_IN_FILTER_TABLE \<and> unat (hl_Index (ds_HashLinks s ! k)) = k)"

lemma bucket_list_lookup:
  assumes "ds_FilterTbl s = Some t" "bucket_list s mid ks"
  shows "DS_TableFindMsgID mid s = Returns (find (\<lambda>i. pe_MessageID (ft_Packet t ! i) = mid) ks)"
proof (cases ks)
  case (Cons k ks')
  with assms find_link_chain [of "ds_HashLinks s" k ks' "ft_Packet t" mid] show ?thesis
    by (simp add: DS_TableFindMsgID_def bucket_list_def)
qed (use assms in \<open>simp add: bucket_list_def\<close>)

lemma hash_ok_bucket_list:
  assumes "hash_ok packets DS_PACKETS_IN_FILTER_TABLE s"
    "bucket packets (unat (DS_TableHashFunction mid)) DS_PACKETS_IN_FILTER_TABLE \<noteq> []"
  shows "bucket_list s mid (bucket packets (unat (DS_TableHashFunction mid)) DS_PACKETS_IN_FILTER_TABLE)"
  using assms hash_less [of mid] bucket_less
  by (auto simp: hash_ok_def bucket_list_def unat_of_nat_index neq_Nil_conv)

lemma set_packet_simps [simp]:
  "ds_FilterTbl s = Some t \<Longrightarrow> ds_FilterTbl (set_packet k f s) = Some (t\<lparr>ft_Packet := (ft_Packet t)[k := f (ft_Packet t ! k)]\<rparr>)"
  "ds_HashTable (set_packet k f s) = ds_HashTable s" "ds_HashLinks (set_packet k f s) = ds_HashLinks s"
  "ds_CmdAcceptedCounter (set_packet k f s) = ds_CmdAcceptedCounter s"
  by (simp_all add: set_packet_def)

lemma pe_reset [simp]: "pe_MessageID (reset_filters pe) = pe_MessageID pe"
  by (simp add: reset_filters_def)

lemma add_mid_run:
  assumes "ds_FilterTbl s = Some t" "cf_IsValidMsgId (de_cfs env) (pay32 env buf 0)"
    "DS_TableFindMsgID (pay32 env buf 0) s = Returns None" "DS_TableFindMsgID (de_InvalidMid env) s = Returns (Some k)"
    "DS_TableAddMsgID (pay32 env buf 0) k (set_packet k (\<lambda>pe. pe\<lparr>pe_MessageID := pay32 env buf 0\<rparr>) s) = Returns s1"
  shows "\<exists>tr'. DS_AddMIDCmd env buf s tr = Returns (set_packet k reset_filters s1
    \<lparr>ds_CmdAcceptedCounter := ds_CmdAcceptedCounter s1 + 1\<rparr>, tr')"
  using assms by (simp add: DS_AddMIDCmd_def ds_accept_def)

text \<open>The first id of a bucket shares the list of the unused entries behind the entry it takes.\<close>

lemma first_add:
  assumes t: "ds_FilterTbl s = Some t" and len: "length (ft_Packet t) = DS_PACKETS_IN_FILTER_TABLE"
    "length (ds_HashLinks s) = DS_PACKETS_IN_FILTER_TABLE" "length (ds_HashTable s) = DS_HASH_TABLE_ENTRIES"
    and valid: "cf_IsValidMsgId (de_cfs env) (pay32 env buf 0)"
    and h: "ds_HashTable s ! unat (DS_TableHashFunction (pay32 env buf 0)) = None"
    and unused: "bucket_list s (de_InvalidMid env) (pre @ k # post)"
    and k: "find (\<lambda>i. pe_MessageID (ft_Packet t ! i) = de_InvalidMid env) (pre @ k # post) = Some k"
  shows "\<exists>s1 tr1 f. DS_AddMIDCmd env buf s tr = Returns (s1, tr1) \<and> bucket_list s1 (pay32 env buf 0) (k # post) \<and>
    bucket_list s1 (de_InvalidMid env) (pre @ k # post) \<and> length (ds_HashLinks s1) = DS_PACKETS_IN_FILTER_TABLE \<and>
    ds_FilterTbl s1 = Some (t\<lparr>ft_Packet := (ft_Packet t)[k := f (ft_Packet t ! k)]\<rparr>) \<and>
    (\<forall>pe. pe_MessageID (f pe) = pay32 env buf 0) \<and> ds_CmdAcceptedCounter s1 = ds_CmdAcceptedCounter s + 1"
proof -
  let ?m = "pay32 env buf 0" and ?inv = "de_InvalidMid env"
  define L where "L = (ds_HashLinks s)[k := (ds_HashLinks s ! k)\<lparr>hl_Index := of_nat k, hl_MessageID := ?m\<rparr>]"
  define T where "T = (ds_HashTable s)[unat (DS_TableHashFunction ?m) := Some k]"
  define s0 where "s0 = set_packet k (\<lambda>pe. pe\<lparr>pe_MessageID := ?m\<rparr>) s"
  define s1 where "s1 = set_packet k reset_filters (s0\<lparr>ds_HashLinks := L, ds_HashTable := T\<rparr>)
    \<lparr>ds_CmdAcceptedCounter := ds_CmdAcceptedCounter s + 1\<rparr>"
  note bl = unused [unfolded bucket_list_def]
  have kn: "k < DS_PACKETS_IN_FILTER_TABLE" using bl by simp
  have "DS_TableFindMsgID ?m s = Returns None" using h by (simp add: DS_TableFindMsgID_def)
  moreover have "DS_TableFindMsgID ?inv s = Returns (Some k)" using bucket_list_lookup [OF t unused] k by simp
  moreover have "DS_TableAddMsgID ?m k s0 = Returns (s0\<lparr>ds_HashLinks := L, ds_HashTable := T\<rparr>)"
    using h kn len by (simp add: DS_TableAddMsgID_def set_link_def s0_def L_def T_def)
  ultimately obtain tr1 where "DS_AddMIDCmd env buf s tr = Returns (s1, tr1)"
    using add_mid_run [OF t valid, of k "s0\<lparr>ds_HashLinks := L, ds_HashTable := T\<rparr>" tr] by (auto simp: s1_def s0_def)
  moreover have links: "ds_HashLinks s1 = L" "ds_HashTable s1 = T" by (simp_all add: s1_def)
  have nexts: "hl_Next (L ! i) = hl_Next (ds_HashLinks s ! i)" for i
    using kn len by (cases "i = k") (simp_all add: L_def)
  have idx: "unat (hl_Index (L ! i)) = i" if "i \<in> set (pre @ k # post)" for i
    using bl that kn len by (cases "i = k") (simp_all add: L_def unat_of_nat_index)
  have chain: "chain L (pre @ k # post)"
    using bl chain_cong [of "pre @ k # post" L "ds_HashLinks s"] nexts by blast
  have neq: "unat (DS_TableHashFunction ?m) \<noteq> unat (DS_TableHashFunction ?inv)" using h bl by auto
  have "bucket_list s1 ?m (k # post)" "bucket_list s1 ?inv (pre @ k # post)"
    using chain chain_append [OF chain] idx bl neq hash_less [of ?m] len
    by (simp_all add: bucket_list_def links T_def)
  moreover have "ds_FilterTbl s1 = Some (t\<lparr>ft_Packet := (ft_Packet t)
      [k := (\<lambda>pe. reset_filters (pe\<lparr>pe_MessageID := ?m\<rparr>)) (ft_Packet t ! k)]\<rparr>)"
    using t kn len by (simp add: s1_def s0_def set_packet_def)
  moreover have "ds_CmdAcceptedCounter s1 = ds_CmdAcceptedCounter s + 1" by (simp add: s1_def)
  ultimately show ?thesis using len by (intro exI conjI) (assumption | simp add: links L_def)+
qed

text \<open>The second one finds its entry in the list it is appended to, and closes the list.\<close>

lemma second_add:
  assumes t: "ds_FilterTbl s = Some t" and len: "length (ft_Packet t) = DS_PACKETS_IN_FILTER_TABLE"
    "length (ds_HashLinks s) = DS_PACKETS_IN_FILTER_TABLE"
    and valid: "cf_IsValidMsgId (de_cfs env) (pay32 env buf 0)"
    and list: "bucket_list s (pay32 env buf 0) ks" "\<forall>i\<in>set ks. pe_MessageID (ft_Packet t ! i) \<noteq> pay32 env buf 0"
    and unused: "bucket_list s (de_InvalidMid env) ks0"
    and k: "find (\<lambda>i. pe_MessageID (ft_Packet t ! i) = de_InvalidMid env) ks0 = Some k" "k \<in> set ks"
  shows "\<exists>s1 tr1. DS_AddMIDCmd env buf s tr = Returns (s1, tr1) \<and>
    ds_CmdAcceptedCounter s1 = ds_CmdAcceptedCounter s + 1 \<and>
    (\<forall>mid. DS_TableHashFunction mid = DS_TableHashFunction (pay32 env buf 0) \<longrightarrow> mid \<noteq> pay32 env buf 0 \<longrightarrow>
       (\<forall>i\<in>set ks. pe_MessageID (ft_Packet t ! i) \<noteq> mid) \<longrightarrow> DS_TableFindMsgID mid s1 = Blocked)"
proof -
  let ?m = "pay32 env buf 0"
  define s0 where "s0 = set_packet k (\<lambda>pe. pe\<lparr>pe_MessageID := ?m\<rparr>) s"
  note bl = list(1) [unfolded bucket_list_def]
  obtain a as where ks: "ks = a # as" using bl by (cases ks) auto
  have kn: "k < DS_PACKETS_IN_FILTER_TABLE" using bl k by blast
  have s0: "ds_HashTable s0 = ds_HashTable s" "ds_HashLinks s0 = ds_HashLinks s" by (simp_all add: s0_def)
  have "ds_HashTable s0 ! unat (DS_TableHashFunction ?m) = Some a" "chain (ds_HashLinks s0) (a # as)"
    "k \<in> set (a # as)" "\<forall>i\<in>set (a # as). i < length (ds_HashLinks s0)"
    using bl k len ks by (simp_all add: s0)
  from add_closes_cycle [OF this] obtain L where add: "DS_TableAddMsgID ?m k s0 = Returns (s0\<lparr>ds_HashLinks := L\<rparr>)"
    and cycle: "\<forall>i\<in>set ks. \<exists>i'\<in>set ks. hl_Next (L ! i) = Some i'"
    and idx: "\<And>i. i < DS_PACKETS_IN_FILTER_TABLE \<Longrightarrow> hl_Index (L ! i) = (if i = k then of_nat k else hl_Index (ds_HashLinks s ! i))"
    unfolding ks s0 len by metis
  define s1 where "s1 = set_packet k reset_filters (s0\<lparr>ds_HashLinks := L\<rparr>)
    \<lparr>ds_CmdAcceptedCounter := ds_CmdAcceptedCounter s + 1\<rparr>"
  have "DS_TableFindMsgID ?m s = Returns None"
    using bucket_list_lookup [OF t list(1)] find_None [of ks] list(2) by simp
  moreover have "DS_TableFindMsgID (de_InvalidMid env) s = Returns (Some k)"
    using bucket_list_lookup [OF t unused] k by simp
  ultimately obtain tr1 where run: "DS_AddMIDCmd env buf s tr = Returns (s1, tr1)"
    using add_mid_run [OF t valid, of k "s0\<lparr>ds_HashLinks := L\<rparr>" tr] add by (auto simp: s1_def s0_def)
  define ps where "ps = (ft_Packet t)[k := reset_filters ((ft_Packet t ! k)\<lparr>pe_MessageID := ?m\<rparr>)]"
  have t1: "ds_FilterTbl s1 = Some (t\<lparr>ft_Packet := ps\<rparr>)" "ds_HashTable s1 = ds_HashTable s" "ds_HashLinks s1 = L"
    using t kn len by (simp_all add: s1_def s0_def set_packet_def ps_def)
  have "DS_TableFindMsgID mid s1 = Blocked" if "DS_TableHashFunction mid = DS_TableHashFunction ?m"
    "mid \<noteq> ?m" "\<forall>i\<in>set ks. pe_MessageID (ft_Packet t ! i) \<noteq> mid" for mid
  proof -
    have "pe_MessageID (ps ! unat (hl_Index (L ! i))) \<noteq> mid" if i: "i \<in> set ks" for i
      using that bl idx [of i] \<open>mid \<noteq> ?m\<close> \<open>\<forall>i\<in>set ks. pe_MessageID (ft_Packet t ! i) \<noteq> mid\<close> len kn
      by (cases "i = k") (simp_all add: ps_def unat_of_nat_index)
    then have "find_link ps L mid a = None" using find_link_cycle [OF cycle, of ps mid a] ks by simp
    then show ?thesis using bl ks that(1) t1 by (simp add: DS_TableFindMsgID_def)
  qed
  moreover have "ds_CmdAcceptedCounter s1 = ds_CmdAcceptedCounter s + 1" by (simp add: s1_def)
  ultimately show ?thesis using run by blast
qed

lemma new_hash_empty:
  assumes "hash_ok ps (length ps) s" and "\<forall>pe\<in>set ps. DS_TableHashFunction (pe_MessageID pe) \<noteq> DS_TableHashFunction mid"
  shows "ds_HashTable s ! unat (DS_TableHashFunction mid) = None"
proof -
  have "bucket ps (unat (DS_TableHashFunction mid)) (length ps) = []"
    using assms(2) by (auto simp: bucket_def filter_empty_conv word_unat_eq_iff [symmetric])
  then show ?thesis using assms(1) hash_less [of mid] by (simp add: hash_ok_def)
qed

lemma next_unused:
  assumes "find (\<lambda>i. g i = unused) (pre @ k # post) = Some k" "\<forall>i\<in>set pre. g i \<noteq> unused"
    and "i \<in> set (pre @ k # post)" "j \<in> set (pre @ k # post)" "i \<noteq> j" "g i = unused" "g j = unused"
    and upd: "\<And>i. i \<in> set (pre @ k # post) \<Longrightarrow> g' i = (if i = k then m else g i)" and "m \<noteq> unused"
  shows "\<exists>k2\<in>set (k # post). find (\<lambda>i. g' i = unused) (pre @ k # post) = Some k2"
proof -
  from assms obtain l where l: "l \<in> set (pre @ k # post)" "g' l = unused" by metis
  from find_SomeI [of l _ "\<lambda>i. g' i = unused", OF l] obtain k2
    where k2: "find (\<lambda>i. g' i = unused) (pre @ k # post) = Some k2" by blast
  with find_SomeD [OF k2] upd [of k2] assms(2,9) show ?thesis by (auto split: if_splits)
qed

text \<open>C36. Two message ids that share the low byte, no entry of the table having it, can be added by command while there are unused entries, but the two ADD MID commands close the hash list into a cycle: the next lookup of any other id with that low byte does not return.\<close>

theorem add_mid_cycle:
  assumes ok: "hash_ok (ft_Packet t) DS_PACKETS_IN_FILTER_TABLE s" and t: "ds_FilterTbl s = Some t"
    and len: "length (ft_Packet t) = DS_PACKETS_IN_FILTER_TABLE"
    and valid: "cf_IsValidMsgId (de_cfs env) (pay32 env buf1 0)" "cf_IsValidMsgId (de_cfs env) (pay32 env buf2 0)"
    and new: "DS_TableHashFunction (pay32 env buf2 0) = DS_TableHashFunction (pay32 env buf1 0)"
      "pay32 env buf2 0 \<noteq> pay32 env buf1 0"
      "\<forall>pe\<in>set (ft_Packet t). DS_TableHashFunction (pe_MessageID pe) \<noteq> DS_TableHashFunction (pay32 env buf1 0)"
    and free: "i < j" "j < DS_PACKETS_IN_FILTER_TABLE" "pe_MessageID (ft_Packet t ! i) = de_InvalidMid env"
      "pe_MessageID (ft_Packet t ! j) = de_InvalidMid env"
  shows "\<exists>s1 tr1 s2 tr2. DS_AddMIDCmd env buf1 s tr = Returns (s1, tr1) \<and> DS_AddMIDCmd env buf2 s1 tr1 = Returns (s2, tr2) \<and>
    ds_CmdAcceptedCounter s2 = ds_CmdAcceptedCounter s + 2 \<and>
    (\<forall>mid. DS_TableHashFunction mid = DS_TableHashFunction (pay32 env buf1 0) \<longrightarrow> mid \<noteq> pay32 env buf1 0 \<longrightarrow>
       mid \<noteq> pay32 env buf2 0 \<longrightarrow> DS_TableFindMsgID mid s2 = Blocked)"
proof -
  let ?n = DS_PACKETS_IN_FILTER_TABLE and ?m1 = "pay32 env buf1 0" and ?m2 = "pay32 env buf2 0" and ?inv = "de_InvalidMid env"
  let ?h0 = "unat (DS_TableHashFunction ?inv)" and ?id = "\<lambda>k. pe_MessageID (ft_Packet t ! k)"
  have nohash: "DS_TableHashFunction (?id k) \<noteq> DS_TableHashFunction ?m1" if "k < ?n" for k
    using that new(3) len nth_mem [of k "ft_Packet t"] by metis
  have empty: "ds_HashTable s ! unat (DS_TableHashFunction ?m1) = None"
    using new_hash_empty [of "ft_Packet t" s ?m1] ok len new(3) by simp
  define ks where "ks = bucket (ft_Packet t) ?h0 ?n"
  have ij: "i \<in> set ks" "j \<in> set ks" using free by (simp_all add: ks_def bucket_def)
  then have unused: "bucket_list s ?inv ks" using hash_ok_bucket_list [OF ok, of ?inv] unfolding ks_def by fastforce
  from find_SomeI [of i ks "\<lambda>k. ?id k = ?inv", OF ij(1) free(3)]
  obtain k where k: "find (\<lambda>k. ?id k = ?inv) ks = Some k" by blast
  from find_first [OF k] obtain pre post where split: "ks = pre @ k # post" "\<forall>i\<in>set pre. ?id i \<noteq> ?inv" by blast
  have less: "i < ?n" if "i \<in> set ks" for i using that bucket_less ks_def by blast
  from first_add [OF t len _ _ valid(1) empty unused [unfolded split(1)] k [unfolded split(1)], of tr] ok
  obtain s1 tr1 f where 1: "DS_AddMIDCmd env buf1 s tr = Returns (s1, tr1)" "bucket_list s1 ?m1 (k # post)"
    "bucket_list s1 ?inv ks" "length (ds_HashLinks s1) = ?n" "\<And>pe. pe_MessageID (f pe) = ?m1"
    "ds_FilterTbl s1 = Some (t\<lparr>ft_Packet := (ft_Packet t)[k := f (ft_Packet t ! k)]\<rparr>)"
    "ds_CmdAcceptedCounter s1 = ds_CmdAcceptedCounter s + 1"
    unfolding hash_ok_def split(1) by blast
  define t1 where "t1 = t\<lparr>ft_Packet := (ft_Packet t)[k := f (ft_Packet t ! k)]\<rparr>"
  have id1: "pe_MessageID (ft_Packet t1 ! i) = (if i = k then ?m1 else ?id i)" if "i \<in> set ks" for i
    using less [OF that] len 1(5) by (simp add: t1_def nth_list_update)
  have "?m1 \<noteq> ?inv" using nohash [of i] free by auto
  from next_unused [where g = ?id and unused = ?inv and pre = pre and k = k and post = post and i = i and j = j and
      g' = "\<lambda>i. pe_MessageID (ft_Packet t1 ! i)" and m = ?m1] k split ij free id1 \<open>?m1 \<noteq> ?inv\<close>
  obtain k2 where k2: "find (\<lambda>i. pe_MessageID (ft_Packet t1 ! i) = ?inv) ks = Some k2" "k2 \<in> set (k # post)" by auto
  have absent: "pe_MessageID (ft_Packet t1 ! i) \<noteq> mid"
    if "i \<in> set (k # post)" "DS_TableHashFunction mid = DS_TableHashFunction ?m1" "mid \<noteq> ?m1" for i mid
  proof -
    have "i \<in> set ks" using that(1) split by auto
    with id1 [of i] nohash [of i] less [of i] that show ?thesis by (auto split: if_splits)
  qed
  have "bucket_list s1 ?m2 (k # post)" using 1(2) new(1) by (simp add: bucket_list_def)
  from second_add [OF 1(6) [folded t1_def] _ 1(4) valid(2) this _ 1(3) k2, of tr1]
  obtain s2 tr2 where "DS_AddMIDCmd env buf2 s1 tr1 = Returns (s2, tr2)"
    "ds_CmdAcceptedCounter s2 = ds_CmdAcceptedCounter s1 + 1"
    "\<forall>mid. DS_TableHashFunction mid = DS_TableHashFunction ?m2 \<longrightarrow> mid \<noteq> ?m2 \<longrightarrow>
       (\<forall>i\<in>set (k # post). pe_MessageID (ft_Packet t1 ! i) \<noteq> mid) \<longrightarrow> DS_TableFindMsgID mid s2 = Blocked"
    using absent [OF _ new(1,2)] len by (auto simp: t1_def)
  with 1 absent new show ?thesis by (intro exI conjI) (assumption | force)+
qed

end
