(* ===== verification/Ds_Files.thy ===== *)
theory Ds_Files
  imports Ds_App
begin

text \<open>
  The destination files of DS against the calls it makes to the operating system: which handles are
  open, under which name each was created and what was written through it, and that the file status array agrees with that after every
  operation on files.
\<close>

section \<open>Open handles\<close>

text \<open>For each open handle the name the file was created under, and the pieces written through the handle
  behind the cFE file header.\<close>

fun open_step :: "(nat \<Rightarrow> (u8 list \<times> u8 list list) option) \<Rightarrow> Cfs_Call \<Rightarrow> nat \<Rightarrow> (u8 list \<times> u8 list list) option" where
  "open_step f (Os_OpenCreate name (Some h)) = f(h := Some (name, []))"
| "open_step f (Os_Write h bytes r) = f(h := map_option (apsnd (\<lambda>cs. cs @ [bytes])) (f h))"
| "open_step f (Os_Close h) = f(h := None)"
| "open_step f c = f"

definition opened :: "Cfs_Trace \<Rightarrow> nat \<Rightarrow> (u8 list \<times> u8 list list) option" where
  "opened tr = foldl open_step (\<lambda>h. None) tr"

definition written :: "Cfs_Trace \<Rightarrow> nat \<Rightarrow> u8 list list option" where
  "written tr h = map_option snd (opened tr h)"

lemma written_eq: "written tr h = Some cs \<longleftrightarrow> (\<exists>name. opened tr h = Some (name, cs))"
  by (auto simp: written_def)

lemma written_None [simp]: "written tr h = None \<longleftrightarrow> opened tr h = None"
  by (simp add: written_def)

lemma opened_simps [simp]:
  "opened [] = (\<lambda>h. None)" "opened (tr @ cs) = foldl open_step (opened tr) cs"
  by (simp_all add: opened_def)

lemma opened_event [simp]: "opened (cfs_event eid ty tr) = opened tr"
  by (simp add: cfs_event_def)

lemma opened_transmit [simp]: "opened (cfs_transmit p tr) = opened tr"
  by (simp add: cfs_transmit_def)

lemma opened_log [simp]: "opened (cfs_log tr) = opened tr"
  by (simp add: cfs_log_def)

lemma opened_call: "ds_call env v tr = (r, tr') \<Longrightarrow> opened tr' = opened tr"
  by (auto simp: ds_call_def cfs_call_def)

lemma opened_do [simp]: "opened (ds_do env v tr) = opened tr"
  by (simp add: ds_do_def ds_call_def cfs_call_def)

section \<open>The file status\<close>

definition dest_slot_ok :: "Ds_Env \<Rightarrow> bool \<Rightarrow> DS_AppFileStatus \<Rightarrow> Cfs_Trace \<Rightarrow> bool" where
  "dest_slot_ok env sized fs tr = (case fs_FileHandle fs of
       None \<Rightarrow> fs_FileName fs = [] \<and> fs_FileSize fs = 0 \<and> fs_FileAge fs = 0
     | Some h \<Rightarrow> fs_FileName fs \<noteq> [] \<and> (\<exists>cs. opened tr h = Some (fs_FileName fs, cs) \<and>
         (sized \<longrightarrow> fs_FileSize fs = of_nat (de_FsHeader env + length (concat cs)))))"

text \<open>In \<open>X\<close> are the files whose size is not claimed, because something was written and is not counted yet.\<close>

definition files_ok :: "Ds_Env \<Rightarrow> nat set \<Rightarrow> DS_AppFileStatus list \<Rightarrow> Cfs_Trace \<Rightarrow> bool" where
  "files_ok env X fss tr \<longleftrightarrow> length fss = DS_DEST_FILE_CNT \<and>
     (\<forall>i<DS_DEST_FILE_CNT. dest_slot_ok env (i \<notin> X) (fss ! i) tr) \<and>
     (\<forall>i<DS_DEST_FILE_CNT. \<forall>j<DS_DEST_FILE_CNT. \<forall>h. fs_FileHandle (fss ! i) = Some h \<longrightarrow>
        fs_FileHandle (fss ! j) = Some h \<longrightarrow> i = j) \<and>
     (\<forall>h. opened tr h \<noteq> None \<longrightarrow> (\<exists>i<DS_DEST_FILE_CNT. fs_FileHandle (fss ! i) = Some h))"

lemma files_ok_length: "files_ok env X fss tr \<Longrightarrow> length fss = DS_DEST_FILE_CNT"
  by (simp add: files_ok_def)

lemma files_ok_slot: "files_ok env X fss tr \<Longrightarrow> i < DS_DEST_FILE_CNT \<Longrightarrow> dest_slot_ok env (i \<notin> X) (fss ! i) tr"
  by (simp add: files_ok_def)

lemma files_ok_opened:
  assumes "opened tr' = opened tr"
  shows "files_ok env X fss tr' \<longleftrightarrow> files_ok env X fss tr"
  unfolding files_ok_def dest_slot_ok_def assms ..

lemma slot_ok_mono: "dest_slot_ok env b fs tr \<Longrightarrow> (c \<longrightarrow> b) \<Longrightarrow> dest_slot_ok env c fs tr"
  by (auto simp: dest_slot_ok_def split: option.splits)

lemma files_ok_mono:
  assumes ok: "files_ok env X fss tr" and sub: "X \<subseteq> Y"
  shows "files_ok env Y fss tr"
proof -
  have "dest_slot_ok env (i \<notin> Y) (fss ! i) tr" if "i < DS_DEST_FILE_CNT" for i
    by (rule slot_ok_mono [OF files_ok_slot [OF ok that]]) (use sub in blast)
  then show ?thesis using ok unfolding files_ok_def by blast
qed

text \<open>A change of fields that \<open>dest_slot_ok\<close> does not look at.\<close>

lemma files_ok_other:
  assumes "files_ok env X fss tr" "i < DS_DEST_FILE_CNT"
    "fs_FileHandle fs = fs_FileHandle (fss ! i)" "fs_FileName fs = fs_FileName (fss ! i)"
    "fs_FileSize fs = fs_FileSize (fss ! i)" "fs_FileHandle fs = None \<Longrightarrow> fs_FileAge fs = 0"
  shows "files_ok env X (fss[i := fs]) tr"
proof -
  have len: "length fss = DS_DEST_FILE_CNT" using assms(1) by (rule files_ok_length)
  have h: "fs_FileHandle (fss[i := fs] ! j) = fs_FileHandle (fss ! j)" for j
    using assms(2,3) len by (cases "j = i") simp_all
  have "dest_slot_ok env (j \<notin> X) (fss[i := fs] ! j) tr" if "j < DS_DEST_FILE_CNT" for j
    using files_ok_slot [OF assms(1) that] assms(2-) len
    by (cases "j = i") (auto simp: dest_slot_ok_def split: option.splits)
  then show ?thesis using assms(1) unfolding files_ok_def h by simp
qed

text \<open>Closing, opening and writing one file.\<close>

lemma files_ok_close:
  assumes ok: "files_ok env X fss tr" and i: "i < DS_DEST_FILE_CNT" and X: "X \<subseteq> {i}"
    and h: "fs_FileHandle (fss ! i) = Some h" and tr': "opened tr' = (opened tr)(h := None)"
    and fs: "fs_FileHandle fs = None" "fs_FileName fs = []" "fs_FileSize fs = 0" "fs_FileAge fs = 0"
  shows "files_ok env {} (fss[i := fs]) tr'"
proof -
  have len: "length fss = DS_DEST_FILE_CNT" using ok by (rule files_ok_length)
  have hn: "fs_FileHandle (fss ! j) \<noteq> Some h" if "j < DS_DEST_FILE_CNT" "j \<noteq> i" for j
    using ok that i h unfolding files_ok_def by blast
  have "dest_slot_ok env True (fss[i := fs] ! j) tr'" if j: "j < DS_DEST_FILE_CNT" for j
  proof (cases "j = i")
    case True
    then show ?thesis using fs i len by (simp add: dest_slot_ok_def)
  next
    case False
    then show ?thesis using files_ok_slot [OF ok j] hn [OF j False] X
      by (auto simp: dest_slot_ok_def tr' split: option.splits)
  qed
  moreover have "\<exists>k<DS_DEST_FILE_CNT. fs_FileHandle (fss[i := fs] ! k) = Some h'" if "opened tr' h' \<noteq> None" for h'
  proof -
    from that have "h' \<noteq> h" "opened tr h' \<noteq> None" by (auto simp: tr' split: if_splits)
    then obtain k where "k < DS_DEST_FILE_CNT" "fs_FileHandle (fss ! k) = Some h'" using ok unfolding files_ok_def by blast
    then show ?thesis using \<open>h' \<noteq> h\<close> h by (intro exI [of _ k]) (cases "k = i", auto)
  qed
  moreover have "j = k" if "j < DS_DEST_FILE_CNT" "k < DS_DEST_FILE_CNT"
    "fs_FileHandle (fss[i := fs] ! j) = Some h'" "fs_FileHandle (fss[i := fs] ! k) = Some h'" for j k h'
  proof -
    from that fs len have "j \<noteq> i" "k \<noteq> i" by auto
    with that ok show ?thesis unfolding files_ok_def by auto
  qed
  ultimately show ?thesis using len unfolding files_ok_def by (auto simp: nth_list_update)
qed

lemma files_ok_open:
  assumes ok: "files_ok env {} fss tr" and i: "i < DS_DEST_FILE_CNT"
    and none: "fs_FileHandle (fss ! i) = None" and fresh: "opened tr h = None"
    and tr': "opened tr' = (opened tr)(h := Some (fs_FileName fs, []))"
    and fs: "fs_FileHandle fs = Some h" "fs_FileName fs \<noteq> []"
  shows "files_ok env {i} (fss[i := fs]) tr'"
proof -
  have len: "length fss = DS_DEST_FILE_CNT" using ok by (rule files_ok_length)
  have hn: "fs_FileHandle (fss ! j) \<noteq> Some h" if "j < DS_DEST_FILE_CNT" for j
    using files_ok_slot [OF ok that] fresh by (auto simp: dest_slot_ok_def)
  have "dest_slot_ok env (j \<notin> {i}) (fss[i := fs] ! j) tr'" if j: "j < DS_DEST_FILE_CNT" for j
  proof (cases "j = i")
    case True
    then show ?thesis using fs i len by (simp add: dest_slot_ok_def tr')
  next
    case False
    then show ?thesis using files_ok_slot [OF ok j] hn [OF j] by (auto simp: dest_slot_ok_def tr' split: option.splits)
  qed
  moreover have "\<exists>k<DS_DEST_FILE_CNT. fs_FileHandle (fss[i := fs] ! k) = Some h'" if "opened tr' h' \<noteq> None" for h'
  proof (cases "h' = h")
    case True
    then show ?thesis using i fs len by (intro exI [of _ i]) simp
  next
    case False
    with that tr' have "opened tr h' \<noteq> None" by simp
    with ok obtain k where "k < DS_DEST_FILE_CNT" "fs_FileHandle (fss ! k) = Some h'" unfolding files_ok_def by blast
    then show ?thesis using none by (intro exI [of _ k]) (cases "k = i", auto)
  qed
  moreover have "j = k" if "j < DS_DEST_FILE_CNT" "k < DS_DEST_FILE_CNT"
    "fs_FileHandle (fss[i := fs] ! j) = Some h'" "fs_FileHandle (fss[i := fs] ! k) = Some h'" for j k h'
    using that hn fs len ok unfolding files_ok_def by (cases "j = i"; cases "k = i") auto
  ultimately show ?thesis using len unfolding files_ok_def by auto
qed

lemma files_ok_write:
  assumes ok: "files_ok env X fss tr" and i: "i < DS_DEST_FILE_CNT" and h: "fs_FileHandle (fss ! i) = Some h"
    and tr': "opened tr' = (opened tr)(h := map_option (apsnd (\<lambda>cs. cs @ [bytes])) (opened tr h))"
  shows "files_ok env (insert i X) fss tr'"
proof -
  have hn: "fs_FileHandle (fss ! j) \<noteq> Some h" if "j < DS_DEST_FILE_CNT" "j \<noteq> i" for j
    using ok that i h unfolding files_ok_def by blast
  have "dest_slot_ok env (j \<notin> insert i X) (fss ! j) tr'" if j: "j < DS_DEST_FILE_CNT" for j
    using files_ok_slot [OF ok j] hn [OF j] h by (cases "j = i") (auto simp: dest_slot_ok_def tr' split: option.splits)
  moreover have "opened tr' h' \<noteq> None \<longleftrightarrow> opened tr h' \<noteq> None" for h'
    by (simp add: tr')
  ultimately show ?thesis using ok unfolding files_ok_def by blast
qed

text \<open>A size that is counted again.\<close>

lemma files_ok_sized:
  assumes ok: "files_ok env (insert i X) fss tr" and i: "i < DS_DEST_FILE_CNT" "i \<notin> X"
    and h: "fs_FileHandle (fss ! i) = Some h" "written tr h = Some cs"
    and fs: "fs_FileHandle fs = Some h" "fs_FileName fs = fs_FileName (fss ! i)"
      "fs_FileSize fs = of_nat (de_FsHeader env + length (concat cs))"
  shows "files_ok env X (fss[i := fs]) tr"
proof -
  have len: "length fss = DS_DEST_FILE_CNT" using ok by (rule files_ok_length)
  have hs: "fs_FileHandle (fss[i := fs] ! j) = fs_FileHandle (fss ! j)" for j
    using h fs i len by (cases "j = i") simp_all
  have "dest_slot_ok env (j \<notin> X) (fss[i := fs] ! j) tr" if j: "j < DS_DEST_FILE_CNT" for j
    using files_ok_slot [OF ok j] h fs i len by (cases "j = i") (auto simp: dest_slot_ok_def written_eq)
  then show ?thesis using ok unfolding files_ok_def hs by simp
qed


section \<open>Operations on files\<close>

text \<open>What the operations on files leave alone.\<close>

definition ds_frame :: "DS_AppData \<Rightarrow> DS_FilterTable option \<times> DS_DestFileTable option \<times> DS_HashLink list \<times> nat option list \<times> u8" where
  "ds_frame s = (ds_FilterTbl s, ds_DestFileTbl s, ds_HashLinks s, ds_HashTable s, ds_EnableMoveFiles s)"

lemma set_status_simps [simp]:
  "ds_FileStatus (set_status i f s) = (ds_FileStatus s)[i := f (ds_FileStatus s ! i)]"
  "ds_frame (set_status i f s) = ds_frame s" "ds_EnableMoveFiles (set_status i f s) = ds_EnableMoveFiles s"
  "ds_DestFileTbl (set_status i f s) = ds_DestFileTbl s" "dest_file (set_status i f s) = dest_file s"
  by (auto simp: set_status_def ds_frame_def dest_file_def fun_eq_iff)

lemma ds_frame_simps [simp]:
  "ds_frame (s\<lparr>ds_FileWriteErrCounter := a\<rparr>) = ds_frame s" "ds_frame (s\<lparr>ds_FileWriteCounter := b\<rparr>) = ds_frame s"
  "ds_frame (s\<lparr>ds_FileUpdateCounter := b\<rparr>) = ds_frame s" "ds_frame (s\<lparr>ds_FileUpdateErrCounter := b\<rparr>) = ds_frame s"
  "ds_frame (s\<lparr>ds_DataStoreHandle := c\<rparr>) = ds_frame s"
  by (simp_all add: ds_frame_def)

lemma opened_move_file: "move_file env m name tr = (p, tr') \<Longrightarrow> opened tr' = opened tr"
  by (auto simp: move_file_def Let_def split: option.splits if_splits)

lemma opened_FileTransmit [simp]: "opened (DS_FileTransmit env fs tr) = opened tr"
  by (simp add: DS_FileTransmit_def)

lemma files_UpdateCDS:
  assumes "DS_TableUpdateCDS env s tr = (s', tr')"
  shows "ds_FileStatus s' = ds_FileStatus s \<and> ds_frame s' = ds_frame s \<and> opened tr' = opened tr"
  using assms opened_call by (auto simp: DS_TableUpdateCDS_def split: if_splits prod.splits)

lemma files_CloseDest:
  assumes run: "DS_FileCloseDest env i s tr = (s', tr')" and i: "i < DS_DEST_FILE_CNT" and X: "X \<subseteq> {i}"
    and ok: "files_ok env X (ds_FileStatus s) tr" and h: "fs_FileHandle (file_status s i) = Some h"
  shows "files_ok env {} (ds_FileStatus s') tr' \<and> ds_frame s' = ds_frame s \<and> fs_FileHandle (file_status s' i) = None"
proof -
  let ?fs = "(file_status s i)\<lparr>fs_FileHandle := None, fs_FileAge := 0, fs_FileSize := 0, fs_FileName := []\<rparr>"
  have s': "s' = set_status i (\<lambda>fs. fs\<lparr>fs_FileHandle := None, fs_FileAge := 0, fs_FileSize := 0, fs_FileName := []\<rparr>) s"
    using run by (auto simp: DS_FileCloseDest_def Let_def split: prod.splits)
  then have fss: "ds_FileStatus s' = (ds_FileStatus s)[i := ?fs]" by (simp add: file_status_def)
  have "opened tr' = (opened tr)(h := None)"
    using run h opened_move_file by (fastforce simp: DS_FileCloseDest_def Let_def split: prod.splits if_splits)
  then have "files_ok env {} (ds_FileStatus s') tr'"
    unfolding fss by (rule files_ok_close [OF ok i X h [unfolded file_status_def]]) simp_all
  then show ?thesis using i s' files_ok_length [OF ok] by (simp add: file_status_def)
qed

lemma files_UpdateHeader:
  assumes run: "DS_FileUpdateHeader env i s tr = (s', tr')" and i: "i < DS_DEST_FILE_CNT"
    and ok: "files_ok env X (ds_FileStatus s) tr" and h: "fs_FileHandle (file_status s i) = Some h"
  shows "files_ok env (insert i X) (ds_FileStatus s') tr' \<and> ds_FileStatus s' = ds_FileStatus s \<and> ds_frame s' = ds_frame s"
proof -
  obtain secs subs where time: "de_GetTime env tr = (secs, subs)" by force
  have s': "ds_FileStatus s' = ds_FileStatus s \<and> ds_frame s' = ds_frame s"
    using run time by (auto simp: DS_FileUpdateHeader_def Let_def split: if_splits)
  have "opened tr' = opened tr \<or> opened tr' = (opened tr)(h := map_option (apsnd (\<lambda>cs. cs @ [le32 secs @ le32 subs])) (opened tr h))"
    using run h time by (auto simp: DS_FileUpdateHeader_def Let_def split: if_splits)
  then have "files_ok env (insert i X) (ds_FileStatus s) tr'"
  proof
    assume "opened tr' = opened tr"
    from iffD2 [OF files_ok_opened [OF this] files_ok_mono [OF ok subset_insertI]] show ?thesis .
  qed (rule files_ok_write [OF ok i h [unfolded file_status_def]])
  with s' show ?thesis by simp
qed

lemma files_WriteError:
  assumes run: "DS_FileWriteError env i s tr = (s', tr')" and i: "i < DS_DEST_FILE_CNT" and X: "X \<subseteq> {i}"
    and ok: "files_ok env X (ds_FileStatus s) tr" and h: "fs_FileHandle (file_status s i) = Some h"
  shows "files_ok env {} (ds_FileStatus s') tr' \<and> ds_frame s' = ds_frame s \<and> fs_FileHandle (file_status s' i) = None"
proof -
  let ?s = "s\<lparr>ds_FileWriteErrCounter := ds_FileWriteErrCounter s + 1\<rparr>" and ?tr = "cfs_event DS_WRITE_FILE_ERR_EID EVS_ERROR tr"
  obtain s1 tr1 where close: "DS_FileCloseDest env i ?s ?tr = (s1, tr1)" by force
  have "files_ok env X (ds_FileStatus ?s) ?tr" using ok files_ok_opened [OF opened_event] by simp
  from files_CloseDest [OF close i X this] h
  have 1: "files_ok env {} (ds_FileStatus s1) tr1" "ds_frame s1 = ds_frame s" "fs_FileHandle (file_status s1 i) = None"
    by (simp_all add: file_status_def)
  have s': "s' = set_status i (\<lambda>fs. fs\<lparr>fs_FileState := DS_DISABLED\<rparr>) s1" "tr' = tr1"
    using run close by (simp_all add: DS_FileWriteError_def)
  have "fs_FileAge (file_status s1 i) = 0"
    using files_ok_slot [OF 1(1) i] 1(3) by (simp add: dest_slot_ok_def file_status_def)
  then have "files_ok env {} (ds_FileStatus s') tr'"
    unfolding s' set_status_simps by (intro files_ok_other [OF 1(1) i]) (simp_all add: file_status_def)
  then show ?thesis using 1 i s' files_ok_length [OF 1(1)] by (simp add: file_status_def)
qed

text \<open>A write that succeeds is counted, and the size agrees again.\<close>

lemma count_write_simps [simp]:
  "ds_frame (count_write i n s) = ds_frame s"
  "ds_FileStatus (count_write i n s) = (ds_FileStatus s)[i := (ds_FileStatus s ! i)
     \<lparr>fs_FileSize := fs_FileSize (ds_FileStatus s ! i) + n, fs_FileGrowth := fs_FileGrowth (ds_FileStatus s ! i) + n\<rparr>]"
  by (simp_all add: count_write_def ds_frame_def set_status_def)

lemma files_counted_write:
  assumes i: "i < DS_DEST_FILE_CNT" and ok: "files_ok env {} (ds_FileStatus s) tr"
    and h: "fs_FileHandle (file_status s i) = Some h"
    and tr': "opened tr' = (opened tr)(h := map_option (apsnd (\<lambda>cs. cs @ [bytes])) (opened tr h))"
  shows "files_ok env {} (ds_FileStatus (count_write i (of_nat (length bytes)) s)) tr'"
proof -
  have h': "fs_FileHandle (ds_FileStatus s ! i) = Some h" using h by (simp add: file_status_def)
  obtain cs where cs: "written tr h = Some cs" "fs_FileSize (ds_FileStatus s ! i) = of_nat (de_FsHeader env + length (concat cs))"
    using files_ok_slot [OF ok i] h' by (auto simp: dest_slot_ok_def written_eq)
  from files_ok_write [OF ok i h' tr'] show ?thesis
    unfolding count_write_simps
    by (rule files_ok_sized [OF _ i _ h', where cs = "cs @ [bytes]"]) (use cs in \<open>auto simp: h' tr' written_eq\<close>)
qed


lemma files_WriteData:
  assumes run: "DS_FileWriteData env i bytes s tr = (s', tr')" and i: "i < DS_DEST_FILE_CNT"
    and ok: "files_ok env {} (ds_FileStatus s) tr" and h: "fs_FileHandle (file_status s i) = Some h"
  shows "files_ok env {} (ds_FileStatus s') tr' \<and> ds_frame s' = ds_frame s \<and>
    (fs_FileHandle (file_status s' i) = None \<or> fs_FileHandle (file_status s' i) = Some h \<and>
       written tr' h = map_option (\<lambda>cs. cs @ [bytes]) (written tr h) \<and>
       fs_FileSize (file_status s' i) = fs_FileSize (file_status s i) + of_nat (length bytes))"
proof -
  let ?r = "de_Write env tr h bytes"
  let ?tr = "tr @ [Os_Write h bytes ?r]"
  have op: "opened ?tr = (opened tr)(h := map_option (apsnd (\<lambda>cs. cs @ [bytes])) (opened tr h))" by simp
  have r: "(if (word_of_int ?r :: u32) = of_nat (length bytes) then (count_write i (of_nat (length bytes)) s, ?tr)
      else DS_FileWriteError env i s ?tr) = (s', tr')"
    using run h by (simp add: DS_FileWriteData_def Let_def)
  show ?thesis
  proof (cases "(word_of_int ?r :: u32) = of_nat (length bytes)")
    case True
    with r have s': "s' = count_write i (of_nat (length bytes)) s" "tr' = ?tr" by simp_all
    then show ?thesis using files_counted_write [OF i ok h op] h i files_ok_length [OF ok]
      by (cases "opened tr h") (simp_all add: file_status_def written_def)
  next
    case False
    with r have "DS_FileWriteError env i s ?tr = (s', tr')" by simp
    from files_WriteError [OF this i _ files_ok_write [OF ok i h [unfolded file_status_def] op] h] show ?thesis by simp
  qed
qed

lemma files_WriteHeader:
  assumes run: "DS_FileWriteHeader env i s tr = (s', tr')" and i: "i < DS_DEST_FILE_CNT"
    and ok: "files_ok env {i} (ds_FileStatus s) tr" and h: "fs_FileHandle (file_status s i) = Some h"
    and new: "written tr h = Some []" "fs_FileSize (file_status s i) = 0"
  shows "files_ok env {} (ds_FileStatus s') tr' \<and> ds_frame s' = ds_frame s \<and>
    (fs_FileHandle (file_status s' i) = None \<or> fs_FileHandle (file_status s' i) = Some h \<and>
       (\<exists>header. length header = 12 + de_MaxPath env \<and> written tr' h = Some [header]))"
proof -
  let ?r = "de_WriteHeader env tr h"
  let ?tr = "tr @ [Os_WriteHeader h ?r]"
  let ?s = "count_write i (of_nat (de_FsHeader env)) s"
  let ?bytes = "ds_file_header env i ?s"
  let ?r2 = "de_Write env ?tr h ?bytes"
  let ?tr2 = "?tr @ [Os_Write h ?bytes ?r2]"
  have op: "opened ?tr = opened tr" by simp
  have len: "length ?bytes = 12 + de_MaxPath env" by (simp add: ds_file_header_def le32_def name_bytes_def)
  have r: "(if ?r = int (de_FsHeader env) then (if ?r2 = int (length ?bytes)
        then (count_write i (of_nat (length ?bytes)) ?s, ?tr2) else DS_FileWriteError env i ?s ?tr2)
      else DS_FileWriteError env i s ?tr) = (s', tr')"
    using run unfolding DS_FileWriteHeader_def Let_def h option.sel .
  show ?thesis
  proof (cases "?r = int (de_FsHeader env)")
    case False
    with r have "DS_FileWriteError env i s ?tr = (s', tr')" by simp
    from files_WriteError [OF this i subset_refl iffD2 [OF files_ok_opened [OF op] ok] h] show ?thesis by simp
  next
    case True
    have h': "fs_FileHandle (ds_FileStatus s ! i) = Some h" using h by (simp add: file_status_def)
    have ok1: "files_ok env {} (ds_FileStatus ?s) ?tr"
      unfolding count_write_simps
      by (rule files_ok_sized [OF iffD2 [OF files_ok_opened [OF op] ok] i _ h', where cs = "[]"])
        (use new h' in \<open>auto simp: file_status_def written_eq\<close>)
    have hs: "fs_FileHandle (file_status ?s i) = Some h"
      using h' i files_ok_length [OF ok] by (simp add: file_status_def)
    have op2: "opened ?tr2 = (opened ?tr)(h := map_option (apsnd (\<lambda>cs. cs @ [?bytes])) (opened ?tr h))" by simp
    show ?thesis
    proof (cases "?r2 = int (length ?bytes)")
      case True
      with r \<open>?r = int (de_FsHeader env)\<close> have s': "s' = count_write i (of_nat (length ?bytes)) ?s" "tr' = ?tr2" by simp_all
      have "written tr' h = Some [?bytes]" using s' new by (auto simp: written_eq)
      moreover have "fs_FileHandle (file_status s' i) = Some h"
        using hs i files_ok_length [OF ok1] by (simp add: s' file_status_def)
      moreover have "files_ok env {} (ds_FileStatus s') tr'" using files_counted_write [OF i ok1 hs op2] s' by simp
      ultimately show ?thesis using len s' by auto
    next
      case False
      with r True have "DS_FileWriteError env i ?s ?tr2 = (s', tr')" by simp
      from files_WriteError [OF this i _ files_ok_write [OF ok1 i hs [unfolded file_status_def] op2] hs] show ?thesis
        by simp
    qed
  qed
qed

text \<open>\<open>OS_OpenCreate\<close> gives a handle that is not in use.\<close>

definition open_fresh :: "Ds_Env \<Rightarrow> bool" where
  "open_fresh env \<longleftrightarrow> (\<forall>tr name h. de_OpenCreate env tr name = Some h \<longrightarrow> opened tr h = None)"

lemma files_same_slot:
  assumes ok: "files_ok env {} (ds_FileStatus s) tr" and i: "i < DS_DEST_FILE_CNT"
    and none: "fs_FileHandle (file_status s i) = None"
    and s': "ds_FileStatus s' = (ds_FileStatus s)[i := fs]" and fs: "fs_FileHandle fs = None" "fs_FileName fs = []"
      "fs_FileSize fs = 0" "fs_FileAge fs = 0" and tr': "opened tr' = opened tr"
  shows "files_ok env {} (ds_FileStatus s') tr' \<and> fs_FileHandle (file_status s' i) = None"
proof -
  have slot: "fs_FileName (ds_FileStatus s ! i) = []" "fs_FileSize (ds_FileStatus s ! i) = 0" "fs_FileHandle (ds_FileStatus s ! i) = None"
    using files_ok_slot [OF ok i] none by (simp_all add: dest_slot_ok_def file_status_def)
  have "files_ok env {} (ds_FileStatus s') tr"
    unfolding s' by (rule files_ok_other [OF ok i]) (simp_all add: slot fs)
  then show ?thesis using files_ok_opened [OF tr'] i s' fs files_ok_length [OF ok] by (simp add: file_status_def)
qed


lemma create_name_cases:
  assumes "DS_FileCreateName env i s tr = (s1, tr1)"
  obtains (named) w where "s1 = set_status i (\<lambda>fs. fs\<lparr>fs_FileName := w\<rparr>) s" "tr1 = tr" "length w < de_MaxPath env"
  | (failed) eid where "s1 = set_status i (\<lambda>fs. fs\<lparr>fs_FileState := DS_DISABLED\<rparr>) s" "tr1 = cfs_event eid EVS_ERROR tr"
  using assms unfolding DS_FileCreateName_def Let_def by (auto split: if_splits)

text \<open>What opening a file leads to: the file is closed again, or it holds its secondary header.\<close>

definition fresh_file :: "Ds_Env \<Rightarrow> nat \<Rightarrow> DS_AppData \<Rightarrow> Cfs_Trace \<Rightarrow> bool" where
  "fresh_file env i s tr \<longleftrightarrow> files_ok env {} (ds_FileStatus s) tr \<and>
     (case fs_FileHandle (file_status s i) of None \<Rightarrow> True
      | Some h \<Rightarrow> \<exists>header. length header = 12 + de_MaxPath env \<and> written tr h = Some [header])"

lemma fresh_file_none: "files_ok env {} (ds_FileStatus s) tr \<and> fs_FileHandle (file_status s i) = None \<Longrightarrow> fresh_file env i s tr"
  by (simp add: fresh_file_def)

lemma files_opened:
  assumes i: "i < DS_DEST_FILE_CNT" and ok: "files_ok env {} (ds_FileStatus s) tr"
    and none: "fs_FileHandle (file_status s i) = None" and fresh: "opened tr h = None"
    and s1: "ds_FileStatus s1 = (ds_FileStatus s)[i := (file_status s i)\<lparr>fs_FileName := w, fs_FileHandle := Some h\<rparr>]"
    and w: "w \<noteq> []" and run: "DS_FileWriteHeader env i s1 (tr @ [Os_OpenCreate w (Some h)]) = (s2, tr2)"
  shows "fresh_file env i s2 tr2 \<and> ds_frame s2 = ds_frame s1"
proof -
  have len: "length (ds_FileStatus s) = DS_DEST_FILE_CNT" using ok by (rule files_ok_length)
  have none': "fs_FileHandle (ds_FileStatus s ! i) = None" using none by (simp add: file_status_def)
  have "files_ok env {i} (ds_FileStatus s1) (tr @ [Os_OpenCreate w (Some h)])"
    unfolding s1 by (rule files_ok_open [OF ok i none' fresh]) (use w in simp_all)
  moreover have "written (tr @ [Os_OpenCreate w (Some h)]) h = Some []" by (simp add: written_eq)
  moreover have "fs_FileHandle (file_status s1 i) = Some h" "fs_FileSize (file_status s1 i) = 0"
    using i len none files_ok_slot [OF ok i] by (simp_all add: s1 file_status_def dest_slot_ok_def)
  ultimately have "files_ok env {} (ds_FileStatus s2) tr2 \<and> ds_frame s2 = ds_frame s1 \<and>
    (fs_FileHandle (file_status s2 i) = None \<or> fs_FileHandle (file_status s2 i) = Some h \<and>
       (\<exists>header. length header = 12 + de_MaxPath env \<and> written tr2 h = Some [header]))"
    by (intro files_WriteHeader [OF run i]) simp_all
  then show ?thesis by (auto simp: fresh_file_def)
qed

lemma fresh_file_count:
  assumes "fresh_file env i s tr" "i < DS_DEST_FILE_CNT" "fs_FileHandle (file_status s i) \<noteq> None"
    "ds_FileStatus s' = (ds_FileStatus s)[i := (file_status s i)\<lparr>fs_FileCount := n\<rparr>]" "opened tr' = opened tr"
  shows "fresh_file env i s' tr'"
proof -
  have ok: "files_ok env {} (ds_FileStatus s) tr" using assms(1) by (simp add: fresh_file_def)
  have "files_ok env {} (ds_FileStatus s') tr"
    unfolding assms(4) by (rule files_ok_other [OF ok assms(2)]) (use assms(3) in \<open>simp_all add: file_status_def\<close>)
  moreover have "fs_FileHandle (file_status s' i) = fs_FileHandle (file_status s i)"
    using assms(2,4) files_ok_length [OF ok] by (simp add: file_status_def)
  ultimately show ?thesis using assms(1,5) files_ok_opened [OF assms(5)]
    by (auto simp: fresh_file_def written_def split: option.splits)
qed

text \<open>The parts of \<open>DS_FileCreateDest\<close> behind the file name.\<close>

lemma create_dest_count:
  assumes fresh: "fresh_file env i s tr" and i: "i < DS_DEST_FILE_CNT"
    and run: "(if fs_FileHandle (file_status s i) \<noteq> None \<and> df_FileNameType (dest_file s i) = DS_BY_COUNT
      then DS_TableUpdateCDS env (set_status i (\<lambda>fs. fs\<lparr>fs_FileCount :=
          (if fs_FileCount fs + 1 > DS_MAX_SEQUENCE_COUNT then df_SequenceCount (dest_file s i)
           else fs_FileCount fs + 1)\<rparr>) s) tr
      else (s, tr)) = (s', tr')"
  shows "fresh_file env i s' tr' \<and> ds_frame s' = ds_frame s"
proof (cases "fs_FileHandle (file_status s i) \<noteq> None \<and> df_FileNameType (dest_file s i) = DS_BY_COUNT")
  case True
  define n where "n = (if fs_FileCount (file_status s i) + 1 > DS_MAX_SEQUENCE_COUNT then df_SequenceCount (dest_file s i)
     else fs_FileCount (file_status s i) + 1)"
  define s1 where "s1 = set_status i (\<lambda>fs. fs\<lparr>fs_FileCount :=
     (if fs_FileCount fs + 1 > DS_MAX_SEQUENCE_COUNT then df_SequenceCount (dest_file s i) else fs_FileCount fs + 1)\<rparr>) s"
  have "DS_TableUpdateCDS env s1 tr = (s', tr')" using run True by (simp add: s1_def)
  from files_UpdateCDS [OF this] have 4: "ds_FileStatus s' = ds_FileStatus s1" "ds_frame s' = ds_frame s1" "opened tr' = opened tr"
    by simp_all
  have "ds_FileStatus s' = (ds_FileStatus s)[i := (file_status s i)\<lparr>fs_FileCount := n\<rparr>]"
    by (simp add: 4 s1_def n_def file_status_def)
  from fresh_file_count [OF fresh i _ this 4(3)] True 4 show ?thesis by (simp add: s1_def)
next
  case False
  then have "s' = s" "tr' = tr" using run by auto
  then show ?thesis using fresh by simp
qed

lemma files_CreateDest:
  assumes run: "DS_FileCreateDest env i s tr = (s', tr')" and i: "i < DS_DEST_FILE_CNT" and fresh: "open_fresh env"
    and ok: "files_ok env {} (ds_FileStatus s) tr" and none: "fs_FileHandle (file_status s i) = None"
  shows "fresh_file env i s' tr' \<and> ds_frame s' = ds_frame s"
proof -
  obtain s1 tr1 where name: "DS_FileCreateName env i s tr = (s1, tr1)" by force
  have len: "length (ds_FileStatus s) = DS_DEST_FILE_CNT" using ok by (rule files_ok_length)
  have slot: "fs_FileName (file_status s i) = []" "fs_FileSize (file_status s i) = 0" "fs_FileAge (file_status s i) = 0"
    using files_ok_slot [OF ok i] none by (simp_all add: dest_slot_ok_def file_status_def)
  have same: "fresh_file env i s' tr'" if "ds_FileStatus s' = (ds_FileStatus s)[i := (file_status s i)\<lparr>fs_FileName := [], fs_FileState := x\<rparr>]"
    "opened tr' = opened tr" for x
    using fresh_file_none [OF files_same_slot [OF ok i none that(1) _ _ _ _ that(2)]] none slot by simp
  note run = run [unfolded DS_FileCreateDest_def name prod.case Let_def]
  from name show ?thesis
  proof (cases rule: create_name_cases)
    case (failed eid)
    then have st: "file_status s1 i = (file_status s i)\<lparr>fs_FileState := DS_DISABLED\<rparr>" using i len by (simp add: file_status_def)
    then have s': "s' = s1" "tr' = tr1" using run slot by simp_all
    have "(file_status s i)\<lparr>fs_FileState := DS_DISABLED\<rparr> = (file_status s i)\<lparr>fs_FileName := [], fs_FileState := DS_DISABLED\<rparr>"
      using slot by simp
    then have "ds_FileStatus s' = (ds_FileStatus s)[i := (file_status s i)\<lparr>fs_FileName := [], fs_FileState := DS_DISABLED\<rparr>]"
      by (simp add: s' failed file_status_def)
    from same [OF this] show ?thesis by (simp add: s' failed)
  next
    case (named w)
    have st: "file_status s1 i = (file_status s i)\<lparr>fs_FileName := w\<rparr>" using i len named by (simp add: file_status_def)
    show ?thesis
    proof (cases "w = []")
      case True
      then have s': "s' = s1" "tr' = tr1" using run st by simp_all
      have "ds_FileStatus s' = (ds_FileStatus s)[i := (file_status s i)\<lparr>fs_FileName := [], fs_FileState := fs_FileState (file_status s i)\<rparr>]"
        by (simp add: s' named True file_status_def)
      from same [OF this] show ?thesis by (simp add: s' named)
    next
      case False
      note run = run [unfolded st named(2), simplified, simplified False, simplified]
      show ?thesis
      proof (cases "de_OpenCreate env tr w")
        case None
        have s': "s' = set_status i (\<lambda>fs. fs\<lparr>fs_FileName := [], fs_FileState := DS_DISABLED\<rparr>)
            (s1\<lparr>ds_FileWriteErrCounter := ds_FileWriteErrCounter s1 + 1\<rparr>)"
          "tr' = cfs_event DS_CREATE_FILE_ERR_EID EVS_ERROR (tr @ [Os_OpenCreate w None])"
          using run None by simp_all
        have "ds_FileStatus s' = (ds_FileStatus s)[i := (file_status s i)\<lparr>fs_FileName := [], fs_FileState := DS_DISABLED\<rparr>]"
          using i len by (simp add: s' named file_status_def)
        from same [OF this] show ?thesis by (simp add: s' named)
      next
        case (Some h)
        let ?s2 = "set_status i (\<lambda>fs. fs\<lparr>fs_FileHandle := Some h\<rparr>) (s1\<lparr>ds_FileWriteCounter := ds_FileWriteCounter s1 + 1\<rparr>)"
        obtain s3 tr3 where header: "DS_FileWriteHeader env i ?s2 (tr @ [Os_OpenCreate w (Some h)]) = (s3, tr3)" by force
        have "opened tr h = None" using fresh Some by (simp add: open_fresh_def)
        moreover have "ds_FileStatus ?s2 = (ds_FileStatus s)[i := (file_status s i)\<lparr>fs_FileName := w, fs_FileHandle := Some h\<rparr>]"
          using i len by (simp add: named file_status_def)
        ultimately have 3: "fresh_file env i s3 tr3" "ds_frame s3 = ds_frame ?s2"
          using files_opened [OF i ok none _ _ False header] by auto
        from create_dest_count [OF 3(1) i] run Some header 3(2) named show ?thesis by simp
      qed
    qed
  qed
qed


lemma files_close_open:
  assumes i: "i < DS_DEST_FILE_CNT" and ok: "files_ok env {} (ds_FileStatus s) tr"
    and h: "fs_FileHandle (file_status s i) \<noteq> None"
    and run: "DS_FileUpdateHeader env i s tr = (s1, tr1)" "DS_FileCloseDest env i s1 tr1 = (s2, tr2)"
  shows "files_ok env {} (ds_FileStatus s2) tr2 \<and> ds_frame s2 = ds_frame s \<and> fs_FileHandle (file_status s2 i) = None"
proof -
  from h obtain h' where h': "fs_FileHandle (file_status s i) = Some h'" by auto
  from files_UpdateHeader [OF run(1) i ok h'] have 1: "files_ok env {i} (ds_FileStatus s1) tr1"
    "ds_FileStatus s1 = ds_FileStatus s" "ds_frame s1 = ds_frame s" by auto
  from files_CloseDest [OF run(2) i subset_refl 1(1)] h' 1 show ?thesis by (simp add: file_status_def)
qed

text \<open>
  A packet written to a file: afterwards the file is closed, or the packet went behind what the file
  held and the file is within its size limit, or the file is new and holds only this packet.
\<close>

definition packet_stored :: "Ds_Env \<Rightarrow> nat \<Rightarrow> u8 list \<Rightarrow> DS_AppData \<Rightarrow> Cfs_Trace \<Rightarrow> DS_AppData \<Rightarrow> Cfs_Trace \<Rightarrow> bool" where
  "packet_stored env i buf s tr s' tr' \<longleftrightarrow> (case fs_FileHandle (file_status s' i) of
       None \<Rightarrow> True
     | Some h \<Rightarrow>
         (\<exists>cs. fs_FileHandle (file_status s i) = Some h \<and> written tr h = Some cs \<and> written tr' h = Some (cs @ [buf]) \<and>
            unat (fs_FileSize (file_status s i)) + length buf \<le> unat (df_MaxFileSize (dest_file s i)) \<and>
            fs_FileSize (file_status s' i) = fs_FileSize (file_status s i) + of_nat (length buf)) \<or>
         (\<exists>header. length header = 12 + de_MaxPath env \<and> written tr' h = Some [header, buf]))"

lemma files_create_write:
  assumes i: "i < DS_DEST_FILE_CNT" and fresh: "open_fresh env"
    and ok: "files_ok env {} (ds_FileStatus s0) tr0" "fs_FileHandle (file_status s0 i) = None"
    and run: "(case DS_FileCreateDest env i s0 tr0 of (s2, tr2) \<Rightarrow>
      if fs_FileHandle (file_status s2 i) \<noteq> None then DS_FileWriteData env i buf s2 tr2 else (s2, tr2)) = (s', tr')"
  shows "files_ok env {} (ds_FileStatus s') tr' \<and> ds_frame s' = ds_frame s0 \<and> packet_stored env i buf s tr s' tr'"
proof -
  obtain s2 tr2 where create: "DS_FileCreateDest env i s0 tr0 = (s2, tr2)" by force
  from files_CreateDest [OF create i fresh ok] have 2: "fresh_file env i s2 tr2" "ds_frame s2 = ds_frame s0" by auto
  then have ok2: "files_ok env {} (ds_FileStatus s2) tr2" by (simp add: fresh_file_def)
  show ?thesis
  proof (cases "fs_FileHandle (file_status s2 i)")
    case None
    then show ?thesis using run create 2 ok2 by (simp add: packet_stored_def)
  next
    case (Some h)
    then obtain header where "length header = 12 + de_MaxPath env" "written tr2 h = Some [header]"
      using 2(1) by (auto simp: fresh_file_def)
    moreover have "DS_FileWriteData env i buf s2 tr2 = (s', tr')" using run create Some by simp
    from files_WriteData [OF this i ok2 Some] have "files_ok env {} (ds_FileStatus s') tr'" "ds_frame s' = ds_frame s2"
      "fs_FileHandle (file_status s' i) = None \<or> fs_FileHandle (file_status s' i) = Some h \<and>
         written tr' h = map_option (\<lambda>cs. cs @ [buf]) (written tr2 h)" by auto
    ultimately show ?thesis using 2(2) by (auto simp: packet_stored_def)
  qed
qed

lemma files_SetupWrite:
  assumes run: "DS_FileSetupWrite env i buf s tr = (s', tr')" and i: "i < DS_DEST_FILE_CNT" and fresh: "open_fresh env"
    and ok: "files_ok env {} (ds_FileStatus s) tr"
  shows "files_ok env {} (ds_FileStatus s') tr' \<and> ds_frame s' = ds_frame s \<and> packet_stored env i buf s tr s' tr'"
proof -
  note run = run [unfolded DS_FileSetupWrite_def Let_def]
  consider (closed) "fs_FileHandle (file_status s i) = None"
    | (full) h where "fs_FileHandle (file_status s i) = Some h"
        "unat (df_MaxFileSize (dest_file s i)) < unat (fs_FileSize (file_status s i)) + length buf"
    | (room) h where "fs_FileHandle (file_status s i) = Some h"
        "unat (fs_FileSize (file_status s i)) + length buf \<le> unat (df_MaxFileSize (dest_file s i))"
    by (cases "fs_FileHandle (file_status s i)") force+
  then show ?thesis
  proof cases
    case closed
    with run files_create_write [OF i fresh ok closed, of buf s' tr'] show ?thesis by simp
  next
    case full
    obtain s1 tr1 where 1: "DS_FileUpdateHeader env i s tr = (s1, tr1)" by force
    obtain s2 tr2 where 2: "DS_FileCloseDest env i s1 tr1 = (s2, tr2)" by force
    from files_close_open [OF i ok _ 1 2] full have
      3: "files_ok env {} (ds_FileStatus s2) tr2" "ds_frame s2 = ds_frame s" "fs_FileHandle (file_status s2 i) = None" by auto
    from run full 1 2 files_create_write [OF i fresh 3(1,3), of buf s' tr' s tr] 3(2) show ?thesis by simp
  next
    case room
    then have "DS_FileWriteData env i buf s tr = (s', tr')" using run by (simp add: not_less)
    from files_WriteData [OF this i ok room(1)] room files_ok_slot [OF ok i] show ?thesis
      by (auto simp: packet_stored_def dest_slot_ok_def file_status_def written_eq)
  qed
qed

lemma files_age:
  assumes ok: "files_ok env {} (ds_FileStatus s) tr" and i: "i < DS_DEST_FILE_CNT" and h: "fs_FileHandle (file_status s i) \<noteq> None"
  shows "files_ok env {} (ds_FileStatus (set_status i (\<lambda>fs. fs\<lparr>fs_FileAge := fs_FileAge fs + secs\<rparr>) s)) tr"
  unfolding set_status_simps
  by (rule files_ok_other [OF ok i]) (use h in \<open>simp_all add: file_status_def\<close>)

lemma files_test_age_loop:
  "test_age_loop env secs is s tr = (s', tr') \<Longrightarrow> \<forall>i\<in>set is. i < DS_DEST_FILE_CNT \<Longrightarrow>
   files_ok env {} (ds_FileStatus s) tr \<Longrightarrow>
   files_ok env {} (ds_FileStatus s') tr' \<and> ds_frame s' = ds_frame s"
proof (induction env secs "is" s tr rule: test_age_loop.induct)
  case (2 env secs i js s tr)
  let ?s1 = "set_status i (\<lambda>fs. fs\<lparr>fs_FileAge := fs_FileAge fs + secs\<rparr>) s"
  have i: "i < DS_DEST_FILE_CNT" using "2.prems" by simp
  show ?case
  proof (cases "fs_FileHandle (file_status s i)")
    case None
    then show ?thesis using "2.IH"(1) "2.prems" by simp
  next
    case (Some h)
    have ok1: "files_ok env {} (ds_FileStatus ?s1) tr" using files_age [OF "2.prems"(3) i] Some by blast
    show ?thesis
    proof (cases "fs_FileAge (file_status ?s1 i) \<ge> df_MaxFileAge (dest_file ?s1 i)")
      case False
      then show ?thesis using "2.IH"(3) [OF _ refl False] Some "2.prems" ok1 by simp
    next
      case True
      obtain s2 tr2 where s2: "DS_FileUpdateHeader env i ?s1 tr = (s2, tr2)" by force
      obtain s3 tr3 where s3: "DS_FileCloseDest env i s2 tr2 = (s3, tr3)" by force
      have "fs_FileHandle (file_status ?s1 i) \<noteq> None"
        using Some i files_ok_length [OF "2.prems"(3)] by (simp add: file_status_def)
      from files_close_open [OF i ok1 this s2 s3] have
        3: "files_ok env {} (ds_FileStatus s3) tr3" "ds_frame s3 = ds_frame s" by auto
      have "test_age_loop env secs js s3 tr3 = (s', tr')" using "2.prems"(1) Some True s2 s3 by simp
      from "2.IH"(2) [OF _ refl True s2 [symmetric] s3 [symmetric] this _ 3(1)] Some "2.prems"(2) 3(2)
      show ?thesis by simp
    qed
  qed
qed simp

lemma files_TestAge:
  assumes "DS_FileTestAge env secs s tr = (s', tr')" "files_ok env {} (ds_FileStatus s) tr"
  shows "files_ok env {} (ds_FileStatus s') tr' \<and> ds_frame s' = ds_frame s"
  using assms files_test_age_loop [of env secs "[0..<DS_DEST_FILE_CNT]" s tr s' tr']
  by (auto simp: DS_FileTestAge_def split: if_splits)

section \<open>What a data file holds\<close>

text \<open>C27. After a packet was written to a destination file that is still open, the file ends with the whole packet, its recorded size is the size of the file headers and all that was written, and it is within the size limit of its table entry unless this packet is the only one in it.\<close>

theorem file_store:
  assumes "open_fresh env" "files_ok env {} (ds_FileStatus s) tr" "i < DS_DEST_FILE_CNT"
    "DS_FileSetupWrite env i buf s tr = (s', tr')" "fs_FileHandle (file_status s' i) = Some h"
  shows "\<exists>cs. written tr' h = Some (cs @ [buf]) \<and>
    fs_FileSize (file_status s' i) = of_nat (de_FsHeader env + length (concat (cs @ [buf]))) \<and>
    (unat (fs_FileSize (file_status s' i)) \<le> unat (df_MaxFileSize (dest_file s' i)) \<or>
     (\<exists>header. cs = [header] \<and> length header = 12 + de_MaxPath env))"
proof -
  from files_SetupWrite [OF assms(4,3,1,2)] have ok: "files_ok env {} (ds_FileStatus s') tr'"
    and frame: "ds_frame s' = ds_frame s" and st: "packet_stored env i buf s tr s' tr'" by auto
  have size: "fs_FileSize (file_status s' i) = of_nat (de_FsHeader env + length (concat cs))" if "written tr' h = Some cs" for cs
    using files_ok_slot [OF ok assms(3)] assms(5) that by (auto simp: dest_slot_ok_def file_status_def written_eq)
  have dest: "dest_file s' = dest_file s" using frame by (simp add: ds_frame_def dest_file_def fun_eq_iff)
  from st assms(5) consider
    (more) cs where "written tr' h = Some (cs @ [buf])"
      "unat (fs_FileSize (file_status s i)) + length buf \<le> unat (df_MaxFileSize (dest_file s i))"
      "fs_FileSize (file_status s' i) = fs_FileSize (file_status s i) + of_nat (length buf)"
    | (new) header where "length header = 12 + de_MaxPath env" "written tr' h = Some ([header] @ [buf])"
    by (auto simp: packet_stored_def)
  then show ?thesis
  proof cases
    case more
    have "unat (fs_FileSize (file_status s' i)) \<le> unat (df_MaxFileSize (dest_file s' i))"
      using more(2) unat_u32_less [of "df_MaxFileSize (dest_file s i)"]
      by (simp add: more(3) dest unat_word_ariths unat_of_nat take_bit_eq_mod)
    then show ?thesis using more(1) size by blast
  next
    case new
    then show ?thesis using size by blast
  qed
qed


section \<open>The age of a file\<close>

lemma status_CloseDest:
  assumes "DS_FileCloseDest env i s tr = (s', tr')"
  shows "ds_FileStatus s' = (ds_FileStatus s)[i := (ds_FileStatus s ! i)
    \<lparr>fs_FileHandle := None, fs_FileAge := 0, fs_FileSize := 0, fs_FileName := []\<rparr>] \<and> dest_file s' = dest_file s"
  using assms by (auto simp: DS_FileCloseDest_def Let_def split: prod.splits)

lemma status_UpdateHeader:
  assumes "DS_FileUpdateHeader env i s tr = (s', tr')"
  shows "ds_FileStatus s' = ds_FileStatus s \<and> dest_file s' = dest_file s"
  using assms by (auto simp: DS_FileUpdateHeader_def Let_def dest_file_def fun_eq_iff split: if_splits prod.splits)

text \<open>What one housekeeping request makes of the status of a file.\<close>

definition aged :: "u32 \<Rightarrow> DS_DestFileEntry \<Rightarrow> DS_AppFileStatus \<Rightarrow> DS_AppFileStatus" where
  "aged secs df fs =
     (if fs_FileHandle fs = None then fs
      else if df_MaxFileAge df \<le> fs_FileAge fs + secs
      then fs\<lparr>fs_FileHandle := None, fs_FileAge := 0, fs_FileSize := 0, fs_FileName := []\<rparr>
      else fs\<lparr>fs_FileAge := fs_FileAge fs + secs\<rparr>)"

lemma test_age_loop_status:
  "distinct is \<Longrightarrow> \<forall>i\<in>set is. i < length (ds_FileStatus s) \<Longrightarrow> test_age_loop env secs is s tr = (s', tr') \<Longrightarrow>
   length (ds_FileStatus s') = length (ds_FileStatus s) \<and> dest_file s' = dest_file s \<and>
   (\<forall>i. ds_FileStatus s' ! i = (if i \<in> set is then aged secs (dest_file s i) (ds_FileStatus s ! i) else ds_FileStatus s ! i))"
proof (induction "is" arbitrary: s tr)
  case (Cons i js)
  let ?s1 = "set_status i (\<lambda>fs. fs\<lparr>fs_FileAge := fs_FileAge fs + secs\<rparr>) s"
  have i: "i < length (ds_FileStatus s)" "i \<notin> set js" "distinct js" "\<forall>j\<in>set js. j < length (ds_FileStatus s)"
    using Cons.prems by simp_all
  have step: "length (ds_FileStatus s2) = length (ds_FileStatus s) \<Longrightarrow> dest_file s2 = dest_file s \<Longrightarrow>
     (\<forall>j. ds_FileStatus s2 ! j = (if j = i then aged secs (dest_file s i) (ds_FileStatus s ! i) else ds_FileStatus s ! j)) \<Longrightarrow>
     test_age_loop env secs js s2 tr2 = (s', tr') \<Longrightarrow> ?case" for s2 tr2
    using Cons.IH [OF i(3), of s2 tr2] i by auto
  show ?case
  proof (cases "fs_FileHandle (file_status s i) = None")
    case True
    then show ?thesis using Cons.prems(3) by (intro step [of s tr]) (auto simp: aged_def file_status_def)
  next
    case False
    show ?thesis
    proof (cases "fs_FileAge (file_status ?s1 i) \<ge> df_MaxFileAge (dest_file ?s1 i)")
      case young: False
      then show ?thesis using Cons.prems(3) False i
        by (intro step [of ?s1 tr]) (auto simp: aged_def file_status_def)
    next
      case True
      obtain s2 tr2 where 2: "DS_FileUpdateHeader env i ?s1 tr = (s2, tr2)" by force
      obtain s3 tr3 where 3: "DS_FileCloseDest env i s2 tr2 = (s3, tr3)" by force
      have run: "test_age_loop env secs js s3 tr3 = (s', tr')" using Cons.prems(3) False True 2 3 by simp
      from status_UpdateHeader [OF 2] status_CloseDest [OF 3] show ?thesis
        using True False i by (intro step [OF _ _ _ run]) (auto simp: aged_def file_status_def)
    qed
  qed
qed simp

text \<open>C30. A housekeeping request ages every open file by the seconds of a cycle and closes exactly those whose age is then at or above the limit of their table entry, so a file that is still open afterwards is younger than its limit. Requirement DS3002 and the comment in the code speak of files that exceed the limit; at equality the code closes one cycle earlier.\<close>

theorem age_limit:
  assumes "length (ds_FileStatus s) = DS_DEST_FILE_CNT" "ds_DestFileTbl s \<noteq> None" "i < DS_DEST_FILE_CNT"
    "DS_FileTestAge env secs s tr = (s', tr')"
  shows "fs_FileHandle (file_status s' i) = (if df_MaxFileAge (dest_file s i) \<le> fs_FileAge (file_status s i) + secs
      then None else fs_FileHandle (file_status s i)) \<and>
    (fs_FileHandle (file_status s' i) \<noteq> None \<longrightarrow> fs_FileAge (file_status s' i) = fs_FileAge (file_status s i) + secs \<and>
       fs_FileAge (file_status s' i) < df_MaxFileAge (dest_file s' i))"
proof -
  have "test_age_loop env secs [0..<DS_DEST_FILE_CNT] s tr = (s', tr')"
    using assms(2,4) by (simp add: DS_FileTestAge_def)
  from test_age_loop_status [OF _ _ this] assms(1,3) show ?thesis
    by (auto simp: aged_def file_status_def not_le)
qed

end
