(* ===== verification/Ds_Filter.thy ===== *)
theory Ds_Filter
  imports Ds_App Decimal
begin

text \<open>What the packet filter lets through and how the sequence number of a file name reads.\<close>

section \<open>The filter\<close>

lemma filter_passes:
  "\<not> DS_IsPacketFiltered env buf FilterType N X Off \<longleftrightarrow>
     N \<noteq> 0 \<and> N \<le> X \<and> Off < X \<and> DS_TableVerifyType FilterType \<and>
     Off \<le> packet_value env buf FilterType \<and>
     (unat (packet_value env buf FilterType) - unat Off) mod unat X < unat N"
proof -
  have ty: "DS_TableVerifyType FilterType \<longleftrightarrow>
      FilterType = DS_PKT_TIME_BASED_FILTER_TYPE \<or> FilterType = DS_PKT_SEQUENCE_BASED_FILTER_TYPE"
    by (auto simp: DS_TableVerifyType_def DS_BY_COUNT_def DS_BY_TIME_def DS_PKT_TIME_BASED_FILTER_TYPE_def
        DS_PKT_SEQUENCE_BASED_FILTER_TYPE_def)
  have rem: "(uint v - uint Off) mod uint X < uint N \<longleftrightarrow> (unat v - unat Off) mod unat X < unat N" if "Off \<le> v" for v
  proof -
    from that have le: "unat Off \<le> unat v" by (simp add: word_le_nat_alt)
    have "uint v - uint Off = int (unat v - unat Off)"
      using le by (simp add: of_nat_diff flip: uint_nat)
    then have *: "(uint v - uint Off) mod uint X = int ((unat v - unat Off) mod unat X)"
      by (simp add: zmod_int flip: uint_nat)
    show ?thesis by (simp only: * uint_nat [of N] of_nat_less_iff)
  qed
  show ?thesis
    unfolding DS_IsPacketFiltered_def ty using rem
    by (auto simp: Let_def not_le not_less word_gt_0)
qed

text \<open>C29. With parameters that the table validation accepts, of every X consecutive sequence counts from the offset on exactly N pass the filter: the first N of each group of X.\<close>

theorem filter_n_of_x:
  assumes parms: "DS_TableVerifyParms N X Off"
    and count: "\<forall>v<65536. de_SeqCnt env (buf v) = of_nat v"
    and range: "unat Off + (j + 1) * unat X \<le> 65536"
  shows "{v. unat Off + j * unat X \<le> v \<and> v < unat Off + (j + 1) * unat X \<and>
      \<not> DS_IsPacketFiltered env (buf v) DS_BY_COUNT N X Off} =
    {unat Off + j * unat X ..< unat Off + j * unat X + unat N}"
proof -
  have NX: "unat N \<le> unat X"
    using parms by (auto simp: DS_TableVerifyParms_def word_le_nat_alt not_less split: if_splits)
  have pass: "\<not> DS_IsPacketFiltered env (buf v) DS_BY_COUNT N X Off \<longleftrightarrow> v < unat Off + j * unat X + unat N"
    if v: "unat Off + j * unat X \<le> v" "v < unat Off + (j + 1) * unat X" for v
  proof -
    have v16: "v < 65536" using v(2) range by simp
    then have val: "packet_value env (buf v) DS_BY_COUNT = of_nat v" "unat (of_nat v :: u16) = v"
      using count by (simp_all add: packet_value_def DS_BY_COUNT_def DS_PKT_SEQUENCE_BASED_FILTER_TYPE_def
          unat_of_nat take_bit_eq_mod)
    define r where "r = v - unat Off - j * unat X"
    have r: "v - unat Off = j * unat X + r" "r < unat X" "v = unat Off + j * unat X + r" using v by (simp_all add: r_def)
    then have X: "X \<noteq> 0" by auto
    then have Off: "Off < X" "N \<le> X" using parms by (auto simp: DS_TableVerifyParms_def not_le not_less split: if_splits)
    have "(v - unat Off) mod unat X = r" using r by simp
    moreover have "Off \<le> of_nat v" using v val by (simp add: word_le_nat_alt)
    moreover have "v < unat Off + j * unat X + unat N \<longleftrightarrow> r < unat N" using r(3) by linarith
    ultimately show ?thesis
      unfolding filter_passes val using Off by (auto simp: DS_TableVerifyType_def)
  qed
  show ?thesis
  proof (intro set_eqI)
    fix v
    show "v \<in> {v. unat Off + j * unat X \<le> v \<and> v < unat Off + (j + 1) * unat X \<and>
        \<not> DS_IsPacketFiltered env (buf v) DS_BY_COUNT N X Off} \<longleftrightarrow>
      v \<in> {unat Off + j * unat X ..< unat Off + j * unat X + unat N}"
      using pass [of v] NX by (auto simp: add_mult_distrib)
  qed
qed

section \<open>The sequence number\<close>

definition digits_nat :: "u8 list \<Rightarrow> nat" where
  "digits_nat ds = foldl (\<lambda>v b. 10 * v + (unat b - 0x30)) 0 ds"

lemma digits_nat_snoc [simp]: "digits_nat (ds @ [b]) = 10 * digits_nat ds + (unat b - 0x30)"
  by (simp add: digits_nat_def)

lemma sequence_digit: "unat (0x30 + ucast (c mod 10) :: u8) = 0x30 + unat (c mod 10 :: u32)"
proof -
  have "unat (c mod 10) < 10" by (simp add: unat_mod_distrib)
  then have "unat (ucast (c mod 10) :: u8) = unat (c mod 10)" by (simp add: unsigned_ucast_eq take_bit_eq_mod)
  then show ?thesis using \<open>unat (c mod 10) < 10\<close> by (simp add: unat_word_ariths)
qed

lemma sequence_digits_value:
  "\<exists>ds. sequence_digits n c rest = ds @ rest \<and> length ds = n \<and> digits_nat ds = unat c mod 10 ^ n \<and>
     (\<forall>b\<in>set ds. 0x30 \<le> b \<and> b \<le> 0x39)"
proof (induction n arbitrary: c rest)
  case 0
  show ?case by (simp add: digits_nat_def)
next
  case (Suc n)
  let ?b = "0x30 + ucast (c mod 10) :: u8"
  obtain ds where ds: "sequence_digits n (c div 10) (?b # rest) = ds @ ?b # rest" "length ds = n"
    "digits_nat ds = unat (c div 10) mod 10 ^ n" "\<forall>b\<in>set ds. 0x30 \<le> b \<and> b \<le> 0x39"
    using Suc.IH by blast
  have lt: "unat (c mod 10) < 10" by (simp add: unat_mod_distrib)
  have "digits_nat (ds @ [?b]) = 10 * (unat c div 10 mod 10 ^ n) + unat c mod 10"
    using ds(3) by (simp add: sequence_digit unat_div_distrib unat_mod_distrib)
  also have "\<dots> = unat c mod 10 ^ Suc n" by (simp add: mod_mult2_eq)
  finally have "digits_nat (ds @ [?b]) = unat c mod 10 ^ Suc n" .
  moreover have "0x30 \<le> ?b \<and> ?b \<le> 0x39" using sequence_digit [of c] lt by (simp add: word_le_nat_alt)
  ultimately show ?case using ds by (intro exI [of _ "ds @ [?b]"]) auto
qed

text \<open>The sequence number in a file name is eight decimal digits that read as the file count, modulo 100000000.\<close>

theorem sequence_number:
  "length (DS_FileCreateSequence env DS_BY_COUNT c tr) = 8 \<and>
   digits_nat (DS_FileCreateSequence env DS_BY_COUNT c tr) = unat c mod 100000000 \<and>
   list_all (\<lambda>b. 0x30 \<le> b \<and> b \<le> 0x39) (DS_FileCreateSequence env DS_BY_COUNT c tr)"
  using sequence_digits_value [of 8 c "[]"]
  by (auto simp: DS_FileCreateSequence_def DS_SEQUENCE_DIGITS_def list_all_iff)

end
