(* ===== verification/Ds_Run.thy ===== *)
theory Ds_Run
  imports Ds_Hash Ds_Files
begin

text \<open>
  The whole application: an invariant over its tables, its hash table and its files, kept by every
  message but ADD MID, under which every message is handled to its end.
\<close>

section \<open>The invariant\<close>

definition filter_shape :: "DS_FilterTable \<Rightarrow> bool" where
  "filter_shape t \<longleftrightarrow> length (ft_Packet t) = DS_PACKETS_IN_FILTER_TABLE \<and>
     (\<forall>pe\<in>set (ft_Packet t). length (pe_Filter pe) = DS_FILTERS_PER_PACKET)"

definition dest_shape :: "DS_DestFileTable \<Rightarrow> bool" where
  "dest_shape t \<longleftrightarrow> length (dt_File t) = DS_DEST_FILE_CNT"

text \<open>The hash table is empty or it is that of the filter table.\<close>

definition lookup_ok :: "DS_AppData \<Rightarrow> bool" where
  "lookup_ok s \<longleftrightarrow> ds_HashTable s = replicate DS_HASH_TABLE_ENTRIES None \<or>
     (\<exists>t. ds_FilterTbl s = Some t \<and> hash_ok (ft_Packet t) DS_PACKETS_IN_FILTER_TABLE s)"

definition ds_tables_ok :: "DS_AppData \<Rightarrow> bool" where
  "ds_tables_ok s \<longleftrightarrow> (\<forall>t. ds_FilterTbl s = Some t \<longrightarrow> filter_shape t) \<and> (\<forall>t. ds_DestFileTbl s = Some t \<longrightarrow> dest_shape t) \<and>
     lookup_ok s"

definition ds_ok :: "Ds_Env \<Rightarrow> DS_AppData \<Rightarrow> Cfs_Trace \<Rightarrow> bool" where
  "ds_ok env s tr \<longleftrightarrow> files_ok env {} (ds_FileStatus s) tr \<and> ds_tables_ok s \<and>
     (\<forall>i<DS_DEST_FILE_CNT. fs_FileHandle (file_status s i) \<noteq> None \<longrightarrow> ds_DestFileTbl s \<noteq> None)"

text \<open>
  The documented behaviour that is used: a handle that \<open>OS_OpenCreate\<close> gives is not in use; a table
  has its size; the address of a table is not NULL when \<open>CFE_TBL_GetAddress\<close> says that the table was
  updated, nor after an update is pending; what is restored from the critical data store has its size.
\<close>

definition table_loaded :: "Ds_Env \<Rightarrow> Cfs_Table \<Rightarrow> (Cfs_Trace \<Rightarrow> 't option) \<Rightarrow> bool" where
  "table_loaded env h contents \<longleftrightarrow>
     (\<forall>tr. cf_svc (de_cfs env) tr (Cfs_TBL_GetAddress h) = CFE_TBL_INFO_UPDATED \<longrightarrow>
        contents (tr @ [Cfs_Svc (Cfs_TBL_GetAddress h) CFE_TBL_INFO_UPDATED]) \<noteq> None) \<and>
     (\<forall>tr tr'. cf_svc (de_cfs env) tr (Cfs_TBL_GetStatus h) = CFE_TBL_INFO_UPDATE_PENDING \<longrightarrow>
        contents (tr @ Cfs_Svc (Cfs_TBL_GetStatus h) CFE_TBL_INFO_UPDATE_PENDING # tr') \<noteq> None)"

definition ds_env_ok :: "Ds_Env \<Rightarrow> bool" where
  "ds_env_ok env \<longleftrightarrow> open_fresh env \<and>
     (\<forall>tr t. de_DestTable env tr = Some t \<longrightarrow> dest_shape t) \<and> (\<forall>tr t. de_FilterTable env tr = Some t \<longrightarrow> filter_shape t) \<and>
     table_loaded env DS_DestFile_Handle (de_DestTable env) \<and> table_loaded env DS_Filter_Handle (de_FilterTable env) \<and>
     (\<forall>tr. length (de_CdsData env tr) = DS_DEST_FILE_CNT + 1)"

lemma hash_ok_frame:
  "ds_HashLinks s' = ds_HashLinks s \<Longrightarrow> ds_HashTable s' = ds_HashTable s \<Longrightarrow> hash_ok ps n s' \<longleftrightarrow> hash_ok ps n s"
  by (simp add: hash_ok_def)

lemma tables_ok_frame:
  assumes "ds_FilterTbl s' = ds_FilterTbl s" "ds_DestFileTbl s' = ds_DestFileTbl s"
    "ds_HashLinks s' = ds_HashLinks s" "ds_HashTable s' = ds_HashTable s"
  shows "ds_tables_ok s' \<longleftrightarrow> ds_tables_ok s"
  using assms hash_ok_frame [OF assms(3,4)] by (simp add: ds_tables_ok_def lookup_ok_def)

lemma ds_ok_same:
  assumes "ds_ok env s tr" "ds_FilterTbl s' = ds_FilterTbl s" "ds_DestFileTbl s' = ds_DestFileTbl s"
    "ds_HashLinks s' = ds_HashLinks s" "ds_HashTable s' = ds_HashTable s" "ds_FileStatus s' = ds_FileStatus s"
    "opened tr' = opened tr"
  shows "ds_ok env s' tr'"
  using assms tables_ok_frame [OF assms(2-5)] files_ok_opened [OF assms(7)] by (simp add: ds_ok_def file_status_def)

lemma ds_ok_files:
  assumes "ds_ok env s tr" "files_ok env {} (ds_FileStatus s') tr'" "ds_frame s' = ds_frame s"
    "ds_DestFileTbl s \<noteq> None \<or> (\<forall>i<DS_DEST_FILE_CNT. fs_FileHandle (file_status s' i) = fs_FileHandle (file_status s i))"
  shows "ds_ok env s' tr'"
proof -
  have fr: "ds_FilterTbl s' = ds_FilterTbl s" "ds_DestFileTbl s' = ds_DestFileTbl s"
    "ds_HashLinks s' = ds_HashLinks s" "ds_HashTable s' = ds_HashTable s"
    using assms(3) by (simp_all add: ds_frame_def)
  then show ?thesis using assms tables_ok_frame [OF fr] by (auto simp: ds_ok_def)
qed

lemma lookup_returns:
  assumes "ds_tables_ok s"
  obtains "DS_TableFindMsgID mid s = Returns None"
  | k t where "DS_TableFindMsgID mid s = Returns (Some k)" "ds_FilterTbl s = Some t" "k < DS_PACKETS_IN_FILTER_TABLE"
      "filter_shape t" "pe_MessageID (ft_Packet t ! k) = mid" "hash_ok (ft_Packet t) DS_PACKETS_IN_FILTER_TABLE s"
proof -
  from assms consider (empty) "ds_HashTable s = replicate DS_HASH_TABLE_ENTRIES None"
    | (full) t where "ds_FilterTbl s = Some t" "hash_ok (ft_Packet t) DS_PACKETS_IN_FILTER_TABLE s" "filter_shape t"
    by (auto simp: ds_tables_ok_def lookup_ok_def)
  then show thesis
  proof cases
    case empty
    then show ?thesis using hash_less [of mid] that(1) by (simp add: DS_TableFindMsgID_def)
  next
    case full
    note look = hash_lookup [OF full(2,1) refl, of mid]
    show ?thesis
    proof (cases "linear_find (ft_Packet t) mid DS_PACKETS_IN_FILTER_TABLE")
      case None
      then show ?thesis using look that(1) by simp
    next
      case (Some k)
      then have "k < DS_PACKETS_IN_FILTER_TABLE" "pe_MessageID (ft_Packet t ! k) = mid"
        unfolding linear_find_def by (auto dest: find_SomeD)
      then show ?thesis using look that(2) [of k t] Some full by simp
    qed
  qed
qed

section \<open>Tables\<close>

lemma opened_foldl: "(\<And>tr x. opened (f tr x) = opened tr) \<Longrightarrow> opened (foldl f tr xs) = opened tr"
  by (induction xs arbitrary: tr) auto

lemma opened_Subscribe [simp]: "opened (DS_TableSubscribe env t tr) = opened tr"
  unfolding DS_TableSubscribe_def by (rule opened_foldl) simp

lemma opened_Unsubscribe [simp]: "opened (DS_TableUnsubscribe env t tr) = opened tr"
  unfolding DS_TableUnsubscribe_def by (rule opened_foldl) simp

lemma files_ok_map:
  assumes ok: "files_ok env X fss tr" and len: "length fss' = DS_DEST_FILE_CNT"
    and same: "\<And>i. i < DS_DEST_FILE_CNT \<Longrightarrow> fs_FileHandle (fss' ! i) = fs_FileHandle (fss ! i) \<and>
      fs_FileName (fss' ! i) = fs_FileName (fss ! i) \<and> fs_FileSize (fss' ! i) = fs_FileSize (fss ! i) \<and>
      fs_FileAge (fss' ! i) = fs_FileAge (fss ! i)"
  shows "files_ok env X fss' tr"
proof -
  have "dest_slot_ok env b (fss' ! i) tr \<longleftrightarrow> dest_slot_ok env b (fss ! i) tr" if "i < DS_DEST_FILE_CNT" for i b
    using same [OF that] by (cases "fs_FileHandle (fss ! i)") (simp_all add: dest_slot_ok_def)
  moreover have "fs_FileHandle (fss' ! i) = fs_FileHandle (fss ! i)" if "i < DS_DEST_FILE_CNT" for i
    using same [OF that] by simp
  ultimately show ?thesis using ok len unfolding files_ok_def by metis
qed

lemma ds_ok_map:
  assumes ok: "ds_ok env s tr" and len: "length (ds_FileStatus s') = DS_DEST_FILE_CNT"
    and fr: "ds_frame s' = ds_frame s" and op: "opened tr' = opened tr"
    and same: "\<And>i. i < DS_DEST_FILE_CNT \<Longrightarrow> fs_FileHandle (ds_FileStatus s' ! i) = fs_FileHandle (ds_FileStatus s ! i) \<and>
      fs_FileName (ds_FileStatus s' ! i) = fs_FileName (ds_FileStatus s ! i) \<and>
      fs_FileSize (ds_FileStatus s' ! i) = fs_FileSize (ds_FileStatus s ! i) \<and>
      fs_FileAge (ds_FileStatus s' ! i) = fs_FileAge (ds_FileStatus s ! i)"
  shows "ds_ok env s' tr'"
proof (rule ds_ok_files [OF ok _ fr])
  have "files_ok env {} (ds_FileStatus s) tr" using ok by (simp add: ds_ok_def)
  from files_ok_map [OF this len same] show "files_ok env {} (ds_FileStatus s') tr'" by (simp add: files_ok_opened [OF op])
  show "ds_DestFileTbl s \<noteq> None \<or> (\<forall>i<DS_DEST_FILE_CNT. fs_FileHandle (file_status s' i) = fs_FileHandle (file_status s i))"
    using same by (simp add: file_status_def)
qed


text \<open>A step that ends, with the invariant.\<close>

definition runs_ok :: "Ds_Env \<Rightarrow> (DS_AppData \<times> Cfs_Trace) run \<Rightarrow> bool" where
  "runs_ok env r \<longleftrightarrow> (\<exists>s' tr'. r = Returns (s', tr') \<and> ds_ok env s' tr')"

lemma runs_okI: "ds_ok env s tr \<Longrightarrow> runs_ok env (Returns (s, tr))"
  by (simp add: runs_ok_def)

lemma runs_ok_pair: "ds_ok env (fst p) (snd p) \<Longrightarrow> runs_ok env (Returns p)"
  by (cases p) (simp add: runs_ok_def)

lemma runs_ok_bind:
  assumes "runs_ok env r" "\<And>s' tr'. ds_ok env s' tr' \<Longrightarrow> runs_ok env (f (s', tr'))"
  shows "runs_ok env (run_bind r f)"
  using assms unfolding runs_ok_def by auto

lemma ds_ok_new_dest:
  assumes "ds_ok env s tr" "dest_shape t" "opened tr' = opened tr"
    "ds_FilterTbl s' = ds_FilterTbl s" "ds_DestFileTbl s' = Some t"
    "ds_HashLinks s' = ds_HashLinks s" "ds_HashTable s' = ds_HashTable s" "ds_FileStatus s' = ds_FileStatus s"
  shows "ds_ok env s' tr'"
  using assms hash_ok_frame [OF assms(6,7)] files_ok_opened [OF assms(3)]
  by (simp add: ds_ok_def ds_tables_ok_def lookup_ok_def)

lemma adopt_dest_ok:
  assumes ok: "ds_ok env s tr" and t: "ds_DestFileTbl s = Some t" "dest_shape t"
  shows "runs_ok env (adopt_dest_table env s tr)"
proof -
  let ?s = "s\<lparr>ds_FileStatus := map2 (\<lambda>fs df. fs\<lparr>fs_FileState := df_EnableState df, fs_FileCount := df_SequenceCount df\<rparr>)
            (ds_FileStatus s) (dt_File t)\<rparr>"
  obtain s' tr' where run: "DS_TableUpdateCDS env ?s tr = (s', tr')" by force
  have len: "length (ds_FileStatus s) = DS_DEST_FILE_CNT" using ok files_ok_length by (auto simp: ds_ok_def)
  have fr: "ds_FileStatus s' = ds_FileStatus ?s" "ds_frame s' = ds_frame s" "opened tr' = opened tr"
    using files_UpdateCDS [OF run] by (simp_all add: ds_frame_def)
  have "ds_ok env s' tr'"
    by (rule ds_ok_map [OF ok _ fr(2,3)]) (use fr(1) len t(2) in \<open>simp_all add: dest_shape_def\<close>)
  then show ?thesis using run t by (simp add: adopt_dest_table_def runs_ok_def)
qed

lemma ds_env_okD:
  assumes "ds_env_ok env"
  shows "open_fresh env" "de_DestTable env tr = Some t \<Longrightarrow> dest_shape t" "de_FilterTable env tr = Some ft \<Longrightarrow> filter_shape ft"
    "table_loaded env DS_DestFile_Handle (de_DestTable env)" "table_loaded env DS_Filter_Handle (de_FilterTable env)"
    "length (de_CdsData env tr) = DS_DEST_FILE_CNT + 1"
  using assms by (simp_all add: ds_env_ok_def)

lemma table_updated:
  assumes "table_loaded env h contents" "ds_call env (Cfs_TBL_GetAddress h) tr = (CFE_TBL_INFO_UPDATED, tr')"
  obtains t where "contents tr' = Some t"
  using assms by (auto simp: table_loaded_def ds_call_def cfs_call_def)

lemma table_pending:
  assumes "table_loaded env h contents" "ds_call env (Cfs_TBL_GetStatus h) tr = (CFE_TBL_INFO_UPDATE_PENDING, tr')"
  shows "\<exists>t. contents (tr' @ added) = Some t"
  using assms by (auto simp: table_loaded_def ds_call_def cfs_call_def)

text \<open>What a sequence of calls appends.\<close>

lemma ds_do_appends: "\<exists>added. ds_do env v tr = tr @ added"
  by (simp add: ds_do_def ds_call_def cfs_call_def)

lemma ManageDestFile_ok:
  assumes env: "ds_env_ok env" and ok: "ds_ok env s tr"
  shows "runs_ok env (DS_TableManageDestFile env s tr)"
proof (cases "ds_DestFileTbl s")
  case None
  let ?tr = "ds_do env (Cfs_TBL_Manage DS_DestFile_Handle) (ds_do env (Cfs_TBL_ReleaseAddress DS_DestFile_Handle) tr)"
  obtain result tr1 where call: "ds_call env (Cfs_TBL_GetAddress DS_DestFile_Handle) ?tr = (result, tr1)" by force
  then have op: "opened tr1 = opened tr" using opened_call by fastforce
  let ?s1 = "s\<lparr>ds_DestFileTbl := de_DestTable env tr1\<rparr>"
  have ok1: "ds_ok env (?s1\<lparr>ds_DestTblLoadCounter := n\<rparr>) tr1" "ds_ok env ?s1 tr1" for n
  proof -
    have "ds_ok env s' tr1" if "ds_DestFileTbl s' = de_DestTable env tr1" "ds_FilterTbl s' = ds_FilterTbl s"
      "ds_HashLinks s' = ds_HashLinks s" "ds_HashTable s' = ds_HashTable s" "ds_FileStatus s' = ds_FileStatus s" for s'
    proof (cases "de_DestTable env tr1")
      case None
      show ?thesis by (rule ds_ok_same [OF ok]) (use that None \<open>ds_DestFileTbl s = None\<close> op in simp_all)
    next
      case (Some t)
      show ?thesis by (rule ds_ok_new_dest [OF ok ds_env_okD(2) [OF env Some] op]) (use that Some in simp_all)
    qed
    then show "ds_ok env (?s1\<lparr>ds_DestTblLoadCounter := n\<rparr>) tr1" "ds_ok env ?s1 tr1" by simp_all
  qed
  have err: "ds_ok env (s\<lparr>ds_DestTblErrCounter := n, ds_DestFileTbl := None\<rparr>) tr1" for n
    by (rule ds_ok_same [OF ok]) (use None op in simp_all)
  show ?thesis
  proof (cases "result = CFE_TBL_INFO_UPDATED")
    case True
    then obtain t where t: "de_DestTable env tr1 = Some t" using table_updated [OF ds_env_okD(4) [OF env]] call by metis
    have "runs_ok env (adopt_dest_table env (?s1\<lparr>ds_DestTblLoadCounter := ds_DestTblLoadCounter ?s1 + 1\<rparr>) tr1)"
      by (rule adopt_dest_ok [OF ok1(1)]) (use t ds_env_okD(2) [OF env t] in simp_all)
    then show ?thesis using None call True by (simp add: DS_TableManageDestFile_def)
  next
    case False
    then show ?thesis using None call ok1(2) err by (auto simp: DS_TableManageDestFile_def Let_def intro: runs_okI)
  qed
next
  case (Some old)
  obtain result tr1 where call: "ds_call env (Cfs_TBL_GetStatus DS_DestFile_Handle) tr = (result, tr1)" by force
  then have op: "opened tr1 = opened tr" by (rule opened_call)
  let ?tr = "ds_do env (Cfs_TBL_GetAddress DS_DestFile_Handle) (ds_do env (Cfs_TBL_Update DS_DestFile_Handle)
     (ds_do env (Cfs_TBL_ReleaseAddress DS_DestFile_Handle) tr1))"
  let ?s1 = "s\<lparr>ds_DestTblLoadCounter := ds_DestTblLoadCounter s + 1, ds_DestFileTbl := de_DestTable env ?tr\<rparr>"
  show ?thesis
  proof (cases "result = CFE_TBL_INFO_UPDATE_PENDING")
    case True
    obtain added where "?tr = tr1 @ added" using ds_do_appends by (metis append.assoc)
    then obtain t where t: "de_DestTable env ?tr = Some t"
      using table_pending [OF ds_env_okD(4) [OF env]] call True by metis
    have "ds_ok env ?s1 ?tr" by (rule ds_ok_new_dest [OF ok ds_env_okD(2) [OF env t]]) (use t op in simp_all)
    then have "runs_ok env (adopt_dest_table env ?s1 ?tr)"
      by (rule adopt_dest_ok) (use t ds_env_okD(2) [OF env t] in simp_all)
    then show ?thesis using Some call True by (simp add: DS_TableManageDestFile_def Let_def)
  next
    case False
    have "ds_ok env s tr'" if "opened tr' = opened tr" for tr' by (rule ds_ok_same [OF ok]) (use that in simp_all)
    then show ?thesis using Some call False op by (auto simp: DS_TableManageDestFile_def intro!: runs_okI)
  qed
qed


text \<open>The filter table.\<close>

lemma ds_ok_new_filter:
  assumes "ds_ok env s tr" "filter_shape t" "opened tr' = opened tr" "ds_FilterTbl s' = Some t"
    "ds_DestFileTbl s' = ds_DestFileTbl s" "ds_FileStatus s' = ds_FileStatus s"
    "ds_HashTable s' = replicate DS_HASH_TABLE_ENTRIES None \<or> hash_ok (ft_Packet t) DS_PACKETS_IN_FILTER_TABLE s'"
  shows "ds_ok env s' tr'"
  using assms files_ok_opened [OF assms(3)]
  by (auto simp: ds_ok_def ds_tables_ok_def lookup_ok_def file_status_def)

lemma adopt_filter_ok:
  assumes ok: "ds_ok env s0 tr0" and t: "ds_FilterTbl s = Some t" "filter_shape t" and op: "opened tr = opened tr0"
    and same: "ds_DestFileTbl s = ds_DestFileTbl s0" "ds_FileStatus s = ds_FileStatus s0"
  shows "runs_ok env (adopt_filter_table env s tr)"
proof -
  obtain links tbl where h: "DS_TableCreateHash t s = Returns (s\<lparr>ds_HashLinks := links, ds_HashTable := tbl\<rparr>)"
    "hash_ok (ft_Packet t) DS_PACKETS_IN_FILTER_TABLE (s\<lparr>ds_HashLinks := links, ds_HashTable := tbl\<rparr>)"
    using create_hash [of t s] by metis
  have "ds_ok env (s\<lparr>ds_HashLinks := links, ds_HashTable := tbl\<rparr>) (DS_TableSubscribe env t tr)"
    by (rule ds_ok_new_filter [OF ok t(2)]) (use t op same h(2) in simp_all)
  then show ?thesis using h(1) t by (simp add: adopt_filter_table_def runs_ok_def)
qed

lemma Unsubscribe_appends: "\<exists>added. DS_TableUnsubscribe env t tr = tr @ added"
proof -
  have "\<exists>added. foldl (\<lambda>tr pe. if P pe then tr @ [Cfs_Unsubscribe (f pe)] else tr) tr pes = tr @ added" for P f and pes :: "DS_PacketEntry list"
    by (induction pes arbitrary: tr) (auto, metis append.assoc append_Cons append_Nil)
  then show ?thesis unfolding DS_TableUnsubscribe_def by (rule meta_spec)
qed

lemma ManageFilter_ok:
  assumes env: "ds_env_ok env" and ok: "ds_ok env s tr"
  shows "runs_ok env (DS_TableManageFilter env s tr)"
proof (cases "ds_FilterTbl s")
  case None
  let ?tr = "ds_do env (Cfs_TBL_Manage DS_Filter_Handle) (ds_do env (Cfs_TBL_ReleaseAddress DS_Filter_Handle) tr)"
  obtain result tr1 where call: "ds_call env (Cfs_TBL_GetAddress DS_Filter_Handle) ?tr = (result, tr1)" by force
  then have op: "opened tr1 = opened tr" using opened_call by fastforce
  have empty: "ds_HashTable s = replicate DS_HASH_TABLE_ENTRIES None"
    using ok None by (simp add: ds_ok_def ds_tables_ok_def lookup_ok_def)
  let ?s1 = "s\<lparr>ds_FilterTbl := de_FilterTable env tr1\<rparr>"
  have ok1: "ds_ok env ?s1 tr1"
  proof (cases "de_FilterTable env tr1")
    case None
    show ?thesis by (rule ds_ok_same [OF ok]) (use None \<open>ds_FilterTbl s = None\<close> op in simp_all)
  next
    case (Some t)
    show ?thesis by (rule ds_ok_new_filter [OF ok ds_env_okD(3) [OF env Some] op]) (use Some empty in simp_all)
  qed
  have err: "ds_ok env (s\<lparr>ds_FilterTblErrCounter := n, ds_FilterTbl := None\<rparr>) tr1" for n
    by (rule ds_ok_same [OF ok]) (use None op in simp_all)
  show ?thesis
  proof (cases "result = CFE_TBL_INFO_UPDATED")
    case True
    then obtain t where t: "de_FilterTable env tr1 = Some t" using table_updated [OF ds_env_okD(5) [OF env]] call by metis
    have "runs_ok env (adopt_filter_table env (?s1\<lparr>ds_FilterTblLoadCounter := ds_FilterTblLoadCounter ?s1 + 1\<rparr>) tr1)"
      by (rule adopt_filter_ok [OF ok _ ds_env_okD(3) [OF env t] op]) (use t in simp_all)
    then show ?thesis using None call True by (simp add: DS_TableManageFilter_def)
  next
    case False
    then show ?thesis using None call ok1 err by (auto simp: DS_TableManageFilter_def Let_def intro: runs_okI)
  qed
next
  case (Some old)
  obtain result tr1 where call: "ds_call env (Cfs_TBL_GetStatus DS_Filter_Handle) tr = (result, tr1)" by force
  then have op: "opened tr1 = opened tr" by (rule opened_call)
  let ?tr = "ds_do env (Cfs_TBL_GetAddress DS_Filter_Handle) (ds_do env (Cfs_TBL_Update DS_Filter_Handle)
     (ds_do env (Cfs_TBL_ReleaseAddress DS_Filter_Handle) (DS_TableUnsubscribe env old tr1)))"
  let ?s1 = "s\<lparr>ds_FilterTblLoadCounter := ds_FilterTblLoadCounter s + 1, ds_FilterTbl := de_FilterTable env ?tr\<rparr>"
  show ?thesis
  proof (cases "result = CFE_TBL_INFO_UPDATE_PENDING")
    case True
    obtain added where "?tr = tr1 @ added" using ds_do_appends Unsubscribe_appends by (metis append.assoc)
    then obtain t where t: "de_FilterTable env ?tr = Some t"
      using table_pending [OF ds_env_okD(5) [OF env]] call True by metis
    have "runs_ok env (adopt_filter_table env ?s1 ?tr)"
      by (rule adopt_filter_ok [OF ok _ ds_env_okD(3) [OF env t]]) (use t op in simp_all)
    then show ?thesis using Some call True by (simp add: DS_TableManageFilter_def Let_def)
  next
    case False
    have "ds_ok env s tr'" if "opened tr' = opened tr" for tr' by (rule ds_ok_same [OF ok]) (use that in simp_all)
    then show ?thesis using Some call False op by (auto simp: DS_TableManageFilter_def intro!: runs_okI)
  qed
qed

section \<open>Commands\<close>

lemma ds_accept_ok: "ds_ok env s tr \<Longrightarrow> ds_ok env (fst (ds_accept eid s tr)) (snd (ds_accept eid s tr))"
  by (erule ds_ok_same) (simp_all add: ds_accept_def)

lemma ds_reject_ok: "ds_ok env s tr \<Longrightarrow> ds_ok env (fst (ds_reject eid s tr)) (snd (ds_reject eid s tr))"
  by (erule ds_ok_same) (simp_all add: ds_reject_def)

lemma accept_runs: "ds_ok env s tr \<Longrightarrow> runs_ok env (Returns (ds_accept eid s tr))"
  by (rule runs_ok_pair [OF ds_accept_ok])

lemma reject_runs: "ds_ok env s tr \<Longrightarrow> runs_ok env (Returns (ds_reject eid s tr))"
  by (rule runs_ok_pair [OF ds_reject_ok])

lemma ds_ok_do: "ds_ok env s tr \<Longrightarrow> ds_ok env s (ds_do env v tr)"
  by (erule ds_ok_same) simp_all

lemma lookup_run:
  assumes "ds_ok env s tr" "runs_ok env (f None)" "\<And>k t. ds_FilterTbl s = Some t \<Longrightarrow> filter_shape t \<Longrightarrow>
    k < DS_PACKETS_IN_FILTER_TABLE \<Longrightarrow> pe_MessageID (ft_Packet t ! k) = mid \<Longrightarrow>
    hash_ok (ft_Packet t) DS_PACKETS_IN_FILTER_TABLE s \<Longrightarrow> runs_ok env (f (Some k))"
  shows "runs_ok env (run_bind (DS_TableFindMsgID mid s) f)"
proof -
  from assms(1) have "ds_tables_ok s" by (simp add: ds_ok_def)
  then show ?thesis by (rule lookup_returns [of s mid]) (use assms(2,3) in simp_all)
qed

lemma bucket_cong:
  "(\<And>i. i < n \<Longrightarrow> pe_MessageID (ps' ! i) = pe_MessageID (ps ! i)) \<Longrightarrow> bucket ps' h n = bucket ps h n"
  unfolding bucket_def by (rule filter_cong) simp_all

text \<open>A change of the filters of one entry.\<close>

lemma set_filter_ok:
  assumes ok: "ds_ok env s tr" and t: "ds_FilterTbl s = Some t" and k: "k < DS_PACKETS_IN_FILTER_TABLE"
    and f: "\<And>pe. pe_MessageID (f pe) = pe_MessageID pe"
      "\<And>pe. length (pe_Filter pe) = DS_FILTERS_PER_PACKET \<Longrightarrow> length (pe_Filter (f pe)) = DS_FILTERS_PER_PACKET"
  shows "ds_ok env (set_packet k f s) tr"
proof -
  let ?t = "t\<lparr>ft_Packet := (ft_Packet t)[k := f (ft_Packet t ! k)]\<rparr>"
  have shape: "filter_shape t" using ok t by (simp add: ds_ok_def ds_tables_ok_def)
  then have "filter_shape ?t" using f(2) k by (auto simp: filter_shape_def dest!: set_update_subset_insert [THEN subsetD])
  moreover have "bucket (ft_Packet ?t) h DS_PACKETS_IN_FILTER_TABLE = bucket (ft_Packet t) h DS_PACKETS_IN_FILTER_TABLE" for h
    by (rule bucket_cong) (use f(1) k shape in \<open>auto simp: nth_list_update filter_shape_def\<close>)
  then have "hash_ok (ft_Packet ?t) DS_PACKETS_IN_FILTER_TABLE (set_packet k f s) \<longleftrightarrow> hash_ok (ft_Packet t) DS_PACKETS_IN_FILTER_TABLE s"
    by (simp add: hash_ok_def)
  moreover have "lookup_ok s" using ok by (simp add: ds_ok_def ds_tables_ok_def)
  ultimately have "ds_HashTable (set_packet k f s) = replicate DS_HASH_TABLE_ENTRIES None \<or>
     hash_ok (ft_Packet ?t) DS_PACKETS_IN_FILTER_TABLE (set_packet k f s)"
    using t by (auto simp: lookup_ok_def)
  with \<open>filter_shape ?t\<close> show ?thesis
    by (intro ds_ok_new_filter [OF ok _ refl, where t = ?t]) (use t in \<open>simp_all add: set_packet_def\<close>)
qed

lemma set_filter_parms_ok:
  "ds_ok env s tr \<Longrightarrow> ds_FilterTbl s = Some t \<Longrightarrow> k < DS_PACKETS_IN_FILTER_TABLE \<Longrightarrow> ds_ok env (set_filter k j f s) tr"
  unfolding set_filter_def by (rule set_filter_ok) simp_all

lemma filter_commands_ok:
  assumes ok: "ds_ok env s tr"
  shows "runs_ok env (DS_SetFilterFileCmd env buf s tr)" "runs_ok env (DS_SetFilterTypeCmd env buf s tr)"
    "runs_ok env (DS_SetFilterParmsCmd env buf s tr)"
proof -
  have rej: "runs_ok env (Returns (ds_reject eid s tr))" for eid by (rule reject_runs [OF ok])
  have acc: "runs_ok env (run_bind (DS_TableFindMsgID mid s) (\<lambda>found. case found of
     None \<Rightarrow> Returns (ds_reject e1 s tr)
   | Some k \<Rightarrow> Returns (ds_accept e2 (set_filter k j f s) (ds_do env v tr))))" for mid e1 e2 j f v
    by (rule lookup_run [OF ok]) (use rej set_filter_parms_ok [OF ds_ok_do [OF ok]] in \<open>auto intro: accept_runs\<close>)
  show "runs_ok env (DS_SetFilterFileCmd env buf s tr)" unfolding DS_SetFilterFileCmd_def Let_def using rej acc by simp
  show "runs_ok env (DS_SetFilterTypeCmd env buf s tr)" unfolding DS_SetFilterTypeCmd_def Let_def using rej acc by simp
  show "runs_ok env (DS_SetFilterParmsCmd env buf s tr)" unfolding DS_SetFilterParmsCmd_def Let_def using rej acc by simp
qed


text \<open>Commands on destination files.\<close>

lemma set_dest_simps [simp]:
  "ds_FilterTbl (set_dest i f s) = ds_FilterTbl s" "ds_HashLinks (set_dest i f s) = ds_HashLinks s"
  "ds_HashTable (set_dest i f s) = ds_HashTable s" "ds_FileStatus (set_dest i f s) = ds_FileStatus s"
  by (simp_all add: set_dest_def)

lemma set_dest_ok:
  assumes ok: "ds_ok env s tr"
  shows "ds_ok env (set_dest i f s) tr"
proof (cases "ds_DestFileTbl s")
  case None
  show ?thesis by (rule ds_ok_same [OF ok]) (use None in \<open>simp_all add: set_dest_def\<close>)
next
  case (Some t)
  have "dest_shape t" using ok Some by (simp add: ds_ok_def ds_tables_ok_def)
  then have "dest_shape (t\<lparr>dt_File := (dt_File t)[i := f (dt_File t ! i)]\<rparr>)" by (simp add: dest_shape_def)
  from ds_ok_new_dest [OF ok this refl, of "set_dest i f s"] show ?thesis using Some by (simp add: set_dest_def)
qed

lemma set_state_ok:
  assumes ok: "ds_ok env s tr"
    and f: "\<And>fs. fs_FileHandle (f fs) = fs_FileHandle fs \<and> fs_FileName (f fs) = fs_FileName fs \<and>
      fs_FileSize (f fs) = fs_FileSize fs \<and> fs_FileAge (f fs) = fs_FileAge fs"
  shows "ds_ok env (set_status i f s) tr"
proof -
  have len: "length (ds_FileStatus s) = DS_DEST_FILE_CNT" using ok files_ok_length by (auto simp: ds_ok_def)
  have "ds_FileStatus s ! j = (ds_FileStatus s)[i := f (ds_FileStatus s ! i)] ! j \<or>
      (ds_FileStatus s)[i := f (ds_FileStatus s ! i)] ! j = f (ds_FileStatus s ! j)" for j
    by (cases "i = j"; cases "i < length (ds_FileStatus s)") (auto simp: list_update_beyond not_less)
  then show ?thesis by (intro ds_ok_map [OF ok]) (use len f in \<open>simp_all, metis\<close>)
qed

lemma UpdateCDS_ok:
  assumes ok: "ds_ok env s tr" and run: "DS_TableUpdateCDS env s tr = (s', tr')"
  shows "ds_ok env s' tr'"
proof -
  from files_UpdateCDS [OF run] have "ds_FileStatus s' = ds_FileStatus s" "ds_frame s' = ds_frame s" "opened tr' = opened tr" by simp_all
  then show ?thesis by (intro ds_ok_same [OF ok]) (simp_all add: ds_frame_def)
qed

lemma UpdateCDS_accept:
  assumes ok: "ds_ok env s tr"
  shows "runs_ok env (Returns (case DS_TableUpdateCDS env s tr of (s1, tr1) \<Rightarrow> ds_accept eid s1 tr1))"
  using UpdateCDS_ok [OF ok] by (auto intro: accept_runs split: prod.split)

lemma dest_commands_ok:
  assumes ok: "ds_ok env s tr"
  shows "runs_ok env (Returns (DS_SetDestTypeCmd env buf s tr))" "runs_ok env (Returns (DS_SetDestStateCmd env buf s tr))"
    "runs_ok env (Returns (DS_SetDestPathCmd env buf s tr))" "runs_ok env (Returns (DS_SetDestBaseCmd env buf s tr))"
    "runs_ok env (Returns (DS_SetDestExtCmd env buf s tr))" "runs_ok env (Returns (DS_SetDestSizeCmd env buf s tr))"
    "runs_ok env (Returns (DS_SetDestAgeCmd env buf s tr))" "runs_ok env (Returns (DS_SetDestCountCmd env buf s tr))"
proof -
  have rej: "runs_ok env (Returns (ds_reject eid s tr))" for eid by (rule reject_runs [OF ok])
  have acc: "runs_ok env (Returns (ds_accept eid (set_dest i f s) (ds_do env v tr)))" for eid i f v
    by (rule accept_runs [OF ds_ok_do [OF set_dest_ok [OF ok]]])
  have state: "ds_ok env (set_status j g (set_dest i f s)) (ds_do env v tr)"
    if "\<And>fs. fs_FileHandle (g fs) = fs_FileHandle fs \<and> fs_FileName (g fs) = fs_FileName fs \<and>
      fs_FileSize (g fs) = fs_FileSize fs \<and> fs_FileAge (g fs) = fs_FileAge fs" for j g i f v
    by (rule ds_ok_do [OF set_state_ok [OF set_dest_ok [OF ok] that]])
  show "runs_ok env (Returns (DS_SetDestTypeCmd env buf s tr))" unfolding DS_SetDestTypeCmd_def Let_def using rej acc by simp
  show "runs_ok env (Returns (DS_SetDestPathCmd env buf s tr))" unfolding DS_SetDestPathCmd_def Let_def using rej acc by simp
  show "runs_ok env (Returns (DS_SetDestBaseCmd env buf s tr))" unfolding DS_SetDestBaseCmd_def Let_def using rej acc by simp
  show "runs_ok env (Returns (DS_SetDestExtCmd env buf s tr))" unfolding DS_SetDestExtCmd_def Let_def using rej acc by simp
  show "runs_ok env (Returns (DS_SetDestSizeCmd env buf s tr))" unfolding DS_SetDestSizeCmd_def Let_def using rej acc by simp
  show "runs_ok env (Returns (DS_SetDestAgeCmd env buf s tr))" unfolding DS_SetDestAgeCmd_def Let_def using rej acc by simp
  show "runs_ok env (Returns (DS_SetDestStateCmd env buf s tr))"
    unfolding DS_SetDestStateCmd_def Let_def using rej accept_runs [OF state] by simp
  show "runs_ok env (Returns (DS_SetDestCountCmd env buf s tr))"
    unfolding DS_SetDestCountCmd_def Let_def using rej UpdateCDS_accept [OF state] by simp
qed

lemma close_open_ok:
  assumes ok: "ds_ok env s tr" and i: "i < DS_DEST_FILE_CNT"
  shows "runs_ok env (close_open env i s tr)"
proof (cases "fs_FileHandle (file_status s i)")
  case None
  then show ?thesis using ok by (simp add: close_open_def runs_ok_def)
next
  case (Some h)
  then have tbl: "ds_DestFileTbl s \<noteq> None" using ok i by (simp add: ds_ok_def)
  obtain s1 tr1 where 1: "DS_FileUpdateHeader env i s tr = (s1, tr1)" by force
  obtain s2 tr2 where 2: "DS_FileCloseDest env i s1 tr1 = (s2, tr2)" by force
  have "files_ok env {} (ds_FileStatus s) tr" using ok by (simp add: ds_ok_def)
  from files_close_open [OF i this _ 1 2] Some have "files_ok env {} (ds_FileStatus s2) tr2" "ds_frame s2 = ds_frame s" by auto
  then have "ds_ok env s2 tr2" using ds_ok_files [OF ok] tbl by blast
  then show ?thesis using Some tbl 1 2 by (auto simp: close_open_def runs_ok_def)
qed

lemma close_all_ok: "\<forall>i\<in>set js. i < DS_DEST_FILE_CNT \<Longrightarrow> ds_ok env s tr \<Longrightarrow> runs_ok env (close_all_loop env js s tr)"
proof (induction js arbitrary: s tr)
  case (Cons i js)
  then show ?case by (auto intro!: runs_ok_bind close_open_ok)
qed (simp add: runs_ok_def)

lemma index_less: "DS_TableVerifyFileIndex i \<Longrightarrow> unat i < DS_DEST_FILE_CNT"
  by (simp add: DS_TableVerifyFileIndex_def)

lemma other_commands_ok:
  assumes ok: "ds_ok env s tr"
  shows "runs_ok env (Returns (DS_NoopCmd s tr))" "runs_ok env (Returns (DS_ResetCountersCmd s tr))"
    "runs_ok env (Returns (DS_SetAppStateCmd env buf s tr))" "runs_ok env (Returns (DS_GetFileInfoCmd env s tr))"
    "runs_ok env (DS_CloseFileCmd env buf s tr)" "runs_ok env (DS_CloseAllCmd env s tr)"
proof -
  show "runs_ok env (Returns (DS_NoopCmd s tr))"
    by (rule runs_ok_pair, rule ds_ok_same [OF ok]) (simp_all add: DS_NoopCmd_def)
  show "runs_ok env (Returns (DS_ResetCountersCmd s tr))"
    by (rule runs_ok_pair, rule ds_ok_same [OF ok]) (simp_all add: DS_ResetCountersCmd_def)
  show "runs_ok env (Returns (DS_GetFileInfoCmd env s tr))"
    by (rule runs_ok_pair, rule ds_ok_same [OF ok]) (simp_all add: DS_GetFileInfoCmd_def ds_accept_def)
  have "ds_ok env (s\<lparr>ds_AppEnableState := n\<rparr>) tr" for n by (rule ds_ok_same [OF ok]) simp_all
  then show "runs_ok env (Returns (DS_SetAppStateCmd env buf s tr))"
    unfolding DS_SetAppStateCmd_def Let_def using reject_runs [OF ok] UpdateCDS_accept by simp
  show "runs_ok env (DS_CloseFileCmd env buf s tr)"
    unfolding DS_CloseFileCmd_def Let_def using reject_runs [OF ok] close_open_ok [OF ok index_less]
    by (auto intro!: runs_ok_bind accept_runs)
  show "runs_ok env (DS_CloseAllCmd env s tr)"
    unfolding DS_CloseAllCmd_def by (rule runs_ok_bind [OF close_all_ok [OF _ ok]]) (auto intro: accept_runs)
qed

text \<open>REMOVE MID builds the hash table again, for the table without the id.\<close>

lemma RemoveMID_ok:
  assumes ok: "ds_ok env s tr"
  shows "runs_ok env (DS_RemoveMIDCmd env buf s tr)"
  unfolding DS_RemoveMIDCmd_def Let_def
proof (rule lookup_run [OF ok], goal_cases)
  case 1
  then show ?case using reject_runs [OF ok] by (auto split: option.split)
next
  case (2 k t)
  let ?t = "t\<lparr>ft_Packet := (ft_Packet t)[k := (ft_Packet t ! k)\<lparr>pe_MessageID := de_InvalidMid env\<rparr>]\<rparr>"
  let ?s = "set_packet k (\<lambda>pe. pe\<lparr>pe_MessageID := de_InvalidMid env\<rparr>) s"
  have tbl: "ds_FilterTbl ?s = Some ?t" using 2 by simp
  have shape: "filter_shape ?t"
    using 2 by (auto simp: filter_shape_def dest!: set_update_subset_insert [THEN subsetD])
  obtain links tbl where h: "DS_TableCreateHash ?t ?s = Returns (?s\<lparr>ds_HashLinks := links, ds_HashTable := tbl\<rparr>)"
    "hash_ok (ft_Packet ?t) DS_PACKETS_IN_FILTER_TABLE (?s\<lparr>ds_HashLinks := links, ds_HashTable := tbl\<rparr>)"
    using create_hash [of ?t ?s] by metis
  have ok1: "ds_ok env (?s\<lparr>ds_HashLinks := links, ds_HashTable := tbl\<rparr>) tr"
    by (rule ds_ok_new_filter [OF ok shape]) (use tbl h(2) in \<open>simp_all add: set_packet_def\<close>)
  have "ds_ok env (set_packet k reset_filters (?s\<lparr>ds_HashLinks := links, ds_HashTable := tbl\<rparr>)) tr"
    by (rule set_filter_ok [OF ok1]) (use tbl 2 in \<open>simp_all add: reset_filters_def\<close>)
  then have "ds_ok env (set_packet k reset_filters (?s\<lparr>ds_HashLinks := links, ds_HashTable := tbl\<rparr>))
      (ds_do env v (tr @ [Cfs_Unsubscribe mid]))" for v mid
    by (rule ds_ok_same) simp_all
  then show ?case using 2 tbl h(1) reject_runs [OF ok] by (auto intro!: accept_runs)
qed


section \<open>Storing\<close>

lemma ds_ok_frame_files: "ds_ok env s tr \<Longrightarrow> files_ok env {} (ds_FileStatus s) tr"
  by (simp add: ds_ok_def)

lemma frame_dest: "ds_frame s' = ds_frame s \<Longrightarrow> ds_DestFileTbl s' = ds_DestFileTbl s"
  by (simp add: ds_frame_def)

lemma SetupWrite_ok:
  assumes fresh: "open_fresh env" and ok: "ds_ok env s tr" and tbl: "ds_DestFileTbl s \<noteq> None" and i: "i < DS_DEST_FILE_CNT"
    and run: "DS_FileSetupWrite env i buf s tr = (s', tr')"
  shows "ds_ok env s' tr' \<and> ds_DestFileTbl s' \<noteq> None"
proof -
  from files_SetupWrite [OF run i fresh ds_ok_frame_files [OF ok]] have
    "files_ok env {} (ds_FileStatus s') tr'" and frame: "ds_frame s' = ds_frame s" by auto
  then show ?thesis using ds_ok_files [OF ok] tbl frame_dest [OF frame] by simp
qed

lemma store_loop_ok:
  "open_fresh env \<Longrightarrow> ds_ok env s tr \<Longrightarrow> ds_DestFileTbl s \<noteq> None \<Longrightarrow> store_loop env buf fps passed s tr = (p, s', tr') \<Longrightarrow>
    ds_ok env s' tr'"
proof (induction env buf fps passed s tr rule: store_loop.induct)
  case (2 env buf fp fps passed s tr)
  let ?i = "unat (fp_FileTableIndex fp)"
  let ?go = "fp_Algorithm_N fp \<noteq> ucast DS_UNUSED \<and> ?i < DS_DEST_FILE_CNT \<and> fs_FileState (file_status s ?i) = DS_ENABLED \<and>
         \<not> DS_IsPacketFiltered env buf (ucast (fp_FilterType fp)) (fp_Algorithm_N fp) (fp_Algorithm_X fp) (fp_Algorithm_O fp)"
  show ?case
  proof (cases ?go)
    case True
    obtain s1 tr1 where w: "DS_FileSetupWrite env ?i buf s tr = (s1, tr1)" by force
    have "store_loop env buf fps True s1 tr1 = (p, s', tr')" using "2.prems"(4) True w by simp
    with "2.IH"(1) [OF True w [symmetric]] SetupWrite_ok [OF "2.prems"(1-3) _ w] True "2.prems"(1) show ?thesis by blast
  next
    case False
    then have "store_loop env buf fps passed s tr = (p, s', tr')" using "2.prems"(4) by (simp only: store_loop.simps if_False)
    then show ?thesis using "2.IH"(2) [OF False] "2.prems" by blast
  qed
qed simp

lemma StorePacket_ok:
  assumes fresh: "open_fresh env" and ok: "ds_ok env s tr" and tbl: "ds_DestFileTbl s \<noteq> None"
  shows "runs_ok env (DS_FileStorePacket env mid buf s tr)"
  unfolding DS_FileStorePacket_def
proof (rule lookup_run [OF ok], goal_cases)
  case 1
  show ?case by (simp, rule runs_okI, rule ds_ok_same [OF ok]) simp_all
next
  case (2 k t)
  obtain p s1 tr1 where run: "store_loop env buf (pe_Filter (ft_Packet t ! k)) False s tr = (p, s1, tr1)" by (metis prod_cases3)
  have ok1: "ds_ok env s1 tr1" by (rule store_loop_ok [OF fresh ok tbl run])
  have "ds_ok env (s1\<lparr>ds_PassedPktCounter := n\<rparr>) tr1" "ds_ok env (s1\<lparr>ds_FilteredPktCounter := n\<rparr>) tr1" for n
    by (rule ds_ok_same [OF ok1]; simp)+
  then show ?case using run 2 by (simp add: runs_ok_def)
qed

lemma AppStorePacket_ok:
  assumes env: "ds_env_ok env" and ok: "ds_ok env s tr"
  shows "runs_ok env (DS_AppStorePacket env mid buf s tr)"
proof -
  have "ds_ok env (s\<lparr>ds_DisabledPktCounter := n\<rparr>) tr" "ds_ok env (s\<lparr>ds_IgnoredPktCounter := n\<rparr>) tr" for n
    by (rule ds_ok_same [OF ok]; simp)+
  then show ?thesis using StorePacket_ok [OF ds_env_okD(1) [OF env] ok]
    by (simp add: DS_AppStorePacket_def runs_okI)
qed

lemma store_if_listed_ok:
  assumes env: "ds_env_ok env" and ok: "ds_ok env s tr"
  shows "runs_ok env (store_if_listed env mid buf s tr)"
  unfolding store_if_listed_def
  by (rule lookup_run [OF ok]) (use ok AppStorePacket_ok [OF env ok] in \<open>simp_all add: runs_okI\<close>)

section \<open>Housekeeping\<close>

lemma TestAge_ok:
  assumes ok: "ds_ok env s tr" and run: "DS_FileTestAge env secs s tr = (s', tr')"
  shows "ds_ok env s' tr'"
proof (cases "ds_DestFileTbl s")
  case None
  then show ?thesis using ok run by (simp add: DS_FileTestAge_def)
next
  case (Some t)
  from files_TestAge [OF run ds_ok_frame_files [OF ok]] have "files_ok env {} (ds_FileStatus s') tr'" "ds_frame s' = ds_frame s" by auto
  then show ?thesis using ds_ok_files [OF ok] Some by simp
qed

lemma file_rates_ok:
  assumes ok: "ds_ok env s tr" and op: "opened tr' = opened tr"
  shows "ds_ok env (file_rates s) tr'"
proof -
  have "length (ds_FileStatus s) = DS_DEST_FILE_CNT" using ok files_ok_length by (auto simp: ds_ok_def)
  then show ?thesis by (intro ds_ok_map [OF ok]) (use op in \<open>simp_all add: file_rates_def ds_frame_def\<close>)
qed

lemma SendHk_ok:
  assumes env: "ds_env_ok env" and ok: "ds_ok env s tr"
  shows "runs_ok env (DS_AppSendHkCmd env s tr)"
proof -
  obtain s1 tr1 where age: "DS_FileTestAge env DS_SECS_PER_HK_CYCLE s tr = (s1, tr1)" by force
  have last: "runs_ok env (case ds_call env (Cfs_TBL_GetInfo DS_Filter_Handle) tr3 of (status, tr4) \<Rightarrow>
        let (name, tr5) = (if status = CFE_SUCCESS then (print_name env (de_LastFileLoaded env tr4), tr4)
              else (zeros (de_MaxPath env), cfs_event DS_APPHK_FILTER_TBL_ERR_EID EVS_ERROR tr4))
        in Returns (file_rates s3, cfs_transmit
             (ds_packet env DS_HK_TLM_MID (32 + de_MaxPath env) [(0, ds_hk_payload s3), (32, name)] tr5) tr5))"
    if "ds_ok env s3 tr3" for s3 tr3
    using opened_call [of env "Cfs_TBL_GetInfo DS_Filter_Handle" tr3]
    by (auto split: prod.split intro!: runs_okI file_rates_ok [OF that])
  have "ds_ok env s1 tr1" by (rule TestAge_ok [OF ok age])
  then show ?thesis unfolding DS_AppSendHkCmd_def age prod.case
    by (intro runs_ok_bind [OF ManageDestFile_ok [OF env]])
      (simp_all only: prod.case, intro runs_ok_bind [OF ManageFilter_ok [OF env]], simp_all only: prod.case last)
qed


section \<open>Dispatch\<close>

lemma verify_dispatch_ok:
  assumes ok: "ds_ok env s tr" and h: "\<And>s tr. ds_ok env s tr \<Longrightarrow> runs_ok env (handle s tr)"
  shows "runs_ok env (verify_dispatch env buf n eid handle s tr)"
proof -
  have "ds_ok env (s\<lparr>ds_CmdRejectedCounter := m\<rparr>) (cfs_event eid EVS_ERROR tr)" for m
    by (rule ds_ok_same [OF ok]) simp_all
  then show ?thesis using h [OF ok] by (simp add: verify_dispatch_def DS_VerifyLength_def runs_okI)
qed

lemmas ds_verify_dispatch_defs = DS_NoopVerifyDispatch_def DS_ResetVerifyDispatch_def DS_SetAppStateVerifyDispatch_def
  DS_SetFilterFileVerifyDispatch_def DS_SetFilterTypeVerifyDispatch_def DS_SetFilterParmsVerifyDispatch_def
  DS_SetDestTypeVerifyDispatch_def DS_SetDestStateVerifyDispatch_def DS_SetDestPathVerifyDispatch_def
  DS_SetDestBaseVerifyDispatch_def DS_SetDestExtVerifyDispatch_def DS_SetDestSizeVerifyDispatch_def
  DS_SetDestAgeVerifyDispatch_def DS_SetDestCountVerifyDispatch_def DS_CloseFileVerifyDispatch_def
  DS_GetFileInfoVerifyDispatch_def DS_AddMIDVerifyDispatch_def DS_RemoveMIDVerifyDispatch_def
  DS_CloseAllVerifyDispatch_def DS_SendHkVerifyDispatch_def

lemma runs_ok_if: "(c \<Longrightarrow> runs_ok env a) \<Longrightarrow> (\<not> c \<Longrightarrow> runs_ok env b) \<Longrightarrow> runs_ok env (if c then a else b)"
  by simp

lemma ProcessCmd_ok:
  assumes ok: "ds_ok env s tr" and cc: "cf_FcnCode (de_cfs env) buf \<noteq> DS_ADD_MID_CC"
  shows "runs_ok env (DS_AppProcessCmd env buf s tr)"
proof -
  have "ds_ok env (s\<lparr>ds_CmdRejectedCounter := m\<rparr>) (cfs_event eid EVS_ERROR tr)" for m eid
    by (rule ds_ok_same [OF ok]) simp_all
  note last = runs_okI [OF this]
  note handlers = other_commands_ok filter_commands_ok dest_commands_ok RemoveMID_ok
  show ?thesis
    unfolding DS_AppProcessCmd_def Let_def ds_verify_dispatch_defs
    by (intro runs_ok_if last)
      ((rule verify_dispatch_ok [OF ok], rule handlers, assumption) | (use cc in simp))+
qed

lemma ProcessMsg_ok:
  assumes env: "ds_env_ok env" and ok: "ds_ok env s tr"
    and cc: "\<not> (cf_MsgId (de_cfs env) buf = DS_CMD_MID \<and> cf_FcnCode (de_cfs env) buf = DS_ADD_MID_CC)"
  shows "runs_ok env (DS_AppProcessMsg env buf s tr)"
proof -
  have store: "runs_ok env (run_bind r (\<lambda>(s1, tr1). store_if_listed env mid buf s1 tr1))" if "runs_ok env r" for r mid
    by (rule runs_ok_bind [OF that]) (simp add: store_if_listed_ok [OF env])
  have "runs_ok env (DS_SendHkVerifyDispatch env buf s tr)"
    unfolding DS_SendHkVerifyDispatch_def by (rule verify_dispatch_ok [OF ok SendHk_ok [OF env]])
  then show ?thesis using store ProcessCmd_ok [OF ok] cc AppStorePacket_ok [OF env ok]
    by (simp add: DS_AppProcessMsg_def Let_def)
qed

text \<open>C7. Under the invariant (the tracked handles are those the operating system has open, each created under the name the state records and holding as many bytes as it records; the hash table is that of the filter table; both tables have their shape) DS handles every message except ADD MID to its end, without touching memory out of bounds, and keeps the invariant.\<close>

theorem ds_message:
  assumes "ds_env_ok env" "ds_ok env s tr"
    "\<not> (cf_MsgId (de_cfs env) buf = DS_CMD_MID \<and> cf_FcnCode (de_cfs env) buf = DS_ADD_MID_CC)"
  shows "\<exists>s' tr'. DS_AppProcessMsg env buf s tr = Returns (s', tr') \<and> ds_ok env s' tr'"
  using ProcessMsg_ok [OF assms] by (simp add: runs_ok_def)

section \<open>Start and main loop\<close>

lemma ds_initial_ok: "opened tr = (\<lambda>h. None) \<Longrightarrow> ds_ok env ds_initial tr"
  by (simp add: ds_ok_def files_ok_def ds_tables_ok_def lookup_ok_def dest_slot_ok_def ds_initial_def closed_status_def file_status_def)

lemma opened_register: "register_table env t tr = (r, b, tr') \<Longrightarrow> opened tr' = opened tr"
  unfolding register_table_def
  by (cases "ds_call env (Cfs_TBL_Register t) tr") (auto dest: opened_call split: if_splits)

lemma opened_load [simp]: "opened (load_table env t need tr) = opened tr"
  by (cases "ds_call env (Cfs_TBL_Load t) tr") (auto simp: load_table_def dest: opened_call)

text \<open>A start function: it returns, with the invariant.\<close>

definition start_ok :: "Ds_Env \<Rightarrow> (CFE_Status \<times> DS_AppData \<times> Cfs_Trace) run \<Rightarrow> bool" where
  "start_ok env r \<longleftrightarrow> (\<exists>status s' tr'. r = Returns (status, s', tr') \<and> ds_ok env s' tr')"

lemma TableInit_ok:
  assumes env: "ds_env_ok env" and ok: "ds_ok env s tr"
  shows "start_ok env (DS_TableInit env s tr)"
proof -
  obtain r1 b1 tr1 where 1: "register_table env DS_DestFile_Handle tr = (r1, b1, tr1)" by (metis prod_cases3)
  obtain r2 b2 tr2 where 2: "register_table env DS_Filter_Handle tr1 = (r2, b2, tr2)" by (metis prod_cases3)
  have ok': "ds_ok env s tr'" if "opened tr' = opened tr" for tr' by (rule ds_ok_same [OF ok]) (use that in simp_all)
  let ?tr = "load_table env DS_Filter_Handle b2 (load_table env DS_DestFile_Handle b1 tr2)"
  have op: "opened tr1 = opened tr" "opened tr2 = opened tr" "opened ?tr = opened tr"
    using opened_register [OF 1] opened_register [OF 2] by simp_all
  obtain s3 tr3 where 3: "DS_TableManageDestFile env s ?tr = Returns (s3, tr3)" "ds_ok env s3 tr3"
    using ManageDestFile_ok [OF env ok' [OF op(3)]] by (auto simp: runs_ok_def)
  obtain s4 tr4 where 4: "DS_TableManageFilter env s3 tr3 = Returns (s4, tr4)" "ds_ok env s4 tr4"
    using ManageFilter_ok [OF env 3(2)] by (auto simp: runs_ok_def)
  show ?thesis using 1 2 3 4 ok' [OF op(1)] ok' [OF op(2)] by (simp add: DS_TableInit_def start_ok_def)
qed

lemma CreateCDS_ok:
  assumes env: "ds_env_ok env" and ok: "ds_ok env s tr" and run: "DS_TableCreateCDS env s tr = (r, s', tr')"
  shows "ds_ok env s' tr'"
proof -
  have len: "length (ds_FileStatus s) = DS_DEST_FILE_CNT" using ok files_ok_length by (auto simp: ds_ok_def)
  have same: "ds_ok env (s\<lparr>ds_DataStoreHandle := b\<rparr>) tr1" if "opened tr1 = opened tr" for b tr1
    by (rule ds_ok_same [OF ok]) (use that in simp_all)
  have rest: "ds_ok env (restore_cds (de_CdsData env tr2) (s\<lparr>ds_DataStoreHandle := b\<rparr>)) tr1" if "opened tr1 = opened tr" for b tr1 tr2
    by (rule ds_ok_map [OF ok]) (use that len ds_env_okD(6) [OF env] in \<open>simp_all add: restore_cds_def ds_frame_def\<close>)
  obtain r1 tr1 where 1: "ds_call env (Cfs_CDS_Register (4 * (DS_DEST_FILE_CNT + 1))) tr = (r1, tr1)" by force
  obtain r2 tr2 where 2: "ds_call env (Cfs_CDS_Copy (cds_buffer (s\<lparr>ds_DataStoreHandle := True\<rparr>))) tr1 = (r2, tr2)" by force
  obtain r3 tr3 where 3: "ds_call env Cfs_CDS_Restore tr1 = (r3, tr3)" by force
  have op: "opened tr1 = opened tr" "opened tr2 = opened tr" "opened tr3 = opened tr"
    using opened_call [OF 1] opened_call [OF 2] opened_call [OF 3] by simp_all
  show ?thesis using run 1 2 3 same op rest
    by (auto simp: DS_TableCreateCDS_def Let_def split: if_splits)
qed


text \<open>The first calls of the start open no file.\<close>

definition quiet :: "(Cfs_Trace \<Rightarrow> CFE_Status \<times> DS_AppData \<times> Cfs_Trace) \<Rightarrow> bool" where
  "quiet k \<longleftrightarrow> (\<forall>tr r s' tr'. opened tr = (\<lambda>h. None) \<longrightarrow> k tr = (r, s', tr') \<longrightarrow>
     s' = ds_initial \<and> opened tr' = (\<lambda>h. None))"

lemma quiet_or:
  fixes env :: Ds_Env
  assumes "quiet k" "\<And>tr. opened (report tr) = opened tr"
  shows "quiet (cfs_or (de_cfs env) v good report k ds_initial)"
  unfolding quiet_def
proof (intro allI impI)
  fix tr r s' tr'
  assume op: "opened tr = (\<lambda>h. None)" and run: "cfs_or (de_cfs env) v good report k ds_initial tr = (r, s', tr')"
  obtain st tr1 where c: "cfs_call (de_cfs env) v tr = (st, tr1)" by force
  then have "opened tr1 = (\<lambda>h. None)" using op opened_call [of env v tr st tr1] by (simp add: ds_call_def)
  then show "s' = ds_initial \<and> opened tr' = (\<lambda>h. None)"
    using assms c run by (auto simp: cfs_or_def quiet_def split: if_splits)
qed

lemma AppInitialize_ok:
  assumes env: "ds_env_ok env"
  shows "start_ok env (DS_AppInitialize env [])"
proof -
  let ?first = "cfs_or (de_cfs env) Cfs_EVS_Register CFE_SUCCESS cfs_log
        (cfs_or (de_cfs env) (Cfs_SB_CreatePipe DS_APP_PIPE_DEPTH) CFE_SUCCESS (cfs_event DS_INIT_ERR_EID EVS_ERROR)
        (cfs_or (de_cfs env) (Cfs_SB_Subscribe DS_SEND_HK_MID) CFE_SUCCESS (cfs_event DS_INIT_ERR_EID EVS_ERROR)
        (cfs_or (de_cfs env) (Cfs_SB_Subscribe DS_CMD_MID) CFE_SUCCESS (cfs_event DS_INIT_ERR_EID EVS_ERROR)
        (\<lambda>tr'. (CFE_SUCCESS, ds_initial, tr')) ds_initial) ds_initial) ds_initial) ds_initial"
  have "quiet (\<lambda>tr'. (CFE_SUCCESS, ds_initial, tr'))" by (simp add: quiet_def)
  then have "quiet ?first" by (intro quiet_or) simp_all
  obtain r s tr1 where 1: "?first [] = (r, s, tr1)" by (metis prod_cases3)
  with \<open>quiet ?first\<close> have "s = ds_initial \<and> opened tr1 = (\<lambda>h. None)"
    unfolding quiet_def by (metis opened_simps(1))
  then have ok: "ds_ok env s tr1" using ds_initial_ok by blast
  obtain r2 s2 tr2 where 2: "DS_TableInit env s tr1 = Returns (r2, s2, tr2)" "ds_ok env s2 tr2"
    using TableInit_ok [OF env ok] by (auto simp: start_ok_def)
  obtain r3 s3 tr3 where 3: "DS_TableCreateCDS env s2 tr2 = (r3, s3, tr3)" by (metis prod_cases3)
  have ok3: "ds_ok env s3 tr3" by (rule CreateCDS_ok [OF env 2(2) 3])
  have "ds_ok env s3 (cfs_event DS_INIT_INF_EID EVS_INFORMATION tr3)" by (rule ds_ok_same [OF ok3]) simp_all
  then show ?thesis using 1 2 3 ok ok3 by (simp add: DS_AppInitialize_def start_ok_def)
qed

definition plain_input :: "Ds_Env \<Rightarrow> DS_Input \<Rightarrow> bool" where
  "plain_input env i = (case i of DS_Shutdown \<Rightarrow> True | DS_Receive status buf \<Rightarrow>
     status = CFE_SUCCESS \<longrightarrow> \<not> (cf_MsgId (de_cfs env) buf = DS_CMD_MID \<and> cf_FcnCode (de_cfs env) buf = DS_ADD_MID_CC))"

lemma run_loop_ok:
  "ds_env_ok env \<Longrightarrow> ds_ok env s tr \<Longrightarrow> \<forall>i\<in>set inputs. plain_input env i \<Longrightarrow> DS_Shutdown \<in> set inputs \<Longrightarrow>
   \<exists>running' result' s' tr'. ds_run_loop env inputs running result s tr = Returns (running', result', s', tr') \<and> ds_ok env s' tr'"
proof (induction env inputs running result s tr rule: ds_run_loop.induct)
  case (3 env status buf inputs running result s tr)
  note env = "3.prems"(1) and ok = "3.prems"(2)
  have rest: "\<forall>i\<in>set inputs. plain_input env i" "DS_Shutdown \<in> set inputs" using "3.prems"(3,4) by simp_all
  consider "\<not> running" | (msg) "running" "status = CFE_SUCCESS" | (late) "running" "status = CFE_SB_TIME_OUT"
    | (err) "running" "status \<noteq> CFE_SUCCESS" "status \<noteq> CFE_SB_TIME_OUT" by blast
  then show ?case
  proof cases
    case msg
    have "plain_input env (DS_Receive status buf)" using "3.prems"(3) by simp
    then obtain s1 tr1 where 1: "DS_AppProcessMsg env buf s tr = Returns (s1, tr1)" "ds_ok env s1 tr1"
      using ProcessMsg_ok [OF env ok, of buf] msg(2) by (auto simp: runs_ok_def plain_input_def)
    from "3.IH"(1) [OF _ msg(2) env 1(2) rest] msg 1 show ?thesis by simp
  next
    case late
    obtain s1 tr1 where 1: "DS_TableManageDestFile env s tr = Returns (s1, tr1)" "ds_ok env s1 tr1"
      using ManageDestFile_ok [OF env ok] by (auto simp: runs_ok_def)
    obtain s2 tr2 where 2: "DS_TableManageFilter env s1 tr1 = Returns (s2, tr2)" "ds_ok env s2 tr2"
      using ManageFilter_ok [OF env 1(2)] by (auto simp: runs_ok_def)
    from "3.IH"(2) [OF _ _ late(2) env 2(2) rest] late 1 2 show ?thesis by simp
  next
    case err
    from "3.IH"(3) [OF _ err(2,3) env ok rest] err show ?thesis by simp
  qed (use ok in auto)
qed simp_all

text \<open>C6. Whatever packets and errors DS receives, as long as no packet is an ADD MID command, DS runs until it is told to stop: no access out of bounds and no endless walk of a hash list, from its start, whatever start-up steps fail, and the handles that are open at the end are those of the file status.\<close>

theorem ds_main:
  assumes "ds_env_ok env" "\<forall>i\<in>set inputs. plain_input env i" "DS_Shutdown \<in> set inputs"
  shows "\<exists>running s tr. DS_AppMain env inputs = Returns (running, s, tr) \<and> ds_ok env s tr"
proof -
  obtain r s tr where 1: "DS_AppInitialize env [] = Returns (r, s, tr)" "ds_ok env s tr"
    using AppInitialize_ok [OF assms(1)] by (auto simp: start_ok_def)
  obtain running r' s' tr' where 2: "ds_run_loop env inputs (r = CFE_SUCCESS) r s tr = Returns (running, r', s', tr')" "ds_ok env s' tr'"
    using run_loop_ok [OF assms(1) 1(2) assms(2,3)] by blast
  have "ds_ok env s' (cfs_log (cfs_event eid ty tr'))" for eid ty by (rule ds_ok_same [OF 2(2)]) simp_all
  then show ?thesis using 1 2 by (simp add: DS_AppMain_def)
qed

end
