(* ===== verification/Ds_Mission.thy ===== *)
theory Ds_Mission
  imports Ds_Filter Ds_Run
begin

text \<open>
  The tables the mission loads into DS (\<open>ds_filter_tbl.c\<close>, \<open>ds_file_tbl.c\<close>), and an environment for
  concrete runs. \<open>CFE_SB_MSGID_RESERVED\<close> is an argument; entries behind the last initialiser are zero.
\<close>

section \<open>The filter table\<close>

definition HOUSEKEEPING_DATA_FILE :: u8 where "HOUSEKEEPING_DATA_FILE = 0"

definition PHOTO_DATA_FILE :: u8 where "PHOTO_DATA_FILE = 1"

definition HK_COMBINED_PKT1_MSGID :: u32 where "HK_COMBINED_PKT1_MSGID = 0x089C"

definition PAYLOADMC_PHOTO_CHUNK_MSGID :: u32 where "PAYLOADMC_PHOTO_CHUNK_MSGID = 0x0EC5"

definition unused_filter :: DS_FilterParms where
  "unused_filter = \<lparr>fp_FileTableIndex = DS_UNUSED, fp_FilterType = DS_UNUSED, fp_Algorithm_N = 0, fp_Algorithm_X = 0, fp_Algorithm_O = 0\<rparr>"

definition every_packet :: "u8 \<Rightarrow> DS_FilterParms" where
  "every_packet i = \<lparr>fp_FileTableIndex = i, fp_FilterType = ucast DS_BY_COUNT, fp_Algorithm_N = 1, fp_Algorithm_X = 1, fp_Algorithm_O = 0\<rparr>"

definition stored_packet :: "u32 \<Rightarrow> u8 \<Rightarrow> DS_PacketEntry" where
  "stored_packet mid i = \<lparr>pe_MessageID = mid, pe_Filter = [every_packet i, unused_filter, unused_filter, unused_filter]\<rparr>"

definition unused_packet :: "u32 \<Rightarrow> DS_PacketEntry" where
  "unused_packet mid = \<lparr>pe_MessageID = mid, pe_Filter = [unused_filter, unused_filter, unused_filter, unused_filter]\<rparr>"

definition mission_filter_table :: "u32 \<Rightarrow> DS_FilterTable" where
  "mission_filter_table reserved = \<lparr>ft_Descriptor = map of_char ''Sample filter table data'',
     ft_Packet = [stored_packet HK_COMBINED_PKT1_MSGID HOUSEKEEPING_DATA_FILE,
        stored_packet PAYLOADMC_PHOTO_CHUNK_MSGID PHOTO_DATA_FILE] @
       replicate 239 (unused_packet reserved) @ replicate 15 (unused_packet 0)\<rparr>"

section \<open>The destination file table\<close>

definition char_array :: "nat \<Rightarrow> string \<Rightarrow> u8 list" where
  "char_array n str = take n (map of_char str @ zeros n)"

definition dest_entry :: "nat \<Rightarrow> string \<Rightarrow> string \<Rightarrow> string \<Rightarrow> u16 \<Rightarrow> u16 \<Rightarrow> u32 \<Rightarrow> u32 \<Rightarrow> DS_DestFileEntry" where
  "dest_entry n path base ext type state size_limit age_limit = \<lparr>df_Movename = char_array n '''',
     df_Pathname = char_array n path, df_Basename = char_array n base, df_Extension = char_array DS_EXTENSION_BUFSIZE ext,
     df_FileNameType = type, df_EnableState = state, df_MaxFileSize = size_limit, df_MaxFileAge = age_limit,
     df_SequenceCount = 0\<rparr>"

definition mission_dest_table :: "nat \<Rightarrow> DS_DestFileTable" where
  "mission_dest_table n = \<lparr>dt_Descriptor = map of_char ''Sample File Table Data'',
     dt_File = [dest_entry n ''/cf/housekeeping'' ''hk'' ''.hk'' DS_BY_COUNT DS_ENABLED (1024 * 1024 * 1024) (60 * 60 * 24),
        dest_entry n ''/cf/photos'' ''photo'' ''.ds'' DS_BY_COUNT DS_ENABLED (256 * 1024 * 1024) (60 * 60 * 24)] @
       replicate 14 (dest_entry n '''' '''' '''' 0 0 0 0)\<rparr>"

lemma mission_shapes: "filter_shape (mission_filter_table r)" "dest_shape (mission_dest_table n)"
  by (auto simp: filter_shape_def dest_shape_def mission_filter_table_def mission_dest_table_def stored_packet_def
      unused_packet_def DS_PACKETS_IN_FILTER_TABLE_def DS_FILTERS_PER_PACKET_def DS_DEST_FILE_CNT_def)

section \<open>Validation\<close>

lemma char_array_empty: "list_all (\<lambda>b. b = 0) (char_array n '''')"
  by (simp add: char_array_def zeros_def list_all_iff)

lemma unused_dest_entry: "DS_TableEntryUnused (dest_entry_bytes (dest_entry n '''' '''' '''' 0 0 0 0))"
  using char_array_empty by (simp add: DS_TableEntryUnused_def dest_entry_bytes_def dest_entry_def DS_UNUSED_def le16_def le32_def)

lemma verify_dest_skip: "verify_dest_loop (replicate k (dest_entry n '''' '''' '''' 0 0 0 0)) bad tr = (bad, tr)"
  by (induction k) (simp_all add: unused_dest_entry)

lemma used_dest_entry:
  assumes "DS_FILE_MIN_SIZE_LIMIT \<le> size_limit" "DS_FILE_MIN_AGE_LIMIT \<le> age_limit"
  shows "verify_dest_loop (dest_entry n path base ext DS_BY_COUNT DS_ENABLED size_limit age_limit # dfs) bad tr =
    verify_dest_loop dfs bad tr"
  using assms by (simp add: DS_TableVerifyDestFileEntry_def verify_result_def dest_entry_def DS_TableVerifyType_def
      DS_TableVerifyState_def DS_TableVerifySize_def DS_TableVerifyAge_def DS_TableVerifyCount_def not_less)

lemma unused_filter_bytes: "DS_TableEntryUnused (filter_parms_bytes unused_filter)"
  by (simp add: DS_TableEntryUnused_def filter_parms_bytes_def unused_filter_def DS_UNUSED_def le16_def)

lemma every_packet_good: "filter_parms_good (every_packet HOUSEKEEPING_DATA_FILE)" "filter_parms_good (every_packet PHOTO_DATA_FILE)"
  by (simp_all add: filter_parms_good_def every_packet_def DS_TableVerifyFileIndex_def DS_TableVerifyType_def
      DS_TableVerifyParms_def DS_BY_COUNT_def HOUSEKEEPING_DATA_FILE_def PHOTO_DATA_FILE_def DS_DEST_FILE_CNT_def)

lemma verify_filter_good:
  assumes "list_all (\<lambda>fp. DS_TableEntryUnused (filter_parms_bytes fp) \<or> filter_parms_good fp) (pe_Filter pe)"
  shows "verify_filter_loop env (pe # pes) bad tr = verify_filter_loop env pes bad tr"
proof -
  have "list_all (\<lambda>fp. if \<not> DS_TableEntryUnused (filter_parms_bytes fp) then filter_parms_good fp else True) (pe_Filter pe)"
    using assms by (auto simp: list_all_iff)
  then show ?thesis by (simp add: DS_TableVerifyFilterEntry_def verify_result_def)
qed

lemma verify_filter_skip: "verify_filter_loop env (replicate k (unused_packet mid) @ pes) bad tr = verify_filter_loop env pes bad tr"
  by (induction k) (simp_all del: verify_filter_loop.simps(2) add: verify_filter_good unused_packet_def unused_filter_bytes)

text \<open>Both tables that the mission loads pass the validation of DS, whatever message ids the platform takes for valid.\<close>

theorem mission_tables_valid:
  "fst (DS_TableVerifyDestFile (mission_dest_table n) tr) = CFE_SUCCESS \<and>
   fst (DS_TableVerifyFilter env (mission_filter_table reserved) tr) = CFE_SUCCESS"
proof -
  have "verify_dest_loop (dt_File (mission_dest_table n)) 0 tr = (0, tr)"
    by (simp add: mission_dest_table_def used_dest_entry verify_dest_skip DS_FILE_MIN_SIZE_LIMIT_def DS_FILE_MIN_AGE_LIMIT_def
        del: verify_dest_loop.simps(2) replicate.simps)
  moreover have "verify_filter_loop env (ft_Packet (mission_filter_table reserved)) 0 tr = (0, tr)"
    using verify_filter_skip [of env 15 0 "[]" 0 tr]
    by (simp add: mission_filter_table_def verify_filter_skip verify_filter_good stored_packet_def unused_filter_bytes
        every_packet_good
        del: verify_filter_loop.simps(2))
  ultimately show ?thesis by (simp add: DS_TableVerifyDestFile_def DS_TableVerifyFilter_def)
qed


section \<open>A concrete environment\<close>

text \<open>
  A header is a message id (four bytes), a function code and a sequence count (two bytes each); a new
  file gets a handle above all that were given; every call succeeds; the tables are the mission's.
\<close>

fun handle_of :: "Cfs_Call \<Rightarrow> nat" where
  "handle_of (Os_OpenCreate name (Some h)) = h"
| "handle_of c = 0"

definition ds_cfs :: Cfs_Env where
  "ds_cfs = \<lparr>cf_svc = \<lambda>tr v. (case v of Cfs_TBL_GetAddress t \<Rightarrow> CFE_TBL_INFO_UPDATED | _ \<Rightarrow> CFE_SUCCESS),
     cf_GetPoolBuf = \<lambda>tr n. (0, 0), cf_PutPoolBuf = \<lambda>tr a. 0, cf_IsValidMsgId = \<lambda>m. m \<noteq> 0,
     cf_MsgInit = \<lambda>mid n. take n (le32 mid @ zeros n),
     cf_MsgId = \<lambda>p. read_le32 p 0, cf_FcnCode = \<lambda>p. read_le16 p 4,
     cf_TimeStamp = \<lambda>tr p. p, cf_CmdHeader = 8, cf_TlmHeader = 12\<rparr>"

definition ds_env :: Ds_Env where
  "ds_env = \<lparr>de_cfs = ds_cfs, de_SeqCnt = \<lambda>p. read_le16 p 6, de_MsgTime = \<lambda>p. (0, 0),
     de_GetTime = \<lambda>tr. (of_nat (length tr), 0), de_TimePrint = \<lambda>t. zeros 24,
     de_StringGet = \<lambda>n src. take (n - 1) (c_string src),
     de_OpenCreate = \<lambda>tr name. Some (Suc (sum_list (map handle_of tr))),
     de_Write = \<lambda>tr h bytes. int (length bytes), de_WriteHeader = \<lambda>tr h. 64, de_Lseek = \<lambda>tr h off. int off,
     de_Mv = \<lambda>tr src dst. True, de_AllocateBuffer = \<lambda>tr. True, de_FsHeader = 64, de_MaxPath = 64, de_UnionPad = 0,
     de_InvalidMid = 0, de_DestTable = \<lambda>tr. Some (mission_dest_table 64), de_FilterTable = \<lambda>tr. Some (mission_filter_table 0),
     de_CdsData = \<lambda>tr. replicate 17 0, de_LastFileLoaded = \<lambda>tr. []\<rparr>"

lemma opened_handles: "opened tr h \<noteq> None \<Longrightarrow> h \<le> sum_list (map handle_of tr)"
proof (induction tr rule: rev_induct)
  case (snoc c tr)
  then show ?case by (cases "(opened tr, c)" rule: open_step.cases; cases "opened tr h") (auto split: if_splits)
qed simp

lemma ds_env_ok: "ds_env_ok ds_env"
proof -
  have "opened tr (Suc (sum_list (map handle_of tr))) = None" for tr
    using opened_handles [of tr "Suc (sum_list (map handle_of tr))"] by fastforce
  then show ?thesis
    by (auto simp: ds_env_ok_def open_fresh_def ds_env_def table_loaded_def mission_shapes DS_DEST_FILE_CNT_def)
qed

text \<open>A state in which the mission tables are loaded and all files are closed.\<close>

definition enabled_status :: DS_AppFileStatus where
  "enabled_status = closed_status\<lparr>fs_FileState := DS_ENABLED\<rparr>"

lemma ds_loaded:
  "\<exists>s. ds_ok ds_env s [] \<and> ds_FilterTbl s = Some (mission_filter_table 0) \<and> ds_DestFileTbl s = Some (mission_dest_table 64) \<and>
     hash_ok (ft_Packet (mission_filter_table 0)) DS_PACKETS_IN_FILTER_TABLE s \<and>
     ds_FileStatus s = replicate DS_DEST_FILE_CNT enabled_status \<and> ds_AppEnableState s = DS_DEF_ENABLE_STATE"
proof -
  let ?t = "mission_filter_table 0"
  let ?s = "ds_initial\<lparr>ds_FilterTbl := Some ?t, ds_DestFileTbl := Some (mission_dest_table 64),
    ds_FileStatus := replicate DS_DEST_FILE_CNT enabled_status\<rparr>"
  obtain links tbl where h: "hash_ok (ft_Packet ?t) DS_PACKETS_IN_FILTER_TABLE (?s\<lparr>ds_HashLinks := links, ds_HashTable := tbl\<rparr>)"
    using create_hash [of ?t ?s] by metis
  have "ds_ok ds_env (?s\<lparr>ds_HashLinks := links, ds_HashTable := tbl\<rparr>) []"
    using h by (simp add: ds_ok_def files_ok_def dest_slot_ok_def ds_tables_ok_def lookup_ok_def mission_shapes enabled_status_def
        closed_status_def file_status_def)
  then show ?thesis using h by (intro exI [of _ "?s\<lparr>ds_HashLinks := links, ds_HashTable := tbl\<rparr>"]) (simp add: ds_initial_def)
qed

section \<open>Witnesses\<close>

theorem filter_n_of_x_witness:
  "{v. unat (1 :: u16) + 5 * unat (3 :: u16) \<le> v \<and> v < unat (1 :: u16) + (5 + 1) * unat (3 :: u16) \<and>
      \<not> DS_IsPacketFiltered ds_env (zeros 6 @ le16 (of_nat v)) DS_BY_COUNT 2 3 1} =
    {unat (1 :: u16) + 5 * unat (3 :: u16) ..< unat (1 :: u16) + 5 * unat (3 :: u16) + unat (2 :: u16)}"
proof (rule filter_n_of_x)
  have "read_le16 (zeros 6 @ le16 w) 6 = w" for w
    using read_le16_le16 [of w] by (simp add: read_le16_def zeros_def nth_append numeral_eq_Suc)
  then show "\<forall>v<65536. de_SeqCnt ds_env (zeros 6 @ le16 (of_nat v)) = of_nat v" by (simp add: ds_env_def)
qed (simp_all add: DS_TableVerifyParms_def word_le_nat_alt word_less_nat_alt)

theorem ds_message_witness:
  "\<exists>s s' tr'. ds_ok ds_env s [] \<and> DS_AppProcessMsg ds_env (le32 PAYLOADMC_PHOTO_CHUNK_MSGID @ zeros 8) s [] = Returns (s', tr') \<and>
     ds_ok ds_env s' tr'"
proof -
  obtain s where s: "ds_ok ds_env s []" using ds_loaded by blast
  have "cf_MsgId (de_cfs ds_env) (le32 PAYLOADMC_PHOTO_CHUNK_MSGID @ zeros 8) \<noteq> DS_CMD_MID"
    using read_le32_at [of "[]" 0 PAYLOADMC_PHOTO_CHUNK_MSGID "zeros 8"]
    by (simp add: ds_env_def ds_cfs_def DS_CMD_MID_def PAYLOADMC_PHOTO_CHUNK_MSGID_def)
  then show ?thesis using ds_message [OF ds_env_ok s, of "le32 PAYLOADMC_PHOTO_CHUNK_MSGID @ zeros 8"] s by blast
qed

theorem ds_main_witness:
  "\<exists>running s tr. DS_AppMain ds_env [DS_Receive CFE_SUCCESS (le32 PAYLOADMC_PHOTO_CHUNK_MSGID @ zeros 8), DS_Receive CFE_SB_TIME_OUT [], DS_Shutdown]
     = Returns (running, s, tr) \<and> ds_ok ds_env s tr"
proof (rule ds_main [OF ds_env_ok])
  have "cf_MsgId (de_cfs ds_env) (le32 PAYLOADMC_PHOTO_CHUNK_MSGID @ zeros 8) \<noteq> DS_CMD_MID"
    using read_le32_at [of "[]" 0 PAYLOADMC_PHOTO_CHUNK_MSGID "zeros 8"]
    by (simp add: ds_env_def ds_cfs_def DS_CMD_MID_def PAYLOADMC_PHOTO_CHUNK_MSGID_def)
  then show "\<forall>i\<in>set [DS_Receive CFE_SUCCESS (le32 PAYLOADMC_PHOTO_CHUNK_MSGID @ zeros 8), DS_Receive CFE_SB_TIME_OUT [], DS_Shutdown].
      plain_input ds_env i"
    by (simp add: plain_input_def)
qed simp

end
