(* ===== verification/Ds_Photo.thy ===== *)
theory Ds_Photo
  imports Ds_Mission
begin

text \<open>
  One capture of the camera through DS with the mission tables: the chunks the payload application
  publishes and the close command it sends after them make one file with a number of its own.
\<close>

section \<open>Where no call fails\<close>

definition calls_succeed :: "Ds_Env \<Rightarrow> bool" where
  "calls_succeed env \<longleftrightarrow> (\<forall>tr name. de_OpenCreate env tr name \<noteq> None) \<and>
     (\<forall>tr h bytes. de_Write env tr h bytes = int (length bytes)) \<and>
     (\<forall>tr h. de_WriteHeader env tr h = int (de_FsHeader env)) \<and> (\<forall>tr. de_AllocateBuffer env tr)"

text \<open>\<open>CFE_SB_MessageStringGet\<close> copies a string as far as it fits with its terminator.\<close>

definition string_get_ok :: "Ds_Env \<Rightarrow> bool" where
  "string_get_ok env \<longleftrightarrow> (\<forall>n src. de_StringGet env n src = take (n - 1) (c_string src))"

lemma ds_env_succeeds: "calls_succeed ds_env" "string_get_ok ds_env"
  by (simp_all add: calls_succeed_def string_get_ok_def ds_env_def)

section \<open>The name of a photo file\<close>

lemma c_string_array:
  assumes "list_all (\<lambda>b. b \<noteq> 0) (map of_char str :: u8 list)" "length str < n"
  shows "c_string (char_array n str) = map of_char str"
proof -
  have "takeWhile (\<lambda>b. b \<noteq> 0) ((map of_char str :: u8 list) @ replicate k 0) = map of_char str" for k
    using assms(1) by (induction str) auto
  moreover have "char_array n str = map of_char str @ replicate (n - length str) 0"
    using assms(2) by (simp add: char_array_def zeros_def)
  ultimately show ?thesis by (simp add: c_string_def)
qed

definition photo_name :: "u8 list \<Rightarrow> u8 list" where
  "photo_name number = map of_char ''/cf/photos/photo'' @ number @ map of_char ''.ds''"

definition photo_entry :: "nat \<Rightarrow> DS_DestFileEntry" where
  "photo_entry n = dest_entry n ''/cf/photos'' ''photo'' ''.ds'' DS_BY_COUNT DS_ENABLED (256 * 1024 * 1024) (60 * 60 * 24)"

lemma photo_entry_simps [simp]:
  "df_FileNameType (photo_entry n) = DS_BY_COUNT" "df_MaxFileSize (photo_entry n) = 256 * 1024 * 1024"
  "df_SequenceCount (photo_entry n) = 0"
  by (simp_all add: photo_entry_def dest_entry_def)

lemma photo_path:
  assumes "string_get_ok env" "32 \<le> de_MaxPath env"
  shows "de_StringGet env (2 * de_MaxPath env) (df_Pathname (photo_entry (de_MaxPath env))) = map of_char ''/cf/photos''"
  using assms c_string_array [of "''/cf/photos''" "de_MaxPath env"]
  by (simp add: string_get_ok_def photo_entry_def dest_entry_def)

lemma photo_work_name:
  assumes get: "string_get_ok env" and max: "32 \<le> de_MaxPath env" and digits: "length number = 8"
  shows "work_name env (photo_entry (de_MaxPath env)) number = photo_name number"
proof -
  have base: "c_string (df_Basename (photo_entry (de_MaxPath env))) = map of_char ''photo''"
    using max c_string_array [of "''photo''" "de_MaxPath env"] by (simp add: photo_entry_def dest_entry_def)
  have ext: "c_string (df_Extension (photo_entry (de_MaxPath env))) = map of_char ''.ds''"
    "df_Extension (photo_entry (de_MaxPath env)) ! 0 = 0x2E"
    using c_string_array [of "''.ds''" DS_EXTENSION_BUFSIZE]
    by (simp_all add: photo_entry_def dest_entry_def DS_EXTENSION_BUFSIZE_def char_array_def)
  show ?thesis
    unfolding work_name_def Let_def photo_path [OF get max]
    using get max digits base ext by (simp add: string_get_ok_def strncat_def photo_name_def DS_PATH_SEPARATOR_def)
qed


section \<open>Writing chunks\<close>

text \<open>A file is open under its recorded name: its handle, its name and what was written.\<close>

definition dest_open :: "Ds_Env \<Rightarrow> nat \<Rightarrow> DS_AppData \<Rightarrow> Cfs_Trace \<Rightarrow> nat \<Rightarrow> u8 list \<Rightarrow> u8 list list \<Rightarrow> bool" where
  "dest_open env i s tr h name cs \<longleftrightarrow> length (ds_FileStatus s) = DS_DEST_FILE_CNT \<and>
     fs_FileHandle (file_status s i) = Some h \<and> fs_FileName (file_status s i) = name \<and>
     fs_FileState (file_status s i) = DS_ENABLED \<and> opened tr h = Some (name, cs) \<and>
     fs_FileSize (file_status s i) = of_nat (de_FsHeader env + length (concat cs))"

definition next_count :: "u32 \<Rightarrow> u32" where
  "next_count n = (if n + 1 > DS_MAX_SEQUENCE_COUNT then 0 else n + 1)"

lemma status_at [simp]:
  "i < length (ds_FileStatus s) \<Longrightarrow> file_status (set_status i f s) i = f (file_status s i)"
  by (simp add: file_status_def)

lemma set_status_enable [simp]: "ds_AppEnableState (set_status i f s) = ds_AppEnableState s"
  by (simp add: set_status_def)

lemma count_write_at [simp]:
  "i < length (ds_FileStatus s) \<Longrightarrow> file_status (count_write i n s) i = (file_status s i)
     \<lparr>fs_FileSize := fs_FileSize (file_status s i) + n, fs_FileGrowth := fs_FileGrowth (file_status s i) + n\<rparr>"
  "ds_AppEnableState (count_write i n s) = ds_AppEnableState s"
  by (simp_all add: file_status_def) (simp add: count_write_def)

lemma length_count_write [simp]: "length (ds_FileStatus (count_write i n s)) = length (ds_FileStatus s)"
  by (simp add: count_write_def set_status_def)

declare count_write_simps(2) [simp del]

lemma WriteData_succeeds:
  assumes i: "i < DS_DEST_FILE_CNT" and calls: "calls_succeed env" and open1: "dest_open env i s tr h name cs"
  shows "\<exists>s' tr'. DS_FileWriteData env i buf s tr = (s', tr') \<and> dest_open env i s' tr' h name (cs @ [buf]) \<and>
    ds_frame s' = ds_frame s \<and> ds_AppEnableState s' = ds_AppEnableState s \<and>
    fs_FileCount (file_status s' i) = fs_FileCount (file_status s i)"
proof -
  let ?s = "count_write i (of_nat (length buf)) s" and ?tr = "tr @ [Os_Write h buf (int (length buf))]"
  have len: "length (ds_FileStatus s) = DS_DEST_FILE_CNT" using open1 by (simp add: dest_open_def)
  have "DS_FileWriteData env i buf s tr = (?s, ?tr)"
    using open1 calls by (simp add: DS_FileWriteData_def dest_open_def calls_succeed_def Let_def)
  moreover have "dest_open env i ?s ?tr h name (cs @ [buf])"
    using open1 len i by (simp add: dest_open_def)
  ultimately show ?thesis using len i by simp
qed

lemma UpdateCDS_keeps:
  assumes "DS_TableUpdateCDS env s tr = (s', tr')"
  shows "ds_FileStatus s' = ds_FileStatus s \<and> ds_frame s' = ds_frame s \<and> opened tr' = opened tr \<and>
    ds_AppEnableState s' = ds_AppEnableState s"
  using files_UpdateCDS [OF assms] assms
  by (auto simp: DS_TableUpdateCDS_def split: if_splits prod.splits)

lemma WriteHeader_succeeds:
  assumes i: "i < DS_DEST_FILE_CNT" and calls: "calls_succeed env" and h: "fs_FileHandle (file_status s i) = Some h" and len: "length (ds_FileStatus s) = DS_DEST_FILE_CNT"
    and new: "opened tr h = Some (fs_FileName (file_status s i), [])" "fs_FileSize (file_status s i) = 0" "fs_FileState (file_status s i) = DS_ENABLED"
  shows "\<exists>s' tr' header. DS_FileWriteHeader env i s tr = (s', tr') \<and> length header = 12 + de_MaxPath env \<and>
    dest_open env i s' tr' h (fs_FileName (file_status s i)) [header] \<and>
    ds_frame s' = ds_frame s \<and> ds_AppEnableState s' = ds_AppEnableState s \<and>
    fs_FileCount (file_status s' i) = fs_FileCount (file_status s i)"
proof -
  let ?s = "count_write i (of_nat (de_FsHeader env)) s"
  let ?b = "ds_file_header env i ?s"
  let ?s2 = "count_write i (of_nat (length ?b)) ?s"
  let ?tr = "(tr @ [Os_WriteHeader h (int (de_FsHeader env))]) @ [Os_Write h ?b (int (length ?b))]"
  have len1: "length (ds_FileStatus ?s) = DS_DEST_FILE_CNT" "length (ds_FileStatus ?s2) = DS_DEST_FILE_CNT"
    using len by simp_all
  have run: "DS_FileWriteHeader env i s tr = (?s2, ?tr)"
    using h calls by (simp add: DS_FileWriteHeader_def calls_succeed_def Let_def)
  have "length ?b = 12 + de_MaxPath env" by (simp add: ds_file_header_def le32_def name_bytes_def)
  moreover have "dest_open env i ?s2 ?tr h (fs_FileName (file_status s i)) [?b]"
    using h new len len1 i by (simp add: dest_open_def)
  moreover have "ds_frame ?s2 = ds_frame s" "ds_AppEnableState ?s2 = ds_AppEnableState s"
    "fs_FileCount (file_status ?s2 i) = fs_FileCount (file_status s i)"
    using len len1 i by simp_all
  ultimately show ?thesis using run by blast
qed


text \<open>The photo file is the one the filter table names.\<close>

abbreviation photo_file :: nat where
  "photo_file \<equiv> unat PHOTO_DATA_FILE"

definition photo_ready :: "Ds_Env \<Rightarrow> u32 \<Rightarrow> DS_AppData \<Rightarrow> bool" where
  "photo_ready env reserved s \<longleftrightarrow> ds_FilterTbl s = Some (mission_filter_table reserved) \<and>
     hash_ok (ft_Packet (mission_filter_table reserved)) DS_PACKETS_IN_FILTER_TABLE s \<and>
     ds_DestFileTbl s = Some (mission_dest_table (de_MaxPath env)) \<and> ds_AppEnableState s \<noteq> ucast DS_DISABLED"

definition photo_closed :: "DS_AppData \<Rightarrow> bool" where
  "photo_closed s \<longleftrightarrow> length (ds_FileStatus s) = DS_DEST_FILE_CNT \<and> fs_FileHandle (file_status s photo_file) = None \<and>
     fs_FileSize (file_status s photo_file) = 0 \<and> fs_FileState (file_status s photo_file) = DS_ENABLED"

lemma photo_ready_frame:
  assumes "ds_frame s' = ds_frame s" "ds_AppEnableState s' = ds_AppEnableState s"
  shows "photo_ready env r s' \<longleftrightarrow> photo_ready env r s"
proof -
  have "ds_HashLinks s' = ds_HashLinks s" "ds_HashTable s' = ds_HashTable s" "ds_FilterTbl s' = ds_FilterTbl s"
    "ds_DestFileTbl s' = ds_DestFileTbl s" using assms(1) by (simp_all add: ds_frame_def)
  then show ?thesis using assms(2) hash_ok_frame [of s' s] by (simp add: photo_ready_def)
qed

lemma photo_less: "photo_file < DS_DEST_FILE_CNT"
  by (simp add: PHOTO_DATA_FILE_def DS_DEST_FILE_CNT_def)

lemma photo_dest: "photo_ready env r s \<Longrightarrow> dest_file s photo_file = photo_entry (de_MaxPath env)"
  by (simp add: photo_ready_def dest_file_def mission_dest_table_def photo_entry_def PHOTO_DATA_FILE_def)

text \<open>The number in the name of the file that is opened next.\<close>

definition photo_number :: "Ds_Env \<Rightarrow> DS_AppData \<Rightarrow> Cfs_Trace \<Rightarrow> u8 list" where
  "photo_number env s tr = DS_FileCreateSequence env DS_BY_COUNT (fs_FileCount (file_status s photo_file)) tr"

lemma length_photo_number: "length (photo_number env s tr) = 8"
  using sequence_digits_value [of 8 "fs_FileCount (file_status s photo_file)" "[]"]
  by (auto simp: photo_number_def DS_FileCreateSequence_def DS_SEQUENCE_DIGITS_def)

lemma CreateName_photo:
  assumes get: "string_get_ok env" "32 \<le> de_MaxPath env" and ready: "photo_ready env r s"
  shows "DS_FileCreateName env photo_file s tr =
    (set_status photo_file (\<lambda>fs. fs\<lparr>fs_FileName := photo_name (photo_number env s tr)\<rparr>) s, tr)"
proof -
  have "work_name env (dest_file s photo_file) (photo_number env s tr) = photo_name (photo_number env s tr)"
    unfolding photo_dest [OF ready] by (rule photo_work_name [OF get length_photo_number])
  moreover have "length (photo_name (photo_number env s tr)) < de_MaxPath env"
    using get(2) length_photo_number [of env s tr] by (simp add: photo_name_def)
  ultimately show ?thesis
    using photo_dest [OF ready] photo_path [OF get]
    by (simp add: DS_FileCreateName_def Let_def photo_number_def)
qed

lemma CreateDest_photo:
  assumes calls: "calls_succeed env" and get: "string_get_ok env" "32 \<le> de_MaxPath env"
    and ready: "photo_ready env r s" and closed: "photo_closed s"
  shows "\<exists>s' tr' h header. DS_FileCreateDest env photo_file s tr = (s', tr') \<and> length header = 12 + de_MaxPath env \<and>
    dest_open env photo_file s' tr' h (photo_name (photo_number env s tr)) [header] \<and> photo_ready env r s' \<and>
    fs_FileCount (file_status s' photo_file) = next_count (fs_FileCount (file_status s photo_file))"
proof -
  let ?w = "photo_name (photo_number env s tr)"
  obtain h where h: "de_OpenCreate env tr ?w = Some h" using calls unfolding calls_succeed_def by blast
  define s1 where "s1 = set_status photo_file (\<lambda>fs. fs\<lparr>fs_FileName := ?w\<rparr>) s"
  define s2 where "s2 = set_status photo_file (\<lambda>fs. fs\<lparr>fs_FileHandle := Some h\<rparr>)
    (s1\<lparr>ds_FileWriteCounter := ds_FileWriteCounter s1 + 1\<rparr>)"
  let ?tr = "tr @ [Os_OpenCreate ?w (Some h)]"
  have name: "DS_FileCreateName env photo_file s tr = (s1, tr)" unfolding s1_def by (rule CreateName_photo [OF get ready])
  have len: "length (ds_FileStatus s) = DS_DEST_FILE_CNT" using closed by (simp add: photo_closed_def)
  have fst1: "file_status (s1\<lparr>ds_FileWriteCounter := m\<rparr>) photo_file = (file_status s photo_file)\<lparr>fs_FileName := ?w\<rparr>" for m
    using len photo_less by (simp add: s1_def file_status_def)
  have st2: "file_status s2 photo_file = (file_status s photo_file)\<lparr>fs_FileName := ?w, fs_FileHandle := Some h\<rparr>"
    using len photo_less fst1 by (simp add: s2_def s1_def)
  have fr2: "ds_frame s2 = ds_frame s" "ds_AppEnableState s2 = ds_AppEnableState s" "length (ds_FileStatus s2) = DS_DEST_FILE_CNT"
    using len by (simp_all add: s2_def s1_def)
  obtain s3 tr3 header where 3: "DS_FileWriteHeader env photo_file s2 ?tr = (s3, tr3)" "length header = 12 + de_MaxPath env"
    "dest_open env photo_file s3 tr3 h ?w [header]" "ds_frame s3 = ds_frame s" "ds_AppEnableState s3 = ds_AppEnableState s"
    "fs_FileCount (file_status s3 photo_file) = fs_FileCount (file_status s photo_file)"
    using WriteHeader_succeeds [OF photo_less calls, of s2 h ?tr] st2 fr2 closed by (auto simp: photo_closed_def)
  have ready3: "photo_ready env r s3" using photo_ready_frame [OF 3(4,5)] ready by simp
  define s4 where "s4 = set_status photo_file (\<lambda>fs. fs\<lparr>fs_FileCount :=
     (if fs_FileCount fs + 1 > DS_MAX_SEQUENCE_COUNT then df_SequenceCount (dest_file s3 photo_file) else fs_FileCount fs + 1)\<rparr>) s3"
  obtain s5 tr5 where 5: "DS_TableUpdateCDS env s4 tr3 = (s5, tr5)" by force
  note keep = UpdateCDS_keeps [OF 5]
  have w: "fs_FileName (file_status s1 photo_file) = ?w" "?w \<noteq> []"
    using len photo_less by (simp_all add: s1_def photo_name_def)
  then have "DS_FileCreateDest env photo_file s tr = (s5, tr5)"
    using 3(1,3) 5 h photo_dest [OF ready3] name
    by (simp add: DS_FileCreateDest_def Let_def s2_def s4_def dest_open_def)
  moreover have "length (ds_FileStatus s3) = DS_DEST_FILE_CNT" using 3(3) by (simp add: dest_open_def)
  then have st5: "file_status s5 photo_file = (file_status s3 photo_file)\<lparr>fs_FileCount := next_count (fs_FileCount (file_status s3 photo_file))\<rparr>"
    "length (ds_FileStatus s5) = DS_DEST_FILE_CNT"
    using keep photo_less photo_dest [OF ready3] by (simp_all add: s4_def file_status_def next_count_def)
  then have "dest_open env photo_file s5 tr5 h ?w [header]" using 3(3) keep by (simp add: dest_open_def)
  moreover have "photo_ready env r s5" using photo_ready_frame [of s5 s3] ready3 keep by (simp add: s4_def)
  ultimately show ?thesis using 3(2,6) st5 by auto
qed


lemma SetupWrite_photo:
  assumes calls: "calls_succeed env" and get: "string_get_ok env" "32 \<le> de_MaxPath env" and ready: "photo_ready env r s"
  shows "photo_closed s \<Longrightarrow> \<exists>s' tr' h header. DS_FileSetupWrite env photo_file buf s tr = (s', tr') \<and>
      length header = 12 + de_MaxPath env \<and> photo_ready env r s' \<and>
      dest_open env photo_file s' tr' h (photo_name (photo_number env s tr)) [header, buf] \<and>
      fs_FileCount (file_status s' photo_file) = next_count (fs_FileCount (file_status s photo_file))"
    and "dest_open env photo_file s tr h name cs \<Longrightarrow> unat (fs_FileSize (file_status s photo_file)) + length buf \<le> 256 * 1024 * 1024 \<Longrightarrow>
      \<exists>s' tr'. DS_FileSetupWrite env photo_file buf s tr = (s', tr') \<and> photo_ready env r s' \<and>
      dest_open env photo_file s' tr' h name (cs @ [buf]) \<and>
      fs_FileCount (file_status s' photo_file) = fs_FileCount (file_status s photo_file)"
proof -
  assume closed: "photo_closed s"
  obtain s1 tr1 h header where 1: "DS_FileCreateDest env photo_file s tr = (s1, tr1)" "length header = 12 + de_MaxPath env"
    "dest_open env photo_file s1 tr1 h (photo_name (photo_number env s tr)) [header]" "photo_ready env r s1"
    "fs_FileCount (file_status s1 photo_file) = next_count (fs_FileCount (file_status s photo_file))"
    using CreateDest_photo [OF calls get ready closed] by blast
  obtain s2 tr2 where 2: "DS_FileWriteData env photo_file buf s1 tr1 = (s2, tr2)"
    "dest_open env photo_file s2 tr2 h (photo_name (photo_number env s tr)) [header, buf]"
    "ds_frame s2 = ds_frame s1" "ds_AppEnableState s2 = ds_AppEnableState s1"
    "fs_FileCount (file_status s2 photo_file) = fs_FileCount (file_status s1 photo_file)"
    using WriteData_succeeds [OF photo_less calls 1(3), of buf] by auto
  have "DS_FileSetupWrite env photo_file buf s tr = (s2, tr2)"
    using closed 1(1,3) 2(1) by (simp add: DS_FileSetupWrite_def photo_closed_def dest_open_def)
  then show "\<exists>s' tr' h header. DS_FileSetupWrite env photo_file buf s tr = (s', tr') \<and>
      length header = 12 + de_MaxPath env \<and> photo_ready env r s' \<and>
      dest_open env photo_file s' tr' h (photo_name (photo_number env s tr)) [header, buf] \<and>
      fs_FileCount (file_status s' photo_file) = next_count (fs_FileCount (file_status s photo_file))"
    using 1(2,4,5) 2(2,5) photo_ready_frame [OF 2(3,4)] by auto
next
  assume op: "dest_open env photo_file s tr h name cs"
    and room: "unat (fs_FileSize (file_status s photo_file)) + length buf \<le> 256 * 1024 * 1024"
  obtain s2 tr2 where 2: "DS_FileWriteData env photo_file buf s tr = (s2, tr2)"
    "dest_open env photo_file s2 tr2 h name (cs @ [buf])" "ds_frame s2 = ds_frame s" "ds_AppEnableState s2 = ds_AppEnableState s"
    "fs_FileCount (file_status s2 photo_file) = fs_FileCount (file_status s photo_file)"
    using WriteData_succeeds [OF photo_less calls op, of buf] by auto
  have "DS_FileSetupWrite env photo_file buf s tr = (s2, tr2)"
    using op room 2(1) photo_dest [OF ready] by (simp add: DS_FileSetupWrite_def dest_open_def)
  then show "\<exists>s' tr'. DS_FileSetupWrite env photo_file buf s tr = (s', tr') \<and> photo_ready env r s' \<and>
      dest_open env photo_file s' tr' h name (cs @ [buf]) \<and>
      fs_FileCount (file_status s' photo_file) = fs_FileCount (file_status s photo_file)"
    using 2 photo_ready_frame [OF 2(3,4)] ready by auto
qed

text \<open>A chunk passes the filter and reaches the photo file.\<close>

lemma find_photo: "linear_find (ft_Packet (mission_filter_table r)) PAYLOADMC_PHOTO_CHUNK_MSGID DS_PACKETS_IN_FILTER_TABLE = Some 1"
proof -
  have "[0..<DS_PACKETS_IN_FILTER_TABLE] = 0 # 1 # [2..<DS_PACKETS_IN_FILTER_TABLE]"
    by (simp add: DS_PACKETS_IN_FILTER_TABLE_def upt_conv_Cons numeral_2_eq_2)
  then show ?thesis
    by (simp add: linear_find_def mission_filter_table_def stored_packet_def HK_COMBINED_PKT1_MSGID_def PAYLOADMC_PHOTO_CHUNK_MSGID_def)
qed

lemma every_packet_passes:
  "\<not> DS_IsPacketFiltered env buf (ucast (fp_FilterType (every_packet i))) 1 1 0"
  by (simp add: filter_passes every_packet_def DS_TableVerifyType_def DS_BY_COUNT_def)

lemma photo_chunk:
  assumes ready: "photo_ready env r s" and mid: "cf_MsgId (de_cfs env) buf = PAYLOADMC_PHOTO_CHUNK_MSGID"
    and enabled: "fs_FileState (file_status s photo_file) = DS_ENABLED"
    and run: "DS_FileSetupWrite env photo_file buf s tr = (s1, tr1)"
  shows "DS_AppProcessMsg env buf s tr = Returns (s1\<lparr>ds_PassedPktCounter := ds_PassedPktCounter s1 + 1\<rparr>, tr1)"
proof -
  have "DS_TableFindMsgID PAYLOADMC_PHOTO_CHUNK_MSGID s = Returns (Some 1)"
    using hash_lookup [of "ft_Packet (mission_filter_table r)" s "mission_filter_table r"] ready find_photo
    by (simp add: photo_ready_def)
  moreover have "pe_Filter (ft_Packet (the (ds_FilterTbl s)) ! 1) = [every_packet PHOTO_DATA_FILE, unused_filter, unused_filter, unused_filter]"
    using ready by (simp add: photo_ready_def mission_filter_table_def stored_packet_def)
  moreover have "store_loop env buf [every_packet PHOTO_DATA_FILE, unused_filter, unused_filter, unused_filter] False s tr = (True, s1, tr1)"
    using photo_less enabled run every_packet_passes [of env buf PHOTO_DATA_FILE]
    by (simp add: every_packet_def unused_filter_def DS_UNUSED_def)
  ultimately show ?thesis
    using mid ready by (simp add: DS_AppProcessMsg_def DS_AppStorePacket_def DS_FileStorePacket_def photo_ready_def
        PAYLOADMC_PHOTO_CHUNK_MSGID_def DS_CMD_MID_def DS_SEND_HK_MID_def)
qed


section \<open>The chunks of a capture\<close>

fun process_all :: "Ds_Env \<Rightarrow> u8 list list \<Rightarrow> DS_AppData \<Rightarrow> Cfs_Trace \<Rightarrow> (DS_AppData \<times> Cfs_Trace) run" where
  "process_all env [] s tr = Returns (s, tr)"
| "process_all env (buf # bufs) s tr = run_bind (DS_AppProcessMsg env buf s tr) (\<lambda>(s1, tr1). process_all env bufs s1 tr1)"

lemma passed_simps [simp]:
  "photo_ready env r (s\<lparr>ds_PassedPktCounter := n\<rparr>) = photo_ready env r s"
  "dest_open env i (s\<lparr>ds_PassedPktCounter := n\<rparr>) tr h name cs = dest_open env i s tr h name cs"
  "file_status (s\<lparr>ds_PassedPktCounter := n\<rparr>) = file_status s"
  by (rule photo_ready_frame) (simp_all add: ds_frame_def dest_open_def file_status_def fun_eq_iff)

lemma photo_chunks:
  assumes calls: "calls_succeed env" and get: "string_get_ok env" "32 \<le> de_MaxPath env"
  shows "photo_ready env r s \<Longrightarrow> dest_open env photo_file s tr h name cs \<Longrightarrow>
    \<forall>p\<in>set ps. cf_MsgId (de_cfs env) p = PAYLOADMC_PHOTO_CHUNK_MSGID \<Longrightarrow>
    de_FsHeader env + length (concat cs) + length (concat ps) \<le> 256 * 1024 * 1024 \<Longrightarrow>
    \<exists>s' tr'. process_all env ps s tr = Returns (s', tr') \<and> photo_ready env r s' \<and>
      dest_open env photo_file s' tr' h name (cs @ ps) \<and>
      fs_FileCount (file_status s' photo_file) = fs_FileCount (file_status s photo_file)"
proof (induction ps arbitrary: s tr cs)
  case (Cons p ps)
  have "unat (fs_FileSize (file_status s photo_file)) = de_FsHeader env + length (concat cs)"
    using Cons.prems(2,4) by (simp add: dest_open_def unat_of_nat take_bit_eq_mod del: of_nat_add)
  then have "unat (fs_FileSize (file_status s photo_file)) + length p \<le> 256 * 1024 * 1024" using Cons.prems(4) by simp
  from SetupWrite_photo(2) [OF calls get Cons.prems(1,2) this]
  obtain s1 tr1 where 1: "DS_FileSetupWrite env photo_file p s tr = (s1, tr1)" "photo_ready env r s1"
    "dest_open env photo_file s1 tr1 h name (cs @ [p])"
    "fs_FileCount (file_status s1 photo_file) = fs_FileCount (file_status s photo_file)" by blast
  have "fs_FileState (file_status s photo_file) = DS_ENABLED" using Cons.prems(2) by (simp add: dest_open_def)
  from photo_chunk [OF Cons.prems(1) _ this 1(1)] Cons.prems(3)
  have "DS_AppProcessMsg env p s tr = Returns (s1\<lparr>ds_PassedPktCounter := ds_PassedPktCounter s1 + 1\<rparr>, tr1)" by simp
  then show ?case
    using Cons.IH [of "s1\<lparr>ds_PassedPktCounter := ds_PassedPktCounter s1 + 1\<rparr>" tr1 "cs @ [p]"] 1 Cons.prems(3,4) by simp
qed simp

lemma photo_capture:
  assumes calls: "calls_succeed env" and get: "string_get_ok env" "32 \<le> de_MaxPath env"
    and ready: "photo_ready env r s" and closed: "photo_closed s"
    and ps: "\<forall>p\<in>set (p # ps). cf_MsgId (de_cfs env) p = PAYLOADMC_PHOTO_CHUNK_MSGID"
    and total: "de_FsHeader env + 12 + de_MaxPath env + length (concat (p # ps)) \<le> 256 * 1024 * 1024"
  shows "\<exists>s' tr' h header. process_all env (p # ps) s tr = Returns (s', tr') \<and> photo_ready env r s' \<and>
    length header = 12 + de_MaxPath env \<and>
    dest_open env photo_file s' tr' h (photo_name (photo_number env s tr)) (header # p # ps) \<and>
    fs_FileCount (file_status s' photo_file) = next_count (fs_FileCount (file_status s photo_file))"
proof -
  obtain s1 tr1 h header where 1: "DS_FileSetupWrite env photo_file p s tr = (s1, tr1)" "length header = 12 + de_MaxPath env"
    "photo_ready env r s1" "dest_open env photo_file s1 tr1 h (photo_name (photo_number env s tr)) [header, p]"
    "fs_FileCount (file_status s1 photo_file) = next_count (fs_FileCount (file_status s photo_file))"
    using SetupWrite_photo(1) [OF calls get ready closed] by blast
  have "fs_FileState (file_status s photo_file) = DS_ENABLED" using closed by (simp add: photo_closed_def)
  from photo_chunk [OF ready _ this 1(1)] ps
  have "DS_AppProcessMsg env p s tr = Returns (s1\<lparr>ds_PassedPktCounter := ds_PassedPktCounter s1 + 1\<rparr>, tr1)" by simp
  then show ?thesis
    using photo_chunks [OF calls get, of r "s1\<lparr>ds_PassedPktCounter := ds_PassedPktCounter s1 + 1\<rparr>" tr1 h
        "photo_name (photo_number env s tr)" "[header, p]" ps] 1 ps total by simp blast
qed

section \<open>The close command\<close>

definition close_command :: "Ds_Env \<Rightarrow> u8 list \<Rightarrow> bool" where
  "close_command env buf \<longleftrightarrow> length buf = cf_CmdHeader (de_cfs env) + 4 \<and> cf_MsgId (de_cfs env) buf = DS_CMD_MID \<and>
     cf_FcnCode (de_cfs env) buf = DS_CLOSE_FILE_CC \<and> pay16 env buf 0 = ucast PHOTO_DATA_FILE"

lemmas ds_cc_defs = DS_NOOP_CC_def DS_RESET_COUNTERS_CC_def DS_SET_APP_STATE_CC_def DS_SET_FILTER_FILE_CC_def
  DS_SET_FILTER_TYPE_CC_def DS_SET_FILTER_PARMS_CC_def DS_SET_DEST_TYPE_CC_def DS_SET_DEST_STATE_CC_def
  DS_SET_DEST_PATH_CC_def DS_SET_DEST_BASE_CC_def DS_SET_DEST_EXT_CC_def DS_SET_DEST_SIZE_CC_def
  DS_SET_DEST_AGE_CC_def DS_SET_DEST_COUNT_CC_def DS_CLOSE_FILE_CC_def

lemma ProcessCmd_close:
  assumes "close_command env buf"
  shows "DS_AppProcessCmd env buf s tr = run_bind (close_open env photo_file s tr)
    (\<lambda>(s1, tr1). Returns (ds_accept DS_CLOSE_CMD_EID s1 tr1))"
proof -
  have "DS_AppProcessCmd env buf s tr = DS_CloseFileVerifyDispatch env buf s tr"
    using assms by (simp add: DS_AppProcessCmd_def Let_def ds_cc_defs close_command_def)
  moreover have "DS_TableVerifyFileIndex (ucast PHOTO_DATA_FILE)" "unat (ucast PHOTO_DATA_FILE :: u16) = photo_file"
    by (simp_all add: DS_TableVerifyFileIndex_def PHOTO_DATA_FILE_def DS_DEST_FILE_CNT_def)
  ultimately show ?thesis
    using assms by (simp add: DS_CloseFileVerifyDispatch_def verify_dispatch_def DS_VerifyLength_def DS_CloseFileCmd_def close_command_def)
qed

lemma UpdateHeader_sent: "DS_FileUpdateHeader env i s tr = (s', tr') \<Longrightarrow> cfs_sent tr' = cfs_sent tr \<and>
    ds_AppEnableState s' = ds_AppEnableState s"
  by (auto simp: DS_FileUpdateHeader_def Let_def split: if_splits prod.splits)

lemma CloseDest_photo:
  assumes calls: "calls_succeed env" and max: "32 \<le> de_MaxPath env" and ready: "photo_ready env r s"
    and h: "fs_FileHandle (file_status s photo_file) = Some h"
  shows "\<exists>tr'. DS_FileCloseDest env photo_file s tr = (set_status photo_file
      (\<lambda>fs. fs\<lparr>fs_FileHandle := None, fs_FileAge := 0, fs_FileSize := 0, fs_FileName := []\<rparr>) s, tr') \<and>
    opened tr' h = None \<and> (\<exists>info t. cfs_sent tr' = cfs_sent tr @ [ds_packet env DS_COMP_TLM_MID (DS_FileInfo_size env + de_UnionPad env)
      [(0, info), (20, print_name env (fs_FileName (file_status s photo_file)))] t])"
proof -
  have "df_Movename (dest_file s photo_file) ! 0 = 0"
    using max by (simp add: photo_dest [OF ready] photo_entry_def dest_entry_def char_array_def zeros_def)
  then show ?thesis
    using h calls by (simp add: DS_FileCloseDest_def Let_def DS_FileTransmit_def calls_succeed_def cfs_transmit_def) blast
qed

lemma find_cmd:
  assumes "reserved \<noteq> DS_CMD_MID"
  shows "linear_find (ft_Packet (mission_filter_table reserved)) DS_CMD_MID DS_PACKETS_IN_FILTER_TABLE = None"
  unfolding linear_find_def
proof (rule find_None)
  have "pe_MessageID pe \<noteq> DS_CMD_MID" if "pe \<in> set (ft_Packet (mission_filter_table reserved))" for pe
    using that assms by (auto simp: mission_filter_table_def stored_packet_def unused_packet_def DS_CMD_MID_def
        HK_COMBINED_PKT1_MSGID_def PAYLOADMC_PHOTO_CHUNK_MSGID_def)
  then show "\<forall>i\<in>set [0..<DS_PACKETS_IN_FILTER_TABLE]. pe_MessageID (ft_Packet (mission_filter_table reserved) ! i) \<noteq> DS_CMD_MID"
    using mission_shapes(1) [of reserved] by (auto simp: filter_shape_def)
qed


lemma print_name_photo: "dest_open env i s tr h name cs \<Longrightarrow> fs_FileName (file_status s i) = name"
  by (simp add: dest_open_def)

lemma photo_close:
  assumes calls: "calls_succeed env" and max: "32 \<le> de_MaxPath env" and ready: "photo_ready env r s"
    and op: "dest_open env photo_file s tr h name cs" and cmd: "close_command env buf" and r: "r \<noteq> DS_CMD_MID"
  shows "\<exists>s' tr'. DS_AppProcessMsg env buf s tr = Returns (s', tr') \<and> photo_ready env r s' \<and> photo_closed s' \<and>
    fs_FileCount (file_status s' photo_file) = fs_FileCount (file_status s photo_file) \<and> opened tr' h = None \<and>
    (\<exists>info t. cfs_sent tr' = cfs_sent tr @ [ds_packet env DS_COMP_TLM_MID (DS_FileInfo_size env + de_UnionPad env)
      [(0, info), (20, print_name env name)] t])"
proof -
  obtain s1 tr1 where 1: "DS_FileUpdateHeader env photo_file s tr = (s1, tr1)" by force
  have st1: "ds_FileStatus s1 = ds_FileStatus s" and sent1: "cfs_sent tr1 = cfs_sent tr"
    and ena1: "ds_AppEnableState s1 = ds_AppEnableState s" and fr1: "ds_frame s1 = ds_frame s"
    using status_UpdateHeader [OF 1] UpdateHeader_sent [OF 1] 1
    by (auto simp: DS_FileUpdateHeader_def Let_def ds_frame_def split: if_splits prod.splits)
  have fs1: "file_status s1 = file_status s" using st1 by (simp add: file_status_def fun_eq_iff)
  have ready1: "photo_ready env r s1" using photo_ready_frame [OF fr1 ena1] ready by simp
  have h1: "fs_FileHandle (file_status s1 photo_file) = Some h" and n1: "fs_FileName (file_status s1 photo_file) = name"
    using op fs1 by (simp_all add: dest_open_def)
  define s2 where "s2 = set_status photo_file (\<lambda>fs. fs\<lparr>fs_FileHandle := None, fs_FileAge := 0, fs_FileSize := 0, fs_FileName := []\<rparr>) s1"
  obtain tr2 info t where 2: "DS_FileCloseDest env photo_file s1 tr1 = (s2, tr2)" "opened tr2 h = None"
    "cfs_sent tr2 = cfs_sent tr1 @ [ds_packet env DS_COMP_TLM_MID (DS_FileInfo_size env + de_UnionPad env)
      [(0, info), (20, print_name env name)] t]"
    using CloseDest_photo [OF calls max ready1 h1, of tr1] n1 unfolding s2_def by blast
  have "close_open env photo_file s tr = Returns (s2, tr2)"
    using op 1 2(1) ready by (simp add: close_open_def dest_open_def photo_ready_def)
  then have cmdrun: "DS_AppProcessCmd env buf s tr = Returns (ds_accept DS_CLOSE_CMD_EID s2 tr2)"
    using ProcessCmd_close [OF cmd, of s tr] by simp
  let ?s3 = "s2\<lparr>ds_CmdAcceptedCounter := ds_CmdAcceptedCounter s2 + 1\<rparr>"
  have ready3: "photo_ready env r ?s3"
    by (rule iffD2 [OF photo_ready_frame ready1]) (simp_all add: s2_def ds_frame_def set_status_def)
  have "DS_TableFindMsgID DS_CMD_MID ?s3 = Returns None"
    using hash_lookup [of "ft_Packet (mission_filter_table r)" ?s3 "mission_filter_table r" DS_CMD_MID] ready3 find_cmd [OF r]
    by (simp add: photo_ready_def)
  then have "DS_AppProcessMsg env buf s tr = Returns (?s3, cfs_event DS_CLOSE_CMD_EID EVS_INFORMATION tr2)"
    using cmd cmdrun by (simp add: DS_AppProcessMsg_def close_command_def store_if_listed_def ds_accept_def)
  moreover have "length (ds_FileStatus s1) = DS_DEST_FILE_CNT" using op st1 by (simp add: dest_open_def)
  then have fs3: "file_status ?s3 photo_file = (file_status s photo_file)\<lparr>fs_FileHandle := None, fs_FileAge := 0, fs_FileSize := 0, fs_FileName := []\<rparr>"
    "length (ds_FileStatus ?s3) = DS_DEST_FILE_CNT"
    using photo_less fs1 by (simp_all add: s2_def file_status_def fun_eq_iff set_status_def)
  then have "photo_closed ?s3" using op by (simp add: photo_closed_def dest_open_def)
  moreover have "cfs_sent (cfs_event DS_CLOSE_CMD_EID EVS_INFORMATION tr2) = cfs_sent tr @
    [ds_packet env DS_COMP_TLM_MID (DS_FileInfo_size env + de_UnionPad env) [(0, info), (20, print_name env name)] t]"
    using 2(3) sent1 by (simp add: cfs_event_def)
  ultimately show ?thesis using ready3 fs3 2(2) by auto
qed

lemma ds_loaded_photo: "\<exists>s. photo_ready ds_env 0 s \<and> photo_closed s \<and> ds_ok ds_env s []"
proof -
  obtain s where "ds_ok ds_env s []" "ds_FilterTbl s = Some (mission_filter_table 0)" "ds_DestFileTbl s = Some (mission_dest_table 64)"
     "hash_ok (ft_Packet (mission_filter_table 0)) DS_PACKETS_IN_FILTER_TABLE s"
     "ds_FileStatus s = replicate DS_DEST_FILE_CNT enabled_status" "ds_AppEnableState s = DS_DEF_ENABLE_STATE"
    using ds_loaded by blast
  then show ?thesis
    using photo_less by (intro exI [of _ s]) (simp add: photo_ready_def photo_closed_def enabled_status_def closed_status_def file_status_def
        ds_env_def DS_DEF_ENABLE_STATE_def DS_DISABLED_def)
qed


section \<open>Witnesses\<close>

theorem file_store_witness:
  "\<exists>s s' tr' h. DS_FileSetupWrite ds_env photo_file [1, 2, 3] s [] = (s', tr') \<and> fs_FileHandle (file_status s' photo_file) = Some h \<and>
    (\<exists>cs. written tr' h = Some (cs @ [[1, 2, 3]]) \<and>
      fs_FileSize (file_status s' photo_file) = of_nat (de_FsHeader ds_env + length (concat (cs @ [[1, 2, 3]]))) \<and>
      (unat (fs_FileSize (file_status s' photo_file)) \<le> unat (df_MaxFileSize (dest_file s' photo_file)) \<or>
       (\<exists>header. cs = [header] \<and> length header = 12 + de_MaxPath ds_env)))"
proof -
  obtain s where s: "photo_ready ds_env 0 s" "photo_closed s" "ds_ok ds_env s []" using ds_loaded_photo by blast
  have "32 \<le> de_MaxPath ds_env" by (simp add: ds_env_def)
  from SetupWrite_photo(1) [OF ds_env_succeeds this s(1,2)]
  obtain s' tr' h header where 1: "DS_FileSetupWrite ds_env photo_file [1, 2, 3] s [] = (s', tr')"
    "dest_open ds_env photo_file s' tr' h (photo_name (photo_number ds_env s [])) [header, [1, 2, 3]]" by blast
  have h: "fs_FileHandle (file_status s' photo_file) = Some h" using 1(2) by (simp add: dest_open_def)
  have "open_fresh ds_env" using ds_env_ok by (simp add: ds_env_ok_def)
  from file_store [OF this ds_ok_frame_files [OF s(3)] photo_less 1(1) h] 1(1) h show ?thesis by blast
qed

theorem age_limit_witness:
  "\<exists>s s' tr'. DS_FileTestAge ds_env DS_SECS_PER_HK_CYCLE s [] = (s', tr') \<and>
    fs_FileHandle (file_status s photo_file) = Some 7 \<and> fs_FileHandle (file_status s' photo_file) = (if df_MaxFileAge (dest_file s photo_file) \<le>
        fs_FileAge (file_status s photo_file) + DS_SECS_PER_HK_CYCLE then None else fs_FileHandle (file_status s photo_file)) \<and>
    (fs_FileHandle (file_status s' photo_file) \<noteq> None \<longrightarrow> fs_FileAge (file_status s' photo_file) =
       fs_FileAge (file_status s photo_file) + DS_SECS_PER_HK_CYCLE \<and>
       fs_FileAge (file_status s' photo_file) < df_MaxFileAge (dest_file s' photo_file))"
proof -
  let ?s = "ds_initial\<lparr>ds_DestFileTbl := Some (mission_dest_table 64),
    ds_FileStatus := (replicate DS_DEST_FILE_CNT enabled_status)[photo_file := enabled_status\<lparr>fs_FileHandle := Some 7\<rparr>]\<rparr>"
  obtain s' tr' where run: "DS_FileTestAge ds_env DS_SECS_PER_HK_CYCLE ?s [] = (s', tr')" by force
  have len: "length (ds_FileStatus ?s) = DS_DEST_FILE_CNT" "ds_DestFileTbl ?s \<noteq> None"
    "fs_FileHandle (file_status ?s photo_file) = Some 7"
    using photo_less by (simp_all add: file_status_def)
  from age_limit [OF len(1,2) photo_less run] run len(3) show ?thesis by blast
qed

text \<open>An ADD MID command: a header, then the message id.\<close>

definition add_mid_packet :: "u32 \<Rightarrow> u8 list" where
  "add_mid_packet mid = zeros 8 @ le32 mid"

theorem add_mid_cycle_witness:
  "\<exists>s s1 tr1 s2 tr2. ds_ok ds_env s [] \<and> DS_AddMIDCmd ds_env (add_mid_packet 0x0893) s [] = Returns (s1, tr1) \<and>
    DS_AddMIDCmd ds_env (add_mid_packet 0x0993) s1 tr1 = Returns (s2, tr2) \<and>
    DS_TableFindMsgID 0x0A93 s2 = Blocked"
proof -
  obtain s where s: "ds_ok ds_env s []" "ds_FilterTbl s = Some (mission_filter_table 0)"
    "hash_ok (ft_Packet (mission_filter_table 0)) DS_PACKETS_IN_FILTER_TABLE s"
    using ds_loaded by blast
  have pay: "pay32 ds_env (add_mid_packet mid) 0 = mid" for mid
    using read_le32_at [of "zeros 8" 8 mid "[]"] by (simp add: pay32_def add_mid_packet_def ds_env_def ds_cfs_def)
  have hash: "DS_TableHashFunction (pay32 ds_env (add_mid_packet 0x0993) 0) = DS_TableHashFunction (pay32 ds_env (add_mid_packet 0x0893) 0)"
    "\<forall>pe\<in>set (ft_Packet (mission_filter_table 0)). DS_TableHashFunction (pe_MessageID pe) \<noteq>
       DS_TableHashFunction (pay32 ds_env (add_mid_packet 0x0893) 0)"
    by (auto simp: pay DS_TableHashFunction_def DS_HASH_TABLE_MASK_def mission_filter_table_def stored_packet_def unused_packet_def
        HK_COMBINED_PKT1_MSGID_def PAYLOADMC_PHOTO_CHUNK_MSGID_def)
  have len: "length (ft_Packet (mission_filter_table 0)) = DS_PACKETS_IN_FILTER_TABLE"
    using mission_shapes(1) by (simp add: filter_shape_def)
  have free: "pe_MessageID (ft_Packet (mission_filter_table 0) ! 2) = de_InvalidMid ds_env"
    "pe_MessageID (ft_Packet (mission_filter_table 0) ! 3) = de_InvalidMid ds_env"
    by (simp_all add: mission_filter_table_def unused_packet_def ds_env_def nth_append)
  have valid: "cf_IsValidMsgId (de_cfs ds_env) (pay32 ds_env (add_mid_packet 0x0893) 0)"
    "cf_IsValidMsgId (de_cfs ds_env) (pay32 ds_env (add_mid_packet 0x0993) 0)"
    "pay32 ds_env (add_mid_packet 0x0993) 0 \<noteq> pay32 ds_env (add_mid_packet 0x0893) 0"
    unfolding pay by (simp_all add: ds_env_def ds_cfs_def)
  have "(3 :: nat) < DS_PACKETS_IN_FILTER_TABLE" by (simp add: DS_PACKETS_IN_FILTER_TABLE_def)
  from add_mid_cycle [OF s(3,2) len valid(1,2) hash(1) valid(3) hash(2) _ this free, of "[]"]
  obtain s1 tr1 s2 tr2 where "DS_AddMIDCmd ds_env (add_mid_packet 0x0893) s [] = Returns (s1, tr1)"
    "DS_AddMIDCmd ds_env (add_mid_packet 0x0993) s1 tr1 = Returns (s2, tr2)"
    "\<forall>mid. DS_TableHashFunction mid = DS_TableHashFunction (pay32 ds_env (add_mid_packet 0x0893) 0) \<longrightarrow>
       mid \<noteq> pay32 ds_env (add_mid_packet 0x0893) 0 \<longrightarrow> mid \<noteq> pay32 ds_env (add_mid_packet 0x0993) 0 \<longrightarrow>
       DS_TableFindMsgID mid s2 = Blocked" by auto
  moreover have "DS_TableHashFunction 0x0A93 = DS_TableHashFunction (pay32 ds_env (add_mid_packet 0x0893) 0)"
    by (simp add: pay DS_TableHashFunction_def DS_HASH_TABLE_MASK_def)
  ultimately show ?thesis using s(1) by (auto simp: pay)
qed

end
