(* ===== verification/Commands.thy ===== *)
theory Commands
  imports Cfs_Env
begin

text \<open>
  The contract that HK and DS have with the ground: a command packet is counted once, as accepted or
  as rejected, RESET COUNTERS clears both counters, and no other packet moves them. The contract is a
  locale over the message handler; what follows for any sequence of packets is proved here.
\<close>

fun handle_packets :: "(u8 list \<Rightarrow> 's \<Rightarrow> Cfs_Trace \<Rightarrow> ('s \<times> Cfs_Trace) run) \<Rightarrow> u8 list list \<Rightarrow> 's \<Rightarrow> Cfs_Trace \<Rightarrow>
    ('s \<times> Cfs_Trace) run" where
  "handle_packets step [] s tr = Returns (s, tr)"
| "handle_packets step (buf # bufs) s tr =
     run_bind (step buf s tr) (\<lambda>(s', tr'). handle_packets step bufs s' tr')"

text \<open>How many packets that count have come since the counters were cleared; \<open>n\<close> came before.\<close>

fun counted_since :: "(u8 list \<Rightarrow> bool) \<Rightarrow> (u8 list \<Rightarrow> bool) \<Rightarrow> nat \<Rightarrow> u8 list list \<Rightarrow> nat" where
  "counted_since reset counted n [] = n"
| "counted_since reset counted n (buf # bufs) =
     counted_since reset counted (if reset buf then 0 else if counted buf then n + 1 else n) bufs"

locale counted_commands =
  fixes step :: "u8 list \<Rightarrow> 's \<Rightarrow> Cfs_Trace \<Rightarrow> ('s \<times> Cfs_Trace) run"
    and accepted :: "'s \<Rightarrow> u8"
    and rejected :: "'s \<Rightarrow> u8"
    and reset :: "u8 list \<Rightarrow> bool"
    and counted :: "u8 list \<Rightarrow> bool"
  assumes step_reset: "step buf s tr = Returns (s', tr') \<Longrightarrow> reset buf \<Longrightarrow> accepted s' = 0 \<and> rejected s' = 0"
    and step_counted: "step buf s tr = Returns (s', tr') \<Longrightarrow> \<not> reset buf \<Longrightarrow> counted buf \<Longrightarrow>
      accepted s' = accepted s + 1 \<and> rejected s' = rejected s \<or>
      accepted s' = accepted s \<and> rejected s' = rejected s + 1"
    and step_other: "step buf s tr = Returns (s', tr') \<Longrightarrow> \<not> reset buf \<Longrightarrow> \<not> counted buf \<Longrightarrow>
      accepted s' = accepted s \<and> rejected s' = rejected s"
begin

lemma step_sum:
  assumes "step buf s tr = Returns (s', tr')" "accepted s + rejected s = of_nat n"
  shows "accepted s' + rejected s' = of_nat (if reset buf then 0 else if counted buf then n + 1 else n)"
  using step_reset [OF assms(1)] step_counted [OF assms(1)] step_other [OF assms(1)] assms(2)
  by (auto simp: ac_simps)

lemma account:
  "handle_packets step bufs s tr = Returns (s', tr') \<Longrightarrow> accepted s + rejected s = of_nat n \<Longrightarrow>
   accepted s' + rejected s' = of_nat (counted_since reset counted n bufs)"
proof (induction bufs arbitrary: s tr n)
  case (Cons buf bufs)
  from Cons.prems(1) obtain s1 tr1 where "step buf s tr = Returns (s1, tr1)"
    "handle_packets step bufs s1 tr1 = Returns (s', tr')"
    by (auto simp: run_bind_Returns_iff)
  with Cons.IH step_sum Cons.prems(2) show ?case by simp
qed simp

end

end
