(* ===== verification/Ds_Counts.thy ===== *)
theory Ds_Counts
  imports Ds_App Commands
begin

text \<open>
  The two command counters of DS, and that nothing moves them but the commands: neither storing a
  packet nor housekeeping nor an update of a table.
\<close>

section \<open>The counters\<close>

definition counts :: "DS_AppData \<Rightarrow> u8 \<times> u8" where
  "counts s = (ds_CmdAcceptedCounter s, ds_CmdRejectedCounter s)"

lemma counts_simps [simp]:
  "counts (set_status i f s) = counts s" "counts (set_packet k g s) = counts s" "counts (set_filter k j h s) = counts s"
  "counts (set_dest i d s) = counts s" "counts (set_link k l s) = counts s" "counts (s\<lparr>ds_HashTable := t\<rparr>) = counts s"
  "counts (s\<lparr>ds_HashLinks := ls\<rparr>) = counts s" "counts (s\<lparr>ds_AppEnableState := b\<rparr>) = counts s"
  "counts (s\<lparr>ds_DataStoreHandle := c\<rparr>) = counts s"
  "counts (s\<lparr>ds_FileUpdateCounter := n\<rparr>) = counts s" "counts (s\<lparr>ds_FileUpdateErrCounter := n\<rparr>) = counts s"
  by (simp_all add: counts_def set_status_def set_packet_def set_filter_def set_dest_def set_link_def)

lemma counts_set_simps [simp]:
  "counts (s\<lparr>ds_FileWriteCounter := w\<rparr>) = counts s" "counts (s\<lparr>ds_FileWriteErrCounter := w\<rparr>) = counts s"
  "counts (s\<lparr>ds_DisabledPktCounter := d\<rparr>) = counts s" "counts (s\<lparr>ds_IgnoredPktCounter := d\<rparr>) = counts s"
  "counts (s\<lparr>ds_FilteredPktCounter := d\<rparr>) = counts s" "counts (s\<lparr>ds_PassedPktCounter := d\<rparr>) = counts s"
  "counts (s\<lparr>ds_FileStatus := f\<rparr>) = counts s" "counts (s\<lparr>ds_DestFileTbl := dt\<rparr>) = counts s"
  "counts (s\<lparr>ds_FilterTbl := ft\<rparr>) = counts s" "counts (s\<lparr>ds_DestTblLoadCounter := c\<rparr>) = counts s"
  "counts (s\<lparr>ds_DestTblErrCounter := c\<rparr>) = counts s" "counts (s\<lparr>ds_FilterTblLoadCounter := c\<rparr>) = counts s"
  "counts (s\<lparr>ds_FilterTblErrCounter := c\<rparr>) = counts s"
  by (simp_all add: counts_def)

lemma counts_UpdateCDS: "DS_TableUpdateCDS env s tr = (s', tr') \<Longrightarrow> counts s' = counts s"
  by (auto simp: DS_TableUpdateCDS_def split: if_splits prod.splits)

lemma counts_UpdateHeader: "DS_FileUpdateHeader env i s tr = (s', tr') \<Longrightarrow> counts s' = counts s"
  by (auto simp: DS_FileUpdateHeader_def Let_def split: if_splits prod.splits)

lemma counts_CloseDest: "DS_FileCloseDest env i s tr = (s', tr') \<Longrightarrow> counts s' = counts s"
  by (auto simp: DS_FileCloseDest_def Let_def split: prod.splits)

lemma counts_close_open: "close_open env i s tr = Returns (s', tr') \<Longrightarrow> counts s' = counts s"
  using counts_UpdateHeader counts_CloseDest
  by (fastforce simp: close_open_def split: if_splits prod.splits)

lemma counts_close_all: "close_all_loop env js s tr = Returns (s', tr') \<Longrightarrow> counts s' = counts s"
  using counts_close_open by (induction js arbitrary: s tr) (fastforce simp: run_bind_Returns_iff)+

lemma counts_AddMsgID: "DS_TableAddMsgID mid i s = Returns s' \<Longrightarrow> counts s' = counts s"
  by (auto simp: DS_TableAddMsgID_def Let_def split: option.splits)

lemma counts_add_all: "add_all_ids packets js s = Returns s' \<Longrightarrow> counts s' = counts s"
  using counts_AddMsgID by (induction js arbitrary: s) (fastforce simp: run_bind_Returns_iff)+

lemma counts_CreateHash: "DS_TableCreateHash t s = Returns s' \<Longrightarrow> counts s' = counts s"
  using counts_add_all by (fastforce simp: DS_TableCreateHash_def)

section \<open>Storing and housekeeping\<close>

lemma counts_count_write [simp]: "counts (count_write i n s) = counts s"
  by (simp add: count_write_def)

lemma counts_WriteError: "DS_FileWriteError env i s tr = (s', tr') \<Longrightarrow> counts s' = counts s"
  by (auto simp: DS_FileWriteError_def split: prod.splits dest!: counts_CloseDest)

lemma counts_WriteData: "DS_FileWriteData env i bytes s tr = (s', tr') \<Longrightarrow> counts s' = counts s"
  by (auto simp: DS_FileWriteData_def Let_def split: if_splits dest: counts_WriteError)

lemma counts_WriteHeader: "DS_FileWriteHeader env i s tr = (s', tr') \<Longrightarrow> counts s' = counts s"
  by (auto simp: DS_FileWriteHeader_def Let_def split: if_splits dest!: counts_WriteError)

lemma counts_CreateName: "DS_FileCreateName env i s tr = (s', tr') \<Longrightarrow> counts s' = counts s"
  by (auto simp: DS_FileCreateName_def Let_def split: if_splits)

lemma counts_CreateDest: "DS_FileCreateDest env i s tr = (s', tr') \<Longrightarrow> counts s' = counts s"
  by (auto simp: DS_FileCreateDest_def Let_def split: prod.splits if_splits option.splits
      dest!: counts_CreateName counts_WriteHeader counts_UpdateCDS)

lemma counts_SetupWrite: "DS_FileSetupWrite env i buf s tr = (s', tr') \<Longrightarrow> counts s' = counts s"
  by (auto simp: DS_FileSetupWrite_def Let_def split: prod.splits if_splits
      dest!: counts_CreateDest counts_WriteData counts_UpdateHeader counts_CloseDest)

lemma counts_store_loop: "store_loop env buf fps passed s tr = (p, s', tr') \<Longrightarrow> counts s' = counts s"
  by (induction fps arbitrary: passed s tr) (auto split: if_splits prod.splits dest!: counts_SetupWrite)

lemma counts_FileStorePacket:
  assumes "DS_FileStorePacket env mid buf s tr = Returns (s', tr')"
  shows "counts s' = counts s"
proof -
  from assms obtain found where "DS_TableFindMsgID mid s = Returns found"
    by (auto simp: DS_FileStorePacket_def run_bind_Returns_iff)
  note run = assms [unfolded DS_FileStorePacket_def this run_bind.simps]
  show ?thesis
  proof (cases found)
    case (Some k)
    obtain passed s1 tr1 where "store_loop env buf (pe_Filter (ft_Packet (the (ds_FilterTbl s)) ! k)) False s tr =
        (passed, s1, tr1)" by (rule prod_cases3)
    with run Some counts_store_loop [OF this] show ?thesis by (auto split: if_splits)
  qed (use run in auto)
qed

lemma counts_StorePacket: "DS_AppStorePacket env mid buf s tr = Returns (s', tr') \<Longrightarrow> counts s' = counts s"
  by (auto simp: DS_AppStorePacket_def split: if_splits dest: counts_FileStorePacket)

lemma counts_store_if_listed: "store_if_listed env mid buf s tr = Returns (s', tr') \<Longrightarrow> counts s' = counts s"
  by (auto simp: store_if_listed_def run_bind_Returns_iff split: if_splits dest!: counts_StorePacket)

lemma counts_test_age: "test_age_loop env secs js s tr = (s', tr') \<Longrightarrow> counts s' = counts s"
  by (induction js arbitrary: s tr)
    (auto simp: Let_def split: if_splits prod.splits dest!: counts_UpdateHeader counts_CloseDest)

lemma counts_TestAge: "DS_FileTestAge env secs s tr = (s', tr') \<Longrightarrow> counts s' = counts s"
  by (auto simp: DS_FileTestAge_def split: if_splits dest: counts_test_age)

lemma counts_adopt_dest: "adopt_dest_table env s tr = Returns (s', tr') \<Longrightarrow> counts s' = counts s"
  by (auto simp: adopt_dest_table_def split: option.splits dest!: counts_UpdateCDS)

lemma counts_ManageDestFile: "DS_TableManageDestFile env s tr = Returns (s', tr') \<Longrightarrow> counts s' = counts s"
  by (auto simp: DS_TableManageDestFile_def Let_def split: if_splits prod.splits dest!: counts_adopt_dest)

lemma counts_adopt_filter: "adopt_filter_table env s tr = Returns (s', tr') \<Longrightarrow> counts s' = counts s"
  by (auto simp: adopt_filter_table_def run_bind_Returns_iff split: option.splits dest!: counts_CreateHash)

lemma counts_ManageFilter: "DS_TableManageFilter env s tr = Returns (s', tr') \<Longrightarrow> counts s' = counts s"
  by (auto simp: DS_TableManageFilter_def Let_def split: if_splits prod.splits option.splits dest!: counts_adopt_filter)

lemma counts_file_rates [simp]: "counts (file_rates s) = counts s"
  by (simp add: file_rates_def)

lemma counts_SendHk:
  assumes "DS_AppSendHkCmd env s tr = Returns (s', tr')"
  shows "counts s' = counts s"
proof -
  obtain s1 tr1 where 1: "DS_FileTestAge env DS_SECS_PER_HK_CYCLE s tr = (s1, tr1)" by (rule prod.exhaust)
  from assms obtain s2 tr2 s3 tr3 where 2: "DS_TableManageDestFile env s1 tr1 = Returns (s2, tr2)"
    "DS_TableManageFilter env s2 tr2 = Returns (s3, tr3)"
    unfolding DS_AppSendHkCmd_def 1 by (auto simp: run_bind_Returns_iff)
  from assms have "s' = file_rates s3"
    unfolding DS_AppSendHkCmd_def 1 by (simp add: 2 Let_def case_prod_beta)
  with 1 2 show ?thesis by (simp add: counts_TestAge counts_ManageDestFile counts_ManageFilter)
qed

lemma counts_SendHkVerify:
  "DS_SendHkVerifyDispatch env buf s tr = Returns (s', tr') \<Longrightarrow>
   counts s' = (if length buf = cf_CmdHeader (de_cfs env) then counts s
     else (ds_CmdAcceptedCounter s, ds_CmdRejectedCounter s + 1))"
  by (auto simp: DS_SendHkVerifyDispatch_def verify_dispatch_def DS_VerifyLength_def split: if_splits
      dest!: counts_SendHk) (simp add: counts_def)

end
