(* ===== verification/Ds_Answers.thy ===== *)
theory Ds_Answers
  imports Ds_Mission Ds_Counts
begin

text \<open>
  The answer to a command of DS: it is either accepted and counted as accepted, or rejected, which is
  counted and reported and changes nothing else.
\<close>

section \<open>Answers\<close>

definition answered :: "DS_AppData \<Rightarrow> Cfs_Trace \<Rightarrow> (DS_AppData \<times> Cfs_Trace) run \<Rightarrow> bool" where
  "answered s tr r \<longleftrightarrow> (\<forall>s' tr'. r = Returns (s', tr') \<longrightarrow>
     counts s' = (ds_CmdAcceptedCounter s + 1, ds_CmdRejectedCounter s) \<or> (\<exists>eid. (s', tr') = ds_reject eid s tr))"

lemma answered_reject [intro]: "answered s tr (Returns (ds_reject eid s tr))"
  by (simp add: answered_def) metis

lemma counts_accept: "counts s1 = counts s \<Longrightarrow>
    counts (fst (ds_accept eid s1 tr1)) = (ds_CmdAcceptedCounter s + 1, ds_CmdRejectedCounter s)"
  by (simp add: counts_def ds_accept_def)

lemma answered_accept: "counts s1 = counts s \<Longrightarrow> answered s tr (Returns (ds_accept eid s1 tr1))"
  by (auto simp: answered_def) (metis counts_accept fst_conv)

lemma answered_if: "(c \<Longrightarrow> answered s tr a) \<Longrightarrow> (\<not> c \<Longrightarrow> answered s tr b) \<Longrightarrow> answered s tr (if c then a else b)"
  by simp

lemma answered_bind: "(\<And>x. r = Returns x \<Longrightarrow> answered s tr (f x)) \<Longrightarrow> answered s tr (run_bind r f)"
  by (cases r) (auto simp: answered_def)

lemma answered_accept_of: "(\<And>s1 tr1. p = (s1, tr1) \<Longrightarrow> counts s1 = counts s) \<Longrightarrow>
    answered s tr (Returns (case p of (s1, tr1) \<Rightarrow> ds_accept eid s1 tr1))"
  by (cases p) (simp add: answered_accept)

lemmas answered_rules = answered_if answered_bind answered_reject answered_accept

lemma filter_commands_answered:
  "answered s tr (DS_SetFilterFileCmd env buf s tr)" "answered s tr (DS_SetFilterTypeCmd env buf s tr)"
  "answered s tr (DS_SetFilterParmsCmd env buf s tr)"
  unfolding DS_SetFilterFileCmd_def DS_SetFilterTypeCmd_def DS_SetFilterParmsCmd_def Let_def
  by (intro answered_rules; auto split: option.splits intro: answered_rules)+

lemma dest_commands_answered:
  "answered s tr (Returns (DS_SetDestTypeCmd env buf s tr))" "answered s tr (Returns (DS_SetDestStateCmd env buf s tr))"
  "answered s tr (Returns (DS_SetDestPathCmd env buf s tr))" "answered s tr (Returns (DS_SetDestBaseCmd env buf s tr))"
  "answered s tr (Returns (DS_SetDestExtCmd env buf s tr))" "answered s tr (Returns (DS_SetDestSizeCmd env buf s tr))"
  "answered s tr (Returns (DS_SetDestAgeCmd env buf s tr))"
  by (auto simp: DS_SetDestTypeCmd_def DS_SetDestStateCmd_def DS_SetDestPathCmd_def DS_SetDestBaseCmd_def DS_SetDestExtCmd_def
      DS_SetDestSizeCmd_def DS_SetDestAgeCmd_def Let_def intro: answered_accept)

lemma stored_commands_answered:
  "answered s tr (Returns (DS_SetDestCountCmd env buf s tr))" "answered s tr (Returns (DS_SetAppStateCmd env buf s tr))"
  by (auto simp: DS_SetDestCountCmd_def DS_SetAppStateCmd_def Let_def dest: counts_UpdateCDS
      intro!: answered_accept split: prod.splits)

lemma file_commands_answered:
  "answered s tr (DS_CloseFileCmd env buf s tr)" "answered s tr (DS_CloseAllCmd env s tr)"
  "answered s tr (Returns (DS_GetFileInfoCmd env s tr))" "answered s tr (Returns (DS_NoopCmd s tr))"
  by (auto simp: DS_CloseFileCmd_def DS_CloseAllCmd_def Let_def dest: counts_close_open counts_close_all
      intro!: answered_bind answered_accept)
    (auto simp: answered_def DS_GetFileInfoCmd_def DS_NoopCmd_def ds_accept_def counts_def)

lemma mid_commands_answered:
  "answered s tr (DS_AddMIDCmd env buf s tr)" "answered s tr (DS_RemoveMIDCmd env buf s tr)"
  unfolding DS_AddMIDCmd_def DS_RemoveMIDCmd_def Let_def
  by (intro answered_rules; auto split: option.splits dest: counts_AddMsgID counts_CreateHash intro!: answered_rules)+

lemma answered_dispatch:
  assumes "answered s tr (handle s tr)"
  shows "answered s tr (verify_dispatch env buf n eid handle s tr)"
  using assms answered_reject [of s tr eid]
  by (simp add: verify_dispatch_def DS_VerifyLength_def ds_reject_def)

lemma reset_answered:
  "length buf \<noteq> cf_CmdHeader (de_cfs env) \<Longrightarrow> answered s tr (DS_ResetVerifyDispatch env buf s tr)"
  using answered_reject [of s tr DS_RESET_CMD_ERR_EID]
  by (simp add: DS_ResetVerifyDispatch_def verify_dispatch_def DS_VerifyLength_def ds_reject_def)

lemma unknown_answered:
  "answered s tr (Returns (s\<lparr>ds_CmdRejectedCounter := ds_CmdRejectedCounter s + 1\<rparr>, cfs_event DS_CC_ERR_EID EVS_ERROR tr))"
  using answered_reject [of s tr DS_CC_ERR_EID] by (simp add: ds_reject_def)

lemmas ds_commands_answered = filter_commands_answered dest_commands_answered stored_commands_answered
  file_commands_answered mid_commands_answered

lemma dispatch_answered:
  "answered s tr (DS_NoopVerifyDispatch env buf s tr)" "answered s tr (DS_SetAppStateVerifyDispatch env buf s tr)"
  "answered s tr (DS_SetFilterFileVerifyDispatch env buf s tr)" "answered s tr (DS_SetFilterTypeVerifyDispatch env buf s tr)"
  "answered s tr (DS_SetFilterParmsVerifyDispatch env buf s tr)" "answered s tr (DS_SetDestTypeVerifyDispatch env buf s tr)"
  "answered s tr (DS_SetDestStateVerifyDispatch env buf s tr)" "answered s tr (DS_SetDestPathVerifyDispatch env buf s tr)"
  "answered s tr (DS_SetDestBaseVerifyDispatch env buf s tr)" "answered s tr (DS_SetDestExtVerifyDispatch env buf s tr)"
  "answered s tr (DS_SetDestSizeVerifyDispatch env buf s tr)" "answered s tr (DS_SetDestAgeVerifyDispatch env buf s tr)"
  "answered s tr (DS_SetDestCountVerifyDispatch env buf s tr)" "answered s tr (DS_CloseFileVerifyDispatch env buf s tr)"
  "answered s tr (DS_GetFileInfoVerifyDispatch env buf s tr)" "answered s tr (DS_AddMIDVerifyDispatch env buf s tr)"
  "answered s tr (DS_RemoveMIDVerifyDispatch env buf s tr)" "answered s tr (DS_CloseAllVerifyDispatch env buf s tr)"
  unfolding ds_verify_dispatch_defs by (rule answered_dispatch, rule ds_commands_answered)+

lemma reset_clears:
  assumes "DS_AppProcessCmd env buf s tr = Returns (s', tr')"
    and "cf_FcnCode (de_cfs env) buf = DS_RESET_COUNTERS_CC" "length buf = cf_CmdHeader (de_cfs env)"
  shows "counts s' = (0, 0)"
proof -
  have "DS_AppProcessCmd env buf s tr = DS_ResetVerifyDispatch env buf s tr"
    using assms(2) by (simp add: DS_AppProcessCmd_def DS_NOOP_CC_def DS_RESET_COUNTERS_CC_def)
  then show ?thesis using assms(1,3)
    by (auto simp: counts_def DS_ResetVerifyDispatch_def verify_dispatch_def DS_VerifyLength_def DS_ResetCountersCmd_def)
qed

lemma process_answered:
  assumes "\<not> (cf_FcnCode (de_cfs env) buf = DS_RESET_COUNTERS_CC \<and> length buf = cf_CmdHeader (de_cfs env))"
  shows "answered s tr (DS_AppProcessCmd env buf s tr)"
  unfolding DS_AppProcessCmd_def Let_def
  by (intro answered_if unknown_answered dispatch_answered reset_answered) (use assms in blast)

section \<open>The contract with the ground\<close>

definition ds_reset :: "Ds_Env \<Rightarrow> u8 list \<Rightarrow> bool" where
  "ds_reset env buf \<longleftrightarrow> cf_MsgId (de_cfs env) buf = DS_CMD_MID \<and>
     cf_FcnCode (de_cfs env) buf = DS_RESET_COUNTERS_CC \<and> length buf = cf_CmdHeader (de_cfs env)"

text \<open>A housekeeping request of a wrong length is counted as a rejected command as well.\<close>

definition ds_counted :: "Ds_Env \<Rightarrow> u8 list \<Rightarrow> bool" where
  "ds_counted env buf \<longleftrightarrow> cf_MsgId (de_cfs env) buf = DS_CMD_MID \<or>
     cf_MsgId (de_cfs env) buf = DS_SEND_HK_MID \<and> length buf \<noteq> cf_CmdHeader (de_cfs env)"

lemma command_counts:
  assumes "DS_AppProcessMsg env buf s tr = Returns (s', tr')" "cf_MsgId (de_cfs env) buf = DS_CMD_MID"
  obtains s1 tr1 where "DS_AppProcessCmd env buf s tr = Returns (s1, tr1)" "counts s' = counts s1"
  using assms by (auto simp: DS_AppProcessMsg_def run_bind_Returns_iff dest: counts_store_if_listed)

lemma message_counts:
  assumes "DS_AppProcessMsg env buf s tr = Returns (s', tr')" "cf_MsgId (de_cfs env) buf \<noteq> DS_CMD_MID"
  shows "counts s' = (if ds_counted env buf then (ds_CmdAcceptedCounter s, ds_CmdRejectedCounter s + 1) else counts s)"
  using assms by (auto simp: DS_AppProcessMsg_def Let_def run_bind_Returns_iff ds_counted_def split: if_splits
      dest!: counts_store_if_listed counts_SendHkVerify dest: counts_StorePacket)

interpretation ds: counted_commands "DS_AppProcessMsg env" ds_CmdAcceptedCounter ds_CmdRejectedCounter
  "ds_reset env" "ds_counted env"
proof
  fix buf s tr s' tr'
  assume run: "DS_AppProcessMsg env buf s tr = Returns (s', tr')"
  show "ds_CmdAcceptedCounter s' = 0 \<and> ds_CmdRejectedCounter s' = 0" if "ds_reset env buf"
  proof -
    from that obtain s1 tr1 where "DS_AppProcessCmd env buf s tr = Returns (s1, tr1)" "counts s' = counts s1"
      by (auto simp: ds_reset_def intro: command_counts [OF run])
    with reset_clears [of env buf s tr s1 tr1] that show ?thesis by (simp add: ds_reset_def counts_def)
  qed
  show "ds_CmdAcceptedCounter s' = ds_CmdAcceptedCounter s + 1 \<and> ds_CmdRejectedCounter s' = ds_CmdRejectedCounter s \<or>
      ds_CmdAcceptedCounter s' = ds_CmdAcceptedCounter s \<and> ds_CmdRejectedCounter s' = ds_CmdRejectedCounter s + 1"
    if c: "\<not> ds_reset env buf" "ds_counted env buf"
  proof (cases "cf_MsgId (de_cfs env) buf = DS_CMD_MID")
    case True
    then obtain s1 tr1 where "DS_AppProcessCmd env buf s tr = Returns (s1, tr1)" "counts s' = counts s1"
      by (rule command_counts [OF run])
    with process_answered [of env buf s tr] True c(1) show ?thesis
      by (auto simp: answered_def ds_reset_def ds_reject_def counts_def)
  qed (use message_counts [OF run] c(2) in \<open>simp add: counts_def\<close>)
  show "ds_CmdAcceptedCounter s' = ds_CmdAcceptedCounter s \<and> ds_CmdRejectedCounter s' = ds_CmdRejectedCounter s"
    if "\<not> ds_reset env buf" "\<not> ds_counted env buf"
    using message_counts [OF run] that(2) by (auto simp: counts_def ds_counted_def)
qed



end
