(* ===== verification/Hk_Answers.thy ===== *)
theory Hk_Answers
  imports Hk_App Commands
begin

text \<open>HK counts its commands: the contract of \<open>Commands\<close> for \<open>HK_AppPipe\<close>.\<close>

definition hk_counts :: "HK_AppData \<Rightarrow> u8 \<times> u8" where
  "hk_counts s = (hk_CmdCounter s, hk_ErrCounter s)"

definition hk_reset :: "Cfs_Env \<Rightarrow> u8 list \<Rightarrow> bool" where
  "hk_reset env buf \<longleftrightarrow> cf_MsgId env buf = HK_CMD_MID \<and> cf_FcnCode env buf = HK_RESET_COUNTERS_CC \<and>
     length buf = cf_CmdHeader env"

definition hk_counted :: "Cfs_Env \<Rightarrow> u8 list \<Rightarrow> bool" where
  "hk_counted env buf \<longleftrightarrow> cf_MsgId env buf = HK_CMD_MID"

lemma hk_counts_combined:
  "HK_SendCombinedPktVerifyDispatch env buf s tr = Returns (s', tr') \<Longrightarrow> hk_counts s' = hk_counts s"
  by (auto simp: HK_SendCombinedPktVerifyDispatch_def HK_SendCombinedPktCmd_def HK_SendCombinedHkPacket_def HK_VerifyMsgLength_def
      send_packet_def hk_counts_def Let_def run_bind_Returns_iff split: if_splits option.splits prod.splits)

lemma hk_counts_incoming:
  "HK_ProcessIncomingHkData env buf s tr = Returns (s', tr') \<Longrightarrow> hk_counts s' = hk_counts s"
  by (auto simp: HK_ProcessIncomingHkData_def hk_counts_def run_bind_Returns_iff split: option.splits)

lemma hk_counts_send:
  "hk_counts (fst (HK_SendHkVerifyDispatch env buf s tr)) = hk_counts s"
  by (auto simp: HK_SendHkVerifyDispatch_def HK_VerifyMsgLength_def HK_SendHkCmd_def hk_counts_def Let_def)

lemma hk_counts_tear_down: "HK_TearDownOldCopyTable env s tr = (ok, s', tr') \<Longrightarrow> hk_counts s' = hk_counts s"
  by (auto simp: HK_TearDownOldCopyTable_def hk_counts_def split: option.splits prod.splits)

lemma hk_counts_new: "HK_ProcessNewCopyTable env s tr = (ok, s', tr') \<Longrightarrow> hk_counts s' = hk_counts s"
  by (auto simp: HK_ProcessNewCopyTable_def hk_counts_def split: option.splits prod.splits)

lemma hk_counts_table [simp]: "hk_counts (s\<lparr>hk_CopyTable := t\<rparr>) = hk_counts s"
  "hk_counts (s\<lparr>hk_RunStatus := r\<rparr>) = hk_counts s"
  by (simp_all add: hk_counts_def)

lemma hk_counts_update: "update_copy_table env tb s tr = (status, s', tr') \<Longrightarrow> hk_counts s' = hk_counts s"
  by (auto simp: update_copy_table_def hk_unexpected_def Let_def split: prod.splits if_splits
      dest!: hk_counts_tear_down hk_counts_new)

lemma hk_counts_copy_table: "HK_CheckStatusOfCopyTable env tb s tr = (status, s', tr') \<Longrightarrow> hk_counts s' = hk_counts s"
  using hk_counts_update
  by (fastforce simp: HK_CheckStatusOfCopyTable_def hk_unexpected_def split: prod.splits if_splits)

lemma hk_counts_dump_table: "HK_CheckStatusOfDumpTable env s tr = (status, s', tr') \<Longrightarrow> s' = s"
  by (auto simp: HK_CheckStatusOfDumpTable_def hk_unexpected_def split: prod.splits if_splits)

lemma hk_counts_check: "hk_counts (fst (check_tables env tb s tr)) = hk_counts s"
  by (auto simp: check_tables_def HK_CheckStatusOfTables_def split: prod.splits
      dest!: hk_counts_copy_table hk_counts_dump_table)

interpretation hk: counted_commands "HK_AppPipe env tb" hk_CmdCounter hk_ErrCounter "hk_reset env" "hk_counted env"
proof
  fix buf s tr s' tr'
  assume run: "HK_AppPipe env tb buf s tr = Returns (s', tr')"
  note simps = HK_AppPipe_def HK_NoopVerifyDispatch_def HK_ResetCountersVerifyDispatch_def HK_VerifyCmdLength_def
    HK_NoopCmd_def HK_ResetCountersCmd_def HK_ResetHkData_def hk_reset_def hk_counted_def
  show "hk_CmdCounter s' = 0 \<and> hk_ErrCounter s' = 0" if "hk_reset env buf"
    using run that by (auto simp: simps HK_NOOP_CC_def HK_RESET_COUNTERS_CC_def HK_CMD_MID_def
        HK_SEND_HK_MID_def HK_SEND_COMBINED_PKT_MID_def)
  show "hk_CmdCounter s' = hk_CmdCounter s + 1 \<and> hk_ErrCounter s' = hk_ErrCounter s \<or>
      hk_CmdCounter s' = hk_CmdCounter s \<and> hk_ErrCounter s' = hk_ErrCounter s + 1"
    if "\<not> hk_reset env buf" "hk_counted env buf"
    using run that by (auto simp: simps Let_def HK_CMD_MID_def
        HK_SEND_HK_MID_def HK_SEND_COMBINED_PKT_MID_def split: if_splits prod.splits)
  show "hk_CmdCounter s' = hk_CmdCounter s \<and> hk_ErrCounter s' = hk_ErrCounter s"
    if "\<not> hk_reset env buf" "\<not> hk_counted env buf"
  proof -
    have "hk_counts s' = hk_counts s"
      using run that hk_counts_combined [of env buf s tr s' tr'] hk_counts_incoming [of env buf s tr s' tr']
        hk_counts_send [of env buf s tr] hk_counts_check [of env tb "fst (HK_SendHkVerifyDispatch env buf s tr)"
          "snd (HK_SendHkVerifyDispatch env buf s tr)"]
      by (auto simp: HK_AppPipe_def hk_counted_def Let_def split: if_splits prod.splits)
    then show ?thesis by (simp add: hk_counts_def)
  qed
qed

end
