(* ===== verification/Accounts.thy ===== *)
theory Accounts
  imports Ds_Answers Hk_Answers Hk_Tables
begin





end
