(* ===== verification/Photo_Archive.thy ===== *)
theory Photo_Archive
  imports Payload_App Ds_Photo
begin

text \<open>
  The payload application and DS together: what the one publishes of a captured frame is what the other
  archives. The payload application builds its packets as C structures, DS reads bytes; \<open>bus_bytes\<close>
  says how the software bus presents the one as the other.
\<close>

section \<open>Packets as bytes\<close>

definition bus_bytes :: "Ds_Env \<Rightarrow> (SB_Msg \<Rightarrow> u8 list) \<Rightarrow> bool" where
  "bus_bytes env enc \<longleftrightarrow> (\<forall>m. cf_MsgId (de_cfs env) (enc m) = ucast (mid_value m)) \<and>
     (\<forall>p. length (enc (PAYLOADMC_PHOTO_CHUNK_MID p)) = cf_TlmHeader (de_cfs env) + 2 + length (ph_ChunkData p)) \<and>
     (\<forall>cc p. length (enc (Flight_Msgs.DS_CMD_MID cc p)) = cf_CmdHeader (de_cfs env) + 4 \<and>
        cf_FcnCode (de_cfs env) (enc (Flight_Msgs.DS_CMD_MID cc p)) = ucast cc \<and>
        pay16 env (enc (Flight_Msgs.DS_CMD_MID cc p)) 0 = dc_FileTableIndex p)"

text \<open>Sizes of the configuration that leave room for the name and the headers.\<close>

definition archive_sizes :: "Ds_Env \<Rightarrow> bool" where
  "archive_sizes env \<longleftrightarrow> 32 \<le> de_MaxPath env \<and> de_MaxPath env \<le> 4096 \<and> de_FsHeader env \<le> 4096 \<and>
     cf_TlmHeader (de_cfs env) \<le> 64"

lemma chunk_packet:
  assumes "bus_bytes env enc" "length c \<le> PAYLOADMC_PHOTO_CHUNK_MAX_PAYLOAD"
  shows "cf_MsgId (de_cfs env) (enc (photo_chunk c)) = PAYLOADMC_PHOTO_CHUNK_MSGID"
    "length (enc (photo_chunk c)) = cf_TlmHeader (de_cfs env) + 8194"
  using assms by (simp_all add: bus_bytes_def photo_chunk_def PAYLOADMC_PHOTO_CHUNK_MSGID_def
      PAYLOADMC_PHOTO_CHUNK_MAX_PAYLOAD_def zero_filled_def)

lemma close_packet:
  assumes "bus_bytes env enc"
  shows "close_command env (enc close_photo_cmd)"
  using assms by (simp add: bus_bytes_def close_command_def close_photo_cmd_def Ds_State.DS_CMD_MID_def
      Payload_App.DS_CLOSE_FILE_CC_def Ds_State.DS_CLOSE_FILE_CC_def PAYLOADMC_DS_PHOTO_FILE_INDEX_def PHOTO_DATA_FILE_def)

lemma archive_room:
  assumes sizes: "archive_sizes env" and bus: "bus_bytes env enc"
    and cs: "\<forall>c\<in>set cs. length c \<le> PAYLOADMC_PHOTO_CHUNK_MAX_PAYLOAD" "length cs \<le> 8193"
  shows "de_FsHeader env + 12 + de_MaxPath env + length (concat (map (enc \<circ> photo_chunk) cs)) \<le> 256 * 1024 * 1024"
proof -
  have "length (concat (map (enc \<circ> photo_chunk) cs)) = length cs * (cf_TlmHeader (de_cfs env) + 8194)"
    using cs(1) chunk_packet(2) [OF bus] by (induction cs) auto
  also have "\<dots> \<le> 8193 * (64 + 8194)" using cs(2) sizes by (intro mult_le_mono) (simp_all add: archive_sizes_def)
  finally show ?thesis using sizes by (simp add: archive_sizes_def)
qed

section \<open>One capture, one file\<close>

text \<open>C2. End to end, from the frame a camera streamed to the file DS archives it in. When the payload application has not counted an error, DS makes of the packets it published one file: named after the next number, with the file headers and then every chunk whole and in order, from which the frame can be read back. The close command the application sends then closes it, reports its name in a completion packet, and leaves DS ready for the next capture, which gets the next number. This is with an operating system that does not fail and a filter and destination file table as the mission loads them.\<close>

theorem photo_archive:
  assumes env: "calls_succeed env" "string_get_ok env" "archive_sizes env" "bus_bytes env enc"
    and ds: "photo_ready env r s" "photo_closed s" "r \<noteq> DS_CMD_MID"
    and cap: "py_IsImaging p" "PAYLOADMC_GVCP_HAL_CaptureFrame (env_stream penv ptr) = Returns (CFE_SUCCESS, Some frame)"
      "PAYLOADMC_captureFrame penv p ptr = Returns (p', ptr')" "py_ErrCounter p' = py_ErrCounter p"
  shows "\<exists>got s1 tr1 s2 tr2 h header info t.
    sb_delivered ptr' = sb_delivered ptr @ map photo_chunk got @ [close_photo_cmd] \<and>
    concat (map (chunk_bytes \<circ> photo_chunk) got) = frame \<and>
    process_all env (map (enc \<circ> photo_chunk) got) s tr = Returns (s1, tr1) \<and> length header = 12 + de_MaxPath env \<and>
    dest_open env photo_file s1 tr1 h (photo_name (photo_number env s tr)) (header # map (enc \<circ> photo_chunk) got) \<and>
    DS_AppProcessMsg env (enc close_photo_cmd) s1 tr1 = Returns (s2, tr2) \<and> opened tr2 h = None \<and>
    photo_ready env r s2 \<and> photo_closed s2 \<and>
    fs_FileCount (file_status s2 photo_file) = next_count (fs_FileCount (file_status s photo_file)) \<and>
    cfs_sent tr2 = cfs_sent tr1 @ [ds_packet env Ds_State.DS_COMP_TLM_MID (DS_FileInfo_size env + de_UnionPad env)
      [(0, info), (20, print_name env (photo_name (photo_number env s tr)))] t]"
proof -
  let ?cs = "chunks PAYLOADMC_PHOTO_CHUNK_MAX_PAYLOAD frame"
  obtain got where got: "sb_delivered ptr' = sb_delivered ptr @ map photo_chunk got @ [close_photo_cmd]"
    "subseq got ?cs" "concat (map (chunk_bytes \<circ> photo_chunk) got) = frame"
    using capture_delivers [OF cap(1-3)] cap(4) by auto
  have max: "32 \<le> de_MaxPath env" using env(3) by (simp add: archive_sizes_def)
  have short: "\<forall>c\<in>set got. length c \<le> PAYLOADMC_PHOTO_CHUNK_MAX_PAYLOAD"
  proof
    fix c assume "c \<in> set got"
    then obtain c' where "c' \<in> set ?cs" "c = c'" using list_emb_set [OF got(2)] by metis
    then have "c \<in> set ?cs" by simp
    then show "length c \<le> PAYLOADMC_PHOTO_CHUNK_MAX_PAYLOAD" by (rule length_chunks_le)
  qed
  have "got \<noteq> []" using got(3) captured_length(2) [OF cap(2)] by auto
  then obtain c cs where cs: "got = c # cs" by (cases got) auto
  let ?ps = "map (enc \<circ> photo_chunk)"
  have "length got \<le> 8193" using list_emb_length [OF got(2)] captured_chunks [OF cap(2)] by simp
  from archive_room [OF env(3,4) short this]
  have room: "de_FsHeader env + 12 + de_MaxPath env + length (concat (enc (photo_chunk c) # ?ps cs)) \<le> 256 * 1024 * 1024"
    by (simp add: cs)
  have mids: "\<forall>q\<in>set (enc (photo_chunk c) # ?ps cs). cf_MsgId (de_cfs env) q = PAYLOADMC_PHOTO_CHUNK_MSGID"
    using short chunk_packet(1) [OF env(4)] by (auto simp: cs)
  obtain s1 tr1 h header where 1: "process_all env (?ps got) s tr = Returns (s1, tr1)" "photo_ready env r s1"
    "length header = 12 + de_MaxPath env"
    "dest_open env photo_file s1 tr1 h (photo_name (photo_number env s tr)) (header # ?ps got)"
    "fs_FileCount (file_status s1 photo_file) = next_count (fs_FileCount (file_status s photo_file))"
    using photo_capture [OF env(1,2) max ds(1,2) mids room, of tr] unfolding cs by auto
  obtain s2 tr2 info t where 2: "DS_AppProcessMsg env (enc close_photo_cmd) s1 tr1 = Returns (s2, tr2)" "photo_ready env r s2"
    "photo_closed s2" "fs_FileCount (file_status s2 photo_file) = fs_FileCount (file_status s1 photo_file)" "opened tr2 h = None"
    "cfs_sent tr2 = cfs_sent tr1 @ [ds_packet env Ds_State.DS_COMP_TLM_MID (DS_FileInfo_size env + de_UnionPad env)
      [(0, info), (20, print_name env (photo_name (photo_number env s tr)))] t]"
    using photo_close [OF env(1) max 1(2,4) close_packet [OF env(4)] ds(3)] by blast
  show ?thesis
    by (intro exI conjI) (rule got(1) got(3) 1(1) 1(3) 1(4) 2(1) 2(5) 2(2) 2(3) 2(4) [unfolded 1(5)] 2(6))+
qed

section \<open>A concrete bus\<close>

definition ds_bus :: "SB_Msg \<Rightarrow> u8 list" where
  "ds_bus m = le32 (ucast (mid_value m)) @ (case m of
      Flight_Msgs.DS_CMD_MID cc p \<Rightarrow> le16 (ucast cc) @ le16 0 @ le16 (dc_FileTableIndex p) @ le16 (dc_Padding p)
    | PAYLOADMC_PHOTO_CHUNK_MID p \<Rightarrow> zeros 8 @ le16 (ph_ChunkLen p) @ ph_ChunkData p
    | _ \<Rightarrow> [])"

lemma ds_bus_bytes: "bus_bytes ds_env ds_bus"
proof -
  have "cf_MsgId ds_cfs (ds_bus m) = ucast (mid_value m)" for m
    using read_le32_at [of "[]" 0 "ucast (mid_value m)"] by (simp add: ds_cfs_def ds_bus_def)
  moreover have "read_le16 (ds_bus (Flight_Msgs.DS_CMD_MID cc p)) 4 = ucast cc"
    "read_le16 (ds_bus (Flight_Msgs.DS_CMD_MID cc p)) 8 = dc_FileTableIndex p" for cc p
    using read_le16_le16 [of "ucast cc"] read_le16_le16 [of "dc_FileTableIndex p"]
    by (simp_all add: read_le16_def ds_bus_def le32_def le16_def)
  ultimately show ?thesis
    by (simp add: bus_bytes_def ds_env_def ds_cfs_def pay16_def)
      (simp add: ds_bus_def le32_def le16_def zeros_def)
qed


lemma small_frame_archived:
  "py_ErrCounter (fst (archive_frame camera_env (string_bytes (pgm_header 3 2) @ concat [[1, 2, 3, 4], [5, 6]]) p [])) = py_ErrCounter p"
proof -
  let ?f = "string_bytes (pgm_header 3 2) @ concat [[1, 2, 3, 4], [5, 6]]"
  have "chunks PAYLOADMC_PHOTO_CHUNK_MAX_PAYLOAD ?f = [?f]"
    by (rule chunks_short) (use pgm_header_short [of 3 2] in \<open>simp_all add: PAYLOADMC_PHOTO_CHUNK_MAX_PAYLOAD_def\<close>)
  moreover have "fst (transmit_with_retries camera_env m tr) = CFE_SUCCESS" for m tr
    by (simp add: transmit_with_retries_def camera_env_def good_env_def sb_transmit_def PAYLOADMC_PHOTO_CHUNK_MAX_RETRIES_def numeral_eq_Suc)
  ultimately show ?thesis
    by (simp add: archive_frame_def PAYLOADMC_APP_CLOSE_DS_PHOTO_FILE_def case_prod_beta del: concat.simps append_assoc)
qed

theorem photo_archive_witness:
  "\<exists>s p' ptr' got s1 tr1 s2 tr2 h header info t.
    photo_ready ds_env 0 s \<and> sb_delivered ptr' = map photo_chunk got @ [close_photo_cmd] \<and>
    concat (map (chunk_bytes \<circ> photo_chunk) got) = string_bytes (pgm_header 3 2) @ concat [[1, 2, 3, 4], [5, 6]] \<and>
    PAYLOADMC_captureFrame camera_env (PAYLOADMC_AppData_zero\<lparr>py_IsImaging := True\<rparr>) [] = Returns (p', ptr') \<and>
    process_all ds_env (map (ds_bus \<circ> photo_chunk) got) s [] = Returns (s1, tr1) \<and>
    dest_open ds_env photo_file s1 tr1 h (photo_name (photo_number ds_env s [])) (header # map (ds_bus \<circ> photo_chunk) got) \<and>
    DS_AppProcessMsg ds_env (ds_bus close_photo_cmd) s1 tr1 = Returns (s2, tr2) \<and> opened tr2 h = None \<and> photo_closed s2 \<and>
    cfs_sent tr2 = cfs_sent tr1 @ [ds_packet ds_env Ds_State.DS_COMP_TLM_MID (DS_FileInfo_size ds_env + de_UnionPad ds_env)
      [(0, info), (20, print_name ds_env (photo_name (photo_number ds_env s [])))] t]"
proof -
  let ?p = "PAYLOADMC_AppData_zero\<lparr>py_IsImaging := True\<rparr>" and ?f = "string_bytes (pgm_header 3 2) @ concat [[1, 2, 3, 4], [5, 6]]"
  obtain s where s: "photo_ready ds_env 0 s" "photo_closed s" using ds_loaded_photo by blast
  obtain p' ptr' where a: "archive_frame camera_env ?f ?p [] = (p', ptr')" by (cases "archive_frame camera_env ?f ?p []")
  have c: "PAYLOADMC_GVCP_HAL_CaptureFrame (env_stream camera_env []) = Returns (CFE_SUCCESS, Some ?f)"
    by (simp add: camera_env_def small_stream_captured)
  have run: "PAYLOADMC_captureFrame camera_env ?p [] = Returns (p', ptr')"
    using a unfolding PAYLOADMC_captureFrame_def c by simp
  have "py_ErrCounter p' = py_ErrCounter ?p" using small_frame_archived [of ?p] unfolding a by simp
  moreover have "archive_sizes ds_env" "(0 :: u32) \<noteq> Ds_State.DS_CMD_MID"
    by (simp_all add: archive_sizes_def ds_env_def ds_cfs_def Ds_State.DS_CMD_MID_def)
  ultimately obtain got s1 tr1 s2 tr2 h header info t where r:
    "sb_delivered ptr' = sb_delivered [] @ map photo_chunk got @ [close_photo_cmd]"
    "concat (map (chunk_bytes \<circ> photo_chunk) got) = ?f"
    "process_all ds_env (map (ds_bus \<circ> photo_chunk) got) s [] = Returns (s1, tr1)"
    "dest_open ds_env photo_file s1 tr1 h (photo_name (photo_number ds_env s [])) (header # map (ds_bus \<circ> photo_chunk) got)"
    "DS_AppProcessMsg ds_env (ds_bus close_photo_cmd) s1 tr1 = Returns (s2, tr2)" "opened tr2 h = None" "photo_closed s2"
    "cfs_sent tr2 = cfs_sent tr1 @ [ds_packet ds_env Ds_State.DS_COMP_TLM_MID (DS_FileInfo_size ds_env + de_UnionPad ds_env)
      [(0, info), (20, print_name ds_env (photo_name (photo_number ds_env s [])))] t]"
    using photo_archive [OF ds_env_succeeds _ ds_bus_bytes s _ _ c run, of "[]"] by auto
  then show ?thesis using s(1) run by (intro exI conjI) (assumption | simp)+
qed

end
