(* ===== verification/Sch_Lab.thy ===== *)
theory Sch_Lab
  imports Cfs_Env Flight_Msgs
begin

text \<open>
  The scheduler SCH_LAB (\<open>sch_lab_app.c\<close>) and the schedule table of the mission (\<open>sch_lab_table.c\<close>).
  The timer gives a counting semaphore; the main loop takes it and, once a first one-second packet
  has come, counts every entry of the table up to its rate and then sends its packet.
\<close>

section \<open>Data\<close>

definition SCH_LAB_MAX_SCHEDULE_ENTRIES :: nat where "SCH_LAB_MAX_SCHEDULE_ENTRIES = 32"

definition SCH_LAB_MAX_ARGS_PER_ENTRY :: nat where "SCH_LAB_MAX_ARGS_PER_ENTRY = 32"

record SCH_LAB_ScheduleTableEntry =
  se_MessageID :: u32
  se_PacketRate :: u32
  se_FcnCode :: u16
  se_PayloadLength :: u16
  se_MessageBuffer :: "u16 list"

record SCH_LAB_ScheduleTable =
  st_TickRate :: u32
  st_Config :: "SCH_LAB_ScheduleTableEntry list"

record SCH_LAB_StateEntry =
  ss_CommandHeader :: "u8 list"
  ss_MessageBuffer :: "u16 list"
  ss_PayloadLength :: u16
  ss_PacketRate :: u32
  ss_Counter :: u32

text \<open>
  The environment: that of every cFS application, \<open>CFE_MSG_SetFcnCode\<close> on a header, the table behind
  the address and the id of the one-second packet.
\<close>

record Sch_Env =
  sn_cfs :: Cfs_Env
  sn_SetFcnCode :: "u8 list \<Rightarrow> u16 \<Rightarrow> u8 list"
  sn_Table :: SCH_LAB_ScheduleTable
  sn_OneHz :: u32

definition zero_state :: SCH_LAB_StateEntry where
  "zero_state = \<lparr>ss_CommandHeader = [], ss_MessageBuffer = [], ss_PayloadLength = 0, ss_PacketRate = 0, ss_Counter = 0\<rparr>"

section \<open>Start\<close>

text \<open>An entry in use becomes a packet with its header; the others stay cleared.\<close>

definition fill_entry :: "Sch_Env \<Rightarrow> SCH_LAB_ScheduleTableEntry \<Rightarrow> SCH_LAB_StateEntry \<Rightarrow> SCH_LAB_StateEntry" where
  "fill_entry env ce le =
     (if se_PacketRate ce \<noteq> 0
      then let h = cf_CmdHeader (sn_cfs env) in le\<lparr>
        ss_CommandHeader := sn_SetFcnCode env (take h (cf_MsgInit (sn_cfs env) (se_MessageID ce)
          (h + unat (se_PayloadLength ce)))) (se_FcnCode ce),
        ss_PacketRate := se_PacketRate ce, ss_PayloadLength := se_PayloadLength ce,
        ss_MessageBuffer := take SCH_LAB_MAX_ARGS_PER_ENTRY (se_MessageBuffer ce)\<rparr>
      else le)"

text \<open>The timer period in microseconds, and whether the tick rate divides a second.\<close>

definition timer_period :: "u32 \<Rightarrow> Cfs_Trace \<Rightarrow> u32 \<times> Cfs_Trace" where
  "timer_period rate tr =
     (if rate = 0 then (1000000, cfs_log tr)
      else let p = 1000000 div rate in (p, if p * rate \<noteq> 1000000 then cfs_log tr else tr))"

text \<open>A call whose failure is logged, and does not end the start.\<close>

definition logged :: "Sch_Env \<Rightarrow> Cfs_Service \<Rightarrow> Cfs_Trace \<Rightarrow> Cfs_Trace" where
  "logged env v tr = (case cfs_call (sn_cfs env) v tr of (status, tr1) \<Rightarrow>
     if status \<noteq> CFE_SUCCESS then cfs_log tr1 else tr1)"

definition sch_configure :: "Sch_Env \<Rightarrow> Cfs_Trace \<Rightarrow> CFE_Status \<times> SCH_LAB_StateEntry list \<times> Cfs_Trace" where
  "sch_configure env tr =
     (let es = map2 (fill_entry env) (st_Config (sn_Table env)) (replicate SCH_LAB_MAX_SCHEDULE_ENTRIES zero_state);
          (period, tr1) = timer_period (st_TickRate (sn_Table env)) tr;
          tr2 = logged env (Cfs_TBL_ReleaseAddress SCH_ScheduleTable_Handle) tr1;
          (_, tr3) = cfs_call (sn_cfs env) (Cfs_SB_CreatePipe 8) tr2;
          (_, tr4) = cfs_call (sn_cfs env) (Cfs_SB_Subscribe (sn_OneHz env)) tr3
      in (CFE_SUCCESS, es, logged env (Os_TimerSet 1000000 (unat period)) tr4))"

text \<open>A step of the start that ends it with a status of its own when it fails.\<close>

definition sch_or :: "Sch_Env \<Rightarrow> Cfs_Service \<Rightarrow> (CFE_Status \<Rightarrow> CFE_Status) \<Rightarrow> (Cfs_Trace \<Rightarrow> Cfs_Trace) \<Rightarrow>
    (Cfs_Trace \<Rightarrow> CFE_Status \<times> SCH_LAB_StateEntry list \<times> Cfs_Trace) \<Rightarrow> Cfs_Trace \<Rightarrow>
    CFE_Status \<times> SCH_LAB_StateEntry list \<times> Cfs_Trace" where
  "sch_or env v code report k tr =
     (case cfs_call (sn_cfs env) v tr of (status, tr1) \<Rightarrow>
        if status = CFE_SUCCESS then k tr1
        else (code status, replicate SCH_LAB_MAX_SCHEDULE_ENTRIES zero_state, report (cfs_log tr1)))"

definition SCH_LAB_AppInit :: "Sch_Env \<Rightarrow> Cfs_Trace \<Rightarrow> CFE_Status \<times> SCH_LAB_StateEntry list \<times> Cfs_Trace" where
  "SCH_LAB_AppInit env =
     (let os = (\<lambda>status. CFE_STATUS_EXTERNAL_RESOURCE_FAIL); T = SCH_ScheduleTable_Handle in
      sch_or env Os_CountSemCreate os id
     (sch_or env Os_TimeBaseGetIdByName os id
     (sch_or env Os_TimerAdd os id
     (sch_or env (Cfs_TBL_Register T) id id
     (sch_or env (Cfs_TBL_Load T) id (\<lambda>tr. snd (cfs_call (sn_cfs env) (Cfs_TBL_ReleaseAddress T) tr)) (\<lambda>tr.
        case cfs_call (sn_cfs env) (Cfs_TBL_GetAddress T) tr of (status, tr1) \<Rightarrow>
          if status \<noteq> CFE_SUCCESS \<and> status \<noteq> CFE_TBL_INFO_UPDATED
          then (status, replicate SCH_LAB_MAX_SCHEDULE_ENTRIES zero_state, cfs_log tr1)
          else sch_configure env tr1))))))"

section \<open>Main loop\<close>

text \<open>
  The packet of an entry: its header and as many bytes behind it as the header says. The argument
  words follow the header in memory; a longer payload would take what lies behind them.
\<close>

definition entry_packet :: "SCH_LAB_StateEntry \<Rightarrow> u8 list run" where
  "entry_packet e =
     (if unat (ss_PayloadLength e) \<le> 2 * SCH_LAB_MAX_ARGS_PER_ENTRY
      then Returns (ss_CommandHeader e @ take (unat (ss_PayloadLength e)) (concat (map le16 (ss_MessageBuffer e))))
      else OutOfBounds)"

fun process_table :: "SCH_LAB_StateEntry list \<Rightarrow> Cfs_Trace \<Rightarrow> (SCH_LAB_StateEntry list \<times> Cfs_Trace) run" where
  "process_table [] tr = Returns ([], tr)"
| "process_table (e # es) tr =
     (if ss_PacketRate e \<noteq> 0
      then if ss_Counter e + 1 \<ge> ss_PacketRate e
        then run_bind (entry_packet e) (\<lambda>p. run_bind (process_table es (cfs_transmit p tr)) (\<lambda>(es', tr').
          Returns (e\<lparr>ss_Counter := 0\<rparr> # es', tr')))
        else run_bind (process_table es tr) (\<lambda>(es', tr'). Returns (e\<lparr>ss_Counter := ss_Counter e + 1\<rparr> # es', tr'))
      else run_bind (process_table es tr) (\<lambda>(es', tr'). Returns (e # es', tr')))"

text \<open>
  A turn of the loop: the semaphore was taken, with what the poll of the pipe then gave; it could not
  be taken; or the application is told to stop. Without a further turn the loop waits.
\<close>

datatype SCH_Input = SCH_Tick CFE_Status | SCH_NoTick | SCH_Shutdown

fun sch_run_loop :: "SCH_Input list \<Rightarrow> u32 \<Rightarrow> SCH_LAB_StateEntry list \<Rightarrow> Cfs_Trace \<Rightarrow>
    (SCH_LAB_StateEntry list \<times> Cfs_Trace) run" where
  "sch_run_loop [] received es tr = Blocked"
| "sch_run_loop (SCH_Shutdown # inputs) received es tr = Returns (es, tr)"
| "sch_run_loop (SCH_NoTick # inputs) received es tr = sch_run_loop inputs received es tr"
| "sch_run_loop (SCH_Tick status # inputs) received es tr =
     (let received1 = (if status = CFE_SUCCESS then received + 1 else received) in
      if received1 > 0
      then run_bind (process_table es tr) (\<lambda>(es1, tr1). sch_run_loop inputs received1 es1 tr1)
      else sch_run_loop inputs received1 es tr)"

definition SCH_LAB_AppMain :: "Sch_Env \<Rightarrow> SCH_Input list \<Rightarrow> (SCH_LAB_StateEntry list \<times> Cfs_Trace) run" where
  "SCH_LAB_AppMain env inputs =
     (case SCH_LAB_AppInit env [] of (status, es, tr) \<Rightarrow>
        if status \<noteq> CFE_SUCCESS then Returns (es, cfs_log tr) else sch_run_loop inputs 0 es tr)"


section \<open>What is sent when\<close>

text \<open>An entry is due at the ticks that its rate divides; the packet it then sends.\<close>

definition due :: "nat \<Rightarrow> SCH_LAB_ScheduleTableEntry \<Rightarrow> bool" where
  "due t ce \<longleftrightarrow> se_PacketRate ce \<noteq> 0 \<and> unat (se_PacketRate ce) dvd t"

definition sch_packet :: "Sch_Env \<Rightarrow> SCH_LAB_ScheduleTableEntry \<Rightarrow> u8 list" where
  "sch_packet env ce = (let h = cf_CmdHeader (sn_cfs env) in
     sn_SetFcnCode env (take h (cf_MsgInit (sn_cfs env) (se_MessageID ce) (h + unat (se_PayloadLength ce)))) (se_FcnCode ce) @
     take (unat (se_PayloadLength ce)) (concat (map le16 (take SCH_LAB_MAX_ARGS_PER_ENTRY (se_MessageBuffer ce)))))"

text \<open>The shape of a table, and argument lists that fit into an entry.\<close>

definition sch_table_ok :: "SCH_LAB_ScheduleTable \<Rightarrow> bool" where
  "sch_table_ok tbl \<longleftrightarrow> length (st_Config tbl) = SCH_LAB_MAX_SCHEDULE_ENTRIES \<and>
     (\<forall>ce\<in>set (st_Config tbl). unat (se_PayloadLength ce) \<le> 2 * SCH_LAB_MAX_ARGS_PER_ENTRY)"

text \<open>The state of an entry after some ticks.\<close>

definition at_tick :: "Sch_Env \<Rightarrow> nat \<Rightarrow> SCH_LAB_ScheduleTableEntry \<Rightarrow> SCH_LAB_StateEntry" where
  "at_tick env t ce = (if se_PacketRate ce = 0 then zero_state
     else (fill_entry env ce zero_state)\<lparr>ss_Counter := of_nat (t mod unat (se_PacketRate ce))\<rparr>)"

lemma counter_step:
  fixes r :: u32
  assumes "r \<noteq> 0"
  shows "of_nat (t mod unat r) + 1 \<ge> r \<longleftrightarrow> unat r dvd Suc t"
    "\<not> unat r dvd Suc t \<Longrightarrow> of_nat (t mod unat r) + 1 = (of_nat (Suc t mod unat r) :: u32)"
proof -
  let ?n = "unat r"
  have pos: "0 < ?n" using assms by (simp add: unat_gt_0)
  then have less: "t mod ?n < ?n" by simp
  have "?n < 4294967296" by (rule unat_u32_less)
  with less have v: "unat (of_nat (t mod ?n) + 1 :: u32) = Suc (t mod ?n)"
    by (simp add: unat_word_ariths unat_of_nat take_bit_eq_mod)
  have "Suc t mod ?n = (if Suc (t mod ?n) = ?n then 0 else Suc (t mod ?n))" by (rule mod_Suc)
  with v less show "of_nat (t mod ?n) + 1 \<ge> r \<longleftrightarrow> ?n dvd Suc t"
    by (auto simp: word_le_nat_alt dvd_eq_mod_eq_0)
  assume "\<not> ?n dvd Suc t"
  then have "Suc t mod ?n = Suc (t mod ?n)" using mod_Suc [of t ?n] by (auto simp: dvd_eq_mod_eq_0)
  then show "of_nat (t mod ?n) + 1 = (of_nat (Suc t mod ?n) :: u32)" by (simp add: add.commute)
qed

lemma process_tick:
  assumes "\<forall>ce\<in>set ces. unat (se_PayloadLength ce) \<le> 2 * SCH_LAB_MAX_ARGS_PER_ENTRY"
  shows "process_table (map (at_tick env t) ces) tr = Returns (map (at_tick env (Suc t)) ces,
    tr @ map (Cfs_Transmit \<circ> sch_packet env) (filter (due (Suc t)) ces))"
  using assms
proof (induction ces arbitrary: tr)
  case (Cons ce ces)
  have IH: "process_table (map (at_tick env t) ces) tr = Returns (map (at_tick env (Suc t)) ces,
    tr @ map (Cfs_Transmit \<circ> sch_packet env) (filter (due (Suc t)) ces))" for tr
    using Cons by simp
  show ?case
  proof (cases "se_PacketRate ce = 0")
    case True
    then show ?thesis by (simp add: IH due_def [of _ ce] at_tick_def [of _ _ ce] zero_state_def)
  next
    case rate: False
    note step = counter_step [OF rate, of t]
    show ?thesis
    proof (cases "unat (se_PacketRate ce) dvd Suc t")
      case True
      have "entry_packet (at_tick env t ce) = Returns (sch_packet env ce)"
        using rate Cons.prems by (simp add: entry_packet_def at_tick_def fill_entry_def sch_packet_def Let_def)
      then show ?thesis
        using True rate step(1) by (simp add: IH due_def [of _ ce] at_tick_def [of _ _ ce] fill_entry_def Let_def cfs_transmit_def)
    next
      case False
      then show ?thesis
        using rate step by (simp add: IH due_def [of _ ce] at_tick_def [of _ _ ce] fill_entry_def Let_def)
    qed
  qed
qed simp

lemma before_sync:
  "\<forall>st\<in>set before. st \<noteq> CFE_SUCCESS \<Longrightarrow>
    sch_run_loop (map SCH_Tick before @ inputs) 0 es tr = sch_run_loop inputs 0 es tr"
  by (induction before) simp_all

lemma after_sync:
  assumes "\<forall>ce\<in>set ces. unat (se_PayloadLength ce) \<le> 2 * SCH_LAB_MAX_ARGS_PER_ENTRY"
  shows "0 < received \<Longrightarrow> unat received + length after < 4294967296 \<Longrightarrow>
    sch_run_loop (map SCH_Tick after @ [SCH_Shutdown]) received (map (at_tick env t) ces) tr =
      Returns (map (at_tick env (t + length after)) ces,
        tr @ concat (map (\<lambda>u. map (Cfs_Transmit \<circ> sch_packet env) (filter (due u) ces)) [Suc t..<Suc (t + length after)]))"
proof (induction "after" arbitrary: received t tr)
  case (Cons st "after")
  let ?r = "if st = CFE_SUCCESS then received + 1 else received"
  have v: "unat (received + 1) = unat received + 1"
    using Cons.prems(2) by (simp add: unat_word_ariths)
  then have r: "0 < ?r" "unat ?r + length after < 4294967296"
    using Cons.prems by (auto simp: word_less_nat_alt)
  have upt: "[Suc t..<Suc (Suc (t + length after))] = Suc t # [Suc (Suc t)..<Suc (Suc (t + length after))]"
    by (subst upt_conv_Cons) simp_all
  show ?case
    using r(1) Cons.IH [OF r, of "Suc t" "tr @ map (Cfs_Transmit \<circ> sch_packet env) (filter (due (Suc t)) ces)"]
    by (simp add: Let_def process_tick [OF assms] upt del: upt_Suc)
qed simp

lemma configured: 
  assumes "SCH_LAB_AppInit env tr = (CFE_SUCCESS, es, tr')" "length (st_Config (sn_Table env)) = SCH_LAB_MAX_SCHEDULE_ENTRIES"
  shows "es = map (at_tick env 0) (st_Config (sn_Table env)) \<and> cfs_sent tr' = cfs_sent tr"
proof -
  have "map2 (fill_entry env) (st_Config (sn_Table env)) (replicate SCH_LAB_MAX_SCHEDULE_ENTRIES zero_state) =
      map (at_tick env 0) (st_Config (sn_Table env))"
    using assms(2) by (intro nth_equalityI) (auto simp: at_tick_def fill_entry_def Let_def zero_state_def)
  moreover have "cfs_sent (logged env v tr) = cfs_sent tr" for v tr
    by (simp add: logged_def cfs_call_def cfs_log_def)
  ultimately show ?thesis
    using assms(1) by (auto simp: SCH_LAB_AppInit_def Let_def sch_or_def sch_configure_def cfs_call_def timer_period_def
        cfs_log_def split: if_splits prod.splits)
qed

lemma sch_runs:
  assumes "fst (SCH_LAB_AppInit env []) = CFE_SUCCESS" "sch_table_ok (sn_Table env)"
    "\<forall>st\<in>set before. st \<noteq> CFE_SUCCESS" "length after + 1 < 4294967296"
  shows "\<exists>es tr. SCH_LAB_AppMain env (map SCH_Tick before @ SCH_Tick CFE_SUCCESS # map SCH_Tick after @ [SCH_Shutdown]) =
      Returns (es, tr) \<and>
    cfs_sent tr = concat (map (\<lambda>t. map (sch_packet env) (filter (due t) (st_Config (sn_Table env)))) [1..<length after + 2])"
proof -
  let ?ces = "st_Config (sn_Table env)"
  obtain es tr where init: "SCH_LAB_AppInit env [] = (CFE_SUCCESS, es, tr)" using assms(1) by (cases "SCH_LAB_AppInit env []") auto
  have len: "length ?ces = SCH_LAB_MAX_SCHEDULE_ENTRIES"
    and args: "\<forall>ce\<in>set ?ces. unat (se_PayloadLength ce) \<le> 2 * SCH_LAB_MAX_ARGS_PER_ENTRY"
    using assms(2) by (simp_all add: sch_table_ok_def)
  from configured [OF init len] have es: "es = map (at_tick env 0) ?ces" "cfs_sent tr = []" by simp_all
  have sent: "cfs_sent (map (\<lambda>a. Cfs_Transmit (f a)) xs) = map f xs" for f :: "SCH_LAB_ScheduleTableEntry \<Rightarrow> u8 list" and xs
    by (induction xs) simp_all
  have sents: "cfs_sent (concat (map (\<lambda>t. map (\<lambda>a. Cfs_Transmit (f a)) (g t)) ts)) = concat (map (\<lambda>t. map f (g t)) ts)"
    for f :: "SCH_LAB_ScheduleTableEntry \<Rightarrow> u8 list" and g and ts :: "nat list"
    by (induction ts) (simp_all add: sent)
  define ts where "ts = [Suc 1..<Suc (1 + length after)]"
  have upt: "[1..<length after + 2] = 1 # ts" unfolding ts_def by (subst upt_conv_Cons) simp_all
  have "sch_run_loop (map SCH_Tick after @ [SCH_Shutdown]) 1 (map (at_tick env 1) ?ces) tr1 =
      Returns (map (at_tick env (1 + length after)) ?ces,
        tr1 @ concat (map (\<lambda>u. map (Cfs_Transmit \<circ> sch_packet env) (filter (due u) ?ces)) ts))" for tr1
    unfolding ts_def by (rule after_sync [OF args]) (use assms(4) in simp_all)
  then show ?thesis
    unfolding upt by (simp add: SCH_LAB_AppMain_def init before_sync [OF assms(3)] process_tick [OF args, of env 0, simplified]
        es sent sents comp_def)
qed

text \<open>C15. The schedule is exact. With a table of the right shape and an initialisation that succeeds, nothing is sent until the first one-second packet has been seen; from the tick that sees it on, counted from 1, tick t sends the packets of exactly those entries whose rate is not zero and divides t, in the order of the table, and the argument bytes never leave the entry.\<close>

theorem sch_schedule:
  assumes "fst (SCH_LAB_AppInit env []) = CFE_SUCCESS" "sch_table_ok (sn_Table env)"
    "\<forall>st\<in>set before. st \<noteq> CFE_SUCCESS" "length after + 1 < 4294967296"
  shows "\<exists>es tr. SCH_LAB_AppMain env (map SCH_Tick before @ SCH_Tick CFE_SUCCESS # map SCH_Tick after @ [SCH_Shutdown]) =
      Returns (es, tr) \<and>
    cfs_sent tr = concat (map (\<lambda>t. map (sch_packet env) (filter (due t) (st_Config (sn_Table env)))) [1..<length after + 2])"
  using assms by (rule sch_runs)

end
