(* ===== verification/Sch_Mission.thy ===== *)
theory Sch_Mission
  imports Sch_Lab Hk_App Ds_State
begin

text \<open>
  The schedule of the mission (\<open>sch_lab_table.c\<close>) with the applications that the build puts into it
  (\<open>CMakeLists.txt\<close> of SCH_LAB, \<open>targets.cmake\<close>). Message ids of applications outside \<open>src/\<close> are an
  argument, by name.
\<close>

section \<open>Which applications are compiled in\<close>

definition to_upper :: "char \<Rightarrow> char" where
  "to_upper c = (let n = of_char c :: nat in if 97 \<le> n \<and> n \<le> 122 then char_of (n - 32) else c)"

definition ext_apps :: "string list" where
  "ext_apps = [''ci_lab'', ''to_lab'', ''sample_app'', ''sc'', ''hs'', ''lc'', ''ds'', ''fm'', ''HK'', ''powerMC_app'', ''payloadMC_app'',
     ''commMC_app'', ''adcsMC_app'', ''canIOMC_app'', ''mpptMC_app'']"

text \<open>The macro \<open>HAVE_x\<close> is defined when \<open>x\<close> is the upper case of a listed name that the target has, with the same case.\<close>

definition have_macro :: "string list \<Rightarrow> string \<Rightarrow> bool" where
  "have_macro apps x = list_ex (\<lambda>a. a \<in> set apps \<and> map to_upper a = x) ext_apps"

definition cpu1_apps :: "string list" where
  "cpu1_apps = [''ci_lab'', ''to_lab'', ''sch_lab'', ''HK'', ''DS''] @
     [''powerMC_app'', ''commMC_app'', ''adcsMC_app'', ''payloadMC_app'', ''canIOMC_app'', ''mpptMC_app'']"

section \<open>The table\<close>

definition CLOCK_RATE_FOR_HK_CYCLE :: u32 where "CLOCK_RATE_FOR_HK_CYCLE = 1001"

definition CANIOMC_HEARTBEAT_RATE :: u32 where "CANIOMC_HEARTBEAT_RATE = 100"

definition PAYLOADMC_GVCP_HEARTBEAT_RATE :: u32 where "PAYLOADMC_GVCP_HEARTBEAT_RATE = 100"

definition POWERMC_HK_RATE :: u32 where "POWERMC_HK_RATE = CLOCK_RATE_FOR_HK_CYCLE + 0"

definition MPPTMC_HK_RATE :: u32 where "MPPTMC_HK_RATE = CLOCK_RATE_FOR_HK_CYCLE + 1"

definition ADCSMC_HK_RATE :: u32 where "ADCSMC_HK_RATE = CLOCK_RATE_FOR_HK_CYCLE + 2"

definition PAYLOADMC_HK_RATE :: u32 where "PAYLOADMC_HK_RATE = CLOCK_RATE_FOR_HK_CYCLE + 3"

definition COMMMC_HK_RATE :: u32 where "COMMMC_HK_RATE = CLOCK_RATE_FOR_HK_CYCLE + 4"

definition HK_COMBINED_RATE :: u32 where "HK_COMBINED_RATE = CLOCK_RATE_FOR_HK_CYCLE + 5"

lemmas hk_rate_defs = CLOCK_RATE_FOR_HK_CYCLE_def CANIOMC_HEARTBEAT_RATE_def PAYLOADMC_GVCP_HEARTBEAT_RATE_def
  POWERMC_HK_RATE_def MPPTMC_HK_RATE_def ADCSMC_HK_RATE_def PAYLOADMC_HK_RATE_def COMMMC_HK_RATE_def HK_COMBINED_RATE_def

definition sched_args :: "u32 \<Rightarrow> u32 \<Rightarrow> u16 \<Rightarrow> u16 list \<Rightarrow> SCH_LAB_ScheduleTableEntry" where
  "sched_args mid rate n ws = \<lparr>se_MessageID = mid, se_PacketRate = rate, se_FcnCode = 0, se_PayloadLength = n,
     se_MessageBuffer = take SCH_LAB_MAX_ARGS_PER_ENTRY (ws @ replicate SCH_LAB_MAX_ARGS_PER_ENTRY 0)\<rparr>"

definition sched :: "u32 \<Rightarrow> u32 \<Rightarrow> SCH_LAB_ScheduleTableEntry" where
  "sched mid rate = sched_args mid rate 0 []"

definition own_mid :: "SB_Msg \<Rightarrow> u32" where
  "own_mid m = ucast (mid_value m)"

definition COMMMC_CMD_MSGID :: u32 where "COMMMC_CMD_MSGID = 0x0BC2"

definition mission_entries_of :: "(string \<Rightarrow> bool) \<Rightarrow> (string \<Rightarrow> u32) \<Rightarrow> SCH_LAB_ScheduleTableEntry list" where
  "mission_entries_of have core =
     [sched (core ''CFE_ES_SEND_HK_MID'') 100, sched (core ''CFE_TBL_SEND_HK_MID'') 50,
      sched (core ''CFE_TIME_SEND_HK_MID'') 98, sched (core ''CFE_SB_SEND_HK_MID'') 97, sched (core ''CFE_EVS_SEND_HK_MID'') 96] @
     (if have ''CI_LAB'' then [sched (core ''CI_LAB_SEND_HK_MID'') 95] else []) @
     (if have ''TO_LAB'' then [sched (core ''TO_LAB_SEND_HK_MID'') 94] else []) @
     (if have ''SAMPLE_APP'' then [sched (core ''SAMPLE_APP_SEND_HK_MID'') 93] else []) @
     (if have ''SC'' then [sched (core ''SC_SEND_HK_MID'') 92, sched (core ''SC_ONEHZ_WAKEUP_MID'') 91] else []) @
     (if have ''HS'' then [sched (core ''HS_SEND_HK_MID'') 90] else []) @
     (if have ''FM'' then [sched (core ''FM_SEND_HK_MID'') 101] else []) @
     (if have ''DS'' then [sched DS_SEND_HK_MID 102] else []) @
     (if have ''LC'' then [sched (core ''LC_SEND_HK_MID'') 103, sched_args (core ''LC_SAMPLE_AP_MID'') 500 8 [0, 175, 1]] else []) @
     (if have ''POWERMC_APP'' then [sched (own_mid POWERMC_SEND_HK_MID) POWERMC_HK_RATE] else []) @
     (if have ''CANIOMC_APP'' then [sched (own_mid CANIOMC_SEND_HEARTBEAT_MID) CANIOMC_HEARTBEAT_RATE] else []) @
     (if have ''MPPTMC_APP'' then [sched (own_mid MPPTMC_SEND_HK_MID) MPPTMC_HK_RATE] else []) @
     (if have ''PAYLOADMC_APP'' then [sched (own_mid PAYLOADMC_SEND_HK_MID) PAYLOADMC_HK_RATE,
        sched (own_mid PAYLOADMC_SEND_GVCP_HEARTBEAT_MID) PAYLOADMC_GVCP_HEARTBEAT_RATE] else []) @
     (if have ''ADCSMC_APP'' then [sched (own_mid ADCSMC_SEND_HK_MID) ADCSMC_HK_RATE] else []) @
     (if have ''COMMMC_APP'' then [sched (own_mid COMMMC_SEND_HK_MID) COMMMC_HK_RATE,
        sched_args COMMMC_CMD_MSGID 1201 8 [0, 175, 1]] else []) @
     (if have ''HK'' then [sched_args HK_SEND_COMBINED_PKT_MID HK_COMBINED_RATE 4 [0x089C]] else [])"

definition mission_schedule :: "(string \<Rightarrow> bool) \<Rightarrow> (string \<Rightarrow> u32) \<Rightarrow> SCH_LAB_ScheduleTable" where
  "mission_schedule have core = \<lparr>st_TickRate = 100,
     st_Config = take SCH_LAB_MAX_SCHEDULE_ENTRIES (mission_entries_of have core @ replicate SCH_LAB_MAX_SCHEDULE_ENTRIES (sched 0 0))\<rparr>"

section \<open>The build of the flight computer\<close>

lemma cpu1_macros:
  "have_macro cpu1_apps ''CI_LAB''" "have_macro cpu1_apps ''TO_LAB''" "\<not> have_macro cpu1_apps ''SAMPLE_APP''"
  "\<not> have_macro cpu1_apps ''SC''" "\<not> have_macro cpu1_apps ''HS''" "\<not> have_macro cpu1_apps ''FM''"
  "\<not> have_macro cpu1_apps ''DS''" "\<not> have_macro cpu1_apps ''LC''" "have_macro cpu1_apps ''POWERMC_APP''"
  "have_macro cpu1_apps ''CANIOMC_APP''" "have_macro cpu1_apps ''MPPTMC_APP''" "have_macro cpu1_apps ''PAYLOADMC_APP''"
  "have_macro cpu1_apps ''ADCSMC_APP''" "have_macro cpu1_apps ''COMMMC_APP''" "have_macro cpu1_apps ''HK''"
  by code_simp+

definition cpu1_schedule :: "(string \<Rightarrow> u32) \<Rightarrow> SCH_LAB_ScheduleTable" where
  "cpu1_schedule = mission_schedule (have_macro cpu1_apps)"

lemma cpu1_entries: "mission_entries_of (have_macro cpu1_apps) core =
    [sched (core ''CFE_ES_SEND_HK_MID'') 100, sched (core ''CFE_TBL_SEND_HK_MID'') 50,
      sched (core ''CFE_TIME_SEND_HK_MID'') 98, sched (core ''CFE_SB_SEND_HK_MID'') 97, sched (core ''CFE_EVS_SEND_HK_MID'') 96,
      sched (core ''CI_LAB_SEND_HK_MID'') 95, sched (core ''TO_LAB_SEND_HK_MID'') 94,
      sched (own_mid POWERMC_SEND_HK_MID) POWERMC_HK_RATE, sched (own_mid CANIOMC_SEND_HEARTBEAT_MID) CANIOMC_HEARTBEAT_RATE,
      sched (own_mid MPPTMC_SEND_HK_MID) MPPTMC_HK_RATE, sched (own_mid PAYLOADMC_SEND_HK_MID) PAYLOADMC_HK_RATE,
      sched (own_mid PAYLOADMC_SEND_GVCP_HEARTBEAT_MID) PAYLOADMC_GVCP_HEARTBEAT_RATE,
      sched (own_mid ADCSMC_SEND_HK_MID) ADCSMC_HK_RATE, sched (own_mid COMMMC_SEND_HK_MID) COMMMC_HK_RATE,
      sched_args COMMMC_CMD_MSGID 1201 8 [0, 175, 1], sched_args HK_SEND_COMBINED_PKT_MID HK_COMBINED_RATE 4 [0x089C]]"
  by (simp add: mission_entries_of_def cpu1_macros)


lemma cpu1_table_ok: "sch_table_ok (cpu1_schedule core)"
proof -
  have "unat (se_PayloadLength ce) \<le> 64" if "ce \<in> set (mission_entries_of (have_macro cpu1_apps) core) \<union> {sched 0 0}" for ce
    using that by (auto simp: cpu1_entries sched_def sched_args_def)
  then show ?thesis
    by (auto simp: sch_table_ok_def cpu1_schedule_def mission_schedule_def SCH_LAB_MAX_SCHEDULE_ENTRIES_def
        SCH_LAB_MAX_ARGS_PER_ENTRY_def dest: in_set_takeD)
qed

lemma cpu1_due: "filter (due t) (st_Config (cpu1_schedule core)) = filter (due t) (mission_entries_of (have_macro cpu1_apps) core)"
proof -
  have "\<not> due t (sched 0 0)" by (simp add: due_def sched_def sched_args_def)
  then show ?thesis
    by (simp add: cpu1_schedule_def mission_schedule_def SCH_LAB_MAX_SCHEDULE_ENTRIES_def cpu1_entries)
qed

section \<open>Requests for housekeeping on the CAN bus\<close>

text \<open>The requests that make an application ask its board over the CAN bus, in the order a tick sends them.\<close>

definition can_hk_ids :: "u32 list" where
  "can_hk_ids = map own_mid [POWERMC_SEND_HK_MID, MPPTMC_SEND_HK_MID, ADCSMC_SEND_HK_MID, PAYLOADMC_SEND_HK_MID, COMMMC_SEND_HK_MID]"

definition requests_at :: "nat \<Rightarrow> (string \<Rightarrow> u32) \<Rightarrow> u32 list" where
  "requests_at t core = filter (\<lambda>m. m \<in> set can_hk_ids) (map se_MessageID (filter (due t) (st_Config (cpu1_schedule core))))"

lemma filter_order: "filter P (map f (filter Q xs)) = map f (filter Q (filter (\<lambda>x. P (f x)) xs))"
  by (induction xs) auto

lemma requests_are:
  assumes "\<forall>n. core n \<notin> set can_hk_ids"
  shows "requests_at t core = map (own_mid \<circ> fst) (filter (\<lambda>(m, r). r dvd t)
    [(POWERMC_SEND_HK_MID, 1001), (MPPTMC_SEND_HK_MID, 1002), (PAYLOADMC_SEND_HK_MID, 1004),
     (ADCSMC_SEND_HK_MID, 1003), (COMMMC_SEND_HK_MID, 1005)])"
proof -
  let ?es = "mission_entries_of (have_macro cpu1_apps) core"
  have "filter (\<lambda>ce. se_MessageID ce \<in> set can_hk_ids) ?es = [sched (own_mid POWERMC_SEND_HK_MID) POWERMC_HK_RATE,
      sched (own_mid MPPTMC_SEND_HK_MID) MPPTMC_HK_RATE, sched (own_mid PAYLOADMC_SEND_HK_MID) PAYLOADMC_HK_RATE,
      sched (own_mid ADCSMC_SEND_HK_MID) ADCSMC_HK_RATE, sched (own_mid COMMMC_SEND_HK_MID) COMMMC_HK_RATE]"
    using assms unfolding cpu1_entries
    by (simp add: sched_def sched_args_def can_hk_ids_def own_mid_def COMMMC_CMD_MSGID_def HK_SEND_COMBINED_PKT_MID_def)
  then show ?thesis
    unfolding requests_at_def cpu1_due filter_order by (simp add: due_def sched_def sched_args_def hk_rate_defs)
qed

lemma at_most_one:
  fixes t :: nat
  assumes "0 < t" "t < 335670"
  shows "\<not> (1001 dvd t \<and> 1002 dvd t)" "\<not> (1001 dvd t \<and> 1003 dvd t)" "\<not> (1001 dvd t \<and> 1004 dvd t)" "\<not> (1001 dvd t \<and> 1005 dvd t)"
    "\<not> (1002 dvd t \<and> 1003 dvd t)" "\<not> (1002 dvd t \<and> 1004 dvd t)" "\<not> (1002 dvd t \<and> 1005 dvd t)"
    "\<not> (1003 dvd t \<and> 1004 dvd t)" "\<not> (1003 dvd t \<and> 1005 dvd t)" "\<not> (1004 dvd t \<and> 1005 dvd t)"
proof -
  have apart: "\<not> (a dvd t \<and> b dvd t)" if "335670 \<le> lcm a b" for a b
    using that assms dvd_imp_le [of "lcm a b" t] lcm_least [of a t b] by fastforce
  show "\<not> (1001 dvd t \<and> 1002 dvd t)" "\<not> (1001 dvd t \<and> 1003 dvd t)" "\<not> (1001 dvd t \<and> 1004 dvd t)" "\<not> (1001 dvd t \<and> 1005 dvd t)"
    "\<not> (1002 dvd t \<and> 1003 dvd t)" "\<not> (1002 dvd t \<and> 1004 dvd t)" "\<not> (1002 dvd t \<and> 1005 dvd t)"
    "\<not> (1003 dvd t \<and> 1004 dvd t)" "\<not> (1003 dvd t \<and> 1005 dvd t)" "\<not> (1004 dvd t \<and> 1005 dvd t)"
    by (rule apart, simp add: lcm_nat_def gcd_non_0_nat)+
qed

text \<open>C38. The staggered cycle. In the first cycle the five boards are asked in five consecutive ticks, and for 335669 ticks (about 56 minutes at the table's rate) no tick asks two of them. But the periods differ, so the stagger drifts, and at tick 335670 the MPPT and the COMM board are asked in the same tick, which the rates were chosen to avoid.\<close>

theorem hk_requests_stagger:
  assumes "\<forall>n. core n \<notin> set can_hk_ids"
  shows "map (\<lambda>t. requests_at t core) [1001, 1002, 1003, 1004, 1005] =
      [[own_mid POWERMC_SEND_HK_MID], [own_mid MPPTMC_SEND_HK_MID], [own_mid ADCSMC_SEND_HK_MID],
       [own_mid PAYLOADMC_SEND_HK_MID], [own_mid COMMMC_SEND_HK_MID]] \<and>
    (\<forall>t. 0 < t \<and> t < 335670 \<longrightarrow> length (requests_at t core) \<le> 1) \<and>
    requests_at 335670 core = [own_mid MPPTMC_SEND_HK_MID, own_mid COMMMC_SEND_HK_MID]"
proof (intro conjI allI impI)
  fix t :: nat assume t: "0 < t \<and> t < 335670"
  then show "length (requests_at t core) \<le> 1"
    using at_most_one [of t] by (simp add: requests_are [OF assms])
qed (simp_all add: requests_are [OF assms])

section \<open>Commands the schedule sends\<close>

text \<open>What the documentation of cFE says of the header functions: sizes, and that the id can be read back.\<close>

definition sch_env_ok :: "Sch_Env \<Rightarrow> bool" where
  "sch_env_ok env \<longleftrightarrow> (\<forall>mid n. length (cf_MsgInit (sn_cfs env) mid n) = n) \<and> (\<forall>p c. length (sn_SetFcnCode env p c) = length p) \<and>
     (\<forall>mid n c p. cf_MsgId (sn_cfs env) (sn_SetFcnCode env (take (cf_CmdHeader (sn_cfs env))
        (cf_MsgInit (sn_cfs env) mid (cf_CmdHeader (sn_cfs env) + n))) c @ p) = mid)"

lemma sch_packet_id: "sch_env_ok env \<Longrightarrow> cf_MsgId (sn_cfs env) (sch_packet env ce) = se_MessageID ce"
  by (simp add: sch_env_ok_def sch_packet_def Let_def)

lemma sch_packet_args:
  assumes "sch_env_ok env"
  shows "length (sch_packet env (sched_args mid rate 4 [w0])) = cf_CmdHeader (sn_cfs env) + 4"
    "read_le32 (sch_packet env (sched_args mid rate 4 [w0])) (cf_CmdHeader (sn_cfs env)) = ucast w0"
    "length (sch_packet env (sched_args mid rate 8 [w0, w1, w2])) = cf_CmdHeader (sn_cfs env) + 8"
    "read_le32 (sch_packet env (sched_args mid rate 8 [w0, w1, w2])) (cf_CmdHeader (sn_cfs env) + 4) = ucast w2"
proof -
  have hdr: "length (sn_SetFcnCode env (take (cf_CmdHeader (sn_cfs env)) (cf_MsgInit (sn_cfs env) mid
      (cf_CmdHeader (sn_cfs env) + n))) c) = cf_CmdHeader (sn_cfs env)" for mid n c
    using assms by (simp add: sch_env_ok_def)
  have le: "le16 w @ le16 0 = le32 (ucast w)" for w :: u16
  proof -
    have "\<not> bit w (16 + n)" "\<not> bit w (24 + n)" for n
      using bit_imp_le_length [of w "16 + n"] bit_imp_le_length [of w "24 + n"] by auto
    then show ?thesis by (auto simp: le16_def le32_def bit_simps intro!: bit_word_eqI)
  qed
  have rep: "replicate 31 x = x # replicate 30 x" "replicate 29 x = x # replicate 28 x" for x :: u16
    by (simp_all only: replicate_Suc [symmetric]) simp_all
  have args: "sch_packet env (sched_args mid rate 4 [w0]) = sn_SetFcnCode env (take (cf_CmdHeader (sn_cfs env))
      (cf_MsgInit (sn_cfs env) mid (cf_CmdHeader (sn_cfs env) + 4))) 0 @ le32 (ucast w0)"
    "sch_packet env (sched_args mid rate 8 [w0, w1, w2]) = (sn_SetFcnCode env (take (cf_CmdHeader (sn_cfs env))
      (cf_MsgInit (sn_cfs env) mid (cf_CmdHeader (sn_cfs env) + 8))) 0 @ le16 w0 @ le16 w1) @ le32 (ucast w2)"
    unfolding le [symmetric]
    using rep by (simp_all add: sch_packet_def sched_args_def Let_def SCH_LAB_MAX_ARGS_PER_ENTRY_def le16_def)
  show "length (sch_packet env (sched_args mid rate 4 [w0])) = cf_CmdHeader (sn_cfs env) + 4"
    "length (sch_packet env (sched_args mid rate 8 [w0, w1, w2])) = cf_CmdHeader (sn_cfs env) + 8"
    by (simp_all add: args hdr le16_def le32_def)
  show "read_le32 (sch_packet env (sched_args mid rate 4 [w0])) (cf_CmdHeader (sn_cfs env)) = ucast w0"
    unfolding args(1) using read_le32_at [OF hdr [of mid 4 0], of "ucast w0" "[]"] by simp
  show "read_le32 (sch_packet env (sched_args mid rate 8 [w0, w1, w2])) (cf_CmdHeader (sn_cfs env) + 4) = ucast w2"
    unfolding args(2)
    using read_le32_at [of "sn_SetFcnCode env (take (cf_CmdHeader (sn_cfs env)) (cf_MsgInit (sn_cfs env) mid
      (cf_CmdHeader (sn_cfs env) + 8))) 0 @ le16 w0 @ le16 w1" "cf_CmdHeader (sn_cfs env) + 4" "ucast w2" "[]"] hdr [of mid 8 0]
    by (simp add: le16_def)
qed

text \<open>The command arguments of the table fit the receivers. The entry for HK is due every 1006 ticks, and its packet passes the length check of HK and makes it send the combined packet whose id is in the arguments; the one for the COMM application carries the task id 1 (send minimal telemetry) where the C structure has it.\<close>

theorem scheduled_commands:
  assumes "sch_env_ok env"
  shows "\<exists>hk comm. {hk, comm} \<subseteq> set (st_Config (cpu1_schedule core)) \<and>
    (\<forall>t. due t hk \<longleftrightarrow> 1006 dvd t) \<and>
    (\<forall>tb s tr. HK_AppPipe (sn_cfs env) tb (sch_packet env hk) s tr = HK_SendCombinedHkPacket (sn_cfs env) 0x089C s tr) \<and>
    cf_MsgId (sn_cfs env) (sch_packet env comm) = COMMMC_CMD_MSGID \<and>
    length (sch_packet env comm) = cf_CmdHeader (sn_cfs env) + 8 \<and>
    read_le32 (sch_packet env comm) (cf_CmdHeader (sn_cfs env) + 4) = 1"
proof (intro exI conjI)
  let ?hk = "sched_args HK_SEND_COMBINED_PKT_MID HK_COMBINED_RATE 4 [0x089C]" and ?comm = "sched_args COMMMC_CMD_MSGID 1201 8 [0, 175, 1]"
  show "{?hk, ?comm} \<subseteq> set (st_Config (cpu1_schedule core))"
    by (simp add: cpu1_schedule_def mission_schedule_def cpu1_entries SCH_LAB_MAX_SCHEDULE_ENTRIES_def)
  show "\<forall>t. due t ?hk \<longleftrightarrow> 1006 dvd t" by (simp add: due_def sched_args_def hk_rate_defs)
  have "se_MessageID ?hk = HK_SEND_COMBINED_PKT_MID" "se_MessageID ?comm = COMMMC_CMD_MSGID" by (simp_all add: sched_args_def)
  with sch_packet_id [OF assms] have ids: "cf_MsgId (sn_cfs env) (sch_packet env ?hk) = HK_SEND_COMBINED_PKT_MID"
    "cf_MsgId (sn_cfs env) (sch_packet env ?comm) = COMMMC_CMD_MSGID" by metis+
  show "\<forall>tb s tr. HK_AppPipe (sn_cfs env) tb (sch_packet env ?hk) s tr = HK_SendCombinedHkPacket (sn_cfs env) 0x089C s tr"
    by (simp add: HK_AppPipe_def ids HK_SendCombinedPktVerifyDispatch_def HK_VerifyMsgLength_def HK_SendCombinedPktCmd_def
        sch_packet_args [OF assms])
  show "cf_MsgId (sn_cfs env) (sch_packet env ?comm) = COMMMC_CMD_MSGID" by (rule ids)
qed (simp_all add: sch_packet_args [OF assms])

text \<open>C37. DS is never asked for housekeeping. The build defines the macro that would put its request into the table under the name in lower case only, and the target lists the application in upper case; so, whatever ticks come, no packet the scheduler sends has the id of the request, on which alone DS tests the age of its files. With the name in lower case the request is in the table.\<close>

theorem ds_housekeeping_never_requested:
  assumes env: "sch_env_ok env" "fst (SCH_LAB_AppInit env []) = CFE_SUCCESS" "sn_Table env = cpu1_schedule core"
    and core: "\<forall>n. core n \<noteq> DS_SEND_HK_MID"
    and ticks: "\<forall>st\<in>set before. st \<noteq> CFE_SUCCESS" "length after + 1 < 4294967296"
  shows "\<exists>es tr. SCH_LAB_AppMain env (map SCH_Tick before @ SCH_Tick CFE_SUCCESS # map SCH_Tick after @ [SCH_Shutdown]) =
      Returns (es, tr) \<and> (\<forall>p\<in>set (cfs_sent tr). cf_MsgId (sn_cfs env) p \<noteq> DS_SEND_HK_MID) \<and>
    DS_SEND_HK_MID \<in> se_MessageID ` set (mission_entries_of (have_macro (''ds'' # cpu1_apps)) core)"
proof -
  have "have_macro (''ds'' # cpu1_apps) ''DS''" by code_simp
  then have "DS_SEND_HK_MID \<in> se_MessageID ` set (mission_entries_of (have_macro (''ds'' # cpu1_apps)) core)"
    by (simp add: mission_entries_of_def image_Un sched_def sched_args_def)
  moreover have "sch_table_ok (sn_Table env)" unfolding env(3) by (rule cpu1_table_ok)
  from sch_runs [OF env(2) this ticks] obtain es tr where run:
    "SCH_LAB_AppMain env (map SCH_Tick before @ SCH_Tick CFE_SUCCESS # map SCH_Tick after @ [SCH_Shutdown]) = Returns (es, tr)"
    "cfs_sent tr = concat (map (\<lambda>t. map (sch_packet env) (filter (due t) (st_Config (sn_Table env)))) [1..<length after + 2])"
    by blast
  have "se_MessageID ce \<noteq> DS_SEND_HK_MID" if "ce \<in> set (mission_entries_of (have_macro cpu1_apps) core)" for ce
    using that core unfolding cpu1_entries
    by (auto simp: sched_def sched_args_def own_mid_def COMMMC_CMD_MSGID_def HK_SEND_COMBINED_PKT_MID_def DS_SEND_HK_MID_def)
  then have "\<forall>p\<in>set (cfs_sent tr). cf_MsgId (sn_cfs env) p \<noteq> DS_SEND_HK_MID"
    unfolding run(2) env(3) cpu1_due using sch_packet_id [OF env(1)] by auto
  ultimately show ?thesis using run(1) by blast
qed


section \<open>Witnesses\<close>

text \<open>An environment in which every call succeeds, with an id and a function code in a header of eight bytes.\<close>

definition sch_cfs :: Cfs_Env where
  "sch_cfs = \<lparr>cf_svc = \<lambda>tr v. CFE_SUCCESS, cf_GetPoolBuf = \<lambda>tr n. (0, 0), cf_PutPoolBuf = \<lambda>tr a. 0, cf_IsValidMsgId = \<lambda>m. m \<noteq> 0,
     cf_MsgInit = \<lambda>mid n. take n (le32 mid @ zeros n), cf_MsgId = \<lambda>p. read_le32 p 0, cf_FcnCode = \<lambda>p. read_le16 p 4,
     cf_TimeStamp = \<lambda>tr p. p, cf_CmdHeader = 8, cf_TlmHeader = 12\<rparr>"

definition sch_env :: Sch_Env where
  "sch_env = \<lparr>sn_cfs = sch_cfs, sn_SetFcnCode = \<lambda>p c. take (length p) (take 4 p @ le16 c @ drop 6 p),
     sn_Table = cpu1_schedule (\<lambda>n. 1), sn_OneHz = 0x1811\<rparr>"

lemma sch_env_good: "sch_env_ok sch_env" "fst (SCH_LAB_AppInit sch_env []) = CFE_SUCCESS" "sn_Table sch_env = cpu1_schedule (\<lambda>n. 1)"
proof -
  have "read_le32 (le32 mid @ p) 0 = mid" for mid p using read_le32_at [of "[]" 0 mid p] by simp
  moreover have "take 4 (le32 mid @ p) = le32 mid" "length (le32 mid) = 4" for mid p by (simp_all add: le32_def)
  ultimately show "sch_env_ok sch_env"
    by (auto simp: sch_env_ok_def sch_env_def sch_cfs_def zeros_def min_def le16_def)
  show "fst (SCH_LAB_AppInit sch_env []) = CFE_SUCCESS"
    by (simp add: SCH_LAB_AppInit_def Let_def sch_or_def sch_configure_def cfs_call_def sch_env_def sch_cfs_def split: prod.splits)
qed (simp add: sch_env_def)

theorem sch_schedule_witness:
  "\<exists>es tr. SCH_LAB_AppMain sch_env (map SCH_Tick [CFE_SB_TIME_OUT] @ SCH_Tick CFE_SUCCESS # map SCH_Tick [CFE_SUCCESS, CFE_SB_TIME_OUT] @ [SCH_Shutdown]) =
      Returns (es, tr) \<and>
    cfs_sent tr = concat (map (\<lambda>t. map (sch_packet sch_env) (filter (due t) (st_Config (sn_Table sch_env)))) [1..<length [CFE_SUCCESS, CFE_SB_TIME_OUT] + 2])"
  by (rule sch_schedule) (simp_all add: sch_env_good cpu1_table_ok)

theorem hk_requests_stagger_witness:
  "map (\<lambda>t. requests_at t (\<lambda>n. 1)) [1001, 1002, 1003, 1004, 1005] =
      [[own_mid POWERMC_SEND_HK_MID], [own_mid MPPTMC_SEND_HK_MID], [own_mid ADCSMC_SEND_HK_MID],
       [own_mid PAYLOADMC_SEND_HK_MID], [own_mid COMMMC_SEND_HK_MID]] \<and>
    length (requests_at 335669 (\<lambda>n. 1)) \<le> 1 \<and>
    requests_at 335670 (\<lambda>n. 1) = [own_mid MPPTMC_SEND_HK_MID, own_mid COMMMC_SEND_HK_MID]"
proof -
  have "\<forall>n. (1 :: u32) \<notin> set can_hk_ids" by (simp add: can_hk_ids_def own_mid_def)
  from hk_requests_stagger [of "\<lambda>n. 1", OF this] show ?thesis by auto
qed

theorem scheduled_commands_witness:
  "\<exists>hk comm. {hk, comm} \<subseteq> set (st_Config (cpu1_schedule (\<lambda>n. 1))) \<and>
    (\<forall>t. due t hk \<longleftrightarrow> 1006 dvd t) \<and>
    (\<forall>tb s tr. HK_AppPipe (sn_cfs sch_env) tb (sch_packet sch_env hk) s tr = HK_SendCombinedHkPacket (sn_cfs sch_env) 0x089C s tr) \<and>
    cf_MsgId (sn_cfs sch_env) (sch_packet sch_env comm) = COMMMC_CMD_MSGID \<and>
    length (sch_packet sch_env comm) = cf_CmdHeader (sn_cfs sch_env) + 8 \<and>
    read_le32 (sch_packet sch_env comm) (cf_CmdHeader (sn_cfs sch_env) + 4) = 1"
  by (rule scheduled_commands [OF sch_env_good(1)])

theorem ds_housekeeping_never_requested_witness:
  "\<exists>es tr. SCH_LAB_AppMain sch_env (map SCH_Tick [CFE_SB_TIME_OUT] @ SCH_Tick CFE_SUCCESS # map SCH_Tick [CFE_SUCCESS] @ [SCH_Shutdown]) =
      Returns (es, tr) \<and> DS_SEND_HK_MID \<notin> cf_MsgId (sn_cfs sch_env) ` set (cfs_sent tr) \<and>
    DS_SEND_HK_MID \<in> se_MessageID ` set (mission_entries_of (have_macro (''ds'' # cpu1_apps)) (\<lambda>n. 1))"
proof -
  have "(1 :: u32) \<noteq> DS_SEND_HK_MID" by (simp add: DS_SEND_HK_MID_def)
  from ds_housekeeping_never_requested [OF sch_env_good, of "[CFE_SB_TIME_OUT]" "[CFE_SUCCESS]"] this show ?thesis
    by fastforce
qed

end
