(* ===== verification/Spec2Isabelle.thy ===== *)
theory Spec2Isabelle
  imports Prelude Can_Id Flight_Msgs Flight_Env Segmentation Can_Hal App_Common Can_Io
    Subsystem Decimal Power_App Mppt_App Adcs_App Digest Crc32 Sha256 Img_Xfer Img_Clock Ground_Tx Comm_App Gvcp Payload_App System
    Cfs_Env Hk_App Hk_Packets Hk_Tables
    Ds_State Ds_File Ds_Table Ds_Cmds Ds_App Ds_Hash Ds_Files Ds_Filter Ds_Run Ds_Mission Ds_Photo Ds_Answers
    Commands Hk_Answers Ds_Counts Accounts
    Photo_Archive Sch_Lab Sch_Mission
begin

text \<open>
  \<^bold>\<open>METUCube on-board flight software\<close>

  A model of the flight software of the METUCube on-board computer: cFS applications in C, under
  \<open>src/apps\<close>, with the tables and the build rules that configure them. This theory imports the whole
  development and holds this description; nothing is proved here.

  \<^bold>\<open>The program.\<close> Every application is a task with one software bus pipe and a loop that handles one
  packet at a time. The CAN gateway \<open>canIOMC\<close> is the only one on the CAN and SPI buses: it cuts requests into
  8-byte frames, reassembles the frames of the boards into messages, and publishes them as packets. The
  applications for the boards (\<open>powerMC\<close>, \<open>mpptMC\<close>, \<open>adcsMC\<close>, \<open>commMC\<close>, \<open>payloadMC\<close>) answer housekeeping
  requests from a cache and ask their board for fresh readings through the gateway. \<open>payloadMC\<close> takes
  pictures with four cameras over UDP and publishes them in chunks; \<open>commMC\<close> hands images to the COMM card
  over SPI and sends files to the ground over TCP. HK copies pieces of the packets into combined packets,
  DS writes selected packets to files, and SCH_LAB sends the packets that make the others work.

  \<^bold>\<open>Conventions.\<close> A \<open>struct\<close> is a record, an enumeration or a union a datatype, an integer a word of its
  width, a buffer a list of bytes whose accesses are checked: leaving it is the outcome \<open>OutOfBounds\<close> of the
  type \<open>run\<close> (\<open>Prelude\<close>), a loop that never ends is \<open>Blocked\<close>. The global data of an application is the record
  its functions take and return. Calls that leave \<open>src/\<close> are entries of a trace in the order of the code, with
  the answers they got; the answers come from an environment record of functions of the trace so far, so
  they may be anything unless a theorem says what it relies on. A hypothesis on an environment is the
  documented behaviour of cFE, OSAL or the kernel (a new handle is not in use, a pool buffer does not
  overlap another, a name reads as it was written), and an example environment satisfies it. Event texts,
  console output and performance logs are left out; event numbers and their order are kept.

  \<^bold>\<open>Theories and sources.\<close>
  \<^item> \<open>Prelude\<close>, \<open>Decimal\<close>: words, byte order, checked copies, lists cut into pieces, decimal numerals.
  \<^item> \<open>Can_Id\<close> (\<open>canIOMC_hal.h\<close>), \<open>Segmentation\<close> (\<open>canIOMC_segmentation.c\<close>): the identifier macros, the sender
    \<open>CANIO_SendSegmented\<close>, the slot table and \<open>CANIO_FeedFrame\<close>. The locale \<open>reassembly\<close> is an engine on finite
    maps; \<open>slot_table\<close> interprets it on the slot array: refinement, the round trip, streams apart.
  \<^item> \<open>Can_Hal\<close> (\<open>canIOMC_hal_socketcan.c\<close>, \<open>canIOMC_spi_hal_spidev.c\<close>): the two drivers over their system calls.
  \<^item> \<open>Flight_Msgs\<close>, \<open>Flight_Env\<close>, \<open>App_Common\<close>: the packets, the calls and their trace, and the start, table
    and loop code that every METUCube application repeats.
  \<^item> \<open>Can_Io\<close> (\<open>canIOMC_app*.c\<close>): commands, router, parsing and receive loop of the gateway.
  \<^item> \<open>Subsystem\<close>: the locale \<open>hk_subsystem\<close>, the housekeeping contract of the board applications with its
    saturating miss counter and stale flag; interpreted in \<open>Power_App\<close>, \<open>Mppt_App\<close>, \<open>Adcs_App\<close>, \<open>Comm_App\<close> and
    \<open>Payload_App\<close>, each of which models one \<open>*_app.c\<close>, \<open>*_app_cmds.c\<close> and \<open>*_app_dispatch.c\<close>.
  \<^item> \<open>Digest\<close>, \<open>Crc32\<close>, \<open>Sha256\<close> (\<open>crc-32.c\<close>, \<open>sha-256.c\<close>): the locale \<open>stream_digest\<close> with its two
    implementations, the table against the bitwise CRC and the streaming hash against the standard.
  \<^item> \<open>Img_Xfer\<close> (\<open>commMC_app_imgxfer.c\<close>): the image transfer as a state machine with its invariant by rule
    induction, completion with a cooperative card, and timeout. \<open>Img_Clock\<close> keeps beside it what the SPI
    service reports to have clocked out, a ghost computed from the inputs and the messages, and shows what
    a counted success means.
  \<^item> \<open>Ground_Tx\<close> (\<open>commMC_app_cmds.c\<close>, \<open>commMC_app_utils.c\<close>): endpoint string, send loop, file transmission.
  \<^item> \<open>Gvcp\<close> (\<open>payloadMC_gvcp_hal_udp.c\<close>): camera registers and the capture of a frame.
  \<^item> \<open>System\<close>: the housekeeping of the five boards together, and runs that cross applications.
  \<^item> \<open>Cfs_Env\<close>, \<open>Commands\<close>: the byte-level environment of HK, DS and SCH_LAB; the locale \<open>counted_commands\<close>,
    interpreted in \<open>Hk_Answers\<close> and \<open>Ds_Answers\<close> and used for both in \<open>Accounts\<close>.
  \<^item> \<open>Hk_App\<close>, \<open>Hk_Packets\<close>, \<open>Hk_Tables\<close> (\<open>hk_app.c\<close>, \<open>hk_dispatch.c\<close>, \<open>hk_utils.c\<close>, \<open>hk_cpy_tbl.c\<close>): the model,
    what a combined packet holds, and the pool buffers and subscriptions over the life of a copy table.
  \<^item> \<open>Ds_State\<close>, \<open>Ds_File\<close>, \<open>Ds_Table\<close>, \<open>Ds_Cmds\<close>, \<open>Ds_App\<close> (\<open>ds_file.c\<close>, \<open>ds_table.c\<close>, \<open>ds_cmds.c\<close>,
    \<open>ds_dispatch.c\<close>, \<open>ds_app.c\<close>): the model of DS. \<open>Ds_Hash\<close> shows that the hash lists find what a search
    through the table finds, \<open>Ds_Files\<close> that the recorded files are the open ones with their names and exact sizes,
    \<open>Ds_Filter\<close> what passes a filter, \<open>Ds_Run\<close> that the application returns from every packet but ADD MID,
    \<open>Ds_Counts\<close> and \<open>Ds_Answers\<close> how it answers commands; \<open>Ds_Mission\<close> holds the tables of \<open>ds_filter_tbl.c\<close> and
    \<open>ds_file_tbl.c\<close>, \<open>Ds_Photo\<close> and \<open>Photo_Archive\<close> follow a photo from the camera into its file.
  \<^item> \<open>Sch_Lab\<close>, \<open>Sch_Mission\<close> (\<open>sch_lab_app.c\<close>, \<open>sch_lab_table.c\<close>, \<open>CMakeLists.txt\<close>, \<open>targets.cmake\<close>): the
    scheduler, and the schedule the build of the flight computer gives it.

  \<^bold>\<open>Bounds and termination.\<close> No definition uses fuel. Loops over tables and buffers are structural
  or have a measure. A main loop is recursive in the list of inputs its receive call gets, and is \<open>Blocked\<close>
  when the list ends while the application still runs; so are the three loops of the
  program that wait for a peer, the receive loop of the gateway, the capture of a frame and the send loop
  of the ground link, whose theorems say which answers make them return. The walks along the hash lists of DS are partial functions with \<open>None\<close> for no
  end, because a list can become a cycle (\<open>add_mid_cycle\<close>); \<open>ds_main\<close> and \<open>ds_message\<close> exclude exactly the
  command that closes it. Counters keep their width, so sums hold modulo \<open>2 ^ w\<close> where the code wraps; a
  capture is at most 64 MB, hence at most 8193 chunks of 8192 bytes (\<open>captured_chunks\<close>).

  \<^bold>\<open>Not modelled.\<close> The listener task of \<open>commMC_app_cmds.c\<close>, a thread that only reads the serial line and
  logs. Interleaving within one application: each is a single task, and cFE delivers its packets in order;
  runs across applications are sequences of their steps. Floating point: a \<open>float\<close> is its bit pattern,
  which the code only moves and prints. The contents of the memory the code reads without having
  written it are parameters (\<open>junk\<close>). cFE, OSAL and the board side of the protocols are outside \<open>src/\<close>. The
  unit tests and stubs of HK and DS, the configuration headers of cFE, compile-time checks, and the Python
  and test tools do not run on the flight computer as part of this program.
\<close>

end
